(* ===== verification/Prelude.thy ===== *)
theory Prelude imports Complex_Main "HOL-Library.AList" "HOL-Library.Sublist" begin

text \<open>
  What every component shares: the JavaScript strings and \<open>Map\<close>s the sources use, the
  collections of facts the component proofs draw on, and the interface of a keyed
  store (locale \<open>keyed_store\<close>, interpreted on the model of \<open>Map\<close>).

  A JavaScript string is modelled as a list of characters. Every string the modelled
  code inspects (identifiers, headers, SQL keywords, serial numbers, host names) is
  ASCII; characters above 127 stand for the Latin-1 code units, on which case mapping
  is the identity here. Messages shown to a user are not modelled as text: a constructor
  of the component's error datatype stands for each.
\<close>

section \<open>Collections of facts\<close>

named_theorems js_eval \<open>equations that evaluate the JavaScript string functions\<close>
named_theorems store_simps \<open>laws of the keyed stores\<close>

section \<open>Strings\<close>

type_synonym jsstring = string

definition js_space :: "char \<Rightarrow> bool" where
  "js_space c \<longleftrightarrow> c \<in> {CHR 0x09, CHR 0x0A, CHR 0x0B, CHR 0x0C, CHR 0x0D, CHR 0x20, CHR 0xA0}"

definition js_trim :: "jsstring \<Rightarrow> jsstring" where
  "js_trim s = rev (dropWhile js_space (rev (dropWhile js_space s)))"

definition lower_char :: "char \<Rightarrow> char" where
  "lower_char c = (let n = of_char c :: nat in if 65 \<le> n \<and> n \<le> 90 then char_of (n + 32) else c)"

definition upper_char :: "char \<Rightarrow> char" where
  "upper_char c = (let n = of_char c :: nat in if 97 \<le> n \<and> n \<le> 122 then char_of (n - 32) else c)"

definition js_lower :: "jsstring \<Rightarrow> jsstring" where
  "js_lower s = map lower_char s"

definition js_upper :: "jsstring \<Rightarrow> jsstring" where
  "js_upper s = map upper_char s"

definition starts_with :: "jsstring \<Rightarrow> jsstring \<Rightarrow> bool" where
  "starts_with p s \<longleftrightarrow> take (length p) s = p"

definition js_slice :: "jsstring \<Rightarrow> nat \<Rightarrow> nat \<Rightarrow> jsstring" where
  "js_slice s a b = take (b - a) (drop a s)"

fun js_split :: "char \<Rightarrow> jsstring \<Rightarrow> jsstring list" where
  "js_split d [] = [[]]"
| "js_split d (c # cs) =
     (if c = d then [] # js_split d cs
      else (case js_split d cs of w # ws \<Rightarrow> (c # w) # ws | [] \<Rightarrow> [[c]]))"

fun js_join :: "jsstring \<Rightarrow> jsstring list \<Rightarrow> jsstring" where
  "js_join sep [] = []"
| "js_join sep [w] = w"
| "js_join sep (w # ws) = w @ sep @ js_join sep ws"

text \<open>\<open>s.indexOf(p)\<close>: the first position where \<open>p\<close> occurs.\<close>

fun js_index_of :: "jsstring \<Rightarrow> jsstring \<Rightarrow> nat option" where
  "js_index_of p [] = (if p = [] then Some 0 else None)"
| "js_index_of p (c # cs) =
     (if starts_with p (c # cs) then Some 0 else map_option Suc (js_index_of p cs))"

definition digit_char :: "char \<Rightarrow> bool" where
  "digit_char c \<longleftrightarrow> (let n = of_char c :: nat in 48 \<le> n \<and> n \<le> 57)"

definition lower_alpha :: "char \<Rightarrow> bool" where
  "lower_alpha c \<longleftrightarrow> (let n = of_char c :: nat in 97 \<le> n \<and> n \<le> 122)"

definition upper_alpha :: "char \<Rightarrow> bool" where
  "upper_alpha c \<longleftrightarrow> (let n = of_char c :: nat in 65 \<le> n \<and> n \<le> 90)"

definition alpha_char :: "char \<Rightarrow> bool" where
  "alpha_char c \<longleftrightarrow> lower_alpha c \<or> upper_alpha c"

definition word_char :: "char \<Rightarrow> bool" where
  "word_char c \<longleftrightarrow> alpha_char c \<or> digit_char c \<or> c = CHR ''_''"

definition lower_hex :: "char \<Rightarrow> bool" where
  "lower_hex c \<longleftrightarrow> digit_char c \<or> (let n = of_char c :: nat in 97 \<le> n \<and> n \<le> 102)"

definition hex_char :: "char \<Rightarrow> bool" where
  "hex_char c \<longleftrightarrow> lower_hex (lower_char c)"

definition digit_val :: "char \<Rightarrow> nat" where
  "digit_val c = of_char c - 48"

text \<open>\<open>Number(s)\<close> of a string of decimal digits, and the decimal text of a number.\<close>

definition dec_val :: "jsstring \<Rightarrow> nat" where
  "dec_val s = foldl (\<lambda>n c. 10 * n + digit_val c) 0 s"

fun nat_str :: "nat \<Rightarrow> jsstring" where
  "nat_str n = (if n < 10 then [char_of (48 + n)] else nat_str (n div 10) @ [char_of (48 + n mod 10)])"

declare nat_str.simps [simp del]

lemmas js_char_defs = digit_char_def lower_alpha_def upper_alpha_def alpha_char_def word_char_def
  lower_hex_def hex_char_def lower_char_def upper_char_def js_space_def Let_def

lemma js_split_not_Nil [simp]: "js_split d s \<noteq> []"
  by (induction s) (auto split: list.splits)

lemma js_join_split: "js_join [d] (js_split d s) = s"
proof (induction s)
  case (Cons c cs)
  then show ?case
    by (cases "js_split d cs"; cases "tl (js_split d cs)") auto
qed simp

lemma length_js_lower [simp]: "length (js_lower s) = length s"
  by (simp add: js_lower_def)

lemma js_lower_append [simp]: "js_lower (s @ t) = js_lower s @ js_lower t"
  by (simp add: js_lower_def)

lemma char_eqI: "of_char c = (of_char d :: nat) \<Longrightarrow> c = d"
  by (metis char_of_char)

lemma char_eq_iff: "c = d \<longleftrightarrow> of_char c = (of_char d :: nat)"
  by (auto intro: char_eqI)

lemma of_char_lower_char:
  "of_char (lower_char c) =
     (if 65 \<le> (of_char c :: nat) \<and> (of_char c :: nat) \<le> 90 then of_char c + 32 else of_char c :: nat)"
  by (simp add: lower_char_def Let_def)

lemma of_char_upper_char:
  "of_char (upper_char c) =
     (if 97 \<le> (of_char c :: nat) \<and> (of_char c :: nat) \<le> 122 then of_char c - 32 else of_char c :: nat)"
proof -
  have "(of_char c - 32) mod 256 = (of_char c - 32 :: nat)"
    by (metis less_imp_diff_less mod_less nat_of_char_less_256)
  then show ?thesis by (simp add: upper_char_def Let_def)
qed

lemma lower_char_idem [simp]: "lower_char (lower_char c) = lower_char c"
  by (rule char_eqI) (simp add: of_char_lower_char)

lemma upper_char_idem [simp]: "upper_char (upper_char c) = upper_char c"
  by (rule char_eqI) (simp add: of_char_upper_char, arith)

lemma upper_lower_char [simp]: "upper_char (lower_char c) = upper_char c"
  by (rule char_eqI) (simp add: of_char_upper_char of_char_lower_char)

lemma lower_upper_char [simp]: "lower_char (upper_char c) = lower_char c"
  by (rule char_eqI) (simp add: of_char_upper_char of_char_lower_char, arith)

lemma js_lower_idem [simp]: "js_lower (js_lower s) = js_lower s"
  by (simp add: js_lower_def)

lemma js_upper_idem [simp]: "js_upper (js_upper s) = js_upper s"
  by (simp add: js_upper_def)

lemma js_upper_lower [simp]: "js_upper (js_lower s) = js_upper s"
  by (simp add: js_lower_def js_upper_def)

lemma js_lower_upper [simp]: "js_lower (js_upper s) = js_lower s"
  by (simp add: js_lower_def js_upper_def)

lemma js_space_iff:
  "js_space c \<longleftrightarrow> (of_char c :: nat) \<in> {9, 10, 11, 12, 13, 32, 160}"
  by (auto simp: js_space_def intro!: char_eqI)

lemma js_space_lower [simp]: "js_space (lower_char c) = js_space c"
  by (auto simp: js_space_iff of_char_lower_char)

lemma js_space_upper [simp]: "js_space (upper_char c) = js_space c"
  by (auto simp: js_space_iff of_char_upper_char)

lemma dropWhile_map_inv: "(\<And>c. P (f c) = P c) \<Longrightarrow> dropWhile P (map f s) = map f (dropWhile P s)"
  by (induction s) auto

lemma js_trim_lower: "js_trim (js_lower s) = js_lower (js_trim s)"
  by (simp add: js_trim_def js_lower_def dropWhile_map_inv rev_map)

lemma js_trim_upper: "js_trim (js_upper s) = js_upper (js_trim s)"
  by (simp add: js_trim_def js_upper_def dropWhile_map_inv rev_map)

lemma hd_rev_dropWhile_rev:
  assumes "rev (dropWhile P (rev s)) = a # as" shows "hd s = a \<and> s \<noteq> []"
proof -
  have "s = rev (dropWhile P (rev s)) @ rev (takeWhile P (rev s))"
    by (metis rev_append rev_rev_ident takeWhile_dropWhile_id)
  with assms have "s = (a # as) @ rev (takeWhile P (rev s))" by simp
  then show ?thesis by (metis append_Cons list.distinct(1) list.sel(1))
qed

lemma dropWhile_trimmed:
  assumes "s = [] \<or> \<not> P (hd s)"
  shows "dropWhile P (rev (dropWhile P (rev s))) = rev (dropWhile P (rev s))"
proof (cases "rev (dropWhile P (rev s))")
  case (Cons a as)
  from hd_rev_dropWhile_rev [OF this] assms Cons show ?thesis by auto
next
  case Nil
  then show ?thesis by (simp only: Nil) simp
qed

lemma js_trim_idem [simp]: "js_trim (js_trim s) = js_trim s"
proof -
  have "dropWhile js_space s = [] \<or> \<not> js_space (hd (dropWhile js_space s))"
    by (metis hd_dropWhile)
  then show ?thesis
    by (simp add: js_trim_def dropWhile_trimmed)
qed

lemma starts_withI [simp]: "starts_with p (p @ s)"
  by (simp add: starts_with_def)

lemma starts_with_prefix: "starts_with p s \<longleftrightarrow> prefix p s"
  by (metis append_take_drop_id prefixI prefix_def starts_with_def starts_withI)

lemma nat_str_not_Nil [simp]: "nat_str n \<noteq> []"
  by (subst nat_str.simps) simp

section \<open>Insertion-ordered maps\<close>

text \<open>
  A JavaScript \<open>Map\<close> (or plain object) is an association list in insertion order with
  distinct keys: \<open>set\<close> overwrites in place or appends, \<open>delete\<close> removes.
\<close>

type_synonym ('k, 'v) jsmap = "('k \<times> 'v) list"

abbreviation jm_wf :: "('k, 'v) jsmap \<Rightarrow> bool" where
  "jm_wf m \<equiv> distinct (map fst m)"

definition jm_get :: "('k, 'v) jsmap \<Rightarrow> 'k \<Rightarrow> 'v option" where
  "jm_get m k = map_of m k"

definition jm_set :: "'k \<Rightarrow> 'v \<Rightarrow> ('k, 'v) jsmap \<Rightarrow> ('k, 'v) jsmap" where
  "jm_set k v m = AList.update k v m"

definition jm_del :: "'k \<Rightarrow> ('k, 'v) jsmap \<Rightarrow> ('k, 'v) jsmap" where
  "jm_del k m = AList.delete k m"

definition jm_keys :: "('k, 'v) jsmap \<Rightarrow> 'k set" where
  "jm_keys m = fst ` set m"

text \<open>
  The interface of a keyed store: what a component relies on when it keeps state in a
  \<open>Map\<close>.
\<close>

locale keyed_store =
  fixes get :: "'s \<Rightarrow> 'k \<Rightarrow> 'v option"
    and put :: "'k \<Rightarrow> 'v \<Rightarrow> 's \<Rightarrow> 's"
    and del :: "'k \<Rightarrow> 's \<Rightarrow> 's"
    and ok :: "'s \<Rightarrow> bool"
  assumes get_put: "get (put k v s) k' = (if k' = k then Some v else get s k')"
    and get_del: "get (del k s) k' = (if k' = k then None else get s k')"
    and ok_put: "ok s \<Longrightarrow> ok (put k v s)"
    and ok_del: "ok s \<Longrightarrow> ok (del k s)"
begin

lemma del_put_same: "get (del k (put k v s)) = get (del k s)"
  by (rule ext) (simp add: get_del get_put)

lemma put_put_same: "get (put k v (put k w s)) = get (put k v s)"
  by (rule ext) (simp add: get_put)

lemma put_commute: "j \<noteq> k \<Longrightarrow> get (put j v (put k w s)) = get (put k w (put j v s))"
  by (rule ext) (simp add: get_put)

lemma ok_fold_del: "ok s \<Longrightarrow> ok (fold del ks s)"
  by (induction ks arbitrary: s) (auto intro: ok_del)

lemma get_fold_del: "get (fold del ks s) k = (if k \<in> set ks then None else get s k)"
  by (induction ks arbitrary: s) (auto simp: get_del)

end

interpretation jm: keyed_store jm_get jm_set jm_del jm_wf
  by unfold_locales
    (auto simp: jm_get_def jm_set_def jm_del_def update_conv' delete_conv' distinct_update
       intro: distinct_delete)

lemmas jm_simps [store_simps, simp] = jm.get_put jm.get_del

lemmas jm_wf_intros [intro] = jm.ok_put jm.ok_del jm.ok_fold_del

lemma jm_get_Nil [simp]: "jm_get [] k = None"
  by (simp add: jm_get_def)

lemma jm_keys_iff: "k \<in> jm_keys m \<longleftrightarrow> jm_get m k \<noteq> None"
  by (force simp: jm_keys_def jm_get_def map_of_eq_None_iff)

lemma jm_get_in: "jm_get m k = Some v \<Longrightarrow> (k, v) \<in> set m"
  by (simp add: jm_get_def map_of_SomeD)

lemma jm_get_iff: "jm_wf m \<Longrightarrow> jm_get m k = Some v \<longleftrightarrow> (k, v) \<in> set m"
  by (simp add: jm_get_def map_of_eq_Some_iff)

lemma jm_wf_filter [intro]: "jm_wf m \<Longrightarrow> jm_wf (filter P m)"
  by (simp add: distinct_map_filter)

lemma jm_get_filter:
  assumes "jm_wf m"
  shows "jm_get (filter P m) k =
     (case jm_get m k of None \<Rightarrow> None | Some v \<Rightarrow> if P (k, v) then Some v else None)"
proof (rule option.exhaust [of "jm_get (filter P m) k"])
  assume none: "jm_get (filter P m) k = None"
  then show ?thesis
    using assms by (force simp: jm_get_def map_of_eq_None_iff split: option.splits dest!: map_of_SomeD)
next
  fix v assume some: "jm_get (filter P m) k = Some v"
  then have "(k, v) \<in> set m" "P (k, v)" by (auto dest!: jm_get_in)
  moreover from this assms have "jm_get m k = Some v" by (simp add: jm_get_iff)
  ultimately show ?thesis using some by simp
qed

lemma length_jm_del: "length (jm_del k m) \<le> length m"
  by (simp add: jm_del_def length_delete_le)

section \<open>Options and sums\<close>

text \<open>\<open>a ?? b\<close>: the second value where the first is null or undefined.\<close>

definition or_else :: "'a option \<Rightarrow> 'a \<Rightarrow> 'a" where
  "or_else a b = (case a of None \<Rightarrow> b | Some x \<Rightarrow> x)"

lemma or_else_simps [simp]: "or_else None b = b" "or_else (Some a) b = a"
  by (simp_all add: or_else_def)

definition truthy :: "jsstring option \<Rightarrow> bool" where
  "truthy s \<longleftrightarrow> s \<noteq> None \<and> s \<noteq> Some []"

text \<open>\<open>s || null\<close>.\<close>

definition or_null :: "jsstring option \<Rightarrow> jsstring option" where
  "or_null s = (if truthy s then s else None)"

definition first_some :: "'a option \<Rightarrow> 'a option \<Rightarrow> 'a option" where
  "first_some a b = (case a of None \<Rightarrow> b | Some x \<Rightarrow> Some x)"

lemma first_some_simps [simp]: "first_some None b = b" "first_some (Some a) b = Some a"
  by (simp_all add: first_some_def)

fun is_inr :: "'a + 'b \<Rightarrow> bool" where
  "is_inr (Inl _) = False"
| "is_inr (Inr _) = True"

text \<open>The elements of a list without repetition, in order of first occurrence (\<open>[...new Set(xs)]\<close>).\<close>

fun js_uniq :: "'a list \<Rightarrow> 'a list" where
  "js_uniq [] = []"
| "js_uniq (x # xs) = x # filter (\<lambda>y. y \<noteq> x) (js_uniq xs)"

lemma set_js_uniq [simp]: "set (js_uniq xs) = set xs"
  by (induction xs) auto

lemma distinct_js_uniq [simp]: "distinct (js_uniq xs)"
  by (induction xs) auto

section \<open>Tables\<close>

text \<open>\<open>UPDATE ... SET f WHERE P\<close> on the rows of a table.\<close>

definition update_rows :: "('r \<Rightarrow> bool) \<Rightarrow> ('r \<Rightarrow> 'r) \<Rightarrow> 'r list \<Rightarrow> 'r list" where
  "update_rows P f rows = map (\<lambda>r. if P r then f r else r) rows"

lemma length_update_rows [simp]: "length (update_rows P f rows) = length rows"
  by (simp add: update_rows_def)

lemma update_rows_Nil [simp]: "update_rows P f [] = []"
  by (simp add: update_rows_def)

lemma update_rows_Cons [simp]:
  "update_rows P f (r # rows) = (if P r then f r else r) # update_rows P f rows"
  by (simp add: update_rows_def)

lemma update_rows_append [simp]:
  "update_rows P f (xs @ ys) = update_rows P f xs @ update_rows P f ys"
  by (simp add: update_rows_def)

lemma in_update_rows: "r' \<in> set (update_rows P f rows) \<longleftrightarrow> (\<exists>r \<in> set rows. r' = (if P r then f r else r))"
  by (auto simp: update_rows_def)

lemma update_rowsE:
  assumes "x \<in> set (update_rows P f rs)" obtains r where "r \<in> set rs" "x = (if P r then f r else r)"
  using assms by (auto simp: update_rows_def)

lemma ball_update_rows:
  assumes "\<forall>x \<in> set xs. Q x" "\<And>x. x \<in> set xs \<Longrightarrow> P x \<Longrightarrow> Q x \<Longrightarrow> Q (f x)"
  shows "\<forall>x \<in> set (update_rows P f xs). Q x"
  using assms by (auto simp: update_rows_def)

lemma update_rows_keep: "x \<in> set xs \<Longrightarrow> \<not> P x \<Longrightarrow> x \<in> set (update_rows P f xs)"
  unfolding in_update_rows by (intro bexI [of _ x]) simp_all

lemma map_update_rows [simp]:
  assumes "\<And>r. g (f r) = g r" shows "map g (update_rows P f rows) = map g rows"
  using assms by (auto simp: update_rows_def)

lemma find_row_unique: "distinct (map f xs) \<Longrightarrow> x \<in> set xs \<Longrightarrow> find (\<lambda>y. f y = f x) xs = Some x"
  by (induction xs) (auto simp: image_iff)

lemma find_update_rows:
  assumes "\<And>r. Q (f r) = Q r"
  shows "find Q (update_rows P f rows) = map_option (\<lambda>r. if P r then f r else r) (find Q rows)"
  using assms by (induction rows) auto

section \<open>JSON values\<close>

text \<open>
  Values that come from a parsed JSON body. A JSON number is a finite number: a rational
  here (the rounding of decimals to doubles is not modelled). An absent property
  (\<open>undefined\<close>) is \<open>None\<close> at type \<open>json option\<close>.
\<close>

datatype json =
    JNull
  | JBool bool
  | JNum rat
  | JStr jsstring
  | JArr "json list"
  | JObj "(jsstring \<times> json) list"

fun is_nullish :: "json option \<Rightarrow> bool" where
  "is_nullish None = True"
| "is_nullish (Some JNull) = True"
| "is_nullish _ = False"

text \<open>Property access \<open>v?.name\<close> on a parsed value.\<close>

fun jprop :: "json option \<Rightarrow> jsstring \<Rightarrow> json option" where
  "jprop (Some (JObj ps)) n = jm_get ps n"
| "jprop _ n = None"

text \<open>Identifiers drawn by the database (\<open>gen_random_uuid()\<close>) and clock readings (milliseconds).\<close>

type_synonym uuid = nat

type_synonym time = int

section \<open>Base64\<close>

text \<open>
  \<open>Buffer.from(s, 'base64')\<close> and \<open>toString('base64')\<close> on byte strings. The decoder
  stops at the padding, skips characters outside the alphabet, and accepts the URL
  variants of the last two digits, as Node does.
\<close>

type_synonym bytes = "char list"

definition b64_digit :: "nat \<Rightarrow> char" where
  "b64_digit n =
     (if n < 26 then char_of (65 + n)
      else if n < 52 then char_of (71 + n)
      else if n < 62 then char_of (n - 4)
      else if n = 62 then CHR ''+'' else CHR 0x2F)"

definition b64_val :: "char \<Rightarrow> nat option" where
  "b64_val c =
     (let n = of_char c in
      if upper_alpha c then Some (n - 65)
      else if lower_alpha c then Some (n - 71)
      else if digit_char c then Some (n + 4)
      else if c = CHR ''+'' \<or> c = CHR ''-'' then Some 62
      else if c = CHR 0x2F \<or> c = CHR ''_'' then Some 63
      else None)"

fun b64_enc :: "bytes \<Rightarrow> jsstring" where
  "b64_enc [] = []"
| "b64_enc [a] = (let x = of_char a in [b64_digit (x div 4), b64_digit (x mod 4 * 16), CHR ''='', CHR ''=''])"
| "b64_enc [a, b] =
     (let x = of_char a; y = of_char b
      in [b64_digit (x div 4), b64_digit (x mod 4 * 16 + y div 16), b64_digit (y mod 16 * 4), CHR ''=''])"
| "b64_enc (a # b # c # rest) =
     (let x = of_char a; y = of_char b; z = of_char c
      in [b64_digit (x div 4), b64_digit (x mod 4 * 16 + y div 16),
          b64_digit (y mod 16 * 4 + z div 64), b64_digit (z mod 64)] @ b64_enc rest)"

fun b64_bytes :: "nat list \<Rightarrow> bytes" where
  "b64_bytes (p # q # r # s # rest) =
     [char_of (p * 4 + q div 16), char_of (q mod 16 * 16 + r div 4), char_of (r mod 4 * 64 + s)] @ b64_bytes rest"
| "b64_bytes [p, q, r] = [char_of (p * 4 + q div 16), char_of (q mod 16 * 16 + r div 4)]"
| "b64_bytes [p, q] = [char_of (p * 4 + q div 16)]"
| "b64_bytes [p] = []"
| "b64_bytes [] = []"

definition b64_dec :: "jsstring \<Rightarrow> bytes" where
  "b64_dec s = b64_bytes (List.map_filter b64_val (takeWhile (\<lambda>c. c \<noteq> CHR ''='') s))"

lemma b64_val_pad: "b64_val (CHR ''='') = None"
  by (simp add: b64_val_def js_char_defs)

lemma b64_val_digit [simp]:
  assumes "n < 64" shows "b64_val (b64_digit n) = Some n"
proof -
  consider "n < 26" | "26 \<le> n" "n < 52" | "52 \<le> n" "n < 62" | "n = 62" | "n = 63"
    using assms by linarith
  then show ?thesis
    by cases (auto simp: b64_val_def b64_digit_def js_char_defs char_eq_iff)
qed

lemma b64_digit_not_pad [simp]: "n < 64 \<Longrightarrow> b64_digit n \<noteq> CHR ''=''"
  by (metis b64_val_digit b64_val_pad option.distinct(1))

end
