(* ===== verification/ModuleLoader.thy ===== *)
theory ModuleLoader imports Prelude begin

text \<open>
  The module loader of the API (\<open>src/api/lib/module-loader.js\<close>): which modules are
  enabled, that their dependencies are enabled too, the order in which they are
  registered (a depth-first topological sort), and the start and stop of their workers.

  A module is its name and what it requires; the dynamic \<open>import()\<close> of
  \<open>modules/<name>/index.js\<close> and the modules' own \<open>register\<close>, \<open>startWorkers\<close> and
  \<open>stopWorkers\<close> are parameters. The recursion of \<open>visit\<close> carries fuel: the number of
  modules plus one is enough (lemma \<open>visit_enough_fuel\<close>).
\<close>

section \<open>Modules and errors\<close>

type_synonym mod_name = jsstring

record module_def =
  m_name :: mod_name
  m_requires :: "mod_name list"

type_synonym modules = "(mod_name, module_def) jsmap"

datatype load_error =
    ForcedOff mod_name
  | BadExport mod_name
  | MissingDep mod_name mod_name
  | Cycle mod_name
  | NoSuchModule mod_name
  | RegisterFailed mod_name
  | OutOfFuel

definition enabledModuleNames :: "(mod_name, bool) jsmap \<Rightarrow> mod_name list" where
  "enabledModuleNames config = map fst (filter snd config)"

definition forced_on :: "mod_name list" where
  "forced_on = [''core'']"

section \<open>Topological sort\<close>

record topo =
  visited :: "mod_name set"
  visiting :: "mod_name set"
  sorted_names :: "mod_name list"

fun visit :: "nat \<Rightarrow> modules \<Rightarrow> mod_name \<Rightarrow> topo \<Rightarrow> load_error + topo"
and visit_deps :: "nat \<Rightarrow> modules \<Rightarrow> mod_name list \<Rightarrow> topo \<Rightarrow> load_error + topo" where
  "visit 0 ms x st = Inl OutOfFuel"
| "visit (Suc n) ms x st =
     (if x \<in> visited st then Inr st
      else if x \<in> visiting st then Inl (Cycle x)
      else (case jm_get ms x of
          None \<Rightarrow> Inl (NoSuchModule x)
        | Some m \<Rightarrow>
            (case visit_deps n ms (m_requires m) (st\<lparr>visiting := insert x (visiting st)\<rparr>) of
               Inl e \<Rightarrow> Inl e
             | Inr st' \<Rightarrow> Inr (st'\<lparr>visiting := visiting st' - {x}, visited := insert x (visited st'),
                                   sorted_names := sorted_names st' @ [x]\<rparr>))))"
| "visit_deps n ms [] st = Inr st"
| "visit_deps n ms (d # ds) st =
     (case visit n ms d st of Inl e \<Rightarrow> Inl e | Inr st' \<Rightarrow> visit_deps n ms ds st')"

definition topoSort :: "modules \<Rightarrow> load_error + mod_name list" where
  "topoSort ms =
     (case visit_deps (Suc (length ms)) ms (map fst ms)
             \<lparr>visited = {}, visiting = {}, sorted_names = []\<rparr> of
        Inl e \<Rightarrow> Inl e
      | Inr st \<Rightarrow> Inr (sorted_names st))"

section \<open>Loading\<close>

text \<open>\<open>imp\<close> is the default export of a module's \<open>index.js\<close>, if it has one.\<close>

fun import_all :: "(mod_name \<Rightarrow> module_def option) \<Rightarrow> mod_name list \<Rightarrow> modules \<Rightarrow> load_error + modules" where
  "import_all imp [] ms = Inr ms"
| "import_all imp (x # xs) ms =
     (case imp x of
        None \<Rightarrow> Inl (BadExport x)
      | Some m \<Rightarrow> if m_name m \<noteq> x then Inl (BadExport x) else import_all imp xs (jm_set x m ms))"

definition first_missing :: "modules \<Rightarrow> module_def \<Rightarrow> mod_name option" where
  "first_missing ms m = find (\<lambda>d. jm_get ms d = None) (m_requires m)"

fun check_requires :: "modules \<Rightarrow> module_def list \<Rightarrow> load_error option" where
  "check_requires ms [] = None"
| "check_requires ms (m # rest) =
     (case first_missing ms m of
        Some d \<Rightarrow> Some (MissingDep (m_name m) d)
      | None \<Rightarrow> check_requires ms rest)"

text \<open>\<open>reg\<close> is a module's \<open>register(fastify)\<close>: the new application, or \<open>None\<close> if it throws.\<close>

fun register_all :: "(module_def \<Rightarrow> 'app \<Rightarrow> 'app option) \<Rightarrow> modules \<Rightarrow> mod_name list \<Rightarrow> 'app
    \<Rightarrow> load_error + 'app" where
  "register_all reg ms [] app = Inr app"
| "register_all reg ms (x # xs) app =
     (case jm_get ms x of
        None \<Rightarrow> Inl (NoSuchModule x)
      | Some m \<Rightarrow> (case reg m app of
          None \<Rightarrow> Inl (RegisterFailed x)
        | Some app' \<Rightarrow> register_all reg ms xs app'))"

definition loadModules :: "(mod_name \<Rightarrow> module_def option) \<Rightarrow> (module_def \<Rightarrow> 'app \<Rightarrow> 'app option)
    \<Rightarrow> (mod_name, bool) jsmap \<Rightarrow> 'app \<Rightarrow> load_error + (modules \<times> 'app)" where
  "loadModules imp reg config app =
     (let enabled = enabledModuleNames config in
      case find (\<lambda>x. x \<notin> set enabled) forced_on of
        Some x \<Rightarrow> Inl (ForcedOff x)
      | None \<Rightarrow>
      (case import_all imp enabled [] of
         Inl e \<Rightarrow> Inl e
       | Inr ms \<Rightarrow>
      (case check_requires ms (map snd ms) of
         Some e \<Rightarrow> Inl e
       | None \<Rightarrow>
      (case topoSort ms of
         Inl e \<Rightarrow> Inl e
       | Inr names \<Rightarrow>
      (case register_all reg ms names app of
         Inl e \<Rightarrow> Inl e
       | Inr app' \<Rightarrow> Inr (ms, app'))))))"

text \<open>
  The workers: \<open>start\<close> is a module's \<open>startWorkers\<close> if it has one. A module whose
  \<open>stopWorkers\<close> rejects is logged; the others are stopped all the same.
\<close>

definition startModuleWorkers :: "(module_def \<Rightarrow> ('app \<Rightarrow> 'app) option) \<Rightarrow> modules \<Rightarrow> 'app \<Rightarrow> 'app" where
  "startModuleWorkers start ms app =
     fold (\<lambda>m a. case start m of None \<Rightarrow> a | Some f \<Rightarrow> f a) (map snd ms) app"

definition stopModuleWorkers :: "(module_def \<Rightarrow> ('app \<Rightarrow> 'app option) option) \<Rightarrow> modules
    \<Rightarrow> 'app \<times> mod_name list \<Rightarrow> 'app \<times> mod_name list" where
  "stopModuleWorkers stop ms s =
     fold (\<lambda>m (a, warned). case stop m of
             None \<Rightarrow> (a, warned)
           | Some f \<Rightarrow> (case f a of None \<Rightarrow> (a, warned @ [m_name m]) | Some a' \<Rightarrow> (a', warned)))
       (map snd ms) s"

section \<open>Dependency order\<close>

definition deps_of :: "modules \<Rightarrow> mod_name \<Rightarrow> mod_name list" where
  "deps_of ms x = (case jm_get ms x of None \<Rightarrow> [] | Some m \<Rightarrow> m_requires m)"

lemma deps_of_Some [simp]: "jm_get ms x = Some m \<Longrightarrow> deps_of ms x = m_requires m"
  by (simp add: deps_of_def)

definition dep_rel :: "modules \<Rightarrow> (mod_name \<times> mod_name) set" where
  "dep_rel ms = {(x, d). d \<in> set (deps_of ms x)}"

text \<open>A module directly requires itself, or a chain of requirements leads back to it.\<close>

definition deps_closed :: "modules \<Rightarrow> bool" where
  "deps_closed ms \<longleftrightarrow> (\<forall>x \<in> jm_keys ms. set (deps_of ms x) \<subseteq> jm_keys ms)"

fun topo_ok :: "modules \<Rightarrow> mod_name set \<Rightarrow> mod_name list \<Rightarrow> bool" where
  "topo_ok ms seen [] = True"
| "topo_ok ms seen (x # xs) \<longleftrightarrow> set (deps_of ms x) \<subseteq> seen \<and> topo_ok ms (insert x seen) xs"

lemma topo_ok_append:
  "topo_ok ms seen (xs @ ys) \<longleftrightarrow> topo_ok ms seen xs \<and> topo_ok ms (seen \<union> set xs) ys"
  by (induction xs arbitrary: seen) (auto simp: Un_insert_right [symmetric] simp del: Un_insert_right)

lemma topo_ok_nth:
  "topo_ok ms seen xs \<Longrightarrow> i < length xs \<Longrightarrow> d \<in> set (deps_of ms (xs ! i)) \<Longrightarrow>
     d \<in> seen \<or> (\<exists>j < i. xs ! j = d)"
proof (induction xs arbitrary: seen i)
  case (Cons x xs)
  show ?case
  proof (cases i)
    case 0
    with Cons.prems show ?thesis by auto
  next
    case (Suc k)
    with Cons.prems have "topo_ok ms (insert x seen) xs" "k < length xs" "d \<in> set (deps_of ms (xs ! k))"
      by auto
    from Cons.IH [OF this] Suc show ?thesis
      by (metis (no_types, lifting) Suc_mono insertE nth_Cons_0 nth_Cons_Suc zero_less_Suc)
  qed
qed simp

lemma acyclic_if_decreasing:
  fixes f :: "'a \<Rightarrow> nat"
  assumes "\<And>x y. (x, y) \<in> r \<Longrightarrow> f y < f x" shows "acyclic r"
proof -
  have "(x, y) \<in> r\<^sup>+ \<Longrightarrow> f y < f x" for x y
    by (induction rule: trancl_induct) (auto dest: assms order.strict_trans)
  then show ?thesis by (auto simp: acyclic_def)
qed

lemma topo_ok_acyclic:
  assumes "topo_ok ms {} xs" and "set xs = jm_keys ms"
  shows "acyclic (dep_rel ms)"
proof -
  define pos where "pos x = (LEAST i. i < length xs \<and> xs ! i = x)" for x
  have pos_le: "i < length xs \<Longrightarrow> pos (xs ! i) \<le> i" for i
    unfolding pos_def by (rule Least_le) simp
  show ?thesis
  proof (rule acyclic_if_decreasing [where f = pos])
    fix x d assume xd: "(x, d) \<in> dep_rel ms"
    then have "x \<in> jm_keys ms"
      by (cases "jm_get ms x") (auto simp: dep_rel_def deps_of_def jm_keys_iff)
    with assms(2) obtain k where "k < length xs \<and> xs ! k = x" by (metis in_set_conv_nth)
    then have px: "pos x < length xs \<and> xs ! pos x = x" unfolding pos_def by (rule LeastI)
    with xd topo_ok_nth [OF assms(1), of "pos x" d] obtain j where "j < pos x" "xs ! j = d"
      by (auto simp: dep_rel_def)
    with px pos_le [of j] show "pos d < pos x" by auto
  qed
qed

section \<open>Correctness of the sort\<close>

definition topo_inv :: "modules \<Rightarrow> topo \<Rightarrow> bool" where
  "topo_inv ms st \<longleftrightarrow> visited st = set (sorted_names st) \<and> distinct (sorted_names st) \<and>
     topo_ok ms {} (sorted_names st) \<and> visited st \<subseteq> jm_keys ms \<and> visited st \<inter> visiting st = {}"

lemma visit_inv:
  "visit n ms x st = Inr st' \<Longrightarrow> topo_inv ms st \<Longrightarrow>
     topo_inv ms st' \<and> visiting st' = visiting st \<and> visited st \<subseteq> visited st' \<and> x \<in> visited st'"
  "visit_deps n ms xs st = Inr st' \<Longrightarrow> topo_inv ms st \<Longrightarrow>
     topo_inv ms st' \<and> visiting st' = visiting st \<and> visited st \<subseteq> visited st' \<and> set xs \<subseteq> visited st'"
proof (induction n ms x st and n ms xs st arbitrary: st' and st' rule: visit_visit_deps.induct)
  case (2 n ms x st)
  show ?case
  proof (cases "x \<in> visited st")
    case True
    with 2 show ?thesis by auto
  next
    case False
    with "2.prems"(1) obtain m st1 where x: "x \<notin> visiting st" and m: "jm_get ms x = Some m"
      and st1: "visit_deps n ms (m_requires m) (st\<lparr>visiting := insert x (visiting st)\<rparr>) = Inr st1"
      and st': "st' = st1\<lparr>visiting := visiting st1 - {x}, visited := insert x (visited st1),
                     sorted_names := sorted_names st1 @ [x]\<rparr>"
      by (auto split: if_splits option.splits sum.splits)
    from "2.prems"(2) False have "topo_inv ms (st\<lparr>visiting := insert x (visiting st)\<rparr>)"
      by (auto simp: topo_inv_def)
    from "2.IH" [OF False x m st1 this]
    have inv: "topo_inv ms st1" and vis: "visiting st1 = insert x (visiting st)"
      and mono: "visited st \<subseteq> visited st1" and ds: "set (m_requires m) \<subseteq> visited st1" by auto
    from inv have v: "visited st1 = set (sorted_names st1)" "distinct (sorted_names st1)"
      "topo_ok ms {} (sorted_names st1)" "set (sorted_names st1) \<subseteq> jm_keys ms"
      "x \<notin> set (sorted_names st1)" "set (sorted_names st1) \<inter> visiting st = {}"
      by (auto simp: topo_inv_def vis)
    have "topo_inv ms st'"
      unfolding st' topo_inv_def using v(2-6) ds m
      by (auto simp: v(1) topo_ok_append deps_of_def jm_keys_iff vis)
    then show ?thesis using st' vis x mono by auto
  qed
next
  case (4 n ms d ds st)
  from "4.prems"(1) obtain st1 where st1: "visit n ms d st = Inr st1" and st': "visit_deps n ms ds st1 = Inr st'"
    by (cases "visit n ms d st") auto
  from "4.IH"(1) [OF st1 "4.prems"(2)] "4.IH"(2) [OF st1 st'] show ?case by auto
qed auto

lemma visit_enough_fuel:
  "finite (jm_keys ms) \<Longrightarrow> card (jm_keys ms - visiting st) < n \<Longrightarrow> topo_inv ms st \<Longrightarrow>
     visit n ms x st \<noteq> Inl OutOfFuel"
  "finite (jm_keys ms) \<Longrightarrow> card (jm_keys ms - visiting st) < n \<Longrightarrow> topo_inv ms st \<Longrightarrow>
     visit_deps n ms xs st \<noteq> Inl OutOfFuel"
proof (induction n ms x st and n ms xs st rule: visit_visit_deps.induct)
  case (2 n ms x st)
  show ?case
  proof (cases "x \<in> visited st \<or> x \<in> visiting st \<or> jm_get ms x = None")
    case True
    then show ?thesis by (auto split: option.splits)
  next
    case False
    then obtain m where x: "x \<notin> visited st" "x \<notin> visiting st" and m: "jm_get ms x = Some m" by auto
    let ?st = "st\<lparr>visiting := insert x (visiting st)\<rparr>"
    have "x \<in> jm_keys ms" by (simp add: jm_keys_iff m)
    with x(2) have "jm_keys ms - visiting ?st \<subset> jm_keys ms - visiting st" by auto
    with "2.prems"(1) have "card (jm_keys ms - visiting ?st) < card (jm_keys ms - visiting st)"
      by (intro psubset_card_mono) simp_all
    with "2.prems"(2) have "card (jm_keys ms - visiting ?st) < n" by simp
    moreover have "topo_inv ms ?st" using "2.prems"(3) x(1) by (auto simp: topo_inv_def)
    ultimately have "visit_deps n ms (m_requires m) ?st \<noteq> Inl OutOfFuel"
      by (rule "2.IH" [OF x m "2.prems"(1)])
    with x m show ?thesis by (cases "visit_deps n ms (m_requires m) ?st") auto
  qed
next
  case (4 n ms d ds st)
  show ?case
  proof (cases "visit n ms d st")
    case (Inl e)
    with "4.IH"(1) "4.prems" show ?thesis by auto
  next
    case (Inr st')
    with visit_inv(1) [OF Inr "4.prems"(3)] "4.IH"(2) [OF Inr "4.prems"(1)] "4.prems"(2)
    show ?thesis by auto
  qed
qed auto

text \<open>An error of the search: a cycle through the path it is on, or a missing module.\<close>

lemma visit_error:
  "visit n ms x st = Inl e \<Longrightarrow> e \<noteq> OutOfFuel \<Longrightarrow> topo_inv ms st \<Longrightarrow>
     \<forall>v \<in> visiting st. (v, x) \<in> (dep_rel ms)\<^sup>+ \<Longrightarrow>
     (\<exists>c. e = Cycle c \<and> (c, c) \<in> (dep_rel ms)\<^sup>+) \<or> (\<exists>y. e = NoSuchModule y \<and> y \<notin> jm_keys ms)"
  "visit_deps n ms xs st = Inl e \<Longrightarrow> e \<noteq> OutOfFuel \<Longrightarrow> topo_inv ms st \<Longrightarrow>
     \<forall>v \<in> visiting st. \<forall>x \<in> set xs. (v, x) \<in> (dep_rel ms)\<^sup>+ \<Longrightarrow>
     (\<exists>c. e = Cycle c \<and> (c, c) \<in> (dep_rel ms)\<^sup>+) \<or> (\<exists>y. e = NoSuchModule y \<and> y \<notin> jm_keys ms)"
proof (induction n ms x st and n ms xs st rule: visit_visit_deps.induct)
  case (2 n ms x st)
  have nv: "x \<notin> visited st" using "2.prems"(1) by auto
  consider "x \<in> visiting st" | "x \<notin> visiting st" "jm_get ms x = None"
    | m where "x \<notin> visiting st" "jm_get ms x = Some m" by auto
  then show ?case
  proof cases
    case 1
    with nv "2.prems"(1) have "e = Cycle x" by auto
    with 1 "2.prems"(4) show ?thesis by auto
  next
    case 2
    with nv "2.prems"(1) have "e = NoSuchModule x" by auto
    with 2 show ?thesis by (auto simp: jm_keys_iff)
  next
    case 3
    let ?st = "st\<lparr>visiting := insert x (visiting st)\<rparr>"
    from 3 nv "2.prems"(1) have err: "visit_deps n ms (m_requires m) ?st = Inl e"
      by (cases "visit_deps n ms (m_requires m) ?st") auto
    have inv: "topo_inv ms ?st" using "2.prems"(3) nv by (auto simp: topo_inv_def)
    have step: "(x, d) \<in> dep_rel ms" if "d \<in> set (m_requires m)" for d
      using that 3 by (auto simp: dep_rel_def deps_of_def)
    have "\<forall>v \<in> visiting ?st. \<forall>d \<in> set (m_requires m). (v, d) \<in> (dep_rel ms)\<^sup>+"
      using "2.prems"(4) step by (auto intro: trancl_into_trancl)
    with "2.IH" [OF nv 3 err "2.prems"(2) inv] show ?thesis by blast
  qed
next
  case (4 n ms d ds st)
  show ?case
  proof (cases "visit n ms d st")
    case (Inl e')
    with "4.prems"(1) have err: "visit n ms d st = Inl e" by simp
    from "4.IH"(1) [OF err "4.prems"(2,3)] "4.prems"(4) show ?thesis by auto
  next
    case (Inr st')
    with "4.prems"(1) have err: "visit_deps n ms ds st' = Inl e" by simp
    from visit_inv(1) [OF Inr "4.prems"(3)] have "topo_inv ms st'" "visiting st' = visiting st" by auto
    with "4.IH"(2) [OF Inr err "4.prems"(2)] "4.prems"(4) show ?thesis by auto
  qed
qed auto

lemma topo_inv_init: "topo_inv ms \<lparr>visited = {}, visiting = {}, sorted_names = []\<rparr>"
  by (simp add: topo_inv_def)

lemma finite_jm_keys [simp]: "finite (jm_keys m)"
  by (simp add: jm_keys_def)

lemma card_jm_keys: "card (jm_keys m) \<le> length m"
  by (metis card_length jm_keys_def length_map list.set_map)

lemma topoSort_Inr:
  assumes "topoSort ms = Inr names"
  shows "distinct names \<and> set names = jm_keys ms \<and> topo_ok ms {} names"
proof -
  from assms obtain st where
    st: "visit_deps (Suc (length ms)) ms (map fst ms) \<lparr>visited = {}, visiting = {}, sorted_names = []\<rparr> = Inr st"
    and names: "names = sorted_names st"
    by (auto simp: topoSort_def split: sum.splits)
  from visit_inv(2) [OF st topo_inv_init] show ?thesis
    by (auto simp: topo_inv_def names jm_keys_def)
qed

lemma topoSort_Inl:
  assumes "topoSort ms = Inl e"
  shows "(\<exists>c. e = Cycle c \<and> (c, c) \<in> (dep_rel ms)\<^sup>+) \<or> (\<exists>y. e = NoSuchModule y \<and> y \<notin> jm_keys ms)"
proof -
  let ?st = "\<lparr>visited = {}, visiting = {}, sorted_names = []\<rparr> :: topo"
  from assms have err: "visit_deps (Suc (length ms)) ms (map fst ms) ?st = Inl e"
    by (simp add: topoSort_def split: sum.splits)
  have "card (jm_keys ms - visiting ?st) < Suc (length ms)" using card_jm_keys [of ms] by simp
  then have "e \<noteq> OutOfFuel"
    using visit_enough_fuel(2) [OF finite_jm_keys _ topo_inv_init, of ms "Suc (length ms)" "map fst ms"] err
    by auto
  from visit_error(2) [OF err this topo_inv_init] show ?thesis by simp
qed

lemma visit_present:
  "deps_closed ms \<Longrightarrow> x \<in> jm_keys ms \<Longrightarrow> visit n ms x st \<noteq> Inl (NoSuchModule y)"
  "deps_closed ms \<Longrightarrow> set xs \<subseteq> jm_keys ms \<Longrightarrow> visit_deps n ms xs st \<noteq> Inl (NoSuchModule y)"
proof (induction n ms x st and n ms xs st rule: visit_visit_deps.induct)
  case (2 n ms x st)
  from "2.prems"(2) obtain m where m: "jm_get ms x = Some m" by (auto simp: jm_keys_iff)
  with "2.prems" have "set (m_requires m) \<subseteq> jm_keys ms" unfolding deps_closed_def by force
  with "2.IH" [OF _ _ m "2.prems"(1)] m show ?case by (auto split: sum.splits)
next
  case (4 n ms d ds st)
  then show ?case by (cases "visit n ms d st") auto
qed auto

lemma topoSort_result:
  assumes "deps_closed ms"
  shows "case topoSort ms of
      Inr names \<Rightarrow> distinct names \<and> set names = jm_keys ms \<and> topo_ok ms {} names
    | Inl e \<Rightarrow> (\<exists>c. e = Cycle c \<and> (c, c) \<in> (dep_rel ms)\<^sup>+)"
proof (cases "topoSort ms")
  case (Inl e)
  have "e \<noteq> NoSuchModule y" for y
    using visit_present(2) [OF assms, of "map fst ms" "Suc (length ms)"] Inl
    by (auto simp: topoSort_def jm_keys_def split: sum.splits)
  with topoSort_Inl [OF Inl] Inl show ?thesis by auto
next
  case (Inr names)
  with topoSort_Inr [OF Inr] show ?thesis by simp
qed

section \<open>Correctness of the loading\<close>

lemma import_all_keys:
  "import_all imp xs ms = Inr ms' \<Longrightarrow> (\<forall>x m. jm_get ms x = Some m \<longrightarrow> imp x = Some m \<and> m_name m = x) \<Longrightarrow>
     jm_wf ms \<Longrightarrow>
     jm_keys ms' = jm_keys ms \<union> set xs \<and> jm_wf ms' \<and>
     (\<forall>x m. jm_get ms' x = Some m \<longrightarrow> imp x = Some m \<and> m_name m = x)"
proof (induction xs arbitrary: ms)
  case (Cons x xs)
  from Cons.prems(1) obtain m where m: "imp x = Some m" "m_name m = x"
    "import_all imp xs (jm_set x m ms) = Inr ms'"
    by (auto split: option.splits if_splits)
  have "\<forall>y k. jm_get (jm_set x m ms) y = Some k \<longrightarrow> imp y = Some k \<and> m_name k = y"
    using Cons.prems(2) m(1,2) by simp
  from Cons.IH [OF m(3) this jm.ok_put [OF Cons.prems(3)]]
  have *: "jm_keys ms' = jm_keys (jm_set x m ms) \<union> set xs" "jm_wf ms'"
    "\<forall>x m. jm_get ms' x = Some m \<longrightarrow> imp x = Some m \<and> m_name m = x"
    by simp_all
  have "jm_keys (jm_set x m ms) = insert x (jm_keys ms)"
    by (rule set_eqI) (simp add: jm_keys_iff)
  with * show ?case by auto
qed auto

lemma check_requires_None:
  "check_requires ms l = None \<Longrightarrow> m \<in> set l \<Longrightarrow> set (m_requires m) \<subseteq> jm_keys ms"
proof (induction l)
  case (Cons a l)
  then show ?case
    by (auto simp: first_missing_def find_None_iff jm_keys_iff split: option.splits)
qed simp

lemma loadModules_Inr:
  assumes "loadModules imp reg config app = Inr (ms, app')"
  obtains names where "topoSort ms = Inr names" "register_all reg ms names app = Inr app'"
    "jm_keys ms = set (enabledModuleNames config)" "deps_closed ms" "''core'' \<in> jm_keys ms"
    "\<And>x m. jm_get ms x = Some m \<Longrightarrow> imp x = Some m \<and> m_name m = x"
proof -
  from assms obtain names where
    f: "find (\<lambda>x. x \<notin> set (enabledModuleNames config)) forced_on = None" and
    i: "import_all imp (enabledModuleNames config) [] = Inr ms" and
    c: "check_requires ms (map snd ms) = None" and
    t: "topoSort ms = Inr names" and r: "register_all reg ms names app = Inr app'"
    by (auto simp: loadModules_def Let_def split: option.splits sum.splits)
  from import_all_keys [OF i] have k: "jm_keys ms = set (enabledModuleNames config)" "jm_wf ms"
    "\<And>x m. jm_get ms x = Some m \<Longrightarrow> imp x = Some m \<and> m_name m = x" by (auto simp: jm_keys_def)
  have "deps_closed ms"
    unfolding deps_closed_def
  proof
    fix x assume "x \<in> jm_keys ms"
    then obtain m where m: "jm_get ms x = Some m" by (auto simp: jm_keys_iff)
    from jm_get_in [OF this] have "m \<in> set (map snd ms)" by force
    from check_requires_None [OF c this] m show "set (deps_of ms x) \<subseteq> jm_keys ms"
      by (simp add: deps_of_def)
  qed
  moreover have "''core'' \<in> jm_keys ms"
    using f by (simp add: k(1) forced_on_def split: if_splits)
  ultimately show thesis using that t r k by blast
qed

lemma register_all_log:
  "register_all (\<lambda>m a. Some (a @ [m_name m])) ms xs app = Inr app' \<Longrightarrow>
     (\<forall>x m. jm_get ms x = Some m \<longrightarrow> m_name m = x) \<Longrightarrow> app' = app @ xs"
proof (induction xs arbitrary: app)
  case (Cons x xs)
  from Cons.prems obtain m where "jm_get ms x = Some m"
    "register_all (\<lambda>m a. Some (a @ [m_name m])) ms xs (app @ [x]) = Inr app'"
    by (cases "jm_get ms x") auto
  with Cons.IH [OF this(2) Cons.prems(2)] show ?case by simp
qed simp

text \<open>
  C1: a start that succeeds registers every enabled module exactly once (\<open>core\<close> among
  them), each after every module it requires. The registration log is observed by giving
  every module a \<open>register\<close> that appends its name.
\<close>

theorem load_registers_in_dependency_order:
  assumes "loadModules imp (\<lambda>m a. Some (a @ [m_name m])) config [] = Inr (ms, regs)"
  shows "distinct regs \<and> set regs = set (enabledModuleNames config) \<and> ''core'' \<in> set regs \<and>
    (\<forall>i < length regs. \<forall>m. imp (regs ! i) = Some m \<longrightarrow>
       (\<forall>d \<in> set (m_requires m). \<exists>j < i. regs ! j = d))"
proof -
  from assms obtain names where t: "topoSort ms = Inr names"
    and r: "register_all (\<lambda>m a. Some (a @ [m_name m])) ms names [] = Inr regs"
    and k: "jm_keys ms = set (enabledModuleNames config)" "''core'' \<in> jm_keys ms"
    and imp: "\<And>x m. jm_get ms x = Some m \<Longrightarrow> imp x = Some m \<and> m_name m = x"
    by (rule loadModules_Inr) blast
  from register_all_log [OF r] imp have regs: "regs = names" by auto
  from topoSort_Inr [OF t] have s: "distinct regs" "set regs = jm_keys ms" "topo_ok ms {} regs"
    by (auto simp: regs)
  have "\<exists>j < i. regs ! j = d"
    if i: "i < length regs" and m: "imp (regs ! i) = Some m" and d: "d \<in> set (m_requires m)" for i m d
  proof -
    from i s(2) obtain m' where "jm_get ms (regs ! i) = Some m'" by (metis jm_keys_iff not_None_eq nth_mem)
    with imp m have "jm_get ms (regs ! i) = Some m" by fastforce
    with d topo_ok_nth [OF s(3) i, of d] show ?thesis by (simp add: deps_of_def)
  qed
  with s k show ?thesis by auto
qed

theorem load_registers_in_dependency_order_witness:
  "\<exists>ms. loadModules
     (\<lambda>x. if x = ''tickets'' then Some \<lparr>m_name = x, m_requires = [''core'', ''inventory'']\<rparr>
          else if x = ''inventory'' then Some \<lparr>m_name = x, m_requires = [''core'']\<rparr>
          else Some \<lparr>m_name = x, m_requires = []\<rparr>)
     (\<lambda>m a. Some (a @ [m_name m]))
     [(''tickets'', True), (''ask'', False), (''inventory'', True), (''core'', True)] []
     = Inr (ms, [''core'', ''inventory'', ''tickets'']) \<and>
   distinct [''core'', ''inventory'', ''tickets'']"
proof -
  let ?imp = "\<lambda>x. if x = ''tickets'' then Some \<lparr>m_name = x, m_requires = [''core'', ''inventory'']\<rparr>
          else if x = ''inventory'' then Some \<lparr>m_name = x, m_requires = [''core'']\<rparr>
          else Some \<lparr>m_name = x, m_requires = []\<rparr>"
  let ?config = "[(''tickets'', True), (''ask'', False), (''inventory'', True), (''core'', True)]"
  let ?ms = "[(''tickets'', \<lparr>m_name = ''tickets'', m_requires = [''core'', ''inventory'']\<rparr>),
              (''inventory'', \<lparr>m_name = ''inventory'', m_requires = [''core'']\<rparr>),
              (''core'', \<lparr>m_name = ''core'', m_requires = []\<rparr>)]"
  have run: "loadModules ?imp (\<lambda>m a. Some (a @ [m_name m])) ?config []
      = Inr (?ms, [''core'', ''inventory'', ''tickets''])"
    by (simp add: loadModules_def enabledModuleNames_def forced_on_def first_missing_def topoSort_def
        jm_get_def jm_set_def)
  with load_registers_in_dependency_order [OF run] show ?thesis by blast
qed

text \<open>
  C2: when every required module is present (which the loader checks first), the sort
  succeeds exactly when the requirements are acyclic, and its error names a module that
  really requires itself through a chain of requirements.
\<close>

theorem topoSort_decides_acyclicity:
  assumes "deps_closed ms"
  shows "(is_inr (topoSort ms) \<longleftrightarrow> acyclic (dep_rel ms)) \<and>
    (\<forall>e. topoSort ms = Inl e \<longrightarrow> (\<exists>c. e = Cycle c \<and> (c, c) \<in> (dep_rel ms)\<^sup>+))"
proof (cases "topoSort ms")
  case (Inl e)
  with topoSort_result [OF assms] show ?thesis by (auto simp: acyclic_def)
next
  case (Inr names)
  with topoSort_result [OF assms] topo_ok_acyclic [of ms names] show ?thesis by simp
qed

theorem topoSort_decides_acyclicity_witness:
  "deps_closed [(''a'', \<lparr>m_name = ''a'', m_requires = [''b'']\<rparr>), (''b'', \<lparr>m_name = ''b'', m_requires = [''a'']\<rparr>)] \<and>
   \<not> acyclic (dep_rel [(''a'', \<lparr>m_name = ''a'', m_requires = [''b'']\<rparr>), (''b'', \<lparr>m_name = ''b'', m_requires = [''a'']\<rparr>)])"
proof -
  let ?ms = "[(''a'', \<lparr>m_name = ''a'', m_requires = [''b'']\<rparr>), (''b'', \<lparr>m_name = ''b'', m_requires = [''a'']\<rparr>)]"
  have c: "deps_closed ?ms"
    by (simp add: deps_closed_def jm_keys_def deps_of_def jm_get_def)
  have "topoSort ?ms = Inl (Cycle ''a'')"
    by (simp add: topoSort_def jm_get_def)
  with topoSort_decides_acyclicity [OF c] c show ?thesis by simp
qed

end
