(* ===== verification/LinuxDb.thy ===== *)
theory LinuxDb imports Prelude begin

text \<open>
  The rows the Linux fleet code reads and writes, as the migrations declare them
  (\<open>api/migrations/080_linux_fleet.sql\<close>, \<open>081_linux_key_luks_root.sql\<close> and the columns of
  \<open>devices\<close>, \<open>agent_tokens\<close>, \<open>users_cache\<close>, \<open>settings\<close>, \<open>device_admin_credentials\<close> the queries name),
  the audit log (\<open>core/lib/audit.js\<close>), the claim rule of a legacy agent
  (\<open>inventory/lib/device-claim.js\<close>) and the transaction wrapper of
  \<open>linux/lib/enrollment.js\<close>.

  A table is the list of its rows; \<open>now()\<close> is an argument; a generated identifier is the
  next natural number. A unique constraint that a statement violates is an error value
  (\<open>db_error\<close>). Other database failures (connection, disk) are not modelled.
\<close>

section \<open>Rows\<close>

datatype platform = Windows | Linux | Macos

datatype ring = Pilot | Stable

datatype key_status = Pending | Approved | Rejected | Revoked

datatype key_source = Manual | Preregistration

datatype enroll_kind = KNew | KPreregistered | KExisting | KReimage | KClone

text \<open>The columns of \<open>devices\<close> that only a Windows agent or the Intune sync fills.\<close>

record win_facts =
  wf_health_signals :: "jsstring option"
  wf_health_updated_at :: "jsstring option"
  wf_system_info :: "jsstring option"
  wf_ssh_host_key_fp :: "jsstring option"
  wf_ssh_host_key_learned_at :: "jsstring option"
  wf_ip_netbird :: "jsstring option"
  wf_agent_version :: "jsstring option"
  wf_intune_device_id :: "jsstring option"
  wf_aad_device_id :: "jsstring option"
  wf_intune_user_id :: "jsstring option"
  wf_intune_user_display_name :: "jsstring option"
  wf_intune_last_sync :: "jsstring option"
  wf_compliance_state :: "jsstring option"
  wf_enrolled_at :: "jsstring option"
  wf_last_seen_ws :: "jsstring option"

datatype apply_status = Success | Failed | Partial | Skipped

text \<open>A row of \<open>devices\<close>; \<open>dv_pull\<close> is \<open>managed_by = 'pull'\<close>, the only non-null value the check constraint admits.\<close>

record device =
  dv_id :: uuid
  dv_hostname :: jsstring
  dv_serial :: "jsstring option"
  dv_platform :: "platform option"
  dv_pull :: bool
  dv_source :: "jsstring option"
  dv_profile :: "jsstring option"
  dv_ring :: "ring option"
  dv_user :: "jsstring option"
  dv_os :: "jsstring option"
  dv_disk_pct :: "rat option"
  dv_last_seen :: "time option"
  dv_last_revision :: "jsstring option"
  dv_ok_revision :: "jsstring option"
  dv_apply_status :: "apply_status option"
  dv_apply_at :: "time option"
  dv_facts :: win_facts

text \<open>The \<open>conflict\<close> JSON stored on a pending key.\<close>

record conflict =
  cf_kind :: enroll_kind
  cf_device :: "uuid option"
  cf_hostname :: "jsstring option"
  cf_pull :: bool
  cf_platform :: "platform option"
  cf_last_seen :: "time option"
  cf_key :: "uuid option"
  cf_active_token :: bool

record lkey =
  lk_id :: uuid
  lk_device :: "uuid option"
  lk_fp :: jsstring
  lk_public :: bytes
  lk_backing :: jsstring
  lk_serial :: "jsstring option"
  lk_hostname :: "jsstring option"
  lk_os :: "jsstring option"
  lk_agent :: "jsstring option"
  lk_status :: key_status
  lk_source :: key_source
  lk_conflict :: "conflict option"
  lk_first_seen :: time
  lk_last_seen :: time
  lk_attempts :: nat
  lk_approved :: "(time \<times> jsstring) option"
  lk_rejected :: "(time \<times> jsstring) option"
  lk_revoked :: "(time \<times> jsstring) option"
  lk_reason :: "jsstring option"
  lk_luks_root :: bool

record prereg =
  pr_id :: uuid
  pr_serial :: jsstring
  pr_hostname :: "jsstring option"
  pr_profile :: jsstring
  pr_ring :: ring
  pr_user :: "jsstring option"
  pr_note :: "jsstring option"
  pr_by :: jsstring
  pr_consumed :: "(time \<times> uuid option) option"

record agent_token =
  tk_id :: uuid
  tk_device :: "uuid option"
  tk_bootstrap :: bool
  tk_revoked_at :: "time option"
  tk_expires_at :: "time option"
  tk_last_used_at :: "time option"
  tk_created_by :: "jsstring option"

record user_row =
  us_id :: jsstring
  us_email :: "jsstring option"
  us_name :: "jsstring option"

record credential =
  cr_device :: uuid
  cr_username :: jsstring
  cr_password :: bytes
  cr_changed_at :: time
  cr_rotation_at :: "time option"

datatype secret_kind = Luks_Recovery | Tpm_Owner

record recovery_key =
  rk_id :: uuid
  rk_device :: uuid
  rk_kind :: secret_kind
  rk_label :: jsstring
  rk_ciphertext :: bytes
  rk_key_id :: jsstring
  rk_created_at :: time
  rk_superseded_at :: "time option"
  rk_viewed_at :: "time option"
  rk_viewed_by :: "jsstring option"

record report_row =
  rp_id :: uuid
  rp_device :: uuid
  rp_revision :: "jsstring option"
  rp_status :: apply_status
  rp_started_at :: "time option"
  rp_finished_at :: "time option"
  rp_summary :: "jsstring option"
  rp_tail :: "nat list option"
  rp_agent :: "jsstring option"
  rp_received_at :: time

record audit_row =
  au_action :: jsstring
  au_by :: "jsstring option"
  au_target :: "uuid option"
  au_details :: "(jsstring \<times> json) list"
  au_at :: time

record db =
  db_devices :: "device list"
  db_keys :: "lkey list"
  db_preregs :: "prereg list"
  db_tokens :: "agent_token list"
  db_users :: "user_row list"
  db_settings :: "(jsstring, jsstring) jsmap"
  db_credentials :: "credential list"
  db_recovery :: "recovery_key list"
  db_reports :: "report_row list"
  db_audit :: "audit_row list"
  db_compliance :: "uuid list"
  db_disks :: "uuid list"
  db_interfaces :: "uuid list"
  db_software :: "uuid list"
  db_next :: uuid

datatype db_error = Unique_violation jsstring | Row_missing

text \<open>A new instance.\<close>

definition empty_db :: db where
  "empty_db = \<lparr>db_devices = [], db_keys = [], db_preregs = [], db_tokens = [], db_users = [], db_settings = [],
     db_credentials = [], db_recovery = [], db_reports = [], db_audit = [], db_compliance = [], db_disks = [],
     db_interfaces = [], db_software = [], db_next = 0\<rparr>"

section \<open>Queries\<close>

text \<open>\<open>ORDER BY id LIMIT 1\<close>.\<close>

fun first_by :: "('r \<Rightarrow> nat) \<Rightarrow> 'r list \<Rightarrow> 'r option" where
  "first_by k [] = None"
| "first_by k (r # rs) =
     (case first_by k rs of None \<Rightarrow> Some r | Some s \<Rightarrow> if k s < k r then Some s else Some r)"

definition find_device :: "db \<Rightarrow> uuid \<Rightarrow> device option" where
  "find_device d i = find (\<lambda>r. dv_id r = i) (db_devices d)"

definition find_key :: "db \<Rightarrow> uuid \<Rightarrow> lkey option" where
  "find_key d i = find (\<lambda>r. lk_id r = i) (db_keys d)"

definition find_fp :: "db \<Rightarrow> jsstring \<Rightarrow> lkey option" where
  "find_fp d fp = find (\<lambda>r. lk_fp r = fp) (db_keys d)"

text \<open>\<open>BTRIM(s)\<close> strips blanks only; \<open>UPPER\<close> is \<open>js_upper\<close> on ASCII.\<close>

definition sql_btrim :: "jsstring \<Rightarrow> jsstring" where
  "sql_btrim s = rev (dropWhile (\<lambda>c. c = CHR '' '') (rev (dropWhile (\<lambda>c. c = CHR '' '') s)))"

section \<open>Audit log\<close>

definition jid :: "uuid \<Rightarrow> json" where
  "jid i = JStr (nat_str i)"

definition jopt :: "('a \<Rightarrow> json) \<Rightarrow> 'a option \<Rightarrow> json" where
  "jopt f x = (case x of None \<Rightarrow> JNull | Some y \<Rightarrow> f y)"

text \<open>\<open>insertAudit\<close>: the row written on the connection it is given.\<close>

definition insertAudit ::
    "jsstring \<Rightarrow> jsstring option \<Rightarrow> uuid option \<Rightarrow> (jsstring \<times> json) list \<Rightarrow> time \<Rightarrow> db \<Rightarrow> db" where
  "insertAudit action by_user target details now d =
     d\<lparr>db_audit := db_audit d @
        [\<lparr>au_action = action, au_by = by_user, au_target = target, au_details = details, au_at = now\<rparr>]\<rparr>"

text \<open>\<open>logAudit\<close> skips an empty action.\<close>

definition logAudit ::
    "jsstring \<Rightarrow> jsstring option \<Rightarrow> uuid option \<Rightarrow> (jsstring \<times> json) list \<Rightarrow> time \<Rightarrow> db \<Rightarrow> db" where
  "logAudit action by_user target details now d =
     (if action = [] then d else insertAudit action by_user target details now d)"

section \<open>Serial numbers and claims\<close>

definition FAKE_SERIALS :: "jsstring list" where
  "FAKE_SERIALS =
     [''unknown'', ''systemserialnumber'', ''system serial number'', ''to be filled by o.e.m.'',
      ''to be filled'', ''none'', ''n/a'', ''default string'', ''0'']"

definition normalizeSerial :: "jsstring option \<Rightarrow> jsstring option" where
  "normalizeSerial s =
     (case s of None \<Rightarrow> None
      | Some s \<Rightarrow> let v = js_trim s in
                  if v = [] \<or> js_lower v \<in> set FAKE_SERIALS then None else Some (js_upper v))"

datatype claim_refusal = Pull_managed | Serial_missing | Serial_mismatch | Active_token uuid

definition active_token :: "time \<Rightarrow> uuid \<Rightarrow> uuid option \<Rightarrow> agent_token \<Rightarrow> bool" where
  "active_token now dev excl t \<longleftrightarrow>
     tk_device t = Some dev \<and> \<not> tk_bootstrap t \<and> tk_revoked_at t = None \<and>
     (case tk_expires_at t of None \<Rightarrow> True | Some e \<Rightarrow> now < e) \<and>
     (tk_last_used_at t \<noteq> None \<or> tk_created_by t = Some ''agent-rotation'') \<and>
     (case excl of None \<Rightarrow> True | Some x \<Rightarrow> tk_id t \<noteq> x)"

definition checkDeviceClaim ::
    "time \<Rightarrow> db \<Rightarrow> device \<Rightarrow> jsstring option \<Rightarrow> uuid option \<Rightarrow> claim_refusal option" where
  "checkDeviceClaim now d dev serial excl =
     (if dv_pull dev then Some Pull_managed
      else
        let token = (case find (active_token now (dv_id dev) excl) (db_tokens d) of
                       None \<Rightarrow> None | Some t \<Rightarrow> Some (Active_token (tk_id t))) in
        (case normalizeSerial (dv_serial dev) of
           None \<Rightarrow> token
         | Some ds \<Rightarrow>
             (case normalizeSerial serial of
                None \<Rightarrow> Some Serial_missing
              | Some sent \<Rightarrow> if sent \<noteq> ds then Some Serial_mismatch else token)))"

section \<open>Transactions\<close>

text \<open>
  The callback runs on the state \<open>BEGIN\<close> saw; an error or a refusal (\<open>ok === false\<close>)
  restores it. The advisory lock serialises the callbacks, so one transaction is one step.
\<close>

definition transaction ::
    "('r \<Rightarrow> bool) \<Rightarrow> (db \<Rightarrow> db_error + 'r \<times> db) \<Rightarrow> db \<Rightarrow> (db_error + 'r) \<times> db" where
  "transaction refused callback d =
     (case callback d of
        Inl e \<Rightarrow> (Inl e, d)
      | Inr (r, d') \<Rightarrow> if refused r then (Inr r, d) else (Inr r, d'))"

section \<open>Lemmas\<close>

lemma find_SomeD: "find P xs = Some x \<Longrightarrow> x \<in> set xs \<and> P x"
  by (induction xs) (auto split: if_splits)

lemma find_NoneD: "find P xs = None \<Longrightarrow> x \<in> set xs \<Longrightarrow> \<not> P x"
  by (induction xs) (auto split: if_splits)

lemma find_unique:
  assumes "distinct (map k xs)" "x \<in> set xs" "k x = v"
  shows "find (\<lambda>y. k y = v) xs = Some x"
  using assms by (induction xs) (auto simp: image_iff)

lemma distinct_map_eqD:
  assumes "distinct (map k xs)" "x \<in> set xs" "y \<in> set xs" "k x = k y" shows "x = y"
  using assms by (auto simp: distinct_map inj_on_def)

lemma first_by_None [simp]: "first_by k rs = None \<longleftrightarrow> rs = []"
  by (cases rs) (auto split: option.splits if_splits)

lemma first_by_SomeD: "first_by k rs = Some r \<Longrightarrow> r \<in> set rs \<and> (\<forall>s \<in> set rs. k r \<le> k s)"
proof (induction rs arbitrary: r)
  case (Cons a rs)
  show ?case
  proof (cases "first_by k rs")
    case None
    then have "rs = []" by simp
    with Cons.prems show ?thesis by simp
  next
    case (Some s)
    from Cons.IH [OF this] Cons.prems Some show ?thesis
      by (auto split: if_splits)
  qed
qed simp

lemma transaction_refused:
  assumes "transaction refused cb d = (Inr r, d')" "refused r" shows "d' = d"
  using assms by (auto simp: transaction_def split: sum.splits if_splits)

lemma transaction_error: "transaction refused cb d = (Inl e, d') \<Longrightarrow> d' = d"
  by (auto simp: transaction_def split: sum.splits if_splits)

lemma transaction_okE:
  assumes "transaction refused cb d = (Inr r, d')" "\<not> refused r"
  obtains "cb d = Inr (r, d')"
  using assms by (auto simp: transaction_def split: sum.splits if_splits)

lemma transaction_cases [case_names same committed]:
  assumes "transaction refused cb d = (res, d')"
  obtains "d' = d" | r where "res = Inr r" "cb d = Inr (r, d')" "\<not> refused r"
  using assms by (auto simp: transaction_def split: sum.splits if_splits)

lemma logAudit_fields [simp]:
  "db_devices (logAudit a b t x now d) = db_devices d"
  "db_keys (logAudit a b t x now d) = db_keys d"
  "db_preregs (logAudit a b t x now d) = db_preregs d"
  "db_tokens (logAudit a b t x now d) = db_tokens d"
  "db_users (logAudit a b t x now d) = db_users d"
  "db_settings (logAudit a b t x now d) = db_settings d"
  "db_credentials (logAudit a b t x now d) = db_credentials d"
  "db_recovery (logAudit a b t x now d) = db_recovery d"
  "db_reports (logAudit a b t x now d) = db_reports d"
  "db_compliance (logAudit a b t x now d) = db_compliance d"
  "db_disks (logAudit a b t x now d) = db_disks d"
  "db_interfaces (logAudit a b t x now d) = db_interfaces d"
  "db_software (logAudit a b t x now d) = db_software d"
  "db_next (logAudit a b t x now d) = db_next d"
  by (simp_all add: logAudit_def insertAudit_def)

lemma normalizeSerial_not_empty: "normalizeSerial s = Some v \<Longrightarrow> v \<noteq> []"
  by (auto simp: normalizeSerial_def Let_def js_upper_def split: option.splits if_splits)

lemma normalizeSerial_canonical:
  assumes "normalizeSerial s = Some v" shows "js_upper v = v" "js_trim v = v" "js_lower v \<notin> set FAKE_SERIALS"
  using assms by (auto simp: normalizeSerial_def Let_def js_trim_upper split: option.splits if_splits)

lemma normalizeSerial_idem [simp]: "normalizeSerial (normalizeSerial s) = normalizeSerial s"
proof (cases "normalizeSerial s")
  case (Some v)
  from normalizeSerial_canonical [OF this] normalizeSerial_not_empty [OF this]
  show ?thesis by (simp add: Some normalizeSerial_def [of "Some v"])
qed (simp add: normalizeSerial_def)

section \<open>Bulk operations\<close>

text \<open>
  The bulk routes run one operation per item, in order, and collect the code of every item
  the operation refuses; an exception stops the loop. \<open>BulkResult\<close> is
  \<open>{ ok, skipped, errors }\<close> with \<open>skipped = errors.length\<close>.
\<close>

record ('i, 'c) bulk_result =
  br_ok :: nat
  br_skipped :: nat
  br_errors :: "('i \<times> 'c) list"

definition bulk_result :: "nat \<Rightarrow> ('i \<times> 'c) list \<Rightarrow> ('i, 'c) bulk_result" where
  "bulk_result n errs = \<lparr>br_ok = n, br_skipped = length errs, br_errors = errs\<rparr>"

fun bulk_run ::
    "('i \<Rightarrow> 's \<Rightarrow> ('e + 'c option) \<times> 's) \<Rightarrow> 'i list \<Rightarrow> 's \<Rightarrow> ('e + nat \<times> ('i \<times> 'c) list) \<times> 's" where
  "bulk_run step [] s = (Inr (0, []), s)"
| "bulk_run step (i # is) s =
     (case step i s of
        (Inl e, s1) \<Rightarrow> (Inl e, s1)
      | (Inr r, s1) \<Rightarrow>
          (case bulk_run step is s1 of
             (Inl e, s2) \<Rightarrow> (Inl e, s2)
           | (Inr (n, errs), s2) \<Rightarrow>
               (Inr (case r of None \<Rightarrow> (n + 1, errs) | Some c \<Rightarrow> (n, (i, c) # errs)), s2)))"

text \<open>
  What a bulk route relies on: the operation keeps the invariant, and an item it refuses
  leaves the state as it was.
\<close>

locale bulk_op =
  fixes step :: "'i \<Rightarrow> 's \<Rightarrow> ('e + 'c option) \<times> 's"
    and inv :: "'s \<Rightarrow> bool"
  assumes step_inv: "inv s \<Longrightarrow> step i s = (r, s') \<Longrightarrow> inv s'"
    and step_refused: "step i s = (Inr (Some c), s') \<Longrightarrow> s' = s"
begin

lemma run_inv: "inv s \<Longrightarrow> bulk_run step is s = (r, s') \<Longrightarrow> inv s'"
proof (induction "is" arbitrary: s r s')
  case (Cons i "is")
  obtain x s1 where st: "step i s = (x, s1)" by fastforce
  obtain y s2 where run: "bulk_run step is s1 = (y, s2)" by fastforce
  have "inv s1" by (rule step_inv [OF Cons.prems(1) st])
  moreover have "inv s2" by (rule Cons.IH [OF \<open>inv s1\<close> run])
  moreover have "s' = s1 \<or> s' = s2"
    using Cons.prems(2) st run by (auto split: sum.splits)
  ultimately show ?case by blast
qed simp

lemma run_accounting:
  "bulk_run step is s = (Inr (n, errs), s') \<Longrightarrow> n + length errs = length is \<and> subseq (map fst errs) is"
proof (induction "is" arbitrary: s s' n errs)
  case (Cons i "is")
  obtain x s1 where st: "step i s = (x, s1)" by fastforce
  obtain y s2 where run: "bulk_run step is s1 = (y, s2)" by fastforce
  from Cons.prems st run obtain r n1 errs1 where xy: "x = Inr r" "y = Inr (n1, errs1)"
      and res: "(n, errs) = (case r of None \<Rightarrow> (n1 + 1, errs1) | Some c \<Rightarrow> (n1, (i, c) # errs1))"
    by (auto split: sum.splits)
  from Cons.IH [OF run [unfolded xy]] res show ?case
    by (cases r) auto
qed simp

lemma run_all_refused:
  "bulk_run step is s = (Inr (0, errs), s') \<Longrightarrow> s' = s"
proof (induction "is" arbitrary: s s' errs)
  case (Cons i "is")
  obtain x s1 where st: "step i s = (x, s1)" by fastforce
  obtain y s2 where run: "bulk_run step is s1 = (y, s2)" by fastforce
  from Cons.prems st run obtain r n1 errs1 where xy: "x = Inr r" "y = Inr (n1, errs1)" and s2: "s' = s2"
      and res: "(0, errs) = (case r of None \<Rightarrow> (n1 + 1, errs1) | Some c \<Rightarrow> (n1, (i, c) # errs1))"
    by (auto split: sum.splits)
  from res obtain c where r: "r = Some c" and n1: "n1 = 0" by (cases r) auto
  from step_refused [OF st [unfolded xy r]] have "s1 = s" .
  with Cons.IH [OF run [unfolded xy n1]] s2 show ?case by simp
qed simp

end

end
