(* ===== verification/Enrollment.thy ===== *)
theory Enrollment imports LinuxDb begin

text \<open>
  The enrolment state machine of the Linux fleet: \<open>linux/lib/enrollment.js\<close> with the host
  names of \<open>linux/lib/hostname.js\<close> and the conversion of a Windows device of
  \<open>linux/lib/convert.js\<close>.

  \<open>now\<close> is the transaction's \<open>now()\<close> and \<open>clock\<close> is \<open>Date.now()\<close>. Each exported function is
  one definition from the database to its result and the new database; the callbacks of
  \<open>transaction\<close> are split where the code has a paragraph of its own.
\<close>

section \<open>Host names\<close>

definition host_alnum :: "char \<Rightarrow> bool" where
  "host_alnum c \<longleftrightarrow> lower_alpha c \<or> digit_char c"

text \<open>\<open>/^[a-z0-9]([a-z0-9-]{0,61}[a-z0-9])?$/\<close>.\<close>

definition isValidHostname :: "jsstring \<Rightarrow> bool" where
  "isValidHostname h \<longleftrightarrow>
     h \<noteq> [] \<and> length h \<le> 63 \<and> host_alnum (hd h) \<and> host_alnum (last h) \<and>
     list_all (\<lambda>c. host_alnum c \<or> c = CHR ''-'') h"

record host_item =
  hi_explicit :: "jsstring option"
  hi_prereg :: "prereg option"
  hi_existing :: "device option"
  hi_serial :: "jsstring option"
  hi_fp :: jsstring

definition resolveHostname :: "host_item \<Rightarrow> jsstring" where
  "resolveHostname it =
     (case hi_explicit it of
        Some h \<Rightarrow> h
      | None \<Rightarrow>
          let reserved = Option.bind (hi_prereg it) pr_hostname;
              existing = map_option dv_hostname (hi_existing it);
              fallback = ''lx-'' @ js_slice (hi_fp it) 0 12 in
          if truthy reserved then the reserved
          else if truthy existing then the existing
          else if truthy (hi_serial it) \<and> isValidHostname (''lx-'' @ js_lower (the (hi_serial it)))
          then ''lx-'' @ js_lower (the (hi_serial it))
          else fallback)"

text \<open>\<open>Inl h\<close> is \<open>{ error: 'HOSTNAME_TAKEN', hostname: h }\<close>, \<open>Inr h\<close> is \<open>{ hostname: h }\<close>.\<close>

definition resolveHostnamesForBatch :: "db \<Rightarrow> host_item list \<Rightarrow> (jsstring + jsstring) list" where
  "resolveHostnamesForBatch d items =
     (let hostnames = map resolveHostname items;
          lower = map js_lower hostnames;
          rows = filter (\<lambda>r. js_lower (dv_hostname r) \<in> set lower) (db_devices d)
      in map (\<lambda>i.
           if list_ex (\<lambda>r. js_lower (dv_hostname r) = lower ! i \<and>
                           Some (dv_id r) \<noteq> map_option dv_id (hi_existing (items ! i))) rows
              \<or> list_ex (\<lambda>j. j \<noteq> i \<and> lower ! j = lower ! i) [0..<length items]
           then Inl (hostnames ! i) else Inr (hostnames ! i))
         [0..<length items])"

section \<open>Conversion\<close>

definition cleared_facts :: win_facts where
  "cleared_facts =
     \<lparr>wf_health_signals = None, wf_health_updated_at = None, wf_system_info = None,
      wf_ssh_host_key_fp = None, wf_ssh_host_key_learned_at = None, wf_ip_netbird = None,
      wf_agent_version = None, wf_intune_device_id = None, wf_aad_device_id = None,
      wf_intune_user_id = None, wf_intune_user_display_name = None, wf_intune_last_sync = None,
      wf_compliance_state = None, wf_enrolled_at = None, wf_last_seen_ws = None\<rparr>"

definition live_token :: "uuid \<Rightarrow> agent_token \<Rightarrow> bool" where
  "live_token i t \<longleftrightarrow> tk_device t = Some i \<and> tk_revoked_at t = None"

text \<open>The counts per table, in the order of the code.\<close>

definition clearWindowsFacts :: "time \<Rightarrow> uuid \<Rightarrow> db \<Rightarrow> (jsstring \<times> nat) list \<times> db" where
  "clearWindowsFacts now i d =
     ([(''compliance_results'', count_list (db_compliance d) i),
       (''disks'', count_list (db_disks d) i),
       (''network_interfaces'', count_list (db_interfaces d) i),
       (''device_software'', count_list (db_software d) i),
       (''agent_tokens'', length (filter (live_token i) (db_tokens d)))],
      d\<lparr>db_compliance := removeAll i (db_compliance d),
        db_disks := removeAll i (db_disks d),
        db_interfaces := removeAll i (db_interfaces d),
        db_software := removeAll i (db_software d),
        db_devices := update_rows (\<lambda>r. dv_id r = i) (\<lambda>r. r\<lparr>dv_facts := cleared_facts\<rparr>) (db_devices d),
        db_tokens := update_rows (live_token i) (\<lambda>t. t\<lparr>tk_revoked_at := Some now\<rparr>) (db_tokens d)\<rparr>)"

definition new_pull_device ::
    "uuid \<Rightarrow> jsstring \<Rightarrow> jsstring option \<Rightarrow> jsstring \<Rightarrow> ring \<Rightarrow> jsstring option \<Rightarrow> device" where
  "new_pull_device i h s prof rg usr =
     \<lparr>dv_id = i, dv_hostname = h, dv_serial = s, dv_platform = Some Linux, dv_pull = True,
      dv_source = Some ''agent'', dv_profile = Some prof, dv_ring = Some rg, dv_user = usr,
      dv_os = None, dv_disk_pct = None, dv_last_seen = None, dv_last_revision = None,
      dv_ok_revision = None, dv_apply_status = None, dv_apply_at = None, dv_facts = cleared_facts\<rparr>"

definition createPullDevice ::
    "jsstring \<Rightarrow> jsstring option \<Rightarrow> jsstring \<Rightarrow> ring \<Rightarrow> jsstring option \<Rightarrow> db \<Rightarrow> db_error + device \<times> db" where
  "createPullDevice h s prof rg usr d =
     (if list_ex (\<lambda>r. dv_hostname r = h) (db_devices d) then Inl (Unique_violation ''devices_hostname_key'')
      else if s \<noteq> None \<and> list_ex (\<lambda>r. dv_serial r = s) (db_devices d)
      then Inl (Unique_violation ''devices_serial_unique'')
      else let dev = new_pull_device (db_next d) h s prof rg usr
           in Inr (dev, d\<lparr>db_devices := db_devices d @ [dev], db_next := db_next d + 1\<rparr>))"

section \<open>Classification\<close>

definition PENDING_CAP :: nat where
  "PENDING_CAP = 500"

record enroll_match =
  em_kind :: enroll_kind
  em_device :: "device option"
  em_key :: "lkey option"
  em_prereg :: "prereg option"

text \<open>\<open>UPPER(BTRIM(serial)) = $1\<close>.\<close>

definition serial_is :: "jsstring \<Rightarrow> device \<Rightarrow> bool" where
  "serial_is s r \<longleftrightarrow> map_option (\<lambda>t. js_upper (sql_btrim t)) (dv_serial r) = Some s"

definition device_serial_of :: "db \<Rightarrow> lkey \<Rightarrow> jsstring option" where
  "device_serial_of d k = Option.bind (lk_device k) (\<lambda>i. Option.bind (find_device d i) dv_serial)"

definition open_prereg :: "jsstring \<Rightarrow> prereg \<Rightarrow> bool" where
  "open_prereg s p \<longleftrightarrow> pr_serial p = s \<and> pr_consumed p = None"

definition classifyEnrollment :: "db \<Rightarrow> jsstring \<Rightarrow> jsstring option \<Rightarrow> enroll_match" where
  "classifyEnrollment d fp serial =
     (case serial of
        None \<Rightarrow> \<lparr>em_kind = KNew, em_device = None, em_key = None, em_prereg = None\<rparr>
      | Some s \<Rightarrow>
          let dev = first_by dv_id (filter (serial_is s) (db_devices d));
              key = first_by lk_id (filter (\<lambda>k. lk_status k = Approved \<and> lk_serial k = Some s \<and> lk_fp k \<noteq> fp) (db_keys d));
              pre = find (open_prereg s) (db_preregs d);
              clone = (case key of None \<Rightarrow> False
                       | Some k \<Rightarrow> lk_device k = None \<or> normalizeSerial (device_serial_of d k) \<noteq> Some s);
              kind = (if clone then KClone
                      else case dev of
                        Some dv \<Rightarrow> if dv_pull dv then KReimage else KExisting
                      | None \<Rightarrow> if key \<noteq> None then KClone else if pre \<noteq> None then KPreregistered else KNew)
          in \<lparr>em_kind = kind, em_device = dev, em_key = key, em_prereg = pre\<rparr>)"

definition NO_CONFLICT :: "enroll_kind list" where
  "NO_CONFLICT = [KNew, KPreregistered]"

section \<open>Binding a key\<close>

text \<open>
  The partial unique index \<open>ux_linux_device_keys_approved\<close> is what the statement can violate.
\<close>

definition bind_row :: "time \<Rightarrow> jsstring \<Rightarrow> uuid \<Rightarrow> prereg option \<Rightarrow> lkey \<Rightarrow> lkey" where
  "bind_row now actor i pre k =
     k\<lparr>lk_status := Approved, lk_device := Some i, lk_approved := Some (now, actor), lk_conflict := None,
       lk_source := (case pre of None \<Rightarrow> Manual | Some _ \<Rightarrow> Preregistration)\<rparr>"

definition bindKey ::
    "time \<Rightarrow> lkey \<Rightarrow> device \<Rightarrow> jsstring \<Rightarrow> prereg option \<Rightarrow> db \<Rightarrow> db_error + lkey \<times> db" where
  "bindKey now key dev actor pre d =
     (if list_ex (\<lambda>k. lk_id k \<noteq> lk_id key \<and> lk_status k = Approved \<and> lk_device k = Some (dv_id dev)) (db_keys d)
      then Inl (Unique_violation ''ux_linux_device_keys_approved'')
      else
        let d1 = d\<lparr>db_keys := update_rows (\<lambda>k. lk_id k = lk_id key) (bind_row now actor (dv_id dev) pre) (db_keys d)\<rparr>;
            d2 = (case pre of
                    None \<Rightarrow> d1
                  | Some p \<Rightarrow> d1\<lparr>db_preregs :=
                      update_rows (\<lambda>r. pr_id r = pr_id p \<and> pr_consumed r = None)
                        (\<lambda>r. r\<lparr>pr_consumed := Some (now, Some (lk_id key))\<rparr>) (db_preregs d1)\<rparr>)
        in (case find_key d1 (lk_id key) of
              None \<Rightarrow> Inl Row_missing
            | Some k \<Rightarrow> Inr (k, d2)))"

section \<open>Contact of an agent\<close>

record enroll_input =
  ei_fp :: jsstring
  ei_public :: bytes
  ei_backing :: jsstring
  ei_serial :: "jsstring option"
  ei_hostname :: "jsstring option"
  ei_os :: "jsstring option"
  ei_agent :: "jsstring option"
  ei_ip :: jsstring

datatype enroll_status = Flood | Mismatch | Status key_status

record enroll_result =
  er_status :: enroll_status
  er_key :: "lkey option"
  er_device :: "device option"
  er_retry :: nat

definition pending_count :: "db \<Rightarrow> nat" where
  "pending_count d = length (filter (\<lambda>k. lk_status k = Pending) (db_keys d))"

definition device_actor :: "jsstring \<Rightarrow> jsstring" where
  "device_actor fp = ''device:'' @ js_slice fp 0 12"

definition new_key :: "uuid \<Rightarrow> time \<Rightarrow> enroll_input \<Rightarrow> lkey" where
  "new_key i now inp =
     \<lparr>lk_id = i, lk_device = None, lk_fp = ei_fp inp, lk_public = ei_public inp, lk_backing = ei_backing inp,
      lk_serial = normalizeSerial (ei_serial inp), lk_hostname = ei_hostname inp, lk_os = ei_os inp,
      lk_agent = ei_agent inp, lk_status = Pending, lk_source = Manual, lk_conflict = None,
      lk_first_seen = now, lk_last_seen = now, lk_attempts = 1, lk_approved = None,
      lk_rejected = None, lk_revoked = None, lk_reason = None, lk_luks_root = False\<rparr>"

definition refreshed_key :: "time \<Rightarrow> enroll_input \<Rightarrow> lkey \<Rightarrow> lkey" where
  "refreshed_key now inp k =
     k\<lparr>lk_attempts := lk_attempts k + 1, lk_last_seen := now, lk_backing := ei_backing inp,
       lk_serial := (if lk_status k = Approved \<and> lk_serial k \<noteq> None then lk_serial k
                     else normalizeSerial (ei_serial inp)),
       lk_hostname := ei_hostname inp, lk_os := ei_os inp, lk_agent := ei_agent inp\<rparr>"

text \<open>\<open>INSERT ... ON CONFLICT (key_fingerprint) DO UPDATE ... RETURNING *\<close>.\<close>

definition upsert_key :: "time \<Rightarrow> enroll_input \<Rightarrow> db \<Rightarrow> lkey \<times> db" where
  "upsert_key now inp d =
     (case find_fp d (ei_fp inp) of
        None \<Rightarrow> let k = new_key (db_next d) now inp
                in (k, d\<lparr>db_keys := db_keys d @ [k], db_next := db_next d + 1\<rparr>)
      | Some k \<Rightarrow> (refreshed_key now inp k,
                  d\<lparr>db_keys := update_rows (\<lambda>r. lk_fp r = ei_fp inp) (refreshed_key now inp) (db_keys d)\<rparr>))"

definition conflict_of :: "time \<Rightarrow> db \<Rightarrow> jsstring option \<Rightarrow> enroll_match \<Rightarrow> conflict" where
  "conflict_of now d serial m =
     (let dev = em_device m;
          claim = (case dev of
                     Some dv \<Rightarrow> if \<not> dv_pull dv then checkDeviceClaim now d dv serial None else None
                   | None \<Rightarrow> None)
      in \<lparr>cf_kind = em_kind m, cf_device = map_option dv_id dev, cf_hostname = map_option dv_hostname dev,
          cf_pull = (case dev of Some dv \<Rightarrow> dv_pull dv | None \<Rightarrow> False),
          cf_platform = Option.bind dev dv_platform, cf_last_seen = Option.bind dev dv_last_seen,
          cf_key = map_option lk_id (em_key m),
          cf_active_token = (case claim of Some (Active_token _) \<Rightarrow> True | _ \<Rightarrow> False)\<rparr>)"

definition jserial :: "jsstring option \<Rightarrow> json" where
  "jserial s = jopt JStr s"

definition kind_name :: "enroll_kind \<Rightarrow> jsstring" where
  "kind_name k = (case k of KNew \<Rightarrow> ''new'' | KPreregistered \<Rightarrow> ''preregistered''
     | KExisting \<Rightarrow> ''existing_device'' | KReimage \<Rightarrow> ''reimage'' | KClone \<Rightarrow> ''clone'')"

definition platform_name :: "platform \<Rightarrow> jsstring" where
  "platform_name p = (case p of Windows \<Rightarrow> ''windows'' | Linux \<Rightarrow> ''linux'' | Macos \<Rightarrow> ''macos'')"

definition conflict_json :: "conflict \<Rightarrow> json" where
  "conflict_json c = JObj
     [(''kind'', JStr (kind_name (cf_kind c))), (''device_id'', jopt jid (cf_device c)),
      (''hostname'', jopt JStr (cf_hostname c)), (''managed_by'', if cf_pull c then JStr ''pull'' else JNull),
      (''platform'', jopt (\<lambda>p. JStr (platform_name p)) (cf_platform c)),
      (''last_seen'', jopt (\<lambda>t. JNum (of_int t)) (cf_last_seen c)), (''key_id'', jopt jid (cf_key c)),
      (''has_active_token'', JBool (cf_active_token c))]"

text \<open>Lines 146-164: the conflict of a pending key and its audit.\<close>

definition enroll_conflict ::
    "time \<Rightarrow> enroll_input \<Rightarrow> lkey \<Rightarrow> enroll_match \<Rightarrow> db \<Rightarrow> conflict option \<times> db" where
  "enroll_conflict now inp key m d =
     (if em_kind m \<in> {KExisting, KReimage, KClone} then
        let serial = normalizeSerial (ei_serial inp);
            c = conflict_of now d serial m;
            changed = (case lk_conflict key of None \<Rightarrow> True
                       | Some c0 \<Rightarrow> cf_kind c0 \<noteq> cf_kind c \<or> cf_device c0 \<noteq> cf_device c)
        in (Some c,
            if changed then
              logAudit ''linux_enroll_serial_conflict'' (Some (device_actor (ei_fp inp)))
                (map_option dv_id (em_device m))
                [(''level'', JStr ''warn''), (''serial'', jserial serial), (''hostname'', jserial (ei_hostname inp)),
                 (''conflict'', conflict_json c)] now d
            else d)
      else (None, d))"

text \<open>Lines 168-184: a pre-registered serial is approved at once unless its host name is taken.\<close>

definition enroll_prereg ::
    "time \<Rightarrow> nat \<Rightarrow> enroll_input \<Rightarrow> lkey \<Rightarrow> enroll_match \<Rightarrow> db \<Rightarrow> db_error + enroll_result \<times> db" where
  "enroll_prereg now retry inp pending m d =
     (let serial = normalizeSerial (ei_serial inp);
          stay = Inr (\<lparr>er_status = Status Pending, er_key = Some pending, er_device = None, er_retry = retry\<rparr>, d) in
      case (em_kind m, em_prereg m) of
        (KPreregistered, Some p) \<Rightarrow>
          (case hd (resolveHostnamesForBatch d
                     [\<lparr>hi_explicit = None, hi_prereg = Some p, hi_existing = None,
                       hi_serial = serial, hi_fp = ei_fp inp\<rparr>]) of
             Inl _ \<Rightarrow> stay
           | Inr h \<Rightarrow>
               (case createPullDevice h serial (pr_profile p) (pr_ring p) (pr_user p) d of
                  Inl e \<Rightarrow> Inl e
                | Inr (dev, d1) \<Rightarrow>
                    (case bindKey now pending dev (device_actor (ei_fp inp)) (Some p) d1 of
                       Inl e \<Rightarrow> Inl e
                     | Inr (bound, d2) \<Rightarrow>
                         Inr (\<lparr>er_status = Status Approved, er_key = Some bound, er_device = Some dev, er_retry = retry\<rparr>,
                              logAudit ''linux_device_enrolled'' (Some (device_actor (ei_fp inp))) (Some (dv_id dev))
                                [(''source'', JStr ''preregistration''), (''serial'', jserial serial),
                                 (''hostname'', JStr (dv_hostname dev)), (''preregistration_id'', jid (pr_id p))] now d2))))
      | _ \<Rightarrow> stay)"

definition recent_mismatch :: "time \<Rightarrow> uuid \<Rightarrow> audit_row \<Rightarrow> bool" where
  "recent_mismatch now i a \<longleftrightarrow>
     au_action a = ''linux_key_serial_mismatch'' \<and> jm_get (au_details a) ''key_id'' = Some (jid i) \<and>
     now - 3600000 < au_at a"

definition enroll_body ::
    "time \<Rightarrow> time \<Rightarrow> enroll_input \<Rightarrow> db \<Rightarrow> db_error + enroll_result \<times> db" where
  "enroll_body now clock inp d =
     (let serial = normalizeSerial (ei_serial inp);
          actor = device_actor (ei_fp inp);
          known = find_fp d (ei_fp inp) in
      if known = None \<and> pending_count d \<ge> PENDING_CAP then
        Inr (\<lparr>er_status = Flood, er_key = None, er_device = None, er_retry = 300\<rparr>,
             logAudit ''linux_enroll_flood'' (Some actor) None
               [(''level'', JStr ''error''), (''serial'', jserial serial), (''hostname'', jserial (ei_hostname inp)),
                (''ip'', JStr (ei_ip inp)), (''pending'', JNum (of_nat (pending_count d)))] now d)
      else
        let mismatch = (case known of None \<Rightarrow> False
                        | Some k \<Rightarrow> lk_status k = Approved \<and> lk_serial k \<noteq> None \<and> lk_serial k \<noteq> serial);
            (key, d1) = upsert_key now inp d;
            retry = (if clock - lk_first_seen key < 3600000 then 30 else 300) in
        if mismatch then
          Inr (\<lparr>er_status = Mismatch, er_key = Some key, er_device = None, er_retry = retry\<rparr>,
               if list_ex (recent_mismatch now (lk_id key)) (db_audit d1) then d1
               else logAudit ''linux_key_serial_mismatch'' (Some actor) (lk_device key)
                      [(''level'', JStr ''warn''), (''key_id'', jid (lk_id key)), (''serial'', jserial serial),
                       (''expected'', jserial (lk_serial key)), (''hostname'', jserial (ei_hostname inp))] now d1)
        else if lk_status key \<noteq> Pending then
          Inr (\<lparr>er_status = Status (lk_status key), er_key = Some key,
                er_device = Option.bind (lk_device key) (find_device d1), er_retry = retry\<rparr>, d1)
        else
          let m = classifyEnrollment d1 (ei_fp inp) serial;
              (c, d2) = enroll_conflict now inp key m d1;
              d3 = d2\<lparr>db_keys := update_rows (\<lambda>k. lk_id k = lk_id key) (\<lambda>k. k\<lparr>lk_conflict := c\<rparr>) (db_keys d2)\<rparr>
          in enroll_prereg now retry inp (key\<lparr>lk_conflict := c\<rparr>) m d3)"

text \<open>The result of a contact is never a refusal (\<open>ok\<close> is undefined), so it is committed.\<close>

definition enrollDevice ::
    "time \<Rightarrow> time \<Rightarrow> enroll_input \<Rightarrow> db \<Rightarrow> (db_error + enroll_result) \<times> db" where
  "enrollDevice now clock inp d = transaction (\<lambda>_. False) (enroll_body now clock inp) d"

section \<open>Decisions of an administrator\<close>

datatype refusal_code =
    NOT_FOUND | NOT_PENDING | CONFLICT | SERIAL_MISMATCH | ACTIVE_KEY | ACTIVE_TOKEN
  | HOSTNAME_TAKEN | UNKNOWN_USER | NO_ACTIVE_KEY

datatype refusal_details =
    No_details
  | Key_status key_status
  | Conflict_row conflict
  | Conflict_kind enroll_kind
  | Device_id uuid
  | Serials "jsstring option" "jsstring option"
  | Old_key uuid jsstring time
  | Token_id uuid jsstring
  | Hostname jsstring
  | User_id jsstring
  | Constraint_name jsstring

record refusal =
  rf_http :: nat
  rf_code :: refusal_code
  rf_details :: refusal_details

definition refuse :: "nat \<Rightarrow> refusal_code \<Rightarrow> refusal_details \<Rightarrow> refusal" where
  "refuse st c det = \<lparr>rf_http = st, rf_code = c, rf_details = det\<rparr>"

text \<open>The result of a transaction that may refuse: \<open>Inl\<close> is \<open>{ ok: false, ... }\<close>.\<close>

type_synonym 'a outcome = "refusal + 'a"

definition refused :: "'a outcome \<Rightarrow> bool" where
  "refused r \<longleftrightarrow> \<not> is_inr r"

record approve_body =
  ab_only_new :: bool
  ab_convert :: "uuid option"
  ab_supersede :: bool
  ab_revoke_token :: bool
  ab_hostname :: "jsstring option"
  ab_user :: "jsstring option"
  ab_profile :: jsstring
  ab_ring :: ring

record approval =
  ap_device :: device
  ap_key :: lkey
  ap_converted :: bool

definition conflict_details :: "lkey \<Rightarrow> enroll_match \<Rightarrow> refusal_details" where
  "conflict_details key m =
     (case lk_conflict key of Some c \<Rightarrow> Conflict_row c | None \<Rightarrow> Conflict_kind (em_kind m))"

definition revoke_row :: "time \<Rightarrow> jsstring \<Rightarrow> jsstring option \<Rightarrow> lkey \<Rightarrow> lkey" where
  "revoke_row now actor reason k =
     k\<lparr>lk_status := Revoked, lk_revoked := Some (now, actor), lk_reason := reason\<rparr>"

type_synonym cleared_counts = "(jsstring \<times> nat) list"

text \<open>Lines 209-237: the device a conversion or a re-enrolment reuses.\<close>

definition approve_target ::
    "time \<Rightarrow> jsstring \<Rightarrow> approve_body \<Rightarrow> lkey \<Rightarrow> enroll_match \<Rightarrow> uuid option \<Rightarrow> db
      \<Rightarrow> (device option \<times> cleared_counts option \<times> db) outcome" where
  "approve_target now actor body key m target d =
     (case target of
        None \<Rightarrow> Inr (None, None, d)
      | Some i \<Rightarrow>
          (case find_device d i of
             None \<Rightarrow> Inl (refuse 404 NOT_FOUND (Device_id i))
           | Some dev \<Rightarrow>
               if lk_serial key = None \<or> normalizeSerial (dv_serial dev) \<noteq> lk_serial key
               then Inl (refuse 409 SERIAL_MISMATCH (Serials (dv_serial dev) (lk_serial key)))
               else if em_device m \<noteq> None \<and> dv_id (the (em_device m)) \<noteq> dv_id dev
               then Inl (refuse 409 CONFLICT (case lk_conflict key of Some c \<Rightarrow> Conflict_row c | None \<Rightarrow> No_details))
               else if dv_pull dev then
                 (case find (\<lambda>k. lk_device k = Some (dv_id dev) \<and> lk_status k = Approved) (db_keys d) of
                    None \<Rightarrow> Inr (Some dev, None, d)
                  | Some old \<Rightarrow>
                      if \<not> ab_supersede body
                      then Inl (refuse 409 ACTIVE_KEY (Old_key (lk_id old) (dv_hostname dev) (lk_last_seen old)))
                      else Inr (Some dev, None,
                             d\<lparr>db_keys := update_rows (\<lambda>k. lk_id k = lk_id old)
                                            (revoke_row now actor (Some ''superseded'')) (db_keys d)\<rparr>))
               else
                 (case checkDeviceClaim now d dev (lk_serial key) None of
                    Some (Active_token t) \<Rightarrow>
                      if \<not> ab_revoke_token body
                      then Inl (refuse 409 ACTIVE_TOKEN (Token_id t (dv_hostname dev)))
                      else (case clearWindowsFacts now (dv_id dev) d of (n, d') \<Rightarrow> Inr (Some dev, Some n, d'))
                  | _ \<Rightarrow> (case clearWindowsFacts now (dv_id dev) d of (n, d') \<Rightarrow> Inr (Some dev, Some n, d')))))"

text \<open>Lines 250-261: the device row is updated or created.\<close>

definition approve_device ::
    "approve_body \<Rightarrow> lkey \<Rightarrow> jsstring \<Rightarrow> jsstring option \<Rightarrow> device option \<Rightarrow> db \<Rightarrow> db_error + device \<times> db" where
  "approve_device body key h usr dev d =
     (case dev of
        None \<Rightarrow> createPullDevice h (lk_serial key) (ab_profile body) (ab_ring body) usr d
      | Some dv \<Rightarrow>
          if list_ex (\<lambda>r. dv_id r \<noteq> dv_id dv \<and> dv_hostname r = h) (db_devices d)
          then Inl (Unique_violation ''devices_hostname_key'')
          else
            let d1 = d\<lparr>db_devices := update_rows (\<lambda>r. dv_id r = dv_id dv)
                        (\<lambda>r. r\<lparr>dv_platform := Some Linux, dv_pull := True, dv_hostname := h,
                                dv_profile := Some (ab_profile body), dv_ring := Some (ab_ring body), dv_user := usr\<rparr>)
                        (db_devices d)\<rparr>
            in (case find_device d1 (dv_id dv) of None \<Rightarrow> Inl Row_missing | Some r \<Rightarrow> Inr (r, d1)))"

definition ring_name :: "ring \<Rightarrow> jsstring" where
  "ring_name r = (case r of Pilot \<Rightarrow> ''pilot'' | Stable \<Rightarrow> ''stable'')"

definition approve_audit ::
    "time \<Rightarrow> jsstring \<Rightarrow> approve_body \<Rightarrow> lkey \<Rightarrow> bool \<Rightarrow> cleared_counts option \<Rightarrow> device \<Rightarrow> db \<Rightarrow> db" where
  "approve_audit now actor body key targeted cleared dev d =
     (let base = [(''hostname'', JStr (dv_hostname dev)), (''serial'', jserial (lk_serial key)),
                  (''key_id'', jid (lk_id key)), (''profile'', JStr (ab_profile body)),
                  (''ring'', JStr (ring_name (ab_ring body)))]
      in case cleared of
           Some n \<Rightarrow>
             logAudit ''linux_device_converted'' (Some actor) (Some (dv_id dev))
               (base @ [(''cleared'', JObj (map (\<lambda>(t, c). (t, JNum (of_nat c))) n)),
                        (''revoke_active_token'', JBool (ab_revoke_token body))]) now d
         | None \<Rightarrow>
             logAudit (if targeted then ''linux_device_reenrolled'' else ''linux_device_approved'')
               (Some actor) (Some (dv_id dev)) base now d)"

text \<open>Lines 239-269: name, user, device, key and audit.\<close>

definition approve_finish ::
    "time \<Rightarrow> jsstring \<Rightarrow> approve_body \<Rightarrow> lkey \<Rightarrow> enroll_match \<Rightarrow> bool
      \<Rightarrow> device option \<Rightarrow> cleared_counts option \<Rightarrow> db \<Rightarrow> db_error + approval outcome \<times> db" where
  "approve_finish now actor body key m targeted dev cleared d =
     (let pre = em_prereg m in
      case hd (resolveHostnamesForBatch d
                [\<lparr>hi_explicit = ab_hostname body, hi_prereg = pre, hi_existing = dev,
                  hi_serial = lk_serial key, hi_fp = lk_fp key\<rparr>]) of
        Inl h \<Rightarrow> Inr (Inl (refuse 409 HOSTNAME_TAKEN (Hostname h)), d)
      | Inr h \<Rightarrow>
          let usr = first_some (ab_user body)
                      (first_some (Option.bind pre pr_user) (Option.bind dev dv_user)) in
          if truthy usr \<and> \<not> list_ex (\<lambda>u. us_id u = the usr) (db_users d)
          then Inr (Inl (refuse 400 UNKNOWN_USER (User_id (the usr))), d)
          else
            (case approve_device body key h usr dev d of
               Inl e \<Rightarrow> Inl e
             | Inr (dv, d1) \<Rightarrow>
                 (case bindKey now key dv actor pre d1 of
                    Inl e \<Rightarrow> Inl e
                  | Inr (bound, d2) \<Rightarrow>
                      Inr (Inr \<lparr>ap_device = dv, ap_key = bound, ap_converted = (cleared \<noteq> None)\<rparr>,
                           approve_audit now actor body key targeted cleared dv d2))))"

definition approve_body_tx ::
    "time \<Rightarrow> jsstring \<Rightarrow> uuid \<Rightarrow> approve_body \<Rightarrow> db \<Rightarrow> db_error + approval outcome \<times> db" where
  "approve_body_tx now actor i body d =
     (case find_key d i of
        None \<Rightarrow> Inr (Inl (refuse 404 NOT_FOUND No_details), d)
      | Some key \<Rightarrow>
          if lk_status key \<noteq> Pending then Inr (Inl (refuse 409 NOT_PENDING (Key_status (lk_status key))), d)
          else
            let m = classifyEnrollment d (lk_fp key) (lk_serial key);
                target = first_some (ab_convert body)
                           (if em_kind m = KReimage then map_option dv_id (em_device m) else None) in
            if ab_only_new body \<and> em_kind m \<notin> set NO_CONFLICT
            then Inr (Inl (refuse 409 CONFLICT (conflict_details key m)), d)
            else if em_kind m = KClone \<or> (target = None \<and> em_kind m = KExisting)
            then Inr (Inl (refuse 409 CONFLICT (conflict_details key m)), d)
            else
              (case approve_target now actor body key m target d of
                 Inl r \<Rightarrow> Inr (Inl r, d)
               | Inr (dev, cleared, d1) \<Rightarrow> approve_finish now actor body key m (target \<noteq> None) dev cleared d1))"

text \<open>A unique violation is the same 409 contract; any other error is rethrown.\<close>

definition approveEnrollment ::
    "time \<Rightarrow> jsstring \<Rightarrow> uuid \<Rightarrow> approve_body \<Rightarrow> db \<Rightarrow> (db_error + approval outcome) \<times> db" where
  "approveEnrollment now actor i body d =
     (case transaction refused (approve_body_tx now actor i body) d of
        (Inl (Unique_violation c), d') \<Rightarrow>
          (Inr (Inl (refuse 409 (if c = ''ux_linux_device_keys_approved'' then ACTIVE_KEY else HOSTNAME_TAKEN)
                      (Constraint_name c))), d')
      | r \<Rightarrow> r)"

definition reject_row :: "time \<Rightarrow> jsstring \<Rightarrow> lkey \<Rightarrow> lkey" where
  "reject_row now actor k = k\<lparr>lk_status := Rejected, lk_rejected := Some (now, actor), lk_conflict := None\<rparr>"

definition reject_body :: "time \<Rightarrow> jsstring \<Rightarrow> uuid \<Rightarrow> jsstring option \<Rightarrow> db \<Rightarrow> db_error + lkey outcome \<times> db" where
  "reject_body now actor i reason d =
     (case find_key d i of
        None \<Rightarrow> Inr (Inl (refuse 404 NOT_FOUND No_details), d)
      | Some key \<Rightarrow>
          if lk_status key \<noteq> Pending then Inr (Inl (refuse 409 NOT_PENDING (Key_status (lk_status key))), d)
          else Inr (Inr (reject_row now actor key),
                 logAudit ''linux_device_rejected'' (Some actor) (lk_device key)
                   [(''key_id'', jid i), (''serial'', jserial (lk_serial key)),
                    (''hostname'', jserial (lk_hostname key)), (''reason'', jserial reason)] now
                   (d\<lparr>db_keys := update_rows (\<lambda>k. lk_id k = i) (reject_row now actor) (db_keys d)\<rparr>)))"

definition rejectEnrollment ::
    "time \<Rightarrow> jsstring \<Rightarrow> uuid \<Rightarrow> jsstring option \<Rightarrow> db \<Rightarrow> (db_error + lkey outcome) \<times> db" where
  "rejectEnrollment now actor i reason d = transaction refused (reject_body now actor i reason) d"

definition revoke_body :: "time \<Rightarrow> jsstring \<Rightarrow> uuid \<Rightarrow> jsstring \<Rightarrow> db \<Rightarrow> db_error + (device \<times> lkey) outcome \<times> db" where
  "revoke_body now actor i reason d =
     (case find (\<lambda>r. dv_id r = i \<and> dv_pull r) (db_devices d) of
        None \<Rightarrow> Inr (Inl (refuse 404 NOT_FOUND No_details), d)
      | Some dev \<Rightarrow>
          let hit = (\<lambda>k. lk_device k = Some i \<and> lk_status k = Approved);
              d1 = d\<lparr>db_keys := update_rows hit (revoke_row now actor (Some reason)) (db_keys d)\<rparr> in
          (case find hit (db_keys d) of
             None \<Rightarrow> Inr (Inl (refuse 409 NO_ACTIVE_KEY (Hostname (dv_hostname dev))), d1)
           | Some key \<Rightarrow>
               Inr (Inr (dev, revoke_row now actor (Some reason) key),
                    logAudit ''linux_device_revoked'' (Some actor) (Some i)
                      [(''key_id'', jid (lk_id key)), (''hostname'', JStr (dv_hostname dev)),
                       (''serial'', jserial (dv_serial dev)), (''reason'', JStr reason)] now d1)))"

definition revokeDeviceKey ::
    "time \<Rightarrow> jsstring \<Rightarrow> uuid \<Rightarrow> jsstring \<Rightarrow> db \<Rightarrow> (db_error + (device \<times> lkey) outcome) \<times> db" where
  "revokeDeviceKey now actor i reason d = transaction refused (revoke_body now actor i reason) d"

section \<open>Bulk decisions\<close>

text \<open>The code of a refusal, or success, of one item.\<close>

definition item_code :: "db_error + 'a outcome \<Rightarrow> db_error + refusal_code option" where
  "item_code r = (case r of Inl e \<Rightarrow> Inl e | Inr (Inl rf) \<Rightarrow> Inr (Some (rf_code rf)) | Inr (Inr _) \<Rightarrow> Inr None)"

definition bulk_body :: "jsstring \<Rightarrow> ring \<Rightarrow> jsstring \<Rightarrow> approve_body" where
  "bulk_body prof rg h =
     \<lparr>ab_only_new = True, ab_convert = None, ab_supersede = False, ab_revoke_token = False,
      ab_hostname = Some h, ab_user = None, ab_profile = prof, ab_ring = rg\<rparr>"

text \<open>Lines 290-297: the candidates with their host name item, or the code that skips the id.\<close>

definition candidate :: "db \<Rightarrow> uuid \<Rightarrow> refusal_code + lkey \<times> host_item" where
  "candidate d i =
     (case find_key d i of
        None \<Rightarrow> Inl NOT_FOUND
      | Some key \<Rightarrow>
          if lk_status key \<noteq> Pending then Inl NOT_PENDING
          else
            let m = classifyEnrollment d (lk_fp key) (lk_serial key) in
            if em_kind m \<notin> set NO_CONFLICT then Inl CONFLICT
            else Inr (key, \<lparr>hi_explicit = None, hi_prereg = em_prereg m, hi_existing = None,
                            hi_serial = lk_serial key, hi_fp = lk_fp key\<rparr>))"

definition approve_item ::
    "time \<Rightarrow> jsstring \<Rightarrow> jsstring \<Rightarrow> ring \<Rightarrow> uuid \<times> (jsstring + jsstring) \<Rightarrow> db \<Rightarrow> (db_error + refusal_code option) \<times> db" where
  "approve_item now actor prof rg it d =
     (case snd it of
        Inl _ \<Rightarrow> (Inr (Some HOSTNAME_TAKEN), d)
      | Inr h \<Rightarrow> (case approveEnrollment now actor (fst it) (bulk_body prof rg h) d of
                   (r, d') \<Rightarrow> (item_code r, d')))"

definition approveEnrollments ::
    "time \<Rightarrow> jsstring \<Rightarrow> uuid list \<Rightarrow> jsstring \<Rightarrow> ring \<Rightarrow> db \<Rightarrow> (db_error + (uuid, refusal_code) bulk_result) \<times> db" where
  "approveEnrollments now actor ids prof rg d =
     (let ids' = js_uniq ids;
          early = List.map_filter (\<lambda>i. case candidate d i of Inl c \<Rightarrow> Some (i, c) | Inr _ \<Rightarrow> None) ids';
          cands = List.map_filter (\<lambda>i. case candidate d i of Inl _ \<Rightarrow> None | Inr c \<Rightarrow> Some c) ids';
          names = resolveHostnamesForBatch d (map snd cands);
          items = zip (map (\<lambda>c. lk_id (fst c)) cands) names
      in case bulk_run (approve_item now actor prof rg) items d of
           (Inl e, d') \<Rightarrow> (Inl e, d')
         | (Inr (n, errs), d') \<Rightarrow>
             (Inr (bulk_result n (early @ map (\<lambda>(it, c). (fst it, c)) errs)), d'))"

definition reject_item ::
    "time \<Rightarrow> jsstring \<Rightarrow> jsstring option \<Rightarrow> uuid \<Rightarrow> db \<Rightarrow> (db_error + refusal_code option) \<times> db" where
  "reject_item now actor reason i d =
     (case rejectEnrollment now actor i reason d of (r, d') \<Rightarrow> (item_code r, d'))"

definition rejectEnrollments ::
    "time \<Rightarrow> jsstring \<Rightarrow> uuid list \<Rightarrow> jsstring option \<Rightarrow> db \<Rightarrow> (db_error + (uuid, refusal_code) bulk_result) \<times> db" where
  "rejectEnrollments now actor ids reason d =
     (case bulk_run (reject_item now actor reason) (js_uniq ids) d of
        (Inl e, d') \<Rightarrow> (Inl e, d')
      | (Inr (n, errs), d') \<Rightarrow> (Inr (bulk_result n errs), d'))"

end
