(* ===== verification/EnrollmentSafety.thy ===== *)
theory EnrollmentSafety imports Enrollment begin

text \<open>
  What the enrolment state machine guarantees: the fleet invariant, the life cycle of a key
  as a step relation, and the effect of each administrator's decision.
\<close>

section \<open>The life cycle of a key\<close>

inductive status_step :: "key_status \<Rightarrow> key_status \<Rightarrow> bool" where
  approve: "status_step Pending Approved"
| reject: "status_step Pending Rejected"
| revoke: "status_step Approved Revoked"

inductive_simps status_step_from:
  "status_step Pending s" "status_step Approved s" "status_step Rejected s" "status_step Revoked s"

inductive_cases status_stepE: "status_step s s'"

code_pred status_step .

inductive_simps status_step_to:
  "status_step s Pending" "status_step s Approved"

lemma status_steps_Pending: "status_step\<^sup>*\<^sup>* s Pending \<longleftrightarrow> s = Pending"
proof
  assume "status_step\<^sup>*\<^sup>* s Pending"
  then show "s = Pending"
    by (cases rule: rtranclp.cases) (simp_all add: status_step_to)
qed simp

lemma status_steps_Approved: "status_step\<^sup>*\<^sup>* s Approved \<longleftrightarrow> s = Pending \<or> s = Approved"
proof
  assume "status_step\<^sup>*\<^sup>* s Approved"
  then show "s = Pending \<or> s = Approved"
    by (cases rule: rtranclp.cases) (simp_all add: status_step_to status_steps_Pending)
next
  assume "s = Pending \<or> s = Approved"
  then show "status_step\<^sup>*\<^sup>* s Approved"
    using status_step.approve by blast
qed

lemma status_steps_final:
  "status_step\<^sup>*\<^sup>* Revoked s \<longleftrightarrow> s = Revoked" "status_step\<^sup>*\<^sup>* Rejected s \<longleftrightarrow> s = Rejected"
proof -
  have "s = r" if "status_step\<^sup>*\<^sup>* r s" "\<And>t. \<not> status_step r t" for r
    using that by (cases rule: converse_rtranclpE) simp_all
  then show "status_step\<^sup>*\<^sup>* Revoked s \<longleftrightarrow> s = Revoked" "status_step\<^sup>*\<^sup>* Rejected s \<longleftrightarrow> s = Rejected"
    using status_step_from by blast+
qed

text \<open>
  What the routes of the fleet may do to a row of \<open>linux_device_keys\<close>: its key material never
  changes, its status follows the life cycle, and while it stays approved it keeps its
  device and its serial number (once it has one). Only the daily purge and the deletion of a
  machine remove rows (\<open>Fleet\<close>).
\<close>

definition key_evolves :: "lkey \<Rightarrow> lkey \<Rightarrow> bool" where
  "key_evolves k k' \<longleftrightarrow>
     lk_id k' = lk_id k \<and> lk_fp k' = lk_fp k \<and> lk_public k' = lk_public k \<and>
     status_step\<^sup>*\<^sup>* (lk_status k) (lk_status k') \<and>
     (lk_status k = Approved \<and> lk_status k' = Approved \<longrightarrow>
        lk_device k' = lk_device k \<and> (lk_serial k \<noteq> None \<longrightarrow> lk_serial k' = lk_serial k))"

lemma key_evolves_refl [simp]: "key_evolves k k"
  by (simp add: key_evolves_def)

lemma key_evolves_trans [trans]:
  assumes "key_evolves a b" "key_evolves b c" shows "key_evolves a c"
proof -
  have steps: "status_step\<^sup>*\<^sup>* (lk_status a) (lk_status b)" "status_step\<^sup>*\<^sup>* (lk_status b) (lk_status c)"
    using assms by (simp_all add: key_evolves_def)
  have "lk_status b = Approved" if "lk_status a = Approved" "lk_status c = Approved"
    using steps that status_steps_Pending status_steps_Approved by (metis key_status.distinct(1))
  moreover have "status_step\<^sup>*\<^sup>* (lk_status a) (lk_status c)"
    using steps by (rule rtranclp_trans)
  ultimately show ?thesis
    using assms unfolding key_evolves_def by metis
qed

definition keys_evolve :: "lkey list \<Rightarrow> lkey list \<Rightarrow> bool" where
  "keys_evolve ks ks' \<longleftrightarrow> (\<forall>k \<in> set ks. \<exists>k' \<in> set ks'. key_evolves k k')"

lemma keys_evolve_refl [simp]: "keys_evolve ks ks"
  unfolding keys_evolve_def by (meson key_evolves_refl)

lemma keys_evolve_trans [trans]:
  "keys_evolve ks ks' \<Longrightarrow> keys_evolve ks' ks'' \<Longrightarrow> keys_evolve ks ks''"
  unfolding keys_evolve_def by (meson key_evolves_trans)

lemma keys_evolve_update:
  assumes "\<And>k. k \<in> set ks \<Longrightarrow> P k \<Longrightarrow> key_evolves k (f k)"
  shows "keys_evolve ks (update_rows P f ks)"
  unfolding keys_evolve_def
proof
  fix k assume k: "k \<in> set ks"
  then have "(if P k then f k else k) \<in> set (update_rows P f ks)" by (auto simp: in_update_rows)
  moreover have "key_evolves k (if P k then f k else k)" using assms [OF k] by simp
  ultimately show "\<exists>k' \<in> set (update_rows P f ks). key_evolves k k'" by blast
qed

lemma keys_evolve_append [simp]: "keys_evolve ks (ks @ ks')"
  unfolding keys_evolve_def by (metis Un_iff key_evolves_refl set_append)

section \<open>The fleet invariant\<close>

definition approved_unique :: "lkey list \<Rightarrow> bool" where
  "approved_unique ks \<longleftrightarrow>
     (\<forall>k \<in> set ks. \<forall>k' \<in> set ks. lk_status k = Approved \<and> lk_status k' = Approved \<and>
        lk_device k = lk_device k' \<longrightarrow> lk_id k = lk_id k')"

lemma approved_unique_append:
  assumes "approved_unique ks" "lk_status k \<noteq> Approved" shows "approved_unique (ks @ [k])"
  using assms unfolding approved_unique_def set_append list.set by blast

definition keys_inv :: "lkey list \<Rightarrow> uuid \<Rightarrow> bool" where
  "keys_inv ks n \<longleftrightarrow>
     distinct (map lk_id ks) \<and> distinct (map lk_fp ks) \<and> (\<forall>k \<in> set ks. lk_id k < n) \<and>
     length (filter (\<lambda>k. lk_status k = Pending) ks) \<le> PENDING_CAP \<and> approved_unique ks"

definition devices_inv :: "device list \<Rightarrow> uuid \<Rightarrow> bool" where
  "devices_inv ds n \<longleftrightarrow>
     distinct (map dv_id ds) \<and> (\<forall>r \<in> set ds. dv_id r < n) \<and>
     distinct (map dv_hostname ds)"

definition linked :: "lkey list \<Rightarrow> device list \<Rightarrow> bool" where
  "linked ks ds \<longleftrightarrow>
     (\<forall>k \<in> set ks. lk_status k = Approved \<longrightarrow>
        (\<exists>r \<in> set ds. lk_device k = Some (dv_id r) \<and> dv_pull r))"

definition fleet_inv :: "db \<Rightarrow> bool" where
  "fleet_inv d \<longleftrightarrow>
     keys_inv (db_keys d) (db_next d) \<and> devices_inv (db_devices d) (db_next d) \<and>
     linked (db_keys d) (db_devices d)"

lemmas fleet_defs = fleet_inv_def keys_inv_def devices_inv_def linked_def approved_unique_def

lemma keys_inv_mono: "keys_inv ks n \<Longrightarrow> n \<le> m \<Longrightarrow> keys_inv ks m"
  by (force simp: keys_inv_def)

lemma devices_inv_mono: "devices_inv ds n \<Longrightarrow> n \<le> m \<Longrightarrow> devices_inv ds m"
  by (force simp: devices_inv_def)

lemma length_filter_update_le:
  assumes "\<And>x. x \<in> set xs \<Longrightarrow> P x \<Longrightarrow> Q (f x) \<Longrightarrow> Q x"
  shows "length (filter Q (update_rows P f xs)) \<le> length (filter Q xs)"
  using assms
proof (induction xs)
  case (Cons x xs)
  have "length (filter Q (update_rows P f xs)) \<le> length (filter Q xs)"
    by (rule Cons.IH) (simp add: Cons.prems)
  with Cons.prems [of x] show ?case by auto
qed simp

text \<open>An update of keys that approves nothing and sends nothing back to the queue.\<close>

definition tame :: "lkey \<Rightarrow> lkey \<Rightarrow> bool" where
  "tame k k' \<longleftrightarrow>
     lk_id k' = lk_id k \<and> lk_fp k' = lk_fp k \<and>
     (lk_status k' = Pending \<longrightarrow> lk_status k = Pending) \<and>
     (lk_status k' = Approved \<longrightarrow> lk_status k = Approved \<and> lk_device k' = lk_device k)"

lemma tame_refl [simp]: "tame k k"
  by (simp add: tame_def)

lemma tame_update:
  assumes inv: "keys_inv ks n" "linked ks ds" and tame: "\<And>k. tame k (f k)"
  shows "keys_inv (update_rows P f ks) n" "linked (update_rows P f ks) ds"
proof -
  have ids: "map lk_id (update_rows P f ks) = map lk_id ks" "map lk_fp (update_rows P f ks) = map lk_fp ks"
    by (rule map_update_rows, use tame in \<open>unfold tame_def, blast\<close>)+
  have from_old: "\<exists>k \<in> set ks. tame k k'" if "k' \<in> set (update_rows P f ks)" for k'
    using that tame tame_refl unfolding in_update_rows by metis
  have "length (filter (\<lambda>k. lk_status k = Pending) (update_rows P f ks))
        \<le> length (filter (\<lambda>k. lk_status k = Pending) ks)"
    by (rule length_filter_update_le) (use tame in \<open>unfold tame_def, blast\<close>)
  moreover have "\<forall>k \<in> set (update_rows P f ks). lk_id k < n"
    using from_old inv(1) unfolding keys_inv_def tame_def by metis
  moreover have "approved_unique (update_rows P f ks)"
    unfolding approved_unique_def
  proof (intro ballI impI, elim conjE)
    fix k k' assume k: "k \<in> set (update_rows P f ks)" "k' \<in> set (update_rows P f ks)"
      and st: "lk_status k = Approved" "lk_status k' = Approved" "lk_device k = lk_device k'"
    from from_old [OF k(1)] from_old [OF k(2)] obtain j j'
      where "j \<in> set ks" "tame j k" "j' \<in> set ks" "tame j' k'" by blast
    with st inv(1) show "lk_id k = lk_id k'"
      unfolding keys_inv_def approved_unique_def tame_def by metis
  qed
  ultimately show "keys_inv (update_rows P f ks) n"
    using inv(1) ids by (simp add: keys_inv_def)
  show "linked (update_rows P f ks) ds"
    using from_old inv(2) unfolding linked_def tame_def by metis
qed

lemma linked_devices_update:
  assumes "linked ks ds" "\<And>r. dv_id (f r) = dv_id r" "\<And>r. dv_pull r \<Longrightarrow> dv_pull (f r)"
  shows "linked ks (update_rows P f ds)"
  unfolding linked_def
proof (intro ballI impI)
  fix k assume "k \<in> set ks" "lk_status k = Approved"
  with assms(1) obtain r where "r \<in> set ds" "lk_device k = Some (dv_id r)" "dv_pull r"
    unfolding linked_def by blast
  moreover have "(if P r then f r else r) \<in> set (update_rows P f ds)"
    using \<open>r \<in> set ds\<close> by (auto simp: in_update_rows)
  ultimately show "\<exists>r \<in> set (update_rows P f ds). lk_device k = Some (dv_id r) \<and> dv_pull r"
    using assms(2,3) by (metis (full_types))
qed

lemma linked_devices_append: "linked ks ds \<Longrightarrow> linked ks (ds @ ds')"
  by (fastforce simp: linked_def)

section \<open>The writes of the transactions\<close>

definition fleet_safe :: "db \<Rightarrow> db \<Rightarrow> bool" where
  "fleet_safe d d' \<longleftrightarrow> (fleet_inv d \<longrightarrow> fleet_inv d' \<and> keys_evolve (db_keys d) (db_keys d'))"

lemma fleet_safe_refl [simp]: "fleet_safe d d"
  by (simp add: fleet_safe_def)

lemma fleet_safe_trans [trans]: "fleet_safe a b \<Longrightarrow> fleet_safe b c \<Longrightarrow> fleet_safe a c"
  unfolding fleet_safe_def by (blast intro: keys_evolve_trans)

lemma fleet_safe_same_rows:
  assumes "db_keys d' = db_keys d" "db_devices d' = db_devices d" "db_next d' = db_next d"
  shows "fleet_safe d d'" "fleet_inv d' = fleet_inv d"
  using assms by (simp_all add: fleet_safe_def fleet_inv_def)

lemma fleet_safe_audit [simp]: "fleet_safe d (logAudit a b t x now d') = fleet_safe d d'"
  by (simp add: fleet_safe_def fleet_inv_def)

lemma fleet_inv_audit [simp]: "fleet_inv (logAudit a b t x now d) = fleet_inv d"
  by (simp add: fleet_inv_def)

lemma fleet_safe_tame_update:
  assumes "\<And>k. tame k (f k)" "\<And>k. k \<in> set (db_keys d) \<Longrightarrow> P k \<Longrightarrow> key_evolves k (f k)"
  shows "fleet_safe d (d\<lparr>db_keys := update_rows P f (db_keys d)\<rparr>)"
  unfolding fleet_safe_def
proof
  assume inv: "fleet_inv d"
  have "keys_inv (update_rows P f (db_keys d)) (db_next d)" "linked (update_rows P f (db_keys d)) (db_devices d)"
    using inv assms(1) by (auto simp: fleet_inv_def intro!: tame_update)
  moreover have "keys_evolve (db_keys d) (update_rows P f (db_keys d))"
    by (rule keys_evolve_update) (rule assms(2))
  ultimately show "fleet_inv (d\<lparr>db_keys := update_rows P f (db_keys d)\<rparr>) \<and>
      keys_evolve (db_keys d) (db_keys (d\<lparr>db_keys := update_rows P f (db_keys d)\<rparr>))"
    using inv by (simp add: fleet_inv_def)
qed

lemma fleet_inv_key_eq:
  assumes "fleet_inv d" "k \<in> set (db_keys d)" "k' \<in> set (db_keys d)" "lk_id k = lk_id k'" shows "k = k'"
  using assms distinct_map_eqD unfolding fleet_inv_def keys_inv_def by metis

lemma find_keyD: "find_key d i = Some k \<Longrightarrow> k \<in> set (db_keys d) \<and> lk_id k = i"
  unfolding find_key_def by (auto dest: find_SomeD)

lemma find_fpD: "find_fp d fp = Some k \<Longrightarrow> k \<in> set (db_keys d) \<and> lk_fp k = fp"
  unfolding find_fp_def by (auto dest: find_SomeD)

lemma find_deviceD: "find_device d i = Some r \<Longrightarrow> r \<in> set (db_devices d) \<and> dv_id r = i"
  unfolding find_device_def by (auto dest: find_SomeD)

lemma key_evolves_same_status:
  assumes "lk_id k' = lk_id k" "lk_fp k' = lk_fp k" "lk_public k' = lk_public k" "lk_status k' = lk_status k"
    "lk_device k' = lk_device k" "lk_status k = Approved \<Longrightarrow> lk_serial k \<noteq> None \<Longrightarrow> lk_serial k' = lk_serial k"
  shows "key_evolves k k'"
  using assms by (simp add: key_evolves_def)

lemma refreshed_key_evolves: "key_evolves k (refreshed_key now inp k)" "tame k (refreshed_key now inp k)"
  by (rule key_evolves_same_status; simp add: refreshed_key_def) (simp add: tame_def refreshed_key_def)

lemma revoke_row_evolves:
  "lk_status k = Approved \<Longrightarrow> key_evolves k (revoke_row now actor reason k)"
  by (simp add: key_evolves_def revoke_row_def r_into_rtranclp status_step.revoke)

lemma revoke_row_tame: "tame k (revoke_row now actor reason k)"
  by (simp add: tame_def revoke_row_def)

lemma reject_row_evolves:
  "lk_status k = Pending \<Longrightarrow> key_evolves k (reject_row now actor k)"
  by (simp add: key_evolves_def reject_row_def r_into_rtranclp status_step.reject)

lemma reject_row_tame: "tame k (reject_row now actor k)"
  by (simp add: tame_def reject_row_def)

lemma upsert_key_rows:
  assumes "upsert_key now inp d = (k, d')"
  shows "db_devices d' = db_devices d" "db_preregs d' = db_preregs d" "k \<in> set (db_keys d')"
    "lk_fp k = ei_fp inp" "db_tokens d' = db_tokens d" "db_users d' = db_users d" "db_audit d' = db_audit d"
  using assms find_fpD [of d "ei_fp inp"]
  by (force simp: upsert_key_def Let_def new_key_def refreshed_key_def in_update_rows
      split: option.splits)+

lemma upsert_key_safe:
  assumes up: "upsert_key now inp d = (k, d')"
    and cap: "find_fp d (ei_fp inp) = None \<Longrightarrow> pending_count d < PENDING_CAP"
  shows "fleet_safe d d'"
proof (cases "find_fp d (ei_fp inp)")
  case (Some k0)
  with up have "d' = d\<lparr>db_keys := update_rows (\<lambda>r. lk_fp r = ei_fp inp) (refreshed_key now inp) (db_keys d)\<rparr>"
    by (simp add: upsert_key_def)
  then show ?thesis
    by (simp add: fleet_safe_tame_update refreshed_key_evolves)
next
  case None
  have "d' = snd (upsert_key now inp d)" by (simp add: up)
  also have "\<dots> = d\<lparr>db_keys := db_keys d @ [new_key (db_next d) now inp], db_next := db_next d + 1\<rparr>"
    by (simp add: upsert_key_def Let_def None)
  finally have d': "d' = d\<lparr>db_keys := db_keys d @ [new_key (db_next d) now inp], db_next := db_next d + 1\<rparr>" .
  have fresh_fp: "\<forall>r \<in> set (db_keys d). lk_fp r \<noteq> ei_fp inp"
    using None unfolding find_fp_def by (blast dest: find_NoneD)
  have new: "lk_status (new_key (db_next d) now inp) = Pending" "lk_id (new_key (db_next d) now inp) = db_next d"
    "lk_fp (new_key (db_next d) now inp) = ei_fp inp"
    by (simp_all add: new_key_def)
  have "fleet_inv d'" if inv: "fleet_inv d"
  proof -
    have k: "keys_inv (db_keys d) (db_next d)" and ds: "devices_inv (db_devices d) (db_next d)"
      and l: "linked (db_keys d) (db_devices d)"
      using inv by (simp_all add: fleet_inv_def)
    have "db_next d \<notin> lk_id ` set (db_keys d)" using k unfolding keys_inv_def by fastforce
    moreover have "approved_unique (db_keys d @ [new_key (db_next d) now inp])"
      using k new(1) by (simp add: keys_inv_def approved_unique_append)
    moreover have "ei_fp inp \<notin> lk_fp ` set (db_keys d)" using fresh_fp by force
    moreover have "Suc (length (filter (\<lambda>k. lk_status k = Pending) (db_keys d))) \<le> PENDING_CAP"
      using cap [OF None] by (simp add: pending_count_def)
    ultimately have "keys_inv (db_keys d @ [new_key (db_next d) now inp]) (db_next d + 1)"
      using k by (simp add: keys_inv_def new less_SucI)
    moreover have "linked (db_keys d @ [new_key (db_next d) now inp]) (db_devices d)"
      using l new by (simp add: linked_def)
    ultimately show ?thesis
      using ds by (simp add: d' fleet_inv_def devices_inv_mono)
  qed
  then show ?thesis by (simp add: fleet_safe_def d')
qed

lemma set_conflict_safe:
  "fleet_safe d (d\<lparr>db_keys := update_rows (\<lambda>k. lk_id k = i) (\<lambda>k. k\<lparr>lk_conflict := c\<rparr>) (db_keys d)\<rparr>)"
  by (rule fleet_safe_tame_update) (simp_all add: tame_def key_evolves_same_status)

lemma createPullDevice_rows:
  assumes "createPullDevice h s prof rg usr d = Inr (dev, d')"
  shows "dev = new_pull_device (db_next d) h s prof rg usr"
    "d' = d\<lparr>db_devices := db_devices d @ [dev], db_next := db_next d + 1\<rparr>"
  using assms by (auto simp: createPullDevice_def Let_def split: if_splits)

lemma createPullDevice_safe:
  assumes mk: "createPullDevice h s prof rg usr d = Inr (dev, d')"
    and free: "\<forall>r \<in> set (db_devices d). js_lower (dv_hostname r) \<noteq> js_lower h"
  shows "fleet_safe d d'"
proof -
  note rows = createPullDevice_rows [OF mk]
  have "fleet_inv d'" if inv: "fleet_inv d"
  proof -
    have k: "keys_inv (db_keys d) (db_next d)" and ds: "devices_inv (db_devices d) (db_next d)"
      and l: "linked (db_keys d) (db_devices d)"
      using inv by (simp_all add: fleet_inv_def)
    have "db_next d \<notin> dv_id ` set (db_devices d)" using ds unfolding devices_inv_def by fastforce
    moreover have "h \<notin> dv_hostname ` set (db_devices d)" using free by force
    ultimately have "devices_inv (db_devices d @ [dev]) (db_next d + 1)"
      using ds by (auto simp: devices_inv_def rows(1) new_pull_device_def)
    then show ?thesis
      using k l by (simp add: rows(2) fleet_inv_def keys_inv_mono linked_devices_append)
  qed
  then show ?thesis by (simp add: fleet_safe_def rows(2))
qed

lemma resolve_single:
  assumes "hd (resolveHostnamesForBatch d [it]) = Inr h"
  shows "h = resolveHostname it"
    "\<And>r. r \<in> set (db_devices d) \<Longrightarrow> js_lower (dv_hostname r) = js_lower h \<Longrightarrow>
       Some (dv_id r) = map_option dv_id (hi_existing it)"
  using assms by (auto simp: resolveHostnamesForBatch_def Let_def list_ex_iff split: if_splits)

lemma bind_row_simps [simp]:
  "lk_id (bind_row now actor i pre k) = lk_id k" "lk_fp (bind_row now actor i pre k) = lk_fp k"
  "lk_public (bind_row now actor i pre k) = lk_public k" "lk_status (bind_row now actor i pre k) = Approved"
  "lk_device (bind_row now actor i pre k) = Some i" "lk_serial (bind_row now actor i pre k) = lk_serial k"
  by (simp_all add: bind_row_def)

lemma bindKey_rows:
  assumes "bindKey now key dev actor pre d = Inr (k, d')"
  shows "db_keys d' = update_rows (\<lambda>k. lk_id k = lk_id key) (bind_row now actor (dv_id dev) pre) (db_keys d)"
    "\<And>k'. k' \<in> set (db_keys d) \<Longrightarrow> lk_status k' = Approved \<Longrightarrow> lk_device k' = Some (dv_id dev) \<Longrightarrow> lk_id k' = lk_id key"
    "k \<in> set (db_keys d')" "lk_id k = lk_id key" "lk_status k = Approved" "lk_device k = Some (dv_id dev)"
    "db_devices d' = db_devices d" "db_next d' = db_next d" "db_tokens d' = db_tokens d" "db_audit d' = db_audit d"
    "db_preregs d' = (case pre of None \<Rightarrow> db_preregs d
       | Some p \<Rightarrow> update_rows (\<lambda>r. pr_id r = pr_id p \<and> pr_consumed r = None)
                     (\<lambda>r. r\<lparr>pr_consumed := Some (now, Some (lk_id key))\<rparr>) (db_preregs d))"
proof -
  let ?ks = "update_rows (\<lambda>k. lk_id k = lk_id key) (bind_row now actor (dv_id dev) pre) (db_keys d)"
  let ?d1 = "d\<lparr>db_keys := ?ks\<rparr>"
  have no: "\<not> list_ex (\<lambda>k. lk_id k \<noteq> lk_id key \<and> lk_status k = Approved \<and> lk_device k = Some (dv_id dev)) (db_keys d)"
    using assms(1) unfolding bindKey_def by (simp split: if_splits)
  have fk: "find_key ?d1 (lk_id key) = Some k"
    and d': "d' = (case pre of None \<Rightarrow> ?d1
        | Some p \<Rightarrow> ?d1\<lparr>db_preregs := update_rows (\<lambda>r. pr_id r = pr_id p \<and> pr_consumed r = None)
                        (\<lambda>r. r\<lparr>pr_consumed := Some (now, Some (lk_id key))\<rparr>) (db_preregs d)\<rparr>)"
    using assms(1) no unfolding bindKey_def Let_def
    by (simp_all split: option.splits)
  show keys': "db_keys d' = ?ks"
    and "db_devices d' = db_devices d" "db_next d' = db_next d" "db_tokens d' = db_tokens d" "db_audit d' = db_audit d"
    and "db_preregs d' = (case pre of None \<Rightarrow> db_preregs d
       | Some p \<Rightarrow> update_rows (\<lambda>r. pr_id r = pr_id p \<and> pr_consumed r = None)
                     (\<lambda>r. r\<lparr>pr_consumed := Some (now, Some (lk_id key))\<rparr>) (db_preregs d))"
    by (simp_all add: d' split: option.splits)
  from find_keyD [OF fk] have k: "k \<in> set ?ks" "lk_id k = lk_id key" by simp_all
  then show "k \<in> set (db_keys d')" "lk_id k = lk_id key" by (simp_all only: keys')
  from k obtain k0 where "k = bind_row now actor (dv_id dev) pre k0"
    unfolding in_update_rows by metis
  then show "lk_status k = Approved" "lk_device k = Some (dv_id dev)" by simp_all
  show "\<And>k'. k' \<in> set (db_keys d) \<Longrightarrow> lk_status k' = Approved \<Longrightarrow> lk_device k' = Some (dv_id dev) \<Longrightarrow> lk_id k' = lk_id key"
    using no by (auto simp: list_ex_iff)
qed

lemma bindKey_safe:
  assumes bind: "bindKey now key dev actor pre d = Inr (k, d')"
    and key: "key' \<in> set (db_keys d)" "lk_id key' = lk_id key" "lk_status key' = Pending"
    and dev: "dev' \<in> set (db_devices d)" "dv_id dev' = dv_id dev" "dv_pull dev'"
  shows "fleet_safe d d'"
  unfolding fleet_safe_def
proof (intro impI conjI)
  assume inv: "fleet_inv d"
  note rows = bindKey_rows [OF bind]
  let ?P = "\<lambda>k. lk_id k = lk_id key" and ?f = "bind_row now actor (dv_id dev) pre"
  have k: "keys_inv (db_keys d) (db_next d)" and l: "linked (db_keys d) (db_devices d)"
    using inv by (simp_all add: fleet_inv_def)
  have only: "k = key'" if "k \<in> set (db_keys d)" "lk_id k = lk_id key" for k
    using fleet_inv_key_eq [OF inv that(1) key(1)] that(2) key(2) by simp
  have old: "(k \<in> set (db_keys d) \<and> lk_id k \<noteq> lk_id key) \<or> k = ?f key'"
    if "k \<in> set (update_rows ?P ?f (db_keys d))" for k
    using that only unfolding in_update_rows by metis
  have "approved_unique (update_rows ?P ?f (db_keys d))"
    unfolding approved_unique_def
  proof (intro ballI impI, elim conjE)
    fix a b assume ab: "a \<in> set (update_rows ?P ?f (db_keys d))" "b \<in> set (update_rows ?P ?f (db_keys d))"
      and st: "lk_status a = Approved" "lk_status b = Approved" "lk_device a = lk_device b"
    show "lk_id a = lk_id b"
    proof (cases "a = ?f key' \<or> b = ?f key'")
      case True
      with old [OF ab(1)] old [OF ab(2)] st rows(2) show ?thesis by fastforce
    next
      case False
      with old [OF ab(1)] old [OF ab(2)] st k show ?thesis
        unfolding keys_inv_def approved_unique_def by blast
    qed
  qed
  moreover have "length (filter (\<lambda>k. lk_status k = Pending) (update_rows ?P ?f (db_keys d)))
      \<le> length (filter (\<lambda>k. lk_status k = Pending) (db_keys d))"
    by (rule length_filter_update_le) simp
  moreover have "\<forall>k \<in> set (update_rows ?P ?f (db_keys d)). lk_id k < db_next d"
    by (rule ball_update_rows) (use k in \<open>simp_all add: keys_inv_def\<close>)
  ultimately have "keys_inv (db_keys d') (db_next d')"
    using k by (simp add: keys_inv_def rows(1,8))
  moreover have "linked (db_keys d') (db_devices d')"
    unfolding linked_def
  proof (intro ballI impI)
    fix a assume a: "a \<in> set (db_keys d')" "lk_status a = Approved"
    then consider "a \<in> set (db_keys d)" | "a = ?f key'" using old rows(1) by metis
    then show "\<exists>r \<in> set (db_devices d'). lk_device a = Some (dv_id r) \<and> dv_pull r"
    proof cases
      case 1
      with l a(2) show ?thesis by (simp add: linked_def rows(7))
    next
      case 2
      with dev show ?thesis by (intro bexI [of _ dev']) (simp_all add: rows(7))
    qed
  qed
  ultimately show "fleet_inv d'"
    using inv by (simp add: fleet_inv_def rows(7,8))
  show "keys_evolve (db_keys d) (db_keys d')"
    unfolding rows(1)
  proof (rule keys_evolve_update)
    fix a assume "a \<in> set (db_keys d)" "lk_id a = lk_id key"
    with only key(3) have "lk_status a = Pending" by simp
    then show "key_evolves a (?f a)"
      by (simp add: key_evolves_def r_into_rtranclp status_step.approve)
  qed
qed

section \<open>Every operation keeps the invariant\<close>

lemma enroll_conflict_rows:
  assumes "enroll_conflict now inp key m d = (c, d')"
  shows "db_devices d' = db_devices d" "db_keys d' = db_keys d" "db_next d' = db_next d"
    "db_preregs d' = db_preregs d" "db_tokens d' = db_tokens d"
  using assms by (auto simp: enroll_conflict_def Let_def split: if_splits)

lemma resolved_free:
  assumes "hd (resolveHostnamesForBatch d [it]) = Inr h" "hi_existing it = None"
  shows "\<forall>r \<in> set (db_devices d). js_lower (dv_hostname r) \<noteq> js_lower h"
  using resolve_single(2) [OF assms(1)] assms(2) by fastforce

text \<open>A pending key that gets its own new device (lines 168-181; lines 258-262).\<close>

lemma create_and_bind_safe:
  assumes free: "\<forall>r \<in> set (db_devices d). js_lower (dv_hostname r) \<noteq> js_lower h"
    and mk: "createPullDevice h s prof rg usr d = Inr (dev, d1)"
    and bind: "bindKey now key dev actor pre d1 = Inr (k, d2)"
    and key: "key' \<in> set (db_keys d)" "lk_id key' = lk_id key" "lk_status key' = Pending"
  shows "fleet_safe d d2"
proof -
  note rows = createPullDevice_rows [OF mk]
  have "fleet_safe d d1" by (rule createPullDevice_safe [OF mk free])
  also have "fleet_safe d1 d2"
  proof (rule bindKey_safe [OF bind _ key(2,3)])
    show "key' \<in> set (db_keys d1)" using key(1) by (simp add: rows(2))
    show "dev \<in> set (db_devices d1)" by (simp add: rows(2))
    show "dv_id dev = dv_id dev" ..
    show "dv_pull dev" by (simp add: rows(1) new_pull_device_def)
  qed
  finally show ?thesis .
qed

lemma enroll_prereg_cases [consumes 1, case_names stay enrolled]:
  assumes run: "enroll_prereg now retry inp pending m d = Inr (r, d')"
  obtains "d' = d" "er_status r = Status Pending" "er_key r = Some pending" "er_device r = None"
  | p h dev d1 k d2 where "em_kind m = KPreregistered" "em_prereg m = Some p"
    "hd (resolveHostnamesForBatch d [\<lparr>hi_explicit = None, hi_prereg = Some p, hi_existing = None,
       hi_serial = normalizeSerial (ei_serial inp), hi_fp = ei_fp inp\<rparr>]) = Inr h"
    "createPullDevice h (normalizeSerial (ei_serial inp)) (pr_profile p) (pr_ring p) (pr_user p) d = Inr (dev, d1)"
    "bindKey now pending dev (device_actor (ei_fp inp)) (Some p) d1 = Inr (k, d2)"
    "er_status r = Status Approved" "er_key r = Some k" "er_device r = Some dev"
    "d' = logAudit ''linux_device_enrolled'' (Some (device_actor (ei_fp inp))) (Some (dv_id dev))
            [(''source'', JStr ''preregistration''), (''serial'', jserial (normalizeSerial (ei_serial inp))),
             (''hostname'', JStr (dv_hostname dev)), (''preregistration_id'', jid (pr_id p))] now d2"
proof (cases "em_kind m = KPreregistered \<and> em_prereg m \<noteq> None")
  case False
  with run show ?thesis
    unfolding enroll_prereg_def Let_def
    by (intro that(1)) (auto split: enroll_kind.splits option.splits)
next
  case True
  then obtain p where p: "em_kind m = KPreregistered" "em_prereg m = Some p" by blast
  let ?it = "\<lparr>hi_explicit = None, hi_prereg = Some p, hi_existing = None,
       hi_serial = normalizeSerial (ei_serial inp), hi_fp = ei_fp inp\<rparr>"
  show ?thesis
  proof (cases "hd (resolveHostnamesForBatch d [?it])")
    case (Inl h)
    with run p show ?thesis unfolding enroll_prereg_def Let_def by (intro that(1)) auto
  next
    case h: (Inr h)
    show ?thesis
    proof (cases "createPullDevice h (normalizeSerial (ei_serial inp)) (pr_profile p) (pr_ring p) (pr_user p) d")
      case (Inr x)
      obtain dev d1 where x: "x = (dev, d1)" by fastforce
      show ?thesis
      proof (cases "bindKey now pending dev (device_actor (ei_fp inp)) (Some p) d1")
        case bind: (Inr y)
        obtain k d2 where y: "y = (k, d2)" by fastforce
        show ?thesis
          by (rule that(2) [OF p h Inr [unfolded x] bind [unfolded y]])
            (use run p h Inr x bind y in \<open>simp_all add: enroll_prereg_def Let_def, auto\<close>)
      qed (use run p h Inr x in \<open>simp add: enroll_prereg_def Let_def\<close>)
    qed (use run p h in \<open>simp add: enroll_prereg_def Let_def\<close>)
  qed
qed

lemma enroll_prereg_safe:
  assumes run: "enroll_prereg now retry inp pending m d = Inr (r, d')"
    and key: "key' \<in> set (db_keys d)" "lk_id key' = lk_id pending" "lk_status key' = Pending"
  shows "fleet_safe d d'"
  using run
proof (cases rule: enroll_prereg_cases)
  case (enrolled p h dev d1 k d2)
  have "fleet_safe d d2"
    by (rule create_and_bind_safe [OF resolved_free [OF enrolled(3)] enrolled(4,5) key]) simp
  with enrolled(9) show ?thesis by simp
qed simp

lemma enroll_body_safe:
  assumes run: "enroll_body now clock inp d = Inr (r, d')"
  shows "fleet_safe d d'"
proof (cases "find_fp d (ei_fp inp) = None \<and> pending_count d \<ge> PENDING_CAP")
  case True
  with run show ?thesis by (auto simp: enroll_body_def Let_def)
next
  case False
  obtain key d1 where up: "upsert_key now inp d = (key, d1)" by fastforce
  have safe1: "fleet_safe d d1" by (rule upsert_key_safe [OF up]) (use False in auto)
  note rows1 = upsert_key_rows [OF up]
  define m where "m = classifyEnrollment d1 (ei_fp inp) (normalizeSerial (ei_serial inp))"
  obtain c d2 where ec: "enroll_conflict now inp key m d1 = (c, d2)" by fastforce
  note rows2 = enroll_conflict_rows [OF ec]
  define d3 where "d3 = d2\<lparr>db_keys := update_rows (\<lambda>k. lk_id k = lk_id key) (\<lambda>k. k\<lparr>lk_conflict := c\<rparr>) (db_keys d2)\<rparr>"
  have "fleet_safe d1 d2" by (rule fleet_safe_same_rows) (simp_all add: rows2)
  also have "fleet_safe d2 d3" unfolding d3_def by (rule set_conflict_safe)
  finally have safe3: "fleet_safe d1 d3" .
  have in3: "key\<lparr>lk_conflict := c\<rparr> \<in> set (db_keys d3)"
    using rows1(3) by (auto simp: d3_def rows2(2) in_update_rows intro!: bexI [of _ key])
  from run False up have "fleet_safe d1 d' \<or>
      (lk_status key = Pending \<and>
       (\<exists>retry. enroll_prereg now retry inp (key\<lparr>lk_conflict := c\<rparr>) m d3 = Inr (r, d')))"
    unfolding enroll_body_def Let_def
    by (auto simp: m_def [symmetric] ec d3_def [symmetric] split: if_splits)
  then have "fleet_safe d1 d'"
  proof (elim disjE conjE exE)
    fix retry assume p: "lk_status key = Pending" "enroll_prereg now retry inp (key\<lparr>lk_conflict := c\<rparr>) m d3 = Inr (r, d')"
    have "fleet_safe d3 d'"
      by (rule enroll_prereg_safe [OF p(2) in3]) (simp_all add: p(1))
    with safe3 show ?thesis by (rule fleet_safe_trans)
  qed
  with safe1 show ?thesis by (rule fleet_safe_trans)
qed

lemma transaction_safe:
  assumes "transaction ref cb d = (res, d')" "\<And>r d'. cb d = Inr (r, d') \<Longrightarrow> fleet_safe d d'"
  shows "fleet_safe d d'"
  using assms(1) by (cases rule: transaction_cases) (use assms(2) in auto)

lemma enrollDevice_safe: "enrollDevice now clock inp d = (res, d') \<Longrightarrow> fleet_safe d d'"
  unfolding enrollDevice_def by (erule transaction_safe) (rule enroll_body_safe)

lemma rejectEnrollment_safe:
  assumes "rejectEnrollment now actor i reason d = (res, d')" shows "fleet_safe d d'"
proof (cases "fleet_inv d")
  case inv: True
  show ?thesis
    using assms unfolding rejectEnrollment_def
  proof (rule transaction_safe)
    fix r d' assume run: "reject_body now actor i reason d = Inr (r, d')"
    show "fleet_safe d d'"
    proof (cases "find_key d i")
      case (Some key)
      note key = find_keyD [OF Some]
      have "fleet_safe d (d\<lparr>db_keys := update_rows (\<lambda>k. lk_id k = i) (reject_row now actor) (db_keys d)\<rparr>)"
        if "lk_status key = Pending"
      proof (rule fleet_safe_tame_update [OF reject_row_tame])
        fix k assume "k \<in> set (db_keys d)" "lk_id k = i"
        with key fleet_inv_key_eq [OF inv] that have "lk_status k = Pending" by blast
        then show "key_evolves k (reject_row now actor k)" by (rule reject_row_evolves)
      qed
      with run Some show ?thesis by (auto simp: reject_body_def split: if_splits)
    qed (use run in \<open>auto simp: reject_body_def\<close>)
  qed
qed (simp add: fleet_safe_def)

lemma revokeDeviceKey_safe:
  assumes "revokeDeviceKey now actor i reason d = (res, d')" shows "fleet_safe d d'"
  using assms unfolding revokeDeviceKey_def
proof (rule transaction_safe)
  fix r d' assume run: "revoke_body now actor i reason d = Inr (r, d')"
  have "fleet_safe d (d\<lparr>db_keys := update_rows (\<lambda>k. lk_device k = Some i \<and> lk_status k = Approved)
          (revoke_row now actor (Some reason)) (db_keys d)\<rparr>)"
    by (rule fleet_safe_tame_update) (simp_all add: revoke_row_tame revoke_row_evolves)
  with run show "fleet_safe d d'"
    by (auto simp: revoke_body_def Let_def split: option.splits)
qed

text \<open>What a committed approval went through, guard by guard.\<close>

lemma approve_finish_done:
  assumes run: "approve_finish now actor body key m tg dev cleared d = Inr (Inr ap, d')"
  obtains h usr dv d1 k d2 where
    "hd (resolveHostnamesForBatch d [\<lparr>hi_explicit = ab_hostname body, hi_prereg = em_prereg m, hi_existing = dev,
       hi_serial = lk_serial key, hi_fp = lk_fp key\<rparr>]) = Inr h"
    "approve_device body key h usr dev d = Inr (dv, d1)"
    "bindKey now key dv actor (em_prereg m) d1 = Inr (k, d2)"
    "ap = \<lparr>ap_device = dv, ap_key = k, ap_converted = (cleared \<noteq> None)\<rparr>"
    "d' = approve_audit now actor body key tg cleared dv d2"
proof -
  let ?it = "\<lparr>hi_explicit = ab_hostname body, hi_prereg = em_prereg m, hi_existing = dev,
       hi_serial = lk_serial key, hi_fp = lk_fp key\<rparr>"
  let ?usr = "first_some (ab_user body) (first_some (Option.bind (em_prereg m) pr_user) (Option.bind dev dv_user))"
  from run obtain h where h: "hd (resolveHostnamesForBatch d [?it]) = Inr h"
    unfolding approve_finish_def Let_def by (cases "hd (resolveHostnamesForBatch d [?it])") simp_all
  from run h obtain x where x: "approve_device body key h ?usr dev d = Inr x"
    unfolding approve_finish_def Let_def
    by (cases "approve_device body key h ?usr dev d") (simp_all split: if_splits)
  obtain dv d1 where x2: "x = (dv, d1)" by fastforce
  from run h x x2 obtain y where y: "bindKey now key dv actor (em_prereg m) d1 = Inr y"
    unfolding approve_finish_def Let_def
    by (cases "bindKey now key dv actor (em_prereg m) d1") (simp_all split: if_splits)
  obtain k d2 where y2: "y = (k, d2)" by fastforce
  show ?thesis
    by (rule that [OF h x [unfolded x2] y [unfolded y2]])
      (use run h x x2 y y2 in \<open>simp_all add: approve_finish_def Let_def split: if_splits\<close>)
qed

lemma approve_tx_done:
  assumes run: "approve_body_tx now actor i body d = Inr (Inr ap, d')"
  obtains key m target dev cleared d1 where
    "find_key d i = Some key" "lk_status key = Pending"
    "m = classifyEnrollment d (lk_fp key) (lk_serial key)"
    "target = first_some (ab_convert body) (if em_kind m = KReimage then map_option dv_id (em_device m) else None)"
    "ab_only_new body \<Longrightarrow> em_kind m \<in> set NO_CONFLICT" "em_kind m \<noteq> KClone"
    "target = None \<Longrightarrow> em_kind m \<noteq> KExisting"
    "approve_target now actor body key m target d = Inr (dev, cleared, d1)"
    "approve_finish now actor body key m (target \<noteq> None) dev cleared d1 = Inr (Inr ap, d')"
proof -
  from run obtain key where key: "find_key d i = Some key"
    unfolding approve_body_tx_def by (cases "find_key d i") simp_all
  define m where m: "m = classifyEnrollment d (lk_fp key) (lk_serial key)"
  define target where t: "target = first_some (ab_convert body)
      (if em_kind m = KReimage then map_option dv_id (em_device m) else None)"
  note r = run [unfolded approve_body_tx_def key option.case Let_def m [symmetric] t [symmetric]]
  from r have g: "lk_status key = Pending" "ab_only_new body \<Longrightarrow> em_kind m \<in> set NO_CONFLICT"
    "em_kind m \<noteq> KClone" "target = None \<Longrightarrow> em_kind m \<noteq> KExisting"
    by (simp_all split: if_splits)
  from r obtain x where x: "approve_target now actor body key m target d = Inr x"
    by (cases "approve_target now actor body key m target d") (simp_all split: if_splits)
  obtain dev cleared d1 where x2: "x = (dev, cleared, d1)" by (cases x) auto
  from r x x2 have "approve_finish now actor body key m (target \<noteq> None) dev cleared d1 = Inr (Inr ap, d')"
    by (simp split: if_splits)
  with that [OF key g(1) m t g(2,3,4) x [unfolded x2]] show ?thesis by blast
qed

lemma approve_target_done:
  assumes run: "approve_target now actor body key m target d = Inr (dev, cleared, d1)"
  obtains (fresh) "target = None" "dev = None" "cleared = None" "d1 = d"
  | (rebind) dv where "target = Some (dv_id dv)" "dev = Some dv" "cleared = None" "d1 = d" "find_device d (dv_id dv) = Some dv"
      "dv_pull dv" "lk_serial key \<noteq> None" "normalizeSerial (dv_serial dv) = lk_serial key"
      "\<forall>k \<in> set (db_keys d). lk_device k = Some (dv_id dv) \<longrightarrow> lk_status k \<noteq> Approved"
  | (supersede) dv old where "target = Some (dv_id dv)" "dev = Some dv" "cleared = None" "find_device d (dv_id dv) = Some dv"
      "dv_pull dv" "lk_serial key \<noteq> None" "normalizeSerial (dv_serial dv) = lk_serial key" "ab_supersede body"
      "old \<in> set (db_keys d)" "lk_device old = Some (dv_id dv)" "lk_status old = Approved"
      "d1 = d\<lparr>db_keys := update_rows (\<lambda>k. lk_id k = lk_id old) (revoke_row now actor (Some ''superseded'')) (db_keys d)\<rparr>"
  | (convert) dv n where "target = Some (dv_id dv)" "dev = Some dv" "cleared = Some n" "find_device d (dv_id dv) = Some dv"
      "\<not> dv_pull dv" "lk_serial key \<noteq> None" "normalizeSerial (dv_serial dv) = lk_serial key"
      "clearWindowsFacts now (dv_id dv) d = (n, d1)"
      "(\<exists>t. checkDeviceClaim now d dv (lk_serial key) None = Some (Active_token t)) \<Longrightarrow> ab_revoke_token body"
proof (cases target)
  case None
  with run show ?thesis by (intro fresh) (simp_all add: approve_target_def)
next
  case (Some i)
  with run obtain dv where fd: "find_device d i = Some dv"
    unfolding approve_target_def by (cases "find_device d i") simp_all
  then have i: "dv_id dv = i" by (simp add: find_deviceD)
  note r = run [unfolded approve_target_def Some option.case fd]
  from r have s: "lk_serial key \<noteq> None" "normalizeSerial (dv_serial dv) = lk_serial key"
    by (simp_all split: if_splits)
  show ?thesis
  proof (cases "dv_pull dv")
    case pull: True
    show ?thesis
    proof (cases "find (\<lambda>k. lk_device k = Some (dv_id dv) \<and> lk_status k = Approved) (db_keys d)")
      case none: None
      then have "\<forall>k \<in> set (db_keys d). lk_device k = Some (dv_id dv) \<longrightarrow> lk_status k \<noteq> Approved"
        by (auto dest: find_NoneD)
      with none r pull s Some i fd show ?thesis
        by (intro rebind [of dv]) (simp_all split: if_splits)
    next
      case old: (Some old)
      from find_SomeD [OF old] old r pull s Some i fd show ?thesis
        by (intro supersede [of dv old]) (simp_all split: if_splits)
    qed
  next
    case False
    obtain n d2 where cw: "clearWindowsFacts now (dv_id dv) d = (n, d2)" by fastforce
    show ?thesis
      by (rule convert [of dv n])
        (use False r s Some i fd cw in \<open>auto split: if_splits option.splits claim_refusal.splits\<close>)
  qed
qed

lemma distinct_update_one:
  assumes "distinct (map k xs)" "distinct (map g xs)" "\<And>r. k (f r) = k r"
    "\<And>r. r \<in> set xs \<Longrightarrow> g r = v \<Longrightarrow> k r = i" "\<And>r. g (f r) = v"
  shows "distinct (map g (update_rows (\<lambda>r. k r = i) f xs))"
  using assms(1,2,4)
proof (induction xs)
  case (Cons x xs)
  have d: "distinct (map g (update_rows (\<lambda>r. k r = i) f xs))"
    by (rule Cons.IH) (use Cons.prems in auto)
  have "g (if k x = i then f x else x) \<noteq> g y" if y: "y \<in> set (update_rows (\<lambda>r. k r = i) f xs)" for y
  proof -
    from y obtain z where z: "z \<in> set xs" "y = (if k z = i then f z else z)" by (auto simp: in_update_rows)
    moreover have "k x \<noteq> k z" "g x \<noteq> g z" using Cons.prems(1,2) z(1) by auto
    ultimately show ?thesis using Cons.prems(3) [of x] Cons.prems(3) [of z] by (auto simp: assms(5))
  qed
  then have "g (if k x = i then f x else x) \<notin> g ` set (update_rows (\<lambda>r. k r = i) f xs)" by blast
  with d show ?case by simp
qed simp

definition claim_device :: "approve_body \<Rightarrow> jsstring \<Rightarrow> jsstring option \<Rightarrow> device \<Rightarrow> device" where
  "claim_device body h usr r =
     r\<lparr>dv_platform := Some Linux, dv_pull := True, dv_hostname := h,
       dv_profile := Some (ab_profile body), dv_ring := Some (ab_ring body), dv_user := usr\<rparr>"

lemma claim_device_simps [simp]:
  "dv_id (claim_device body h usr r) = dv_id r" "dv_pull (claim_device body h usr r)"
  "dv_hostname (claim_device body h usr r) = h" "dv_serial (claim_device body h usr r) = dv_serial r"
  "dv_platform (claim_device body h usr r) = Some Linux" "dv_facts (claim_device body h usr r) = dv_facts r"
  by (simp_all add: claim_device_def)

lemma approve_device_rows:
  assumes "approve_device body key h usr (Some dv) d = Inr (r, d')"
  shows "d' = d\<lparr>db_devices := update_rows (\<lambda>r. dv_id r = dv_id dv) (claim_device body h usr) (db_devices d)\<rparr>"
    "r \<in> set (db_devices d')" "dv_id r = dv_id dv" "\<exists>r0 \<in> set (db_devices d). dv_id r0 = dv_id dv \<and> r = claim_device body h usr r0"
proof -
  have e: "(\<lambda>r. r\<lparr>dv_platform := Some Linux, dv_pull := True, dv_hostname := h,
              dv_profile := Some (ab_profile body), dv_ring := Some (ab_ring body), dv_user := usr\<rparr>) = claim_device body h usr"
    by (simp add: fun_eq_iff claim_device_def)
  from assms show d': "d' = d\<lparr>db_devices := update_rows (\<lambda>r. dv_id r = dv_id dv) (claim_device body h usr) (db_devices d)\<rparr>"
    unfolding approve_device_def e Let_def by (simp split: if_splits option.splits)
  from assms have fd: "find_device d' (dv_id dv) = Some r"
    unfolding approve_device_def e Let_def by (auto split: if_splits option.splits)
  from find_deviceD [OF fd] show "r \<in> set (db_devices d')" "dv_id r = dv_id dv" by simp_all
  then obtain r0 where "r0 \<in> set (db_devices d)" "r = (if dv_id r0 = dv_id dv then claim_device body h usr r0 else r0)"
    by (auto simp: d' in_update_rows)
  with \<open>dv_id r = dv_id dv\<close> show "\<exists>r0 \<in> set (db_devices d). dv_id r0 = dv_id dv \<and> r = claim_device body h usr r0"
    by (auto split: if_splits)
qed

lemma approve_device_safe:
  assumes run: "approve_device body key h usr (Some dv) d = Inr (r, d')"
    and free: "\<And>r. r \<in> set (db_devices d) \<Longrightarrow> js_lower (dv_hostname r) = js_lower h \<Longrightarrow> dv_id r = dv_id dv"
  shows "fleet_safe d d'"
  unfolding fleet_safe_def
proof
  assume inv: "fleet_inv d"
  note rows = approve_device_rows [OF run]
  let ?ds = "update_rows (\<lambda>r. dv_id r = dv_id dv) (claim_device body h usr) (db_devices d)"
  have ds: "devices_inv (db_devices d) (db_next d)" and l: "linked (db_keys d) (db_devices d)"
    using inv by (simp_all add: fleet_inv_def)
  have "distinct (map dv_hostname ?ds)"
    by (rule distinct_update_one [where k = dv_id and v = h])
      (use ds free in \<open>simp_all add: devices_inv_def\<close>)
  moreover have "\<forall>r \<in> set ?ds. dv_id r < db_next d"
    by (rule ball_update_rows) (use ds in \<open>simp_all add: devices_inv_def\<close>)
  ultimately have "devices_inv ?ds (db_next d)"
    using ds by (simp add: devices_inv_def)
  moreover have "linked (db_keys d) ?ds"
    by (rule linked_devices_update [OF l]) simp_all
  ultimately show "fleet_inv d' \<and> keys_evolve (db_keys d) (db_keys d')"
    using inv by (simp add: rows(1) fleet_inv_def)
qed

lemma clearWindowsFacts_rows:
  assumes "clearWindowsFacts now i d = (n, d')"
  shows "db_devices d' = update_rows (\<lambda>r. dv_id r = i) (\<lambda>r. r\<lparr>dv_facts := cleared_facts\<rparr>) (db_devices d)"
    "db_tokens d' = update_rows (live_token i) (\<lambda>t. t\<lparr>tk_revoked_at := Some now\<rparr>) (db_tokens d)"
    "db_keys d' = db_keys d" "db_next d' = db_next d" "db_preregs d' = db_preregs d"
    "db_compliance d' = removeAll i (db_compliance d)" "db_disks d' = removeAll i (db_disks d)"
    "db_interfaces d' = removeAll i (db_interfaces d)" "db_software d' = removeAll i (db_software d)"
  using assms by (auto simp: clearWindowsFacts_def)

lemma clearWindowsFacts_safe:
  assumes "clearWindowsFacts now i d = (n, d')" shows "fleet_safe d d'"
  unfolding fleet_safe_def
proof
  assume inv: "fleet_inv d"
  note rows = clearWindowsFacts_rows [OF assms]
  let ?ds = "update_rows (\<lambda>r. dv_id r = i) (\<lambda>r. r\<lparr>dv_facts := cleared_facts\<rparr>) (db_devices d)"
  have ds: "devices_inv (db_devices d) (db_next d)" and l: "linked (db_keys d) (db_devices d)"
    using inv by (simp_all add: fleet_inv_def)
  have "\<forall>r \<in> set ?ds. dv_id r < db_next d"
    by (rule ball_update_rows) (use ds in \<open>simp_all add: devices_inv_def\<close>)
  then have "devices_inv ?ds (db_next d)"
    using ds by (simp add: devices_inv_def)
  moreover have "linked (db_keys d) ?ds"
    by (rule linked_devices_update [OF l]) simp_all
  ultimately show "fleet_inv d' \<and> keys_evolve (db_keys d) (db_keys d')"
    using inv by (simp add: rows fleet_inv_def)
qed

lemma approve_target_safe:
  assumes inv: "fleet_inv d" and key: "key \<in> set (db_keys d)" "lk_status key = Pending"
    and run: "approve_target now actor body key m target d = Inr (dev, cleared, d1)"
  shows "fleet_safe d d1" "key \<in> set (db_keys d1)" "db_next d1 = db_next d" "db_preregs d1 = db_preregs d"
proof -
  have "fleet_safe d d1 \<and> key \<in> set (db_keys d1) \<and> db_next d1 = db_next d \<and> db_preregs d1 = db_preregs d"
    using run
proof (cases rule: approve_target_done)
  case (supersede dv old)
  have "lk_id old \<noteq> lk_id key"
    using fleet_inv_key_eq [OF inv supersede(9) key(1)] key(2) supersede(11) by auto
  then have "key \<in> set (db_keys d1)" using key(1) by (simp add: supersede(12) update_rows_keep)
  moreover have "fleet_safe d d1"
    unfolding supersede(12)
  proof (rule fleet_safe_tame_update [OF revoke_row_tame])
    fix k assume "k \<in> set (db_keys d)" "lk_id k = lk_id old"
    with fleet_inv_key_eq [OF inv _ supersede(9)] supersede(11) have "lk_status k = Approved" by blast
    then show "key_evolves k (revoke_row now actor (Some ''superseded'') k)" by (rule revoke_row_evolves)
  qed
  ultimately show "fleet_safe d d1 \<and> key \<in> set (db_keys d1) \<and> db_next d1 = db_next d \<and> db_preregs d1 = db_preregs d"
    by (simp add: supersede(12))
next
  case (convert dv n)
  with key(1) show "fleet_safe d d1 \<and> key \<in> set (db_keys d1) \<and> db_next d1 = db_next d \<and> db_preregs d1 = db_preregs d"
    using clearWindowsFacts_safe clearWindowsFacts_rows by metis
qed (use key in simp_all)
  then show "fleet_safe d d1" "key \<in> set (db_keys d1)" "db_next d1 = db_next d" "db_preregs d1 = db_preregs d"
    by simp_all
qed

lemma approve_finish_safe:
  assumes key: "key \<in> set (db_keys d)" "lk_status key = Pending"
    and run: "approve_finish now actor body key m tg dev cleared d = Inr (Inr ap, d')"
  shows "fleet_safe d d'"
  using run
proof (cases rule: approve_finish_done)
  case (1 h usr dv d1 k d2)
  have "fleet_safe d d2"
  proof (cases dev)
    case None
    have mk: "createPullDevice h (lk_serial key) (ab_profile body) (ab_ring body) usr d = Inr (dv, d1)"
      using 1(2) by (simp add: None approve_device_def)
    show ?thesis
      by (rule create_and_bind_safe [OF resolved_free [OF 1(1)] mk 1(3) key(1) refl key(2)]) (simp add: None)
  next
    case (Some dv0)
    have "dv_id r = dv_id dv0" if "r \<in> set (db_devices d)" "js_lower (dv_hostname r) = js_lower h" for r
      using resolve_single(2) [OF 1(1) that] Some by simp
    note safe1 = approve_device_safe [OF 1(2) [unfolded Some] this]
    note rows = approve_device_rows [OF 1(2) [unfolded Some]]
    have "dv_pull dv" using rows(4) by auto
    with key rows(1,2) have "fleet_safe d1 d2"
      by (intro bindKey_safe [OF 1(3), of key dv]) simp_all
    with safe1 show ?thesis by (rule fleet_safe_trans)
  qed
  with 1(5) show ?thesis by (auto simp: approve_audit_def Let_def split: option.splits)
qed

lemma approve_body_tx_safe:
  assumes run: "approve_body_tx now actor i body d = Inr (Inr ap, d')"
  shows "fleet_safe d d'"
proof (cases "fleet_inv d")
  case inv: True
  show ?thesis
    using run
  proof (cases rule: approve_tx_done)
    case (1 key m target dev cleared d1)
    have key: "key \<in> set (db_keys d)" using find_keyD [OF 1(1)] by simp
    note t = approve_target_safe [OF inv key 1(2,8)]
    from t(1) approve_finish_safe [OF t(2) 1(2,9)] show ?thesis by (rule fleet_safe_trans)
  qed
qed (simp add: fleet_safe_def)

lemma approveEnrollment_safe:
  assumes "approveEnrollment now actor i body d = (res, d')" shows "fleet_safe d d'"
proof -
  obtain r d1 where tx: "transaction refused (approve_body_tx now actor i body) d = (r, d1)" by fastforce
  with assms have "d' = d1"
    by (auto simp: approveEnrollment_def split: sum.splits db_error.splits)
  moreover have "fleet_safe d d1"
    using tx
  proof (cases rule: transaction_cases)
    case (committed r')
    then obtain ap where "r' = Inr ap" by (cases r') (simp_all add: refused_def)
    with committed(2) show ?thesis by (simp add: approve_body_tx_safe)
  qed simp
  ultimately show ?thesis by simp
qed

end
