(* ===== verification/RamStores.thy ===== *)
theory RamStores imports Prelude begin

text \<open>
  The stores the API keeps in memory: the one-shot grants of remote sessions
  (\<open>src/api/modules/remote/lib/one-shot-grant.js\<close>), and for the Linux module the request
  nonces (\<open>linux/lib/nonce-store.js\<close>), the git tokens (\<open>linux/lib/git-token-store.js\<close>)
  and the sliding-window rate limit (\<open>linux/lib/device-rate.js\<close>).

  Each store is its state (the closure's variables) and one function per method; the
  clock (\<open>Date.now()\<close>, in milliseconds) and the random bytes are arguments. A timer set
  by the code is an operation that may run at any point.
\<close>

section \<open>One-shot grants\<close>


record 'p grant =
  g_payload :: 'p
  g_expires :: time

type_synonym 'p grant_store = "(jsstring, 'p grant) jsmap"

datatype consume_error = NonceMissing | NonceUnknown | NonceExpired

text \<open>\<open>expires_in\<close> is \<open>ttlMs / 1000\<close>, a fraction of seconds.\<close>

definition grant_create :: "time \<Rightarrow> time \<Rightarrow> jsstring \<Rightarrow> 'p \<Rightarrow> 'p grant_store
    \<Rightarrow> (jsstring \<times> rat) \<times> 'p grant_store" where
  "grant_create ttl now nonce p gs =
     ((nonce, of_int ttl / 1000), jm_set nonce \<lparr>g_payload = p, g_expires = now + ttl\<rparr> gs)"

definition grant_timer :: "jsstring \<Rightarrow> 'p grant_store \<Rightarrow> 'p grant_store" where
  "grant_timer nonce gs = jm_del nonce gs"

text \<open>\<open>consume(nonce)\<close>: \<open>None\<close> stands for an argument that is not a string.\<close>

definition grant_consume :: "time \<Rightarrow> jsstring option \<Rightarrow> 'p grant_store
    \<Rightarrow> (consume_error + 'p grant) \<times> 'p grant_store" where
  "grant_consume now nonce gs =
     (case nonce of
        None \<Rightarrow> (Inl NonceMissing, gs)
      | Some n \<Rightarrow>
          if n = [] then (Inl NonceMissing, gs)
          else (case jm_get gs n of
              None \<Rightarrow> (Inl NonceUnknown, jm_del n gs)
            | Some g \<Rightarrow> if g_expires g < now then (Inl NonceExpired, jm_del n gs)
                        else (Inr g, jm_del n gs)))"

definition grant_size :: "'p grant_store \<Rightarrow> nat" where
  "grant_size gs = length gs"

text \<open>
  The contract of a store whose entries can be used once: a use succeeds only while the
  entry is held, and no use leaves it held; nothing but its own creation makes it held.
\<close>

fun successes :: "('t \<Rightarrow> 'id \<Rightarrow> 's \<Rightarrow> bool \<times> 's) \<Rightarrow> ('op \<Rightarrow> 's \<Rightarrow> 's) \<Rightarrow> 'id \<Rightarrow>
    ('t \<times> 'id + 'op) list \<Rightarrow> 's \<Rightarrow> nat" where
  "successes use other i [] s = 0"
| "successes use other i (Inl (t, j) # es) s =
     (case use t j s of (r, s') \<Rightarrow> (if r \<and> j = i then 1 else 0) + successes use other i es s')"
| "successes use other i (Inr op # es) s = successes use other i es (other op s)"

locale one_shot_store =
  fixes held :: "'s \<Rightarrow> 'id \<Rightarrow> bool"
    and use :: "'t \<Rightarrow> 'id \<Rightarrow> 's \<Rightarrow> bool \<times> 's"
    and other :: "'op \<Rightarrow> 's \<Rightarrow> 's"
    and creates :: "'op \<Rightarrow> 'id \<Rightarrow> bool"
  assumes use_held: "fst (use t i s) \<Longrightarrow> held s i"
    and use_drops: "\<not> held (snd (use t i s)) i"
    and use_keeps: "held (snd (use t j s)) i \<Longrightarrow> held s i"
    and other_keeps: "\<not> creates op i \<Longrightarrow> held (other op s) i \<Longrightarrow> held s i"
begin

lemma never_held:
  "\<not> held s i \<Longrightarrow> \<forall>op. Inr op \<in> set es \<longrightarrow> \<not> creates op i \<Longrightarrow> successes use other i es s = 0"
proof (induction es arbitrary: s)
  case (Cons e es)
  show ?case
  proof (cases e)
    case (Inl tj)
    obtain t j where tj: "tj = (t, j)" by (cases tj)
    obtain r s' where u: "use t j s = (r, s')" by (cases "use t j s")
    have "\<not> held s' i" using use_keeps [of t j s i] u Cons.prems(1) by auto
    moreover have "\<not> (r \<and> j = i)" using use_held [of t i s] u Cons.prems(1) by auto
    ultimately show ?thesis using Cons.IH [of s'] Cons.prems(2) Inl tj u by auto
  next
    case (Inr op)
    with Cons.prems have "\<not> held (other op s) i" using other_keeps [of op i s] by auto
    with Cons.IH [of "other op s"] Cons.prems(2) Inr show ?thesis by auto
  qed
qed simp

lemma at_most_once:
  "\<forall>op. Inr op \<in> set es \<longrightarrow> \<not> creates op i \<Longrightarrow> successes use other i es s \<le> 1"
proof (induction es arbitrary: s)
  case (Cons e es)
  show ?case
  proof (cases e)
    case (Inl tj)
    obtain t j where tj: "tj = (t, j)" by (cases tj)
    obtain r s' where u: "use t j s = (r, s')" by (cases "use t j s")
    show ?thesis
    proof (cases "r \<and> j = i")
      case True
      with u use_drops [of t i s] have "\<not> held s' i" by auto
      with never_held [of s' i es] Cons.prems True Inl tj u show ?thesis by auto
    next
      case False
      with Cons.IH [of s'] Cons.prems Inl tj u show ?thesis by auto
    qed
  next
    case (Inr op)
    with Cons.IH [of "other op s"] Cons.prems show ?thesis by auto
  qed
qed simp

end

text \<open>The grant store keeps the contract: its other operations are a creation and a timer.\<close>

datatype 'p grant_op = GCreate time time jsstring 'p | GTimer jsstring

fun grant_op_run :: "'p grant_op \<Rightarrow> 'p grant_store \<Rightarrow> 'p grant_store" where
  "grant_op_run (GCreate ttl now n p) gs = snd (grant_create ttl now n p gs)"
| "grant_op_run (GTimer n) gs = grant_timer n gs"

fun grant_op_creates :: "'p grant_op \<Rightarrow> jsstring \<Rightarrow> bool" where
  "grant_op_creates (GCreate ttl now n p) i \<longleftrightarrow> n = i"
| "grant_op_creates (GTimer n) i \<longleftrightarrow> False"

definition grant_use :: "time \<Rightarrow> jsstring \<Rightarrow> 'p grant_store \<Rightarrow> bool \<times> 'p grant_store" where
  "grant_use now n gs = map_prod is_inr id (grant_consume now (Some n) gs)"

definition grant_held :: "'p grant_store \<Rightarrow> jsstring \<Rightarrow> bool" where
  "grant_held gs n \<longleftrightarrow> n \<noteq> [] \<and> jm_get gs n \<noteq> None"

lemma grant_use_held: "fst (grant_use t i s) \<Longrightarrow> grant_held s i"
  by (auto simp: grant_use_def grant_consume_def grant_held_def split: if_splits option.splits)

lemma grant_use_drops: "\<not> grant_held (snd (grant_use t i s)) i"
  by (auto simp: grant_use_def grant_consume_def grant_held_def split: if_splits option.splits)

lemma grant_use_keeps: "grant_held (snd (grant_use t j s)) i \<Longrightarrow> grant_held s i"
  by (auto simp: grant_use_def grant_consume_def grant_held_def split: if_splits option.splits)

lemma grant_other_keeps:
  "\<not> grant_op_creates op i \<Longrightarrow> grant_held (grant_op_run op s) i \<Longrightarrow> grant_held s i"
  by (cases op) (auto simp: grant_create_def grant_timer_def grant_held_def split: if_splits)

interpretation grants: one_shot_store grant_held grant_use grant_op_run grant_op_creates
  using grant_use_held grant_use_drops grant_use_keeps grant_other_keeps
  by unfold_locales

text \<open>
  C3: whatever the sequence of creations, timers and upgrade attempts that follows the
  creation of a grant, its nonce opens at most one session.
\<close>

theorem grant_opens_at_most_one_session:
  assumes "\<forall>op. Inr op \<in> set es \<longrightarrow> \<not> grant_op_creates op nonce"
  shows "successes grant_use grant_op_run nonce es (snd (grant_create ttl now nonce p gs)) \<le> 1"
  using assms by (rule grants.at_most_once)

theorem grant_opens_at_most_one_session_witness:
  "successes grant_use grant_op_run ''n''
     [Inl (10, ''n''), Inr (GCreate 30 12 ''m'' (7 :: nat)), Inl (14, ''n''), Inl (15, ''n'')]
     (snd (grant_create 30 0 ''n'' 5 [])) = 1 \<and>
   successes grant_use grant_op_run ''n''
     [Inl (10, ''n''), Inr (GCreate 30 12 ''m'' (7 :: nat)), Inl (14, ''n''), Inl (15, ''n'')]
     (snd (grant_create 30 0 ''n'' 5 [])) \<le> 1"
proof -
  have "\<forall>op. Inr op \<in> set [Inl (10, ''n''), Inr (GCreate 30 12 ''m'' (7 :: nat)), Inl (14, ''n''), Inl (15, ''n'')]
      \<longrightarrow> \<not> grant_op_creates op ''n''" by auto
  from grant_opens_at_most_one_session [OF this, of 30 0 5 "[]"] show ?thesis
    by (simp add: grant_use_def grant_consume_def grant_create_def jm_get_def jm_set_def jm_del_def)
qed

lemma grant_consume_created:
  "nonce \<noteq> [] \<Longrightarrow> fst (grant_consume t (Some nonce) (snd (grant_create ttl now nonce p gs))) =
    (if t \<le> now + ttl then Inr \<lparr>g_payload = p, g_expires = now + ttl\<rparr> else Inl NonceExpired)"
  by (simp add: grant_consume_def grant_create_def)

section \<open>Request nonces\<close>

record nonce_store =
  ns_nonces :: "(jsstring, time) jsmap"
  ns_accesses :: nat

definition nonce_init :: nonce_store where
  "nonce_init = \<lparr>ns_nonces = [], ns_accesses = 0\<rparr>"

text \<open>\<open>has(id)\<close> sweeps the expired entries at every hundredth access.\<close>

definition nonce_has :: "time \<Rightarrow> jsstring \<Rightarrow> nonce_store \<Rightarrow> bool \<times> nonce_store" where
  "nonce_has t i st =
     (let n = Suc (ns_accesses st);
          m = (if n mod 100 = 0 then filter (\<lambda>(k, e). \<not> e \<le> t) (ns_nonces st) else ns_nonces st)
      in case jm_get m i of
           None \<Rightarrow> (False, \<lparr>ns_nonces = m, ns_accesses = n\<rparr>)
         | Some e \<Rightarrow> if e \<le> t then (False, \<lparr>ns_nonces = jm_del i m, ns_accesses = n\<rparr>)
                     else (True, \<lparr>ns_nonces = m, ns_accesses = n\<rparr>))"

text \<open>\<open>seen(id)\<close> reads the clock twice: \<open>t\<close> in \<open>has\<close>, then \<open>t'\<close> for the expiry.\<close>

definition nonce_seen :: "time \<Rightarrow> nat \<Rightarrow> time \<Rightarrow> time \<Rightarrow> jsstring \<Rightarrow> nonce_store \<Rightarrow> bool \<times> nonce_store" where
  "nonce_seen ttl mx t t' i st =
     (case nonce_has t i st of
        (True, st') \<Rightarrow> (True, st')
      | (False, st') \<Rightarrow>
          (let m = jm_set i (t' + ttl) (ns_nonces st')
           in (False, st'\<lparr>ns_nonces := if length m > mx then jm_del (fst (hd m)) m else m\<rparr>)))"

datatype nonce_event = NHas time jsstring | NSeen time time jsstring

fun nonce_time :: "nonce_event \<Rightarrow> time" where
  "nonce_time (NHas t i) = t"
| "nonce_time (NSeen t t' i) = t"

text \<open>A run of lookups and registrations, with the number of nonces registered on the way.\<close>

fun nonce_run :: "time \<Rightarrow> nat \<Rightarrow> nonce_event list \<Rightarrow> nonce_store \<Rightarrow> nat \<times> nonce_store" where
  "nonce_run ttl mx [] st = (0, st)"
| "nonce_run ttl mx (NHas t i # es) st = nonce_run ttl mx es (snd (nonce_has t i st))"
| "nonce_run ttl mx (NSeen t t' i # es) st =
     (case nonce_seen ttl mx t t' i st of
        (r, st') \<Rightarrow> map_prod (\<lambda>k. if r then k else Suc k) id (nonce_run ttl mx es st'))"

text \<open>\<open>i\<close> is stored with expiry \<open>e\<close>, and at most \<open>k\<close> entries were added after it.\<close>

definition recent :: "jsstring \<Rightarrow> time \<Rightarrow> nat \<Rightarrow> nonce_store \<Rightarrow> bool" where
  "recent i e k st \<longleftrightarrow> jm_wf (ns_nonces st) \<and>
     (\<exists>xs ys. ns_nonces st = xs @ (i, e) # ys \<and> length ys \<le> k)"

lemma recentI: "ns_nonces st = xs @ (i, e) # ys \<Longrightarrow> length ys \<le> k \<Longrightarrow> jm_wf (ns_nonces st) \<Longrightarrow> recent i e k st"
  unfolding recent_def by blast

lemma recent_get: "recent i e k st \<Longrightarrow> jm_get (ns_nonces st) i = Some e"
  by (auto simp: recent_def jm_get_iff)

lemma recent_filter:
  assumes "recent i e k st" and "P (i, e)"
  shows "recent i e k (st\<lparr>ns_nonces := filter P (ns_nonces st), ns_accesses := n\<rparr>)"
proof -
  from assms obtain xs ys where m: "ns_nonces st = xs @ (i, e) # ys" "length ys \<le> k"
    and wf: "jm_wf (ns_nonces st)" by (auto simp: recent_def)
  from m assms(2) have "filter P (ns_nonces st) = filter P xs @ (i, e) # filter P ys" by simp
  moreover have "length (filter P ys) \<le> k" using m(2) length_filter_le [of P ys] by linarith
  ultimately show ?thesis using jm_wf_filter [OF wf, of P] by (auto simp: recent_def)
qed

lemma recent_filter_eq:
  "recent i e k st \<Longrightarrow> P (i, e) \<Longrightarrow> ns_nonces st' = filter P (ns_nonces st) \<Longrightarrow> recent i e k st'"
  using recent_filter [of i e k st P "ns_accesses st'"] by (simp add: recent_def)

lemma jm_del_filter: "jm_del k m = filter (\<lambda>p. fst p \<noteq> k) m"
  by (auto simp: jm_del_def AList.delete_eq intro: filter_cong)

lemma nonce_has_wf: "jm_wf (ns_nonces st) \<Longrightarrow> jm_wf (ns_nonces (snd (nonce_has t j st)))"
  by (auto simp: nonce_has_def Let_def jm_del_filter split: option.split)

lemma nonce_has_recent:
  assumes r: "recent i e k st" and e: "t < e"
  shows "recent i e k (snd (nonce_has t j st))"
proof -
  define m where "m = (if Suc (ns_accesses st) mod 100 = 0
     then filter (\<lambda>(k, e). \<not> e \<le> t) (ns_nonces st) else ns_nonces st)"
  define st1 where "st1 = \<lparr>ns_nonces = m, ns_accesses = Suc (ns_accesses st)\<rparr>"
  have r1: "recent i e k st1"
    using recent_filter [OF r, of "\<lambda>(k, e). \<not> e \<le> t" "Suc (ns_accesses st)"] r e
    by (auto simp: st1_def m_def recent_def)
  show ?thesis
  proof (cases "\<exists>d. jm_get m j = Some d \<and> d \<le> t")
    case True
    then obtain d where d: "jm_get m j = Some d" "d \<le> t" by auto
    with recent_get [OF r1] e have "j \<noteq> i" by (auto simp: st1_def)
    have "nonce_has t j st = (False, \<lparr>ns_nonces = jm_del j m, ns_accesses = Suc (ns_accesses st)\<rparr>)"
      unfolding nonce_has_def Let_def m_def [symmetric] using d by simp
    then show ?thesis
      using recent_filter_eq [OF r1, of "\<lambda>p. fst p \<noteq> j"] \<open>j \<noteq> i\<close> by (simp add: st1_def jm_del_filter)
  next
    case False
    then have "snd (nonce_has t j st) = st1"
      unfolding nonce_has_def Let_def m_def [symmetric] st1_def by (auto split: option.split)
    with r1 show ?thesis by simp
  qed
qed

lemma nonce_has_alive:
  assumes "recent i e k st" and "t < e" shows "fst (nonce_has t i st)"
proof -
  define m where "m = (if Suc (ns_accesses st) mod 100 = 0
     then filter (\<lambda>(k, e). \<not> e \<le> t) (ns_nonces st) else ns_nonces st)"
  have "jm_get m i = Some e"
    using recent_get [OF assms(1)] assms jm_get_filter [of "ns_nonces st" "\<lambda>(k, e). \<not> e \<le> t" i]
    by (auto simp: m_def recent_def)
  with assms(2) show ?thesis
    unfolding nonce_has_def Let_def m_def [symmetric] by simp
qed

lemma nonce_has_fresh: "\<not> fst (nonce_has t j st) \<Longrightarrow> jm_get (ns_nonces (snd (nonce_has t j st))) j = None"
  by (auto simp: nonce_has_def Let_def split: option.splits if_splits)

lemma jm_set_fresh: "jm_get m k = None \<Longrightarrow> jm_set k v m = m @ [(k, v)]"
  by (induction m) (auto simp: jm_set_def jm_get_def split: if_splits)

lemma nonce_seen_old: "fst (nonce_has t j st) \<Longrightarrow> nonce_seen ttl mx t t' j st = (True, snd (nonce_has t j st))"
  by (cases "nonce_has t j st") (auto simp: nonce_seen_def)

lemma jm_del_hd: "jm_wf m \<Longrightarrow> m \<noteq> [] \<Longrightarrow> jm_del (fst (hd m)) m = tl m"
  by (cases m) (force simp: jm_del_filter filter_id_conv)+

lemma nonce_seen_fresh:
  fixes ttl t' :: time
  assumes "\<not> fst (nonce_has t j st)" and "jm_wf (ns_nonces st)"
  defines "m \<equiv> ns_nonces (snd (nonce_has t j st)) @ [(j, t' + ttl)]"
  shows "nonce_seen ttl mx t t' j st =
    (False, (snd (nonce_has t j st))\<lparr>ns_nonces := if length m > mx then tl m else m\<rparr>)"
    and "jm_wf m"
proof -
  obtain st' where h: "nonce_has t j st = (False, st')"
    using assms(1) by (cases "nonce_has t j st") auto
  have set: "jm_set j (t' + ttl) (ns_nonces st') = m"
    using nonce_has_fresh [OF assms(1)] by (simp add: jm_set_fresh h m_def)
  moreover show wf: "jm_wf m"
    using jm.ok_put [OF nonce_has_wf [OF assms(2)]] set [symmetric] h by (metis snd_conv)
  ultimately show "nonce_seen ttl mx t t' j st =
    (False, (snd (nonce_has t j st))\<lparr>ns_nonces := if length m > mx then tl m else m\<rparr>)"
    by (simp add: nonce_seen_def h Let_def jm_del_hd m_def)
qed

lemma nonce_seen_recent:
  assumes r: "recent i e k st" and e: "t < e" and k: "Suc k < mx"
  shows "recent i e (if fst (nonce_seen ttl mx t t' j st) then k else Suc k) (snd (nonce_seen ttl mx t t' j st))"
proof (cases "fst (nonce_has t j st)")
  case True
  with nonce_seen_old [OF this] nonce_has_recent [OF r e] show ?thesis by simp
next
  case False
  define st' where "st' = snd (nonce_has t j st)"
  define m where "m = ns_nonces st' @ [(j, t' + ttl)]"
  have wf: "jm_wf (ns_nonces st)" using r by (simp add: recent_def)
  note seen = nonce_seen_fresh(1) [OF False wf, where t' = t' and ttl = ttl and mx = mx, folded st'_def, folded m_def]
    nonce_seen_fresh(2) [OF False wf, where t' = t' and ttl = ttl, folded st'_def, folded m_def]
  from nonce_has_recent [OF r e, of j] obtain xs ys where
    m: "m = xs @ (i, e) # ys @ [(j, t' + ttl)]" and ys: "length ys \<le> k"
    unfolding m_def st'_def recent_def by auto
  have tl: "\<exists>xs'. tl m = xs' @ (i, e) # ys @ [(j, t' + ttl)]" if "length m > mx"
    using that m ys k by (cases xs) auto
  have "jm_wf (tl m)" using seen(2) by (simp add: distinct_tl map_tl)
  obtain zs where zs: "(if length m > mx then tl m else m) = zs @ (i, e) # ys @ [(j, t' + ttl)]"
    using tl m by (cases "length m > mx") auto
  have "recent i e (Suc k) (st'\<lparr>ns_nonces := if length m > mx then tl m else m\<rparr>)"
    by (rule recentI [of _ zs _ _ "ys @ [(j, t' + ttl)]"])
       (use zs ys \<open>jm_wf (tl m)\<close> seen(2) in \<open>simp_all split: if_splits\<close>)
  then show ?thesis by (simp only: seen(1) fst_conv snd_conv if_False)
qed

lemma nonce_seen_stores:
  assumes fresh: "\<not> fst (nonce_seen ttl mx t t' i st)" and wf: "jm_wf (ns_nonces st)" and "0 < mx"
  shows "recent i (t' + ttl) 0 (snd (nonce_seen ttl mx t t' i st))"
proof -
  have f: "\<not> fst (nonce_has t i st)" using fresh nonce_seen_old [of t i st] by fastforce
  define st' where "st' = snd (nonce_has t i st)"
  define m where "m = ns_nonces st' @ [(i, t' + ttl)]"
  note seen = nonce_seen_fresh(1) [OF f wf, where t' = t' and ttl = ttl and mx = mx, folded st'_def, folded m_def]
    nonce_seen_fresh(2) [OF f wf, where t' = t' and ttl = ttl, folded st'_def, folded m_def]
  define zs where "zs = (if length m > mx then tl (ns_nonces st') else ns_nonces st')"
  have zs: "(if length m > mx then tl m else m) = zs @ [(i, t' + ttl)]"
    using \<open>0 < mx\<close> unfolding zs_def m_def by (cases "ns_nonces st'") auto
  have "jm_wf (if length m > mx then tl m else m)" using seen(2) by (simp add: distinct_tl map_tl)
  with zs have "recent i (t' + ttl) 0 (st'\<lparr>ns_nonces := if length m > mx then tl m else m\<rparr>)"
    by (intro recentI [of _ zs _ _ "[]"]) simp_all
  then show ?thesis by (simp add: seen(1))
qed

lemma nonce_run_recent:
  assumes "recent i e k st" and "\<forall>x \<in> set es. nonce_time x < e"
    and "k + fst (nonce_run ttl mx es st) < mx"
  shows "\<exists>k'. recent i e k' (snd (nonce_run ttl mx es st))"
  using assms
proof (induction es arbitrary: st k)
  case (Cons x es)
  show ?case
  proof (cases x)
    case (NHas t j)
    with Cons show ?thesis using nonce_has_recent [OF Cons.prems(1), of t j] by simp
  next
    case (NSeen t t' j)
    obtain r st' where s: "nonce_seen ttl mx t t' j st = (r, st')" by (cases "nonce_seen ttl mx t t' j st")
    from Cons.prems NSeen s have "t < e" "(if r then k else Suc k) + fst (nonce_run ttl mx es st') < mx"
      by (auto split: if_splits)
    moreover have "recent i e (if r then k else Suc k) st'"
    proof (cases "r")
      case True
      then have "fst (nonce_has t j st)"
        using s nonce_seen_fresh(1) [of t j st, where ttl = ttl and t' = t' and mx = mx] Cons.prems(1) by (auto simp: recent_def)
      then show ?thesis
        using True s nonce_seen_old [of t j st] nonce_has_recent [OF Cons.prems(1) \<open>t < e\<close>, of j] by simp
    next
      case False
      with \<open>t < e\<close> calculation(2) have "Suc k < mx" by simp
      from nonce_seen_recent [OF Cons.prems(1) \<open>t < e\<close> this, of ttl t' j] s False show ?thesis by simp
    qed
    ultimately show ?thesis using Cons.IH [of "if r then k else Suc k" st'] Cons.prems(2) NSeen s by auto
  qed
qed auto

lemma nonce_has_length: "length (ns_nonces (snd (nonce_has t i st))) \<le> length (ns_nonces st)"
proof -
  have "length (filter P m) \<le> length m" "length (filter Q (filter P m)) \<le> length m"
    for P Q and m :: "(jsstring, time) jsmap"
    by (simp_all add: le_trans [OF length_filter_le])
  then show ?thesis by (simp add: nonce_has_def Let_def jm_del_filter split: option.split)
qed

lemma nonce_seen_size:
  assumes "jm_wf (ns_nonces st)" and "length (ns_nonces st) \<le> mx"
  shows "length (ns_nonces (snd (nonce_seen ttl mx t t' i st))) \<le> mx"
proof -
  have le: "length (ns_nonces (snd (nonce_has t i st))) \<le> mx"
    using assms(2) by (rule le_trans [OF nonce_has_length])
  show ?thesis
  proof (cases "fst (nonce_has t i st)")
    case True
    with le nonce_seen_old [OF this] show ?thesis by simp
  next
    case False
    with le nonce_seen_fresh(1) [OF False assms(1)] show ?thesis by simp
  qed
qed

text \<open>
  C4: a nonce that was accepted is refused for as long as its lifetime lasts, whatever is
  looked up or registered in between, provided fewer than \<open>max\<close> nonces were registered
  since (the store then evicts its oldest entry).
\<close>

theorem accepted_nonce_is_refused_until_it_expires:
  assumes "jm_wf (ns_nonces st)" and "nonce_seen ttl mx t t' i st = (False, st1)"
    and "\<forall>e \<in> set es. nonce_time e < t' + ttl" and "u < t' + ttl"
    and "fst (nonce_run ttl mx es st1) < mx"
  shows "fst (nonce_seen ttl mx u u' i (snd (nonce_run ttl mx es st1)))"
proof -
  have "recent i (t' + ttl) 0 st1"
    using nonce_seen_stores [of ttl mx t t' i st] assms(1,2,5) by simp
  with nonce_run_recent [OF this assms(3), of ttl mx] assms(5)
  obtain k where "recent i (t' + ttl) k (snd (nonce_run ttl mx es st1))" by auto
  from nonce_has_alive [OF this assms(4)] nonce_seen_old show ?thesis by (metis fst_conv)
qed

theorem accepted_nonce_is_refused_until_it_expires_witness:
  "nonce_seen 600 3 0 1 ''k:n'' nonce_init = (False, \<lparr>ns_nonces = [(''k:n'', 601)], ns_accesses = 1\<rparr>) \<and>
   fst (nonce_seen 600 3 600 600 ''k:n''
     (snd (nonce_run 600 3 [NSeen 5 5 ''a'', NHas 9 ''k:n'', NSeen 9 9 ''a'']
        \<lparr>ns_nonces = [(''k:n'', 601)], ns_accesses = 1\<rparr>)))"
proof -
  let ?st = "\<lparr>ns_nonces = [(''k:n'', 601)], ns_accesses = 1\<rparr> :: nonce_store"
  let ?es = "[NSeen 5 5 ''a'', NHas 9 ''k:n'', NSeen 9 9 ''a'']"
  have s: "nonce_seen 600 3 0 1 ''k:n'' nonce_init = (False, ?st)"
    by (simp add: nonce_seen_def nonce_has_def nonce_init_def jm_get_def jm_set_def)
  have "fst (nonce_run 600 3 ?es ?st) = 1"
    by (simp add: nonce_seen_def nonce_has_def jm_get_def jm_set_def)
  with accepted_nonce_is_refused_until_it_expires [OF _ s, of ?es 600 600] s show ?thesis
    by (simp add: nonce_init_def)
qed

section \<open>Sliding-window rate limit per device\<close>

record rate_config =
  rc_max :: nat
  rc_window :: time
  rc_max_entries :: nat

type_synonym 'id rate_hits = "('id, time list) jsmap"

datatype rate_result = Allowed nat | Refused "time option"

definition rate_prune :: "time \<Rightarrow> time list \<Rightarrow> time list" where
  "rate_prune since xs = dropWhile (\<lambda>x. x \<le> since) xs"

definition rate_sweep :: "time \<Rightarrow> 'id rate_hits \<Rightarrow> 'id rate_hits" where
  "rate_sweep since hits = filter (\<lambda>(i, xs). xs \<noteq> []) (map (\<lambda>(i, xs). (i, rate_prune since xs)) hits)"

text \<open>
  \<open>hit(id)\<close>. A refusal reads \<open>list[0]\<close>, which is undefined only for \<open>max = 0\<close>: the
  delay is then NaN, here \<open>None\<close>.
\<close>

definition rate_hit :: "rate_config \<Rightarrow> time \<Rightarrow> 'id \<Rightarrow> 'id rate_hits \<Rightarrow> rate_result \<times> 'id rate_hits" where
  "rate_hit c t i hits =
     (let since = t - rc_window c;
          hits1 = (if length hits \<ge> rc_max_entries c \<and> jm_get hits i = None then rate_sweep since hits else hits);
          xs = rate_prune since (or_else (jm_get hits1 i) [])
      in if length xs \<ge> rc_max c
         then (Refused (case xs of [] \<Rightarrow> None | x # _ \<Rightarrow> Some (x + rc_window c - t)), jm_set i xs hits1)
         else (Allowed (rc_max c - length (xs @ [t])), jm_set i (xs @ [t]) hits1))"

definition rate_size :: "rate_config \<Rightarrow> time \<Rightarrow> 'id rate_hits \<Rightarrow> nat \<times> 'id rate_hits" where
  "rate_size c t hits = (length (rate_sweep (t - rc_window c) hits), rate_sweep (t - rc_window c) hits)"

fun is_allowed :: "rate_result \<Rightarrow> bool" where
  "is_allowed (Allowed n) = True"
| "is_allowed (Refused r) = False"

text \<open>The times at which the passages of \<open>i\<close> were accepted, over a run of passages.\<close>

fun rate_run :: "rate_config \<Rightarrow> (time \<times> 'id) list \<Rightarrow> 'id rate_hits \<Rightarrow> (time \<times> 'id \<times> rate_result) list \<times> 'id rate_hits" where
  "rate_run c [] hits = ([], hits)"
| "rate_run c ((t, i) # es) hits =
     (case rate_hit c t i hits of (r, hits') \<Rightarrow> map_prod (\<lambda>l. (t, i, r) # l) id (rate_run c es hits'))"

definition accepted :: "'id \<Rightarrow> (time \<times> 'id \<times> rate_result) list \<Rightarrow> time list" where
  "accepted i lg = map fst (filter (\<lambda>(t, j, r). j = i \<and> is_allowed r) lg)"

text \<open>The stored times of \<open>i\<close> are the accepted ones after some cut before the window.\<close>

definition rate_inv :: "time \<Rightarrow> 'id rate_hits \<Rightarrow> 'id \<Rightarrow> time list \<Rightarrow> time \<Rightarrow> bool" where
  "rate_inv w hits i acc now \<longleftrightarrow> jm_wf hits \<and> sorted acc \<and> (\<forall>x \<in> set acc. x \<le> now) \<and>
     (\<exists>c \<le> now - w. or_else (jm_get hits i) [] = filter (\<lambda>x. c < x) acc)"

lemma rate_prune_filter: "sorted xs \<Longrightarrow> rate_prune s xs = filter (\<lambda>x. s < x) xs"
proof (induction xs)
  case (Cons a xs)
  show ?case
  proof (cases "a \<le> s")
    case True
    with Cons show ?thesis by (simp add: rate_prune_def)
  next
    case False
    with Cons.prems have "\<forall>x \<in> set (a # xs). s < x" by auto
    then have "filter (\<lambda>x. s < x) (a # xs) = a # xs" by (simp only: filter_id_conv)
    with False show ?thesis by (simp add: rate_prune_def)
  qed
qed (simp add: rate_prune_def)

lemma rate_sweep_wf: "jm_wf hits \<Longrightarrow> jm_wf (rate_sweep s hits)"
  unfolding rate_sweep_def by (rule jm_wf_filter) (simp add: case_prod_unfold comp_def)

lemma rate_sweep_get:
  assumes "jm_wf hits"
  shows "or_else (jm_get (rate_sweep s hits) i) [] = rate_prune s (or_else (jm_get hits i) [])"
proof -
  have wf: "jm_wf (map (\<lambda>(i, xs). (i, rate_prune s xs)) hits)"
    using assms by (simp add: case_prod_unfold comp_def)
  have "jm_get (map (\<lambda>(i, xs). (i, rate_prune s xs)) hits) i = map_option (rate_prune s) (jm_get hits i)"
    by (simp add: jm_get_def map_of_map)
  then show ?thesis
    unfolding rate_sweep_def jm_get_filter [OF wf]
    by (cases "jm_get hits i") (simp_all add: rate_prune_def eq_commute [of "[]"])
qed

lemma filter_cut: "c \<le> (s :: time) \<Longrightarrow> filter (\<lambda>x. c < x \<and> s < x) xs = filter (\<lambda>x. s < x) xs"
  by (induction xs) auto

lemma rate_inv_swept:
  assumes inv: "rate_inv w hits i acc now" and "now \<le> t"
  shows "rate_inv w (if b then rate_sweep (t - w) hits else hits) i acc t"
proof -
  from inv obtain c where c: "c \<le> now - w" "or_else (jm_get hits i) [] = filter (\<lambda>x. c < x) acc"
    and acc: "sorted acc" "\<forall>x \<in> set acc. x \<le> now" and wf: "jm_wf hits" by (auto simp: rate_inv_def)
  have le: "\<forall>x \<in> set acc. x \<le> t" using acc(2) \<open>now \<le> t\<close> by auto
  have "or_else (jm_get (rate_sweep (t - w) hits) i) [] = filter (\<lambda>x. t - w < x) acc"
    using c acc(1) \<open>now \<le> t\<close>
    by (simp add: rate_sweep_get [OF wf] rate_prune_filter filter_cut sorted_wrt_filter)
  then show ?thesis
    using c acc(1) le wf \<open>now \<le> t\<close> rate_sweep_wf [OF wf, of "t - w"]
    unfolding rate_inv_def by (cases b) (auto intro: exI [of _ "t - w"] exI [of _ c])
qed

lemma rate_hit_inv:
  assumes inv: "rate_inv (rc_window c) hits i acc now" and t: "now \<le> t" and w: "0 < rc_window c"
    and h: "rate_hit c t j hits = (r, hits')"
  shows "rate_inv (rc_window c) hits' i (if j = i \<and> is_allowed r then acc @ [t] else acc) t"
    and "j = i \<Longrightarrow> is_allowed r \<longleftrightarrow> length (filter (\<lambda>x. t - rc_window c < x) acc) < rc_max c"
proof -
  define b where "b \<longleftrightarrow> length hits \<ge> rc_max_entries c \<and> jm_get hits j = None"
  define h1 where "h1 = (if b then rate_sweep (t - rc_window c) hits else hits)"
  define xs where "xs = rate_prune (t - rc_window c) (or_else (jm_get h1 j) [])"
  have h': "rate_hit c t j hits = (if length xs \<ge> rc_max c
      then (Refused (case xs of [] \<Rightarrow> None | x # _ \<Rightarrow> Some (x + rc_window c - t)), jm_set j xs h1)
      else (Allowed (rc_max c - length (xs @ [t])), jm_set j (xs @ [t]) h1))"
    unfolding rate_hit_def Let_def b_def [symmetric] h1_def [symmetric] xs_def [symmetric] by simp
  from rate_inv_swept [OF inv t, of b, folded h1_def] obtain d where
    d: "d \<le> t - rc_window c" "or_else (jm_get h1 i) [] = filter (\<lambda>x. d < x) acc"
    and acc: "sorted acc" "\<forall>x \<in> set acc. x \<le> t" and wf: "jm_wf h1"
    by (auto simp: rate_inv_def)
  have xs: "xs = filter (\<lambda>x. t - rc_window c < x) acc" if "j = i"
    using that d acc(1) by (simp add: xs_def rate_prune_filter filter_cut sorted_wrt_filter)
  show "j = i \<Longrightarrow> is_allowed r \<longleftrightarrow> length (filter (\<lambda>x. t - rc_window c < x) acc) < rc_max c"
    using h h' xs by (auto split: if_splits)
  have wf': "jm_wf hits'" using h h' wf by (auto split: if_splits intro: jm.ok_put)
  show "rate_inv (rc_window c) hits' i (if j = i \<and> is_allowed r then acc @ [t] else acc) t"
  proof (cases "j = i")
    case False
    then have "jm_get hits' i = jm_get h1 i" using h h' by (auto split: if_splits)
    with False d acc wf' show ?thesis by (auto simp: rate_inv_def)
  next
    case True
    have "or_else (jm_get hits' i) [] =
        filter (\<lambda>x. t - rc_window c < x) (if is_allowed r then acc @ [t] else acc)"
      using True h h' xs w by (auto split: if_splits)
    moreover have "sorted (acc @ [t])" using acc by (simp add: sorted_append)
    ultimately show ?thesis
      using True acc wf' unfolding rate_inv_def by (auto intro!: exI [of _ "t - rc_window c"])
  qed
qed

definition within_limit :: "rate_config \<Rightarrow> time list \<Rightarrow> bool" where
  "within_limit c acc \<longleftrightarrow>
     (\<forall>u. length (filter (\<lambda>x. u - rc_window c < x \<and> x \<le> u) acc) \<le> rc_max c)"

lemma within_limit_snoc:
  assumes "within_limit c acc" and "\<forall>x \<in> set acc. x \<le> t"
    and "length (filter (\<lambda>x. t - rc_window c < x) acc) < rc_max c"
  shows "within_limit c (acc @ [t])"
  unfolding within_limit_def
proof
  fix u
  show "length (filter (\<lambda>x. u - rc_window c < x \<and> x \<le> u) (acc @ [t])) \<le> rc_max c"
  proof (cases "t \<le> u")
    case False
    with assms(1) show ?thesis by (simp add: within_limit_def)
  next
    case True
    have "filter (\<lambda>x. u - rc_window c < x \<and> x \<le> u) acc =
        filter (\<lambda>x. u - rc_window c < x \<and> x \<le> u) (filter (\<lambda>x. t - rc_window c < x) acc)"
      using True by (auto intro: filter_cong)
    then have "length (filter (\<lambda>x. u - rc_window c < x \<and> x \<le> u) acc)
        \<le> length (filter (\<lambda>x. t - rc_window c < x) acc)"
      by (metis length_filter_le)
    with assms(3) show ?thesis by auto
  qed
qed

lemma rate_run_limit:
  assumes "0 < rc_window c" and "rate_inv (rc_window c) hits i acc now" and "within_limit c acc"
    and "sorted (now # map fst es)"
  shows "within_limit c (acc @ accepted i (fst (rate_run c es hits)))"
  using assms(2-4)
proof (induction es arbitrary: hits acc now)
  case Nil
  then show ?case by (simp add: accepted_def)
next
  case (Cons e es)
  obtain t j where e: "e = (t, j)" by (cases e)
  obtain r hits' where h: "rate_hit c t j hits = (r, hits')" by (cases "rate_hit c t j hits")
  have now: "now \<le> t" using Cons.prems(3) e by simp
  note step = rate_hit_inv [OF Cons.prems(1) now assms(1) h]
  define acc' where "acc' = (if j = i \<and> is_allowed r then acc @ [t] else acc)"
  have "within_limit c acc'"
  proof (cases "j = i \<and> is_allowed r")
    case True
    have "\<forall>x \<in> set acc. x \<le> t" using Cons.prems(1) now by (auto simp: rate_inv_def)
    with True step(2) within_limit_snoc [OF Cons.prems(2), of t] show ?thesis by (simp add: acc'_def)
  qed (use Cons.prems(2) in \<open>auto simp: acc'_def\<close>)
  moreover have "sorted (t # map fst es)" using Cons.prems(3) e by simp
  ultimately have "within_limit c (acc' @ accepted i (fst (rate_run c es hits')))"
    by (rule Cons.IH [OF step(1), folded acc'_def])
  moreover have "acc @ accepted i (fst (rate_run c (e # es) hits)) = acc' @ accepted i (fst (rate_run c es hits'))"
    by (simp add: e h acc'_def accepted_def split: prod.split)
  ultimately show ?case by simp
qed

text \<open>
  C5: the limit per device holds over every window: however the passages of the devices
  interleave, and whatever the store sweeps meanwhile, at most \<open>max\<close> passages of a
  device are accepted within any span of \<open>windowMs\<close>.
\<close>

theorem rate_limit_holds_over_every_window:
  assumes "0 < rc_window c" and "sorted (map fst es)"
  shows "length (filter (\<lambda>x. u - rc_window c < x \<and> x \<le> u) (accepted i (fst (rate_run c es [])))) \<le> rc_max c"
proof -
  define now where "now = (case es of [] \<Rightarrow> 0 | e # _ \<Rightarrow> fst e)"
  have "rate_inv (rc_window c) [] i [] now" by (auto simp: rate_inv_def)
  moreover have "sorted (now # map fst es)" using assms(2) by (cases es) (auto simp: now_def)
  moreover have "within_limit c []" by (simp add: within_limit_def)
  ultimately have "within_limit c ([] @ accepted i (fst (rate_run c es [])))"
    by (intro rate_run_limit [OF assms(1)])
  then show ?thesis by (simp add: within_limit_def)
qed

theorem rate_limit_holds_over_every_window_witness:
  "accepted ''d'' (fst (rate_run \<lparr>rc_max = 2, rc_window = 10, rc_max_entries = 1\<rparr>
      [(0, ''d''), (1, ''e''), (4, ''d''), (9, ''d''), (11, ''d'')] [])) = [0, 4, 11] \<and>
   length (filter (\<lambda>x. 11 - 10 < x \<and> x \<le> 11) [0 :: time, 4, 11]) \<le> 2"
proof -
  let ?c = "\<lparr>rc_max = 2, rc_window = 10, rc_max_entries = 1\<rparr>"
  let ?es = "[(0 :: time, ''d''), (1, ''e''), (4, ''d''), (9, ''d''), (11, ''d'')]"
  have acc: "accepted ''d'' (fst (rate_run ?c ?es [])) = [0, 4, 11]"
    by (simp add: rate_hit_def rate_prune_def rate_sweep_def accepted_def jm_get_def jm_set_def or_else_def)
  have "0 < rc_window ?c" "sorted (map fst ?es)" by simp_all
  from rate_limit_holds_over_every_window [OF this, of 11 "''d''"] acc show ?thesis by simp
qed

text \<open>
  a refusal says when to come back: the delay it returns is positive and at most the
  window, and the same passage after that delay is accepted.
\<close>

theorem rate_refusal_says_when_to_retry:
  assumes h: "rate_hit c t i hits = (Refused (Some d), hits')" and pos: "0 < rc_max c"
    and stored: "jm_get hits i = Some xs" and sorted: "sorted xs" and past: "\<forall>x \<in> set xs. x \<le> t"
    and len: "length xs \<le> rc_max c"
  shows "0 < d \<and> d \<le> rc_window c \<and> is_allowed (fst (rate_hit c (t + d) i hits'))"
proof -
  define ys where "ys = rate_prune (t - rc_window c) xs"
  have hit: "rate_hit c t i hits = (if length ys \<ge> rc_max c
      then (Refused (case ys of [] \<Rightarrow> None | x # _ \<Rightarrow> Some (x + rc_window c - t)), jm_set i ys hits)
      else (Allowed (rc_max c - length (ys @ [t])), jm_set i (ys @ [t]) hits))"
    by (simp add: rate_hit_def stored ys_def Let_def)
  with h obtain y zs where ys: "ys = y # zs" and d: "d = y + rc_window c - t"
    and full: "length ys \<ge> rc_max c" and hits': "hits' = jm_set i ys hits"
    by (cases ys) (auto split: if_splits)
  have f: "ys = filter (\<lambda>x. t - rc_window c < x) xs" using sorted by (simp add: ys_def rate_prune_filter)
  have "y \<in> set (filter (\<lambda>x. t - rc_window c < x) xs)" unfolding f [symmetric] ys by simp
  then have "y \<in> set xs" "t - rc_window c < y" by auto
  moreover have "length ys = rc_max c"
  proof -
    have "length ys \<le> length xs" by (simp add: f)
    with full len show ?thesis by linarith
  qed
  moreover have "length (rate_prune y ys) < length ys"
    using ys length_dropWhile_le [of "\<lambda>x. x \<le> y" zs] by (simp add: rate_prune_def)
  ultimately show ?thesis
    using past d by (auto simp: rate_hit_def hits' Let_def)
qed

theorem rate_refusal_says_when_to_retry_witness:
  "rate_hit \<lparr>rc_max = 2, rc_window = 10, rc_max_entries = 5\<rparr> 7 ''d'' [(''d'', [3, 5])] =
     (Refused (Some 6), [(''d'', [3, 5])]) \<and>
   is_allowed (fst (rate_hit \<lparr>rc_max = 2, rc_window = 10, rc_max_entries = 5\<rparr> (7 + 6) ''d'' [(''d'', [3, 5])]))"
proof -
  let ?c = "\<lparr>rc_max = 2, rc_window = 10, rc_max_entries = 5\<rparr>"
  have h: "rate_hit ?c 7 ''d'' [(''d'', [3, 5])] = (Refused (Some 6), [(''d'', [3, 5])])"
    by (simp add: rate_hit_def rate_prune_def jm_get_def jm_set_def)
  have "jm_get [(''d'', [3, 5 :: time])] ''d'' = Some [3, 5]" by (simp add: jm_get_def)
  from rate_refusal_says_when_to_retry [OF h _ this] h show ?thesis by simp
qed

section \<open>Git tokens\<close>

record git_entry =
  ge_device :: jsstring
  ge_fingerprint :: jsstring
  ge_expires :: time

type_synonym git_tokens = "(jsstring, git_entry) jsmap"

text \<open>\<open>hash\<close> is the SHA-256 of the token in hexadecimal, \<open>rnd\<close> the 40 random hex digits.\<close>

definition git_sweep :: "time \<Rightarrow> git_tokens \<Rightarrow> git_tokens" where
  "git_sweep now m = filter (\<lambda>(k, e). \<not> ge_expires e \<le> now) m"

definition git_create :: "(jsstring \<Rightarrow> jsstring) \<Rightarrow> time \<Rightarrow> jsstring \<Rightarrow> jsstring \<Rightarrow> jsstring \<Rightarrow> time
    \<Rightarrow> git_tokens \<Rightarrow> (jsstring \<times> time) \<times> git_tokens" where
  "git_create hash now rnd dev fp ttl m =
     (let token = ''gt_'' @ rnd; ex = now + ttl
      in ((token, ex), jm_set (hash token) \<lparr>ge_device = dev, ge_fingerprint = fp, ge_expires = ex\<rparr> m))"

text \<open>\<open>/^gt_[0-9a-f]{40}$/\<close>\<close>

definition git_token_form :: "jsstring \<Rightarrow> bool" where
  "git_token_form s \<longleftrightarrow> starts_with ''gt_'' s \<and> length s = 43 \<and> list_all lower_hex (drop 3 s)"

definition git_verify :: "(jsstring \<Rightarrow> jsstring) \<Rightarrow> time \<Rightarrow> jsstring option \<Rightarrow> git_tokens
    \<Rightarrow> (git_entry \<times> bool) option \<times> git_tokens" where
  "git_verify hash now token m =
     (case token of
        None \<Rightarrow> (None, m)
      | Some s \<Rightarrow>
          if \<not> git_token_form s then (None, m)
          else (case jm_get m (hash s) of
              None \<Rightarrow> (None, m)
            | Some e \<Rightarrow> (let expired = ge_expires e \<le> now
                         in (Some (e, expired), if expired then jm_del (hash s) m else m))))"

definition git_revoke_device :: "jsstring \<Rightarrow> git_tokens \<Rightarrow> git_tokens" where
  "git_revoke_device dev m = filter (\<lambda>(k, e). ge_device e \<noteq> dev) m"

definition git_size :: "time \<Rightarrow> git_tokens \<Rightarrow> nat \<times> git_tokens" where
  "git_size now m = (length (git_sweep now m), git_sweep now m)"

lemma git_create_wf: "jm_wf m \<Longrightarrow> jm_wf (snd (git_create hash now rnd dev fp ttl m))"
  by (simp add: git_create_def Let_def jm.ok_put)

text \<open>
  A token issued at check-in verifies to its device and fingerprint until its expiry,
  whatever sweeps run before that; a verification at or after the expiry reports it
  expired once, then it is unknown; and once the device is revoked no token of that
  device verifies any more.
\<close>

theorem git_token_lifecycle:
  assumes wf: "jm_wf m" and form: "git_token_form (''gt_'' @ rnd)"
    and created: "git_create hash now rnd dev fp ttl m = ((token, ex), m1)"
  shows "(\<forall>s u. s < ex \<longrightarrow> u < ex \<longrightarrow> fst (git_verify hash u (Some token) (git_sweep s m1))
              = Some (\<lparr>ge_device = dev, ge_fingerprint = fp, ge_expires = ex\<rparr>, False))
       \<and> (\<forall>u \<ge> ex. \<exists>m2. git_verify hash u (Some token) m1
              = (Some (\<lparr>ge_device = dev, ge_fingerprint = fp, ge_expires = ex\<rparr>, True), m2) \<and>
            (\<forall>v. fst (git_verify hash v (Some token) m2) = None))
       \<and> (\<forall>u x e b. fst (git_verify hash u x (git_revoke_device dev m1)) = Some (e, b) \<longrightarrow> ge_device e \<noteq> dev)"
proof (intro conjI allI impI)
  have wf1: "jm_wf m1" using git_create_wf [OF wf] created by (metis snd_conv)
  have form': "git_token_form token" using form created by (simp add: git_create_def Let_def)
  have get: "jm_get m1 (hash token) = Some \<lparr>ge_device = dev, ge_fingerprint = fp, ge_expires = ex\<rparr>"
    using created by (auto simp: git_create_def Let_def)
  fix s u x e b
  show "fst (git_verify hash u (Some token) (git_sweep s m1))
      = Some (\<lparr>ge_device = dev, ge_fingerprint = fp, ge_expires = ex\<rparr>, False)" if "s < ex" "u < ex"
    using that form' get by (simp add: git_verify_def git_sweep_def jm_get_filter [OF wf1] Let_def)
  show "\<exists>m2. git_verify hash u (Some token) m1
              = (Some (\<lparr>ge_device = dev, ge_fingerprint = fp, ge_expires = ex\<rparr>, True), m2) \<and>
            (\<forall>v. fst (git_verify hash v (Some token) m2) = None)" if "ex \<le> u"
    using that form' get by (simp add: git_verify_def Let_def)
  show "ge_device e \<noteq> dev" if "fst (git_verify hash u x (git_revoke_device dev m1)) = Some (e, b)"
    using that by (auto simp: git_verify_def git_revoke_device_def jm_get_filter [OF wf1] Let_def
        split: option.splits if_splits)
qed

theorem git_token_lifecycle_witness:
  "git_token_form (''gt_'' @ replicate 40 (CHR ''a'')) \<and>
   fst (git_verify rev 599 (Some (''gt_'' @ replicate 40 (CHR ''a'')))
     (git_sweep 10 (snd (git_create rev 0 (replicate 40 (CHR ''a'')) ''d1'' ''f1'' 600 []))))
     = Some (\<lparr>ge_device = ''d1'', ge_fingerprint = ''f1'', ge_expires = 600\<rparr>, False)"
proof -
  let ?r = "replicate 40 (CHR ''a'')"
  have form: "git_token_form (''gt_'' @ ?r)" by code_simp
  have c: "git_create rev 0 ?r ''d1'' ''f1'' 600 [] = ((''gt_'' @ ?r, 600),
      snd (git_create rev 0 ?r ''d1'' ''f1'' 600 []))" by (simp add: git_create_def Let_def)
  from git_token_lifecycle [OF _ form c] show ?thesis using form by simp
qed

end
