(* ===== verification/Validation.thy ===== *)
theory Validation imports Prelude "HOL-Library.Word" begin

text \<open>
  Server-side validation of what an agent sends: \<open>inventory/lib/checkin-validation.js\<close>
  (Netbird addresses, interface types, bounded strings, middle truncation on UTF-8
  bytes, removal of NUL).

  Text whose bytes are counted is a list of code points with its UTF-8 encoding;
  addresses are 32-bit words.
\<close>

section \<open>IPv4 addresses\<close>

text \<open>\<open>net.isIPv4\<close>: four decimal octets without leading zeros.\<close>

definition octet :: "jsstring \<Rightarrow> nat option" where
  "octet s =
     (if s \<noteq> [] \<and> length s \<le> 3 \<and> list_all digit_char s \<and> (length s = 1 \<or> hd s \<noteq> CHR ''0'') \<and> dec_val s \<le> 255
      then Some (dec_val s) else None)"

definition parse_ipv4 :: "jsstring \<Rightarrow> 32 word option" where
  "parse_ipv4 s =
     (case map octet (js_split (CHR ''.'') s) of
        [Some a, Some b, Some c, Some e] \<Rightarrow>
          Some (of_nat (((a * 256 + b) * 256 + c) * 256 + e))
      | _ \<Rightarrow> None)"

text \<open>\<open>addSubnet('100.64.0.0', 10)\<close>: the ten leading bits agree.\<close>

definition NETBIRD_RANGE :: "32 word \<Rightarrow> bool" where
  "NETBIRD_RANGE w \<longleftrightarrow> drop_bit 22 w = drop_bit 22 (0x64400000 :: 32 word)"

definition isNetbirdIp :: "json option \<Rightarrow> bool" where
  "isNetbirdIp v =
     (case v of
        Some (JStr s) \<Rightarrow> (case parse_ipv4 s of None \<Rightarrow> False | Some w \<Rightarrow> NETBIRD_RANGE w)
      | _ \<Rightarrow> False)"

section \<open>Interface types and bounded strings\<close>

definition IFACE_TYPES :: "jsstring list" where
  "IFACE_TYPES = [''eth'', ''wifi'', ''netbird'']"

definition normalizeIfaceType :: "json option \<Rightarrow> jsstring option" where
  "normalizeIfaceType v =
     (case v of
        None \<Rightarrow> Some ''eth''
      | Some JNull \<Rightarrow> Some ''eth''
      | Some (JStr s) \<Rightarrow>
          if s = [] then Some ''eth''
          else let t = js_lower (js_trim s) in if t \<in> set IFACE_TYPES then Some t else None
      | Some _ \<Rightarrow> None)"

text \<open>\<open>String(n)\<close> of a number is the parameter \<open>num_str\<close>.\<close>

definition clipStr :: "(rat \<Rightarrow> jsstring) \<Rightarrow> json option \<Rightarrow> nat \<Rightarrow> jsstring option" where
  "clipStr num_str v mx =
     (case v of
        None \<Rightarrow> None
      | Some JNull \<Rightarrow> None
      | Some (JStr s) \<Rightarrow> Some (take mx s)
      | Some (JNum q) \<Rightarrow> Some (take mx (num_str q))
      | Some (JBool b) \<Rightarrow> Some (take mx (if b then ''true'' else ''false''))
      | Some (JArr _) \<Rightarrow> Some ''[array]''
      | Some (JObj _) \<Rightarrow> Some ''[object]'')"

section \<open>Middle truncation\<close>

type_synonym code_points = "nat list"

abbreviation REPLACEMENT :: nat where
  "REPLACEMENT \<equiv> 0xFFFD"

definition scalar :: "nat \<Rightarrow> bool" where
  "scalar c \<longleftrightarrow> c < 0xD800 \<or> (0xE000 \<le> c \<and> c < 0x110000)"

definition utf8_char :: "nat \<Rightarrow> nat list" where
  "utf8_char c0 =
     (let c = (if scalar c0 then c0 else REPLACEMENT) in
      if c < 0x80 then [c]
      else if c < 0x800 then [0xC0 + c div 64, 0x80 + c mod 64]
      else if c < 0x10000 then [0xE0 + c div 4096, 0x80 + c div 64 mod 64, 0x80 + c mod 64]
      else [0xF0 + c div 262144, 0x80 + c div 4096 mod 64, 0x80 + c div 64 mod 64, 0x80 + c mod 64])"

definition utf8 :: "code_points \<Rightarrow> nat list" where
  "utf8 s = concat (map utf8_char s)"

definition cont_byte :: "nat \<Rightarrow> bool" where
  "cont_byte b \<longleftrightarrow> 0x80 \<le> b \<and> b < 0xC0"

text \<open>
  \<open>toString('utf8')\<close>: a byte that does not start a complete sequence decodes to U+FFFD.
  (A truncated sequence gives one such character per byte here and one per maximal
  subpart in Node; both runs of U+FFFD are removed by the caller.)
\<close>

fun utf8_decode :: "nat list \<Rightarrow> code_points" where
  "utf8_decode [] = []"
| "utf8_decode (a # bs) =
     (if a < 0x80 then a # utf8_decode bs
      else case bs of
        b # bs1 \<Rightarrow>
          if 0xC2 \<le> a \<and> a < 0xE0 \<and> cont_byte b
          then ((a - 0xC0) * 64 + (b - 0x80)) # utf8_decode bs1
          else (case bs1 of
            c # bs2 \<Rightarrow>
              if 0xE0 \<le> a \<and> a < 0xF0 \<and> cont_byte b \<and> cont_byte c
              then ((a - 0xE0) * 4096 + (b - 0x80) * 64 + (c - 0x80)) # utf8_decode bs2
              else (case bs2 of
                e # bs3 \<Rightarrow>
                  if 0xF0 \<le> a \<and> a < 0xF5 \<and> cont_byte b \<and> cont_byte c \<and> cont_byte e
                  then ((a - 0xF0) * 262144 + (b - 0x80) * 4096 + (c - 0x80) * 64 + (e - 0x80)) # utf8_decode bs3
                  else REPLACEMENT # utf8_decode bs
              | [] \<Rightarrow> REPLACEMENT # utf8_decode bs)
          | [] \<Rightarrow> REPLACEMENT # utf8_decode bs)
      | [] \<Rightarrow> REPLACEMENT # utf8_decode bs)"

text \<open>\<open>buf.subarray(a, b)\<close>: a negative bound counts from the end.\<close>

definition js_bound :: "nat \<Rightarrow> int \<Rightarrow> nat" where
  "js_bound n i = (if i < 0 then nat (int n + i) else min n (nat i))"

definition subarray :: "int \<Rightarrow> int \<Rightarrow> 'a list \<Rightarrow> 'a list" where
  "subarray a b xs = take (js_bound (length xs) b - js_bound (length xs) a) (drop (js_bound (length xs) a) xs)"

definition codes :: "jsstring \<Rightarrow> code_points" where
  "codes s = map of_char s"

definition marker :: "nat \<Rightarrow> code_points" where
  "marker nb =
     [10, 0x2026] @ codes '' [log tronqu'' @ [0xE9] @ codes '' : '' @ codes (nat_str nb) @
     codes '' octets au total, milieu omis] '' @ [0x2026, 10]"

definition strip_end :: "code_points \<Rightarrow> code_points" where
  "strip_end s = rev (dropWhile (\<lambda>c. c = REPLACEMENT) (rev s))"

definition strip_start :: "code_points \<Rightarrow> code_points" where
  "strip_start s = dropWhile (\<lambda>c. c = REPLACEMENT) s"

definition truncateMiddle :: "code_points \<Rightarrow> nat \<Rightarrow> code_points" where
  "truncateMiddle text mx =
     (let nb = length (utf8 text) in
      if nb \<le> mx then text
      else
        let room = int mx - int (length (utf8 (marker nb)));
            headBytes = (room + 1) div 2;
            tailBytes = room - headBytes;
            buf = utf8 text;
            head = strip_end (utf8_decode (subarray 0 headBytes buf));
            tail = strip_start (utf8_decode (subarray (int (length buf) - tailBytes) (int (length buf)) buf))
        in head @ marker nb @ tail)"

section \<open>Removal of NUL\<close>

definition FORBIDDEN_KEYS :: "jsstring list" where
  "FORBIDDEN_KEYS = [''__proto__'', ''constructor'', ''prototype'']"

definition strip_nul_str :: "jsstring \<Rightarrow> jsstring" where
  "strip_nul_str s = filter (\<lambda>c. c \<noteq> CHR 0x00) s"

fun stripNul :: "json \<Rightarrow> json"
  and stripNul_list :: "json list \<Rightarrow> json list"
  and stripNul_fields :: "(jsstring, json) jsmap \<Rightarrow> (jsstring \<times> json) list \<Rightarrow> (jsstring, json) jsmap" where
  "stripNul (JStr s) = JStr (strip_nul_str s)"
| "stripNul (JArr vs) = JArr (stripNul_list vs)"
| "stripNul (JObj ps) = JObj (stripNul_fields [] ps)"
| "stripNul JNull = JNull"
| "stripNul (JBool b) = JBool b"
| "stripNul (JNum q) = JNum q"
| "stripNul_list [] = []"
| "stripNul_list (v # vs) = stripNul v # stripNul_list vs"
| "stripNul_fields out [] = out"
| "stripNul_fields out ((k, v) # ps) =
     (let key = strip_nul_str k in
      if key \<in> set FORBIDDEN_KEYS then stripNul_fields out ps
      else stripNul_fields (jm_set key (stripNul v) out) ps)"

text \<open>A JSON value no string of which contains NUL and no key of which is forbidden.\<close>

fun nul_free :: "json \<Rightarrow> bool"
  and nul_free_list :: "json list \<Rightarrow> bool"
  and nul_free_fields :: "(jsstring \<times> json) list \<Rightarrow> bool" where
  "nul_free (JStr s) = (CHR 0x00 \<notin> set s)"
| "nul_free (JArr vs) = nul_free_list vs"
| "nul_free (JObj ps) = nul_free_fields ps"
| "nul_free JNull = True"
| "nul_free (JBool b) = True"
| "nul_free (JNum q) = True"
| "nul_free_list [] = True"
| "nul_free_list (v # vs) = (nul_free v \<and> nul_free_list vs)"
| "nul_free_fields [] = True"
| "nul_free_fields ((k, v) # ps) =
     (CHR 0x00 \<notin> set k \<and> k \<notin> set FORBIDDEN_KEYS \<and> nul_free v \<and> nul_free_fields ps)"

section \<open>Addresses\<close>

lemma octet_le: "octet s = Some n \<Longrightarrow> n \<le> 255"
  by (auto simp: octet_def split: if_splits)

lemma netbird_word:
  fixes a b c e :: nat
  assumes "a \<le> 255" "b \<le> 255" "c \<le> 255" "e \<le> 255"
  shows "NETBIRD_RANGE (of_nat (((a * 256 + b) * 256 + c) * 256 + e)) \<longleftrightarrow> a = 100 \<and> 64 \<le> b \<and> b \<le> 127"
proof -
  define n where n: "n = ((a * 256 + b) * 256 + c) * 256 + e"
  have n': "n = 16777216 * a + 65536 * b + 256 * c + e" by (simp add: n)
  have "n < 2 ^ 32" using assms by (simp add: n)
  then have u: "unat (of_nat n :: 32 word) = n" by (simp add: unat_of_nat)
  have "NETBIRD_RANGE (of_nat n) \<longleftrightarrow> unat (drop_bit 22 (of_nat n :: 32 word)) = unat (drop_bit 22 (0x64400000 :: 32 word))"
    by (simp only: NETBIRD_RANGE_def word_unat_eq_iff)
  also have "unat (drop_bit 22 (of_nat n :: 32 word)) = n div 2 ^ 22"
    by (simp only: unat_drop_bit_eq) (simp only: u drop_bit_eq_div)
  also have "unat (drop_bit 22 (0x64400000 :: 32 word)) = 401"
    by (simp add: unat_drop_bit_eq drop_bit_eq_div)
  also have "n div 2 ^ 22 = 401 \<longleftrightarrow> 1681915904 \<le> n \<and> n < 1686110208"
    by auto
  also have "\<dots> \<longleftrightarrow> a = 100 \<and> 64 \<le> b \<and> b \<le> 127"
  proof
    assume "1681915904 \<le> n \<and> n < 1686110208"
    then have r: "1681915904 \<le> n" "n < 1686110208" by simp_all
    have "a \<le> 100" by (rule ccontr) (use r assms n' in linarith)
    moreover have "100 \<le> a" by (rule ccontr) (use r assms n' in linarith)
    ultimately have a: "a = 100" by simp
    have "64 \<le> b" by (rule ccontr) (use r assms n' a in linarith)
    moreover have "b \<le> 127" by (rule ccontr) (use r assms n' a in linarith)
    ultimately show "a = 100 \<and> 64 \<le> b \<and> b \<le> 127" using a by simp
  next
    assume "a = 100 \<and> 64 \<le> b \<and> b \<le> 127"
    then have "a = 100" "64 \<le> b" "b \<le> 127" by simp_all
    with assms show "1681915904 \<le> n \<and> n < 1686110208" unfolding n by simp
  qed
  finally show ?thesis by (simp add: n)
qed

text \<open>
  a string is taken as a Netbird address exactly when it is a well-formed IPv4
  address whose first octet is 100 and whose second octet lies in 64..127 (the block
  100.64.0.0/10 the code builds); nothing but a string is.
\<close>

theorem isNetbirdIp_block:
  "isNetbirdIp v \<longleftrightarrow>
     (\<exists>s a b c e. v = Some (JStr s) \<and> map octet (js_split (CHR ''.'') s) = [Some a, Some b, Some c, Some e] \<and>
        a = 100 \<and> b \<in> {64..127})"
proof -
  have str: "isNetbirdIp (Some (JStr s)) \<longleftrightarrow>
      (\<exists>a b c e. map octet (js_split (CHR ''.'') s) = [Some a, Some b, Some c, Some e] \<and> a = 100 \<and> b \<in> {64..127})" for s
  proof (cases "parse_ipv4 s")
    case None
    then show ?thesis
      by (auto simp: isNetbirdIp_def parse_ipv4_def)
  next
    case (Some w)
    then obtain a b c e where abce: "map octet (js_split (CHR ''.'') s) = [Some a, Some b, Some c, Some e]"
      and w: "w = of_nat (((a * 256 + b) * 256 + c) * 256 + e)"
      unfolding parse_ipv4_def by (auto split: list.splits option.splits)
    have "Some a \<in> octet ` set (js_split (CHR ''.'') s)" "Some b \<in> octet ` set (js_split (CHR ''.'') s)"
      "Some c \<in> octet ` set (js_split (CHR ''.'') s)" "Some e \<in> octet ` set (js_split (CHR ''.'') s)"
      using abce by (simp_all flip: set_map)
    then have "a \<le> 255" "b \<le> 255" "c \<le> 255" "e \<le> 255" by (auto dest: sym [THEN octet_le])
    from netbird_word [OF this] show ?thesis
      by (auto simp: isNetbirdIp_def Some w abce)
  qed
  show ?thesis
    by (cases v; (cases "the v")?) (use str in \<open>auto simp: isNetbirdIp_def\<close>)
qed

section \<open>UTF-8\<close>

lemma utf8_Nil [simp]: "utf8 [] = []"
  by (simp add: utf8_def)

lemma utf8_Cons [simp]: "utf8 (c # s) = utf8_char c @ utf8 s"
  by (simp add: utf8_def)

lemma utf8_append [simp]: "utf8 (s @ t) = utf8 s @ utf8 t"
  by (simp add: utf8_def)

lemma scalar_ranges: "scalar c \<Longrightarrow> c < 0x110000"
  by (auto simp: scalar_def)

lemma utf8_char_cases [case_names one two three four]:
  assumes "scalar c"
  obtains "utf8_char c = [c]" "c < 0x80"
  | "utf8_char c = [0xC0 + c div 64, 0x80 + c mod 64]" "0x80 \<le> c" "c < 0x800"
  | "utf8_char c = [0xE0 + c div 4096, 0x80 + c div 64 mod 64, 0x80 + c mod 64]" "0x800 \<le> c" "c < 0x10000"
  | "utf8_char c = [0xF0 + c div 262144, 0x80 + c div 4096 mod 64, 0x80 + c div 64 mod 64, 0x80 + c mod 64]"
    "0x10000 \<le> c" "c < 0x110000"
  using assms scalar_ranges [OF assms] unfolding utf8_char_def Let_def
  by (cases "c < 0x80"; cases "c < 0x800"; cases "c < 0x10000") auto

lemma decode_cont: "cont_byte b \<Longrightarrow> utf8_decode (b # bs) = REPLACEMENT # utf8_decode bs"
  unfolding utf8_decode.simps(2) [of b bs]
  by (auto simp: cont_byte_def simp del: utf8_decode.simps split: list.split)

lemma cont_byte_low: "cont_byte (0x80 + n mod 64)"
  by (simp add: cont_byte_def)

lemma split64:
  fixes c :: nat
  shows "c div 64 * 64 + c mod 64 = c"
    "c div 4096 * 4096 + (c div 64 mod 64) * 64 + c mod 64 = c"
    "c div 262144 * 262144 + (c div 4096 mod 64) * 4096 + (c div 64 mod 64) * 64 + c mod 64 = c"
proof -
  show a: "c div 64 * 64 + c mod 64 = c" by simp
  have "c div 64 = c div 4096 * 64 + c div 64 mod 64"
    using div_mult_mod_eq [of "c div 64" 64] by (simp add: div_mult2_eq [symmetric])
  with a show b: "c div 4096 * 4096 + (c div 64 mod 64) * 64 + c mod 64 = c" by linarith
  have "c div 4096 = c div 262144 * 64 + c div 4096 mod 64"
    using div_mult_mod_eq [of "c div 4096" 64] by (simp add: div_mult2_eq [symmetric])
  with b show "c div 262144 * 262144 + (c div 4096 mod 64) * 4096 + (c div 64 mod 64) * 64 + c mod 64 = c"
    by linarith
qed

lemma decode_char:
  assumes "scalar c" shows "utf8_decode (utf8_char c @ bs) = c # utf8_decode bs"
  using assms
proof (cases rule: utf8_char_cases)
  case one
  then show ?thesis by simp
next
  case two
  have "2 \<le> c div 64" "c div 64 < 32" using two(2,3) by auto
  then show ?thesis by (simp add: two(1) cont_byte_low split64(1))
next
  case three
  have "c div 4096 < 16" using three(3) by auto
  then show ?thesis by (simp add: three(1) cont_byte_low split64(2))
next
  case four
  have "c div 262144 < 5" using four(3) by auto
  then show ?thesis by (simp add: four(1) cont_byte_low split64(3))
qed

lemma decode_encode: "list_all scalar s \<Longrightarrow> utf8_decode (utf8 s) = s"
  by (induction s) (simp_all add: decode_char)

lemma decode_partial:
  assumes "scalar c" "n < length (utf8_char c)"
  shows "utf8_decode (take n (utf8_char c)) = replicate n REPLACEMENT"
  using assms(1)
proof (cases rule: utf8_char_cases)
  case two
  with assms(2) have "n = 0 \<or> n = 1" by auto
  then show ?thesis by (auto simp: two(1))
next
  case three
  with assms(2) have "n = 0 \<or> n = 1 \<or> n = 2" by auto
  moreover have "\<not> cont_byte (0xE0 + c div 4096)" by (simp add: cont_byte_def)
  ultimately show ?thesis by (auto simp: three(1) decode_cont cont_byte_low numeral_2_eq_2)
next
  case four
  with assms(2) have "n = 0 \<or> n = 1 \<or> n = 2 \<or> n = 3" by auto
  then show ?thesis by (auto simp: four(1) decode_cont cont_byte_low numeral_2_eq_2 numeral_3_eq_3)
qed (use assms in simp)

lemma decode_tail_partial:
  assumes "scalar c" "0 < n" "n < length (utf8_char c)"
  shows "\<exists>k. utf8_decode (drop n (utf8_char c) @ bs) = replicate k REPLACEMENT @ utf8_decode bs"
proof -
  have "\<forall>b \<in> set (drop n (utf8_char c)). cont_byte b"
    using assms(1)
  proof (cases rule: utf8_char_cases)
    case one
    with assms show ?thesis by simp
  next
    case two
    with assms have "n = 1" by simp
    then show ?thesis by (simp add: two(1) cont_byte_low)
  next
    case three
    with assms have "n = 1 \<or> n = 2" by auto
    then show ?thesis by (auto simp: three(1) cont_byte_low numeral_2_eq_2)
  next
    case four
    with assms have "n = 1 \<or> n = 2 \<or> n = 3" by auto
    then show ?thesis by (auto simp: four(1) cont_byte_low numeral_2_eq_2 numeral_3_eq_3)
  qed
  moreover have "\<forall>b \<in> set xs. cont_byte b \<Longrightarrow> utf8_decode (xs @ bs) = replicate (length xs) REPLACEMENT @ utf8_decode bs" for xs
    by (induction xs) (simp_all add: decode_cont del: utf8_decode.simps)
  ultimately show ?thesis by blast
qed

lemma decode_prefix:
  assumes "list_all scalar s"
  shows "\<exists>p k. utf8_decode (take n (utf8 s)) = p @ replicate k REPLACEMENT \<and> prefix p s \<and> length (utf8 p) \<le> n"
  using assms
proof (induction s arbitrary: n)
  case (Cons c s)
  show ?case
  proof (cases "n < length (utf8_char c)")
    case True
    with Cons.prems have "utf8_decode (take n (utf8 (c # s))) = [] @ replicate n REPLACEMENT"
      by (simp add: decode_partial)
    then show ?thesis by fastforce
  next
    case False
    from Cons.IH [of "n - length (utf8_char c)"] Cons.prems obtain p k where
      p: "utf8_decode (take (n - length (utf8_char c)) (utf8 s)) = p @ replicate k REPLACEMENT" "prefix p s"
        "length (utf8 p) \<le> n - length (utf8_char c)" by auto
    have "utf8_decode (take n (utf8 (c # s))) = (c # p) @ replicate k REPLACEMENT"
      using False Cons.prems p(1) by (simp add: decode_char del: utf8_decode.simps)
    moreover have "length (utf8 (c # p)) \<le> n" using False p(3) by simp
    moreover have "prefix (c # p) (c # s)" using p(2) by simp
    ultimately show ?thesis by blast
  qed
qed simp

lemma decode_suffix:
  assumes "list_all scalar s" "n \<le> length (utf8 s)"
  shows "\<exists>q k. utf8_decode (drop n (utf8 s)) = replicate k REPLACEMENT @ q \<and> suffix q s \<and> length (utf8 q) + n \<le> length (utf8 s)"
  using assms
proof (induction s arbitrary: n)
  case (Cons c s)
  consider "n = 0" | "0 < n" "n < length (utf8_char c)" | "length (utf8_char c) \<le> n" by linarith
  then show ?case
  proof cases
    case 1
    with Cons.prems have "utf8_decode (drop n (utf8 (c # s))) = replicate 0 REPLACEMENT @ (c # s)"
      by (simp add: decode_encode decode_char del: utf8_decode.simps)
    with 1 show ?thesis by (metis add_0_right order_refl suffix_order.refl)
  next
    case 2
    with Cons.prems obtain k where "utf8_decode (drop n (utf8_char c) @ utf8 s) = replicate k REPLACEMENT @ s"
      using decode_tail_partial [of c n "utf8 s"] by (auto simp: decode_encode)
    then have "utf8_decode (drop n (utf8 (c # s))) = replicate k REPLACEMENT @ s"
      using 2 by simp
    moreover have "length (utf8 s) + n \<le> length (utf8 (c # s))" using 2 by simp
    moreover have "suffix s (c # s)" by (simp add: suffix_ConsI)
    ultimately show ?thesis by blast
  next
    case 3
    have "list_all scalar s" "n - length (utf8_char c) \<le> length (utf8 s)" using Cons.prems by simp_all
    from Cons.IH [OF this] obtain q k where
      q: "utf8_decode (drop (n - length (utf8_char c)) (utf8 s)) = replicate k REPLACEMENT @ q" "suffix q s"
        "length (utf8 q) + (n - length (utf8_char c)) \<le> length (utf8 s)" by blast
    have "utf8_decode (drop n (utf8 (c # s))) = replicate k REPLACEMENT @ q" using 3 q(1) by simp
    moreover have "suffix q (c # s)" using q(2) by (simp add: suffix_ConsI)
    moreover have "length (utf8 q) + n \<le> length (utf8 (c # s))" using q(3) 3 by simp
    ultimately show ?thesis by blast
  qed
qed simp

lemma strip_end_replicate: "strip_end (p @ replicate k REPLACEMENT) = strip_end p"
proof -
  have "dropWhile (\<lambda>c. c = REPLACEMENT) (replicate k REPLACEMENT @ rev p) = dropWhile (\<lambda>c. c = REPLACEMENT) (rev p)"
    by (induction k) simp_all
  then show ?thesis by (simp add: strip_end_def)
qed

lemma strip_end_prefix: "prefix (strip_end p) p"
  by (metis rev_rev_ident strip_end_def suffix_dropWhile suffix_to_prefix)

lemma strip_start_replicate: "strip_start (replicate k REPLACEMENT @ q) = strip_start q"
  by (induction k) (simp_all add: strip_start_def)

lemma strip_start_suffix: "suffix (strip_start q) q"
  by (simp add: strip_start_def suffix_dropWhile)

lemma utf8_prefix_le: "prefix p s \<Longrightarrow> length (utf8 p) \<le> length (utf8 s)"
  by (auto simp: prefix_def)

lemma utf8_suffix_le: "suffix p s \<Longrightarrow> length (utf8 p) \<le> length (utf8 s)"
  by (auto simp: suffix_def)

lemma truncated_head:
  assumes "list_all scalar s"
  shows "prefix (strip_end (utf8_decode (take n (utf8 s)))) s \<and>
    length (utf8 (strip_end (utf8_decode (take n (utf8 s))))) \<le> n"
proof -
  obtain p k where p: "utf8_decode (take n (utf8 s)) = p @ replicate k REPLACEMENT" "prefix p s" "length (utf8 p) \<le> n"
    using decode_prefix [OF assms] by blast
  have "strip_end (utf8_decode (take n (utf8 s))) = strip_end p" by (simp only: p(1) strip_end_replicate)
  with p(2,3) strip_end_prefix [of p] utf8_prefix_le [of "strip_end p" p] show ?thesis
    by (simp add: prefix_order.order_trans)
qed

lemma truncated_tail:
  assumes "list_all scalar s" "n \<le> length (utf8 s)"
  shows "suffix (strip_start (utf8_decode (drop n (utf8 s)))) s \<and>
    length (utf8 (strip_start (utf8_decode (drop n (utf8 s))))) + n \<le> length (utf8 s)"
proof -
  obtain q k where q: "utf8_decode (drop n (utf8 s)) = replicate k REPLACEMENT @ q" "suffix q s"
      "length (utf8 q) + n \<le> length (utf8 s)"
    using decode_suffix [OF assms] by blast
  have "strip_start (utf8_decode (drop n (utf8 s))) = strip_start q" by (simp only: q(1) strip_start_replicate)
  with q(2,3) strip_start_suffix [of q] utf8_suffix_le [of "strip_start q" q] show ?thesis
    by (simp add: suffix_order.order_trans)
qed

lemma subarray_head: "0 \<le> h \<Longrightarrow> subarray 0 h xs = take (nat h) xs"
  by (simp add: subarray_def js_bound_def min_def)

lemma subarray_tail:
  "0 \<le> t \<Longrightarrow> t \<le> int (length xs) \<Longrightarrow>
     subarray (int (length xs) - t) (int (length xs)) xs = drop (length xs - nat t) xs"
  by (auto simp: subarray_def js_bound_def nat_diff_distrib)

text \<open>
  the middle truncation never exceeds the byte limit once the limit has room for the
  marker; what fits is kept whole, and otherwise the result is a beginning of the text, the
  marker with the original byte count, and an end of the text: no character is ever cut.
\<close>

theorem truncateMiddle_bounded:
  assumes valid: "list_all scalar text" and room: "length (utf8 (marker (length (utf8 text)))) \<le> mx"
  shows "length (utf8 (truncateMiddle text mx)) \<le> mx \<and>
    (if length (utf8 text) \<le> mx then truncateMiddle text mx = text
     else \<exists>p q. truncateMiddle text mx = p @ marker (length (utf8 text)) @ q \<and> prefix p text \<and> suffix q text)"
proof (cases "length (utf8 text) \<le> mx")
  case False
  define m where "m = marker (length (utf8 text))"
  define h where "h = (int mx - int (length (utf8 m)) + 1) div 2"
  define t where "t = int mx - int (length (utf8 m)) - h"
  let ?p = "strip_end (utf8_decode (take (nat h) (utf8 text)))"
  let ?q = "strip_start (utf8_decode (drop (length (utf8 text) - nat t) (utf8 text)))"
  have ht: "0 \<le> h" "0 \<le> t" "nat h + nat t + length (utf8 m) = mx"
    using room by (auto simp: h_def t_def m_def)
  have "t \<le> int (length (utf8 text))" using ht False by linarith
  then have res: "truncateMiddle text mx = ?p @ m @ ?q"
    using False ht(1,2) unfolding truncateMiddle_def Let_def m_def [symmetric] h_def [symmetric] t_def [symmetric]
    by (simp add: subarray_head subarray_tail del: utf8_decode.simps)
  note p = truncated_head [OF valid, of "nat h"]
    and q = truncated_tail [OF valid, of "length (utf8 text) - nat t"]
  have "length (utf8 ?q) \<le> nat t" using q by linarith
  with p ht(3) have "length (utf8 (truncateMiddle text mx)) \<le> mx" by (simp add: res del: utf8_decode.simps)
  moreover have "\<exists>p q. truncateMiddle text mx = p @ m @ q \<and> prefix p text \<and> suffix q text"
    using res p q by auto
  ultimately show ?thesis using False by (simp add: m_def)
qed (simp add: truncateMiddle_def Let_def)

lemma length_utf8_replicate: "length (utf8 (replicate n c)) = n * length (utf8_char c)"
  by (induction n) simp_all

theorem truncateMiddle_bounded_witness:
  "length (utf8 (truncateMiddle (replicate 60 0xE9) 80)) \<le> 80"
proof -
  have "length (utf8_char 0xE9) = 2" by (simp add: utf8_char_def scalar_def)
  then have n: "length (utf8 (replicate 60 0xE9)) = 120" by (simp only: length_utf8_replicate)
  have s: "nat_str 120 = ''120''" by (simp add: nat_str.simps char_eq_iff)
  have "length (utf8 (marker 120)) \<le> 80"
    unfolding marker_def s codes_def by (simp add: utf8_char_def scalar_def)
  moreover have "list_all scalar (replicate 60 0xE9)" by (simp add: list_all_iff scalar_def)
  ultimately show ?thesis using truncateMiddle_bounded [of "replicate 60 0xE9" 80] n by simp
qed

section \<open>NUL\<close>

fun json_wf :: "json \<Rightarrow> bool"
  and json_wf_list :: "json list \<Rightarrow> bool"
  and json_wf_fields :: "(jsstring \<times> json) list \<Rightarrow> bool" where
  "json_wf (JArr vs) = json_wf_list vs"
| "json_wf (JObj ps) = (jm_wf ps \<and> json_wf_fields ps)"
| "json_wf (JStr s) = True"
| "json_wf JNull = True"
| "json_wf (JBool b) = True"
| "json_wf (JNum q) = True"
| "json_wf_list [] = True"
| "json_wf_list (v # vs) = (json_wf v \<and> json_wf_list vs)"
| "json_wf_fields [] = True"
| "json_wf_fields ((k, v) # ps) = (json_wf v \<and> json_wf_fields ps)"

lemma jm_set_new: "k \<notin> fst ` set m \<Longrightarrow> jm_set k v m = m @ [(k, v)]"
  unfolding jm_set_def by (induction m) auto

lemma nul_free_fields_set:
  "nul_free_fields m \<Longrightarrow> nul_free v \<Longrightarrow> CHR 0x00 \<notin> set k \<Longrightarrow> k \<notin> set FORBIDDEN_KEYS \<Longrightarrow> nul_free_fields (jm_set k v m)"
  unfolding jm_set_def by (induction m) auto

lemma json_wf_fields_set:
  "json_wf_fields m \<Longrightarrow> json_wf v \<Longrightarrow> json_wf_fields (jm_set k v m)"
  unfolding jm_set_def by (induction m) auto

lemma strip_nul_str_free [simp]: "CHR 0x00 \<notin> set (strip_nul_str s)"
  by (simp add: strip_nul_str_def)

lemma strip_nul_str_id [simp]: "CHR 0x00 \<notin> set s \<Longrightarrow> strip_nul_str s = s"
  unfolding strip_nul_str_def by (rule filter_True) auto

lemma stripNul_free:
  "nul_free (stripNul v)" "nul_free_list (stripNul_list vs)"
  "nul_free_fields out \<Longrightarrow> nul_free_fields (stripNul_fields out ps)"
  by (induction v and vs and out ps rule: stripNul_stripNul_list_stripNul_fields.induct)
    (simp_all add: Let_def nul_free_fields_set)

lemma stripNul_wf:
  "json_wf (stripNul v)" "json_wf_list (stripNul_list vs)"
  "jm_wf out \<Longrightarrow> json_wf_fields out \<Longrightarrow> jm_wf (stripNul_fields out ps) \<and> json_wf_fields (stripNul_fields out ps)"
  by (induction v and vs and out ps rule: stripNul_stripNul_list_stripNul_fields.induct)
    (simp_all add: Let_def json_wf_fields_set jm.ok_put)

lemma stripNul_id:
  "nul_free v \<Longrightarrow> json_wf v \<Longrightarrow> stripNul v = v"
  "nul_free_list vs \<Longrightarrow> json_wf_list vs \<Longrightarrow> stripNul_list vs = vs"
  "nul_free_fields ps \<Longrightarrow> json_wf_fields ps \<Longrightarrow> jm_wf (out @ ps) \<Longrightarrow> stripNul_fields out ps = out @ ps"
proof (induction v and vs and out ps rule: stripNul_stripNul_list_stripNul_fields.induct)
  case (10 out k v ps)
  then have "jm_set k v out = out @ [(k, v)]" by (intro jm_set_new) auto
  with 10 show ?case by (simp add: Let_def)
qed simp_all

text \<open>
  The cleaned value holds no NUL in any string or key and no key that could replace a
  prototype, at any depth, even when a NUL hid one; cleaning a clean value changes nothing.
\<close>

theorem stripNul_clean:
  "nul_free (stripNul v) \<and> stripNul (stripNul v) = stripNul v"
  using stripNul_free(1) stripNul_wf(1) stripNul_id(1) by blast

end
