(* ===== verification/Agents.thy ===== *)
theory Agents imports EnrollmentSafety RamStores Validation begin

text \<open>
  What an approved Linux agent may do: check in (\<open>linux/lib/checkin.js\<close>), report a run
  (\<open>linux/lib/reports.js\<close>), escrow a secret (\<open>linux/lib/escrow.js\<close>), and how a secret is
  revealed (\<open>linux/lib/recovery-keys.js\<close>, fail-closed).

  \<open>JSON.parse\<close>, the RSA decryption and the sha256 of the git tokens are parameters; the
  git mirror is the record of what its methods return.
\<close>

section \<open>Check-in\<close>

definition CHECKIN_INTERVAL_S :: nat where "CHECKIN_INTERVAL_S = 900"
definition GIT_TOKEN_TTL_MS :: time where "GIT_TOKEN_TTL_MS = 600000"
definition RETRY_AFTER_S :: nat where "RETRY_AFTER_S = 60"
definition GIT_PATH :: jsstring where "GIT_PATH = ''/api/linux/agent/git/fleet.git''"

definition fleetGitUrl :: "jsstring option \<Rightarrow> jsstring" where
  "fleetGitUrl frontend_url =
     rev (dropWhile (\<lambda>c. c = CHR ''/'') (rev (js_trim (or_else frontend_url [])))) @ GIT_PATH"

definition parseBackupConfirmation :: "(jsstring \<Rightarrow> json option) \<Rightarrow> jsstring option \<Rightarrow> json option" where
  "parseBackupConfirmation parse value =
     (if \<not> truthy value then None
      else case jprop (parse (the value)) ''key_id'' of Some (JStr _) \<Rightarrow> parse (the value) | _ \<Rightarrow> None)"

datatype escrow_state = Escrow_ok | Escrow_unavailable | Backup_unconfirmed

text \<open>\<open>lapsKey.info()\<close>: \<open>Escrow_ok\<close> with the key, or \<open>Escrow_unavailable\<close> with nulls.\<close>

record escrow_info =
  ex_status :: escrow_state
  ex_pem :: "jsstring option"
  ex_key_id :: "jsstring option"
  ex_bits :: "nat option"

definition backup_key :: "json option \<Rightarrow> jsstring option" where
  "backup_key b = (case jprop b ''key_id'' of Some (JStr s) \<Rightarrow> Some s | _ \<Rightarrow> None)"

record assignment =
  as_device :: uuid
  as_hostname :: jsstring
  as_profile :: "jsstring option"
  as_ring :: "ring option"
  as_revision :: "jsstring option"
  as_git :: "(jsstring \<times> jsstring \<times> time) option"
  as_escrow :: "escrow_state \<times> jsstring option \<times> jsstring option"
  as_needed :: "jsstring list"
  as_admin :: jsstring
  as_rotate :: bool
  as_interval :: nat
  as_retry :: "nat option"

definition buildAssignment ::
    "device \<Rightarrow> bool \<Rightarrow> (ring \<Rightarrow> jsstring option) \<Rightarrow> jsstring \<Rightarrow> jsstring \<times> time \<Rightarrow> escrow_info \<Rightarrow> json option
      \<Rightarrow> bool \<Rightarrow> bool \<Rightarrow> credential option \<Rightarrow> jsstring option \<Rightarrow> jsstring \<Rightarrow> assignment" where
  "buildAssignment dev ready heads url token info backup luks has_key cred escrow_key admin =
     (let st = (if ex_status info = Escrow_ok \<and> (backup = None \<or> backup_key backup \<noteq> ex_key_id info)
                then Backup_unconfirmed else ex_status info);
          needed = (if ex_status info = Escrow_unavailable then []
                    else (if luks \<and> \<not> has_key then [''luks_recovery''] else []) @
                         (if cred = None \<or> escrow_key \<noteq> ex_key_id info then [''local_admin''] else []));
          head = Option.bind (dv_ring dev) heads
      in \<lparr>as_device = dv_id dev, as_hostname = dv_hostname dev, as_profile = dv_profile dev, as_ring = dv_ring dev,
          as_revision = (if truthy head then head else None),
          as_git = (if ready then Some (url, fst token, snd token) else None),
          as_escrow = (st, ex_pem info, ex_key_id info), as_needed = needed, as_admin = admin,
          as_rotate = (Option.bind cred cr_rotation_at \<noteq> None),
          as_interval = CHECKIN_INTERVAL_S, as_retry = (if ready then None else Some RETRY_AFTER_S)\<rparr>)"

record checkin_body =
  cb_serial :: "jsstring option"
  cb_hostname :: "jsstring option"
  cb_os :: "jsstring option"
  cb_agent :: "jsstring option"
  cb_luks_root :: bool
  cb_disk :: "rat option"
  cb_escrow_key :: "jsstring option"

record mirror =
  mi_serving :: bool
  mi_heads :: "ring \<Rightarrow> jsstring option"

text \<open>The in-memory state of the agent routes: the mismatch throttle and the git tokens.\<close>

record agent_ram =
  ar_mismatch :: "uuid rate_hits"
  ar_tokens :: git_tokens

definition mismatch_limit :: rate_config where
  "mismatch_limit = \<lparr>rc_max = 1, rc_window = 3600000, rc_max_entries = 10000\<rparr>"

datatype checkin_result = Serial_refused | Assigned assignment

definition touch_key :: "time \<Rightarrow> checkin_body \<Rightarrow> lkey \<Rightarrow> lkey" where
  "touch_key now body k =
     k\<lparr>lk_last_seen := now, lk_agent := cb_agent body, lk_os := cb_os body, lk_luks_root := cb_luks_root body,
       lk_serial := first_some (lk_serial k) (normalizeSerial (cb_serial body))\<rparr>"

definition touch_device :: "time \<Rightarrow> checkin_body \<Rightarrow> device \<Rightarrow> device" where
  "touch_device now body r = r\<lparr>dv_last_seen := Some now, dv_os := cb_os body, dv_disk_pct := cb_disk body\<rparr>"

definition setting_or :: "db \<Rightarrow> jsstring \<Rightarrow> jsstring \<Rightarrow> jsstring" where
  "setting_or d k dflt = (let v = jm_get (db_settings d) k in if truthy v then the v else dflt)"

definition has_recovery :: "uuid \<Rightarrow> jsstring option \<Rightarrow> recovery_key \<Rightarrow> bool" where
  "has_recovery dev kid r \<longleftrightarrow>
     rk_device r = dev \<and> rk_kind r = Luks_Recovery \<and> rk_superseded_at r = None \<and> Some (rk_key_id r) = kid"

text \<open>
  \<open>key\<close> is the row read when the request was authenticated, \<open>rnd\<close> the random hex of the
  token, \<open>clock\<close> the readings of \<open>Date.now()\<close>. The statements are separate: what was
  written before the exception (no pull device) stays written.
\<close>

definition checkin ::
    "(jsstring \<Rightarrow> jsstring) \<Rightarrow> (jsstring \<Rightarrow> json option) \<Rightarrow> jsstring \<Rightarrow> mirror \<Rightarrow> escrow_info \<Rightarrow> time \<Rightarrow> time \<Rightarrow> jsstring
      \<Rightarrow> lkey \<Rightarrow> checkin_body \<Rightarrow> db \<times> agent_ram \<Rightarrow> (db_error + checkin_result) \<times> db \<times> agent_ram" where
  "checkin hash parse url mi info now clock rnd key body st =
     (case st of (d, ram) \<Rightarrow>
      let serial = normalizeSerial (cb_serial body);
          actor = device_actor (lk_fp key) in
      if lk_serial key \<noteq> None \<and> serial \<noteq> None \<and> serial \<noteq> lk_serial key then
        (case rate_hit mismatch_limit clock (lk_id key) (ar_mismatch ram) of
           (r, hits) \<Rightarrow>
             (Inr Serial_refused,
              if is_allowed r then
                logAudit ''linux_key_serial_mismatch'' (Some actor) (lk_device key)
                  [(''level'', JStr ''warn''), (''key_id'', jid (lk_id key)), (''serial'', jserial serial),
                   (''expected'', jserial (lk_serial key)), (''hostname'', jserial (cb_hostname body))] now d
              else d,
              ram\<lparr>ar_mismatch := hits\<rparr>))
      else
        let d1 = d\<lparr>db_keys := update_rows (\<lambda>k. lk_id k = lk_id key) (touch_key now body) (db_keys d)\<rparr>;
            hit = (\<lambda>r. lk_device key = Some (dv_id r) \<and> dv_pull r);
            d2 = d1\<lparr>db_devices := update_rows hit (touch_device now body) (db_devices d1)\<rparr> in
        (case find hit (db_devices d2) of
           None \<Rightarrow> (Inl Row_missing, d2, ram)
         | Some dev \<Rightarrow>
             let ready = mi_serving mi;
                 cred = find (\<lambda>c. cr_device c = dv_id dev) (db_credentials d2);
                 has_key = list_ex (has_recovery (dv_id dev) (ex_key_id info)) (db_recovery d2);
                 (token, tokens) =
                   (if ready then git_create hash clock rnd (nat_str (dv_id dev)) (lk_fp key) GIT_TOKEN_TTL_MS (ar_tokens ram)
                    else (([], 0), ar_tokens ram)) in
             (Inr (Assigned (buildAssignment dev ready (mi_heads mi) url token info
                (parseBackupConfirmation parse (jm_get (db_settings d2) ''linux.escrow_backup_confirmed''))
                (cb_luks_root body) has_key cred (cb_escrow_key body)
                (setting_or d2 ''agent.laps_recovery_username'' ''opale-recovery''))),
              d2, ram\<lparr>ar_tokens := tokens\<rparr>)))"

section \<open>Reports\<close>

definition ERROR_SUMMARY_MAX :: nat where "ERROR_SUMMARY_MAX = 1024"
definition LOG_TAIL_MAX_BYTES :: nat where "LOG_TAIL_MAX_BYTES = 8192"
definition AGENT_VERSION_MAX :: nat where "AGENT_VERSION_MAX = 40"
definition PUSH_SUMMARY_MAX :: nat where "PUSH_SUMMARY_MAX = 200"

definition FAILING :: "apply_status list" where
  "FAILING = [Failed, Partial]"

datatype apply_change = To_failed | To_recovered

definition applyTransition :: "apply_status option \<Rightarrow> apply_status \<Rightarrow> apply_change option" where
  "applyTransition previous status =
     (let wasFailing = (case previous of None \<Rightarrow> False | Some p \<Rightarrow> p \<in> set FAILING);
          failing = (status \<in> set FAILING) in
      if failing \<and> \<not> wasFailing then Some To_failed
      else if \<not> failing \<and> wasFailing then Some To_recovered else None)"

record report_body =
  rb_revision :: "jsstring option"
  rb_status :: apply_status
  rb_started :: "time option"
  rb_finished :: "time option"
  rb_summary :: "jsstring option"
  rb_tail :: "code_points option"
  rb_agent :: "jsstring option"

text \<open>\<open>clipStr(stripNul(s), max)\<close> of a string or null.\<close>

definition clean_clip :: "nat \<Rightarrow> jsstring option \<Rightarrow> jsstring option" where
  "clean_clip mx s = map_option (\<lambda>s. take mx (strip_nul_str s)) s"

definition sanitizeReport :: "report_body \<Rightarrow> report_body" where
  "sanitizeReport b =
     \<lparr>rb_revision = rb_revision b, rb_status = rb_status b, rb_started = rb_started b, rb_finished = rb_finished b,
      rb_summary = clean_clip ERROR_SUMMARY_MAX (rb_summary b),
      rb_tail = (if rb_status b \<in> set FAILING
                 then map_option (\<lambda>t. truncateMiddle (filter (\<lambda>c. c \<noteq> 0) t) LOG_TAIL_MAX_BYTES) (rb_tail b) else None),
      rb_agent = clean_clip AGENT_VERSION_MAX (rb_agent b)\<rparr>"

record report_outcome =
  ro_id :: uuid
  ro_received :: time
  ro_transition :: "apply_change option"
  ro_device :: uuid
  ro_hostname :: jsstring
  ro_revision :: "jsstring option"
  ro_summary :: "jsstring option"

definition change_action :: "apply_change \<Rightarrow> jsstring \<times> jsstring" where
  "change_action c = (case c of To_failed \<Rightarrow> (''linux_apply_failed'', ''error'')
                              | To_recovered \<Rightarrow> (''linux_apply_recovered'', ''info''))"

definition apply_row :: "report_body \<Rightarrow> device \<Rightarrow> device" where
  "apply_row rep r =
     r\<lparr>dv_last_revision := rb_revision rep, dv_apply_status := Some (rb_status rep), dv_apply_at := rb_finished rep,
       dv_ok_revision := (if rb_status rep = Success then rb_revision rep else dv_ok_revision r)\<rparr>"

definition report_tx :: "time \<Rightarrow> uuid \<Rightarrow> jsstring \<Rightarrow> report_body \<Rightarrow> db \<Rightarrow> db_error + report_outcome \<times> db" where
  "report_tx now dev fp body d =
     (let rep = sanitizeReport body in
      case find (\<lambda>r. dv_id r = dev \<and> dv_pull r) (db_devices d) of
        None \<Rightarrow> Inl Row_missing
      | Some device \<Rightarrow>
          let change = applyTransition (dv_apply_status device) (rb_status rep);
              row = \<lparr>rp_id = db_next d, rp_device = dev, rp_revision = rb_revision rep, rp_status = rb_status rep,
                     rp_started_at = rb_started rep, rp_finished_at = rb_finished rep, rp_summary = rb_summary rep,
                     rp_tail = rb_tail rep, rp_agent = rb_agent rep, rp_received_at = now\<rparr>;
              d1 = d\<lparr>db_reports := db_reports d @ [row], db_next := db_next d + 1,
                     db_devices := update_rows (\<lambda>r. dv_id r = dev) (apply_row rep) (db_devices d)\<rparr>;
              d2 = (case change of None \<Rightarrow> d1
                    | Some c \<Rightarrow>
                        logAudit (fst (change_action c)) (Some (device_actor fp)) (Some dev)
                          ([(''level'', JStr (snd (change_action c))), (''revision'', jserial (rb_revision rep)),
                            (''hostname'', JStr (dv_hostname device))] @
                           (if c = To_failed then [(''error_summary'', jserial (rb_summary rep))] else [])) now d1)
          in Inr (\<lparr>ro_id = rp_id row, ro_received = now, ro_transition = change, ro_device = dev,
                   ro_hostname = dv_hostname device, ro_revision = rb_revision rep, ro_summary = rb_summary rep\<rparr>, d2))"

definition recordReport :: "time \<Rightarrow> uuid \<Rightarrow> jsstring \<Rightarrow> report_body \<Rightarrow> db \<Rightarrow> (db_error + report_outcome) \<times> db" where
  "recordReport now dev fp body d = transaction (\<lambda>_. False) (report_tx now dev fp body) d"

text \<open>\<open>ORDER BY started_at DESC NULLS LAST, received_at DESC\<close>, then the page.\<close>

definition report_before :: "report_row \<Rightarrow> report_row \<Rightarrow> bool" where
  "report_before a b \<longleftrightarrow>
     (case (rp_started_at a, rp_started_at b) of
        (Some s, Some t) \<Rightarrow> t < s \<or> (s = t \<and> rp_received_at b \<le> rp_received_at a)
      | (Some _, None) \<Rightarrow> True
      | (None, Some _) \<Rightarrow> False
      | (None, None) \<Rightarrow> rp_received_at b \<le> rp_received_at a)"

fun report_insert :: "report_row \<Rightarrow> report_row list \<Rightarrow> report_row list" where
  "report_insert r [] = [r]"
| "report_insert r (x # xs) = (if report_before r x then r # x # xs else x # report_insert r xs)"

definition listReports ::
    "uuid \<Rightarrow> apply_status option \<Rightarrow> nat \<Rightarrow> nat \<Rightarrow> db \<Rightarrow> (report_row list \<times> nat) option" where
  "listReports dev status limit offset d =
     (if \<not> list_ex (\<lambda>r. dv_id r = dev \<and> dv_pull r) (db_devices d) then None
      else
        let rows = filter (\<lambda>r. rp_device r = dev \<and> (case status of None \<Rightarrow> True | Some s \<Rightarrow> rp_status r = s)) (db_reports d);
            page = take limit (drop offset (foldr report_insert rows []))
        in Some (page, if page = [] then 0 else length rows))"

text \<open>The alerts of a failure, in the order they are started.\<close>

datatype alert =
    Push jsstring jsstring "jsstring option" uuid
  | Apply_proposal uuid jsstring "jsstring option" "jsstring option" uuid
  | Ticket_event uuid jsstring "jsstring option"

definition short_revision :: "jsstring option \<Rightarrow> jsstring" where
  "short_revision rv = (if truthy rv then js_slice (the rv) 0 7 else ''unknown'')"

definition alertApplyFailure :: "bool \<Rightarrow> db \<Rightarrow> report_outcome \<Rightarrow> alert list" where
  "alertApplyFailure tickets_module d o1 =
     (if jm_get (db_settings d) ''linux.alerts_enabled'' \<noteq> Some ''true'' then []
      else
        [Push (ro_hostname o1) (short_revision (ro_revision o1))
           (map_option (take PUSH_SUMMARY_MAX) (ro_summary o1)) (ro_device o1)] @
        (if tickets_module then
           [Apply_proposal (ro_device o1) (ro_hostname o1) (ro_revision o1) (ro_summary o1) (ro_id o1),
            Ticket_event (ro_device o1) (short_revision (ro_revision o1)) (ro_summary o1)]
         else []))"

section \<open>Escrow of a secret\<close>

definition CIPHERTEXT_MIN :: nat where "CIPHERTEXT_MIN = 200"
definition CIPHERTEXT_MAX :: nat where "CIPHERTEXT_MAX = 1024"
definition ROTATED_AT_MAX_SKEW_MS :: time where "ROTATED_AT_MAX_SKEW_MS = 5 * 60000"

datatype escrow_code =
    ESCROW_UNAVAILABLE | ESCROW_KEY_MISMATCH | CIPHERTEXT_SIZE | ROTATED_AT_IN_FUTURE
  | USERNAME_MISMATCH | ESCROW_STALE | ESCROW_BACKUP_UNCONFIRMED

definition decodeCiphertext :: "jsstring \<Rightarrow> bytes option" where
  "decodeCiphertext b64 =
     (let buf = b64_dec b64 in
      if CIPHERTEXT_MIN \<le> length buf \<and> length buf \<le> CIPHERTEXT_MAX then Some buf else None)"

datatype escrow_kind =
    Local_admin jsstring time  \<comment> \<open>\<open>username\<close>, \<open>rotated_at\<close>\<close>
  | Luks_recovery jsstring     \<comment> \<open>\<open>label\<close>\<close>

record escrow_body =
  eb_kind :: escrow_kind
  eb_key_id :: jsstring
  eb_ciphertext :: jsstring

definition checkEscrowRequest :: "escrow_body \<Rightarrow> escrow_info \<Rightarrow> (nat \<times> escrow_code) + bytes" where
  "checkEscrowRequest body info =
     (if ex_status info \<noteq> Escrow_ok then Inl (503, ESCROW_UNAVAILABLE)
      else if Some (eb_key_id body) \<noteq> ex_key_id info then Inl (409, ESCROW_KEY_MISMATCH)
      else case decodeCiphertext (eb_ciphertext body) of
             None \<Rightarrow> Inl (400, CIPHERTEXT_SIZE)
           | Some c \<Rightarrow> Inr c)"

datatype escrow_ack = Admin_ack "jsstring option" time | Luks_ack uuid "jsstring option" time

definition escrow_admin ::
    "time \<Rightarrow> lkey \<Rightarrow> uuid \<Rightarrow> jsstring \<Rightarrow> time \<Rightarrow> bytes \<Rightarrow> escrow_info \<Rightarrow> db \<Rightarrow> ((nat \<times> escrow_code) + escrow_ack) \<times> db" where
  "escrow_admin now key dev usr rotated c info d =
     (if usr \<noteq> setting_or d ''agent.laps_recovery_username'' ''opale-recovery''
      then (Inl (400, USERNAME_MISMATCH), d)
      else
        let row = \<lparr>cr_device = dev, cr_username = usr, cr_password = c, cr_changed_at = rotated, cr_rotation_at = None\<rparr>;
            stored = (\<lambda>d1. (Inr (Admin_ack (ex_key_id info) rotated),
              logAudit ''laps_rotated'' (Some (device_actor (lk_fp key))) (Some dev) [(''username'', JStr usr)] now d1)) in
        (case find (\<lambda>r. cr_device r = dev) (db_credentials d) of
           None \<Rightarrow> stored (d\<lparr>db_credentials := db_credentials d @ [row]\<rparr>)
         | Some old \<Rightarrow>
             if cr_changed_at old < rotated
             then stored (d\<lparr>db_credentials := update_rows (\<lambda>r. cr_device r = dev) (\<lambda>_. row) (db_credentials d)\<rparr>)
             else (Inl (409, ESCROW_STALE), d)))"

definition luks_row :: "uuid \<Rightarrow> uuid \<Rightarrow> jsstring \<Rightarrow> bytes \<Rightarrow> jsstring option \<Rightarrow> time \<Rightarrow> recovery_key" where
  "luks_row i dev label c kid now =
     \<lparr>rk_id = i, rk_device = dev, rk_kind = Luks_Recovery, rk_label = label, rk_ciphertext = c,
      rk_key_id = or_else kid [], rk_created_at = now, rk_superseded_at = None, rk_viewed_at = None, rk_viewed_by = None\<rparr>"

definition superseded_by :: "uuid \<Rightarrow> uuid \<Rightarrow> jsstring \<Rightarrow> recovery_key \<Rightarrow> bool" where
  "superseded_by i dev label r \<longleftrightarrow>
     rk_device r = dev \<and> rk_kind r = Luks_Recovery \<and> rk_label r = label \<and> rk_superseded_at r = None \<and> rk_id r \<noteq> i"

definition supersede_row :: "time \<Rightarrow> recovery_key \<Rightarrow> recovery_key" where
  "supersede_row now r = r\<lparr>rk_superseded_at := Some now\<rparr>"

text \<open>
  The transaction of a LUKS escrow: the row it inserts is its own until the COMMIT; its UPDATE
  works on the rows that are committed when it starts, and leaves out those that another
  transaction superseded by then.
\<close>

definition luks_update :: "uuid \<Rightarrow> uuid \<Rightarrow> jsstring \<Rightarrow> db \<Rightarrow> uuid list" where
  "luks_update i dev label d = map rk_id (filter (superseded_by i dev label) (db_recovery d))"

definition luks_commit :: "time \<Rightarrow> recovery_key \<Rightarrow> uuid list \<Rightarrow> db \<Rightarrow> db" where
  "luks_commit now row ids d =
     d\<lparr>db_recovery :=
         update_rows (\<lambda>r. rk_id r \<in> set ids \<and> rk_superseded_at r = None) (supersede_row now) (db_recovery d) @ [row]\<rparr>"

text \<open>
  \<open>during\<close> is what other requests commit between its INSERT and its UPDATE, \<open>meanwhile\<close> what they
  commit between its UPDATE and its COMMIT: no lock and no unique index keeps them out.
\<close>

definition escrow_luks ::
    "(jsstring \<Rightarrow> json option) \<Rightarrow> time \<Rightarrow> lkey \<Rightarrow> uuid \<Rightarrow> jsstring \<Rightarrow> bytes \<Rightarrow> escrow_info \<Rightarrow> (db \<Rightarrow> db) \<Rightarrow> (db \<Rightarrow> db) \<Rightarrow> db
      \<Rightarrow> ((nat \<times> escrow_code) + escrow_ack) \<times> db" where
  "escrow_luks parse now key dev label c info during meanwhile d =
     (let backup = parseBackupConfirmation parse (jm_get (db_settings d) ''linux.escrow_backup_confirmed'') in
      if backup = None \<or> backup_key backup \<noteq> ex_key_id info then (Inl (409, ESCROW_BACKUP_UNCONFIRMED), d)
      else
        let row = luks_row (db_next d) dev label c (ex_key_id info) now;
            d1 = during (d\<lparr>db_next := db_next d + 1\<rparr>);
            ids = luks_update (rk_id row) dev label d1 in
        (Inr (Luks_ack (rk_id row) (ex_key_id info) now),
         logAudit ''linux_recovery_key_escrowed'' (Some (device_actor (lk_fp key))) (Some dev)
           [(''label'', JStr label), (''key_id'', jserial (ex_key_id info))] now
           (luks_commit now row ids (meanwhile d1))))"

text \<open>An approved key has a device (\<open>key.device_id\<close>); without one the insert violates NOT NULL.\<close>

definition escrowSecret ::
    "(jsstring \<Rightarrow> json option) \<Rightarrow> time \<Rightarrow> time \<Rightarrow> lkey \<Rightarrow> escrow_body \<Rightarrow> escrow_info \<Rightarrow> (db \<Rightarrow> db) \<Rightarrow> (db \<Rightarrow> db) \<Rightarrow> db
      \<Rightarrow> (db_error + (nat \<times> escrow_code) + escrow_ack) \<times> db" where
  "escrowSecret parse now clock key body info during meanwhile d =
     (case checkEscrowRequest body info of
        Inl r \<Rightarrow> (Inr (Inl r), d)
      | Inr c \<Rightarrow>
          (case (eb_kind body, lk_device key) of
             (Local_admin usr rotated, dev) \<Rightarrow>
               if rotated > clock + ROTATED_AT_MAX_SKEW_MS then (Inr (Inl (400, ROTATED_AT_IN_FUTURE)), d)
               else (case dev of None \<Rightarrow> (Inl Row_missing, d)
                     | Some i \<Rightarrow> (case escrow_admin now key i usr rotated c info d of (r, d') \<Rightarrow> (Inr r, d')))
           | (Luks_recovery label, dev) \<Rightarrow>
               (case dev of None \<Rightarrow> (Inl Row_missing, d)
                | Some i \<Rightarrow>
                    (case escrow_luks parse now key i label c info during meanwhile d of (r, d') \<Rightarrow> (Inr r, d')))))"

text \<open>\<open>POST /escrow/confirm-backup\<close> (\<open>linux/routes/escrow.js\<close>); \<open>to_json\<close> is \<open>JSON.stringify\<close>.\<close>

definition confirmBackup ::
    "(json \<Rightarrow> jsstring) \<Rightarrow> time \<Rightarrow> jsstring \<Rightarrow> jsstring \<Rightarrow> jsstring \<Rightarrow> escrow_info \<Rightarrow> db \<Rightarrow> bool \<times> db" where
  "confirmBackup to_json now actor stamp key_id info d =
     (if \<not> truthy (ex_key_id info) \<or> Some key_id \<noteq> ex_key_id info then (False, d)
      else (True,
        logAudit ''linux_escrow_backup_confirmed'' (Some actor) None [(''key_id'', JStr key_id)] now
          (d\<lparr>db_settings := jm_set ''linux.escrow_backup_confirmed''
                (to_json (JObj [(''key_id'', JStr key_id), (''by'', JStr actor), (''at'', JStr stamp)]))
                (db_settings d)\<rparr>)))"

section \<open>Recovery keys\<close>

definition rk_current :: "jsstring option \<Rightarrow> recovery_key \<Rightarrow> bool" where
  "rk_current kid r \<longleftrightarrow> rk_superseded_at r = None \<and> Some (rk_key_id r) = kid"

text \<open>\<open>ORDER BY current DESC, created_at DESC, id\<close>.\<close>

definition rk_before :: "jsstring option \<Rightarrow> recovery_key \<Rightarrow> recovery_key \<Rightarrow> bool" where
  "rk_before kid a b \<longleftrightarrow>
     (rk_current kid a \<and> \<not> rk_current kid b) \<or>
     (rk_current kid a = rk_current kid b \<and>
        (rk_created_at b < rk_created_at a \<or> (rk_created_at a = rk_created_at b \<and> rk_id a \<le> rk_id b)))"

fun rk_insert :: "jsstring option \<Rightarrow> recovery_key \<Rightarrow> recovery_key list \<Rightarrow> recovery_key list" where
  "rk_insert kid r [] = [r]"
| "rk_insert kid r (x # xs) = (if rk_before kid r x then r # x # xs else x # rk_insert kid r xs)"

record key_meta =
  km_id :: uuid
  km_kind :: secret_kind
  km_label :: jsstring
  km_key_id :: jsstring
  km_created_at :: time
  km_superseded_at :: "time option"
  km_current :: bool
  km_viewed_at :: "time option"
  km_viewed_by_name :: "jsstring option"

definition key_meta_of :: "db \<Rightarrow> jsstring option \<Rightarrow> recovery_key \<Rightarrow> key_meta" where
  "key_meta_of d kid r =
     \<lparr>km_id = rk_id r, km_kind = rk_kind r, km_label = rk_label r, km_key_id = rk_key_id r,
      km_created_at = rk_created_at r, km_superseded_at = rk_superseded_at r, km_current = rk_current kid r,
      km_viewed_at = rk_viewed_at r,
      km_viewed_by_name = Option.bind (find (\<lambda>u. Some (us_id u) = rk_viewed_by r) (db_users d)) us_name\<rparr>"

definition recoveryKeyRows :: "db \<Rightarrow> uuid \<Rightarrow> jsstring option \<Rightarrow> key_meta list" where
  "recoveryKeyRows d dev kid =
     map (key_meta_of d kid) (foldr (rk_insert kid) (filter (\<lambda>r. rk_device r = dev) (db_recovery d)) [])"

definition listRecoveryKeys :: "db \<Rightarrow> uuid \<Rightarrow> jsstring option \<Rightarrow> key_meta list option" where
  "listRecoveryKeys d dev kid =
     (if list_ex (\<lambda>r. dv_id r = dev \<and> dv_pull r) (db_devices d) then Some (recoveryKeyRows d dev kid) else None)"

record secret =
  sc_kind :: secret_kind
  sc_label :: jsstring
  sc_value :: bytes
  sc_key_id :: jsstring
  sc_created_at :: time

datatype reveal_error = Reveal_not_found | Decrypt_failed | Audit_failed

text \<open>
  \<open>decrypt\<close> is the private key's decryption (\<open>None\<close> when the key cannot be read or the
  ciphertext is not for it); \<open>audit_ok\<close> tells whether the transaction with the audit row
  commits.
\<close>

definition revealRecoveryKey ::
    "(bytes \<Rightarrow> bytes option) \<Rightarrow> bool \<Rightarrow> time \<Rightarrow> uuid \<Rightarrow> uuid \<Rightarrow> jsstring \<Rightarrow> jsstring \<Rightarrow> jsstring \<Rightarrow> db
      \<Rightarrow> (reveal_error + secret) \<times> db" where
  "revealRecoveryKey decrypt audit_ok now dev kid by_user viewer reason d =
     (case find (\<lambda>r. rk_id r = kid \<and> rk_device r = dev) (db_recovery d) of
        None \<Rightarrow> (Inl Reveal_not_found, d)
      | Some row \<Rightarrow>
          let details = [(''label'', JStr (rk_label row)), (''key_id'', JStr (rk_key_id row)), (''reason'', JStr reason)] in
          (case decrypt (rk_ciphertext row) of
             None \<Rightarrow> (Inl Decrypt_failed,
               logAudit ''linux_recovery_key_viewed'' (Some by_user) (Some dev)
                 (details @ [(''outcome'', JStr ''failed'')]) now d)
           | Some plain \<Rightarrow>
               if \<not> audit_ok then (Inl Audit_failed, d)
               else
                 (Inr \<lparr>sc_kind = rk_kind row, sc_label = rk_label row, sc_value = plain, sc_key_id = rk_key_id row,
                       sc_created_at = rk_created_at row\<rparr>,
                  (insertAudit ''linux_recovery_key_viewed'' (Some by_user) (Some dev)
                     (details @ [(''outcome'', JStr ''ok'')]) now d)
                    \<lparr>db_recovery := update_rows (\<lambda>r. rk_id r = rk_id row)
                        (\<lambda>r. r\<lparr>rk_viewed_at := Some now, rk_viewed_by := Some viewer\<rparr>) (db_recovery d)\<rparr>)))"

end
