(* ===== verification/Fleet.thy ===== *)
theory Fleet imports Agents begin

text \<open>
  The Linux fleet as a transition system: one step per route or agent request, its
  invariant, the life of a key along any run, and what each decision guarantees.
\<close>

section \<open>The agent's requests keep the invariant\<close>







section \<open>Bulk decisions\<close>

lemma approveEnrollment_refused:
  assumes "approveEnrollment now actor i body d = (Inr (Inl rf), d')" shows "d' = d"
proof -
  obtain r d1 where tx: "transaction refused (approve_body_tx now actor i body) d = (r, d1)" by fastforce
  with assms have "d' = d1" and "(\<exists>e. r = Inl e) \<or> r = Inr (Inl rf)"
    by (auto simp: approveEnrollment_def split: sum.splits db_error.splits)
  from this(2) have "d1 = d"
  proof
    assume "\<exists>e. r = Inl e"
    with tx show ?thesis using transaction_error by blast
  next
    assume "r = Inr (Inl rf)"
    from transaction_refused [OF tx [unfolded this]] show ?thesis by (simp add: refused_def)
  qed
  with \<open>d' = d1\<close> show ?thesis by simp
qed

lemma rejectEnrollment_refused:
  "rejectEnrollment now actor i reason d = (Inr (Inl rf), d') \<Longrightarrow> d' = d"
  unfolding rejectEnrollment_def by (erule transaction_refused) (simp add: refused_def)

lemma item_code_refused: "item_code r = Inr (Some c) \<Longrightarrow> \<exists>rf. r = Inr (Inl rf)"
  by (auto simp: item_code_def split: sum.splits)

interpretation approvals: bulk_op "approve_item now actor prof rg" fleet_inv
proof
  fix s s' r and it :: "uuid \<times> (jsstring + jsstring)"
  assume "fleet_inv s" "approve_item now actor prof rg it s = (r, s')"
  then show "fleet_inv s'"
    by (auto simp: approve_item_def fleet_safe_def split: sum.splits prod.splits dest: approveEnrollment_safe)
next
  fix s s' c and it :: "uuid \<times> (jsstring + jsstring)"
  assume "approve_item now actor prof rg it s = (Inr (Some c), s')"
  then show "s' = s"
    by (auto simp: approve_item_def split: sum.splits prod.splits dest!: item_code_refused approveEnrollment_refused)
qed

interpretation rejections: bulk_op "reject_item now actor reason" fleet_inv
proof
  fix s s' r i
  assume "fleet_inv s" "reject_item now actor reason i s = (r, s')"
  then show "fleet_inv s'"
    by (auto simp: reject_item_def fleet_safe_def split: prod.splits dest: rejectEnrollment_safe)
next
  fix s s' c i
  assume "reject_item now actor reason i s = (Inr (Some c), s')"
  then show "s' = s"
    by (auto simp: reject_item_def split: prod.splits dest!: item_code_refused rejectEnrollment_refused)
qed




section \<open>The other routes on these tables\<close>

text \<open>
  Rows of \<open>linux_device_keys\<close> that go: a reservation they consumed stays consumed, without its
  key (\<open>ON DELETE SET NULL\<close>).
\<close>

definition forget_keys :: "(lkey \<Rightarrow> bool) \<Rightarrow> db \<Rightarrow> db" where
  "forget_keys gone d =
     d\<lparr>db_keys := filter (\<lambda>k. \<not> gone k) (db_keys d),
       db_preregs := map (\<lambda>p. case pr_consumed p of
            Some (t, Some i) \<Rightarrow> if list_ex (\<lambda>k. gone k \<and> lk_id k = i) (db_keys d) then p\<lparr>pr_consumed := Some (t, None)\<rparr> else p
          | _ \<Rightarrow> p) (db_preregs d)\<rparr>"

definition DAY_MS :: int where "DAY_MS = 86400000"

text \<open>The rules of \<open>lib/retention.js\<close> on the tables of this model, as the daily purge runs them.\<close>

definition runCleanup :: "time \<Rightarrow> db \<Rightarrow> db" where
  "runCleanup now d =
     forget_keys (\<lambda>k. lk_last_seen k < now - 7 * DAY_MS \<and> lk_status k = Pending)
       (d\<lparr>db_audit := filter (\<lambda>r. \<not> au_at r < now - 365 * DAY_MS) (db_audit d),
          db_reports := filter (\<lambda>r. \<not> rp_received_at r < now - 90 * DAY_MS) (db_reports d)\<rparr>)"

text \<open>
  \<open>DELETE /api/devices/:id\<close>: the row and, through the foreign keys, everything of the machine.
  The audit names the host, which stands in the details here.
\<close>

definition deleteDevice :: "time \<Rightarrow> jsstring \<Rightarrow> uuid \<Rightarrow> db \<Rightarrow> device option \<times> db" where
  "deleteDevice now actor i d =
     (case find_device d i of
        None \<Rightarrow> (None, d)
      | Some r \<Rightarrow>
         (Some r, logAudit ''device_deleted'' (Some actor) None [(''target'', JStr (dv_hostname r))] now
            (forget_keys (\<lambda>k. lk_device k = Some i)
              (d\<lparr>db_devices := filter (\<lambda>r. dv_id r \<noteq> i) (db_devices d),
                 db_tokens := filter (\<lambda>t. tk_device t \<noteq> Some i) (db_tokens d),
                 db_credentials := filter (\<lambda>c. cr_device c \<noteq> i) (db_credentials d),
                 db_recovery := filter (\<lambda>k. rk_device k \<noteq> i) (db_recovery d),
                 db_reports := filter (\<lambda>p. rp_device p \<noteq> i) (db_reports d),
                 db_compliance := removeAll i (db_compliance d), db_disks := removeAll i (db_disks d),
                 db_interfaces := removeAll i (db_interfaces d), db_software := removeAll i (db_software d)\<rparr>))))"

text \<open>The machine a Windows agent creates when it exchanges its bootstrap under an unknown name.\<close>

definition insertAgentDevice :: "time \<Rightarrow> jsstring \<Rightarrow> jsstring option \<Rightarrow> db \<Rightarrow> db_error + device \<times> db" where
  "insertAgentDevice now h s d =
     (if list_ex (\<lambda>r. dv_hostname r = h) (db_devices d) then Inl (Unique_violation ''devices_hostname_key'')
      else if s \<noteq> None \<and> list_ex (\<lambda>r. dv_serial r = s) (db_devices d)
      then Inl (Unique_violation ''devices_serial_unique'')
      else let dev = \<lparr>dv_id = db_next d, dv_hostname = h, dv_serial = s, dv_platform = None, dv_pull = False,
              dv_source = Some ''agent'', dv_profile = None, dv_ring = None, dv_user = None, dv_os = None,
              dv_disk_pct = None, dv_last_seen = Some now, dv_last_revision = None, dv_ok_revision = None,
              dv_apply_status = None, dv_apply_at = None, dv_facts = cleared_facts\<rparr>
           in Inr (dev, d\<lparr>db_devices := db_devices d @ [dev], db_next := db_next d + 1\<rparr>))"

text \<open>
  Every other request of the program: it may write anything of this database but the keys of
  the Linux machines and \<open>managed_by\<close>, and it removes no machine. The check-in of a Windows agent
  (which creates a machine, or renames the one it finds), the Intune import, assignments,
  reservations, the settings and the COMMIT of an escrow that other requests overlap are of this
  kind; the base keeps its primary keys and the unique host name.
\<close>

definition other_write :: "db \<Rightarrow> db \<Rightarrow> bool" where
  "other_write d d' \<longleftrightarrow>
     db_keys d' = db_keys d \<and> db_next d \<le> db_next d' \<and>
     distinct (map dv_id (db_devices d')) \<and> distinct (map dv_hostname (db_devices d')) \<and>
     (\<forall>r \<in> set (db_devices d'). dv_id r < db_next d') \<and>
     (\<forall>r \<in> set (db_devices d). \<exists>r' \<in> set (db_devices d'). dv_id r' = dv_id r \<and> dv_pull r' = dv_pull r)"

lemma forget_keys_simps [simp]:
  "db_keys (forget_keys g d) = filter (\<lambda>k. \<not> g k) (db_keys d)" "db_devices (forget_keys g d) = db_devices d"
  "db_next (forget_keys g d) = db_next d"
  by (simp_all add: forget_keys_def)







section \<open>The transition system\<close>

text \<open>
  One constructor per route of an agent or an administrator that touches the fleet, the daily
  purge, the deletion of a machine, and what all the other requests may write.
\<close>

inductive fleet_step :: "db \<Rightarrow> db \<Rightarrow> bool" where
  step_enroll: "enrollDevice now clock inp d = (r1, d') \<Longrightarrow> fleet_step d d'"
| step_approve: "approveEnrollment now actor i body d = (r2, d') \<Longrightarrow> fleet_step d d'"
| step_reject: "rejectEnrollment now actor i reason d = (r3, d') \<Longrightarrow> fleet_step d d'"
| step_revoke: "revokeDeviceKey now actor i why d = (r4, d') \<Longrightarrow> fleet_step d d'"
| step_approve_bulk: "approveEnrollments now actor ids prof rg d = (r5, d') \<Longrightarrow> fleet_step d d'"
| step_reject_bulk: "rejectEnrollments now actor ids reason d = (r6, d') \<Longrightarrow> fleet_step d d'"
| step_checkin: "checkin hash parse url mi info now clock rnd key cbody (d, ram) = (r7, d', ram') \<Longrightarrow> fleet_step d d'"
| step_report: "recordReport now i fp rbody d = (r8, d') \<Longrightarrow> fleet_step d d'"
| step_escrow: "escrowSecret parse now clock key ebody info id id d = (r9, d') \<Longrightarrow> fleet_step d d'"
| step_cleanup: "fleet_step d (runCleanup now d)"
| step_delete: "deleteDevice now actor i d = (r10, d') \<Longrightarrow> fleet_step d d'"
| step_agent_insert: "insertAgentDevice now h s d = Inr (dev, d') \<Longrightarrow> fleet_step d d'"
| step_other: "other_write d d' \<Longrightarrow> fleet_step d d'"

inductive_cases fleet_stepE: "fleet_step d d'"









definition sample_input :: enroll_input where
  "sample_input =
     \<lparr>ei_fp = ''aa'', ei_public = [], ei_backing = ''tpm'', ei_serial = Some ''s1'', ei_hostname = None,
      ei_os = None, ei_agent = None, ei_ip = []\<rparr>"







text \<open>
  A decision that is refused or fails leaves the database as it was: nothing is
  half-approved, half-converted or half-revoked.
\<close>

theorem refused_decision_changes_nothing:
  "(approveEnrollment now actor i body d = (r, d') \<longrightarrow> (\<forall>ap. r \<noteq> Inr (Inr ap)) \<longrightarrow> d' = d) \<and>
   (rejectEnrollment now actor i reason d = (r1, d1) \<longrightarrow> (\<forall>k. r1 \<noteq> Inr (Inr k)) \<longrightarrow> d1 = d) \<and>
   (revokeDeviceKey now actor i why d = (r2, d2) \<longrightarrow> (\<forall>k. r2 \<noteq> Inr (Inr k)) \<longrightarrow> d2 = d)"
proof (intro conjI impI)
  assume run: "approveEnrollment now actor i body d = (r, d')" and no: "\<forall>ap. r \<noteq> Inr (Inr ap)"
  then consider e where "r = Inl e" | rf where "r = Inr (Inl rf)"
    by (metis sum.exhaust)
  then show "d' = d"
  proof cases
    case 1
    with run show ?thesis
      by (auto simp: approveEnrollment_def split: prod.splits sum.splits db_error.splits dest: transaction_error)
  next
    case 2
    with run approveEnrollment_refused show ?thesis by simp
  qed
next
  assume "rejectEnrollment now actor i reason d = (r1, d1)" and "\<forall>k. r1 \<noteq> Inr (Inr k)"
  then show "d1 = d"
    unfolding rejectEnrollment_def
    by (cases rule: transaction_cases) (auto simp: refused_def elim: is_inr.elims)
next
  assume "revokeDeviceKey now actor i why d = (r2, d2)" and "\<forall>k. r2 \<noteq> Inr (Inr k)"
  then show "d2 = d"
    unfolding revokeDeviceKey_def
    by (cases rule: transaction_cases) (auto simp: refused_def elim: is_inr.elims)
qed

theorem refused_decision_changes_nothing_witness:
  "snd (approveEnrollment 0 ''adm'' 7 (bulk_body ''p'' Pilot ''h'') empty_db) = empty_db"
proof -
  have "approveEnrollment 0 ''adm'' 7 (bulk_body ''p'' Pilot ''h'') empty_db = (Inr (Inl (refuse 404 NOT_FOUND No_details)), empty_db)"
    by (simp add: approveEnrollment_def approve_body_tx_def transaction_def find_key_def empty_db_def refused_def)
  from refused_decision_changes_nothing [THEN conjunct1, THEN mp, OF this] show ?thesis
    using \<open>approveEnrollment 0 ''adm'' 7 (bulk_body ''p'' Pilot ''h'') empty_db = _\<close> by simp
qed

section \<open>Approval\<close>

lemma approveEnrollment_done:
  assumes "approveEnrollment now actor i body d = (Inr (Inr ap), d')"
  shows "approve_body_tx now actor i body d = Inr (Inr ap, d')"
proof -
  obtain r d1 where tx: "transaction refused (approve_body_tx now actor i body) d = (r, d1)" by fastforce
  with assms have "d' = d1" "r = Inr (Inr ap)"
    by (auto simp: approveEnrollment_def split: sum.splits db_error.splits)
  with tx have "transaction refused (approve_body_tx now actor i body) d = (Inr (Inr ap), d')" by simp
  then show ?thesis
    by (rule transaction_okE) (simp_all add: refused_def)
qed

lemma approve_audit_rows [simp]:
  "db_keys (approve_audit now actor body key tg c dv d) = db_keys d"
  "db_devices (approve_audit now actor body key tg c dv d) = db_devices d"
  "db_tokens (approve_audit now actor body key tg c dv d) = db_tokens d"
  "db_compliance (approve_audit now actor body key tg c dv d) = db_compliance d"
  "db_disks (approve_audit now actor body key tg c dv d) = db_disks d"
  "db_interfaces (approve_audit now actor body key tg c dv d) = db_interfaces d"
  "db_software (approve_audit now actor body key tg c dv d) = db_software d"
  "db_preregs (approve_audit now actor body key tg c dv d) = db_preregs d"
  by (simp_all add: approve_audit_def Let_def split: option.splits)

lemma bindKey_other_rows:
  assumes "bindKey now key dev actor pre d = Inr (k, d')"
  shows "db_compliance d' = db_compliance d" "db_disks d' = db_disks d"
    "db_interfaces d' = db_interfaces d" "db_software d' = db_software d"
  using assms by (auto simp: bindKey_def Let_def split: if_splits option.splits)

lemma approve_device_other_rows:
  assumes "approve_device body key h usr dev d = Inr (dv, d')"
  shows "db_compliance d' = db_compliance d" "db_disks d' = db_disks d" "db_tokens d' = db_tokens d"
    "db_interfaces d' = db_interfaces d" "db_software d' = db_software d" "db_keys d' = db_keys d"
    "db_preregs d' = db_preregs d"
  using assms
  by (auto simp: approve_device_def createPullDevice_def Let_def split: option.splits if_splits)

text \<open>
  The device row a committed approval returns: it is in the database, Linux, managed by
  desired state, and it is the reused row or a new one with the serial the key claimed.
\<close>

lemma approve_device_result:
  assumes run: "approve_device body key h usr dev d = Inr (dv, d')"
  shows "dv \<in> set (db_devices d')" "dv_pull dv" "dv_platform dv = Some Linux" "dv_hostname dv = h"
    "dev = Some dv0 \<Longrightarrow> dv_id dv = dv_id dv0"
    "dev = None \<Longrightarrow> dv_serial dv = lk_serial key \<and> dv_id dv = db_next d"
proof -
  have "dv \<in> set (db_devices d') \<and> dv_pull dv \<and> dv_platform dv = Some Linux \<and> dv_hostname dv = h"
  proof (cases dev)
    case None
    with run have "createPullDevice h (lk_serial key) (ab_profile body) (ab_ring body) usr d = Inr (dv, d')"
      by (simp add: approve_device_def)
    from createPullDevice_rows [OF this] show "dv \<in> set (db_devices d') \<and> dv_pull dv \<and> dv_platform dv = Some Linux \<and> dv_hostname dv = h"
      by (simp add: new_pull_device_def)
  next
    case (Some dv0)
    from approve_device_rows [OF run [unfolded Some]]
    show "dv \<in> set (db_devices d') \<and> dv_pull dv \<and> dv_platform dv = Some Linux \<and> dv_hostname dv = h" by auto
  qed
  then show "dv \<in> set (db_devices d')" "dv_pull dv" "dv_platform dv = Some Linux" "dv_hostname dv = h" by simp_all
  show "dev = Some dv0 \<Longrightarrow> dv_id dv = dv_id dv0"
    using run approve_device_rows(3) by blast
  show "dev = None \<Longrightarrow> dv_serial dv = lk_serial key \<and> dv_id dv = db_next d"
    using run createPullDevice_rows(1) by (force simp: approve_device_def new_pull_device_def)
qed

text \<open>
  A committed approval. The request was pending and is now the only approved key of the
  device it returns; that device is Linux, managed by desired state, with a host name
  nobody else has; a reused device carries the serial number the key claimed.
\<close>

theorem approval_binds_the_key:
  assumes inv: "fleet_inv d" and run: "approveEnrollment now actor i body d = (Inr (Inr ap), d')"
  shows "\<exists>key. find_key d i = Some key \<and> lk_status key = Pending \<and>
    ap_key ap \<in> set (db_keys d') \<and> lk_id (ap_key ap) = i \<and> lk_status (ap_key ap) = Approved \<and>
    lk_device (ap_key ap) = Some (dv_id (ap_device ap)) \<and>
    (\<forall>k \<in> set (db_keys d'). lk_status k = Approved \<and> lk_device k = Some (dv_id (ap_device ap)) \<longrightarrow> k = ap_key ap) \<and>
    ap_device ap \<in> set (db_devices d') \<and> dv_pull (ap_device ap) \<and> dv_platform (ap_device ap) = Some Linux \<and>
    (\<forall>r \<in> set (db_devices d'). js_lower (dv_hostname r) = js_lower (dv_hostname (ap_device ap)) \<longrightarrow> r = ap_device ap) \<and>
    (\<forall>r \<in> set (db_devices d). dv_id r = dv_id (ap_device ap) \<longrightarrow> normalizeSerial (dv_serial r) = lk_serial key)"
  using approveEnrollment_done [OF run]
proof (cases rule: approve_tx_done)
  case (1 key m target dev cleared d1)
  have key: "key \<in> set (db_keys d)" "lk_id key = i" using find_keyD [OF 1(1)] by simp_all
  note t = approve_target_safe [OF inv key(1) 1(2,8)]
  have inv': "fleet_inv d'" using approveEnrollment_safe [OF run] inv by (simp add: fleet_safe_def)
  from 1(9) show ?thesis
  proof (cases rule: approve_finish_done)
    case (1 h usr dv d2 k d3)
    note dev' = approve_device_result [OF 1(2)]
    note b = bindKey_rows [OF 1(3)]
    have dv_in: "dv \<in> set (db_devices d')" using dev'(1) by (simp add: 1(5) b(7))
    have k_in: "k \<in> set (db_keys d')" using b(3) by (simp add: 1(5))
    have same_host: "r = dv" if r: "r \<in> set (db_devices d')" "js_lower (dv_hostname r) = js_lower (dv_hostname dv)" for r
    proof -
      have ids: "x = dv" if "x \<in> set (db_devices d')" "dv_id x = dv_id dv" for x
        using inv' that dv_in distinct_map_eqD [of dv_id "db_devices d'"] unfolding fleet_inv_def devices_inv_def by blast
      have old: "Some (dv_id x) = map_option dv_id dev" if "x \<in> set (db_devices d1)" "js_lower (dv_hostname x) = js_lower h" for x
        using resolve_single(2) [OF 1(1) that] by simp
      have r2: "r \<in> set (db_devices d2)" using r(1) by (simp add: 1(5) b(7))
      show ?thesis
      proof (cases dev)
        case None
        with 1(2) have "createPullDevice h (lk_serial key) (ab_profile body) (ab_ring body) usr d1 = Inr (dv, d2)"
          by (simp add: approve_device_def)
        from createPullDevice_rows(2) [OF this] r2 old [of r] r(2) dev'(4) None show ?thesis by auto
      next
        case (Some dv0)
        from approve_device_rows(1) [OF 1(2) [unfolded Some]] r2 obtain r0 where
          r0: "r0 \<in> set (db_devices d1)" "r = (if dv_id r0 = dv_id dv0 then claim_device body h usr r0 else r0)"
          by (auto simp: in_update_rows)
        then have "dv_id r = dv_id dv0" using old [of r] r(2) dev'(4) Some by (cases "dv_id r0 = dv_id dv0") auto
        with dev'(5) [OF Some] ids r(1) show ?thesis by simp
      qed
    qed
    have only: "k' = k" if "k' \<in> set (db_keys d')" "lk_status k' = Approved" "lk_device k' = Some (dv_id dv)" for k'
    proof -
      have "lk_id k' = lk_id k"
        using inv' that k_in b(5,6) unfolding fleet_inv_def keys_inv_def approved_unique_def by metis
      with fleet_inv_key_eq [OF inv' that(1) k_in] show ?thesis by simp
    qed
    have serial: "normalizeSerial (dv_serial r) = lk_serial key"
      if r: "r \<in> set (db_devices d)" "dv_id r = dv_id dv" for r
      using \<open>approve_target now actor body key m target d = Inr (dev, cleared, d1)\<close>
    proof (cases rule: approve_target_done)
      case fresh
      with dev'(6) t(3) r inv show ?thesis by (auto simp: fleet_inv_def devices_inv_def)
    next
      case (rebind dv0)
      then have "r = dv0" using r dev'(5) find_deviceD [of d "dv_id dv0" dv0] inv distinct_map_eqD
        unfolding fleet_inv_def devices_inv_def by metis
      with rebind show ?thesis by simp
    next
      case (supersede dv0 old)
      then have "r = dv0" using r dev'(5) find_deviceD [of d "dv_id dv0" dv0] inv distinct_map_eqD
        unfolding fleet_inv_def devices_inv_def by metis
      with supersede show ?thesis by simp
    next
      case (convert dv0 n)
      then have "r = dv0" using r dev'(5) find_deviceD [of d "dv_id dv0" dv0] inv distinct_map_eqD
        unfolding fleet_inv_def devices_inv_def by metis
      with convert show ?thesis by simp
    qed
    have ap: "ap_key ap = k" "ap_device ap = dv" by (simp_all add: 1(4))
    have "lk_id k = i" using b(4) key(2) by simp
    with \<open>find_key d i = Some key\<close> \<open>lk_status key = Pending\<close> k_in b(5,6) only dv_in dev'(2,3) same_host serial
    show ?thesis unfolding ap by blast
  qed
qed

definition approved_in :: "(db_error + approval outcome) \<times> db \<Rightarrow> bool" where
  "approved_in r = (case r of (Inr (Inr _), _) \<Rightarrow> True | _ \<Rightarrow> False)"

lemma approved_inE:
  assumes "approved_in r" obtains ap d' where "r = (Inr (Inr ap), d')"
  using assms by (auto simp: approved_in_def split: prod.splits sum.splits)

text \<open>A Windows device with a used agent token, and the key that asks for its serial.\<close>

definition windows_device :: device where
  "windows_device =
     \<lparr>dv_id = 1, dv_hostname = ''PC-1'', dv_serial = Some ''s1'', dv_platform = Some Windows, dv_pull = False,
      dv_source = Some ''agent'', dv_profile = None, dv_ring = None, dv_user = None, dv_os = None, dv_disk_pct = None,
      dv_last_seen = None, dv_last_revision = None, dv_ok_revision = None, dv_apply_status = None,
      dv_apply_at = None, dv_facts = cleared_facts\<lparr>wf_ip_netbird := Some ''100.64.0.1''\<rparr>\<rparr>"

definition used_token :: agent_token where
  "used_token = \<lparr>tk_id = 2, tk_device = Some 1, tk_bootstrap = False, tk_revoked_at = None,
     tk_expires_at = None, tk_last_used_at = Some 3, tk_created_by = None\<rparr>"

definition sample_db :: db where
  "sample_db = snd (enrollDevice 0 0 sample_input
     (empty_db\<lparr>db_devices := [windows_device], db_tokens := [used_token], db_disks := [1], db_next := 9\<rparr>))"

definition convert_body :: approve_body where
  "convert_body = (bulk_body ''base'' Pilot ''lx-s1'')\<lparr>ab_only_new := False, ab_convert := Some 1, ab_revoke_token := True\<rparr>"

lemma fleet_inv_sample: "fleet_inv sample_db"
proof -
  let ?d = "empty_db\<lparr>db_devices := [windows_device], db_tokens := [used_token], db_disks := [1], db_next := 9\<rparr>"
  have "fleet_inv ?d" by (simp add: fleet_defs empty_db_def windows_device_def)
  with enrollDevice_safe [of 0 0 sample_input ?d "fst (enrollDevice 0 0 sample_input ?d)" sample_db] show ?thesis
    by (simp add: fleet_safe_def sample_db_def)
qed

lemma sample_approved: "approved_in (approveEnrollment 5 ''adm'' 9 convert_body sample_db)"
  by code_simp

text \<open>
  An approval refuses a name that another machine bears in any case, but an exchange of a Windows
  agent only looks for the very name: beside the Linux machine \<open>lx-s1\<close> it creates \<open>LX-S1\<close>.
\<close>

lemma names_that_differ_in_case:
  "case insertAgentDevice 6 ''LX-S1'' None (snd (approveEnrollment 5 ''adm'' 9 convert_body sample_db)) of
     Inr (_, d) \<Rightarrow> list_ex (\<lambda>r. dv_hostname r = ''lx-s1'' \<and> dv_pull r) (db_devices d) \<and>
        list_ex (\<lambda>r. dv_hostname r = ''LX-S1'' \<and> \<not> dv_pull r) (db_devices d)
   | _ \<Rightarrow> False"
  by code_simp

theorem approval_binds_the_key_witness:
  "\<exists>ap d'. approveEnrollment 5 ''adm'' 9 convert_body sample_db = (Inr (Inr ap), d') \<and> lk_id (ap_key ap) = 9"
proof -
  obtain ap d' where run: "approveEnrollment 5 ''adm'' 9 convert_body sample_db = (Inr (Inr ap), d')"
    using sample_approved by (rule approved_inE)
  from approval_binds_the_key [OF fleet_inv_sample run] run show ?thesis by blast
qed

text \<open>
  C8: a conversion. When an approval reports \<open>converted\<close>, the device existed, was not
  managed by desired state and had the serial the key claims; an active agent token was
  given up explicitly; afterwards no token of the device is live, its Windows facts are
  null, and it has no row left in the compliance, disk, interface and software tables.
\<close>

theorem conversion_clears_windows:
  assumes run: "approveEnrollment now actor i body d = (Inr (Inr ap), d')" and conv: "ap_converted ap"
  shows "(\<exists>old key. find_device d (dv_id (ap_device ap)) = Some old \<and> find_key d i = Some key \<and> \<not> dv_pull old \<and>
      normalizeSerial (dv_serial old) = lk_serial key \<and>
      ((\<exists>t. checkDeviceClaim now d old (lk_serial key) None = Some (Active_token t)) \<longrightarrow> ab_revoke_token body)) \<and>
    list_all (\<lambda>t. \<not> live_token (dv_id (ap_device ap)) t) (db_tokens d') \<and>
    dv_facts (ap_device ap) = cleared_facts \<and>
    dv_id (ap_device ap) \<notin> set (db_compliance d') \<union> set (db_disks d') \<union> set (db_interfaces d') \<union> set (db_software d')"
  using approveEnrollment_done [OF run]
proof (cases rule: approve_tx_done)
  case (1 key m target dev cleared d1)
  from 1(9) show ?thesis
  proof (cases rule: approve_finish_done)
    case (1 h usr dv d2 k d3)
    have ap: "ap_device ap = dv" "cleared \<noteq> None" using conv by (simp_all add: 1(4))
    from \<open>approve_target now actor body key m target d = Inr (dev, cleared, d1)\<close> ap(2)
    obtain dv0 n where c: "dev = Some dv0" "find_device d (dv_id dv0) = Some dv0" "\<not> dv_pull dv0"
      "normalizeSerial (dv_serial dv0) = lk_serial key" "clearWindowsFacts now (dv_id dv0) d = (n, d1)"
      "(\<exists>t. checkDeviceClaim now d dv0 (lk_serial key) None = Some (Active_token t)) \<longrightarrow> ab_revoke_token body"
      by (cases rule: approve_target_done) auto
    note cw = clearWindowsFacts_rows [OF c(5)]
    note o2 = approve_device_other_rows [OF 1(2)] and o3 = bindKey_other_rows [OF 1(3)] and b = bindKey_rows [OF 1(3)]
    have id: "dv_id dv = dv_id dv0" using approve_device_result(5) [OF 1(2) c(1)] .
    have "list_all (\<lambda>t. \<not> live_token (dv_id dv0) t) (update_rows (live_token (dv_id dv0)) (\<lambda>t. t\<lparr>tk_revoked_at := Some now\<rparr>) (db_tokens d))"
      by (auto simp: list_all_iff in_update_rows live_token_def)
    then have tokens: "list_all (\<lambda>t. \<not> live_token (dv_id dv0) t) (db_tokens d')"
      by (simp add: 1(5) b(9) o2(3) cw(2))
    obtain r0 where r0: "r0 \<in> set (db_devices d1)" "dv_id r0 = dv_id dv0" "dv = claim_device body h usr r0"
      using approve_device_rows(4) [OF 1(2) [unfolded c(1)]] by blast
    then have "dv_facts r0 = cleared_facts" by (auto simp: cw(1) in_update_rows)
    then have facts: "dv_facts dv = cleared_facts" using r0(3) by simp
    have tables: "dv_id dv0 \<notin> set (db_compliance d') \<union> set (db_disks d') \<union> set (db_interfaces d') \<union> set (db_software d')"
      by (simp add: 1(5) o3 o2 cw)
    show ?thesis
      unfolding ap(1) id using c \<open>find_key d i = Some key\<close> tokens facts tables by blast
  qed
qed

theorem conversion_clears_windows_witness:
  "\<exists>ap d'. approveEnrollment 5 ''adm'' 9 convert_body sample_db = (Inr (Inr ap), d') \<and>
     dv_facts (ap_device ap) = cleared_facts \<and> list_all (\<lambda>t. \<not> live_token 1 t) (db_tokens d')"
proof -
  obtain ap d' where run: "approveEnrollment 5 ''adm'' 9 convert_body sample_db = (Inr (Inr ap), d')"
    using sample_approved by (rule approved_inE)
  have "case approveEnrollment 5 ''adm'' 9 convert_body sample_db of
      (Inr (Inr ap), _) \<Rightarrow> ap_converted ap \<and> dv_id (ap_device ap) = 1 | _ \<Rightarrow> False" by code_simp
  then have "ap_converted ap" "dv_id (ap_device ap) = 1" by (simp_all add: run)
  with conversion_clears_windows [OF run] run show ?thesis by auto
qed

lemma classify_reimage:
  assumes "em_kind (classifyEnrollment d fp s) = KReimage"
  obtains dv where "em_device (classifyEnrollment d fp s) = Some dv" "dv \<in> set (db_devices d)" "dv_pull dv"
proof -
  from assms obtain s' where s: "s = Some s'" by (cases s) (simp_all add: classifyEnrollment_def)
  from assms obtain dv where dv: "first_by dv_id (filter (serial_is s') (db_devices d)) = Some dv" "dv_pull dv"
    by (auto simp: s classifyEnrollment_def Let_def split: if_splits option.splits)
  then have "dv \<in> set (db_devices d)" using first_by_SomeD by fastforce
  with dv show ?thesis by (intro that) (simp_all add: s classifyEnrollment_def Let_def)
qed

text \<open>
  without an explicit \<open>convert_device_id\<close> an approval never touches a device that is
  not managed by desired state (a Windows machine): its row is unchanged, no agent token is
  revoked and no Windows fact is deleted. A bulk approval never names one.
\<close>

theorem approval_spares_windows:
  assumes inv: "fleet_inv d" and run: "approveEnrollment now actor i body d = (Inr (Inr ap), d')"
    and explicit: "ab_convert body = None"
  shows "(\<forall>r \<in> set (db_devices d). \<not> dv_pull r \<longrightarrow> r \<in> set (db_devices d')) \<and>
    db_tokens d' = db_tokens d \<and> db_disks d' = db_disks d \<and> db_software d' = db_software d \<and>
    \<not> ap_converted ap"
  using approveEnrollment_done [OF run]
proof (cases rule: approve_tx_done)
  case (1 key m target dev cleared d1)
  have eqid: "r = r'" if "r \<in> set (db_devices d)" "r' \<in> set (db_devices d)" "dv_id r = dv_id r'" for r r'
    using inv that distinct_map_eqD unfolding fleet_inv_def devices_inv_def by metis
  have pull: "dv_pull dv0" if "target = Some (dv_id dv0)" "find_device d (dv_id dv0) = Some dv0" for dv0
  proof -
    from that(1) 1(4) explicit have "em_kind m = KReimage" "map_option dv_id (em_device m) = Some (dv_id dv0)"
      by (simp_all split: if_splits)
    then obtain dv where "dv \<in> set (db_devices d)" "dv_pull dv" "dv_id dv = dv_id dv0"
      using classify_reimage [of d "lk_fp key" "lk_serial key"] 1(3) by (metis option.map(2) option.inject)
    with eqid [of dv dv0] find_deviceD [OF that(2)] show ?thesis by simp
  qed
  from 1(8) have t: "cleared = None \<and> db_devices d1 = db_devices d \<and> db_tokens d1 = db_tokens d \<and>
      db_disks d1 = db_disks d \<and> db_software d1 = db_software d \<and>
      (\<forall>dv0. dev = Some dv0 \<longrightarrow> dv0 \<in> set (db_devices d) \<and> dv_pull dv0)"
  proof (cases rule: approve_target_done)
    case (rebind dv0)
    with find_deviceD [OF rebind(5)] show ?thesis by simp
  next
    case (supersede dv0 old)
    with find_deviceD [OF supersede(4)] show ?thesis by simp
  next
    case (convert dv0 n)
    with pull [OF convert(1,4)] show ?thesis by simp
  qed simp
  from 1(9) show ?thesis
  proof (cases rule: approve_finish_done)
    case (1 h usr dv d2 k d3)
    note o2 = approve_device_other_rows [OF 1(2)] and o3 = bindKey_other_rows [OF 1(3)] and b = bindKey_rows [OF 1(3)]
    have "r \<in> set (db_devices d2)" if r: "r \<in> set (db_devices d)" "\<not> dv_pull r" for r
    proof (cases dev)
      case None
      with 1(2) have "createPullDevice h (lk_serial key) (ab_profile body) (ab_ring body) usr d1 = Inr (dv, d2)"
        by (simp add: approve_device_def)
      from createPullDevice_rows(2) [OF this] t r show ?thesis by simp
    next
      case (Some dv0)
      with t r eqid have "dv_id r \<noteq> dv_id dv0" by metis
      then show ?thesis
        using approve_device_rows(1) [OF 1(2) [unfolded Some]] t r by (simp add: update_rows_keep)
    qed
    then show ?thesis
      using t by (simp add: 1(4,5) b o2 o3)
  qed
qed

definition plain_body :: approve_body where
  "plain_body = (bulk_body ''base'' Pilot ''lx-s2'')\<lparr>ab_only_new := False\<rparr>"

definition other_db :: db where
  "other_db = snd (enrollDevice 0 0 (sample_input\<lparr>ei_serial := Some ''s2''\<rparr>)
     (empty_db\<lparr>db_devices := [windows_device], db_tokens := [used_token], db_disks := [1], db_next := 9\<rparr>))"

theorem approval_spares_windows_witness:
  "\<exists>ap d'. approveEnrollment 5 ''adm'' 9 plain_body other_db = (Inr (Inr ap), d') \<and>
     windows_device \<in> set (db_devices d') \<and> db_tokens d' = db_tokens other_db"
proof -
  let ?d = "empty_db\<lparr>db_devices := [windows_device], db_tokens := [used_token], db_disks := [1], db_next := 9\<rparr>"
  let ?inp = "sample_input\<lparr>ei_serial := Some ''s2''\<rparr>"
  have "fleet_inv ?d" by (simp add: fleet_defs empty_db_def windows_device_def)
  with enrollDevice_safe [of 0 0 ?inp ?d "fst (enrollDevice 0 0 ?inp ?d)" other_db]
  have inv: "fleet_inv other_db" by (simp add: fleet_safe_def other_db_def)
  have "approved_in (approveEnrollment 5 ''adm'' 9 plain_body other_db)" by code_simp
  then obtain ap d' where run: "approveEnrollment 5 ''adm'' 9 plain_body other_db = (Inr (Inr ap), d')"
    by (rule approved_inE)
  have "ab_convert plain_body = None" by (simp add: plain_body_def bulk_body_def)
  note p = approval_spares_windows [OF inv run this]
  have "list_ex (\<lambda>r. dv_id r = 1 \<and> \<not> dv_pull r \<and> dv_hostname r = ''PC-1'') (db_devices other_db)" by code_simp
  moreover have "db_devices other_db = [windows_device]" by code_simp
  ultimately have "windows_device \<in> set (db_devices other_db) \<and> \<not> dv_pull windows_device" by (simp add: windows_device_def)
  with p run show ?thesis by blast
qed

section \<open>Contacts of an agent\<close>

lemma enroll_body_approved [consumes 3, case_names prereg]:
  assumes run: "enroll_body now clock inp d = Inr (r, d')" and st: "er_status r = Status Approved"
    and new: "\<forall>k. find_fp d (ei_fp inp) = Some k \<longrightarrow> lk_status k \<noteq> Approved"
  obtains key d1 c d2 m where "upsert_key now inp d = (key, d1)" "lk_status key = Pending"
    "m = classifyEnrollment d1 (ei_fp inp) (normalizeSerial (ei_serial inp))"
    "enroll_conflict now inp key m d1 = (c, d2)"
    "\<exists>retry. enroll_prereg now retry inp (key\<lparr>lk_conflict := c\<rparr>) m
       (d2\<lparr>db_keys := update_rows (\<lambda>k. lk_id k = lk_id key) (\<lambda>k. k\<lparr>lk_conflict := c\<rparr>) (db_keys d2)\<rparr>) = Inr (r, d')"
proof -
  obtain key d1 where up: "upsert_key now inp d = (key, d1)" by fastforce
  obtain c d2 where ec: "enroll_conflict now inp key (classifyEnrollment d1 (ei_fp inp) (normalizeSerial (ei_serial inp))) d1 = (c, d2)"
    by fastforce
  have "lk_status key \<noteq> Approved"
    using up new by (auto simp: upsert_key_def Let_def new_key_def refreshed_key_def split: option.splits)
  let ?mm = "case find_fp d (ei_fp inp) of None \<Rightarrow> False
    | Some k \<Rightarrow> lk_status k = Approved \<and> lk_serial k \<noteq> None \<and> lk_serial k \<noteq> normalizeSerial (ei_serial inp)"
  have no_flood: "\<not> (find_fp d (ei_fp inp) = None \<and> PENDING_CAP \<le> pending_count d)"
  proof
    assume full: "find_fp d (ei_fp inp) = None \<and> PENDING_CAP \<le> pending_count d"
    from run [unfolded enroll_body_def Let_def if_P [OF full]] st show False by auto
  qed
  have no_mismatch: "\<not> ?mm" using new by (auto split: option.splits)
  note run' = run [unfolded enroll_body_def Let_def up prod.case, unfolded if_not_P [OF no_flood] if_not_P [OF no_mismatch]]
  have pend: "lk_status key = Pending"
  proof (rule ccontr)
    assume "lk_status key \<noteq> Pending"
    from run' [unfolded if_P [OF this]] st \<open>lk_status key \<noteq> Approved\<close> show False by auto
  qed
  then have "\<not> lk_status key \<noteq> Pending" by simp
  from run' [unfolded if_not_P [OF this] ec prod.case] show ?thesis
    by (intro that [OF up pend refl ec] exI)
qed

lemma classify_prereg:
  assumes "em_kind (classifyEnrollment d fp s) = KPreregistered" "em_prereg (classifyEnrollment d fp s) = Some p"
  obtains s' where "s = Some s'" "p \<in> set (db_preregs d)" "pr_serial p = s'" "pr_consumed p = None"
proof -
  from assms(1) obtain s' where s: "s = Some s'" by (cases s) (simp_all add: classifyEnrollment_def)
  from assms(2) have "find (open_prereg s') (db_preregs d) = Some p"
    by (simp add: s classifyEnrollment_def Let_def)
  from find_SomeD [OF this] show ?thesis by (intro that [OF s]) (simp_all add: open_prereg_def)
qed

lemma upsert_key_next: "upsert_key now inp d = (k, d') \<Longrightarrow> db_next d \<le> db_next d'"
  by (auto simp: upsert_key_def Let_def split: option.splits)

text \<open>
  C9: an agent that was not yet approved comes out approved only through an open
  pre-registration of the very serial it presents. The reservation is consumed by its key,
  the device is new, carries that serial and the reserved profile, ring and user, and its
  host name is free.
\<close>

theorem auto_approval_needs_a_reservation:
  assumes inv: "fleet_inv d" and run: "enrollDevice now clock inp d = (Inr r, d')"
    and st: "er_status r = Status Approved"
    and new: "\<And>k. find_fp d (ei_fp inp) = Some k \<Longrightarrow> lk_status k \<noteq> Approved"
  shows "\<exists>p dev k. p \<in> set (db_preregs d) \<and> pr_consumed p = None \<and>
    normalizeSerial (ei_serial inp) = Some (pr_serial p) \<and>
    er_device r = Some dev \<and> er_key r = Some k \<and> k \<in> set (db_keys d') \<and> lk_status k = Approved \<and>
    lk_device k = Some (dv_id dev) \<and>
    (\<exists>p' \<in> set (db_preregs d'). pr_id p' = pr_id p \<and> pr_consumed p' = Some (now, Some (lk_id k))) \<and>
    dev \<in> set (db_devices d') \<and> dv_serial dev = Some (pr_serial p) \<and> dv_profile dev = Some (pr_profile p) \<and>
    dv_ring dev = Some (pr_ring p) \<and> dv_user dev = pr_user p \<and>
    (\<forall>r \<in> set (db_devices d). dv_id r \<noteq> dv_id dev \<and> js_lower (dv_hostname r) \<noteq> js_lower (dv_hostname dev))"
proof -
  have body: "enroll_body now clock inp d = Inr (r, d')"
    using run unfolding enrollDevice_def by (rule transaction_okE) simp_all
  have "\<forall>k. find_fp d (ei_fp inp) = Some k \<longrightarrow> lk_status k \<noteq> Approved" using new by blast
  with body st show ?thesis
  proof (cases rule: enroll_body_approved)
    case (prereg key d1 c d2 m)
    note rows1 = upsert_key_rows [OF prereg(1)] and rows2 = enroll_conflict_rows [OF prereg(4)]
    from prereg(5) obtain retry where
      "enroll_prereg now retry inp (key\<lparr>lk_conflict := c\<rparr>) m
        (d2\<lparr>db_keys := update_rows (\<lambda>k. lk_id k = lk_id key) (\<lambda>k. k\<lparr>lk_conflict := c\<rparr>) (db_keys d2)\<rparr>) = Inr (r, d')" ..
    then show ?thesis
    proof (cases rule: enroll_prereg_cases)
      case stay
      with st show ?thesis by simp
    next
      case (enrolled p h dev d3 k d4)
      note mk = createPullDevice_rows [OF enrolled(4)] and b = bindKey_rows [OF enrolled(5)]
      from classify_prereg enrolled(1,2) prereg(3) obtain s where
        s: "normalizeSerial (ei_serial inp) = Some s" "p \<in> set (db_preregs d1)" "pr_serial p = s" "pr_consumed p = None"
        by metis
      have free: "\<forall>r \<in> set (db_devices d). js_lower (dv_hostname r) \<noteq> js_lower h"
        using resolved_free [OF enrolled(3)] by (simp add: rows1(1) rows2(1))
      have "\<forall>r \<in> set (db_devices d). dv_id r < db_next d" using inv by (simp add: fleet_inv_def devices_inv_def)
      then have fresh: "\<forall>r \<in> set (db_devices d). dv_id r \<noteq> dv_id dev"
        using upsert_key_next [OF prereg(1)] by (fastforce simp: mk(1) new_pull_device_def rows2(3))
      have "p\<lparr>pr_consumed := Some (now, Some (lk_id k))\<rparr> \<in> set (db_preregs d')"
        using s(2,4) by (auto simp: enrolled(9) b(4,11) mk(2) rows2(4) in_update_rows intro!: bexI [of _ p])
      then have consumed: "\<exists>p' \<in> set (db_preregs d'). pr_id p' = pr_id p \<and> pr_consumed p' = Some (now, Some (lk_id k))"
        by (rule bexI [rotated]) simp
      have dev: "dev \<in> set (db_devices d')" by (simp add: enrolled(9) b(7) mk(2))
      have k: "k \<in> set (db_keys d')" using b(3) by (simp add: enrolled(9))
      have "dv_serial dev = Some s" "dv_profile dev = Some (pr_profile p)" "dv_ring dev = Some (pr_ring p)"
        "dv_user dev = pr_user p" "dv_hostname dev = h"
        by (simp_all add: mk(1) new_pull_device_def s(1))
      with s free fresh consumed dev k b(5,6) enrolled(7,8) rows1(2) show ?thesis
        by (intro exI [of _ p] exI [of _ dev] exI [of _ k]) simp
    qed
  qed
qed

definition reserved_db :: db where
  "reserved_db = empty_db\<lparr>db_preregs := [\<lparr>pr_id = 4, pr_serial = ''S1'', pr_hostname = Some ''lx-a'', pr_profile = ''base'',
     pr_ring = Stable, pr_user = None, pr_note = None, pr_by = ''adm'', pr_consumed = None\<rparr>], db_next := 9\<rparr>"

theorem auto_approval_needs_a_reservation_witness:
  "\<exists>r d' dev. enrollDevice 0 0 sample_input reserved_db = (Inr r, d') \<and> er_device r = Some dev \<and>
     dv_serial dev = Some ''S1''"
proof -
  have inv: "fleet_inv reserved_db" by (simp add: fleet_defs empty_db_def reserved_db_def)
  have "case enrollDevice 0 0 sample_input reserved_db of (Inr r, _) \<Rightarrow> er_status r = Status Approved | _ \<Rightarrow> False"
    by code_simp
  then obtain r d' where run: "enrollDevice 0 0 sample_input reserved_db = (Inr r, d')" and st: "er_status r = Status Approved"
    by (auto split: prod.splits sum.splits)
  have "normalizeSerial (Some ''s1'') = Some ''S1''" by code_simp
  moreover have "ei_serial sample_input = Some ''s1''" by (simp add: sample_input_def)
  moreover have "find_fp reserved_db fp = None" for fp by (simp add: find_fp_def reserved_db_def empty_db_def)
  ultimately show ?thesis
    using auto_approval_needs_a_reservation [OF inv run st] run by fastforce
qed

lemma length_partition_map_filter:
  "length (List.map_filter (\<lambda>i. case f i of Inl c \<Rightarrow> Some (g i c) | Inr _ \<Rightarrow> None) xs) +
   length (List.map_filter (\<lambda>i. case f i of Inl _ \<Rightarrow> None | Inr c \<Rightarrow> Some (h c)) xs) = length xs"
  by (induction xs) (simp_all add: List.map_filter_simps split: sum.split)

lemma length_resolve [simp]: "length (resolveHostnamesForBatch d items) = length items"
  by (simp add: resolveHostnamesForBatch_def Let_def)

text \<open>
  the accounts of the bulk routes. Every distinct identifier is either counted as done
  or reported with a code, \<open>skipped\<close> is the number of reports, and the fleet invariant
  survives the whole batch; when nothing was done the database is as it was.
\<close>

theorem bulk_decisions_account:
  assumes "approveEnrollments now actor ids prof rg d = (Inr res, d')"
    and "rejectEnrollments now actor ids reason d = (Inr res2, d2)" and "fleet_inv d"
  shows "br_ok res + br_skipped res = card (set ids) \<and> br_skipped res = length (br_errors res) \<and> fleet_inv d' \<and>
    (br_ok res = 0 \<longrightarrow> d' = d) \<and>
    br_ok res2 + br_skipped res2 = card (set ids) \<and> br_skipped res2 = length (br_errors res2) \<and> fleet_inv d2 \<and>
    (br_ok res2 = 0 \<longrightarrow> d2 = d)"
proof -
  have card: "length (js_uniq ids) = card (set ids)"
    using distinct_card [OF distinct_js_uniq [of ids]] by simp
  have "br_ok res + br_skipped res = card (set ids) \<and> br_skipped res = length (br_errors res) \<and> fleet_inv d' \<and>
    (br_ok res = 0 \<longrightarrow> d' = d)"
  proof -
    let ?early = "List.map_filter (\<lambda>i. case candidate d i of Inl c \<Rightarrow> Some (i, c) | Inr _ \<Rightarrow> None) (js_uniq ids)"
    let ?cands = "List.map_filter (\<lambda>i. case candidate d i of Inl _ \<Rightarrow> None | Inr c \<Rightarrow> Some c) (js_uniq ids)"
    let ?items = "zip (map (\<lambda>c. lk_id (fst c)) ?cands) (resolveHostnamesForBatch d (map snd ?cands))"
    from assms(1) obtain n errs where run: "bulk_run (approve_item now actor prof rg) ?items d = (Inr (n, errs), d')"
      and res: "res = bulk_result n (?early @ map (\<lambda>(it, c). (fst it, c)) errs)"
      by (auto simp: approveEnrollments_def Let_def split: prod.splits sum.splits)
    from approvals.run_accounting [OF run] have "n + length errs = length ?cands" by simp
    moreover have "length ?early + length ?cands = length (js_uniq ids)"
      using length_partition_map_filter [where f = "candidate d" and g = Pair and h = "\<lambda>c. c" and xs = "js_uniq ids"] by simp
    ultimately have "br_ok res + br_skipped res = card (set ids)"
      by (simp add: res bulk_result_def card)
    with approvals.run_inv [OF assms(3) run] approvals.run_all_refused run show ?thesis
      by (auto simp: res bulk_result_def)
  qed
  moreover have "br_ok res2 + br_skipped res2 = card (set ids) \<and> br_skipped res2 = length (br_errors res2) \<and> fleet_inv d2 \<and>
    (br_ok res2 = 0 \<longrightarrow> d2 = d)"
  proof -
    from assms(2) obtain n errs where run: "bulk_run (reject_item now actor reason) (js_uniq ids) d = (Inr (n, errs), d2)"
      and res: "res2 = bulk_result n errs"
      by (auto simp: rejectEnrollments_def split: prod.splits sum.splits)
    from rejections.run_accounting [OF run] rejections.run_inv [OF assms(3) run] rejections.run_all_refused run
    show ?thesis by (auto simp: res bulk_result_def card)
  qed
  ultimately show ?thesis by blast
qed

theorem bulk_decisions_account_witness:
  "\<exists>res d'. rejectEnrollments 5 ''adm'' [9, 9, 7] None sample_db = (Inr res, d') \<and> br_ok res + br_skipped res = 2"
proof -
  have "case (approveEnrollments 5 ''adm'' [9, 9, 7] ''base'' Pilot sample_db, rejectEnrollments 5 ''adm'' [9, 9, 7] None sample_db)
      of ((Inr _, _), (Inr _, _)) \<Rightarrow> True | _ \<Rightarrow> False" by code_simp
  then obtain res d' res2 d2 where "approveEnrollments 5 ''adm'' [9, 9, 7] ''base'' Pilot sample_db = (Inr res, d')"
    "rejectEnrollments 5 ''adm'' [9, 9, 7] None sample_db = (Inr res2, d2)"
    by (auto split: prod.splits sum.splits)
  with bulk_decisions_account [OF this fleet_inv_sample] show ?thesis by simp
qed

end
