(* ===== verification/AgentSafety.thy ===== *)
theory AgentSafety imports Agents begin

text \<open>
  What the requests of an approved agent guarantee: the transitions of the reports, the
  secrets kept in escrow, the git token of a check-in, and the fail-closed reveal.
\<close>

section \<open>Reports\<close>

text \<open>The reports of one device, in the order they are recorded; the answer is each transition.\<close>

fun report_run :: "uuid \<Rightarrow> jsstring \<Rightarrow> (time \<times> report_body) list \<Rightarrow> db \<Rightarrow> apply_change option list \<times> db" where
  "report_run dev fp [] d = ([], d)"
| "report_run dev fp ((now, b) # bs) d =
     (case recordReport now dev fp b d of
        (Inl e, d1) \<Rightarrow> report_run dev fp bs d1
      | (Inr o1, d1) \<Rightarrow> (case report_run dev fp bs d1 of (cs, d2) \<Rightarrow> (ro_transition o1 # cs, d2)))"

definition pull_device :: "db \<Rightarrow> uuid \<Rightarrow> device option" where
  "pull_device d i = find (\<lambda>r. dv_id r = i \<and> dv_pull r) (db_devices d)"

definition is_failing :: "apply_status option \<Rightarrow> bool" where
  "is_failing s = (s = Some Failed \<or> s = Some Partial)"

fun alternates :: "bool \<Rightarrow> apply_change list \<Rightarrow> bool" where
  "alternates failing [] = True"
| "alternates failing (c # cs) = (c = (if failing then To_recovered else To_failed) \<and> alternates (\<not> failing) cs)"

lemma applyTransition_iff:
  "applyTransition p s =
     (if is_failing (Some s) = is_failing p then None
      else Some (if is_failing p then To_recovered else To_failed))"
  by (cases p) (auto simp: applyTransition_def is_failing_def FAILING_def Let_def)

lemma recordReport_device:
  assumes "pull_device d dev = Some r"
  obtains o1 d' where "recordReport now dev fp b d = (Inr o1, d')"
    "ro_transition o1 = applyTransition (dv_apply_status r) (rb_status b)"
    "pull_device d' dev = Some (apply_row (sanitizeReport b) r)"
proof -
  obtain o1 d' where run: "report_tx now dev fp b d = Inr (o1, d')"
    and tr: "ro_transition o1 = applyTransition (dv_apply_status r) (rb_status b)"
    and ds: "db_devices d' = update_rows (\<lambda>r. dv_id r = dev) (apply_row (sanitizeReport b)) (db_devices d)"
    using assms by (auto simp: pull_device_def report_tx_def Let_def sanitizeReport_def split: option.splits)
  have "pull_device d' dev = Some (apply_row (sanitizeReport b) r)"
    using assms find_SomeD [OF assms [unfolded pull_device_def]]
    by (simp add: pull_device_def ds find_update_rows apply_row_def)
  with that [OF _ tr] run show ?thesis by (simp add: recordReport_def transaction_def)
qed

definition some_changes :: "apply_change option list \<Rightarrow> apply_change list" where
  "some_changes cs = List.map_filter (\<lambda>c. c) cs"

lemma some_changes_simps [simp]:
  "some_changes [] = []" "some_changes (None # cs) = some_changes cs"
  "some_changes (Some c # cs) = c # some_changes cs"
  by (simp_all add: some_changes_def List.map_filter_simps)

text \<open>The last successful revision after a list of reports.\<close>

fun last_success :: "jsstring option \<Rightarrow> report_body list \<Rightarrow> jsstring option" where
  "last_success rv [] = rv"
| "last_success rv (b # bs) = last_success (if rb_status b = Success then rb_revision b else rv) bs"

text \<open>
  C10: along any sequence of reports of a device the alerts alternate: a passage to failure
  is only ever followed by a recovery and conversely, starting from what the device last
  reported. The device keeps the status of the last report, and its last successful
  revision is that of the last report whose status is success.
\<close>

theorem report_transitions_alternate:
  assumes "pull_device d dev = Some r" and "report_run dev fp bs d = (cs, d')"
  shows "alternates (is_failing (dv_apply_status r)) (some_changes cs) \<and> length cs = length bs \<and>
    (\<exists>r'. pull_device d' dev = Some r' \<and>
       dv_apply_status r' = (if bs = [] then dv_apply_status r else Some (rb_status (snd (last bs)))) \<and>
       dv_ok_revision r' = last_success (dv_ok_revision r) (map snd bs))"
  using assms
proof (induction bs arbitrary: d r cs)
  case (Cons b bs)
  obtain now body where b: "b = (now, body)" by fastforce
  from Cons.prems(1) obtain o1 d1 where run: "recordReport now dev fp body d = (Inr o1, d1)"
    and tr: "ro_transition o1 = applyTransition (dv_apply_status r) (rb_status body)"
    and dev1: "pull_device d1 dev = Some (apply_row (sanitizeReport body) r)"
    by (rule recordReport_device)
  obtain cs1 d2 where rest: "report_run dev fp bs d1 = (cs1, d2)" by fastforce
  with Cons.prems(2) run have cs: "cs = ro_transition o1 # cs1" "d' = d2" by (simp_all add: b)
  have st: "dv_apply_status (apply_row (sanitizeReport body) r) = Some (rb_status body)"
    "dv_ok_revision (apply_row (sanitizeReport body) r) = (if rb_status body = Success then rb_revision body else dv_ok_revision r)"
    by (simp_all add: apply_row_def sanitizeReport_def)
  from Cons.IH [OF dev1 rest [folded cs(2)]] show ?case
    by (auto simp: cs(1) tr applyTransition_iff st b)
qed simp

definition failed_report :: report_body where
  "failed_report = \<lparr>rb_revision = None, rb_status = Failed, rb_started = None, rb_finished = None,
     rb_summary = Some ''x'', rb_tail = None, rb_agent = None\<rparr>"

definition pull_db :: db where
  "pull_db = empty_db\<lparr>db_devices := [new_pull_device 1 ''lx-1'' (Some ''S1'') ''base'' Pilot None], db_next := 2\<rparr>"

lemma pull_db_device: "pull_device pull_db 1 = Some (new_pull_device 1 ''lx-1'' (Some ''S1'') ''base'' Pilot None)"
  by (simp add: pull_device_def pull_db_def new_pull_device_def)

theorem report_transitions_alternate_witness:
  "some_changes (fst (report_run 1 ''aa'' [(1, failed_report), (2, failed_report), (3, failed_report\<lparr>rb_status := Success\<rparr>)] pull_db))
     = [To_failed, To_recovered] \<and>
   alternates False [To_failed, To_recovered]"
proof -
  let ?bs = "[(1, failed_report), (2, failed_report), (3, failed_report\<lparr>rb_status := Success\<rparr>)]"
  obtain cs d' where run: "report_run 1 ''aa'' ?bs pull_db = (cs, d')" by fastforce
  have "some_changes (fst (report_run 1 ''aa'' ?bs pull_db)) = [To_failed, To_recovered]" by code_simp
  moreover have "alternates (is_failing (dv_apply_status (new_pull_device 1 ''lx-1'' (Some ''S1'') ''base'' Pilot None))) (some_changes cs)"
    using report_transitions_alternate [OF pull_db_device run] by blast
  moreover have "\<not> is_failing (dv_apply_status (new_pull_device 1 ''lx-1'' (Some ''S1'') ''base'' Pilot None))"
    by (simp add: new_pull_device_def is_failing_def)
  ultimately show ?thesis by (simp only: run fst_conv)
qed

section \<open>Escrow\<close>

text \<open>Primary keys, and one credential per device: what the tables themselves promise.\<close>

definition escrow_rows :: "db \<Rightarrow> bool" where
  "escrow_rows d \<longleftrightarrow>
     distinct (map cr_device (db_credentials d)) \<and> distinct (map rk_id (db_recovery d)) \<and>
     (\<forall>r \<in> set (db_recovery d). rk_id r < db_next d)"



text \<open>The credential of a device can only be replaced by a later rotation.\<close>

definition later_credential :: "db \<Rightarrow> db \<Rightarrow> bool" where
  "later_credential d d' \<longleftrightarrow>
     (\<forall>c \<in> set (db_credentials d). \<exists>c' \<in> set (db_credentials d').
        cr_device c' = cr_device c \<and> (c' = c \<or> cr_changed_at c < cr_changed_at c'))"

text \<open>No escrowed recovery key is lost or altered.\<close>

definition recovery_kept :: "db \<Rightarrow> db \<Rightarrow> bool" where
  "recovery_kept d d' \<longleftrightarrow>
     (\<forall>r \<in> set (db_recovery d). \<exists>r' \<in> set (db_recovery d').
        rk_id r' = rk_id r \<and> rk_ciphertext r' = rk_ciphertext r \<and> rk_key_id r' = rk_key_id r \<and> rk_device r' = rk_device r \<and>
        rk_kind r' = rk_kind r \<and> rk_label r' = rk_label r)"





lemma later_credential_refl [simp]: "later_credential d d"
  unfolding later_credential_def by blast

lemma recovery_kept_refl [simp]: "recovery_kept d d"
  unfolding recovery_kept_def by blast

lemma escrow_rows_audit [simp]: "escrow_rows (logAudit a b t x now d) = escrow_rows d"
  by (simp add: escrow_rows_def)

















definition confirmed_parse :: "jsstring \<Rightarrow> json option" where
  "confirmed_parse s = Some (JObj [(''key_id'', JStr s)])"

definition served_key :: escrow_info where
  "served_key = \<lparr>ex_status = Escrow_ok, ex_pem = Some ''pem'', ex_key_id = Some ''kid'', ex_bits = Some 2048\<rparr>"

definition device_key :: lkey where
  "device_key = bind_row 0 ''adm'' 1 None (new_key 1 0 \<lparr>ei_fp = ''aabb'', ei_public = [], ei_backing = ''tpm'',
     ei_serial = Some ''S1'', ei_hostname = None, ei_os = None, ei_agent = None, ei_ip = []\<rparr>)"










section \<open>Reveal of a recovery key\<close>

text \<open>
  A recovery secret leaves the server only with its trace. When a secret is returned it
  is the decryption of the stored ciphertext of that device's key, the last audit row
  names the viewer, the device, the key and the reason with outcome ok, and the row says
  who saw it last; a refused reveal returns no secret and leaves the stored keys alone.
\<close>

theorem reveal_is_audited:
  assumes "revealRecoveryKey decrypt audit_ok now dev kid by_user viewer reason d = (r, d')"
  shows "(\<forall>s. r = Inr s \<longrightarrow>
      (\<exists>row a. row \<in> set (db_recovery d) \<and> rk_id row = kid \<and> rk_device row = dev \<and>
         decrypt (rk_ciphertext row) = Some (sc_value s) \<and> audit_ok \<and> db_audit d' = db_audit d @ [a] \<and>
         au_action a = ''linux_recovery_key_viewed'' \<and> au_by a = Some by_user \<and> au_target a = Some dev \<and>
         jm_get (au_details a) ''reason'' = Some (JStr reason) \<and> jm_get (au_details a) ''outcome'' = Some (JStr ''ok'') \<and>
         (\<exists>row' \<in> set (db_recovery d'). rk_id row' = kid \<and> rk_viewed_at row' = Some now \<and> rk_viewed_by row' = Some viewer))) \<and>
    (\<forall>e. r = Inl e \<longrightarrow> db_recovery d' = db_recovery d \<and> length (db_audit d') \<le> length (db_audit d) + 1)"
proof (cases "find (\<lambda>r. rk_id r = kid \<and> rk_device r = dev) (db_recovery d)")
  case None
  with assms show ?thesis by (auto simp: revealRecoveryKey_def)
next
  case (Some row)
  note row = find_SomeD [OF Some]
  note run = assms [unfolded revealRecoveryKey_def Some option.case Let_def]
  show ?thesis
  proof (cases "decrypt (rk_ciphertext row)")
    case None
    with run show ?thesis by (auto simp: logAudit_def insertAudit_def)
  next
    case plain: (Some p)
    show ?thesis
    proof (cases audit_ok)
      case True
      let ?f = "\<lambda>r :: recovery_key. r\<lparr>rk_viewed_at := Some now, rk_viewed_by := Some viewer\<rparr>"
      have "?f row \<in> set (update_rows (\<lambda>r. rk_id r = rk_id row) ?f (db_recovery d))"
        using row by (auto simp: in_update_rows)
      moreover have "rk_id (?f row) = kid" "rk_viewed_at (?f row) = Some now" "rk_viewed_by (?f row) = Some viewer"
        using row by simp_all
      ultimately have seen: "\<exists>row' \<in> set (update_rows (\<lambda>r. rk_id r = rk_id row) ?f (db_recovery d)).
          rk_id row' = kid \<and> rk_viewed_at row' = Some now \<and> rk_viewed_by row' = Some viewer" by blast
      from run plain True have r: "r = Inr \<lparr>sc_kind = rk_kind row, sc_label = rk_label row, sc_value = p,
          sc_key_id = rk_key_id row, sc_created_at = rk_created_at row\<rparr>"
        and d': "db_recovery d' = update_rows (\<lambda>r. rk_id r = rk_id row) ?f (db_recovery d)"
        "db_audit d' = db_audit d @ [\<lparr>au_action = ''linux_recovery_key_viewed'', au_by = Some by_user, au_target = Some dev,
          au_details = [(''label'', JStr (rk_label row)), (''key_id'', JStr (rk_key_id row)), (''reason'', JStr reason),
            (''outcome'', JStr ''ok'')], au_at = now\<rparr>]"
        by (auto simp: insertAudit_def)
      show ?thesis
        using row plain True seen by (auto simp: r d' jm_get_def intro!: exI [of _ row])
    next
      case False
      with run plain show ?thesis by auto
    qed
  qed
qed

theorem reveal_is_audited_witness:
  "\<exists>s d'. revealRecoveryKey (\<lambda>c. Some c) True 9 1 5 ''adm'' ''u1'' ''lost'' (pull_db\<lparr>db_recovery := [luks_row 5 1 ''root'' ''xyz'' (Some ''kid'') 3]\<rparr>)
     = (Inr s, d') \<and> length (db_audit d') = 1"
proof -
  let ?d = "pull_db\<lparr>db_recovery := [luks_row 5 1 ''root'' ''xyz'' (Some ''kid'') 3]\<rparr>"
  obtain s d' where run: "revealRecoveryKey (\<lambda>c. Some c) True 9 1 5 ''adm'' ''u1'' ''lost'' ?d = (Inr s, d')"
    by (simp add: revealRecoveryKey_def luks_row_def Let_def)
  moreover have "db_audit ?d = []" by (simp add: pull_db_def empty_db_def)
  ultimately show ?thesis using reveal_is_audited [OF run] by auto
qed

section \<open>Check-in\<close>

text \<open>
  a check-in. A serial other than the enrolled one is refused and writes nothing but
  (at most one) audit row. Otherwise the assignment is the device's own; it carries a git
  token exactly when the mirror serves, and that token is then accepted for this device
  and key until it expires \<open>GIT_TOKEN_TTL_MS\<close> later, and reported expired after.
\<close>

theorem checkin_assignment:
  assumes run: "checkin hash parse url mi info now clock rnd key body (d, ram) = (Inr res, d', ram')"
    and rnd: "length rnd = 40" "list_all lower_hex rnd"
  shows "(res = Serial_refused \<longleftrightarrow>
      lk_serial key \<noteq> None \<and> normalizeSerial (cb_serial body) \<noteq> None \<and> normalizeSerial (cb_serial body) \<noteq> lk_serial key) \<and>
    (res = Serial_refused \<longrightarrow> db_keys d' = db_keys d \<and> db_devices d' = db_devices d \<and> length (db_audit d') \<le> length (db_audit d) + 1) \<and>
    (\<forall>a. res = Assigned a \<longrightarrow> lk_device key = Some (as_device a) \<and>
       (mi_serving mi \<longleftrightarrow> as_git a \<noteq> None) \<and> (as_git a = None \<longrightarrow> as_retry a = Some RETRY_AFTER_S) \<and>
       (\<forall>u tok ex t. as_git a = Some (u, tok, ex) \<longrightarrow> u = url \<and> ex = clock + GIT_TOKEN_TTL_MS \<and>
          fst (git_verify hash t (Some tok) (ar_tokens ram')) =
            Some (\<lparr>ge_device = nat_str (as_device a), ge_fingerprint = lk_fp key, ge_expires = ex\<rparr>, ex \<le> t)))"
proof (cases "lk_serial key \<noteq> None \<and> normalizeSerial (cb_serial body) \<noteq> None \<and> normalizeSerial (cb_serial body) \<noteq> lk_serial key")
  case True
  with run show ?thesis
    by (auto simp: checkin_def Let_def logAudit_def insertAudit_def split: prod.splits if_splits)
next
  case False
  define d1 where "d1 = d\<lparr>db_keys := update_rows (\<lambda>k. lk_id k = lk_id key) (touch_key now body) (db_keys d)\<rparr>"
  define hit :: "device \<Rightarrow> bool" where "hit = (\<lambda>r. lk_device key = Some (dv_id r) \<and> dv_pull r)"
  define d2 where "d2 = d1\<lparr>db_devices := update_rows hit (touch_device now body) (db_devices d1)\<rparr>"
  note run' = run [unfolded checkin_def Let_def prod.case if_not_P [OF False], folded d1_def, folded hit_def, folded d2_def]
  from run' obtain dev where dev: "find hit (db_devices d2) = Some dev"
    by (cases "find hit (db_devices d2)") auto
  have id: "lk_device key = Some (dv_id dev)" using find_SomeD [OF dev] by (simp add: hit_def)
  have form: "git_token_form (''gt_'' @ rnd)"
    using rnd by (simp add: git_token_form_def starts_with_def)
  show ?thesis
  proof (cases "mi_serving mi")
    case serving: True
    from run' dev serving obtain luks hk cr ek ad bk where
      res: "res = Assigned (buildAssignment dev True (mi_heads mi) url (''gt_'' @ rnd, clock + GIT_TOKEN_TTL_MS) info bk luks hk cr ek ad)"
      and ram: "ar_tokens ram' = jm_set (hash (''gt_'' @ rnd))
        \<lparr>ge_device = nat_str (dv_id dev), ge_fingerprint = lk_fp key, ge_expires = clock + GIT_TOKEN_TTL_MS\<rparr> (ar_tokens ram)"
      by (auto simp: git_create_def Let_def)
    show ?thesis
      using False id form serving by (auto simp: res buildAssignment_def Let_def git_verify_def ram)
  next
    case idle: False
    from run' dev idle obtain luks hk cr ek ad bk tk where
      res: "res = Assigned (buildAssignment dev False (mi_heads mi) url tk info bk luks hk cr ek ad)" by auto
    show ?thesis
      using False id idle by (auto simp: res buildAssignment_def Let_def)
  qed
qed

definition sample_checkin :: checkin_body where
  "sample_checkin = \<lparr>cb_serial = Some ''s1'', cb_hostname = None, cb_os = Some ''24.04'', cb_agent = Some ''1'',
     cb_luks_root = True, cb_disk = None, cb_escrow_key = None\<rparr>"

definition sample_mirror :: mirror where
  "sample_mirror = \<lparr>mi_serving = True, mi_heads = (\<lambda>_. Some ''abc'')\<rparr>"

theorem checkin_assignment_witness:
  "\<exists>a st. checkin (\<lambda>s. s) confirmed_parse ''u'' sample_mirror served_key 5 5 (replicate 40 CHR ''a'') device_key
      sample_checkin (pull_db, \<lparr>ar_mismatch = [], ar_tokens = []\<rparr>) = (Inr (Assigned a), st) \<and> as_git a \<noteq> None"
proof -
  let ?r = "checkin (\<lambda>s. s) confirmed_parse ''u'' sample_mirror served_key 5 5 (replicate 40 CHR ''a'') device_key
      sample_checkin (pull_db, \<lparr>ar_mismatch = [], ar_tokens = []\<rparr>)"
  have "case ?r of (Inr (Assigned _), _) \<Rightarrow> True | _ \<Rightarrow> False" by code_simp
  then obtain a d' ram' where run: "?r = (Inr (Assigned a), d', ram')"
    by (auto split: prod.splits sum.splits checkin_result.splits)
  have "list_all lower_hex (replicate 40 (CHR ''a''))" by (simp add: list_all_iff js_char_defs)
  from checkin_assignment [OF run _ this] have "mi_serving sample_mirror \<longleftrightarrow> as_git a \<noteq> None" by simp
  with run show ?thesis by (auto simp: sample_mirror_def)
qed

end
