(* ===== verification/DeviceAuth.thy ===== *)
theory DeviceAuth imports LinuxDb RamStores begin

text \<open>
  Authentication of a Linux agent's request: \<open>linux/lib/device-auth.js\<close> and the handler
  \<open>linux/plugins/device-auth.js\<close> installs on the agent routes.

  The hash (hex of sha256), the Ed25519 verification and \<open>JSON.parse\<close> are parameters. The
  clock is in milliseconds; the handler's \<open>now\<close> is in seconds, rounded down.
\<close>

section \<open>The signed string\<close>

definition nl :: jsstring where "nl = [CHR 0x0A]"

definition canonicalString :: "jsstring \<Rightarrow> jsstring \<Rightarrow> jsstring \<Rightarrow> jsstring \<Rightarrow> jsstring \<Rightarrow> jsstring" where
  "canonicalString meth target stamp nonce bodyhash =
     ''opale-linux-v1'' @ nl @ js_upper meth @ nl @ target @ nl @ stamp @ nl @ nonce @ nl @ bodyhash"

section \<open>Shape of the headers\<close>

text \<open>\<open>/^[0-9a-f]{n}$/i\<close>.\<close>

definition hex_string :: "nat \<Rightarrow> jsstring \<Rightarrow> bool" where
  "hex_string n s \<longleftrightarrow> length s = n \<and> list_all hex_char s"

text \<open>\<open>/^-?\d+$/\<close> and \<open>Number(...)\<close>.\<close>

definition int_string :: "jsstring \<Rightarrow> bool" where
  "int_string s =
     (case s of [] \<Rightarrow> False
      | c # cs \<Rightarrow> if c = CHR ''-'' then cs \<noteq> [] \<and> list_all digit_char cs else list_all digit_char s)"

definition int_val :: "jsstring \<Rightarrow> int" where
  "int_val s =
     (case s of [] \<Rightarrow> 0
      | c # cs \<Rightarrow> if c = CHR ''-'' then - int (dec_val cs) else int (dec_val s))"

definition safe_integer :: "int \<Rightarrow> bool" where
  "safe_integer n \<longleftrightarrow> \<bar>n\<bar> \<le> 9007199254740991"

text \<open>\<open>/^[A-Za-z0-9+/]{n}=...$/\<close> with \<open>pad\<close> padding signs.\<close>

definition b64_char :: "char \<Rightarrow> bool" where
  "b64_char c \<longleftrightarrow> alpha_char c \<or> digit_char c \<or> c = CHR ''+'' \<or> c = CHR 0x2F"

definition b64_string :: "nat \<Rightarrow> nat \<Rightarrow> jsstring \<Rightarrow> bool" where
  "b64_string n pad s \<longleftrightarrow>
     length s = n + pad \<and> list_all b64_char (take n s) \<and> drop n s = replicate pad (CHR ''='')"

section \<open>Verification\<close>

datatype auth_code = SIGNATURE_INVALID | UNKNOWN_KEY | NOT_APPROVED | REVOKED | CLOCK_SKEW | NONCE_REPLAY

text \<open>\<open>Auth_throws\<close> is the \<open>TypeError\<close> of a stored public key that is not 32 bytes long.\<close>

datatype auth_result = Auth_fail auth_code "int option" | Auth_throws | Auth_ok "lkey option"

record signed_request =
  sr_method :: jsstring
  sr_target :: jsstring
  sr_key :: "jsstring option"
  sr_time :: "jsstring option"
  sr_nonce :: "jsstring option"
  sr_sig :: "jsstring option"
  sr_body :: bytes

record crypto =
  sha256_hex :: "bytes \<Rightarrow> jsstring"
  ed_verify :: "bytes \<Rightarrow> bytes \<Rightarrow> bytes \<Rightarrow> bool"
  json_of :: "bytes \<Rightarrow> json option"

text \<open>The options of the handler and of its nonce store.\<close>

record auth_config =
  ac_statuses :: "key_status list"
  ac_unknown :: bool
  ac_ttl :: time
  ac_max :: nat

definition agent_config :: auth_config where
  "agent_config = \<lparr>ac_statuses = [Approved], ac_unknown = False, ac_ttl = 600000, ac_max = 50000\<rparr>"

definition enroll_config :: auth_config where
  "enroll_config = agent_config\<lparr>ac_statuses := [Pending, Approved, Rejected, Revoked], ac_unknown := True\<rparr>"

definition well_formed :: "signed_request \<Rightarrow> bool" where
  "well_formed rq \<longleftrightarrow>
     (case (sr_key rq, sr_time rq, sr_nonce rq, sr_sig rq) of
        (Some k, Some t, Some n, Some s) \<Rightarrow>
          hex_string 64 k \<and> int_string t \<and> safe_integer (int_val t) \<and> hex_string 32 n \<and> b64_string 86 2 s
      | _ \<Rightarrow> False)"

text \<open>Lines 49-58: the public key the signature is checked with, or the refusal.\<close>

definition presented_key :: "crypto \<Rightarrow> jsstring \<Rightarrow> bytes \<Rightarrow> bytes option" where
  "presented_key cr fp body =
     (case jprop (json_of cr body) ''public_key'' of
        Some (JStr e) \<Rightarrow>
          let raw = b64_dec e in
          if b64_string 43 1 e \<and> length raw = 32 \<and> b64_enc raw = e \<and> sha256_hex cr raw = fp then Some raw else None
      | _ \<Rightarrow> None)"

definition nonce_id :: "jsstring \<Rightarrow> jsstring \<Rightarrow> jsstring" where
  "nonce_id fp nonce = js_lower fp @ '':'' @ js_lower nonce"

definition signed_bytes :: "crypto \<Rightarrow> signed_request \<Rightarrow> bytes" where
  "signed_bytes cr rq =
     canonicalString (sr_method rq) (sr_target rq) (the (sr_time rq)) (the (sr_nonce rq)) (sha256_hex cr (sr_body rq))"

text \<open>
  \<open>now\<close> in seconds; \<open>t1\<close> is the clock read by \<open>has\<close>, \<open>t2\<close> and \<open>t3\<close> by \<open>seen\<close>.
\<close>

definition verifyDeviceRequest ::
    "crypto \<Rightarrow> auth_config \<Rightarrow> (jsstring \<Rightarrow> lkey option) \<Rightarrow> int \<Rightarrow> time \<Rightarrow> time \<Rightarrow> time \<Rightarrow> signed_request
      \<Rightarrow> nonce_store \<Rightarrow> auth_result \<times> nonce_store" where
  "verifyDeviceRequest cr cfg lookup now t1 t2 t3 rq st =
     (if \<not> well_formed rq then (Auth_fail SIGNATURE_INVALID None, st)
      else
        let fp = js_lower (the (sr_key rq));
            sig = b64_dec (the (sr_sig rq));
            nid = nonce_id (the (sr_key rq)) (the (sr_nonce rq));
            key = lookup fp in
        if b64_enc sig \<noteq> the (sr_sig rq) then (Auth_fail SIGNATURE_INVALID None, st)
        else if key = None \<and> \<not> ac_unknown cfg then (Auth_fail UNKNOWN_KEY None, st)
        else if key = None \<and> presented_key cr fp (sr_body rq) = None then (Auth_fail SIGNATURE_INVALID None, st)
        else if key \<noteq> None \<and> lk_status (the key) \<notin> set (ac_statuses cfg)
        then (Auth_fail (if lk_status (the key) = Revoked then REVOKED else NOT_APPROVED) None, st)
        else if \<bar>now - int_val (the (sr_time rq))\<bar> > 300 then (Auth_fail CLOCK_SKEW (Some now), st)
        else
          let public = (case key of Some k \<Rightarrow> lk_public k | None \<Rightarrow> the (presented_key cr fp (sr_body rq))) in
          case nonce_has t1 nid st of
            (True, st1) \<Rightarrow> (Auth_fail NONCE_REPLAY None, st1)
          | (False, st1) \<Rightarrow>
              if length public \<noteq> 32 then (Auth_throws, st1)
              else if \<not> ed_verify cr public (signed_bytes cr rq) sig then (Auth_fail SIGNATURE_INVALID None, st1)
              else (case nonce_seen (ac_ttl cfg) (ac_max cfg) t2 t3 nid st1 of
                      (True, st2) \<Rightarrow> (Auth_fail NONCE_REPLAY None, st2)
                    | (False, st2) \<Rightarrow> (Auth_ok key, st2)))"

text \<open>
  The preValidation hook: the keys are looked up in the database, \<open>now\<close> is the clock
  reading \<open>t0\<close> in seconds.
\<close>

definition deviceAuth ::
    "crypto \<Rightarrow> auth_config \<Rightarrow> db \<Rightarrow> time \<times> time \<times> time \<times> time \<Rightarrow> signed_request \<Rightarrow> nonce_store
      \<Rightarrow> auth_result \<times> nonce_store" where
  "deviceAuth cr cfg d ts rq st =
     (case ts of (t0, t1, t2, t3) \<Rightarrow>
        verifyDeviceRequest cr cfg (find_fp d) (t0 div 1000) t1 t2 t3 rq st)"

section \<open>The signed string determines the request\<close>

lemma no_nl_split:
  assumes "CHR 0x0A \<notin> set a" "CHR 0x0A \<notin> set b" "a @ nl @ x = b @ nl @ y"
  shows "a = b \<and> x = y"
  using assms by (induction a arbitrary: b) (auto simp: nl_def Cons_eq_append_conv append_eq_Cons_conv)

lemma upper_no_nl: "CHR 0x0A \<notin> set s \<Longrightarrow> CHR 0x0A \<notin> set (js_upper s)"
proof -
  have "upper_char c = CHR 0x0A \<Longrightarrow> c = CHR 0x0A" for c
    by (simp add: char_eq_iff of_char_upper_char split: if_splits)
  then show "CHR 0x0A \<notin> set s \<Longrightarrow> CHR 0x0A \<notin> set (js_upper s)" by (auto simp: js_upper_def) metis
qed

text \<open>
  what is signed determines the request: two requests whose method, target, timestamp
  and nonce hold no line break (the form check and HTTP see to that) and whose signed
  strings are equal have the same method (up to case), target, timestamp, nonce and body
  hash. No field can be moved into its neighbour.
\<close>

theorem canonicalString_injective:
  assumes "CHR 0x0A \<notin> set m1 \<union> set t1 \<union> set s1 \<union> set n1" and "CHR 0x0A \<notin> set m2 \<union> set t2 \<union> set s2 \<union> set n2"
    and "canonicalString m1 t1 s1 n1 h1 = canonicalString m2 t2 s2 n2 h2"
  shows "js_upper m1 = js_upper m2 \<and> t1 = t2 \<and> s1 = s2 \<and> n1 = n2 \<and> h1 = h2"
proof -
  have nl: "CHR 0x0A \<notin> set (js_upper m1)" "CHR 0x0A \<notin> set (js_upper m2)"
    "CHR 0x0A \<notin> set t1" "CHR 0x0A \<notin> set t2" "CHR 0x0A \<notin> set s1" "CHR 0x0A \<notin> set s2"
    "CHR 0x0A \<notin> set n1" "CHR 0x0A \<notin> set n2"
    using assms(1,2) upper_no_nl [of m1] upper_no_nl [of m2] by simp_all
  have "js_upper m1 @ nl @ t1 @ nl @ s1 @ nl @ n1 @ nl @ h1 = js_upper m2 @ nl @ t2 @ nl @ s2 @ nl @ n2 @ nl @ h2"
    using assms(3) by (simp add: canonicalString_def nl_def)
  from no_nl_split [OF nl(1,2) this] have 1: "js_upper m1 = js_upper m2"
    "t1 @ nl @ s1 @ nl @ n1 @ nl @ h1 = t2 @ nl @ s2 @ nl @ n2 @ nl @ h2" by simp_all
  from no_nl_split [OF nl(3,4) 1(2)] have 2: "t1 = t2" "s1 @ nl @ n1 @ nl @ h1 = s2 @ nl @ n2 @ nl @ h2" by simp_all
  from no_nl_split [OF nl(5,6) 2(2)] have 3: "s1 = s2" "n1 @ nl @ h1 = n2 @ nl @ h2" by simp_all
  from no_nl_split [OF nl(7,8) 3(2)] 1 2 3 show ?thesis by simp
qed

theorem canonicalString_injective_witness:
  "canonicalString ''get'' ''/a'' ''1'' ''n'' ''h'' = canonicalString ''GET'' ''/a'' ''1'' ''n'' ''h'' \<and>
   js_upper ''get'' = js_upper ''GET''"
proof -
  have c: "canonicalString ''get'' ''/a'' ''1'' ''n'' ''h'' = canonicalString ''GET'' ''/a'' ''1'' ''n'' ''h''" by code_simp
  from canonicalString_injective [OF _ _ this] have "js_upper ''get'' = js_upper ''GET''" by simp
  with c show ?thesis by simp
qed

section \<open>Acceptance\<close>

lemma verify_ok:
  assumes "verifyDeviceRequest cr cfg lookup now t1 t2 t3 rq st = (Auth_ok key, st')"
  obtains st1 pub where "well_formed rq" "key = lookup (js_lower (the (sr_key rq)))"
    "b64_enc (b64_dec (the (sr_sig rq))) = the (sr_sig rq)"
    "case key of None \<Rightarrow> ac_unknown cfg \<and> presented_key cr (js_lower (the (sr_key rq))) (sr_body rq) = Some pub
       | Some k \<Rightarrow> lk_status k \<in> set (ac_statuses cfg) \<and> lk_public k = pub"
    "\<bar>now - int_val (the (sr_time rq))\<bar> \<le> 300"
    "nonce_has t1 (nonce_id (the (sr_key rq)) (the (sr_nonce rq))) st = (False, st1)"
    "length pub = 32" "ed_verify cr pub (signed_bytes cr rq) (b64_dec (the (sr_sig rq)))"
    "nonce_seen (ac_ttl cfg) (ac_max cfg) t2 t3 (nonce_id (the (sr_key rq)) (the (sr_nonce rq))) st1 = (False, st')"
proof -
  define nid where "nid = nonce_id (the (sr_key rq)) (the (sr_nonce rq))"
  define fp where "fp = js_lower (the (sr_key rq))"
  define k where "k = lookup fp"
  define pub where "pub = (case k of Some k \<Rightarrow> lk_public k | None \<Rightarrow> the (presented_key cr fp (sr_body rq)))"
  note run = assms [unfolded verifyDeviceRequest_def Let_def, folded nid_def fp_def, folded k_def, folded pub_def]
  from run have g: "well_formed rq" "b64_enc (b64_dec (the (sr_sig rq))) = the (sr_sig rq)"
    "k = None \<Longrightarrow> ac_unknown cfg" "k = None \<Longrightarrow> presented_key cr fp (sr_body rq) \<noteq> None"
    "k \<noteq> None \<Longrightarrow> lk_status (the k) \<in> set (ac_statuses cfg)" "\<bar>now - int_val (the (sr_time rq))\<bar> \<le> 300"
    by (auto split: if_splits)
  have run2: "(case nonce_has t1 nid st of
      (True, st1) \<Rightarrow> (Auth_fail NONCE_REPLAY None, st1)
    | (False, st1) \<Rightarrow> if length pub \<noteq> 32 then (Auth_throws, st1)
        else if \<not> ed_verify cr pub (signed_bytes cr rq) (b64_dec (the (sr_sig rq))) then (Auth_fail SIGNATURE_INVALID None, st1)
        else (case nonce_seen (ac_ttl cfg) (ac_max cfg) t2 t3 nid st1 of
                (True, st2) \<Rightarrow> (Auth_fail NONCE_REPLAY None, st2) | (False, st2) \<Rightarrow> (Auth_ok k, st2))) = (Auth_ok key, st')"
    using run g by (auto split: if_splits)
  then obtain st1 where has: "nonce_has t1 nid st = (False, st1)"
    by (auto split: prod.splits bool.splits)
  with run2 have rest: "length pub = 32" "ed_verify cr pub (signed_bytes cr rq) (b64_dec (the (sr_sig rq)))"
    "nonce_seen (ac_ttl cfg) (ac_max cfg) t2 t3 nid st1 = (False, st')" "key = k"
    by (auto split: if_splits prod.splits bool.splits)
  have "case key of None \<Rightarrow> ac_unknown cfg \<and> presented_key cr fp (sr_body rq) = Some pub
       | Some k \<Rightarrow> lk_status k \<in> set (ac_statuses cfg) \<and> lk_public k = pub"
    using g(3,4,5) rest(4) by (auto simp: pub_def split: option.split)
  note sel = this [unfolded fp_def]
  show ?thesis
    using g(1,2,6) has rest sel
    by (intro that [where pub = pub and ?st1.0 = st1]) (simp_all add: nid_def fp_def k_def)
qed

text \<open>
  C12: an accepted request is authentic. Its key is the one the database has for the
  presented fingerprint and its status is allowed (or, on the enrolment route only, the key
  in the body, whose fingerprint is the presented one); the signature over method, target,
  timestamp, nonce and body verifies under that key and is in canonical base64; the clocks
  agree within 300 seconds; the nonce was not live and is stored for \<open>ac_ttl\<close>.
\<close>

theorem accepted_request_is_authentic:
  assumes "deviceAuth cr cfg d (t0, t1, t2, t3) rq st = (Auth_ok key, st')" and "jm_wf (ns_nonces st)" and "0 < ac_max cfg"
  shows "\<exists>fp stamp nonce sig pub. sr_key rq = Some fp \<and> sr_time rq = Some stamp \<and> sr_nonce rq = Some nonce \<and> sr_sig rq = Some sig \<and>
    key = find_fp d (js_lower fp) \<and>
    (case key of Some k \<Rightarrow> lk_status k \<in> set (ac_statuses cfg) \<and> pub = lk_public k
     | None \<Rightarrow> ac_unknown cfg \<and> sha256_hex cr pub = js_lower fp) \<and>
    ed_verify cr pub (canonicalString (sr_method rq) (sr_target rq) stamp nonce (sha256_hex cr (sr_body rq))) (b64_dec sig) \<and>
    b64_enc (b64_dec sig) = sig \<and> \<bar>t0 div 1000 - int_val stamp\<bar> \<le> 300 \<and>
    \<not> fst (nonce_has t1 (nonce_id fp nonce) st) \<and>
    jm_get (ns_nonces st') (nonce_id fp nonce) = Some (t3 + ac_ttl cfg)"
proof -
  have run: "verifyDeviceRequest cr cfg (find_fp d) (t0 div 1000) t1 t2 t3 rq st = (Auth_ok key, st')"
    using assms(1) by (simp add: deviceAuth_def)
  then show ?thesis
  proof (rule verify_ok)
    fix st1 pub
    assume v: "well_formed rq" "key = find_fp d (js_lower (the (sr_key rq)))"
      "b64_enc (b64_dec (the (sr_sig rq))) = the (sr_sig rq)"
      "case key of None \<Rightarrow> ac_unknown cfg \<and> presented_key cr (js_lower (the (sr_key rq))) (sr_body rq) = Some pub
         | Some k \<Rightarrow> lk_status k \<in> set (ac_statuses cfg) \<and> lk_public k = pub"
      "\<bar>t0 div 1000 - int_val (the (sr_time rq))\<bar> \<le> 300"
      "nonce_has t1 (nonce_id (the (sr_key rq)) (the (sr_nonce rq))) st = (False, st1)"
      "length pub = 32" "ed_verify cr pub (signed_bytes cr rq) (b64_dec (the (sr_sig rq)))"
      "nonce_seen (ac_ttl cfg) (ac_max cfg) t2 t3 (nonce_id (the (sr_key rq)) (the (sr_nonce rq))) st1 = (False, st')"
    from v(1) obtain fp stamp nonce sig where h: "sr_key rq = Some fp" "sr_time rq = Some stamp" "sr_nonce rq = Some nonce" "sr_sig rq = Some sig"
      by (auto simp: well_formed_def split: option.splits)
    have wf1: "jm_wf (ns_nonces st1)"
      using nonce_has_wf [OF assms(2), of t1 "nonce_id fp nonce"] v(6) by (simp add: h)
    have "recent (nonce_id fp nonce) (t3 + ac_ttl cfg) 0 st'"
      using nonce_seen_stores [of "ac_ttl cfg" "ac_max cfg" t2 t3 "nonce_id fp nonce" st1] v(9) wf1 assms(3) by (simp add: h)
    then have stored: "jm_get (ns_nonces st') (nonce_id fp nonce) = Some (t3 + ac_ttl cfg)" by (rule recent_get)
    have pres: "presented_key cr f b = Some p \<Longrightarrow> sha256_hex cr p = f" for f b p
      by (auto simp: presented_key_def Let_def split: option.splits json.splits if_splits)
    note v' = v(2-6,8) [unfolded signed_bytes_def h option.sel]
    have "case key of Some k \<Rightarrow> lk_status k \<in> set (ac_statuses cfg) \<and> pub = lk_public k
        | None \<Rightarrow> ac_unknown cfg \<and> sha256_hex cr pub = js_lower fp"
      using v'(3) pres by (cases key) auto
    moreover have "\<not> fst (nonce_has t1 (nonce_id fp nonce) st)" using v'(5) by simp
    ultimately show ?thesis using stored v'(1,2,4,6) h by blast
  qed
qed

section \<open>Replay\<close>

text \<open>The requests that reach the handler, each with its clock readings; the answers in order.\<close>

fun auth_run :: "crypto \<Rightarrow> auth_config \<Rightarrow> (db \<times> (time \<times> time \<times> time \<times> time) \<times> signed_request) list
      \<Rightarrow> nonce_store \<Rightarrow> auth_result list \<times> nonce_store" where
  "auth_run cr cfg [] st = ([], st)"
| "auth_run cr cfg ((d, ts, rq) # rs) st =
     (case deviceAuth cr cfg d ts rq st of
        (r, st1) \<Rightarrow> (case auth_run cr cfg rs st1 of (out, st2) \<Rightarrow> (r # out, st2)))"

fun accepted_result :: "auth_result \<Rightarrow> bool" where
  "accepted_result (Auth_ok k) = True"
| "accepted_result _ = False"

definition accepted_count :: "auth_result list \<Rightarrow> nat" where
  "accepted_count out = length (filter accepted_result out)"

lemma verify_store:
  assumes has: "nonce_has t1 (nonce_id (the (sr_key rq)) (the (sr_nonce rq))) st = (b, s1)"
    and seen: "nonce_seen (ac_ttl cfg) (ac_max cfg) t2 t3 (nonce_id (the (sr_key rq)) (the (sr_nonce rq))) s1 = (c, s2)"
    and run: "verifyDeviceRequest cr cfg lookup now t1 t2 t3 rq st = (res, st')"
  shows "(st' = st \<and> \<not> accepted_result res) \<or> (st' = s1 \<and> \<not> accepted_result res) \<or>
      (st' = s2 \<and> c \<and> \<not> accepted_result res) \<or> (st' = s2 \<and> \<not> c \<and> accepted_result res)"
  using run by (auto simp: verifyDeviceRequest_def Let_def has seen split: if_splits bool.splits)

text \<open>A live nonce survives any request that reads the clock before it expires.\<close>

lemma verify_recent:
  assumes r: "recent i e k st" and t: "t1 < e" "t2 < e"
    and run: "verifyDeviceRequest cr cfg lookup now t1 t2 t3 rq st = (res, st')"
    and cap: "accepted_result res \<longrightarrow> Suc k < ac_max cfg"
  shows "recent i e (if accepted_result res then Suc k else k) st'"
proof -
  let ?id = "nonce_id (the (sr_key rq)) (the (sr_nonce rq))"
  obtain b s1 where has: "nonce_has t1 ?id st = (b, s1)" by fastforce
  obtain c s2 where seen: "nonce_seen (ac_ttl cfg) (ac_max cfg) t2 t3 ?id s1 = (c, s2)" by fastforce
  have r1: "recent i e k s1" using nonce_has_recent [OF r t(1), of ?id] has by simp
  have "recent i e k s2" if c
  proof -
    have "fst (nonce_has t2 ?id s1)"
      using seen that nonce_seen_fresh(1) [of t2 ?id s1] r1 by (force simp: recent_def)
    with nonce_seen_old [OF this, of "ac_ttl cfg" "ac_max cfg" t3] seen nonce_has_recent [OF r1 t(2), of ?id]
    show ?thesis by simp
  qed
  moreover have "recent i e (Suc k) s2" if "\<not> c" "accepted_result res"
    using nonce_seen_recent [OF r1 t(2), of "ac_max cfg" "ac_ttl cfg" t3 ?id] that cap seen by simp
  ultimately show ?thesis using verify_store [OF has seen run] r r1 by auto
qed

lemma verify_live_nonce:
  assumes "recent (nonce_id (the (sr_key rq)) (the (sr_nonce rq))) e k st" "t1 < e"
  shows "\<not> accepted_result (fst (verifyDeviceRequest cr cfg lookup now t1 t2 t3 rq st))"
proof
  assume acc: "accepted_result (fst (verifyDeviceRequest cr cfg lookup now t1 t2 t3 rq st))"
  obtain res st' where run: "verifyDeviceRequest cr cfg lookup now t1 t2 t3 rq st = (res, st')" by fastforce
  with acc obtain key where "res = Auth_ok key" by (cases res) auto
  with run have "verifyDeviceRequest cr cfg lookup now t1 t2 t3 rq st = (Auth_ok key, st')" by simp
  then show False
    by (rule verify_ok) (use nonce_has_alive [OF assms] in simp)
qed

lemma auth_run_recent:
  assumes "recent i e k st" "\<forall>(d, (t0, t1, t2, t3), rq) \<in> set rs. t1 < e \<and> t2 < e"
    "auth_run cr cfg rs st = (out, st')" "k + accepted_count out < ac_max cfg"
  shows "\<exists>k'. recent i e k' st'"
  using assms
proof (induction rs arbitrary: k st out st')
  case (Cons r rs)
  obtain d t0 t1 t2 t3 rq where r: "r = (d, (t0, t1, t2, t3), rq)" by (cases r) auto
  obtain res st1 where step: "deviceAuth cr cfg d (t0, t1, t2, t3) rq st = (res, st1)" by fastforce
  obtain out1 st2 where rest: "auth_run cr cfg rs st1 = (out1, st2)" by fastforce
  from Cons.prems(3) r step rest have o1: "out = res # out1" "st' = st2" by simp_all
  have clock: "t1 < e" "t2 < e" using Cons.prems(2) by (simp_all add: r)
  have cap: "accepted_result res \<longrightarrow> Suc k < ac_max cfg" using Cons.prems(4) by (auto simp: o1 accepted_count_def)
  from step have "verifyDeviceRequest cr cfg (find_fp d) (t0 div 1000) t1 t2 t3 rq st = (res, st1)"
    by (simp add: deviceAuth_def)
  from verify_recent [OF Cons.prems(1) clock this cap]
  have r1: "recent i e (if accepted_result res then Suc k else k) st1" .
  have "\<forall>(d, (t0, t1, t2, t3), rq) \<in> set rs. t1 < e \<and> t2 < e" using Cons.prems(2) by simp
  from Cons.IH [OF r1 this rest] Cons.prems(4) show ?case
    by (simp add: o1 accepted_count_def split: if_splits)
qed auto

text \<open>
  C13: no replay. After a request was accepted, whatever other requests the server treats,
  a request with the same fingerprint, nonce and timestamp is refused: either the nonce is
  still live, or the timestamp is out of its 300 seconds. This holds when fewer than
  \<open>ac_max\<close> requests were accepted in between, and when the nonce outlives the timestamp:
  its expiry is not before the last second in which the timestamp passes, plus the lag
  between the two clock readings of a request.
\<close>

theorem signed_request_is_not_replayed:
  assumes "deviceAuth cr cfg d (t0, t1, t2, t3) rq st = (Auth_ok key, st1)" and "jm_wf (ns_nonces st)"
    and "auth_run cr cfg rs st1 = (out, st2)" and "accepted_count out < ac_max cfg"
    and "\<forall>(d, (t0, t1, t2, t3), rq) \<in> set rs. t1 \<le> u1 \<and> t2 \<le> u1" and "u1 \<le> u0 + lag"
    and "1000 * (int_val (the (sr_time rq)) + 301) + lag \<le> t3 + ac_ttl cfg"
    and "nonce_id (the (sr_key rq')) (the (sr_nonce rq')) = nonce_id (the (sr_key rq)) (the (sr_nonce rq))"
    and "sr_time rq' = sr_time rq"
  shows "\<not> accepted_result (fst (deviceAuth cr cfg d' (u0, u1, u2, u3) rq' st2))"
proof (cases "1000 * (int_val (the (sr_time rq)) + 301) \<le> u0")
  case late: True
  show ?thesis
  proof
    assume "accepted_result (fst (deviceAuth cr cfg d' (u0, u1, u2, u3) rq' st2))"
    then obtain k s where run: "verifyDeviceRequest cr cfg (find_fp d') (u0 div 1000) u1 u2 u3 rq' st2 = (Auth_ok k, s)"
      by (cases "deviceAuth cr cfg d' (u0, u1, u2, u3) rq' st2"; cases "fst (deviceAuth cr cfg d' (u0, u1, u2, u3) rq' st2)")
        (auto simp: deviceAuth_def)
    have "int_val (the (sr_time rq)) + 301 \<le> u0 div 1000" using late by simp
    moreover from run have "\<bar>u0 div 1000 - int_val (the (sr_time rq))\<bar> \<le> 300" by (rule verify_ok) (simp add: assms(9))
    ultimately show False by linarith
  qed
next
  case False
  define e where "e = t3 + ac_ttl cfg"
  have u: "u1 < e" using False assms(6,7) by (simp add: e_def)
  have run: "verifyDeviceRequest cr cfg (find_fp d) (t0 div 1000) t1 t2 t3 rq st = (Auth_ok key, st1)"
    using assms(1) by (simp add: deviceAuth_def)
  have "recent (nonce_id (the (sr_key rq)) (the (sr_nonce rq))) e 0 st1"
    using run
  proof (rule verify_ok)
    fix s pub
    assume has: "nonce_has t1 (nonce_id (the (sr_key rq)) (the (sr_nonce rq))) st = (False, s)"
      and seen: "nonce_seen (ac_ttl cfg) (ac_max cfg) t2 t3 (nonce_id (the (sr_key rq)) (the (sr_nonce rq))) s = (False, st1)"
    have "jm_wf (ns_nonces s)" using nonce_has_wf [OF assms(2)] has by (metis snd_conv)
    with nonce_seen_stores [of "ac_ttl cfg" "ac_max cfg" t2 t3 _ s] seen assms(4) show ?thesis
      unfolding e_def by (metis fst_conv snd_conv gr_zeroI not_less_zero)
  qed
  moreover have "\<forall>(d, (t0, t1, t2, t3), rq) \<in> set rs. t1 < e \<and> t2 < e"
    using assms(5) u by fastforce
  ultimately obtain k where "recent (nonce_id (the (sr_key rq)) (the (sr_nonce rq))) e k st2"
    using auth_run_recent [OF _ _ assms(3)] assms(4) by fastforce
  then have "recent (nonce_id (the (sr_key rq')) (the (sr_nonce rq'))) e k st2" using assms(8) by simp
  from verify_live_nonce [OF this u] show ?thesis by (simp add: deviceAuth_def)
qed

section \<open>A concrete exchange\<close>

definition sample_crypto :: crypto where
  "sample_crypto = \<lparr>sha256_hex = (\<lambda>_. replicate 64 CHR ''a''), ed_verify = (\<lambda>_ _ _. True), json_of = (\<lambda>_. None)\<rparr>"

definition sample_auth_db :: db where
  "sample_auth_db = empty_db\<lparr>db_keys :=
     [\<lparr>lk_id = 1, lk_device = Some 2, lk_fp = replicate 64 CHR ''a'', lk_public = replicate 32 CHR ''k'', lk_backing = ''tpm'',
       lk_serial = None, lk_hostname = None, lk_os = None, lk_agent = None, lk_status = Approved, lk_source = Manual,
       lk_conflict = None, lk_first_seen = 0, lk_last_seen = 0, lk_attempts = 1, lk_approved = None, lk_rejected = None,
       lk_revoked = None, lk_reason = None, lk_luks_root = False\<rparr>]\<rparr>"

definition sample_request :: "jsstring \<Rightarrow> signed_request" where
  "sample_request stamp =
     \<lparr>sr_method = ''POST'', sr_target = ''/x'', sr_key = Some (replicate 64 CHR ''A''), sr_time = Some stamp,
      sr_nonce = Some (replicate 32 CHR ''0''), sr_sig = Some (replicate 86 CHR ''A'' @ ''==''), sr_body = []\<rparr>"

lemma zero_digits: "List.map_filter b64_val (takeWhile (\<lambda>c. c \<noteq> CHR ''='') (replicate n (CHR ''A'') @ ''=='')) = replicate n 0"
  by (induction n) (simp_all add: List.map_filter_simps b64_val_def js_char_defs)

lemma zero_bytes: "b64_bytes (concat (replicate n [0, 0, 0, 0]) @ [0, 0]) = concat (replicate n [CHR 0x00, CHR 0x00, CHR 0x00]) @ [CHR 0x00]"
  by (induction n) (simp_all add: char_eq_iff)

lemma zero_text: "b64_enc (concat (replicate n [CHR 0x00, CHR 0x00, CHR 0x00]) @ [CHR 0x00]) = concat (replicate n ''AAAA'') @ ''AA==''"
  by (induction n) (simp_all add: b64_digit_def char_eq_iff)

lemma concat_replicate4: "concat (replicate n [x, x, x, x]) @ [x, x] = replicate (4 * n + 2) x"
proof -
  have "concat (replicate n [x, x, x, x]) = replicate (4 * n) x"
    by (induction n) (simp_all add: numeral_eq_Suc)
  moreover have "[x, x] = replicate 2 x" by (simp add: numeral_2_eq_2)
  ultimately show ?thesis by (simp only: replicate_add)
qed

lemma sample_sig:
  "b64_enc (b64_dec (replicate 86 (CHR ''A'') @ ''=='')) = replicate 86 (CHR ''A'') @ ''==''"
  "b64_string 86 2 (replicate 86 (CHR ''A'') @ ''=='')"
proof -
  have "b64_dec (replicate 86 (CHR ''A'') @ ''=='') = concat (replicate 21 [CHR 0x00, CHR 0x00, CHR 0x00]) @ [CHR 0x00]"
    using zero_bytes [of 21] concat_replicate4 [of 21 "0 :: nat"] by (simp only: b64_dec_def zero_digits) simp
  moreover have "concat (replicate 21 ''AAAA'') @ ''AA=='' = replicate 86 (CHR ''A'') @ ''==''"
    using concat_replicate4 [of 21 "CHR ''A''"] by simp
  ultimately show "b64_enc (b64_dec (replicate 86 (CHR ''A'') @ ''=='')) = replicate 86 (CHR ''A'') @ ''==''"
    by (simp only: zero_text)
  show "b64_string 86 2 (replicate 86 (CHR ''A'') @ ''=='')"
    by (simp add: b64_string_def b64_char_def js_char_defs list_all_iff numeral_2_eq_2)
qed

lemma lower_replicate [simp]: "js_lower (replicate n c) = replicate n (lower_char c)"
  by (simp add: js_lower_def)

definition sample_nonce :: jsstring where
  "sample_nonce = nonce_id (replicate 64 CHR ''A'') (replicate 32 CHR ''0'')"

lemma sample_verify:
  assumes "int_string stamp" "\<bar>int_val stamp\<bar> \<le> 100000" "\<bar>t0 div 1000 - int_val stamp\<bar> \<le> 300"
    and "nonce_has t1 sample_nonce st = (False, s1)" and "nonce_seen 600000 50000 t2 t3 sample_nonce s1 = (False, s2)"
  shows "\<exists>k. deviceAuth sample_crypto agent_config sample_auth_db (t0, t1, t2, t3) (sample_request stamp) st = (Auth_ok k, s2)"
proof -
  have fp: "lower_char (CHR ''A'') = CHR ''a''" by (simp add: char_eq_iff of_char_lower_char)
  obtain k where k: "find_fp sample_auth_db (replicate 64 (CHR ''a'')) = Some k" "lk_status k = Approved" "length (lk_public k) = 32"
    by (simp add: sample_auth_db_def find_fp_def)
  have "well_formed (sample_request stamp)"
    using assms(1,2) sample_sig(2)
    by (simp add: well_formed_def sample_request_def hex_string_def safe_integer_def list_all_iff js_char_defs)
  with assms k show ?thesis
    by (simp add: deviceAuth_def verifyDeviceRequest_def Let_def sample_request_def fp sample_sig(1) agent_config_def
        sample_crypto_def sample_nonce_def)
qed

lemma nonce_store_first:
  "nonce_has 0 i nonce_init = (False, \<lparr>ns_nonces = [], ns_accesses = 1\<rparr>)"
  "nonce_seen 600000 50000 0 0 i \<lparr>ns_nonces = [], ns_accesses = 1\<rparr> = (False, \<lparr>ns_nonces = [(i, 600000)], ns_accesses = 2\<rparr>)"
  by (simp_all add: nonce_has_def nonce_seen_def nonce_init_def jm_get_def jm_set_def)

lemma sample_first:
  assumes "int_string stamp" "\<bar>int_val stamp\<bar> \<le> 300"
  shows "\<exists>k. deviceAuth sample_crypto agent_config sample_auth_db (0, 0, 0, 0) (sample_request stamp) nonce_init
    = (Auth_ok k, \<lparr>ns_nonces = [(sample_nonce, 600000)], ns_accesses = 2\<rparr>)"
  by (rule sample_verify [OF _ _ _ nonce_store_first(1,2)]) (use assms in simp_all)

theorem accepted_request_is_authentic_witness:
  "\<exists>k st'. deviceAuth sample_crypto agent_config sample_auth_db (0, 0, 0, 0) (sample_request ''0'') nonce_init = (Auth_ok k, st') \<and>
     k = find_fp sample_auth_db (js_lower (replicate 64 CHR ''A''))"
proof -
  obtain k st' where run: "deviceAuth sample_crypto agent_config sample_auth_db (0, 0, 0, 0) (sample_request ''0'') nonce_init = (Auth_ok k, st')"
    using sample_first [of "''0''"] by (auto simp: int_string_def int_val_def dec_val_def js_char_defs digit_val_def)
  have "sr_key (sample_request ''0'') = Some (replicate 64 CHR ''A'')" by (simp add: sample_request_def)
  with accepted_request_is_authentic [OF run] run show ?thesis
    by (auto simp: nonce_init_def agent_config_def)
qed

theorem signed_request_is_not_replayed_witness:
  "\<exists>k st1. deviceAuth sample_crypto agent_config sample_auth_db (0, 0, 0, 0) (sample_request ''0'') nonce_init = (Auth_ok k, st1) \<and>
     \<not> accepted_result (fst (deviceAuth sample_crypto agent_config sample_auth_db (301000, 301001, 301001, 301001) (sample_request ''0'') st1))"
proof -
  obtain k st1 where run: "deviceAuth sample_crypto agent_config sample_auth_db (0, 0, 0, 0) (sample_request ''0'') nonce_init = (Auth_ok k, st1)"
    using sample_first [of "''0''"] by (auto simp: int_string_def int_val_def dec_val_def js_char_defs digit_val_def)
  have "int_val (the (sr_time (sample_request ''0''))) = 0"
    by (simp add: sample_request_def int_val_def dec_val_def digit_val_def)
  with signed_request_is_not_replayed [OF run, of "[]" "[]" st1 301001 301000 1000 "sample_request ''0''" sample_auth_db 301001 301001] run
  show ?thesis by (auto simp: nonce_init_def agent_config_def accepted_count_def)
qed

text \<open>
  The margin of this property is tight. With the options the routes use, a
  request stamped exactly 300 seconds ahead is accepted, and accepted a second time 600
  seconds later: its nonce expires at the very instant the timestamp still passes.
\<close>

theorem boundary_timestamp_is_accepted_twice:
  "\<exists>k k' st1. deviceAuth sample_crypto agent_config sample_auth_db (0, 0, 0, 0) (sample_request ''300'') nonce_init = (Auth_ok k, st1) \<and>
     fst (deviceAuth sample_crypto agent_config sample_auth_db (600000, 600000, 600000, 600000) (sample_request ''300'') st1) = Auth_ok k'"
proof -
  let ?st1 = "\<lparr>ns_nonces = [(sample_nonce, 600000)], ns_accesses = 2\<rparr>"
  have v: "int_string ''300''" "int_val ''300'' = 300"
    by (simp_all add: int_string_def int_val_def dec_val_def js_char_defs digit_val_def)
  then obtain k where first: "deviceAuth sample_crypto agent_config sample_auth_db (0, 0, 0, 0) (sample_request ''300'') nonce_init = (Auth_ok k, ?st1)"
    using sample_first [of "''300''"] by auto
  have "nonce_has 600000 sample_nonce ?st1 = (False, \<lparr>ns_nonces = [], ns_accesses = 3\<rparr>)"
    by (simp add: nonce_has_def jm_get_def jm_del_def)
  moreover have "nonce_seen 600000 50000 600000 600000 sample_nonce \<lparr>ns_nonces = [], ns_accesses = 3\<rparr>
      = (False, \<lparr>ns_nonces = [(sample_nonce, 1200000)], ns_accesses = 4\<rparr>)"
    by (simp add: nonce_has_def nonce_seen_def jm_get_def jm_set_def)
  ultimately have "\<exists>k'. deviceAuth sample_crypto agent_config sample_auth_db (600000, 600000, 600000, 600000) (sample_request ''300'') ?st1
      = (Auth_ok k', \<lparr>ns_nonces = [(sample_nonce, 1200000)], ns_accesses = 4\<rparr>)"
    using v by (intro sample_verify) simp_all
  with first show ?thesis by (metis fst_conv)
qed

end
