(* ===== verification/PollCursor.thy ===== *)
theory PollCursor imports Prelude begin

text \<open>
  \<open>email-bridge/lib/poll-cursor.js\<close>: one tick of the walk through a mailbox behind a
  cursor, with retries, the search for a verdict on a failing mail, abandonment, and the
  compare-and-set of the cursor.

  Times are milliseconds; the stored cursor and state are the values their ISO and JSON
  texts encode. The listing of Graph, the treatment of a mail and the clock are parameters
  acting on a world of type \<open>'s\<close> (the database, the mailbox, the hour).
\<close>

section \<open>State\<close>

type_synonym mkey = jsstring

text \<open>A mail as the walk sees it; \<open>ml_ts = None\<close> when \<open>Date.parse\<close> gives \<open>NaN\<close>.\<close>

record mail =
  ml_id :: "jsstring option"
  ml_imid :: "jsstring option"
  ml_ts :: "time option"

definition messageKey :: "mail \<Rightarrow> mkey option" where
  "messageKey m = (if truthy (ml_id m) then ml_id m else if truthy (ml_imid m) then ml_imid m else None)"

definition PAGE_SIZE :: nat where "PAGE_SIZE = 50"
definition MAX_PAGES :: nat where "MAX_PAGES = 5"
definition MAX_SKIP_PAGES :: nat where "MAX_SKIP_PAGES = 40"
definition VALVE_COUNT_PAGES :: nat where "VALVE_COUNT_PAGES = 10"
definition MAX_INGEST_ATTEMPTS :: nat where "MAX_INGEST_ATTEMPTS = 5"
definition MIN_POISON_AGE_MS :: time where "MIN_POISON_AGE_MS = 30 * 60000"
definition SUSPECT_ALERT_MS :: time where "SUSPECT_ALERT_MS = 2 * 3600000"

record 'memo retry =
  rt_id :: "mkey option"
  rt_imid :: "jsstring option"
  rt_attempts :: nat
  rt_error :: jsstring
  rt_first_at :: time
  rt_memo :: "'memo option"
  rt_waiting :: bool    \<comment> \<open>\<open>alerted.waiting\<close>\<close>
  rt_systemic :: bool   \<comment> \<open>\<open>alerted.systemic\<close>\<close>

record scan =
  sc_id :: "mkey option"
  sc_at :: time
  sc_done :: "mkey list"
  sc_since :: time

text \<open>The setting \<open>stateKey\<close>: \<open>{ at, done, retry, scan }\<close>.\<close>

record 'memo saved =
  sv_at :: time
  sv_done :: "mkey list"
  sv_retry :: "'memo retry option"
  sv_scan :: "scan option"

text \<open>\<open>parseState\<close>; an absent or unreadable state is \<open>None\<close>.\<close>

definition parseState :: "'memo saved option \<Rightarrow> time \<Rightarrow> mkey list \<times> 'memo retry option \<times> scan option" where
  "parseState raw cursor =
     (case raw of
        None \<Rightarrow> ([], None, None)
      | Some s \<Rightarrow>
          if sv_at s \<noteq> cursor then ([], None, None)
          else
            let retry = (case sv_retry s of Some r \<Rightarrow> if truthy (rt_id r) then Some r else None | None \<Rightarrow> None);
                scan = (case (retry, sv_scan s) of
                          (Some r, Some c) \<Rightarrow> if sc_id c = rt_id r then Some c else None
                        | _ \<Rightarrow> None)
            in (js_uniq (sv_done s), retry, scan))"

text \<open>What \<open>handle\<close> returns: a transient failure, or whether a write was committed.\<close>

datatype 'memo outcome = Retry "jsstring option" "'memo option" | Handled bool

datatype block_reason = Systemic | Waiting

datatype event =
    Ev_blocked block_reason "jsstring option" "mkey option" "time option" time nat jsstring "jsstring option" "time option"
  | Ev_abandoned "jsstring option" "mkey option" "time option" nat jsstring
  | Ev_second_skipped time time nat nat bool

text \<open>A page: every mail scanned, with the flag of those to treat, and the next link.\<close>

record 'l page =
  pg_items :: "(mail \<times> bool) list"
  pg_next :: "'l option"

text \<open>The injected functions. \<open>en_list\<close> gives \<open>None\<close> when the listing fails.\<close>

record ('s, 'memo, 'l) env =
  en_list :: "time \<Rightarrow> 'l option \<Rightarrow> 's \<Rightarrow> 'l page option \<times> 's"
  en_handle :: "mail \<Rightarrow> 'memo option \<Rightarrow> 's \<Rightarrow> 'memo outcome \<times> 's"
  en_clock :: "'s \<Rightarrow> time \<times> 's"

record 'memo suspect =
  su_mail :: mail
  su_key :: "mkey option"
  su_since :: time
  su_at :: time
  su_done :: "mkey list"
  su_retry :: "'memo retry"
  su_jumped :: bool

datatype 'l next_link = No_next | Link 'l | Reread

record ('memo, 'l) poll =
  po_at :: time
  po_done :: "mkey list"
  po_retry :: "'memo retry option"
  po_scan :: "scan option"
  po_suspect :: "'memo suspect option"
  po_jump :: "(time \<times> mkey list) option"
  po_keep :: "scan option"
  po_errors :: nat
  po_abandoned :: nat
  po_pages :: nat
  po_skips :: nat
  po_processed :: nat
  po_progressed :: bool
  po_blocked :: bool
  po_skip_only :: bool
  po_from :: time
  po_next :: "'l option"
  po_gnext :: "'l next_link"
  po_events :: "event list"

section \<open>One mail\<close>

definition newer :: "mail \<Rightarrow> time \<Rightarrow> bool" where
  "newer m t \<longleftrightarrow> (case ml_ts m of Some u \<Rightarrow> u > t | None \<Rightarrow> False)"

definition set_add :: "mkey \<Rightarrow> mkey list \<Rightarrow> mkey list" where
  "set_add k ks = (if k \<in> set ks then ks else ks @ [k])"

definition same_retry :: "'memo retry option \<Rightarrow> mkey option \<Rightarrow> bool" where
  "same_retry retry key \<longleftrightarrow> (case retry of Some r \<Rightarrow> rt_id r = key | None \<Rightarrow> False)"

text \<open>Treated, excluded or given up: the cursor moves up to the mail.\<close>

definition advance :: "mail \<Rightarrow> ('memo, 'l) poll \<Rightarrow> ('memo, 'l) poll" where
  "advance m st =
     (let st1 = (if newer m (po_at st) then st\<lparr>po_at := the (ml_ts m), po_done := []\<rparr> else st);
          st2 = (case messageKey m of Some k \<Rightarrow> st1\<lparr>po_done := set_add k (po_done st1)\<rparr> | None \<Rightarrow> st1);
          st3 = (if same_retry (po_retry st2) (messageKey m) then st2\<lparr>po_retry := None\<rparr> else st2)
      in st3\<lparr>po_progressed := True\<rparr>)"

text \<open>The audit row of a blocked mailbox, with the cursor its recovery statement sets.\<close>

definition alertBlocked :: "mail \<Rightarrow> 'memo retry \<Rightarrow> jsstring option \<Rightarrow> block_reason \<Rightarrow> event" where
  "alertBlocked m rec next_error reason =
     Ev_blocked reason (rt_imid rec) (rt_id rec) (ml_ts m) (rt_first_at rec) (rt_attempts rec) (rt_error rec) next_error
       (map_option (\<lambda>ts. ts div 1000 * 1000 + 1000) (ml_ts m))"

definition abandon :: "mail \<Rightarrow> mkey option \<Rightarrow> nat \<Rightarrow> jsstring \<Rightarrow> event" where
  "abandon m key attempts err = Ev_abandoned (ml_imid m) key (ml_ts m) attempts err"

definition error_text :: "jsstring option \<Rightarrow> jsstring" where
  "error_text e = take 500 (if truthy e then the e else ''erreur inconnue'')"

text \<open>A transient failure while a verdict on the suspect is awaited: back to just before the suspect.\<close>

definition systemic_failure :: "jsstring \<Rightarrow> 'memo suspect \<Rightarrow> ('memo, 'l) poll \<Rightarrow> ('memo, 'l) poll" where
  "systemic_failure err su st =
     (let keep = \<lparr>sc_id = su_key su, sc_at = po_at st, sc_done = po_done st, sc_since = su_since su\<rparr>;
          rec = su_retry su;
          st1 = st\<lparr>po_keep := Some keep, po_at := su_at su, po_done := su_done su,
                   po_suspect := None, po_blocked := True\<rparr>
      in if rt_systemic rec then st1\<lparr>po_retry := Some rec\<rparr>
         else st1\<lparr>po_retry := Some (rec\<lparr>rt_systemic := True\<rparr>),
                  po_events := po_events st @ [alertBlocked (su_mail su) rec (Some err) Systemic]\<rparr>)"

text \<open>
  A transient failure of a mail with no suspect pending: the mail is retried at the next
  tick, or becomes the suspect. The booleans tell whether the page continues.
\<close>

definition retry_record ::
    "mail \<Rightarrow> jsstring \<Rightarrow> 'memo option \<Rightarrow> 'memo retry option \<Rightarrow> time \<Rightarrow> 'memo retry" where
  "retry_record m err memo old first_at =
     \<lparr>rt_id = messageKey m, rt_imid = ml_imid m, rt_attempts = (case old of Some r \<Rightarrow> rt_attempts r | None \<Rightarrow> 0) + 1,
      rt_error = err, rt_first_at = first_at, rt_memo = first_some memo (Option.bind old rt_memo),
      rt_waiting = (case old of Some r \<Rightarrow> rt_waiting r | None \<Rightarrow> False),
      rt_systemic = (case old of Some r \<Rightarrow> rt_systemic r | None \<Rightarrow> False)\<rparr>"

definition make_suspect :: "mail \<Rightarrow> time \<Rightarrow> 'memo retry \<Rightarrow> bool \<Rightarrow> ('memo, 'l) poll \<Rightarrow> 'memo suspect" where
  "make_suspect m since rec jumped st =
     \<lparr>su_mail = m, su_key = messageKey m, su_since = since, su_at = po_at st, su_done = po_done st,
      su_retry = rec, su_jumped = jumped\<rparr>"

definition resumed_scan :: "mail \<Rightarrow> scan option \<Rightarrow> scan option" where
  "resumed_scan m sc = (case sc of Some c \<Rightarrow> if sc_id c = messageKey m then Some c else None | None \<Rightarrow> None)"

definition failed_mail ::
    "('s, 'memo, 'l) env \<Rightarrow> mail \<Rightarrow> jsstring \<Rightarrow> 'memo option \<Rightarrow> ('memo, 'l) poll \<Rightarrow> 's \<Rightarrow> bool \<times> ('memo, 'l) poll \<times> 's" where
  "failed_mail e m err memo st w =
     (let old = (if same_retry (po_retry st) (messageKey m) then po_retry st else None) in
      case (case old of Some r \<Rightarrow> (rt_first_at r, w) | None \<Rightarrow> en_clock e w) of
        (first_at, w1) \<Rightarrow>
          let rec = retry_record m err memo old first_at in
          case (if rt_attempts rec < MAX_INGEST_ATTEMPTS then (True, w1)
                else case en_clock e w1 of (t, w2) \<Rightarrow> (t - first_at < MIN_POISON_AGE_MS, w2)) of
            (True, w2) \<Rightarrow> (False, st\<lparr>po_retry := Some rec, po_blocked := True\<rparr>, w2)
          | (False, w2) \<Rightarrow>
              (case resumed_scan m (po_scan st) of
                 Some c \<Rightarrow>
                   (False, st\<lparr>po_suspect := Some (make_suspect m (sc_since c) rec True st), po_scan := None,
                             po_jump := Some (sc_at c, js_uniq (sc_done c))\<rparr>, w2)
               | None \<Rightarrow>
                   (case en_clock e w2 of
                      (since, w3) \<Rightarrow>
                        (True, advance m (st\<lparr>po_suspect := Some (make_suspect m since rec False st), po_scan := None\<rparr>), w3))))"

text \<open>A later mail was written: the failure was the suspect's own, which is given up.\<close>

definition verdict :: "mail \<Rightarrow> 'memo suspect \<Rightarrow> ('memo, 'l) poll \<Rightarrow> bool \<times> ('memo, 'l) poll" where
  "verdict m su st =
     (let rec = su_retry su;
          st1 = st\<lparr>po_events := po_events st @ [abandon (su_mail su) (su_key su) (rt_attempts rec) (rt_error rec)],
                   po_abandoned := po_abandoned st + 1, po_suspect := None\<rparr> in
      if su_jumped su then
        let back = (if newer (su_mail su) (su_at su) then (the (ml_ts (su_mail su)), []) else (su_at su, su_done su));
            dn = (case su_key su of Some k \<Rightarrow> set_add k (snd back) | None \<Rightarrow> snd back)
        in (False, st1\<lparr>po_jump := Some (fst back, dn), po_retry := None\<rparr>)
      else (True, advance m st1))"

definition item_step ::
    "('s, 'memo, 'l) env \<Rightarrow> mail \<Rightarrow> bool \<Rightarrow> ('memo, 'l) poll \<Rightarrow> 's \<Rightarrow> bool \<times> ('memo, 'l) poll \<times> 's" where
  "item_step e m treat st w =
     (let key = messageKey m in
      if \<not> newer m (po_at st) \<and> key \<noteq> None \<and> the key \<in> set (po_done st) then (True, st, w)
      else
        let st0 = st\<lparr>po_skip_only := False\<rparr> in
        if \<not> treat then (True, advance m st0, w)
        else
          case en_handle e m (if same_retry (po_retry st) key then Option.bind (po_retry st) rt_memo else None) w of
            (r, w1) \<Rightarrow>
              let st1 = (if po_suspect st \<noteq> None \<and> r = Handled False then st0
                         else st0\<lparr>po_processed := po_processed st + 1\<rparr>) in
              case r of
                Retry err memo \<Rightarrow>
                  (case po_suspect st of
                     Some su \<Rightarrow> (False, systemic_failure (error_text err) su st1, w1)
                   | None \<Rightarrow> failed_mail e m (error_text err) memo st1 w1)
              | Handled wrote \<Rightarrow>
                  (case po_suspect st of
                     Some su \<Rightarrow> if wrote then (case verdict m su st1 of (go, st2) \<Rightarrow> (go, st2, w1))
                                else (True, advance m st1, w1)
                   | None \<Rightarrow> (True, advance m st1, w1)))"

fun scan_items ::
    "('s, 'memo, 'l) env \<Rightarrow> (mail \<times> bool) list \<Rightarrow> ('memo, 'l) poll \<Rightarrow> 's \<Rightarrow> ('memo, 'l) poll \<times> 's" where
  "scan_items e [] st w = (st, w)"
| "scan_items e ((m, treat) # xs) st w =
     (case item_step e m treat st w of
        (True, st1, w1) \<Rightarrow> scan_items e xs st1 w1
      | (False, st1, w1) \<Rightarrow> (st1, w1))"

section \<open>The pages of a tick\<close>

definition count_page :: "('memo, 'l) poll \<Rightarrow> ('memo, 'l) poll" where
  "count_page st = (if po_skip_only st then st\<lparr>po_skips := po_skips st + 1\<rparr> else st\<lparr>po_pages := po_pages st + 1\<rparr>)"

definition next_page :: "time \<Rightarrow> 'l option \<Rightarrow> ('memo, 'l) poll \<Rightarrow> ('memo, 'l) poll" where
  "next_page at_before link st =
     (case po_jump st of
        Some (t, dn) \<Rightarrow>
          st\<lparr>po_at := t, po_done := dn, po_from := t, po_next := None, po_gnext := Reread, po_jump := None\<rparr>
      | None \<Rightarrow>
          let g = (case link of Some l \<Rightarrow> Link l | None \<Rightarrow> No_next) in
          if po_at st > at_before then st\<lparr>po_gnext := g, po_next := None, po_from := po_at st\<rparr>
          else st\<lparr>po_gnext := g, po_next := link\<rparr>)"

definition more_pages :: "('memo, 'l) poll \<Rightarrow> bool" where
  "more_pages st \<longleftrightarrow> po_gnext st \<noteq> No_next \<and> po_pages st < MAX_PAGES \<and> po_skips st < MAX_SKIP_PAGES \<and> po_processed st < PAGE_SIZE"

lemma advance_counts [simp]:
  "po_pages (advance m st) = po_pages st" "po_skips (advance m st) = po_skips st"
  by (simp_all add: advance_def Let_def split: option.split)

lemma item_step_counts:
  assumes "item_step e m f st w = (go, st', w')"
  shows "po_pages st' = po_pages st \<and> po_skips st' = po_skips st"
  using assms
  by (auto simp: item_step_def systemic_failure_def failed_mail_def verdict_def Let_def
      split: if_splits prod.splits outcome.splits option.splits bool.splits)

lemma scan_items_counts:
  "scan_items e xs st w = (st', w') \<Longrightarrow> po_pages st' = po_pages st \<and> po_skips st' = po_skips st"
proof (induction e xs st w rule: scan_items.induct)
  case (2 e m f xs st w)
  obtain go st1 w1 where i: "item_step e m f st w = (go, st1, w1)" by (cases "item_step e m f st w")
  with 2 item_step_counts [OF i] show ?case by (cases go) auto
qed simp


function (sequential) poll_loop :: "('s, 'memo, 'l) env \<Rightarrow> ('memo, 'l) poll \<Rightarrow> 's \<Rightarrow> ('memo, 'l) poll \<times> 's" where
  "poll_loop e st w =
     (case en_list e (po_from st) (po_next st) w of
        (None, w1) \<Rightarrow> (st\<lparr>po_errors := po_errors st + 1\<rparr>, w1)
      | (Some pg, w1) \<Rightarrow>
          (case scan_items e (pg_items pg) (st\<lparr>po_skip_only := True\<rparr>) w1 of
             (st1, w2) \<Rightarrow>
               let st2 = count_page st1 in
               if po_blocked st2 then (st2, w2)
               else let st3 = next_page (po_at st) (pg_next pg) st2 in
                    if more_pages st3 then poll_loop e st3 w2 else (st3, w2)))"
  by pat_completeness auto

text \<open>A tick ends: every page counts, and both counts are bounded.\<close>

termination
proof (relation "measure (\<lambda>(e, st, w). (MAX_PAGES - po_pages st) + (MAX_SKIP_PAGES - po_skips st))")
  fix e :: "('s, 'memo, 'l) env" and st w p w1 pg st1 w2 st2 st3
  assume run: "(st1, w2) = scan_items e (pg_items pg) (st\<lparr>po_skip_only := True\<rparr>) w1"
    and st2: "st2 = count_page st1" and st3: "st3 = next_page (po_at st) (pg_next pg) st2" and more: "more_pages st3"
  from scan_items_counts [OF run [symmetric]] have "po_pages st1 = po_pages st" "po_skips st1 = po_skips st" by simp_all
  moreover have "po_pages st3 = po_pages st2 \<and> po_skips st3 = po_skips st2"
    by (auto simp: st3 next_page_def Let_def split: option.splits)
  moreover have "po_pages st3 < MAX_PAGES" "po_skips st3 < MAX_SKIP_PAGES" using more by (simp_all add: more_pages_def)
  moreover have "po_pages st2 + po_skips st2 = Suc (po_pages st1 + po_skips st1)"
    and "po_pages st1 \<le> po_pages st2" "po_skips st1 \<le> po_skips st2" by (simp_all add: st2 count_page_def)
  ultimately show "((e, st3, w2), e, st, w) \<in> measure (\<lambda>(e, st, w). (MAX_PAGES - po_pages st) + (MAX_SKIP_PAGES - po_skips st))"
    by simp
qed simp

declare poll_loop.simps [simp del]

section \<open>The end of a tick\<close>

text \<open>\<open>countRestOfSecond\<close>: the mails of the second that were not read, over at most ten pages.\<close>

fun count_items :: "time \<Rightarrow> mkey list \<Rightarrow> (mail \<times> bool) list \<Rightarrow> nat \<Rightarrow> bool \<times> nat" where
  "count_items nxt dn [] c = (False, c)"
| "count_items nxt dn ((m, treat) # xs) c =
     (if (case ml_ts m of Some t \<Rightarrow> t \<ge> nxt | None \<Rightarrow> False) then (True, c)
      else count_items nxt dn xs
             (if treat \<and> (case messageKey m of Some k \<Rightarrow> k \<notin> set dn | None \<Rightarrow> True) then c + 1 else c))"

fun count_pages ::
    "('s, 'memo, 'l) env \<Rightarrow> time \<Rightarrow> mkey list \<Rightarrow> time \<Rightarrow> nat \<Rightarrow> 'l \<Rightarrow> nat \<Rightarrow> 's \<Rightarrow> (nat \<times> bool) \<times> 's" where
  "count_pages e from dn nxt 0 l c w = ((c, False), w)"
| "count_pages e from dn nxt (Suc n) l c w =
     (case en_list e from (Some l) w of
        (None, w1) \<Rightarrow> ((c, False), w1)
      | (Some pg, w1) \<Rightarrow>
          (case count_items nxt dn (pg_items pg) c of
             (True, c1) \<Rightarrow> ((c1, True), w1)
           | (False, c1) \<Rightarrow>
               (case pg_next pg of None \<Rightarrow> ((c1, True), w1) | Some l1 \<Rightarrow> count_pages e from dn nxt n l1 c1 w1)))"

definition countRestOfSecond ::
    "('s, 'memo, 'l) env \<Rightarrow> time \<Rightarrow> mkey list \<Rightarrow> time \<Rightarrow> 'l next_link \<Rightarrow> 's \<Rightarrow> (nat \<times> bool) \<times> 's" where
  "countRestOfSecond e from dn nxt link w =
     (case link of Link l \<Rightarrow> count_pages e from dn nxt VALVE_COUNT_PAGES l 0 w | _ \<Rightarrow> ((0, False), w))"

text \<open>No verdict in this tick: back to before the suspect, keeping the position reached.\<close>

definition no_verdict :: "('s, 'memo, 'l) env \<Rightarrow> ('memo, 'l) poll \<Rightarrow> 's \<Rightarrow> ('memo, 'l) poll \<times> 's" where
  "no_verdict e st w =
     (case po_suspect st of
        None \<Rightarrow> (st, w)
      | Some su \<Rightarrow>
          let rec = su_retry su;
              st1 = st\<lparr>po_keep := Some \<lparr>sc_id = su_key su, sc_at = po_at st, sc_done = po_done st, sc_since = su_since su\<rparr>,
                       po_at := su_at su, po_done := su_done su, po_retry := Some rec, po_blocked := True, po_suspect := None\<rparr> in
          if rt_waiting rec then (st1, w)
          else (case en_clock e w of (t, w1) \<Rightarrow>
                  if t - su_since su \<ge> SUSPECT_ALERT_MS
                  then (st1\<lparr>po_events := po_events st @ [alertBlocked (su_mail su) rec None Waiting],
                            po_retry := Some (rec\<lparr>rt_waiting := True\<rparr>)\<rparr>, w1)
                  else (st1, w1)))"

definition drop_retry :: "('memo, 'l) poll \<Rightarrow> ('memo, 'l) poll" where
  "drop_retry st = (if \<not> po_blocked st \<and> po_pages st + po_skips st > 0 then st\<lparr>po_retry := None\<rparr> else st)"

text \<open>The valve: a second with too many mails is passed, with a trace.\<close>

definition valve :: "('s, 'memo, 'l) env \<Rightarrow> time \<Rightarrow> ('memo, 'l) poll \<Rightarrow> 's \<Rightarrow> ('memo, 'l) poll \<times> 's" where
  "valve e cursor st w =
     (if \<not> po_progressed st \<and> \<not> po_blocked st \<and> po_gnext st \<noteq> No_next \<and> po_skips st \<ge> MAX_SKIP_PAGES then
        let nxt = po_at st div 1000 * 1000 + 1000 in
        case countRestOfSecond e (po_from st) (po_done st) nxt (po_gnext st) w of
          ((c, exact), w1) \<Rightarrow>
            (st\<lparr>po_events := po_events st @ [Ev_second_skipped cursor nxt (length (po_done st)) c exact],
                po_at := nxt, po_done := []\<rparr>, w1)
      else (st, w))"

text \<open>The settings rows of the mailbox; \<open>saveCursor\<close> writes both only if the cursor is the one read.\<close>

record 'memo cursor_row =
  cu_value :: "time option"
  cu_state :: "'memo saved option"

definition saveCursor :: "time \<Rightarrow> time \<Rightarrow> 'memo saved \<Rightarrow> 'memo cursor_row \<Rightarrow> bool \<times> 'memo cursor_row" where
  "saveCursor expected cursor state row =
     (if cu_value row \<noteq> Some expected then (False, row)
      else (True, \<lparr>cu_value = Some cursor, cu_state = Some state\<rparr>))"

definition saved_state :: "('memo, 'l) poll \<Rightarrow> 'memo saved" where
  "saved_state st =
     \<lparr>sv_at = po_at st, sv_done = po_done st, sv_retry = po_retry st,
      sv_scan = (case (po_retry st, po_keep st) of
                   (Some r, Some k) \<Rightarrow> if sc_id k = rt_id r then Some k else None
                 | _ \<Rightarrow> None)\<rparr>"

definition start_poll :: "time \<Rightarrow> 'memo saved option \<Rightarrow> ('memo, 'l) poll" where
  "start_poll cursor raw =
     (case parseState raw cursor of (dn, retry, scan) \<Rightarrow>
        \<lparr>po_at = cursor, po_done = dn, po_retry = retry, po_scan = scan, po_suspect = None, po_jump = None,
         po_keep = None, po_errors = 0, po_abandoned = 0, po_pages = 0, po_skips = 0, po_processed = 0,
         po_progressed = False, po_blocked = False, po_skip_only = True, po_from = cursor, po_next = None,
         po_gnext = No_next, po_events = []\<rparr>)"

definition poll_tick ::
    "('s, 'memo, 'l) env \<Rightarrow> time \<Rightarrow> 'memo saved option \<Rightarrow> 's \<Rightarrow> ('memo, 'l) poll \<times> 's" where
  "poll_tick e cursor raw w =
     (case poll_loop e (start_poll cursor raw) w of
        (st1, w1) \<Rightarrow>
          (case no_verdict e st1 w1 of (st2, w2) \<Rightarrow> valve e cursor (drop_retry st2) w2))"

text \<open>\<open>found\<close> is the settings row at the time of the write (an administrator may have changed it).\<close>

definition pollMailboxCursor ::
    "('s, 'memo, 'l) env \<Rightarrow> time \<Rightarrow> 'memo saved option \<Rightarrow> 'memo cursor_row \<Rightarrow> 's
      \<Rightarrow> (nat \<times> nat) \<times> event list \<times> 'memo cursor_row \<times> 's" where
  "pollMailboxCursor e cursor raw found w =
     (case poll_tick e cursor raw w of (st, w1) \<Rightarrow>
        ((po_errors st, po_abandoned st), po_events st,
         (if po_at st \<noteq> cursor \<or> Some (saved_state st) \<noteq> raw then snd (saveCursor cursor (po_at st) (saved_state st) found)
          else found), w1))"

end
