(* ===== verification/PollSafety.thy ===== *)
theory PollSafety imports PollCursor begin

text \<open>
  What a tick of \<open>pollMailboxCursor\<close> guarantees: no mail is lost behind the cursor, and
  none is given up but after its delay and once a later mail was written.
\<close>

section \<open>No mail is lost\<close>

text \<open>
  The mailbox the listing reads: mails in order of date, each with a date and an identifier
  of its own. \<open>honest\<close> is the documented behaviour of the listing (\<open>ge since\<close>, in order,
  \<open>nextLink\<close> an offset \<open>off\<close> from the same start) and names the observation \<open>tr\<close> of the
  world: the mails given to \<open>handle\<close> with what it returned.
\<close>

definition ts_of :: "mail \<Rightarrow> time" where
  "ts_of m = the (ml_ts m)"



definition start_index :: "(mail \<times> bool) list \<Rightarrow> time \<Rightarrow> nat" where
  "start_index M from = length (takeWhile (\<lambda>x. ts_of (fst x) < from) M)"

definition offset_of :: "('l \<Rightarrow> nat) \<Rightarrow> 'l option \<Rightarrow> nat" where
  "offset_of off l = (case l of None \<Rightarrow> 0 | Some x \<Rightarrow> off x)"

definition honest ::
    "(mail \<times> bool) list \<Rightarrow> ('l \<Rightarrow> nat) \<Rightarrow> ('s \<Rightarrow> (mail \<times> 'memo outcome) list) \<Rightarrow> ('s, 'memo, 'l) env \<Rightarrow> bool" where
  "honest M off tr e \<longleftrightarrow>
     (\<forall>from link w pg w'. en_list e from link w = (Some pg, w') \<longrightarrow>
        (\<exists>n. pg_items pg = take n (drop (start_index M from + offset_of off link) M) \<and>
             (\<forall>l. pg_next pg = Some l \<longrightarrow> off l = offset_of off link + n))) \<and>
     (\<forall>from link w. tr (snd (en_list e from link w)) = tr w) \<and>
     (\<forall>w. tr (snd (en_clock e w)) = tr w) \<and>
     (\<forall>m memo w. tr (snd (en_handle e m memo w)) = tr w @ [(m, fst (en_handle e m memo w))])"



















text \<open>Moving up to the mail at the reading position.\<close>

lemma advance_simps [simp]:
  "po_suspect (advance m st) = po_suspect st" "po_blocked (advance m st) = po_blocked st"
  "po_jump (advance m st) = po_jump st" "po_events (advance m st) = po_events st"
  "po_from (advance m st) = po_from st" "po_next (advance m st) = po_next st"
  "po_at (advance m st) = (if newer m (po_at st) then the (ml_ts m) else po_at st)"
  by (simp_all add: advance_def Let_def split: option.split)


lemma set_set_add [simp]: "set (set_add k ks) = insert k (set ks)"
  by (auto simp: set_add_def)







lemma failed_mail_cases:
  assumes "failed_mail e m err memo st w = (go, st', w')"
  shows "(\<exists>rec. go = False \<and> st' = st\<lparr>po_retry := Some rec, po_blocked := True\<rparr>) \<or>
    (\<exists>since rec t dn. go = False \<and> st' = st\<lparr>po_suspect := Some (make_suspect m since rec True st), po_scan := None,
         po_jump := Some (t, dn)\<rparr>) \<or>
    (\<exists>since rec. go = True \<and> st' = advance m (st\<lparr>po_suspect := Some (make_suspect m since rec False st), po_scan := None\<rparr>))"
  using assms unfolding failed_mail_def Let_def
  by (simp split: prod.splits bool.splits option.splits if_splits; blast)









lemma honestD:
  assumes "honest M off tr e"
  shows "en_list e from link w = (Some pg, w1) \<Longrightarrow>
      \<exists>n. pg_items pg = take n (drop (start_index M from + offset_of off link) M) \<and>
          (\<forall>l. pg_next pg = Some l \<longrightarrow> off l = offset_of off link + n)"
    and "en_list e from link w = (p, w1) \<Longrightarrow> tr w1 = tr w"
    and "en_clock e w = (t, w1) \<Longrightarrow> tr w1 = tr w"
    and "en_handle e m memo w = (r, w1) \<Longrightarrow> tr w1 = tr w @ [(m, r)]"
proof -
  from assms have a: "\<forall>from link w pg w'. en_list e from link w = (Some pg, w') \<longrightarrow>
        (\<exists>n. pg_items pg = take n (drop (start_index M from + offset_of off link) M) \<and>
             (\<forall>l. pg_next pg = Some l \<longrightarrow> off l = offset_of off link + n))"
    and b: "\<forall>from link w. tr (snd (en_list e from link w)) = tr w"
    and c: "\<forall>w. tr (snd (en_clock e w)) = tr w"
    and d: "\<forall>m memo w. tr (snd (en_handle e m memo w)) = tr w @ [(m, fst (en_handle e m memo w))]"
    by (simp_all add: honest_def)
  show "en_list e from link w = (Some pg, w1) \<Longrightarrow>
      \<exists>n. pg_items pg = take n (drop (start_index M from + offset_of off link) M) \<and>
          (\<forall>l. pg_next pg = Some l \<longrightarrow> off l = offset_of off link + n)" using a by blast
  show "en_list e from link w = (p, w1) \<Longrightarrow> tr w1 = tr w" using b [rule_format, of "from" link w] by simp
  show "en_clock e w = (t, w1) \<Longrightarrow> tr w1 = tr w" using c [rule_format, of w] by simp
  show "en_handle e m memo w = (r, w1) \<Longrightarrow> tr w1 = tr w @ [(m, r)]" using d [rule_format, of m memo w] by simp
qed

lemma failed_mail_trace:
  assumes h: "honest M off tr e" and "failed_mail e m err memo st w = (go, st', w')"
  shows "tr w' = tr w"
  using assms(2) unfolding failed_mail_def Let_def
  by (auto split: prod.splits bool.splits option.splits if_splits dest!: honestD(3) [OF h])






















section \<open>Nothing is given up too early\<close>

definition ripe :: "('s, 'memo, 'l) env \<Rightarrow> 'memo retry option \<Rightarrow> mkey option \<Rightarrow> nat \<Rightarrow> bool" where
  "ripe e r0 k a \<longleftrightarrow>
     (\<exists>r u w w'. r0 = Some r \<and> rt_id r = k \<and> a = rt_attempts r + 1 \<and> MAX_INGEST_ATTEMPTS \<le> a \<and>
        en_clock e w = (u, w') \<and> MIN_POISON_AGE_MS \<le> u - rt_first_at r)"

definition failed_in :: "(mail \<times> 'memo outcome) list \<Rightarrow> mail \<Rightarrow> bool" where
  "failed_in T m \<longleftrightarrow> (\<exists>err memo. (m, Retry err memo) \<in> set T)"

lemma failed_in_append: "failed_in (T @ U) m \<longleftrightarrow> failed_in T m \<or> failed_in U m"
  by (auto simp: failed_in_def)

definition earned ::
    "('s, 'memo, 'l) env \<Rightarrow> 'memo retry option \<Rightarrow> (mail \<times> 'memo outcome) list \<Rightarrow> mkey option \<Rightarrow> nat \<Rightarrow> bool" where
  "earned e r0 T k a \<longleftrightarrow> ripe e r0 k a \<and>
     (\<exists>m m' xs ys. T = xs @ ys \<and> messageKey m = k \<and> failed_in xs m \<and> (m', Handled True) \<in> set ys)"

definition event_earned ::
    "('s, 'memo, 'l) env \<Rightarrow> 'memo retry option \<Rightarrow> (mail \<times> 'memo outcome) list \<Rightarrow> event \<Rightarrow> bool" where
  "event_earned e r0 T x \<longleftrightarrow> (case x of Ev_abandoned im k d a err \<Rightarrow> earned e r0 T k a | _ \<Rightarrow> True)"

definition abandon_inv ::
    "('s, 'memo, 'l) env \<Rightarrow> 'memo retry option \<Rightarrow> (mail \<times> 'memo outcome) list \<Rightarrow> ('memo, 'l) poll \<Rightarrow> bool" where
  "abandon_inv e r0 T st \<longleftrightarrow>
     (po_blocked st \<or> po_retry st = None \<or> po_retry st = r0) \<and>
     (\<forall>su. po_suspect st = Some su \<longrightarrow> su_key su = messageKey (su_mail su) \<and>
        ripe e r0 (su_key su) (rt_attempts (su_retry su)) \<and> failed_in T (su_mail su)) \<and>
     (\<forall>x \<in> set (po_events st). event_earned e r0 T x)"

lemma earned_append:
  assumes "earned e r0 T k a"
  shows "earned e r0 (T @ U) k a"
proof -
  from assms obtain m m' xs ys where "ripe e r0 k a" "T = xs @ ys" "messageKey m = k" "failed_in xs m" "(m', Handled True) \<in> set ys"
    by (auto simp: earned_def)
  moreover from this have "T @ U = xs @ (ys @ U)" "(m', Handled True) \<in> set (ys @ U)" by simp_all
  ultimately show ?thesis unfolding earned_def by blast
qed

lemma event_earned_append: "event_earned e r0 T x \<Longrightarrow> event_earned e r0 (T @ U) x"
  by (cases x) (simp_all add: event_earned_def earned_append)

lemma abandon_inv_append: "abandon_inv e r0 T st \<Longrightarrow> abandon_inv e r0 (T @ U) st"
  unfolding abandon_inv_def failed_in_append by (blast intro: event_earned_append)

lemma abandon_inv_cong:
  "po_blocked st' = po_blocked st \<Longrightarrow> po_retry st' = po_retry st \<Longrightarrow> po_suspect st' = po_suspect st \<Longrightarrow>
   po_events st' = po_events st \<Longrightarrow> abandon_inv e r0 T st' = abandon_inv e r0 T st"
  by (simp add: abandon_inv_def)

lemma po_retry_advance: "po_retry (advance m st) = (if same_retry (po_retry st) (messageKey m) then None else po_retry st)"
  by (simp add: advance_def Let_def split: option.split)

lemma abandon_inv_advance: "abandon_inv e r0 T st \<Longrightarrow> abandon_inv e r0 T (advance m st)"
  by (auto simp: abandon_inv_def po_retry_advance)

lemma failed_mail_ripe:
  assumes run: "failed_mail e m err memo st w = (go, st', w')" and inv: "abandon_inv e r0 T st"
    and n: "po_suspect st = None" "\<not> po_blocked st" and t: "failed_in T m"
  shows "abandon_inv e r0 T st'"
proof -
  define old where "old = (if same_retry (po_retry st) (messageKey m) then po_retry st else None)"
  obtain first_at w1 where c1: "(case old of Some r \<Rightarrow> (rt_first_at r, w) | None \<Rightarrow> en_clock e w) = (first_at, w1)"
    by (meson surj_pair)
  define rec where "rec = retry_record m err memo old first_at"
  obtain b w2 where c2: "(if rt_attempts rec < MAX_INGEST_ATTEMPTS then (True, w1)
      else case en_clock e w1 of (t, w2) \<Rightarrow> (t - first_at < MIN_POISON_AGE_MS, w2)) = (b, w2)" by (meson surj_pair)
  note run' = run [unfolded failed_mail_def Let_def, folded old_def, unfolded c1 prod.case, folded rec_def, unfolded c2 prod.case]
  show ?thesis
  proof (cases b)
    case True
    with run' inv n show ?thesis by (auto simp: abandon_inv_def)
  next
    case False
    then have a: "MAX_INGEST_ATTEMPTS \<le> rt_attempts rec" using c2 by (auto split: if_splits)
    obtain u w3 where u: "en_clock e w1 = (u, w3)" by fastforce
    with c2 a False have age: "MIN_POISON_AGE_MS \<le> u - first_at" by (auto split: if_splits)
    from a obtain r where r: "old = Some r" by (cases old) (auto simp: rec_def retry_record_def MAX_INGEST_ATTEMPTS_def)
    with c1 have f: "first_at = rt_first_at r" by simp
    from r have sr: "po_retry st = Some r" "rt_id r = messageKey m" by (auto simp: old_def same_retry_def split: if_splits)
    with inv n have "r0 = Some r" by (auto simp: abandon_inv_def)
    with a age u f sr r have ripe: "ripe e r0 (messageKey m) (rt_attempts rec)"
      unfolding ripe_def by (auto simp: rec_def retry_record_def)
    have su: "abandon_inv e r0 T (st\<lparr>po_suspect := Some (make_suspect m since rec j st), po_scan := None\<rparr>)" for since j
      using inv n t ripe by (auto simp: abandon_inv_def make_suspect_def)
    show ?thesis
    proof (cases "resumed_scan m (po_scan st)")
      case (Some c)
      with run' False have "st' = st\<lparr>po_suspect := Some (make_suspect m (sc_since c) rec True st), po_scan := None,
                             po_jump := Some (sc_at c, js_uniq (sc_done c))\<rparr>" by simp
      with su [of "sc_since c" True] show ?thesis by (auto simp: abandon_inv_def)
    next
      case None
      with run' False obtain since where "st' = advance m (st\<lparr>po_suspect := Some (make_suspect m since rec False st), po_scan := None\<rparr>)"
        by (auto split: prod.splits)
      with abandon_inv_advance [OF su] show ?thesis by simp
    qed
  qed
qed

lemma item_step_abandon:
  assumes h: "honest M off tr e" and run: "item_step e m f st w = (go, st', w')"
    and inv: "abandon_inv e r0 (tr w) st" and nb: "\<not> po_blocked st"
  shows "abandon_inv e r0 (tr w') st' \<and> (go \<longrightarrow> \<not> po_blocked st')"
proof (cases "(\<not> newer m (po_at st) \<and> messageKey m \<noteq> None \<and> the (messageKey m) \<in> set (po_done st)) \<or> \<not> f")
  case True
  with run inv nb abandon_inv_advance [of e r0 "tr w" "st\<lparr>po_skip_only := False\<rparr>" m]
    abandon_inv_cong [of "st\<lparr>po_skip_only := False\<rparr>" st e r0 "tr w"]
  show ?thesis by (auto simp: item_step_def Let_def split: if_splits)
next
  case False
  then have c: "\<not> (\<not> newer m (po_at st) \<and> messageKey m \<noteq> None \<and> the (messageKey m) \<in> set (po_done st))" and f by auto
  obtain r w1 where hd: "en_handle e m (if same_retry (po_retry st) (messageKey m) then Option.bind (po_retry st) rt_memo else None) w = (r, w1)"
    by fastforce
  from honestD(4) [OF h hd] have t1: "tr w1 = tr w @ [(m, r)]" .
  define st1 where "st1 = (if po_suspect st \<noteq> None \<and> r = Handled False then st\<lparr>po_skip_only := False\<rparr>
      else st\<lparr>po_skip_only := False, po_processed := po_processed st + 1\<rparr>)"
  have same: "po_suspect st1 = po_suspect st" "po_blocked st1 = po_blocked st" "po_retry st1 = po_retry st" "po_events st1 = po_events st"
    by (auto simp: st1_def)
  note run2 = run [unfolded item_step_def Let_def if_not_P [OF c] hd prod.case, folded st1_def]
  have inv1: "abandon_inv e r0 (tr w1) st1"
    using abandon_inv_append [OF inv, of "[(m, r)]"] abandon_inv_cong [of st1 st e r0 "tr w1"] same t1 by simp
  show ?thesis
  proof (cases r)
    case (Retry err memo)
    show ?thesis
    proof (cases "po_suspect st")
      case None
      with Retry run2 \<open>f\<close> have fm: "failed_mail e m (error_text err) memo st1 w1 = (go, st', w')" by (simp add: st1_def)
      have "failed_in (tr w1) m" using t1 Retry by (auto simp: failed_in_def)
      from failed_mail_ripe [OF fm inv1 _ _ this] failed_mail_trace [OF h fm] failed_mail_cases [OF fm] None nb same
      show ?thesis by auto
    next
      case (Some su)
      with Retry run2 \<open>f\<close> have "go = False" "st' = systemic_failure (error_text err) su st1" "w' = w1" by (simp_all add: st1_def)
      with inv1 show ?thesis by (auto simp: abandon_inv_def systemic_failure_def Let_def alertBlocked_def event_earned_def)
    qed
  next
    case (Handled wrote)
    show ?thesis
    proof (cases "po_suspect st \<noteq> None \<and> wrote")
      case False
      with Handled run2 \<open>f\<close> have "go = True" "st' = advance m st1" "w' = w1" by (auto simp: st1_def split: option.splits)
      with abandon_inv_advance [OF inv1] nb same show ?thesis by simp
    next
      case True
      then obtain su where su: "po_suspect st = Some su" by blast
      from True Handled run2 \<open>f\<close> su have v: "verdict m su st1 = (go, st')" and w': "w' = w1" by (auto simp: st1_def split: prod.splits)
      from inv su have "ripe e r0 (su_key su) (rt_attempts (su_retry su))" "su_key su = messageKey (su_mail su)"
        "failed_in (tr w) (su_mail su)" by (auto simp: abandon_inv_def)
      then have "earned e r0 (tr w1) (su_key su) (rt_attempts (su_retry su))"
        unfolding earned_def t1 using Handled True by (metis list.set_intros(1))
      with inv1 nb same v w' show ?thesis
        by (auto simp: verdict_def Let_def abandon_inv_def abandon_def event_earned_def po_retry_advance split: if_splits)
    qed
  qed
qed


lemma scan_items_abandon:
  assumes h: "honest M off tr e"
  shows "scan_items e xs st w = (st', w') \<Longrightarrow> abandon_inv e r0 (tr w) st \<Longrightarrow> \<not> po_blocked st \<Longrightarrow> abandon_inv e r0 (tr w') st'"
proof (induction xs arbitrary: st w)
  case Nil
  then show ?case by simp
next
  case (Cons x xs)
  obtain m f where x: "x = (m, f)" by (cases x)
  obtain go st1 w1 where s: "item_step e m f st w = (go, st1, w1)" by (cases "item_step e m f st w")
  from item_step_abandon [OF h s Cons.prems(2,3)] Cons.IH Cons.prems(1) s x show ?case by (cases go) auto
qed

lemma poll_loop_abandon:
  assumes "honest M off tr e" and "abandon_inv e r0 (tr w) st" and "\<not> po_blocked st" and "poll_loop e st w = (st', w')"
  shows "abandon_inv e r0 (tr w') st'"
  using assms
proof (induction e st w arbitrary: st' w' rule: poll_loop.induct)
  case (1 e st w)
  note h = "1.prems"(1)
  obtain p w1 where l: "en_list e (po_from st) (po_next st) w = (p, w1)" by (cases "en_list e (po_from st) (po_next st) w")
  note tr1 = honestD(2) [OF h l]
  show ?case
  proof (cases p)
    case None
    with "1.prems" l tr1 show ?thesis
      by (auto simp: poll_loop.simps [of e st w] abandon_inv_def)
  next
    case (Some pg)
    obtain st1 w2 where s: "scan_items e (pg_items pg) (st\<lparr>po_skip_only := True\<rparr>) w1 = (st1, w2)"
      by (cases "scan_items e (pg_items pg) (st\<lparr>po_skip_only := True\<rparr>) w1")
    have "abandon_inv e r0 (tr w1) (st\<lparr>po_skip_only := True\<rparr>)" using "1.prems"(2) tr1 by (auto simp: abandon_inv_def)
    from scan_items_abandon [OF h s this] "1.prems"(3) have i: "abandon_inv e r0 (tr w2) st1" by simp
    define st2 where "st2 = count_page st1"
    define st3 where "st3 = next_page (po_at st) (pg_next pg) st2"
    have i2: "abandon_inv e r0 (tr w2) st2" using i by (auto simp: st2_def count_page_def abandon_inv_def)
    have same: "po_blocked st3 = po_blocked st2" "po_retry st3 = po_retry st2" "po_suspect st3 = po_suspect st2" "po_events st3 = po_events st2"
      by (simp_all add: st3_def next_page_def Let_def split: option.split)
    have i3: "abandon_inv e r0 (tr w2) st3" using i2 abandon_inv_cong [of st3 st2 e r0 "tr w2"] same by simp
    from "1.prems"(4) have run': "(if po_blocked st2 then (st2, w2) else if more_pages st3 then poll_loop e st3 w2 else (st3, w2)) = (st', w')"
      by (simp only: poll_loop.simps [of e st w] l Some s prod.case option.case Let_def st2_def st3_def)
    show ?thesis
    proof (cases "\<not> po_blocked st2 \<and> more_pages st3")
      case False
      with run' i2 i3 show ?thesis by (auto split: if_splits)
    next
      case True
      with same have "\<not> po_blocked st3" by simp
      note ih = "1.IH" [OF l [symmetric] Some s [symmetric] st2_def _ st3_def _ h i3 this]
      from True run' ih show ?thesis by simp
    qed
  qed
qed

lemma count_pages_trace:
  assumes h: "honest M off tr e"
  shows "count_pages e from dn nxt n l c w = (y, w') \<Longrightarrow> tr w' = tr w"
proof (induction n arbitrary: l c w)
  case (Suc n)
  obtain p w1 where q: "en_list e from (Some l) w = (p, w1)" by fastforce
  note t = honestD(2) [OF h q]
  show ?case
  proof (cases p)
    case None
    with Suc.prems q t show ?thesis by simp
  next
    case (Some pg)
    with Suc q t show ?thesis by (auto split: prod.splits bool.splits option.splits)
  qed
qed simp

text \<open>
  C15: a mail is given up only when it must be. Each mail a tick gives up had been failing in
  the saved state, with its \<open>MAX_INGEST_ATTEMPTS\<close>-th failure at least in this tick, at least
  \<open>MIN_POISON_AGE_MS\<close> after its first; and during this same tick it failed again, after which
  a later mail was treated with a committed write. A breakdown that hits every mail gives
  up none.
\<close>

theorem abandonment_is_earned:
  fixes e :: "('s, 'memo, 'l) env"
  assumes "honest M off tr e" and "tr w = []" and "poll_tick e cursor raw w = (st, w')"
    and "Ev_abandoned im k d a err \<in> set (po_events st)"
  shows "\<exists>s r u w1 w2. raw = Some s \<and> sv_at s = cursor \<and> sv_retry s = Some r \<and> rt_id r = k \<and>
      a = rt_attempts r + 1 \<and> MAX_INGEST_ATTEMPTS \<le> a \<and>
      en_clock e w1 = (u, w2) \<and> MIN_POISON_AGE_MS \<le> u - rt_first_at r \<and>
      (\<exists>m m' e1 memo xs ys. tr w' = xs @ ys \<and> messageKey m = k \<and> (m, Retry e1 memo) \<in> set xs \<and> (m', Handled True) \<in> set ys)"
proof -
  define r0 where "r0 = fst (snd (parseState raw cursor))"
  have "abandon_inv e r0 (tr w) (start_poll cursor raw :: ('memo, 'l) poll)"
    by (simp add: abandon_inv_def start_poll_def r0_def split: prod.split)
  moreover have "\<not> po_blocked (start_poll cursor raw :: ('memo, 'l) poll)" by (simp add: start_poll_def split: prod.split)
  moreover obtain st1 w1 where l: "poll_loop e (start_poll cursor raw) w = (st1, w1)" by fastforce
  ultimately have i: "abandon_inv e r0 (tr w1) st1" using poll_loop_abandon [OF assms(1)] by blast
  obtain st2 w2 where n: "no_verdict e st1 w1 = (st2, w2)" by fastforce
  obtain st3 w3 where v: "valve e cursor (drop_retry st2) w2 = (st3, w3)" by fastforce
  from assms(3) l n v have s: "st = st3" "w' = w3" by (simp_all add: poll_tick_def)
  have t2: "tr w2 = tr w1" using n by (auto simp: no_verdict_def Let_def split: if_splits prod.splits option.splits dest: honestD(3) [OF assms(1)])
  have e2: "Ev_abandoned im k d a err \<in> set (po_events st2) \<Longrightarrow> Ev_abandoned im k d a err \<in> set (po_events st1)"
    using n by (auto simp: no_verdict_def Let_def alertBlocked_def split: if_splits prod.splits option.splits)
  have e3: "Ev_abandoned im k d a err \<in> set (po_events st3) \<Longrightarrow> Ev_abandoned im k d a err \<in> set (po_events st2)"
    using v by (auto simp: valve_def drop_retry_def Let_def split: if_splits prod.splits)
  have t3: "tr w3 = tr w2"
    using v by (auto dest: count_pages_trace [OF assms(1)] simp: valve_def countRestOfSecond_def Let_def split: if_splits prod.splits next_link.splits)
  from e2 e3 s assms(4) i have "event_earned e r0 (tr w1) (Ev_abandoned im k d a err)" by (auto simp: abandon_inv_def)
  then have q: "earned e r0 (tr w') k a" using t2 t3 s by (simp add: event_earned_def)
  then obtain r where r: "r0 = Some r" by (auto simp: earned_def ripe_def)
  then have "\<exists>s. raw = Some s \<and> sv_at s = cursor \<and> sv_retry s = Some r"
    by (auto simp: r0_def parseState_def Let_def split: option.splits if_splits)
  with q r show ?thesis unfolding earned_def ripe_def failed_in_def by blast
qed


section \<open>A concrete mailbox\<close>

text \<open>
  Three mails; the world is the trace, links are offsets, pages hold two mails, the first
  mail fails and the others are written, and it is ten hours after the epoch.
\<close>

definition sample_mail :: "jsstring \<Rightarrow> time \<Rightarrow> mail" where
  "sample_mail i t = \<lparr>ml_id = Some i, ml_imid = None, ml_ts = Some t\<rparr>"

definition sample_mailbox :: "(mail \<times> bool) list" where
  "sample_mailbox = [(sample_mail ''a'' 1000, True), (sample_mail ''b'' 2000, True), (sample_mail ''c'' 3000, True)]"

definition sample_env :: "((mail \<times> unit outcome) list, unit, nat) env" where
  "sample_env =
     \<lparr>en_list = (\<lambda>from link w.
        let k = start_index sample_mailbox from + offset_of (\<lambda>x. x) link in
        (Some \<lparr>pg_items = take 2 (drop k sample_mailbox),
               pg_next = (if k + 2 < length sample_mailbox then Some (offset_of (\<lambda>x. x) link + 2) else None)\<rparr>, w)),
      en_handle = (\<lambda>m memo w. let r = (if ml_id m = Some ''a'' then Retry None None else Handled True) in (r, w @ [(m, r)])),
      en_clock = (\<lambda>w. (36000000, w))\<rparr>"

definition sample_saved :: "unit saved" where
  "sample_saved =
     \<lparr>sv_at = 0, sv_done = [],
      sv_retry = Some \<lparr>rt_id = Some ''a'', rt_imid = None, rt_attempts = 4, rt_error = [], rt_first_at = 0, rt_memo = None,
                       rt_waiting = False, rt_systemic = False\<rparr>, sv_scan = None\<rparr>"


lemma honest_sample: "honest sample_mailbox (\<lambda>x. x) (\<lambda>w. w) sample_env"
proof -
  have "start_index sample_mailbox from \<le> 3" for "from"
    using length_takeWhile_le [of "\<lambda>x. ts_of (fst x) < from" sample_mailbox] by (simp add: start_index_def sample_mailbox_def)
  then show ?thesis
    by (auto simp: honest_def sample_env_def Let_def offset_of_def intro!: exI [of _ 2])
qed


text \<open>After five failures and half an hour: given up, since the next mail is written.\<close>

theorem abandonment_is_earned_witness:
  "\<exists>st w' im d a err. poll_tick sample_env 0 (Some sample_saved) [] = (st, w') \<and>
     Ev_abandoned im (Some ''a'') d a err \<in> set (po_events st) \<and> MAX_INGEST_ATTEMPTS \<le> a"
proof -
  obtain st w' where run: "poll_tick sample_env 0 (Some sample_saved) [] = (st, w')" by fastforce
  have "po_events (fst (poll_tick sample_env 0 (Some sample_saved) []))
      = [Ev_abandoned None (Some ''a'') (Some 1000) 5 ''erreur inconnue'']" by code_simp
  with run have "Ev_abandoned None (Some ''a'') (Some 1000) 5 ''erreur inconnue'' \<in> set (po_events st)" by simp
  with abandonment_is_earned [OF honest_sample refl run this] run show ?thesis by blast
qed

end
