(* ===== verification/TicketDb.thy ===== *)
theory TicketDb imports Prelude "HOL-Library.Product_Lexorder" begin

text \<open>
  The tables of the tickets and of the mail bridge, and the relations of a ticket with its
  people and devices (\<open>tickets/lib/relations.js\<close>, \<open>tickets/lib/ticket-events.js\<close>).

  A column that may be null is an option; an identifier drawn by the database is the next
  number. Foreign keys are assumed: requests that name rows which do not exist (and fail
  with a rollback) are outside the model unless the code itself checks.
\<close>

section \<open>Rows\<close>

type_synonym entra = jsstring

record ticket =
  tk_id :: uuid
  tk_title :: jsstring
  tk_desc :: "jsstring option"
  tk_status :: jsstring
  tk_priority :: jsstring
  tk_device :: "uuid option"
  tk_user :: "entra option"
  tk_source :: jsstring
  tk_auto :: bool
  tk_created_by :: "entra option"
  tk_created_name :: "jsstring option"
  tk_assigned :: "entra option"
  tk_assigned_name :: "jsstring option"
  tk_merged_into :: "uuid option"
  tk_resolved_at :: "time option"
  tk_created_at :: time
  tk_updated_at :: time

datatype role = Requester | Involved

record ticket_user =
  tu_ticket :: uuid
  tu_user :: entra
  tu_role :: role
  tu_added :: time

record ticket_device =
  tv_ticket :: uuid
  tv_device :: uuid
  tv_added :: time

record message =
  ms_id :: uuid
  ms_ticket :: uuid
  ms_type :: jsstring
  ms_author :: jsstring
  ms_content :: jsstring
  ms_created_at :: time
  ms_sent_at :: "time option"
  ms_attempts :: nat
  ms_error :: "jsstring option"
  ms_failed_at :: "time option"

text \<open>A mail as Graph describes it (the column \<open>raw\<close>).\<close>

record graph_mail =
  gm_id :: "jsstring option"
  gm_imid :: "jsstring option"
  gm_conversation :: "jsstring option"
  gm_subject :: "jsstring option"
  gm_from :: "jsstring option"
  gm_from_name :: "jsstring option"
  gm_received :: "time option"
  gm_sent :: "time option"
  gm_headers :: "(jsstring \<times> jsstring) list"
  gm_preview :: "jsstring option"
  gm_folder :: "jsstring option"

record classification =
  cl_intent :: jsstring
  cl_confidence :: rat
  cl_reason :: jsstring
  cl_fallback :: bool

datatype direction = Inbound | Outbound

record mapping =
  mp_id :: uuid
  mp_imid :: jsstring
  mp_conversation :: "jsstring option"
  mp_graph_id :: "jsstring option"
  mp_mailbox :: jsstring
  mp_direction :: direction
  mp_from :: "jsstring option"
  mp_subject :: "jsstring option"
  mp_received :: "time option"
  mp_raw :: graph_mail
  mp_processed :: "time option"
  mp_action :: "jsstring option"
  mp_error :: "jsstring option"
  mp_ticket :: "uuid option"
  mp_proposal :: "uuid option"
  mp_classifier :: "classification option"
  mp_created :: time
  mp_read_at :: "time option"

record reply =
  rp_imid :: "jsstring option"
  rp_from :: "jsstring option"
  rp_from_name :: "jsstring option"
  rp_subject :: "jsstring option"
  rp_received :: "time option"
  rp_body :: "jsstring option"
  rp_preview :: jsstring

text \<open>The \<open>source_payload\<close> of a proposal made from a mail.\<close>

record payload =
  pl_from :: "jsstring option"
  pl_from_name :: "jsstring option"
  pl_received :: "time option"
  pl_body :: "jsstring option"
  pl_replies :: "reply list"

record proposal =
  pp_id :: uuid
  pp_source :: jsstring
  pp_payload :: payload
  pp_title :: jsstring
  pp_desc :: "jsstring option"
  pp_priority :: jsstring
  pp_device :: "uuid option"
  pp_user :: "entra option"
  pp_status :: jsstring
  pp_ticket :: "uuid option"
  pp_reason :: "jsstring option"
  pp_reviewer :: "entra option"
  pp_reviewer_name :: "jsstring option"
  pp_reviewed_at :: "time option"

record account =
  ac_entra :: entra
  ac_email :: "jsstring option"
  ac_name :: "jsstring option"
  ac_admin :: bool
  ac_job :: "jsstring option"
  ac_department :: "jsstring option"

record machine =
  mc_id :: uuid
  mc_hostname :: jsstring
  mc_owner :: "entra option"
  mc_last_seen :: "time option"
  mc_os :: "jsstring option"
  mc_model :: "jsstring option"

record tag =
  tg_id :: uuid
  tg_name :: jsstring
  tg_color :: jsstring

record attachment =
  at_id :: uuid
  at_ticket :: uuid
  at_filename :: jsstring
  at_mime :: "jsstring option"
  at_size :: nat
  at_path :: jsstring
  at_by :: "entra option"
  at_by_name :: "jsstring option"
  at_created :: time

record tdb =
  td_tickets :: "ticket list"
  td_users :: "ticket_user list"
  td_devices :: "ticket_device list"
  td_messages :: "message list"
  td_mails :: "mapping list"
  td_proposals :: "proposal list"
  td_accounts :: "account list"
  td_machines :: "machine list"
  td_tags :: "(uuid \<times> uuid) list"
  td_labels :: "tag list"
  td_attachments :: "attachment list"
  td_settings :: "(jsstring, jsstring) jsmap"
  td_next :: uuid

definition empty_tdb :: tdb where
  "empty_tdb = \<lparr>td_tickets = [], td_users = [], td_devices = [], td_messages = [], td_mails = [], td_proposals = [],
     td_accounts = [], td_machines = [], td_tags = [], td_labels = [], td_attachments = [], td_settings = [], td_next = 0\<rparr>"

definition find_ticket :: "tdb \<Rightarrow> uuid \<Rightarrow> ticket option" where
  "find_ticket d i = find (\<lambda>t. tk_id t = i) (td_tickets d)"

definition set_ticket :: "uuid \<Rightarrow> (ticket \<Rightarrow> ticket) \<Rightarrow> tdb \<Rightarrow> tdb" where
  "set_ticket i f d = d\<lparr>td_tickets := update_rows (\<lambda>t. tk_id t = i) f (td_tickets d)\<rparr>"

definition touch_ticket :: "time \<Rightarrow> uuid \<Rightarrow> tdb \<Rightarrow> tdb" where
  "touch_ticket now i = set_ticket i (\<lambda>t. t\<lparr>tk_updated_at := now\<rparr>)"

definition add_message :: "time \<Rightarrow> uuid \<Rightarrow> jsstring \<Rightarrow> jsstring \<Rightarrow> jsstring \<Rightarrow> time option \<Rightarrow> tdb \<Rightarrow> tdb" where
  "add_message created i ty author content sent d =
     d\<lparr>td_messages := td_messages d @
         [\<lparr>ms_id = td_next d, ms_ticket = i, ms_type = ty, ms_author = author, ms_content = content, ms_created_at = created,
           ms_sent_at = sent, ms_attempts = 0, ms_error = None, ms_failed_at = None\<rparr>],
       td_next := td_next d + 1\<rparr>"

section \<open>Relations of a ticket\<close>

definition user_link :: "uuid \<Rightarrow> entra \<Rightarrow> ticket_user \<Rightarrow> bool" where
  "user_link i u r \<longleftrightarrow> tu_ticket r = i \<and> tu_user r = u"

definition requester_of :: "uuid \<Rightarrow> ticket_user \<Rightarrow> bool" where
  "requester_of i r \<longleftrightarrow> tu_ticket r = i \<and> tu_role r = Requester"

text \<open>\<open>ON CONFLICT (ticket_id, user_entra_id) DO UPDATE SET role = 'requester'\<close>.\<close>

definition put_requester :: "time \<Rightarrow> uuid \<Rightarrow> entra \<Rightarrow> ticket_user list \<Rightarrow> ticket_user list" where
  "put_requester now i u rs =
     (if list_ex (user_link i u) rs then update_rows (user_link i u) (\<lambda>r. r\<lparr>tu_role := Requester\<rparr>) rs
      else rs @ [\<lparr>tu_ticket = i, tu_user = u, tu_role = Requester, tu_added = now\<rparr>])"

definition syncRequester :: "time \<Rightarrow> uuid \<Rightarrow> entra option \<Rightarrow> tdb \<Rightarrow> tdb" where
  "syncRequester now i new d =
     (let d1 = d\<lparr>td_users := filter (\<lambda>r. \<not> requester_of i r) (td_users d)\<rparr>;
          d2 = (if truthy new then d1\<lparr>td_users := put_requester now i (the new) (td_users d1)\<rparr> else d1)
      in set_ticket i (\<lambda>t. t\<lparr>tk_user := (if truthy new then new else None)\<rparr>) d2)"

text \<open>\<open>INSERT ... ON CONFLICT DO NOTHING\<close> with a role.\<close>

definition put_user :: "time \<Rightarrow> uuid \<Rightarrow> role \<Rightarrow> entra \<Rightarrow> ticket_user list \<Rightarrow> ticket_user list" where
  "put_user now i rl u rs =
     (if list_ex (user_link i u) rs then rs else rs @ [\<lparr>tu_ticket = i, tu_user = u, tu_role = rl, tu_added = now\<rparr>])"

definition addInvolvedUser :: "time \<Rightarrow> uuid \<Rightarrow> entra \<Rightarrow> tdb \<Rightarrow> tdb" where
  "addInvolvedUser now i u d = d\<lparr>td_users := put_user now i Involved u (td_users d)\<rparr>"

definition removeUserFromTicket :: "uuid \<Rightarrow> entra \<Rightarrow> tdb \<Rightarrow> bool \<times> tdb" where
  "removeUserFromTicket i u d =
     (let gone = filter (user_link i u) (td_users d);
          d1 = d\<lparr>td_users := filter (\<lambda>r. \<not> user_link i u r) (td_users d)\<rparr>
      in (gone \<noteq> [],
          if gone \<noteq> [] \<and> tu_role (hd gone) = Requester then set_ticket i (\<lambda>t. t\<lparr>tk_user := None\<rparr>) d1 else d1))"

definition device_link :: "uuid \<Rightarrow> uuid \<Rightarrow> ticket_device \<Rightarrow> bool" where
  "device_link i v r \<longleftrightarrow> tv_ticket r = i \<and> tv_device r = v"

definition put_device :: "time \<Rightarrow> uuid \<Rightarrow> uuid \<Rightarrow> ticket_device list \<Rightarrow> ticket_device list" where
  "put_device now i v rs =
     (if list_ex (device_link i v) rs then rs else rs @ [\<lparr>tv_ticket = i, tv_device = v, tv_added = now\<rparr>])"

definition addDeviceToTicket :: "time \<Rightarrow> uuid \<Rightarrow> uuid \<Rightarrow> tdb \<Rightarrow> tdb" where
  "addDeviceToTicket now i v d =
     set_ticket i (\<lambda>t. if tk_device t = None then t\<lparr>tk_device := Some v\<rparr> else t)
       (d\<lparr>td_devices := put_device now i v (td_devices d)\<rparr>)"

text \<open>\<open>ORDER BY added_at ASC LIMIT 1\<close>; among equal dates the first row.\<close>

fun oldest :: "ticket_device list \<Rightarrow> ticket_device option" where
  "oldest [] = None"
| "oldest (r # rs) = (case oldest rs of None \<Rightarrow> Some r | Some s \<Rightarrow> if tv_added s < tv_added r then Some s else Some r)"

definition devices_of :: "uuid \<Rightarrow> tdb \<Rightarrow> ticket_device list" where
  "devices_of i d = filter (\<lambda>r. tv_ticket r = i) (td_devices d)"

definition removeDeviceFromTicket :: "uuid \<Rightarrow> uuid \<Rightarrow> tdb \<Rightarrow> bool \<times> tdb" where
  "removeDeviceFromTicket i v d =
     (if \<not> list_ex (device_link i v) (td_devices d) then (False, d)
      else
        let d1 = d\<lparr>td_devices := filter (\<lambda>r. \<not> device_link i v r) (td_devices d)\<rparr> in
        (True,
         if Option.bind (find_ticket d1 i) tk_device = Some v
         then set_ticket i (\<lambda>t. t\<lparr>tk_device := map_option tv_device (oldest (devices_of i d1))\<rparr>) d1
         else d1))"

section \<open>Reading the relations of several tickets\<close>

definition group_rows :: "('r \<Rightarrow> 'k) \<Rightarrow> ('r \<Rightarrow> 'v) \<Rightarrow> 'r list \<Rightarrow> ('k, 'v list) jsmap" where
  "group_rows k f rows = foldl (\<lambda>m r. jm_set (k r) (or_else (jm_get m (k r)) [] @ [f r]) m) [] rows"

record person =
  pe_entra :: entra
  pe_role :: role
  pe_name :: "jsstring option"
  pe_email :: "jsstring option"

definition person_of :: "tdb \<Rightarrow> ticket_user \<Rightarrow> person" where
  "person_of d r =
     (let u = find (\<lambda>a. ac_entra a = tu_user r) (td_accounts d) in
      \<lparr>pe_entra = tu_user r, pe_role = tu_role r, pe_name = Option.bind u ac_name, pe_email = Option.bind u ac_email\<rparr>)"

definition loadRelatedUsersFor :: "tdb \<Rightarrow> uuid list \<Rightarrow> (uuid, person list) jsmap" where
  "loadRelatedUsersFor d ids =
     (if ids = [] then []
      else group_rows tu_ticket (person_of d)
             (sort_key (\<lambda>r. ((if tu_role r = Requester then 0 else 1 :: nat), tu_added r))
                (filter (\<lambda>r. tu_ticket r \<in> set ids) (td_users d))))"

definition loadRelatedDevicesFor :: "tdb \<Rightarrow> uuid list \<Rightarrow> (uuid, (uuid \<times> jsstring option) list) jsmap" where
  "loadRelatedDevicesFor d ids =
     (if ids = [] then []
      else group_rows tv_ticket
             (\<lambda>r. (tv_device r, map_option mc_hostname (find (\<lambda>m. mc_id m = tv_device r) (td_machines d))))
             (sort_key tv_added (filter (\<lambda>r. tv_ticket r \<in> set ids) (td_devices d))))"

section \<open>Merging a ticket into another\<close>

datatype merge_error = SELF_MERGE | SOURCE_NOT_FOUND | SOURCE_ALREADY_MERGED | TARGET_NOT_FOUND | TARGET_ALREADY_MERGED

definition SYSTEME :: jsstring where
  "SYSTEME = ''Syst'' @ [CHR 0xE8] @ ''me''"

definition merge_note :: "uuid \<Rightarrow> jsstring" where
  "merge_note s = ''Fusion : messages et personnes du ticket '' @ nat_str s @ '' ajout'' @ [CHR 0xE9] @ ''s ici''"

definition merge_users :: "time \<Rightarrow> uuid \<Rightarrow> uuid \<Rightarrow> tdb \<Rightarrow> tdb" where
  "merge_users now src tgt d =
     (let rows = filter (\<lambda>r. tu_ticket r = src) (td_users d) in
      if list_ex (requester_of tgt) (td_users d)
      then d\<lparr>td_users := foldl (\<lambda>rs r. put_user now tgt Involved (tu_user r) rs) (td_users d) rows\<rparr>
      else
        let d1 = d\<lparr>td_users := foldl (\<lambda>rs r. put_user now tgt (tu_role r) (tu_user r) rs) (td_users d) rows\<rparr> in
        case find (requester_of tgt) (td_users d1) of
          None \<Rightarrow> d1
        | Some r \<Rightarrow> set_ticket tgt (\<lambda>t. if tk_user t = None then t\<lparr>tk_user := Some (tu_user r)\<rparr> else t) d1)"

definition merge_devices :: "time \<Rightarrow> uuid \<Rightarrow> uuid \<Rightarrow> tdb \<Rightarrow> tdb" where
  "merge_devices now src tgt d =
     (let d1 = d\<lparr>td_devices := foldl (\<lambda>rs r. put_device now tgt (tv_device r) rs) (td_devices d) (devices_of src d)\<rparr>;
          d2 = set_ticket tgt (\<lambda>t. if tk_device t = None
                 then t\<lparr>tk_device := map_option tv_device (oldest (devices_of tgt d1))\<rparr> else t) d1
      in d2\<lparr>td_devices := filter (\<lambda>r. tv_ticket r \<noteq> src) (td_devices d2)\<rparr>)"

definition mergeTicketInto :: "time \<Rightarrow> uuid \<Rightarrow> uuid \<Rightarrow> jsstring option \<Rightarrow> tdb \<Rightarrow> merge_error + tdb" where
  "mergeTicketInto now src tgt by_name d =
     (if src = tgt then Inl SELF_MERGE
      else case find_ticket d src of
        None \<Rightarrow> Inl SOURCE_NOT_FOUND
      | Some s \<Rightarrow>
          if tk_status s = ''merged'' then Inl SOURCE_ALREADY_MERGED
          else case find_ticket d tgt of
            None \<Rightarrow> Inl TARGET_NOT_FOUND
          | Some t \<Rightarrow>
              if tk_status t = ''merged'' then Inl TARGET_ALREADY_MERGED
              else
                let d1 = add_message now tgt ''system'' (if truthy by_name then the by_name else SYSTEME) (merge_note src) (Some now) d;
                    d2 = d1\<lparr>td_messages := update_rows (\<lambda>m. ms_ticket m = src) (\<lambda>m. m\<lparr>ms_ticket := tgt\<rparr>) (td_messages d1)\<rparr>;
                    d3 = merge_users now src tgt d2;
                    d4 = d3\<lparr>td_users := filter (\<lambda>r. tu_ticket r \<noteq> src) (td_users d3)\<rparr>;
                    d5 = merge_devices now src tgt d4;
                    d6 = d5\<lparr>td_mails := update_rows (\<lambda>m. mp_ticket m = Some src) (\<lambda>m. m\<lparr>mp_ticket := Some tgt\<rparr>) (td_mails d5)\<rparr>;
                    d7 = set_ticket src (\<lambda>t. t\<lparr>tk_status := ''merged'', tk_merged_into := Some tgt, tk_updated_at := now\<rparr>) d6
                in Inr (touch_ticket now tgt d7))"

text \<open>\<open>attachSystemEventToOpenTicketsOfDevice\<close>: one message per ticket that is neither resolved nor closed.\<close>

definition attachSystemEvent :: "time \<Rightarrow> uuid \<Rightarrow> jsstring option \<Rightarrow> jsstring \<Rightarrow> tdb \<Rightarrow> nat \<times> tdb" where
  "attachSystemEvent now v author content d =
     (if content = [] then (0, d)
      else
        let ts = filter (\<lambda>t. tk_device t = Some v \<and> tk_status t \<notin> {''resolved'', ''closed''}) (td_tickets d) in
        (length ts,
         foldl (\<lambda>d1 t. add_message now (tk_id t) ''system'' (if truthy author then the author else SYSTEME) content None d1) d ts))"

end
