(* ===== verification/MailText.thy ===== *)
theory MailText imports TicketDb begin

text \<open>
  The text side of the mail bridge: message identifiers (\<open>message-id.js\<close>), header parsing
  (\<open>header-parser.js\<close>), thread headers and subjects (\<open>thread-headers.js\<close>), removal of NUL
  characters (\<open>sanitize.js\<close>), text of a body (\<open>body-text.js\<close>) and validation of the
  classifier's answer (\<open>classify.js\<close>).

  A regular expression is a matcher: the length of the match at the head of a text, if any.
  SHA-256 (hexadecimal) is a parameter.
\<close>

section \<open>Matchers\<close>

type_synonym matcher = "jsstring \<Rightarrow> nat option"

text \<open>\<open>s.replace(/re/g, f)\<close>: every match, leftmost first, of a regex that never matches the empty text.\<close>

function replace_all :: "matcher \<Rightarrow> (jsstring \<Rightarrow> jsstring) \<Rightarrow> jsstring \<Rightarrow> jsstring" where
  "replace_all m f [] = []"
| "replace_all m f (c # cs) =
     (case m (c # cs) of
        Some (Suc n) \<Rightarrow> f (take (Suc n) (c # cs)) @ replace_all m f (drop n cs)
      | _ \<Rightarrow> c # replace_all m f cs)"
  by pat_completeness auto
termination by (relation "measure (\<lambda>(m, f, s). length s)") auto

text \<open>\<open>s.replace(/re/, f)\<close>: the leftmost match only; \<open>search\<close> gives its position.\<close>

fun search :: "matcher \<Rightarrow> jsstring \<Rightarrow> (nat \<times> nat) option" where
  "search m [] = map_option (\<lambda>n. (0, n)) (m [])"
| "search m (c # cs) =
     (case m (c # cs) of Some n \<Rightarrow> Some (0, n) | None \<Rightarrow> map_option (\<lambda>(i, n). (Suc i, n)) (search m cs))"

text \<open>A literal, case ignored; a run of characters; sequence.\<close>

definition m_lit :: "jsstring \<Rightarrow> matcher" where
  "m_lit p s = (if js_lower (take (length p) s) = js_lower p then Some (length p) else None)"

definition m_exact :: "jsstring \<Rightarrow> matcher" where
  "m_exact p s = (if take (length p) s = p then Some (length p) else None)"

definition m_run :: "(char \<Rightarrow> bool) \<Rightarrow> matcher" where
  "m_run P s = Some (length (takeWhile P s))"

definition m_run1 :: "(char \<Rightarrow> bool) \<Rightarrow> matcher" where
  "m_run1 P s = (if takeWhile P s = [] then None else Some (length (takeWhile P s)))"

definition m_seq :: "matcher \<Rightarrow> matcher \<Rightarrow> matcher" where
  "m_seq a b s = (case a s of None \<Rightarrow> None | Some n \<Rightarrow> map_option (\<lambda>k. n + k) (b (drop n s)))"

definition m_alt :: "matcher \<Rightarrow> matcher \<Rightarrow> matcher" where
  "m_alt a b s = (case a s of None \<Rightarrow> b s | Some n \<Rightarrow> Some n)"

definition m_opt :: "matcher \<Rightarrow> matcher" where
  "m_opt a s = (case a s of None \<Rightarrow> Some 0 | Some n \<Rightarrow> Some n)"

definition m_end :: matcher where
  "m_end s = (if s = [] then Some 0 else None)"

abbreviation m_space :: matcher where
  "m_space \<equiv> m_run js_space"

fun m_all :: "matcher list \<Rightarrow> matcher" where
  "m_all [] s = Some 0"
| "m_all (a # as) s = m_seq a (m_all as) s"

section \<open>Message identifiers\<close>

definition MAX_STORED_MESSAGE_ID_BYTES :: nat where
  "MAX_STORED_MESSAGE_ID_BYTES = 1000"

definition utf8_length :: "jsstring \<Rightarrow> nat" where
  "utf8_length s = sum_list (map (\<lambda>c. if (of_char c :: nat) < 128 then 1 else 2) s)"

definition storedMessageId :: "(jsstring \<Rightarrow> jsstring) \<Rightarrow> jsstring \<Rightarrow> jsstring" where
  "storedMessageId sha s =
     (if utf8_length s \<le> MAX_STORED_MESSAGE_ID_BYTES then s else ''<sha256-'' @ sha s @ ''@opale.invalid>'')"

definition messageIdLookupKeys :: "(jsstring \<Rightarrow> jsstring) \<Rightarrow> jsstring \<Rightarrow> jsstring list" where
  "messageIdLookupKeys sha i = (if storedMessageId sha i = i then [i] else [i, storedMessageId sha i])"

section \<open>Headers\<close>

definition angled :: "jsstring \<Rightarrow> jsstring" where
  "angled s = CHR ''<'' # s @ [CHR ''>'']"

definition is_angled :: "jsstring \<Rightarrow> bool" where
  "is_angled s \<longleftrightarrow> s \<noteq> [] \<and> hd s = CHR ''<'' \<and> last s = CHR ''>''"

definition normalizeMessageId :: "jsstring option \<Rightarrow> jsstring option" where
  "normalizeMessageId i =
     (case i of None \<Rightarrow> None
      | Some x \<Rightarrow> (let s = js_trim x in if s = [] then None else if is_angled s then Some s else Some (angled s)))"

definition not_angle :: "char \<Rightarrow> bool" where
  "not_angle c \<longleftrightarrow> c \<noteq> CHR ''<'' \<and> c \<noteq> CHR ''>''"

text \<open>The groups of \<open>/<([^<>]+)>/g\<close>, in order.\<close>

function angle_groups :: "jsstring \<Rightarrow> jsstring list" where
  "angle_groups [] = []"
| "angle_groups (c # cs) =
     (let g = takeWhile not_angle cs; rest = dropWhile not_angle cs in
      if c = CHR ''<'' \<and> g \<noteq> [] \<and> rest \<noteq> [] \<and> hd rest = CHR ''>'' then g # angle_groups (tl rest)
      else angle_groups cs)"
  by pat_completeness auto
termination
proof (relation "measure length")
  fix c :: char and cs g rest :: jsstring
  assume "rest = dropWhile not_angle cs"
  then show "(tl rest, c # cs) \<in> measure length"
    using length_dropWhile_le [of not_angle cs] by (auto simp del: length_dropWhile_le)
qed auto

definition parseMessageIdList :: "jsstring option \<Rightarrow> jsstring list" where
  "parseMessageIdList header =
     (case header of None \<Rightarrow> []
      | Some h \<Rightarrow>
          let s = js_trim h;
              ids = js_uniq (filter (\<lambda>i. 2 < length i) (map (\<lambda>g. angled (js_trim g)) (angle_groups s)))
          in if s = [] then []
             else if ids = [] \<and> CHR ''<'' \<notin> set s \<and> CHR ''>'' \<notin> set s
             then (case normalizeMessageId (Some s) of None \<Rightarrow> [] | Some i \<Rightarrow> [i])
             else ids)"

definition tag_char :: "char \<Rightarrow> bool" where
  "tag_char c \<longleftrightarrow> alpha_char c \<or> digit_char c \<or> c = CHR ''-''"

text \<open>\<open>/\\[\\s*Opale\\s*#\\s*([A-Za-z0-9-]+)\\s*\\]/i\<close>: the part before the group, and the whole.\<close>

definition m_tag_head :: matcher where
  "m_tag_head = m_all [m_exact ''['', m_space, m_lit ''Opale'', m_space, m_exact ''#'', m_space]"

definition m_tag :: matcher where
  "m_tag = m_all [m_tag_head, m_run1 tag_char, m_space, m_exact '']'']"

definition extractTicketTag :: "jsstring option \<Rightarrow> jsstring option" where
  "extractTicketTag subject =
     (case subject of None \<Rightarrow> None
      | Some s \<Rightarrow>
         (case search m_tag s of
            None \<Rightarrow> None
          | Some (i, n) \<Rightarrow> (let t = drop i s in Some (takeWhile tag_char (drop (the (m_tag_head t)) t)))))"

record hints =
  hn_reply :: "jsstring list"
  hn_references :: "jsstring list"
  hn_tag :: "jsstring option"

definition extractMatchingHints :: "jsstring option \<Rightarrow> jsstring option \<Rightarrow> jsstring option \<Rightarrow> hints" where
  "extractMatchingHints reply refs subject =
     \<lparr>hn_reply = parseMessageIdList reply, hn_references = parseMessageIdList refs, hn_tag = extractTicketTag subject\<rparr>"

section \<open>Outgoing subjects and thread headers\<close>

definition ticketTagFromUuid :: "jsstring option \<Rightarrow> jsstring option" where
  "ticketTagFromUuid i =
     (if \<not> truthy i then None else Some (js_upper (take 8 (filter (\<lambda>c. c \<noteq> CHR ''-'') (the i)))))"

definition NO_SUBJECT :: jsstring where
  "NO_SUBJECT = ''(sans sujet)''"

definition drop_tags :: "jsstring \<Rightarrow> jsstring" where
  "drop_tags s = replace_all (m_seq m_tag m_space) (\<lambda>_. []) s"

text \<open>\<open>/^((?:re|tr|fwd|fw)\\s*:\\s*)+/i\<close>: the length of the prefix.\<close>

definition m_reply :: matcher where
  "m_reply = m_all [m_alt (m_lit ''re'') (m_alt (m_lit ''tr'') (m_alt (m_lit ''fwd'') (m_lit ''fw''))), m_space, m_exact '':'', m_space]"

fun repeat_len :: "nat \<Rightarrow> matcher \<Rightarrow> jsstring \<Rightarrow> nat" where
  "repeat_len 0 m s = 0"
| "repeat_len (Suc k) m s = (case m s of None \<Rightarrow> 0 | Some n \<Rightarrow> n + repeat_len k m (drop n s))"

definition prefix_len :: "matcher \<Rightarrow> jsstring \<Rightarrow> nat" where
  "prefix_len m s = repeat_len (length s) m s"

definition buildSubject :: "jsstring option \<Rightarrow> jsstring option \<Rightarrow> jsstring" where
  "buildSubject orig i =
     (case ticketTagFromUuid i of
        None \<Rightarrow> if truthy orig then the orig else NO_SUBJECT
      | Some t \<Rightarrow>
          if t = [] then (if truthy orig then the orig else NO_SUBJECT)
          else
            let cleaned = js_trim (drop_tags (or_else orig []));
                subject = (if cleaned = [] then NO_SUBJECT else cleaned);
                n = prefix_len m_reply subject;
                tagged = ''[Opale #'' @ t @ ''] ''
            in if 0 < n then js_trim (take n subject @ tagged @ drop n subject) else tagged @ subject)"

definition buildThreadHeaders :: "mapping list \<Rightarrow> jsstring option \<times> jsstring option" where
  "buildThreadHeaders rows =
     (if rows = [] then (None, None)
      else
        let inb = filter (\<lambda>r. mp_direction r = Inbound) rows;
            parent = (if inb = [] then last rows else last inb);
            refs = js_uniq (map the (filter truthy (map (\<lambda>r. normalizeMessageId (Some (mp_imid r))) rows)))
        in (normalizeMessageId (Some (mp_imid parent)), if refs = [] then None else Some (js_join '' '' refs)))"

section \<open>NUL characters\<close>

fun strip_nul :: "jsstring \<Rightarrow> jsstring" where
  "strip_nul s = filter (\<lambda>c. c \<noteq> CHR 0x00) s"

fun stripNul :: "json \<Rightarrow> json" where
  "stripNul (JStr s) = JStr (strip_nul s)"
| "stripNul (JArr xs) = JArr (map stripNul xs)"
| "stripNul (JObj ps) = JObj (foldl (\<lambda>m (k, v). jm_set (strip_nul k) v m) [] (map (\<lambda>(k, v). (k, stripNul v)) ps))"
| "stripNul v = v"

section \<open>Text of a body\<close>

text \<open>\<open><style ...>...</style>\<close>: from the opening tag, to the first closing tag.\<close>

definition m_block :: "jsstring \<Rightarrow> matcher" where
  "m_block name s =
     (let open_tag = CHR ''<'' # name; close_tag = ''</'' @ name @ ''>''; n = length open_tag in
      if m_lit open_tag s = None \<or> (drop n s \<noteq> [] \<and> word_char (hd (drop n s))) then None
      else (case search (m_lit close_tag) (drop n s) of None \<Rightarrow> None | Some (i, k) \<Rightarrow> Some (n + i + k)))"

definition m_close :: "jsstring \<Rightarrow> matcher" where
  "m_close name = m_all [m_lit (''</'' @ name), m_space, m_exact ''>'']"

definition m_heading_end :: matcher where
  "m_heading_end = m_all [m_lit ''</h'', (\<lambda>s. if s \<noteq> [] \<and> hd s \<in> set ''123456'' then Some 1 else None), m_space, m_exact ''>'']"

definition m_any_tag :: matcher where
  "m_any_tag = m_all [m_exact ''<'', m_run1 (\<lambda>c. c \<noteq> CHR ''>''), m_exact ''>'']"

definition m_numeric :: matcher where
  "m_numeric = m_all [m_exact ''&#'', m_run1 digit_char, m_exact '';'']"

text \<open>\<open>String.fromCharCode\<close> of the digits; code units above 255 keep their low byte here.\<close>

definition from_numeric :: "jsstring \<Rightarrow> jsstring" where
  "from_numeric s = [char_of (dec_val (takeWhile digit_char (drop 2 s)))]"

definition blank :: "char \<Rightarrow> bool" where
  "blank c \<longleftrightarrow> c = CHR '' '' \<or> c = CHR 0x09"

definition NL :: char where
  "NL = CHR 0x0A"

definition const_text :: "jsstring \<Rightarrow> jsstring \<Rightarrow> jsstring" where
  "const_text t s = t"

definition m_blank_lines :: matcher where
  "m_blank_lines s = (if 3 \<le> length (takeWhile (\<lambda>c. c = NL) s) then Some (length (takeWhile (\<lambda>c. c = NL) s)) else None)"

definition html_steps :: "(matcher \<times> (jsstring \<Rightarrow> jsstring)) list" where
  "html_steps =
     [(m_block ''style'', const_text []),
      (m_block ''script'', const_text []),
      (m_all [m_lit ''<br'', m_space, m_opt (m_exact [CHR 0x2F]), m_exact ''>''], const_text [NL]),
      (m_close ''p'', const_text [NL, NL]),
      (m_close ''div'', const_text [NL]),
      (m_close ''li'', const_text [NL]),
      (m_all [m_lit ''<li'', m_space, m_exact ''>''], const_text ''- ''),
      (m_heading_end, const_text [NL, NL]),
      (m_any_tag, const_text []),
      (m_exact ''&nbsp;'', const_text '' ''),
      (m_exact ''&amp;'', const_text ''&''),
      (m_exact ''&lt;'', const_text ''<''),
      (m_exact ''&gt;'', const_text ''>''),
      (m_exact ''&quot;'', const_text [CHR 0x22]),
      (m_exact ''&#39;'', const_text [CHR 0x27]),
      (m_exact ''&apos;'', const_text [CHR 0x27]),
      (m_numeric, from_numeric),
      (m_exact [CHR 0x0D, NL], const_text [NL]),
      (m_all [m_run1 blank, m_exact [NL]], const_text [NL]),
      (m_blank_lines, const_text [NL, NL])]"

definition htmlToText :: "jsstring \<Rightarrow> jsstring" where
  "htmlToText html = js_trim (foldl (\<lambda>s (m, f). replace_all m f s) html html_steps)"

definition line_end :: "char \<Rightarrow> bool" where
  "line_end c \<longleftrightarrow> c = NL \<or> c = CHR 0x0D"

text \<open>The first position at the start of a line where \<open>P\<close> holds of the rest (flag \<open>m\<close>).\<close>

fun line_search :: "bool \<Rightarrow> (jsstring \<Rightarrow> bool) \<Rightarrow> jsstring \<Rightarrow> nat option" where
  "line_search start P [] = (if start \<and> P [] then Some 0 else None)"
| "line_search start P (c # cs) =
     (if start \<and> P (c # cs) then Some 0 else map_option Suc (line_search (line_end c) P cs))"

text \<open>\<open>/^--\\s*$/m\<close>.\<close>

definition rfc_delimiter :: "jsstring \<Rightarrow> bool" where
  "rfc_delimiter s \<longleftrightarrow>
     take 2 s = ''--'' \<and>
     (dropWhile js_space (drop 2 s) = [] \<or> list_ex line_end (takeWhile js_space (drop 2 s)))"

definition m_e_acute :: matcher where
  "m_e_acute s = (if s \<noteq> [] \<and> hd s \<in> {CHR 0xE9, CHR 0xC9} then Some 1 else None)"

definition m_footer_head :: matcher where
  "m_footer_head =
     m_alt (m_all [m_lit ''Envoy'', m_e_acute, m_run1 js_space, m_lit ''depuis''])
     (m_alt (m_all [m_lit ''Sent'', m_run1 js_space, m_lit ''from''])
     (m_alt (m_all [m_lit ''Get'', m_run1 js_space, m_lit ''Outlook'', m_run1 js_space, m_lit ''for''])
     (m_alt (m_all [m_lit ''T'', m_e_acute, m_lit ''l'', m_e_acute, m_lit ''chargez'', m_run1 js_space, m_lit ''Outlook''])
            (m_all [m_lit ''Obtenez'', m_run1 js_space, m_lit ''Outlook'']))))"

definition footer_line :: "jsstring \<Rightarrow> bool" where
  "footer_line s \<longleftrightarrow>
     (case m_footer_head s of None \<Rightarrow> False | Some n \<Rightarrow> drop n s \<noteq> [] \<and> \<not> line_end (hd (drop n s)))"

definition m_quote_head :: matcher where
  "m_quote_head =
     m_all [m_alt (m_exact ''De'') (m_exact ''From''), m_space, m_exact '':'',
            (\<lambda>s. if s \<noteq> [] \<and> js_space (hd s) then Some 1 else None), m_run1 (\<lambda>c. \<not> line_end c),
            m_opt (m_exact [CHR 0x0D]), m_exact [NL]]"

definition m_sent :: matcher where
  "m_sent = m_all [m_alt (m_exact (''Envoy'' @ [CHR 0xE9])) (m_exact ''Sent''), m_space, m_exact '':'']"

definition quoted_block :: "jsstring \<Rightarrow> bool" where
  "quoted_block s \<longleftrightarrow>
     (case m_quote_head s of
        None \<Rightarrow> False
      | Some n \<Rightarrow>
          let t = drop n s in
          list_ex (\<lambda>k. m_sent (drop k t) \<noteq> None) [0..<Suc (length (takeWhile (\<lambda>c. \<not> line_end c) t))])"

definition trim_end :: "jsstring \<Rightarrow> jsstring" where
  "trim_end s = rev (dropWhile js_space (rev s))"

definition cut_at :: "(jsstring \<Rightarrow> bool) \<Rightarrow> jsstring \<Rightarrow> jsstring" where
  "cut_at P s = (case line_search True P s of None \<Rightarrow> s | Some i \<Rightarrow> if 5 < i then trim_end (take i s) else s)"

definition stripSignature :: "bool \<Rightarrow> jsstring \<Rightarrow> jsstring" where
  "stripSignature keepQuoted text =
     (let s = cut_at footer_line (cut_at rfc_delimiter text)
      in js_trim (if keepQuoted then s else cut_at quoted_block s))"

text \<open>The ellipsis of the constant (U+2026) stands as its Windows-1252 code.\<close>

definition TRUNCATED :: jsstring where
  "TRUNCATED = [NL, CHR 0x85] @ ''(tronqu'' @ [CHR 0xE9, CHR '')'']"

record full_message =
  fm_content :: "jsstring option"
  fm_type :: jsstring

definition extractMailBodyText :: "nat \<Rightarrow> bool \<Rightarrow> jsstring option \<Rightarrow> full_message option \<Rightarrow> jsstring" where
  "extractMailBodyText maxChars keepQuoted preview full =
     (let content = Option.bind full fm_content;
          body = (if truthy content
                  then (if js_lower (fm_type (the full)) = ''html'' then htmlToText (the content) else the content)
                  else or_else preview []);
          s = stripSignature keepQuoted body
      in if maxChars < length s then take maxChars s @ TRUNCATED else s)"

definition m_forward :: matcher where
  "m_forward =
     m_alt (m_all [m_lit ''tr'', m_space, m_exact '':''])
     (m_alt (m_all [m_lit ''fw'', m_space, m_exact '':''])
     (m_alt (m_all [m_lit ''fwd'', m_space, m_exact '':''])
            (m_all [m_lit ''wg'', m_space, m_exact '':''])))"

definition isForwardedSubject :: "jsstring option \<Rightarrow> bool" where
  "isForwardedSubject subject =
     (let s = dropWhile js_space (or_else subject []);
          n = prefix_len (m_all [m_alt (m_lit ''re'') (m_lit ''aw''), m_space, m_exact '':'', m_space]) s
      in m_forward (drop n s) \<noteq> None)"

section \<open>The classifier's answer\<close>

text \<open>
  \<open>Number(v)\<close>: \<open>None\<close> is \<open>NaN\<close> or an infinity. Numeric strings are decimal literals, with an
  optional exponent; hexadecimal literals and arrays are not modelled.
\<close>

definition decimal_part :: "jsstring \<Rightarrow> (rat \<times> jsstring) option" where
  "decimal_part s =
     (let a = takeWhile digit_char s; r = dropWhile digit_char s;
          b = (if r \<noteq> [] \<and> hd r = CHR ''.'' then takeWhile digit_char (tl r) else []);
          r' = (if r \<noteq> [] \<and> hd r = CHR ''.'' then dropWhile digit_char (tl r) else r)
      in if a = [] \<and> b = [] then None
         else Some (of_nat (dec_val (a @ b)) / 10 ^ length b, r'))"

definition exponent_part :: "jsstring \<Rightarrow> int option" where
  "exponent_part s =
     (if s = [] then Some 0
      else if hd s \<notin> set ''eE'' then None
      else let t = tl s; neg = (t \<noteq> [] \<and> hd t = CHR ''-''); u = (if t \<noteq> [] \<and> hd t \<in> set ''+-'' then tl t else t)
           in if u = [] \<or> \<not> list_all digit_char u then None
              else Some (if neg then - int (dec_val u) else int (dec_val u)))"

definition number_of_string :: "jsstring \<Rightarrow> rat option" where
  "number_of_string s0 =
     (let s = js_trim s0; neg = (s \<noteq> [] \<and> hd s = CHR ''-''); u = (if s \<noteq> [] \<and> hd s \<in> set ''+-'' then tl s else s) in
      if s = [] then Some 0
      else (case decimal_part u of
         None \<Rightarrow> None
       | Some (q, r) \<Rightarrow> map_option (\<lambda>e. (if neg then - q else q) * (if 0 \<le> e then 10 ^ nat e else 1 / 10 ^ nat (- e)))
                          (exponent_part r)))"

fun js_number :: "json option \<Rightarrow> rat option" where
  "js_number (Some JNull) = Some 0"
| "js_number (Some (JBool b)) = Some (if b then 1 else 0)"
| "js_number (Some (JNum q)) = Some q"
| "js_number (Some (JStr s)) = number_of_string s"
| "js_number _ = None"

definition VALID_INTENTS :: "jsstring list" where
  "VALID_INTENTS = [''new_ticket'', ''reply'', ''other'']"

definition validateClassifierOutput :: "json option \<Rightarrow> classification option" where
  "validateClassifierOutput raw =
     (case jprop raw ''intent'' of
        Some (JStr intent) \<Rightarrow>
          if intent \<notin> set VALID_INTENTS then None
          else
            let c = or_else (js_number (jprop raw ''confidence'')) (1 / 2);
                reason = (case jprop raw ''reason'' of Some (JStr s) \<Rightarrow> take 500 s | _ \<Rightarrow> [])
            in Some \<lparr>cl_intent = intent, cl_confidence = max 0 (min 1 c), cl_reason = reason, cl_fallback = False\<rparr>
      | _ \<Rightarrow> None)"

end
