(* ===== verification/MailIngest.thy ===== *)
theory MailIngest imports MailText begin

text \<open>
  Ingestion of mails: matching a sender (\<open>match-sender.js\<close>) and a thread
  (\<open>match-thread.js\<close>), an incoming mail (\<open>process-mail.js\<close>) and a mail sent from
  Outlook (\<open>process-sent-mail.js\<close>).

  Both pipelines read first and write later in one transaction; other requests may run
  in between. The model keeps the two phases apart: a plan computed from the
  database as read, and its execution on the database as found by the transaction.
  Graph (the full message), the classifier, SHA-256 and the outcome of the transaction
  are parameters.
\<close>

section \<open>Sender and thread\<close>

text \<open>\<open>ORDER BY d DESC NULLS LAST LIMIT 1\<close>; among equal dates the first row.\<close>

definition later :: "time option \<Rightarrow> time option \<Rightarrow> bool" where
  "later a b \<longleftrightarrow> (case a of None \<Rightarrow> False | Some x \<Rightarrow> (case b of None \<Rightarrow> True | Some y \<Rightarrow> y < x))"

fun latest :: "('r \<Rightarrow> time option) \<Rightarrow> 'r list \<Rightarrow> 'r option" where
  "latest f [] = None"
| "latest f (r # rs) = (case latest f rs of None \<Rightarrow> Some r | Some s \<Rightarrow> if later (f s) (f r) then Some s else Some r)"

record sender_match =
  sm_account :: account
  sm_machine :: "machine option"

definition matchSender :: "tdb \<Rightarrow> jsstring option \<Rightarrow> sender_match option" where
  "matchSender d from =
     (let address = js_lower (js_trim (or_else from [])) in
      if address = [] then None
      else (case find (\<lambda>a. map_option js_lower (ac_email a) = Some address) (td_accounts d) of
         None \<Rightarrow> None
       | Some a \<Rightarrow> Some \<lparr>sm_account = a,
           sm_machine = latest mc_last_seen (filter (\<lambda>m. mc_owner m = Some (ac_entra a)) (td_machines d))\<rparr>))"

definition linked :: "mapping \<Rightarrow> bool" where
  "linked m \<longleftrightarrow> mp_ticket m \<noteq> None \<or> mp_proposal m \<noteq> None"

definition findTicketByMessageIds :: "(jsstring \<Rightarrow> jsstring) \<Rightarrow> tdb \<Rightarrow> jsstring list \<Rightarrow> mapping option" where
  "findTicketByMessageIds sha d ids =
     (let rows = filter (\<lambda>m. mp_imid m \<in> set (concat (map (messageIdLookupKeys sha) ids)) \<and> linked m) (td_mails d);
          by_id = (\<lambda>k. find (\<lambda>m. mp_imid m = k) rows);
          row_of = (\<lambda>i. Option.bind (find (\<lambda>k. by_id k \<noteq> None) (messageIdLookupKeys sha i)) by_id)
      in Option.bind (find (\<lambda>i. row_of i \<noteq> None) ids) row_of)"

definition findTicketByConversationId :: "tdb \<Rightarrow> jsstring option \<Rightarrow> mapping option" where
  "findTicketByConversationId d conv =
     (if \<not> truthy conv then None
      else latest mp_received (filter (\<lambda>m. mp_conversation m = conv \<and> linked m) (td_mails d)))"

definition matchThread ::
    "(jsstring \<Rightarrow> jsstring) \<Rightarrow> tdb \<Rightarrow> jsstring option \<Rightarrow> jsstring option \<Rightarrow> jsstring option \<Rightarrow> jsstring option \<Rightarrow> mapping option" where
  "matchThread sha d reply refs conv subject =
     (let h = extractMatchingHints reply refs subject
      in first_some (findTicketByMessageIds sha d (hn_reply h @ hn_references h)) (findTicketByConversationId d conv))"

section \<open>What both pipelines share\<close>

definition strip_opt :: "jsstring option \<Rightarrow> jsstring option" where
  "strip_opt s = map_option strip_nul s"

definition strip_mail :: "graph_mail \<Rightarrow> graph_mail" where
  "strip_mail g =
     \<lparr>gm_id = strip_opt (gm_id g), gm_imid = strip_opt (gm_imid g), gm_conversation = strip_opt (gm_conversation g),
      gm_subject = strip_opt (gm_subject g), gm_from = strip_opt (gm_from g), gm_from_name = strip_opt (gm_from_name g),
      gm_received = gm_received g, gm_sent = gm_sent g,
      gm_headers = map (\<lambda>(k, v). (strip_nul k, strip_nul v)) (gm_headers g),
      gm_preview = strip_opt (gm_preview g), gm_folder = strip_opt (gm_folder g)\<rparr>"

definition indexHeaders :: "graph_mail \<Rightarrow> (jsstring, jsstring) jsmap" where
  "indexHeaders g = foldl (\<lambda>m (k, v). if k = [] then m else jm_set (js_lower k) v m) [] (gm_headers g)"

definition safeBodyPreview :: "graph_mail \<Rightarrow> jsstring" where
  "safeBodyPreview g = take 1000 (htmlToText (or_else (gm_preview g) []))"

definition EMPTY_BODY :: jsstring where
  "EMPTY_BODY = ''(corps vide)''"

definition known_mail :: "(jsstring \<Rightarrow> jsstring) \<Rightarrow> tdb \<Rightarrow> jsstring \<Rightarrow> bool" where
  "known_mail sha d i \<longleftrightarrow> list_ex (\<lambda>m. mp_imid m \<in> set (messageIdLookupKeys sha i)) (td_mails d)"

definition thread_of :: "(jsstring \<Rightarrow> jsstring) \<Rightarrow> tdb \<Rightarrow> graph_mail \<Rightarrow> mapping option" where
  "thread_of sha d g =
     (let h = jm_get (indexHeaders g) in
      matchThread sha d (h ''in-reply-to'') (h ''references'') (gm_conversation g) (gm_subject g))"

text \<open>The body fetched from Graph, cut by \<open>extractMailBodyText\<close>; \<open>None\<close> when the call failed.\<close>

definition fetched_body :: "(jsstring \<Rightarrow> jsstring option \<Rightarrow> full_message option) \<Rightarrow> jsstring \<Rightarrow> graph_mail \<Rightarrow> jsstring option" where
  "fetched_body get_message mailbox g =
     map_option (\<lambda>full. strip_nul (extractMailBodyText 8000 False (gm_preview g) (Some full))) (get_message mailbox (gm_id g))"

definition author_name :: "sender_match option \<Rightarrow> graph_mail \<Rightarrow> jsstring" where
  "author_name s g =
     (let n = Option.bind s (\<lambda>x. ac_name (sm_account x)) in
      if truthy n then the n else if truthy (gm_from g) then the (gm_from g) else ''Email'')"

definition mail_content :: "jsstring option \<Rightarrow> graph_mail \<Rightarrow> jsstring" where
  "mail_content body g =
     (if truthy body then the body else if safeBodyPreview g \<noteq> [] then safeBodyPreview g else EMPTY_BODY)"

definition put_mail :: "mapping \<Rightarrow> tdb \<Rightarrow> tdb" where
  "put_mail m d = d\<lparr>td_mails := td_mails d @ [m\<lparr>mp_id := td_next d\<rparr>], td_next := td_next d + 1\<rparr>"

definition text_or_null :: "jsstring option \<Rightarrow> jsstring option" where
  "text_or_null s = (if truthy s then s else None)"

section \<open>The classifier\<close>

record classifier_config =
  cc_enabled :: bool
  cc_url :: jsstring
  cc_model :: jsstring
  cc_fallback :: jsstring

definition setting_or :: "tdb \<Rightarrow> jsstring \<Rightarrow> jsstring \<Rightarrow> jsstring" where
  "setting_or d k dflt = (let v = jm_get (td_settings d) k in if truthy v then the v else dflt)"

definition getClassifierConfig :: "tdb \<Rightarrow> classifier_config" where
  "getClassifierConfig d =
     \<lparr>cc_enabled = (jm_get (td_settings d) ''mail.classifier.enabled'' = Some ''true''),
      cc_url = setting_or d ''mail.classifier.url'' [], cc_model = setting_or d ''mail.classifier.model'' [],
      cc_fallback = setting_or d ''mail.classifier.fallback_intent'' ''new_ticket''\<rparr>"

text \<open>
  The classifier returns a classification or fails with a message. The em dash of the
  reason (U+2014) stands as its Windows-1252 code.
\<close>

type_synonym classifier = "jsstring \<Rightarrow> jsstring \<Rightarrow> jsstring option \<times> jsstring option \<times> jsstring \<Rightarrow> jsstring + classification"

definition fallback_of :: "classifier_config \<Rightarrow> jsstring \<Rightarrow> classification" where
  "fallback_of cfg reason =
     \<lparr>cl_intent = (if cc_fallback cfg = ''other'' then ''other'' else if cc_fallback cfg = ''reply'' then ''reply'' else ''new_ticket''),
      cl_confidence = 0, cl_reason = reason, cl_fallback = True\<rparr>"

definition classifySafe :: "classifier \<Rightarrow> tdb \<Rightarrow> jsstring option \<times> jsstring option \<times> jsstring \<Rightarrow> classification" where
  "classifySafe classify d msg =
     (let cfg = getClassifierConfig d in
      if \<not> cc_enabled cfg \<or> cc_url cfg = [] \<or> cc_model cfg = []
      then fallback_of cfg (''classifier disabled '' @ [CHR 0x97] @ '' fallback'')
      else (case classify (cc_url cfg) (cc_model cfg) msg of
              Inr c \<Rightarrow> c
            | Inl e \<Rightarrow> fallback_of cfg (''classifier error: '' @ e)))"

section \<open>An incoming mail\<close>

datatype action =
    Message_appended | Reply_appended | Pending_review | Already_ingested | Skipped_error | Skipped_no_match | Skipped_duplicate

fun action_text :: "action \<Rightarrow> jsstring" where
  "action_text Message_appended = ''message_appended''"
| "action_text Reply_appended = ''reply_appended_to_proposal''"
| "action_text Pending_review = ''pending_review''"
| "action_text Already_ingested = ''already_ingested''"
| "action_text Skipped_error = ''skipped_error''"
| "action_text Skipped_no_match = ''skipped_no_match''"
| "action_text Skipped_duplicate = ''skipped_duplicate''"

record result =
  rs_action :: action
  rs_ticket :: "uuid option"
  rs_retryable :: bool
  rs_committed :: bool
  rs_classifier :: "classification option"

definition result_of :: "action \<Rightarrow> result" where
  "result_of a = \<lparr>rs_action = a, rs_ticket = None, rs_retryable = False, rs_committed = False, rs_classifier = None\<rparr>"

text \<open>What the first phase has decided, handed to the transaction.\<close>

record plan =
  pn_mail :: graph_mail
  pn_imid :: jsstring
  pn_mailbox :: jsstring
  pn_thread :: "(uuid option \<times> uuid option) option"
  pn_classifier :: classification
  pn_body :: "jsstring option"
  pn_sender :: "sender_match option"

definition thread_reply :: "jsstring \<Rightarrow> classification" where
  "thread_reply why = \<lparr>cl_intent = ''reply'', cl_confidence = 1, cl_reason = why, cl_fallback = False\<rparr>"

definition prepare_mail ::
    "(jsstring \<Rightarrow> jsstring) \<Rightarrow> (jsstring \<Rightarrow> jsstring option \<Rightarrow> full_message option) \<Rightarrow> classifier
     \<Rightarrow> classification option \<Rightarrow> jsstring \<Rightarrow> graph_mail \<Rightarrow> tdb \<Rightarrow> result + plan" where
  "prepare_mail sha get_message classify memo mailbox raw d =
     (let g = strip_mail raw in
      if \<not> truthy (gm_imid g) then Inl (result_of Skipped_error)
      else if known_mail sha d (the (gm_imid g)) then Inl (result_of Already_ingested)
      else
        let t = thread_of sha d g;
            has_ticket = (Option.bind t mp_ticket \<noteq> None); has_proposal = (Option.bind t mp_proposal \<noteq> None);
            c = (if has_ticket then thread_reply ''thread match (existing ticket)''
                 else if has_proposal then thread_reply ''thread match (pending proposal)''
                 else or_else memo (classifySafe classify d (gm_from g, gm_subject g, safeBodyPreview g)))
        in Inr \<lparr>pn_mail = g, pn_imid = the (gm_imid g), pn_mailbox = mailbox,
                pn_thread = map_option (\<lambda>m. (mp_ticket m, mp_proposal m)) t, pn_classifier = c,
                pn_body = (if has_ticket \<or> has_proposal then fetched_body get_message mailbox g else None),
                pn_sender = matchSender d (text_or_null (gm_from g))\<rparr>)"

definition appendMessageToTicket :: "time \<Rightarrow> uuid \<Rightarrow> jsstring \<Rightarrow> jsstring \<Rightarrow> tdb \<Rightarrow> tdb" where
  "appendMessageToTicket now i who content d =
     touch_ticket now i (add_message now i ''comment'' who content (Some now) d)"

definition reply_of :: "graph_mail \<Rightarrow> sender_match option \<Rightarrow> jsstring option \<Rightarrow> reply" where
  "reply_of g s body =
     \<lparr>rp_imid = text_or_null (gm_imid g), rp_from = text_or_null (gm_from g),
      rp_from_name = (if truthy (gm_from_name g) then gm_from_name g
                      else text_or_null (Option.bind s (\<lambda>x. ac_name (sm_account x)))),
      rp_subject = text_or_null (gm_subject g), rp_received = gm_received g, rp_body = text_or_null body,
      rp_preview = safeBodyPreview g\<rparr>"

definition appendReplyToProposal :: "uuid \<Rightarrow> reply \<Rightarrow> tdb \<Rightarrow> bool \<times> tdb" where
  "appendReplyToProposal i r d =
     (if \<not> list_ex (\<lambda>p. pp_id p = i) (td_proposals d) then (False, d)
      else (True, d\<lparr>td_proposals := update_rows (\<lambda>p. pp_id p = i)
                      (\<lambda>p. p\<lparr>pp_payload := (pp_payload p)\<lparr>pl_replies := pl_replies (pp_payload p) @ [r]\<rparr>\<rparr>) (td_proposals d)\<rparr>))"

definition inbound_row :: "(jsstring \<Rightarrow> jsstring) \<Rightarrow> time \<Rightarrow> plan \<Rightarrow> mapping" where
  "inbound_row sha now p =
     (let g = pn_mail p in
      \<lparr>mp_id = 0, mp_imid = storedMessageId sha (pn_imid p), mp_conversation = text_or_null (gm_conversation g),
       mp_graph_id = text_or_null (gm_id g), mp_mailbox = pn_mailbox p, mp_direction = Inbound,
       mp_from = text_or_null (gm_from g), mp_subject = text_or_null (gm_subject g), mp_received = gm_received g,
       mp_raw = g, mp_processed = Some now, mp_action = None, mp_error = None, mp_ticket = None, mp_proposal = None,
       mp_classifier = Some ((pn_classifier p)\<lparr>cl_reason := strip_nul (cl_reason (pn_classifier p))\<rparr>),
       mp_created = now, mp_read_at = None\<rparr>)"

text \<open>The transaction. \<open>fault\<close>: the database refused it, everything is rolled back.\<close>

definition commit_mail :: "(jsstring \<Rightarrow> jsstring) \<Rightarrow> bool \<Rightarrow> time \<Rightarrow> plan \<Rightarrow> tdb \<Rightarrow> result \<times> tdb" where
  "commit_mail sha fault now p d =
     (let stored = storedMessageId sha (pn_imid p);
          memo = (if pn_thread p = None \<and> \<not> cl_fallback (pn_classifier p) then Some (pn_classifier p) else None);
          ticket = Option.bind (pn_thread p) fst; proposal = Option.bind (pn_thread p) snd
      in if fault then ((result_of Skipped_error)\<lparr>rs_retryable := True, rs_classifier := memo\<rparr>, d)
         else if list_ex (\<lambda>m. mp_imid m = stored) (td_mails d) then (result_of Already_ingested, d)
         else
           let row = inbound_row sha now p;
               (act, err, d1) =
                 (case ticket of
                    Some i \<Rightarrow> (Message_appended, None,
                       appendMessageToTicket now i (author_name (pn_sender p) (pn_mail p)) (mail_content (pn_body p) (pn_mail p)) d)
                  | None \<Rightarrow>
                     (case proposal of
                        None \<Rightarrow> (Pending_review, None, d)
                      | Some q \<Rightarrow>
                         (case appendReplyToProposal q (reply_of (pn_mail p) (pn_sender p) (pn_body p)) d of
                            (True, d2) \<Rightarrow> (Reply_appended, None, d2)
                          | (False, d2) \<Rightarrow> (Skipped_error, Some (''proposal '' @ nat_str q @ '' introuvable au moment de l'append''), d2))))
           in ((result_of act)\<lparr>rs_ticket := ticket, rs_committed := True\<rparr>,
               put_mail (row\<lparr>mp_ticket := ticket, mp_proposal := proposal, mp_action := Some (action_text act), mp_error := err\<rparr>) d1))"

definition processOne ::
    "(jsstring \<Rightarrow> jsstring) \<Rightarrow> (jsstring \<Rightarrow> jsstring option \<Rightarrow> full_message option) \<Rightarrow> classifier \<Rightarrow> bool \<Rightarrow> time
     \<Rightarrow> classification option \<Rightarrow> jsstring \<Rightarrow> graph_mail \<Rightarrow> tdb \<Rightarrow> result \<times> tdb" where
  "processOne sha get_message classify fault now memo mailbox raw d =
     (case prepare_mail sha get_message classify memo mailbox raw d of
        Inl r \<Rightarrow> (r, d)
      | Inr p \<Rightarrow> commit_mail sha fault now p d)"

section \<open>A mail sent from Outlook\<close>

text \<open>Runs of white space become one space; the database's class of spaces has no NBSP.\<close>

fun squeeze :: "(char \<Rightarrow> bool) \<Rightarrow> bool \<Rightarrow> jsstring \<Rightarrow> jsstring" where
  "squeeze P b [] = []"
| "squeeze P b (c # cs) = (if P c then (if b then squeeze P True cs else CHR '' '' # squeeze P True cs) else c # squeeze P False cs)"

definition normalizeContent :: "jsstring \<Rightarrow> jsstring" where
  "normalizeContent s = js_trim (squeeze js_space False s)"

definition sql_space :: "char \<Rightarrow> bool" where
  "sql_space c \<longleftrightarrow> js_space c \<and> c \<noteq> CHR 0xA0"

definition sql_normalized :: "jsstring \<Rightarrow> jsstring" where
  "sql_normalized s =
     (let blank = (\<lambda>c. c = CHR '' '') in rev (dropWhile blank (rev (dropWhile blank (squeeze sql_space False s)))))"

definition sentAt :: "time \<Rightarrow> graph_mail \<Rightarrow> time" where
  "sentAt now g = or_else (first_some (gm_sent g) (gm_received g)) now"

record sent_plan =
  sp_mail :: graph_mail
  sp_imid :: jsstring
  sp_mailbox :: jsstring
  sp_ticket :: uuid
  sp_author :: jsstring
  sp_content :: jsstring
  sp_when :: time

definition prepare_sent ::
    "(jsstring \<Rightarrow> jsstring) \<Rightarrow> (jsstring \<Rightarrow> jsstring option \<Rightarrow> full_message option) \<Rightarrow> time \<Rightarrow> bool
     \<Rightarrow> jsstring \<Rightarrow> graph_mail \<Rightarrow> tdb \<Rightarrow> result + sent_plan" where
  "prepare_sent sha get_message now dryRun mailbox raw d =
     (let g = strip_mail raw in
      if \<not> truthy (gm_imid g) then Inl (result_of Skipped_error)
      else if known_mail sha d (the (gm_imid g)) then Inl (result_of Already_ingested)
      else (case Option.bind (thread_of sha d g) mp_ticket of
         None \<Rightarrow> Inl (result_of Skipped_no_match)
       | Some i \<Rightarrow>
           let body = fetched_body get_message mailbox g;
               who = author_name (matchSender d (text_or_null (gm_from g))) g;
               content = mail_content body g
           in if list_ex (\<lambda>m. ms_ticket m = i \<and> sql_normalized (ms_content m) = normalizeContent content) (td_messages d)
              then Inl ((result_of Skipped_duplicate)\<lparr>rs_ticket := Some i\<rparr>)
              else if dryRun then Inl ((result_of Message_appended)\<lparr>rs_ticket := Some i\<rparr>)
              else Inr \<lparr>sp_mail = g, sp_imid = the (gm_imid g), sp_mailbox = mailbox, sp_ticket = i, sp_author = who,
                        sp_content = content, sp_when = sentAt now g\<rparr>))"

definition appendSentMessageToTicket :: "time \<Rightarrow> uuid \<Rightarrow> jsstring \<Rightarrow> jsstring \<Rightarrow> time \<Rightarrow> tdb \<Rightarrow> tdb" where
  "appendSentMessageToTicket now i who content when_sent d =
     touch_ticket now i (add_message when_sent i ''comment'' who content (Some when_sent) d)"

definition commit_sent :: "(jsstring \<Rightarrow> jsstring) \<Rightarrow> bool \<Rightarrow> time \<Rightarrow> sent_plan \<Rightarrow> tdb \<Rightarrow> result \<times> tdb" where
  "commit_sent sha fault now p d =
     (let stored = storedMessageId sha (sp_imid p); g = sp_mail p in
      if fault then ((result_of Skipped_error)\<lparr>rs_retryable := True\<rparr>, d)
      else if list_ex (\<lambda>m. mp_imid m = stored) (td_mails d) then (result_of Already_ingested, d)
      else
        ((result_of Message_appended)\<lparr>rs_ticket := Some (sp_ticket p), rs_committed := True\<rparr>,
         appendSentMessageToTicket now (sp_ticket p) (sp_author p) (sp_content p) (sp_when p)
           (put_mail \<lparr>mp_id = 0, mp_imid = stored, mp_conversation = text_or_null (gm_conversation g),
              mp_graph_id = text_or_null (gm_id g), mp_mailbox = sp_mailbox p, mp_direction = Outbound,
              mp_from = text_or_null (gm_from g), mp_subject = text_or_null (gm_subject g),
              mp_received = Some (sp_when p), mp_raw = g, mp_processed = Some now,
              mp_action = Some ''message_appended'', mp_error = None, mp_ticket = Some (sp_ticket p), mp_proposal = None,
              mp_classifier = None, mp_created = now, mp_read_at = None\<rparr> d)))"

definition processSentOne ::
    "(jsstring \<Rightarrow> jsstring) \<Rightarrow> (jsstring \<Rightarrow> jsstring option \<Rightarrow> full_message option) \<Rightarrow> bool \<Rightarrow> time \<Rightarrow> bool
     \<Rightarrow> jsstring \<Rightarrow> graph_mail \<Rightarrow> tdb \<Rightarrow> result \<times> tdb" where
  "processSentOne sha get_message fault now dryRun mailbox raw d =
     (case prepare_sent sha get_message now dryRun mailbox raw d of
        Inl r \<Rightarrow> (r, d)
      | Inr p \<Rightarrow> commit_sent sha fault now p d)"

end
