(* ===== verification/Tickets.thy ===== *)
theory Tickets imports TicketDb "HOL-Library.List_Lexorder" begin

text \<open>
  The ticket routes (\<open>tickets/routes/tickets.js\<close>): who may read and change a ticket, the list
  and its filters, creation, modification, messages, people, devices, merge and tags.

  A handler returns the error it replies with, or its result, and the database. A property
  of a request body is \<open>None\<close> when absent, \<open>Some None\<close> when null. Bodies whose
  properties have another JSON type than the one the route documents are not modelled.
  The identity of the caller comes from the authenticated token.
\<close>

section \<open>Errors and constants\<close>

datatype tk_error =
    Ticket_not_found | Not_allowed | Title_required | Title_too_long | Description_too_long
  | Bad_status | Bad_priority | Bad_source | Bad_type | Bad_role | Content_required | Nothing_to_change
  | Status_reserved | Source_reserved | Assignment_reserved | Requester_reserved | Foreign_device
  | Fields_reserved | Type_reserved | Message_not_found | No_mail_origin | Not_failed | Suggestion_not_found
  | User_required | User_not_found | Device_required | Device_not_found | Link_not_found | Target_required
  | Merge_refused merge_error | Name_required | Bad_color | Name_too_long | Tag_exists | Tag_not_found
  | Tag_required | No_file | Disk_failed | File_too_large | Attachment_not_found | File_missing
  | Proposal_not_found | Proposal_handled jsstring | Assistant_disabled | Assistant_unset | Generation_failed
  | Sql_error

fun merge_code :: "merge_error \<Rightarrow> nat" where
  "merge_code SELF_MERGE = 400"
| "merge_code SOURCE_NOT_FOUND = 404"
| "merge_code TARGET_NOT_FOUND = 404"
| "merge_code SOURCE_ALREADY_MERGED = 409"
| "merge_code TARGET_ALREADY_MERGED = 409"

definition http_code :: "tk_error \<Rightarrow> nat" where
  "http_code e =
     (case e of
        Merge_refused m \<Rightarrow> merge_code m
      | Proposal_handled s \<Rightarrow> 409
      | _ \<Rightarrow>
        if e \<in> {Ticket_not_found, Message_not_found, Not_failed, Suggestion_not_found, User_not_found, Device_not_found,
                Link_not_found, Tag_not_found, Attachment_not_found, Proposal_not_found} then 404
        else if e \<in> {Not_allowed, Status_reserved, Source_reserved, Assignment_reserved, Requester_reserved,
                     Foreign_device, Fields_reserved, Type_reserved} then 403
        else if e \<in> {No_mail_origin, Tag_exists, Assistant_disabled, Assistant_unset} then 409
        else if e = File_too_large then 413
        else if e = File_missing then 410
        else if e = Generation_failed then 502
        else if e \<in> {Disk_failed, Sql_error} then 500
        else 400)"

definition TAG_COLORS :: "jsstring list" where
  "TAG_COLORS = [''slate'', ''blue'', ''green'', ''amber'', ''red'', ''violet'', ''pink'', ''teal'']"

definition PRIORITIES :: "jsstring list" where
  "PRIORITIES = [''low'', ''normal'', ''high'', ''critical'']"

definition STATUSES :: "jsstring list" where
  "STATUSES = [''open'', ''in_progress'', ''resolved'', ''closed'', ''merged'']"

definition SOURCES :: "jsstring list" where
  "SOURCES = [''manual'', ''auto'', ''alert'', ''script'', ''email'']"

definition USER_ROLES :: "jsstring list" where
  "USER_ROLES = [''requester'', ''involved'']"

definition INTERNAL_MESSAGE_TYPES :: "jsstring list" where
  "INTERNAL_MESSAGE_TYPES = [''internal_note'', ''ai_suggestion'']"

section \<open>Identity and access\<close>

record identity =
  id_entra :: entra
  id_name :: jsstring

text \<open>\<open>isAdmin\<close> and \<open>requireAdmin\<close> of \<open>plugins/auth.js\<close> read the flag of the account.\<close>

definition isAdmin :: "tdb \<Rightarrow> identity \<Rightarrow> bool" where
  "isAdmin d u = (case find (\<lambda>a. ac_entra a = id_entra u) (td_accounts d) of None \<Rightarrow> False | Some a \<Rightarrow> ac_admin a)"

definition isOwnDevice :: "tdb \<Rightarrow> uuid \<Rightarrow> entra \<Rightarrow> bool" where
  "isOwnDevice d v u = list_ex (\<lambda>m. mc_id m = v \<and> mc_owner m = Some u) (td_machines d)"

definition parseCsv :: "jsstring option \<Rightarrow> jsstring list option" where
  "parseCsv v = (if \<not> truthy v then None else Some (filter (\<lambda>s. s \<noteq> []) (map js_trim (js_split (CHR '','') (the v)))))"

definition loadTagsFor :: "tdb \<Rightarrow> uuid list \<Rightarrow> (uuid, tag list) jsmap" where
  "loadTagsFor d ids =
     (if ids = [] then []
      else group_rows fst snd
             (sort_key (map of_char \<circ> tg_name \<circ> snd :: uuid \<times> tag \<Rightarrow> nat list)
               (concat (map (\<lambda>(t, g). if t \<in> set ids then map (\<lambda>x. (t, x)) (filter (\<lambda>x. tg_id x = g) (td_labels d)) else [])
                  (td_tags d)))))"

text \<open>Administrator, requester or assignee. The answer carries the two columns the handlers reuse.\<close>

record acl =
  al_admin :: bool
  al_who :: identity
  al_user :: "entra option"
  al_assigned :: "entra option"

definition checkTicketAccess :: "tdb \<Rightarrow> identity \<Rightarrow> uuid \<Rightarrow> tk_error + acl" where
  "checkTicketAccess d u i =
     (case find_ticket d i of
        None \<Rightarrow> Inl Ticket_not_found
      | Some t \<Rightarrow>
          if \<not> isAdmin d u \<and> tk_user t \<noteq> Some (id_entra u) \<and> tk_assigned t \<noteq> Some (id_entra u)
          then Inl Not_allowed
          else Inr \<lparr>al_admin = isAdmin d u, al_who = u, al_user = tk_user t, al_assigned = tk_assigned t\<rparr>)"

text \<open>\<open>preHandler: requireAdmin\<close>.\<close>

definition admin_only :: "identity \<Rightarrow> (tdb \<Rightarrow> (tk_error + 'a) \<times> tdb) \<Rightarrow> tdb \<Rightarrow> (tk_error + 'a) \<times> tdb" where
  "admin_only u h d = (if isAdmin d u then h d else (Inl Not_allowed, d))"

section \<open>Reading tickets\<close>

definition messages_of :: "tdb \<Rightarrow> uuid \<Rightarrow> message list" where
  "messages_of d i = filter (\<lambda>m. ms_ticket m = i) (td_messages d)"

text \<open>\<open>ORDER BY created_at DESC LIMIT 1\<close>; among equal dates the first row.\<close>

fun newest :: "message list \<Rightarrow> message option" where
  "newest [] = None"
| "newest (m # ms) = (case newest ms of None \<Rightarrow> Some m | Some n \<Rightarrow> if ms_created_at m < ms_created_at n then Some n else Some m)"

definition hiddenTypes :: "bool \<Rightarrow> jsstring list" where
  "hiddenTypes admin = (if admin then [''system''] else ''system'' # INTERNAL_MESSAGE_TYPES)"

definition last_message :: "tdb \<Rightarrow> jsstring list \<Rightarrow> uuid \<Rightarrow> message option" where
  "last_message d hidden i = newest (filter (\<lambda>m. ms_type m \<notin> set hidden) (messages_of d i))"

definition awaiting_reply :: "tdb \<Rightarrow> jsstring list \<Rightarrow> jsstring \<Rightarrow> ticket \<Rightarrow> bool" where
  "awaiting_reply d hidden me t \<longleftrightarrow>
     tk_status t \<in> {''open'', ''in_progress''} \<and>
     (case last_message d hidden (tk_id t) of None \<Rightarrow> False | Some m \<Rightarrow> ms_author m \<noteq> me)"

definition ticket_counts :: "tdb \<Rightarrow> identity \<Rightarrow> (tk_error + nat \<times> nat) \<times> tdb" where
  "ticket_counts d0 u = admin_only u (\<lambda>d.
     (Inr (length (filter (\<lambda>t. tk_status t = ''open'' \<and> tk_assigned t = None) (td_tickets d)),
           length (filter (awaiting_reply d [''system''] (id_name u)) (td_tickets d))), d)) d0"

text \<open>\<open>ILIKE\<close>: \<open>%\<close> any text, \<open>_\<close> any character, \<open>\\\<close> escapes, case ignored.\<close>

fun ilike :: "jsstring \<Rightarrow> jsstring \<Rightarrow> bool" where
  "ilike [] s = (s = [])"
| "ilike (p # ps) s =
     (if p = CHR ''%'' then (case s of [] \<Rightarrow> ilike ps [] | c # cs \<Rightarrow> ilike ps s \<or> ilike (p # ps) cs)
      else if p = CHR ''_'' then (case s of [] \<Rightarrow> False | _ # cs \<Rightarrow> ilike ps cs)
      else if p = CHR 0x5C \<and> ps \<noteq> []
      then (case s of [] \<Rightarrow> False | c # cs \<Rightarrow> lower_char (hd ps) = lower_char c \<and> ilike (tl ps) cs)
      else (case s of [] \<Rightarrow> False | c # cs \<Rightarrow> lower_char p = lower_char c \<and> ilike ps cs))"

text \<open>\<open>parseInt(s, 10)\<close>, and \<open>parseInt(s ?? dflt, 10) || dflt\<close>.\<close>

definition js_parse_int :: "jsstring \<Rightarrow> int option" where
  "js_parse_int s =
     (let t = dropWhile js_space s;
          neg = (t \<noteq> [] \<and> hd t = CHR ''-'');
          u = (if t \<noteq> [] \<and> hd t \<in> {CHR ''-'', CHR ''+''} then tl t else t);
          ds = takeWhile digit_char u
      in if ds = [] then None else Some (if neg then - int (dec_val ds) else int (dec_val ds)))"

definition int_param :: "jsstring option \<Rightarrow> int \<Rightarrow> int" where
  "int_param s dflt =
     (case s of None \<Rightarrow> dflt
      | Some x \<Rightarrow> (case js_parse_int x of None \<Rightarrow> dflt | Some n \<Rightarrow> if n = 0 then dflt else n))"

definition list_limit :: "jsstring option \<Rightarrow> int" where
  "list_limit s = min (int_param s 50) 200"

definition list_offset :: "jsstring option \<Rightarrow> int" where
  "list_offset s = max (int_param s 0) 0"

text \<open>The query string of the list; the dates and the identifiers are already parsed.\<close>

record list_query =
  lq_status :: "jsstring option"
  lq_device :: "uuid option"
  lq_text :: "jsstring option"
  lq_priority :: "jsstring option"
  lq_assigned :: "jsstring option"
  lq_tags :: "uuid list"
  lq_from :: "time option"
  lq_to :: "time option"
  lq_auto :: "jsstring option"
  lq_limit :: "jsstring option"
  lq_offset :: "jsstring option"

definition text_matches :: "tdb \<Rightarrow> jsstring list \<Rightarrow> jsstring \<Rightarrow> ticket \<Rightarrow> bool" where
  "text_matches d hidden q t \<longleftrightarrow>
     (let p = ''%'' @ q @ ''%'' in
      ilike p (tk_title t) \<or> (case tk_desc t of None \<Rightarrow> False | Some x \<Rightarrow> ilike p x) \<or>
      list_ex (\<lambda>m. ms_type m \<notin> set hidden \<and> ilike p (ms_content m)) (messages_of d (tk_id t)) \<or>
      list_ex (\<lambda>r. tu_ticket r = tk_id t \<and>
                 list_ex (\<lambda>a. ac_entra a = tu_user r \<and>
                            ((case ac_name a of None \<Rightarrow> False | Some n \<Rightarrow> ilike p n) \<or>
                             (case ac_email a of None \<Rightarrow> False | Some n \<Rightarrow> ilike p n))) (td_accounts d)) (td_users d))"

definition status_filter :: "jsstring option \<Rightarrow> ticket \<Rightarrow> bool" where
  "status_filter q t \<longleftrightarrow> (if truthy q then tk_status t = the q else tk_status t \<noteq> ''closed'')"

definition assigned_filter :: "entra \<Rightarrow> jsstring option \<Rightarrow> ticket \<Rightarrow> bool" where
  "assigned_filter me q t \<longleftrightarrow>
     (if q = Some ''me'' then tk_assigned t = Some me
      else if q = Some ''unassigned'' then tk_assigned t = None
      else if truthy q then tk_assigned t = q else True)"

definition priority_filter :: "jsstring option \<Rightarrow> ticket \<Rightarrow> bool" where
  "priority_filter q t \<longleftrightarrow>
     (let ps = filter (\<lambda>p. p \<in> set PRIORITIES) (or_else (parseCsv q) []) in ps = [] \<or> tk_priority t \<in> set ps)"

definition tags_filter :: "tdb \<Rightarrow> uuid list \<Rightarrow> ticket \<Rightarrow> bool" where
  "tags_filter d gs t \<longleftrightarrow>
     gs = [] \<or> length (filter (\<lambda>(i, g). i = tk_id t \<and> g \<in> set gs) (td_tags d)) = length gs"

definition list_match :: "tdb \<Rightarrow> identity \<Rightarrow> list_query \<Rightarrow> ticket \<Rightarrow> bool" where
  "list_match d u q t \<longleftrightarrow>
     (isAdmin d u \<or> tk_user t = Some (id_entra u) \<or> tk_assigned t = Some (id_entra u)) \<and>
     status_filter (lq_status q) t \<and>
     (case lq_device q of None \<Rightarrow> True | Some v \<Rightarrow> tk_device t = Some v) \<and>
     (truthy (lq_text q) \<longrightarrow> text_matches d (hiddenTypes (isAdmin d u)) (the (lq_text q)) t) \<and>
     (lq_auto q \<in> {Some ''true'', Some ''false''} \<longrightarrow> tk_auto t = (lq_auto q = Some ''true'')) \<and>
     priority_filter (lq_priority q) t \<and>
     assigned_filter (id_entra u) (lq_assigned q) t \<and>
     tags_filter d (lq_tags q) t \<and>
     (case lq_from q of None \<Rightarrow> True | Some w \<Rightarrow> w \<le> tk_created_at t) \<and>
     (case lq_to q of None \<Rightarrow> True | Some w \<Rightarrow> tk_created_at t \<le> w)"

definition status_rank :: "jsstring \<Rightarrow> nat" where
  "status_rank s =
     (if s = ''in_progress'' then 1 else if s = ''open'' then 2 else if s = ''resolved'' then 3
      else if s = ''closed'' then 4 else 9)"

definition priority_rank :: "jsstring \<Rightarrow> nat" where
  "priority_rank s =
     (if s = ''critical'' then 1 else if s = ''high'' then 2 else if s = ''normal'' then 3 else if s = ''low'' then 4 else 5)"

definition list_key :: "ticket \<Rightarrow> nat \<times> nat \<times> int \<times> int" where
  "list_key t = (status_rank (tk_status t), priority_rank (tk_priority t), - tk_updated_at t, - tk_created_at t)"

record ticket_row =
  tr_ticket :: ticket
  tr_hostname :: "jsstring option"
  tr_owner :: "entra option"
  tr_requester :: "(jsstring option \<times> jsstring option) option"
  tr_awaiting :: bool
  tr_tags :: "tag list"

definition ticket_row_of :: "tdb \<Rightarrow> bool \<Rightarrow> jsstring \<Rightarrow> (uuid, tag list) jsmap \<Rightarrow> ticket \<Rightarrow> ticket_row" where
  "ticket_row_of d admin me tags t =
     (let m = Option.bind (tk_device t) (\<lambda>v. find (\<lambda>m. mc_id m = v) (td_machines d)) in
      \<lparr>tr_ticket = t, tr_hostname = map_option mc_hostname m, tr_owner = Option.bind m mc_owner,
       tr_requester = Option.bind (tk_user t) (\<lambda>e. map_option (\<lambda>a. (ac_name a, ac_email a))
                                                   (find (\<lambda>a. ac_entra a = e) (td_accounts d))),
       tr_awaiting = awaiting_reply d (hiddenTypes admin) me t,
       tr_tags = or_else (jm_get tags (tk_id t)) []\<rparr>)"

text \<open>A negative \<open>LIMIT\<close> is an error of the database.\<close>

definition listTickets :: "tdb \<Rightarrow> identity \<Rightarrow> list_query \<Rightarrow> tk_error + ticket_row list" where
  "listTickets d u q =
     (let n = list_limit (lq_limit q); k = list_offset (lq_offset q) in
      if n < 0 then Inl Sql_error
      else
        let ts = take (nat n) (drop (nat k) (sort_key list_key (filter (list_match d u q) (td_tickets d))));
            tags = loadTagsFor d (map tk_id ts)
        in Inr (map (ticket_row_of d (isAdmin d u) (id_name u) tags) ts))"

record ticket_view =
  tw_row :: ticket_row
  tw_inbound :: bool
  tw_messages :: "message list"
  tw_users :: "person list"
  tw_devices :: "(uuid \<times> jsstring option) list"
  tw_attachments :: "attachment list"
  tw_authors :: "jsstring list"
  tw_inbound_count :: nat
  tw_outbound_count :: nat

text \<open>\<open>COALESCE(NULLIF(name, ''), from_address)\<close> of a mail.\<close>

definition mail_author :: "mapping \<Rightarrow> jsstring option" where
  "mail_author m = (if truthy (gm_from_name (mp_raw m)) then gm_from_name (mp_raw m) else mp_from m)"

definition mails_of :: "tdb \<Rightarrow> uuid \<Rightarrow> mapping list" where
  "mails_of d i = filter (\<lambda>m. mp_ticket m = Some i) (td_mails d)"

definition visible_messages :: "tdb \<Rightarrow> bool \<Rightarrow> uuid \<Rightarrow> message list" where
  "visible_messages d admin i =
     sort_key ms_created_at (filter (\<lambda>m. admin \<or> ms_type m \<notin> set INTERNAL_MESSAGE_TYPES) (messages_of d i))"

definition getTicket :: "tdb \<Rightarrow> identity \<Rightarrow> uuid \<Rightarrow> tk_error + ticket_view" where
  "getTicket d u i =
     (case checkTicketAccess d u i of
        Inl e \<Rightarrow> Inl e
      | Inr al \<Rightarrow>
          (case find_ticket d i of
             None \<Rightarrow> Inl Ticket_not_found
           | Some t \<Rightarrow>
               let inb = filter (\<lambda>m. mp_direction m = Inbound) (mails_of d i) in
               Inr \<lparr>tw_row = ticket_row_of d (al_admin al) (id_name u) (loadTagsFor d [i]) t,
                    tw_inbound = (inb \<noteq> []),
                    tw_messages = visible_messages d (al_admin al) i,
                    tw_users = or_else (jm_get (loadRelatedUsersFor d [i]) i) [],
                    tw_devices = or_else (jm_get (loadRelatedDevicesFor d [i]) i) [],
                    tw_attachments = sort_key at_created (filter (\<lambda>a. at_ticket a = i) (td_attachments d)),
                    tw_authors = js_uniq (map the (filter truthy (concat (map (\<lambda>m. [mail_author m, mp_from m]) inb)))),
                    tw_inbound_count = length inb,
                    tw_outbound_count = length (filter (\<lambda>m. mp_direction m = Outbound) (mails_of d i))\<rparr>))"

section \<open>Creating a ticket\<close>

record new_ticket =
  nt_title :: "jsstring option"
  nt_desc :: "jsstring option"
  nt_priority :: "jsstring option option"
  nt_device :: "uuid option"
  nt_source :: "jsstring option option"
  nt_assigned :: "jsstring option"
  nt_assigned_name :: "jsstring option"
  nt_user :: "jsstring option"
  nt_tags :: "uuid list"

definition add_tags :: "uuid \<Rightarrow> uuid list \<Rightarrow> tdb \<Rightarrow> tdb" where
  "add_tags i gs d = d\<lparr>td_tags := foldl (\<lambda>ts g. if (i, g) \<in> set ts then ts else ts @ [(i, g)]) (td_tags d) gs\<rparr>"

definition insert_ticket ::
    "time \<Rightarrow> jsstring \<Rightarrow> jsstring option \<Rightarrow> jsstring \<Rightarrow> uuid option \<Rightarrow> entra option \<Rightarrow> jsstring \<Rightarrow> bool
     \<Rightarrow> entra option \<Rightarrow> jsstring option \<Rightarrow> tdb \<Rightarrow> ticket \<times> tdb" where
  "insert_ticket now title desc prio dev usr src auto by by_name d =
     (let t = \<lparr>tk_id = td_next d, tk_title = title, tk_desc = desc, tk_status = ''open'', tk_priority = prio,
               tk_device = dev, tk_user = usr, tk_source = src, tk_auto = auto, tk_created_by = by,
               tk_created_name = by_name, tk_assigned = None, tk_assigned_name = None, tk_merged_into = None,
               tk_resolved_at = None, tk_created_at = now, tk_updated_at = now\<rparr>
      in (t, d\<lparr>td_tickets := td_tickets d @ [t], td_next := td_next d + 1\<rparr>))"

text \<open>Requester and primary device of a row just inserted.\<close>

definition link_new_ticket :: "time \<Rightarrow> ticket \<Rightarrow> tdb \<Rightarrow> tdb" where
  "link_new_ticket now t d =
     (let d1 = (if truthy (tk_user t) then syncRequester now (tk_id t) (tk_user t) d else d)
      in case tk_device t of None \<Rightarrow> d1 | Some v \<Rightarrow> addDeviceToTicket now (tk_id t) v d1)"

definition new_ticket_guard :: "tdb \<Rightarrow> identity \<Rightarrow> new_ticket \<Rightarrow> tk_error option" where
  "new_ticket_guard d u b =
     (let prio = or_else (nt_priority b) (Some ''normal''); src = or_else (nt_source b) (Some ''manual'') in
      if \<not> truthy (nt_title b) then Some Title_required
      else if prio \<notin> Some ` set PRIORITIES then Some Bad_priority
      else if src \<notin> Some ` set SOURCES then Some Bad_source
      else if isAdmin d u then None
      else if src \<noteq> Some ''manual'' then Some Source_reserved
      else if truthy (nt_assigned b) \<or> truthy (nt_assigned_name b) \<or> nt_tags b \<noteq> [] then Some Assignment_reserved
      else if truthy (nt_user b) \<and> nt_user b \<noteq> Some (id_entra u) then Some Requester_reserved
      else (case nt_device b of
              None \<Rightarrow> None
            | Some v \<Rightarrow> if isOwnDevice d v (id_entra u) then None else Some Foreign_device))"

definition createTicket :: "time \<Rightarrow> identity \<Rightarrow> new_ticket \<Rightarrow> tdb \<Rightarrow> (tk_error + ticket) \<times> tdb" where
  "createTicket now u b d =
     (case new_ticket_guard d u b of
        Some e \<Rightarrow> (Inl e, d)
      | None \<Rightarrow>
          let src = the (or_else (nt_source b) (Some ''manual''));
              (t0, d0) = insert_ticket now (the (nt_title b)) (or_null (nt_desc b))
                           (the (or_else (nt_priority b) (Some ''normal''))) (nt_device b) (or_null (nt_user b)) src
                           (src = ''auto'') (Some (id_entra u)) (Some (id_name u)) d;
              t = t0\<lparr>tk_assigned := or_null (nt_assigned b), tk_assigned_name := or_null (nt_assigned_name b)\<rparr>;
              d1 = set_ticket (tk_id t) (\<lambda>_. t) d0
          in (Inr t, link_new_ticket now t (add_tags (tk_id t) (nt_tags b) d1)))"

section \<open>Changing a ticket\<close>

record ticket_patch =
  pt_status :: "jsstring option option"
  pt_priority :: "jsstring option option"
  pt_title :: "jsstring option option"
  pt_desc :: "jsstring option option"
  pt_assigned :: "jsstring option option"
  pt_assigned_name :: "jsstring option option"
  pt_user :: "jsstring option option"
  pt_device :: "uuid option option"

text \<open>\<open>String(title ?? '').trim()\<close>, and the description trimmed or null.\<close>

definition patch_title :: "ticket_patch \<Rightarrow> jsstring option" where
  "patch_title b = map_option (\<lambda>s. js_trim (or_else s [])) (pt_title b)"

definition patch_desc :: "ticket_patch \<Rightarrow> jsstring option option" where
  "patch_desc b = map_option (\<lambda>s. or_null (map_option js_trim s)) (pt_desc b)"

definition patch_values_guard :: "ticket_patch \<Rightarrow> tk_error option" where
  "patch_values_guard b =
     (if pt_status b \<noteq> None \<and> pt_status b \<notin> (Some \<circ> Some) ` set STATUSES then Some Bad_status
      else if patch_title b = Some [] then Some Title_required
      else if (case patch_title b of None \<Rightarrow> False | Some s \<Rightarrow> 200 < length s) then Some Title_too_long
      else if (case patch_desc b of Some (Some s) \<Rightarrow> 20000 < length s | _ \<Rightarrow> False) then Some Description_too_long
      else if pt_priority b \<noteq> None \<and> pt_priority b \<notin> (Some \<circ> Some) ` set PRIORITIES then Some Bad_priority
      else None)"

definition patch_rights_guard :: "tdb \<Rightarrow> acl \<Rightarrow> ticket_patch \<Rightarrow> tk_error option" where
  "patch_rights_guard d al b =
     (let me = id_entra (al_who al) in
      if al_admin al then None
      else if pt_status b = Some (Some ''merged'') then Some Status_reserved
      else if pt_assigned b \<noteq> None \<or> pt_assigned_name b \<noteq> None \<or> pt_user b \<noteq> None then Some Fields_reserved
      else if pt_device b \<noteq> None \<and>
              (al_user al \<noteq> Some me \<or> (case pt_device b of Some (Some v) \<Rightarrow> \<not> isOwnDevice d v me | _ \<Rightarrow> False))
      then Some Foreign_device
      else None)"

definition patch_is_empty :: "ticket_patch \<Rightarrow> bool" where
  "patch_is_empty b \<longleftrightarrow>
     pt_status b = None \<and> pt_priority b = None \<and> pt_title b = None \<and> pt_desc b = None \<and> pt_assigned b = None \<and>
     pt_assigned_name b = None \<and> pt_user b = None \<and> pt_device b = None"

definition apply_patch :: "time \<Rightarrow> ticket_patch \<Rightarrow> ticket \<Rightarrow> ticket" where
  "apply_patch now b t =
     t\<lparr>tk_status := (case pt_status b of Some (Some s) \<Rightarrow> s | _ \<Rightarrow> tk_status t),
       tk_priority := (case pt_priority b of Some (Some s) \<Rightarrow> s | _ \<Rightarrow> tk_priority t),
       tk_title := or_else (patch_title b) (tk_title t),
       tk_desc := or_else (patch_desc b) (tk_desc t),
       tk_assigned := or_else (pt_assigned b) (tk_assigned t),
       tk_assigned_name := or_else (pt_assigned_name b) (tk_assigned_name t),
       tk_user := or_else (pt_user b) (tk_user t),
       tk_device := or_else (pt_device b) (tk_device t),
       tk_resolved_at := (if pt_status b = Some (Some ''resolved'') then Some now else tk_resolved_at t),
       tk_updated_at := now\<rparr>"

definition status_label :: "jsstring \<Rightarrow> jsstring" where
  "status_label s =
     (if s = ''resolved'' then ''Ticket r'' @ [CHR 0xE9] @ ''solu''
      else if s = ''in_progress'' then ''Ticket pris en charge''
      else if s = ''open'' then ''Ticket r'' @ [CHR 0xE9] @ ''ouvert''
      else s)"

definition status_message :: "time \<Rightarrow> uuid \<Rightarrow> jsstring \<Rightarrow> jsstring option option \<Rightarrow> jsstring \<Rightarrow> tdb \<Rightarrow> tdb" where
  "status_message now i who new old d =
     (case new of
        Some (Some s) \<Rightarrow> if s \<noteq> [] \<and> s \<noteq> old then add_message now i ''system'' who (status_label s) None d else d
      | _ \<Rightarrow> d)"

definition patchTicket :: "time \<Rightarrow> identity \<Rightarrow> uuid \<Rightarrow> ticket_patch \<Rightarrow> tdb \<Rightarrow> (tk_error + ticket) \<times> tdb" where
  "patchTicket now u i b d =
     (case checkTicketAccess d u i of
        Inl e \<Rightarrow> (Inl e, d)
      | Inr al \<Rightarrow>
         (case first_some (patch_values_guard b) (patch_rights_guard d al b) of
            Some e \<Rightarrow> (Inl e, d)
          | None \<Rightarrow>
             if patch_is_empty b then (Inl Nothing_to_change, d)
             else (case find_ticket d i of
                None \<Rightarrow> (Inl Ticket_not_found, d)
              | Some t \<Rightarrow>
                  let t' = apply_patch now b t;
                      d1 = set_ticket i (\<lambda>_. t') d;
                      d2 = (case pt_user b of None \<Rightarrow> d1 | Some new \<Rightarrow> syncRequester now i (or_null new) d1);
                      d3 = (case pt_device b of Some (Some v) \<Rightarrow> addDeviceToTicket now i v d2 | _ \<Rightarrow> d2)
                  in (Inr t', status_message now i (id_name u) (pt_status b) (tk_status t) d3))))"

section \<open>Messages\<close>

definition postMessage ::
    "time \<Rightarrow> identity \<Rightarrow> uuid \<Rightarrow> jsstring option \<Rightarrow> jsstring option \<Rightarrow> tdb \<Rightarrow> (tk_error + message) \<times> tdb" where
  "postMessage now u i content ty d =
     (case checkTicketAccess d u i of
        Inl e \<Rightarrow> (Inl e, d)
      | Inr al \<Rightarrow>
          let t = or_else ty (if al_admin al then ''internal_note'' else ''comment'') in
          if \<not> truthy content then (Inl Content_required, d)
          else if t \<notin> {''internal_note'', ''comment'', ''system'', ''resolution''} then (Inl Bad_type, d)
          else if \<not> al_admin al \<and> t \<noteq> ''comment'' then (Inl Type_reserved, d)
          else
            let d1 = add_message now i t (id_name u) (the content) (Some now) d
            in (Inr (last (td_messages d1)), touch_ticket now i d1))"

definition ticket_message :: "uuid \<Rightarrow> uuid \<Rightarrow> message \<Rightarrow> bool" where
  "ticket_message i m r \<longleftrightarrow> ms_id r = m \<and> ms_ticket r = i"

definition has_inbound :: "tdb \<Rightarrow> uuid \<Rightarrow> bool" where
  "has_inbound d i \<longleftrightarrow> list_ex (\<lambda>m. mp_ticket m = Some i \<and> mp_direction m = Inbound) (td_mails d)"

definition to_mail :: "message \<Rightarrow> message" where
  "to_mail r = r\<lparr>ms_type := ''comment'', ms_sent_at := None\<rparr>"

definition sendByMail :: "time \<Rightarrow> identity \<Rightarrow> uuid \<Rightarrow> uuid \<Rightarrow> tdb \<Rightarrow> (tk_error + message) \<times> tdb" where
  "sendByMail now u i m d0 = admin_only u (\<lambda>d.
     (case checkTicketAccess d u i of
        Inl e \<Rightarrow> (Inl e, d)
      | Inr al \<Rightarrow>
         (case find (ticket_message i m) (td_messages d) of
            None \<Rightarrow> (Inl Message_not_found, d)
          | Some r \<Rightarrow>
              if ms_type r \<noteq> ''internal_note'' then (Inr r, d)
              else if \<not> has_inbound d i then (Inl No_mail_origin, d)
              else (Inr (to_mail r),
                    touch_ticket now i (d\<lparr>td_messages := update_rows (\<lambda>x. ms_id x = m) to_mail (td_messages d)\<rparr>))))) d0"

definition requeue :: "message \<Rightarrow> message" where
  "requeue r = r\<lparr>ms_failed_at := None, ms_attempts := 0, ms_error := None, ms_sent_at := None\<rparr>"

definition retrySend :: "time \<Rightarrow> identity \<Rightarrow> uuid \<Rightarrow> uuid \<Rightarrow> tdb \<Rightarrow> (tk_error + message) \<times> tdb" where
  "retrySend now u i m d =
     (case checkTicketAccess d u i of
        Inl e \<Rightarrow> (Inl e, d)
      | Inr al \<Rightarrow>
          let P = (\<lambda>x. ticket_message i m x \<and> ms_failed_at x \<noteq> None) in
          (case find P (td_messages d) of
             None \<Rightarrow> (Inl Not_failed, d)
           | Some r \<Rightarrow> (Inr (requeue r), touch_ticket now i (d\<lparr>td_messages := update_rows P requeue (td_messages d)\<rparr>))))"

definition deleteSuggestion :: "identity \<Rightarrow> uuid \<Rightarrow> uuid \<Rightarrow> tdb \<Rightarrow> (tk_error + unit) \<times> tdb" where
  "deleteSuggestion u i m d =
     (case checkTicketAccess d u i of
        Inl e \<Rightarrow> (Inl e, d)
      | Inr al \<Rightarrow>
          let P = (\<lambda>x. ticket_message i m x \<and> ms_type x = ''ai_suggestion'') in
          if list_ex P (td_messages d) then (Inr (), d\<lparr>td_messages := filter (\<lambda>x. \<not> P x) (td_messages d)\<rparr>)
          else (Inl Suggestion_not_found, d))"

section \<open>The assistant\<close>

text \<open>What the prompt is built from, and the prompt (\<open>lib/assistant.js\<close>).\<close>

record ai_context =
  ai_title :: jsstring
  ai_desc :: "jsstring option"
  ai_priority :: jsstring
  ai_status :: jsstring
  ai_device :: "jsstring option"
  ai_requester :: "jsstring option"
  ai_tags :: "jsstring list"
  ai_messages :: "(jsstring \<times> jsstring) list"

definition opt_line :: "jsstring \<Rightarrow> jsstring option \<Rightarrow> jsstring list" where
  "opt_line label v = (if truthy v then [label @ the v] else [])"

definition buildAssistantPrompt :: "ai_context \<Rightarrow> jsstring" where
  "buildAssistantPrompt c =
     js_join [CHR 0x0A]
       ([''Titre : '' @ (if ai_title c = [] then ''(sans titre)'' else ai_title c)]
        @ opt_line ''Statut : '' (Some (ai_status c))
        @ opt_line (''Priorit'' @ [CHR 0xE9] @ '' : '') (Some (ai_priority c))
        @ opt_line ''Demandeur : '' (ai_requester c)
        @ opt_line (''Poste concern'' @ [CHR 0xE9] @ '' : '') (ai_device c)
        @ (if ai_tags c = [] then [] else [''Tags : '' @ js_join '', '' (ai_tags c)])
        @ opt_line ''Description : '' (ai_desc c)
        @ (if ai_messages c = [] then []
           else [[], ''Derniers '' @ [CHR 0xE9] @ ''changes :'']
                @ map (\<lambda>(a, x). ''- '' @ (if a = [] then ''?'' else a) @ '' : '' @ take 1000 x) (ai_messages c))
        @ [[], ''Propose la meilleure r'' @ [CHR 0xE9] @ ''ponse ou prochaine '' @ [CHR 0xE9] @ ''tape :''])"

definition joined :: "jsstring \<Rightarrow> jsstring option list \<Rightarrow> jsstring" where
  "joined sep xs = js_join sep (map the (filter truthy xs))"

definition ai_context_of :: "tdb \<Rightarrow> uuid \<Rightarrow> ticket \<Rightarrow> ai_context" where
  "ai_context_of d i t =
     (let dev = Option.bind (oldest (filter (\<lambda>r. list_ex (\<lambda>m. mc_id m = tv_device r) (td_machines d)) (devices_of i d)))
                  (\<lambda>r. find (\<lambda>m. mc_id m = tv_device r) (td_machines d));
          req = Option.bind (find (requester_of i) (td_users d)) (\<lambda>r. find (\<lambda>a. ac_entra a = tu_user r) (td_accounts d))
      in \<lparr>ai_title = tk_title t, ai_desc = tk_desc t, ai_priority = tk_priority t, ai_status = tk_status t,
          ai_device = map_option (\<lambda>m. joined ('' '' @ [CHR 0xB7] @ '' '') [Some (mc_hostname m), mc_os m, mc_model m]) dev,
          ai_requester = map_option (\<lambda>a. joined '', '' [ac_name a, ac_job a, ac_department a]) req,
          ai_tags = concat (map (\<lambda>(x, g). if x = i then map tg_name (filter (\<lambda>y. tg_id y = g) (td_labels d)) else []) (td_tags d)),
          ai_messages = map (\<lambda>m. (ms_author m, ms_content m))
             (take 20 (sort_key ms_created_at
                (filter (\<lambda>m. ms_type m \<in> {''comment'', ''internal_note''}) (messages_of d i))))\<rparr>)"

text \<open>\<open>gen\<close> is the call of the model: url, model, system prompt and prompt; it fails or returns a text.\<close>

definition aiSuggest ::
    "(jsstring \<Rightarrow> jsstring \<Rightarrow> jsstring option \<Rightarrow> jsstring \<Rightarrow> jsstring option) \<Rightarrow> time \<Rightarrow> identity \<Rightarrow> uuid \<Rightarrow> tdb
     \<Rightarrow> (tk_error + message) \<times> tdb" where
  "aiSuggest gen now u i d0 = admin_only u (\<lambda>d.
     (case checkTicketAccess d u i of
        Inl e \<Rightarrow> (Inl e, d)
      | Inr al \<Rightarrow>
          let cfg = jm_get (td_settings d); url = cfg ''tickets.assistant.url''; model = cfg ''tickets.assistant.model'' in
          if cfg ''tickets.assistant.enabled'' \<noteq> Some ''true'' then (Inl Assistant_disabled, d)
          else if \<not> truthy url \<or> \<not> truthy model then (Inl Assistant_unset, d)
          else (case find_ticket d i of
             None \<Rightarrow> (Inl Ticket_not_found, d)
           | Some t \<Rightarrow>
              (case gen (the url) (the model) (cfg ''tickets.assistant.system_prompt'')
                      (buildAssistantPrompt (ai_context_of d i t)) of
                 None \<Rightarrow> (Inl Generation_failed, d)
               | Some text \<Rightarrow>
                   let d1 = add_message now i ''ai_suggestion'' ''Assistant IA'' text (Some now) d
                   in (Inr (last (td_messages d1)), d1))))) d0"

section \<open>People, devices, merge and tags\<close>

definition addUser :: "time \<Rightarrow> identity \<Rightarrow> uuid \<Rightarrow> jsstring option \<Rightarrow> jsstring option \<Rightarrow> tdb \<Rightarrow> (tk_error + account) \<times> tdb" where
  "addUser now u i who role0 d0 = admin_only u (\<lambda>d.
     (let role = or_else role0 ''involved'' in
      if \<not> truthy who then (Inl User_required, d)
      else if role \<notin> set USER_ROLES then (Inl Bad_role, d)
      else (case find_ticket d i of
         None \<Rightarrow> (Inl Ticket_not_found, d)
       | Some t \<Rightarrow>
          (case find (\<lambda>a. ac_entra a = the who) (td_accounts d) of
             None \<Rightarrow> (Inl User_not_found, d)
           | Some a \<Rightarrow>
               (Inr a, touch_ticket now i
                  (if role = ''requester'' then syncRequester now i who d else addInvolvedUser now i (the who) d)))))) d0"

definition removeUser :: "time \<Rightarrow> identity \<Rightarrow> uuid \<Rightarrow> entra \<Rightarrow> tdb \<Rightarrow> (tk_error + unit) \<times> tdb" where
  "removeUser now u i who d0 = admin_only u (\<lambda>d.
     (case removeUserFromTicket i who d of
        (False, d1) \<Rightarrow> (Inl Link_not_found, d)
      | (True, d1) \<Rightarrow> (Inr (), touch_ticket now i d1))) d0"

definition addDevice :: "time \<Rightarrow> identity \<Rightarrow> uuid \<Rightarrow> uuid option \<Rightarrow> tdb \<Rightarrow> (tk_error + machine) \<times> tdb" where
  "addDevice now u i dev d0 = admin_only u (\<lambda>d.
     (case dev of
        None \<Rightarrow> (Inl Device_required, d)
      | Some v \<Rightarrow>
         (case find_ticket d i of
            None \<Rightarrow> (Inl Ticket_not_found, d)
          | Some t \<Rightarrow>
             (case find (\<lambda>m. mc_id m = v) (td_machines d) of
                None \<Rightarrow> (Inl Device_not_found, d)
              | Some m \<Rightarrow> (Inr m, touch_ticket now i (addDeviceToTicket now i v d)))))) d0"

definition removeDevice :: "time \<Rightarrow> identity \<Rightarrow> uuid \<Rightarrow> uuid \<Rightarrow> tdb \<Rightarrow> (tk_error + unit) \<times> tdb" where
  "removeDevice now u i v d0 = admin_only u (\<lambda>d.
     (case removeDeviceFromTicket i v d of
        (False, d1) \<Rightarrow> (Inl Link_not_found, d)
      | (True, d1) \<Rightarrow> (Inr (), touch_ticket now i d1))) d0"

definition mergeTicket :: "time \<Rightarrow> identity \<Rightarrow> uuid \<Rightarrow> uuid option \<Rightarrow> tdb \<Rightarrow> (tk_error + unit) \<times> tdb" where
  "mergeTicket now u i target d0 = admin_only u (\<lambda>d.
     (case target of
        None \<Rightarrow> (Inl Target_required, d)
      | Some g \<Rightarrow>
         (case mergeTicketInto now i g (Some (id_name u)) d of
            Inl e \<Rightarrow> (Inl (Merge_refused e), d)
          | Inr d1 \<Rightarrow> (Inr (), d1)))) d0"

definition createTag :: "identity \<Rightarrow> jsstring option \<Rightarrow> jsstring option \<Rightarrow> tdb \<Rightarrow> (tk_error + tag) \<times> tdb" where
  "createTag u name0 color0 d0 = admin_only u (\<lambda>d.
     (let name = js_trim (or_else (or_null name0) []); color = js_trim (or_else (or_null color0) ''slate'') in
      if name = [] then (Inl Name_required, d)
      else if color \<notin> set TAG_COLORS then (Inl Bad_color, d)
      else if 40 < length name then (Inl Name_too_long, d)
      else if name \<in> tg_name ` set (td_labels d) then (Inl Tag_exists, d)
      else let g = \<lparr>tg_id = td_next d, tg_name = name, tg_color = color\<rparr>
           in (Inr g, d\<lparr>td_labels := td_labels d @ [g], td_next := td_next d + 1\<rparr>))) d0"

definition deleteTag :: "identity \<Rightarrow> uuid \<Rightarrow> tdb \<Rightarrow> (tk_error + unit) \<times> tdb" where
  "deleteTag u g d0 = admin_only u (\<lambda>d.
     (if list_ex (\<lambda>x. tg_id x = g) (td_labels d)
      then (Inr (), d\<lparr>td_labels := filter (\<lambda>x. tg_id x \<noteq> g) (td_labels d), td_tags := filter (\<lambda>x. snd x \<noteq> g) (td_tags d)\<rparr>)
      else (Inl Tag_not_found, d))) d0"

definition tagTicket :: "time \<Rightarrow> identity \<Rightarrow> uuid \<Rightarrow> uuid option \<Rightarrow> tdb \<Rightarrow> (tk_error + unit) \<times> tdb" where
  "tagTicket now u i g d0 = admin_only u (\<lambda>d.
     (case g of
        None \<Rightarrow> (Inl Tag_required, d)
      | Some x \<Rightarrow>
          if find_ticket d i = None \<or> \<not> list_ex (\<lambda>y. tg_id y = x) (td_labels d) then (Inl Tag_not_found, d)
          else (Inr (), touch_ticket now i (add_tags i [x] d)))) d0"

definition untagTicket :: "time \<Rightarrow> identity \<Rightarrow> uuid \<Rightarrow> uuid \<Rightarrow> tdb \<Rightarrow> (tk_error + unit) \<times> tdb" where
  "untagTicket now u i g d0 = admin_only u (\<lambda>d.
     (Inr (), touch_ticket now i (d\<lparr>td_tags := filter (\<lambda>x. x \<noteq> (i, g)) (td_tags d)\<rparr>))) d0"

end
