(* ===== verification/TicketProposals.thy ===== *)
theory TicketProposals imports Tickets begin

text \<open>
  The proposed tickets (\<open>tickets/routes/ticket-proposals.js\<close>): creation, acceptance (which
  makes a ticket, its relations and its messages), rejection. \<open>fmt\<close> is the French date
  format of \<open>Intl.DateTimeFormat\<close>.
\<close>

definition ALLOWED_SOURCES :: "jsstring list" where
  "ALLOWED_SOURCES = [''alert'', ''script'', ''email'', ''manual'']"

definition ALLOWED_PRIORITES :: "jsstring list" where
  "ALLOWED_PRIORITES = [''low'', ''normal'', ''high'', ''critical'']"

text \<open>\<open>s.replace(c, r)\<close> for one character: the first occurrence.\<close>

fun replace_first :: "char \<Rightarrow> char \<Rightarrow> jsstring \<Rightarrow> jsstring" where
  "replace_first c r [] = []"
| "replace_first c r (x # xs) = (if x = c then r # xs else x # replace_first c r xs)"

definition formatDateFr :: "(time \<Rightarrow> jsstring) \<Rightarrow> time option \<Rightarrow> jsstring option" where
  "formatDateFr fmt w = map_option (\<lambda>x. replace_first (CHR '':'') (CHR ''h'') (fmt x)) w"

text \<open>The body of a description \<open>De: ... / Sujet: ... / (blank) / body\<close>.\<close>

definition extractBodyFromLegacyDescription :: "jsstring option \<Rightarrow> jsstring" where
  "extractBodyFromLegacyDescription desc =
     (if \<not> truthy desc then []
      else case js_split (CHR 0x0A) (the desc) of
             l0 # l1 # l2 # rest \<Rightarrow>
               if starts_with ''De:'' l0 \<and> starts_with ''Sujet:'' l1 \<and> l2 = [] then js_trim (js_join [CHR 0x0A] rest)
               else the desc
           | _ \<Rightarrow> the desc)"

definition countPending :: "identity \<Rightarrow> tdb \<Rightarrow> (tk_error + nat) \<times> tdb" where
  "countPending u d0 = admin_only u (\<lambda>d. (Inr (length (filter (\<lambda>p. pp_status p = ''pending'') (td_proposals d))), d)) d0"

definition getProposal :: "identity \<Rightarrow> uuid \<Rightarrow> tdb \<Rightarrow> (tk_error + proposal) \<times> tdb" where
  "getProposal u i d0 = admin_only u (\<lambda>d.
     (case find (\<lambda>p. pp_id p = i) (td_proposals d) of None \<Rightarrow> (Inl Proposal_not_found, d) | Some p \<Rightarrow> (Inr p, d))) d0"

record new_proposal =
  np_source :: "jsstring option"
  np_payload :: payload
  np_title :: "jsstring option"
  np_desc :: "jsstring option"
  np_priority :: "jsstring option"
  np_device :: "uuid option"
  np_user :: "jsstring option"

definition createProposal :: "identity \<Rightarrow> new_proposal \<Rightarrow> tdb \<Rightarrow> (tk_error + proposal) \<times> tdb" where
  "createProposal u b d0 = admin_only u (\<lambda>d.
     (let source = or_else (or_null (np_source b)) ''manual'';
          priority = or_else (or_null (np_priority b)) ''normal'';
          title = js_trim (or_else (np_title b) [])
      in if source \<notin> set ALLOWED_SOURCES then (Inl Bad_source, d)
         else if title = [] then (Inl Title_required, d)
         else if priority \<notin> set ALLOWED_PRIORITES then (Inl Bad_priority, d)
         else
           let p = \<lparr>pp_id = td_next d, pp_source = source, pp_payload = np_payload b, pp_title = title,
                    pp_desc = or_null (np_desc b), pp_priority = priority, pp_device = np_device b,
                    pp_user = or_null (np_user b), pp_status = ''pending'', pp_ticket = None, pp_reason = None,
                    pp_reviewer = None, pp_reviewer_name = None, pp_reviewed_at = None\<rparr>
           in (Inr p, d\<lparr>td_proposals := td_proposals d @ [p], td_next := td_next d + 1\<rparr>))) d0"

record accept_body =
  ab_title :: "jsstring option"
  ab_desc :: "jsstring option option"
  ab_priority :: "jsstring option"
  ab_device :: "uuid option"
  ab_user :: "jsstring option"
  ab_tags :: "uuid list"

definition UNKNOWN_SENDER :: jsstring where
  "UNKNOWN_SENDER = ''exp'' @ [CHR 0xE9] @ ''diteur inconnu''"

definition js_or :: "jsstring option \<Rightarrow> jsstring option \<Rightarrow> jsstring option" where
  "js_or a b = (if truthy a then a else b)"

definition sender_name :: "payload \<Rightarrow> jsstring" where
  "sender_name sp = the (js_or (pl_from_name sp) (js_or (pl_from sp) (Some UNKNOWN_SENDER)))"

definition mail_description :: "(time \<Rightarrow> jsstring) \<Rightarrow> jsstring \<Rightarrow> time option \<Rightarrow> jsstring" where
  "mail_description fmt who w =
     ''Mail de '' @ who @
     (case formatDateFr fmt w of None \<Rightarrow> [] | Some s \<Rightarrow> if s = [] then [] else '' re'' @ [CHR 0xE7] @ ''u le '' @ s)"

text \<open>The messages an accepted proposal becomes: author, content, date of the mail.\<close>

definition proposal_messages :: "proposal \<Rightarrow> (jsstring \<times> jsstring \<times> time option) list" where
  "proposal_messages p =
     (let sp = pp_payload p; who = sender_name sp;
          body = (if truthy (pl_body sp) then the (pl_body sp) else extractBodyFromLegacyDescription (pp_desc p))
      in (if body = [] then [] else [(who, body, pl_received sp)])
         @ concat (map (\<lambda>r. let c = the (js_or (rp_body r) (Some (rp_preview r))) in
                    if c = [] then []
                    else [(the (js_or (rp_from_name r) (js_or (rp_from r) (Some who))), c, rp_received r)])
                   (pl_replies sp)))"

definition insert_mail_messages :: "time \<Rightarrow> uuid \<Rightarrow> (jsstring \<times> jsstring \<times> time option) list \<Rightarrow> tdb \<Rightarrow> tdb" where
  "insert_mail_messages now i ms d =
     foldl (\<lambda>d1 (a, c, w). add_message (or_else w now) i ''comment'' a c (Some now) d1) d ms"

definition acceptProposal ::
    "(time \<Rightarrow> jsstring) \<Rightarrow> time \<Rightarrow> identity \<Rightarrow> uuid \<Rightarrow> accept_body \<Rightarrow> tdb \<Rightarrow> (tk_error + ticket) \<times> tdb" where
  "acceptProposal fmt now u i b d0 = admin_only u (\<lambda>d.
     (case find (\<lambda>p. pp_id p = i) (td_proposals d) of
        None \<Rightarrow> (Inl Proposal_not_found, d)
      | Some p \<Rightarrow>
          let title = js_trim (or_else (ab_title b) (pp_title p));
              priority = or_else (ab_priority b) (pp_priority p);
              dev = first_some (ab_device b) (pp_device p);
              usr = first_some (ab_user b) (pp_user p);
              is_mail = (pp_source p = ''email'' \<and> ab_desc b = None);
              desc = (if is_mail then Some (mail_description fmt (sender_name (pp_payload p)) (pl_received (pp_payload p)))
                      else first_some (or_else (ab_desc b) None) (pp_desc p))
          in if pp_status p \<noteq> ''pending'' then (Inl (Proposal_handled (pp_status p)), d)
             else if title = [] then (Inl Title_required, d)
             else if priority \<notin> set ALLOWED_PRIORITES then (Inl Bad_priority, d)
             else
               let (t, d1) = insert_ticket now title (or_null desc) priority dev (or_null usr) (pp_source p) True
                               (Some (id_entra u)) (Some (id_name u)) d;
                   d2 = link_new_ticket now t d1;
                   d3 = insert_mail_messages now (tk_id t) (if is_mail then proposal_messages p else []) d2;
                   d4 = add_tags (tk_id t) (ab_tags b) d3;
                   d5 = d4\<lparr>td_proposals := update_rows (\<lambda>x. pp_id x = i)
                          (\<lambda>x. x\<lparr>pp_status := ''accepted'', pp_ticket := Some (tk_id t), pp_reviewer := Some (id_entra u),
                                 pp_reviewer_name := Some (id_name u), pp_reviewed_at := Some now\<rparr>) (td_proposals d4)\<rparr>
               in (Inr t, d5\<lparr>td_mails := update_rows (\<lambda>m. mp_proposal m = Some i)
                                (\<lambda>m. m\<lparr>mp_ticket := Some (tk_id t)\<rparr>) (td_mails d5)\<rparr>))) d0"

definition rejectProposal :: "time \<Rightarrow> identity \<Rightarrow> uuid \<Rightarrow> jsstring option \<Rightarrow> tdb \<Rightarrow> (tk_error + proposal) \<times> tdb" where
  "rejectProposal now u i reason d0 = admin_only u (\<lambda>d.
     (let P = (\<lambda>p. pp_id p = i \<and> pp_status p = ''pending'');
          f = (\<lambda>p. p\<lparr>pp_status := ''rejected'', pp_reason := or_null reason, pp_reviewer := Some (id_entra u),
                     pp_reviewer_name := Some (id_name u), pp_reviewed_at := Some now\<rparr>)
      in case find P (td_proposals d) of
           None \<Rightarrow> (Inl (Proposal_handled []), d)
         | Some p \<Rightarrow> (Inr (f p), d\<lparr>td_proposals := update_rows P f (td_proposals d)\<rparr>))) d0"

end
