(* ===== verification/Inbox.thy ===== *)
theory Inbox imports MailIngest TicketProposals begin

text \<open>
  The inbox to sort (\<open>email-bridge/lib/inbox.js\<close>): the thread of a mail, the mails of the
  conversation that were never ingested, and the three decisions of an administrator: a new
  ticket, an existing one, or nothing. Graph's two calls are parameters: the messages of a
  conversation, and the full message.
\<close>

section \<open>The thread in the database\<close>

text \<open>\<open>/^\\s*(?:(?:re|tr|fwd|fw|aw|wg)\\s*:\\s*)+/i\<close>, then \<open>/^\\s*\\[[^\\]]+\\]\\s*/\<close>.\<close>

definition m_prefix :: matcher where
  "m_prefix =
     m_all [m_alt (m_lit ''re'') (m_alt (m_lit ''tr'') (m_alt (m_lit ''fwd'') (m_alt (m_lit ''fw'')
              (m_alt (m_lit ''aw'') (m_lit ''wg''))))), m_space, m_exact '':'', m_space]"

definition drop_prefixes :: "jsstring \<Rightarrow> jsstring" where
  "drop_prefixes s = (let t = dropWhile js_space s; n = prefix_len m_prefix t in if n = 0 then s else drop n t)"

definition drop_bracket :: "jsstring \<Rightarrow> jsstring" where
  "drop_bracket s =
     (case m_all [m_space, m_exact ''['', m_run1 (\<lambda>c. c \<noteq> CHR '']''), m_exact '']'', m_space] s of
        None \<Rightarrow> s | Some n \<Rightarrow> drop n s)"

definition cleanSubject :: "jsstring option \<Rightarrow> jsstring" where
  "cleanSubject s =
     (let t = js_trim (drop_bracket (drop_prefixes (if truthy s then the s else NO_SUBJECT)))
      in if t = [] then NO_SUBJECT else t)"

definition referencedIds :: "graph_mail \<Rightarrow> jsstring list" where
  "referencedIds g =
     (let h = jm_get (indexHeaders g)
      in js_uniq (parseMessageIdList (h ''in-reply-to'') @ parseMessageIdList (h ''references'')))"

text \<open>\<open>String(id).replace(/^<|>$/g, '')\<close>.\<close>

definition bare_id :: "jsstring \<Rightarrow> jsstring" where
  "bare_id s =
     (let t = (if s \<noteq> [] \<and> hd s = CHR ''<'' then tl s else s)
      in if t \<noteq> [] \<and> last t = CHR ''>'' then butlast t else t)"

definition own_id :: "mapping \<Rightarrow> jsstring" where
  "own_id m = (if truthy (gm_imid (mp_raw m)) then the (gm_imid (mp_raw m)) else mp_imid m)"

definition to_sort :: "mapping \<Rightarrow> bool" where
  "to_sort m \<longleftrightarrow>
     mp_ticket m = None \<and> mp_proposal m = None \<and> mp_action m \<in> {Some ''pending_review'', Some ''skipped_other'', None}"

definition mentions :: "jsstring list \<Rightarrow> mapping \<Rightarrow> bool" where
  "mentions own m \<longleftrightarrow>
     list_ex (\<lambda>(k, v). js_lower k \<in> {''in-reply-to'', ''references''} \<and> list_ex (\<lambda>w. js_index_of w v \<noteq> None) own)
       (gm_headers (mp_raw m))"

definition findThreadSiblings :: "(jsstring \<Rightarrow> jsstring) \<Rightarrow> tdb \<Rightarrow> mapping \<Rightarrow> mapping list" where
  "findThreadSiblings sha d m =
     (let own = map bare_id (messageIdLookupKeys sha (own_id m));
          refs = concat (map (messageIdLookupKeys sha) (referencedIds (mp_raw m)));
          conv = text_or_null (mp_conversation m)
      in sort_key (\<lambda>r. (mp_received r = None, or_else (mp_received r) 0, mp_created r))
           (filter (\<lambda>r. mp_id r \<noteq> mp_id m \<and> to_sort r \<and>
                      ((conv \<noteq> None \<and> mp_conversation r = conv) \<or> mp_imid r \<in> set refs \<or> mentions own r)) (td_mails d)))"

section \<open>The thread in the mailbox\<close>

definition unknownGraphMessages :: "(jsstring \<Rightarrow> jsstring) \<Rightarrow> tdb \<Rightarrow> graph_mail list \<Rightarrow> jsstring list \<Rightarrow> graph_mail list" where
  "unknownGraphMessages sha d gs known =
     filter (\<lambda>g. truthy (gm_imid g) \<and> storedMessageId sha (the (gm_imid g)) \<notin> set known \<and> the (gm_imid g) \<notin> set known \<and>
                 \<not> known_mail sha d (the (gm_imid g))) gs"

definition GRAPH_THREAD_MAX :: nat where "GRAPH_THREAD_MAX = 20"

record conversation_page =
  cp_mails :: "graph_mail list"
  cp_sent_folder :: "jsstring option"

record extra =
  ex_mail :: graph_mail
  ex_direction :: direction

definition graph_direction :: "jsstring \<Rightarrow> conversation_page \<Rightarrow> graph_mail \<Rightarrow> direction" where
  "graph_direction mailbox page g =
     (let from = js_lower (or_else (gm_from g) []) in
      if (truthy (cp_sent_folder page) \<and> gm_folder g = cp_sent_folder page) \<or> (from \<noteq> [] \<and> from = js_lower mailbox)
      then Outbound else Inbound)"

type_synonym lister = "jsstring \<Rightarrow> jsstring \<Rightarrow> conversation_page option"

definition fetchMissing :: "(jsstring \<Rightarrow> jsstring) \<Rightarrow> lister \<Rightarrow> tdb \<Rightarrow> mapping \<Rightarrow> jsstring list \<Rightarrow> extra list" where
  "fetchMissing sha list_conversation d m known =
     (if mp_mailbox m = [] \<or> \<not> truthy (mp_conversation m) then []
      else (case list_conversation (mp_mailbox m) (the (mp_conversation m)) of
         None \<Rightarrow> []
       | Some page \<Rightarrow>
           map (\<lambda>g. \<lparr>ex_mail = strip_mail g, ex_direction = graph_direction (mp_mailbox m) page g\<rparr>)
             (take GRAPH_THREAD_MAX (unknownGraphMessages sha d (cp_mails page) known))))"

type_synonym fetcher = "jsstring \<Rightarrow> jsstring option \<Rightarrow> full_message option"

definition fetchBodyText :: "fetcher \<Rightarrow> nat \<Rightarrow> jsstring \<Rightarrow> jsstring option \<Rightarrow> graph_mail \<Rightarrow> jsstring \<times> bool" where
  "fetchBodyText get_message maxChars mailbox gid g =
     (let full = (if mailbox \<noteq> [] \<and> truthy gid then get_message mailbox gid else None);
          text = (case full of None \<Rightarrow> []
                  | Some f \<Rightarrow> strip_nul (extractMailBodyText maxChars (isForwardedSubject (gm_subject g)) (gm_preview g) (Some f)))
      in if text \<noteq> [] then (text, True) else (strip_nul (htmlToText (or_else (gm_preview g) [])), False))"

section \<open>Assembling the thread\<close>

definition knownIdsOf :: "mapping list \<Rightarrow> jsstring list" where
  "knownIdsOf rows = concat (map (\<lambda>r. mp_imid r # (if truthy (gm_imid (mp_raw r)) then [the (gm_imid (mp_raw r))] else [])) rows)"

record item =
  it_mapping :: "uuid option"
  it_mail :: graph_mail
  it_direction :: direction
  it_mailbox :: jsstring
  it_graph_id :: "jsstring option"
  it_from :: "jsstring option"
  it_name :: jsstring
  it_subject :: "jsstring option"
  it_received :: "time option"
  it_body :: jsstring

definition itemOfMapping :: "mapping \<Rightarrow> item" where
  "itemOfMapping r =
     (let g = mp_raw r in
      \<lparr>it_mapping = Some (mp_id r), it_mail = g, it_direction = mp_direction r, it_mailbox = mp_mailbox r,
       it_graph_id = mp_graph_id r, it_from = js_or (mp_from r) (gm_from g),
       it_name = the (js_or (gm_from_name g) (js_or (mp_from r) (Some UNKNOWN_SENDER))),
       it_subject = js_or (mp_subject r) (text_or_null (gm_subject g)),
       it_received = first_some (mp_received r) (gm_received g), it_body = []\<rparr>)"

definition itemOfExtra :: "mapping \<Rightarrow> extra \<Rightarrow> item" where
  "itemOfExtra m e =
     (let g = ex_mail e in
      \<lparr>it_mapping = None, it_mail = g, it_direction = ex_direction e, it_mailbox = mp_mailbox m, it_graph_id = gm_id g,
       it_from = text_or_null (gm_from g), it_name = the (js_or (gm_from_name g) (js_or (gm_from g) (Some UNKNOWN_SENDER))),
       it_subject = text_or_null (gm_subject g), it_received = first_some (gm_received g) (gm_sent g), it_body = []\<rparr>)"

text \<open>\<open>Date.parse(receivedAt || 0)\<close>: an absent date is the text \<open>0\<close>, the first of January 2000.\<close>

definition DATE_ZERO :: time where "DATE_ZERO = 946684800000"

definition buildItems :: "mapping \<Rightarrow> mapping list \<Rightarrow> extra list \<Rightarrow> item list" where
  "buildItems m siblings extras =
     sort_key (\<lambda>i. or_else (it_received i) DATE_ZERO) (map itemOfMapping (m # siblings) @ map (itemOfExtra m) extras)"

datatype body_key = Of_mapping uuid | Of_graph "jsstring option"

definition bodyKey :: "item \<Rightarrow> body_key" where
  "bodyKey i = (case it_mapping i of Some x \<Rightarrow> Of_mapping x | None \<Rightarrow> Of_graph (it_graph_id i))"

definition fillBodies :: "fetcher \<Rightarrow> (body_key, jsstring) jsmap \<Rightarrow> item list \<Rightarrow> item list" where
  "fillBodies get_message cache items =
     map (\<lambda>i. i\<lparr>it_body := (case jm_get cache (bodyKey i) of
                Some b \<Rightarrow> b
              | None \<Rightarrow> fst (fetchBodyText get_message 8000 (it_mailbox i) (it_graph_id i) (it_mail i)))\<rparr>) items"

datatype inbox_error = MAPPING_NOT_FOUND | ALREADY_LINKED | TICKET_NOT_FOUND | TICKET_MERGED | NOT_PENDING

record prepared =
  pr_mapping :: uuid
  pr_extras :: "extra list"
  pr_bodies :: "(body_key, jsstring) jsmap"

definition lockMapping :: "tdb \<Rightarrow> uuid \<Rightarrow> inbox_error + mapping" where
  "lockMapping d i =
     (case find (\<lambda>m. mp_id m = i) (td_mails d) of
        None \<Rightarrow> Inl MAPPING_NOT_FOUND
      | Some m \<Rightarrow> if mp_ticket m \<noteq> None then Inl ALREADY_LINKED else Inr m)"

definition prepareThread :: "(jsstring \<Rightarrow> jsstring) \<Rightarrow> lister \<Rightarrow> fetcher \<Rightarrow> uuid \<Rightarrow> tdb \<Rightarrow> inbox_error + prepared" where
  "prepareThread sha ls get_message i d =
     (case lockMapping d i of
        Inl e \<Rightarrow> Inl e
      | Inr m \<Rightarrow>
          let siblings = findThreadSiblings sha d m;
              extras = fetchMissing sha ls d m (knownIdsOf (m # siblings));
              items = fillBodies get_message [] (buildItems m siblings extras)
          in Inr \<lparr>pr_mapping = i, pr_extras = extras,
                  pr_bodies = foldl (\<lambda>c x. jm_set (bodyKey x) (it_body x) c) [] items\<rparr>)"

definition assembleThread ::
    "(jsstring \<Rightarrow> jsstring) \<Rightarrow> lister \<Rightarrow> fetcher \<Rightarrow> mapping \<Rightarrow> prepared option \<Rightarrow> tdb \<Rightarrow> item list" where
  "assembleThread sha ls get_message m prep d =
     (let siblings = findThreadSiblings sha d m; known = knownIdsOf (m # siblings);
          extras = (case prep of
                      Some p \<Rightarrow>
                        if pr_mapping p = mp_id m
                        then filter (\<lambda>e. ex_mail e \<in> set (unknownGraphMessages sha d (map ex_mail (pr_extras p)) known)) (pr_extras p)
                        else fetchMissing sha ls d m known
                    | None \<Rightarrow> fetchMissing sha ls d m known)
      in fillBodies get_message (case prep of None \<Rightarrow> [] | Some p \<Rightarrow> pr_bodies p) (buildItems m siblings extras))"

section \<open>Pouring the thread into a ticket\<close>

definition claim_row :: "time \<Rightarrow> uuid \<Rightarrow> mapping \<Rightarrow> mapping" where
  "claim_row now t m = m\<lparr>mp_ticket := Some t, mp_action := Some ''message_appended'', mp_processed := Some now, mp_error := None\<rparr>"

definition free_row :: "uuid \<Rightarrow> mapping \<Rightarrow> bool" where
  "free_row i m \<longleftrightarrow> mp_id m = i \<and> mp_ticket m = None"

definition extra_row :: "(jsstring \<Rightarrow> jsstring) \<Rightarrow> time \<Rightarrow> uuid \<Rightarrow> item \<Rightarrow> mapping" where
  "extra_row sha now t x =
     (let g = it_mail x in
      \<lparr>mp_id = 0, mp_imid = storedMessageId sha (or_else (gm_imid g) []), mp_conversation = text_or_null (gm_conversation g),
       mp_graph_id = text_or_null (gm_id g), mp_mailbox = it_mailbox x, mp_direction = it_direction x, mp_from = it_from x,
       mp_subject = it_subject x, mp_received = it_received x, mp_raw = g, mp_processed = Some now,
       mp_action = Some ''message_appended'', mp_error = None, mp_ticket = Some t, mp_proposal = None,
       mp_classifier = None, mp_created = now, mp_read_at = None\<rparr>)"

text \<open>The row first; nothing is poured when another transaction has taken it.\<close>

definition claim_item :: "(jsstring \<Rightarrow> jsstring) \<Rightarrow> time \<Rightarrow> uuid \<Rightarrow> item \<Rightarrow> tdb \<Rightarrow> bool \<times> tdb" where
  "claim_item sha now t x d =
     (case it_mapping x of
        Some i \<Rightarrow>
          (list_ex (free_row i) (td_mails d), d\<lparr>td_mails := update_rows (free_row i) (claim_row now t) (td_mails d)\<rparr>)
      | None \<Rightarrow>
          let row = extra_row sha now t x in
          if list_ex (\<lambda>m. mp_imid m = mp_imid row) (td_mails d) then (False, d) else (True, put_mail row d))"

definition pour_item :: "(jsstring \<Rightarrow> jsstring) \<Rightarrow> time \<Rightarrow> uuid \<Rightarrow> item \<Rightarrow> nat \<times> tdb \<Rightarrow> nat \<times> tdb" where
  "pour_item sha now t x s =
     (case claim_item sha now t x (snd s) of
        (False, d) \<Rightarrow> (fst s, d)
      | (True, d) \<Rightarrow>
          (fst s + 1,
           add_message (or_else (it_received x) now) t ''comment'' (it_name x)
             (if it_body x = [] then EMPTY_BODY else it_body x) (Some now) d))"

definition appendThreadToTicket :: "(jsstring \<Rightarrow> jsstring) \<Rightarrow> time \<Rightarrow> uuid \<Rightarrow> item list \<Rightarrow> tdb \<Rightarrow> nat \<times> tdb" where
  "appendThreadToTicket sha now t items d =
     (case foldl (\<lambda>s x. pour_item sha now t x s) (0, d) items of (n, d1) \<Rightarrow> (n, touch_ticket now t d1))"

fun thread_senders :: "tdb \<Rightarrow> jsstring \<Rightarrow> jsstring list \<Rightarrow> item list \<Rightarrow> (sender_match \<times> jsstring) list" where
  "thread_senders d box seen [] = []"
| "thread_senders d box seen (x # xs) =
     (let addr = js_lower (or_else (it_from x) []) in
      if addr = [] \<or> addr = box \<or> addr \<in> set seen \<or> it_direction x = Outbound then thread_senders d box seen xs
      else (case matchSender d (Some addr) of
              None \<Rightarrow> thread_senders d box (addr # seen) xs
            | Some s \<Rightarrow> (s, addr) # thread_senders d box (addr # seen) xs))"

definition matchThreadSenders :: "tdb \<Rightarrow> item list \<Rightarrow> jsstring \<Rightarrow> (sender_match \<times> jsstring) list" where
  "matchThreadSenders d items mailbox = thread_senders d (js_lower mailbox) [] items"

text \<open>The em dash of the sentence (U+2014) stands as its Windows-1252 code.\<close>

definition thread_description :: "(time \<Rightarrow> jsstring) \<Rightarrow> mapping \<Rightarrow> item list \<Rightarrow> jsstring" where
  "thread_description fmt m items =
     (let first = hd items; first_date = formatDateFr fmt (it_received first); last_date = formatDateFr fmt (it_received (last items)) in
      if 1 < length items
      then ''Fil de '' @ nat_str (length items) @ '' mails '' @ [CHR 0x97] @ '' premier mail de '' @ it_name first @
           (if truthy first_date then '' le '' @ the first_date else []) @
           (if truthy last_date then '', dernier le '' @ the last_date else [])
      else mail_description fmt (the (js_or (Some (it_name first)) (js_or (mp_from m) (Some UNKNOWN_SENDER)))) (it_received first))"

definition requester_of_thread :: "mapping \<Rightarrow> (sender_match \<times> jsstring) list \<Rightarrow> (sender_match \<times> jsstring) option" where
  "requester_of_thread m senders =
     (case find (\<lambda>s. snd s = js_lower (or_else (mp_from m) [])) senders of
        Some s \<Rightarrow> Some s
      | None \<Rightarrow> (case senders of [] \<Rightarrow> None | s # _ \<Rightarrow> Some s))"

definition sender_entra :: "sender_match \<times> jsstring \<Rightarrow> entra" where
  "sender_entra s = ac_entra (sm_account (fst s))"

definition createTicketFromMapping ::
    "(jsstring \<Rightarrow> jsstring) \<Rightarrow> lister \<Rightarrow> fetcher \<Rightarrow> (time \<Rightarrow> jsstring) \<Rightarrow> time \<Rightarrow> uuid \<Rightarrow> entra option \<Rightarrow> jsstring option
     \<Rightarrow> prepared option \<Rightarrow> tdb \<Rightarrow> (inbox_error + ticket \<times> nat) \<times> tdb" where
  "createTicketFromMapping sha ls get_message fmt now i by by_name prep d =
     (case lockMapping d i of
        Inl e \<Rightarrow> (Inl e, d)
      | Inr m \<Rightarrow>
          let items = assembleThread sha ls get_message m prep d;
              senders = matchThreadSenders d items (mp_mailbox m);
              req = requester_of_thread m senders;
              (t, d1) = insert_ticket now (take 200 (cleanSubject (mp_subject m))) (Some (thread_description fmt m items)) ''normal''
                          (Option.bind req (\<lambda>s. map_option mc_id (sm_machine (fst s)))) (map_option sender_entra req)
                          ''email'' True by by_name d;
              (n, d2) = appendThreadToTicket sha now (tk_id t) items d1;
              d3 = link_new_ticket now t d2
          in (Inr (t, n),
              foldl (\<lambda>d4 s. if Some s = req then d4 else addInvolvedUser now (tk_id t) (sender_entra s) d4) d3 senders))"

definition reopen :: "time \<Rightarrow> ticket \<Rightarrow> ticket" where
  "reopen now t = t\<lparr>tk_status := ''open'', tk_resolved_at := None, tk_updated_at := now\<rparr>"

definition attachMappingToTicket ::
    "(jsstring \<Rightarrow> jsstring) \<Rightarrow> lister \<Rightarrow> fetcher \<Rightarrow> time \<Rightarrow> uuid \<Rightarrow> uuid \<Rightarrow> prepared option \<Rightarrow> tdb \<Rightarrow> (inbox_error + nat) \<times> tdb" where
  "attachMappingToTicket sha ls get_message now i t prep d =
     (case lockMapping d i of
        Inl e \<Rightarrow> (Inl e, d)
      | Inr m \<Rightarrow>
         (case find_ticket d t of
            None \<Rightarrow> (Inl TICKET_NOT_FOUND, d)
          | Some tk \<Rightarrow>
              if tk_status tk = ''merged'' then (Inl TICKET_MERGED, d)
              else
                let items = assembleThread sha ls get_message m prep d;
                    (n, d1) = appendThreadToTicket sha now t items d;
                    d2 = (if tk_status tk \<in> {''resolved'', ''closed''}
                          then add_message now t ''system'' ''Opale''
                                 (''Ticket rouvert : nouveau mail rattach'' @ [CHR 0xE9]) None (set_ticket t (reopen now) d1)
                          else d1)
                in (Inr n, foldl (\<lambda>d3 s. addInvolvedUser now t (sender_entra s) d3) d2
                             (matchThreadSenders d items (mp_mailbox m)))))"

definition dismissInboxMapping :: "(jsstring \<Rightarrow> jsstring) \<Rightarrow> time \<Rightarrow> uuid \<Rightarrow> bool \<Rightarrow> tdb \<Rightarrow> (inbox_error + bool) \<times> tdb" where
  "dismissInboxMapping sha now i whole d =
     (case find (\<lambda>m. mp_id m = i) (td_mails d) of
        None \<Rightarrow> (Inl MAPPING_NOT_FOUND, d)
      | Some m \<Rightarrow>
          if mp_action m = Some ''skipped_other'' then (Inr False, d)
          else if mp_action m \<noteq> Some ''pending_review'' then (Inl NOT_PENDING, d)
          else
            let ids = i # (if whole then map mp_id (filter (\<lambda>s. mp_action s = Some ''pending_review'') (findThreadSiblings sha d m)) else [])
            in (Inr True, d\<lparr>td_mails := update_rows (\<lambda>x. mp_id x \<in> set ids)
                   (\<lambda>x. x\<lparr>mp_action := Some ''skipped_other'', mp_processed := Some now\<rparr>) (td_mails d)\<rparr>))"

definition readMappingBody :: "fetcher \<Rightarrow> uuid \<Rightarrow> tdb \<Rightarrow> inbox_error + jsstring \<times> bool" where
  "readMappingBody get_message i d =
     (case find (\<lambda>m. mp_id m = i) (td_mails d) of
        None \<Rightarrow> Inl MAPPING_NOT_FOUND
      | Some m \<Rightarrow>
          Inr (fetchBodyText get_message 20000 (mp_mailbox m) (mp_graph_id m)
                 ((mp_raw m)\<lparr>gm_subject := js_or (mp_subject m) (gm_subject (mp_raw m))\<rparr>)))"

end
