(* ===== verification/TicketSafety.thy ===== *)
theory TicketSafety imports Inbox begin

text \<open>
  The relations of the tickets. Invariant \<open>rel_inv\<close>: the columns \<open>user_id\<close> and \<open>device_id\<close> of
  a ticket agree with its people and devices, whatever the routes, the proposals and the
  inbox do; what a merge moves; what a request of a user who is not an administrator can
  change and see.
\<close>

section \<open>People and devices as sets\<close>

definition requesters :: "ticket_user list \<Rightarrow> uuid \<Rightarrow> entra set" where
  "requesters rs i = set (map tu_user (filter (requester_of i) rs))"

definition people :: "ticket_user list \<Rightarrow> uuid \<Rightarrow> entra set" where
  "people rs i = set (map tu_user (filter (\<lambda>r. tu_ticket r = i) rs))"

definition machines :: "ticket_device list \<Rightarrow> uuid \<Rightarrow> uuid set" where
  "machines rs i = set (map tv_device (filter (\<lambda>r. tv_ticket r = i) rs))"

lemma requesters_iff:
  "u \<in> requesters rs i \<longleftrightarrow> (\<exists>r \<in> set rs. tu_ticket r = i \<and> tu_user r = u \<and> tu_role r = Requester)"
  by (auto simp: requesters_def requester_of_def)

lemma people_iff: "u \<in> people rs i \<longleftrightarrow> (\<exists>r \<in> set rs. tu_ticket r = i \<and> tu_user r = u)"
  by (auto simp: people_def)

lemma machines_iff: "v \<in> machines rs i \<longleftrightarrow> (\<exists>r \<in> set rs. tv_ticket r = i \<and> tv_device r = v)"
  by (auto simp: machines_def)

abbreviation user_key :: "ticket_user \<Rightarrow> uuid \<times> entra" where
  "user_key r \<equiv> (tu_ticket r, tu_user r)"

abbreviation device_key :: "ticket_device \<Rightarrow> uuid \<times> uuid" where
  "device_key r \<equiv> (tv_ticket r, tv_device r)"

named_theorems rel_simps \<open>people, requesters and machines after each operation on the links\<close>

lemma requesters_drop [rel_simps]:
  "requesters (filter (\<lambda>r. \<not> requester_of i r) rs) j = (if j = i then {} else requesters rs j)"
  by (auto simp: requesters_def requester_of_def)

lemma user_link_people: "list_ex (user_link i u) rs \<longleftrightarrow> u \<in> people rs i"
  by (auto simp: people_def user_link_def list_ex_iff)

lemma device_link_machines: "list_ex (device_link i v) rs \<longleftrightarrow> v \<in> machines rs i"
  by (auto simp: machines_def device_link_def list_ex_iff)

lemma requesters_promote:
  "requesters (update_rows (user_link i u) (\<lambda>r. r\<lparr>tu_role := Requester\<rparr>) rs) j =
     (if j = i \<and> u \<in> people rs i then insert u (requesters rs i) else requesters rs j)"
proof -
  have "x \<in> requesters (update_rows (user_link i u) (\<lambda>r. r\<lparr>tu_role := Requester\<rparr>) rs) j \<longleftrightarrow>
      (\<exists>r \<in> set rs. tu_ticket r = j \<and> tu_user r = x \<and> (user_link i u r \<or> tu_role r = Requester))" for x
    unfolding requesters_iff update_rows_def set_map bex_simps by (intro bex_cong) auto
  then show ?thesis by (auto simp: requesters_iff people_iff user_link_def set_eq_iff)
qed

lemma requesters_put_requester [rel_simps]:
  "requesters (put_requester now i u rs) j = (if j = i then insert u (requesters rs i) else requesters rs j)"
  by (simp add: put_requester_def user_link_people requesters_promote) (auto simp: requesters_def requester_of_def)

lemma requesters_put_user [rel_simps]:
  "requesters (put_user now i rl u rs) j =
     (if j = i \<and> rl = Requester \<and> u \<notin> people rs i then insert u (requesters rs i) else requesters rs j)"
  by (simp add: put_user_def user_link_people) (auto simp: requesters_def requester_of_def)

lemma requesters_drop_user [rel_simps]:
  "requesters (filter (\<lambda>r. \<not> user_link i u r) rs) j = (if j = i then requesters rs i - {u} else requesters rs j)"
  by (auto simp: requesters_def requester_of_def user_link_def)

lemma requesters_drop_ticket [rel_simps]:
  "requesters (filter (\<lambda>r. tu_ticket r \<noteq> s) rs) j = (if j = s then {} else requesters rs j)"
  by (auto simp: requesters_def requester_of_def)

lemma people_put_user [rel_simps]: "people (put_user now i rl u rs) j = (if j = i then insert u (people rs i) else people rs j)"
  by (simp add: put_user_def user_link_people) (auto simp: people_def)

lemma machines_put_device [rel_simps]:
  "machines (put_device now i v rs) j = (if j = i then insert v (machines rs i) else machines rs j)"
  by (simp add: put_device_def device_link_machines) (auto simp: machines_def)

lemma machines_drop_device [rel_simps]:
  "machines (filter (\<lambda>r. \<not> device_link i v r) rs) j = (if j = i then machines rs i - {v} else machines rs j)"
  by (auto simp: machines_def device_link_def)

lemma machines_drop_ticket [rel_simps]:
  "machines (filter (\<lambda>r. tv_ticket r \<noteq> s) rs) j = (if j = s then {} else machines rs j)"
  by (auto simp: machines_def)

lemma requesters_people: "requesters rs i \<subseteq> people rs i"
  by (auto simp: requesters_def people_def requester_of_def)

lemma list_ex_requester: "list_ex (requester_of i) rs \<longleftrightarrow> requesters rs i \<noteq> {}"
  by (auto simp: requesters_def list_ex_iff)

lemma oldest_in: "oldest rs = Some r \<Longrightarrow> r \<in> set rs"
  by (induction rs arbitrary: r) (auto split: option.splits if_splits)

lemma oldest_None [simp]: "oldest rs = None \<longleftrightarrow> rs = []"
  by (induction rs) (auto split: option.splits)

lemma oldest_machines: "oldest (devices_of i d) = Some r \<Longrightarrow> tv_device r \<in> machines (td_devices d) i"
  by (auto dest!: oldest_in simp: devices_of_def machines_def)

section \<open>The invariant\<close>

definition columns_ok :: "ticket_user list \<Rightarrow> ticket_device list \<Rightarrow> ticket \<Rightarrow> bool" where
  "columns_ok us vs t \<longleftrightarrow>
     (tk_merged_into t = None \<longrightarrow>
        requesters us (tk_id t) = set_option (tk_user t) \<and> set_option (tk_device t) \<subseteq> machines vs (tk_id t))"

definition rel_inv :: "tdb \<Rightarrow> bool" where
  "rel_inv d \<longleftrightarrow>
     distinct (map tk_id (td_tickets d)) \<and> (\<forall>t \<in> set (td_tickets d). tk_id t < td_next d) \<and>
     distinct (map user_key (td_users d)) \<and> (\<forall>r \<in> set (td_users d). tu_ticket r < td_next d) \<and>
     distinct (map device_key (td_devices d)) \<and> (\<forall>r \<in> set (td_devices d). tv_ticket r < td_next d) \<and>
     (\<forall>i. \<forall>u \<in> requesters (td_users d) i. \<forall>v \<in> requesters (td_users d) i. u = v) \<and>
     (\<forall>a \<in> set (td_accounts d). ac_entra a \<noteq> []) \<and>
     (\<forall>t \<in> set (td_tickets d). columns_ok (td_users d) (td_devices d) t)"

lemma rel_inv_empty: "rel_inv empty_tdb"
  by (simp add: rel_inv_def empty_tdb_def requesters_def)

lemma columns_ok_cong:
  assumes "columns_ok us vs t" "tk_id t' = tk_id t" "tk_user t' = tk_user t" "tk_device t' = tk_device t"
    "tk_merged_into t' = tk_merged_into t"
  shows "columns_ok us vs t'"
  using assms by (simp add: columns_ok_def)

text \<open>Operations that touch neither links nor the columns.\<close>

definition same_columns :: "ticket \<Rightarrow> ticket \<Rightarrow> bool" where
  "same_columns t t' \<longleftrightarrow> tk_id t' = tk_id t \<and> tk_user t' = tk_user t \<and> tk_device t' = tk_device t \<and> tk_merged_into t' = tk_merged_into t"

definition frame :: "tdb \<Rightarrow> tdb \<Rightarrow> bool" where
  "frame d d' \<longleftrightarrow>
     td_users d' = td_users d \<and> td_devices d' = td_devices d \<and> td_accounts d' = td_accounts d \<and> td_next d \<le> td_next d' \<and>
     list_all2 same_columns (td_tickets d) (td_tickets d')"

lemma same_columns_refl [simp]: "same_columns t t"
  by (simp add: same_columns_def)

lemma frame_refl [simp, intro]: "frame d d"
  by (simp add: frame_def list_all2_same)

lemma frame_trans: "frame d d1 \<Longrightarrow> frame d1 d2 \<Longrightarrow> frame d d2"
  unfolding frame_def
  by (auto intro: list_all2_trans [of same_columns same_columns same_columns] simp: same_columns_def)

lemma frame_set_ticket:
  assumes "\<And>t. same_columns t (f t)" shows "frame d (set_ticket i f d)"
  using assms by (auto simp: frame_def set_ticket_def update_rows_def list_all2_conv_all_nth)

lemma frame_touch [simp]: "frame d (touch_ticket now i d)"
  unfolding touch_ticket_def by (rule frame_set_ticket) (simp add: same_columns_def)

lemma frame_add_message [simp]: "frame d (add_message w i ty a c s d)"
  by (simp add: frame_def add_message_def list_all2_same)

lemma frame_put_mail [simp]: "frame d (put_mail m d)"
  by (simp add: frame_def put_mail_def list_all2_same)

lemma frame_rows [simp]:
  "frame d (td_messages_update f d)" "frame d (td_mails_update g d)" "frame d (td_proposals_update h d)"
  "frame d (td_tags_update k d)" "frame d (td_labels_update l d)" "frame d (td_attachments_update m d)"
  by (simp_all add: frame_def list_all2_same)

lemma frame_next [simp]: "frame d (td_next_update Suc d)"
  by (simp add: frame_def list_all2_same)

lemma frame_add_tags [simp]: "frame d (add_tags i gs d)"
  by (simp add: add_tags_def)

lemma rel_inv_frame:
  assumes inv: "rel_inv d" and fr: "frame d d'" shows "rel_inv d'"
proof -
  from fr have f: "td_users d' = td_users d" "td_devices d' = td_devices d" "td_accounts d' = td_accounts d"
    "td_next d \<le> td_next d'" and l2: "list_all2 same_columns (td_tickets d) (td_tickets d')"
    by (auto simp: frame_def)
  have ids: "map tk_id (td_tickets d') = map tk_id (td_tickets d)"
    using l2 by (auto simp: list_all2_conv_all_nth same_columns_def intro: nth_equalityI)
  have each: "\<exists>t \<in> set (td_tickets d). same_columns t t'" if "t' \<in> set (td_tickets d')" for t'
  proof -
    from that obtain k where "k < length (td_tickets d')" "t' = td_tickets d' ! k" by (auto simp: in_set_conv_nth)
    then show ?thesis using l2 by (auto simp: list_all2_conv_all_nth intro!: bexI [of _ "td_tickets d ! k"])
  qed
  have cols: "columns_ok (td_users d) (td_devices d) t'" "tk_id t' < td_next d" if t': "t' \<in> set (td_tickets d')" for t'
  proof -
    from each [OF t'] obtain t where t: "t \<in> set (td_tickets d)" "same_columns t t'" by blast
    with inv show "columns_ok (td_users d) (td_devices d) t'" "tk_id t' < td_next d"
      by (auto simp: rel_inv_def columns_ok_def same_columns_def)
  qed
  from inv show ?thesis
    unfolding rel_inv_def f ids using cols f(4) by (auto intro: less_le_trans)
qed

section \<open>Each operation on the links\<close>

lemma td_set_ticket [simp]:
  "td_users (set_ticket i f d) = td_users d" "td_devices (set_ticket i f d) = td_devices d"
  "td_messages (set_ticket i f d) = td_messages d" "td_mails (set_ticket i f d) = td_mails d"
  "td_accounts (set_ticket i f d) = td_accounts d" "td_machines (set_ticket i f d) = td_machines d"
  "td_next (set_ticket i f d) = td_next d" "td_proposals (set_ticket i f d) = td_proposals d"
  "td_tags (set_ticket i f d) = td_tags d" "td_settings (set_ticket i f d) = td_settings d"
  by (simp_all add: set_ticket_def)

lemma td_tickets_set_ticket: "td_tickets (set_ticket i f d) = update_rows (\<lambda>t. tk_id t = i) f (td_tickets d)"
  by (simp add: set_ticket_def)

lemma user_keys_put:
  assumes "distinct (map user_key rs)" shows "distinct (map user_key (put_user now i rl u rs))"
    "distinct (map user_key (put_requester now i u rs))"
  using assms by (auto simp: put_user_def put_requester_def user_link_def list_ex_iff)

lemma device_keys_put:
  assumes "distinct (map device_key rs)" shows "distinct (map device_key (put_device now i v rs))"
  using assms by (auto simp: put_device_def device_link_def list_ex_iff)

lemma put_ticket_ids:
  "r \<in> set (put_user now i rl u rs) \<Longrightarrow> tu_ticket r = i \<or> (\<exists>s \<in> set rs. tu_ticket r = tu_ticket s)"
  "r \<in> set (put_requester now i u rs) \<Longrightarrow> tu_ticket r = i \<or> (\<exists>s \<in> set rs. tu_ticket r = tu_ticket s)"
  "q \<in> set (put_device now i v vs) \<Longrightarrow> tv_ticket q = i \<or> (\<exists>s \<in> set vs. tv_ticket q = tv_ticket s)"
  by (auto simp: put_user_def put_requester_def put_device_def in_update_rows split: if_splits)

lemma distinct_filter_keys: "distinct (map f xs) \<Longrightarrow> distinct (map f (filter P xs))"
  by (rule distinct_map_filter)

text \<open>
  How the operations are proved: the links change by a known rule, the ticket \<open>i\<close> gets new
  columns that fit, every other ticket keeps its own.
\<close>

lemma rel_inv_links:
  assumes inv: "rel_inv d"
    and tickets: "td_tickets d' = update_rows (\<lambda>t. tk_id t = i) f (td_tickets d)"
    and others: "td_accounts d' = td_accounts d" "td_next d' = td_next d"
    and users: "distinct (map user_key (td_users d'))" "\<forall>r \<in> set (td_users d'). tu_ticket r < td_next d"
    and devices: "distinct (map device_key (td_devices d'))" "\<forall>r \<in> set (td_devices d'). tv_ticket r < td_next d"
    and keep: "\<And>j. j \<noteq> i \<Longrightarrow> requesters (td_users d') j = requesters (td_users d) j \<and> machines (td_devices d) j = machines (td_devices d') j"
    and one: "\<forall>u \<in> requesters (td_users d') i. \<forall>v \<in> requesters (td_users d') i. u = v"
    and ids: "\<And>t. t \<in> set (td_tickets d) \<Longrightarrow> tk_id t = i \<Longrightarrow> tk_id (f t) = i"
    and merged: "\<And>t. t \<in> set (td_tickets d) \<Longrightarrow> tk_id t = i \<Longrightarrow> tk_merged_into (f t) = None \<Longrightarrow> tk_merged_into t = None"
    and cols: "\<And>t. t \<in> set (td_tickets d) \<Longrightarrow> tk_id t = i \<Longrightarrow> tk_merged_into (f t) = None
        \<Longrightarrow> requesters (td_users d) i = set_option (tk_user t) \<Longrightarrow> set_option (tk_device t) \<subseteq> machines (td_devices d) i
        \<Longrightarrow> requesters (td_users d') i = set_option (tk_user (f t)) \<and> set_option (tk_device (f t)) \<subseteq> machines (td_devices d') i"
  shows "rel_inv d'"
proof -
  have eq: "map tk_id (td_tickets d') = map tk_id (td_tickets d)"
    unfolding tickets by (auto simp: update_rows_def ids)
  have one': "\<forall>u \<in> requesters (td_users d') j. \<forall>v \<in> requesters (td_users d') j. u = v" for j
    using one keep [of j] inv by (cases "j = i") (auto simp: rel_inv_def)
  have cols': "tk_id t' < td_next d \<and> columns_ok (td_users d') (td_devices d') t'" if "t' \<in> set (td_tickets d')" for t'
  proof -
    from that obtain t where t: "t \<in> set (td_tickets d)" "t' = (if tk_id t = i then f t else t)"
      unfolding tickets in_update_rows by blast
    with inv have old: "tk_id t < td_next d" "columns_ok (td_users d) (td_devices d) t" by (auto simp: rel_inv_def)
    show ?thesis
    proof (cases "tk_id t = i")
      case True
      then show ?thesis using t cols [OF t(1) True] old ids [OF t(1) True] merged [OF t(1) True] True by (simp add: columns_ok_def)
    next
      case False
      then show ?thesis using t(2) old keep [OF False] by (simp add: columns_ok_def)
    qed
  qed
  from inv show ?thesis
    unfolding rel_inv_def others eq using cols' users devices one' by auto
qed

lemma rel_inv_set_ticket:
  assumes inv: "rel_inv d" and "td_tickets d0 = td_tickets d" "td_accounts d0 = td_accounts d" "td_next d0 = td_next d"
    and "distinct (map user_key (td_users d0))" "\<forall>r \<in> set (td_users d0). tu_ticket r < td_next d"
    and "distinct (map device_key (td_devices d0))" "\<forall>r \<in> set (td_devices d0). tv_ticket r < td_next d"
    and "\<And>j. j \<noteq> i \<Longrightarrow> requesters (td_users d0) j = requesters (td_users d) j \<and> machines (td_devices d) j = machines (td_devices d0) j"
    and "\<forall>u \<in> requesters (td_users d0) i. \<forall>v \<in> requesters (td_users d0) i. u = v"
    and "\<And>t. t \<in> set (td_tickets d) \<Longrightarrow> tk_id t = i \<Longrightarrow> tk_id (f t) = i"
    and "\<And>t. t \<in> set (td_tickets d) \<Longrightarrow> tk_id t = i \<Longrightarrow> tk_merged_into (f t) = None \<Longrightarrow> tk_merged_into t = None"
    and "\<And>t. t \<in> set (td_tickets d) \<Longrightarrow> tk_id t = i \<Longrightarrow> tk_merged_into (f t) = None
        \<Longrightarrow> requesters (td_users d) i = set_option (tk_user t) \<Longrightarrow> set_option (tk_device t) \<subseteq> machines (td_devices d) i
        \<Longrightarrow> requesters (td_users d0) i = set_option (tk_user (f t)) \<and> set_option (tk_device (f t)) \<subseteq> machines (td_devices d0) i"
  shows "rel_inv (set_ticket i f d0)"
  by (rule rel_inv_links [OF inv, where i = i and f = f]) (use assms in \<open>simp_all add: td_tickets_set_ticket\<close>)

lemma rel_inv_D:
  assumes "rel_inv d"
  shows "distinct (map user_key (td_users d))" "r \<in> set (td_users d) \<Longrightarrow> tu_ticket r < td_next d"
    "distinct (map device_key (td_devices d))" "q \<in> set (td_devices d) \<Longrightarrow> tv_ticket q < td_next d"
    "t \<in> set (td_tickets d) \<Longrightarrow> columns_ok (td_users d) (td_devices d) t" "t \<in> set (td_tickets d) \<Longrightarrow> tk_id t < td_next d"
    "u \<in> requesters (td_users d) i \<Longrightarrow> v \<in> requesters (td_users d) i \<Longrightarrow> u = v"
    "a \<in> set (td_accounts d) \<Longrightarrow> ac_entra a \<noteq> []" "distinct (map tk_id (td_tickets d))"
  using assms by (auto simp: rel_inv_def)

definition sync_users :: "time \<Rightarrow> uuid \<Rightarrow> entra option \<Rightarrow> ticket_user list \<Rightarrow> ticket_user list" where
  "sync_users now i new rs =
     (let kept = filter (\<lambda>r. \<not> requester_of i r) rs in if truthy new then put_requester now i (the new) kept else kept)"

lemma syncRequester_alt:
  "syncRequester now i new d = set_ticket i (\<lambda>t. t\<lparr>tk_user := (if truthy new then new else None)\<rparr>) (d\<lparr>td_users := sync_users now i new (td_users d)\<rparr>)"
  by (simp add: syncRequester_def sync_users_def Let_def)

lemma requesters_sync:
  "requesters (sync_users now i new rs) j = (if j = i then (if truthy new then {the new} else {}) else requesters rs j)"
  by (simp add: sync_users_def Let_def rel_simps)

lemma known_ticket: "find_ticket d i = Some t \<Longrightarrow> t \<in> set (td_tickets d) \<and> tk_id t = i"
  by (auto simp: find_ticket_def find_Some_iff)

lemma update_rows_id [simp]: "update_rows P (\<lambda>t. t) rs = rs"
  by (simp add: update_rows_def)

lemma rel_inv_sync:
  assumes inv: "rel_inv d" and i: "i < td_next d" shows "rel_inv (syncRequester now i new d)"
  unfolding syncRequester_alt
proof (rule rel_inv_set_ticket [OF inv])
  show "\<forall>r \<in> set (td_users (d\<lparr>td_users := sync_users now i new (td_users d)\<rparr>)). tu_ticket r < td_next d"
    using rel_inv_D(2) [OF inv] i by (auto simp: sync_users_def Let_def dest!: put_ticket_ids split: if_splits)
  show "distinct (map user_key (td_users (d\<lparr>td_users := sync_users now i new (td_users d)\<rparr>)))"
    using rel_inv_D(1) [OF inv] by (auto simp: sync_users_def Let_def distinct_filter_keys intro: user_keys_put)
qed (use rel_inv_D(3,4,7) [OF inv] in \<open>auto simp: requesters_sync truthy_def split: if_splits\<close>)

lemma rel_inv_add_involved:
  assumes inv: "rel_inv d" and i: "i < td_next d" shows "rel_inv (addInvolvedUser now i u d)"
proof (rule rel_inv_links [OF inv, where f = "\<lambda>t. t" and i = i])
  show "\<forall>r \<in> set (td_users (addInvolvedUser now i u d)). tu_ticket r < td_next d"
    using rel_inv_D(2) [OF inv] i by (auto simp: addInvolvedUser_def dest!: put_ticket_ids)
qed (use rel_inv_D(1,3,4,7) [OF inv] in \<open>auto simp: addInvolvedUser_def rel_simps intro: user_keys_put\<close>)

lemma removeUser_alt:
  assumes inv: "rel_inv d"
  shows "snd (removeUserFromTicket i u d) =
     (if u \<in> requesters (td_users d) i then set_ticket i (\<lambda>t. t\<lparr>tk_user := None\<rparr>) (d\<lparr>td_users := filter (\<lambda>r. \<not> user_link i u r) (td_users d)\<rparr>)
      else d\<lparr>td_users := filter (\<lambda>r. \<not> user_link i u r) (td_users d)\<rparr>)"
proof -
  let ?gone = "filter (user_link i u) (td_users d)"
  have "?gone \<noteq> [] \<and> tu_role (hd ?gone) = Requester \<longleftrightarrow> u \<in> requesters (td_users d) i"
  proof
    assume g: "?gone \<noteq> [] \<and> tu_role (hd ?gone) = Requester"
    then have "hd ?gone \<in> set ?gone" by (metis hd_in_set)
    then show "u \<in> requesters (td_users d) i" using g by (auto simp: requesters_iff user_link_def)
  next
    assume "u \<in> requesters (td_users d) i"
    then obtain r where r: "r \<in> set (td_users d)" "user_link i u r" "tu_role r = Requester"
      by (auto simp: requesters_iff user_link_def)
    then have ne: "?gone \<noteq> []" by (auto simp: filter_empty_conv)
    have inj: "inj_on user_key (set (td_users d))" using rel_inv_D(1) [OF inv] by (simp add: distinct_map)
    have "hd ?gone \<in> set ?gone" using ne by (rule hd_in_set)
    then have "hd ?gone \<in> set (td_users d)" "user_key (hd ?gone) = user_key r" using r(2) by (auto simp: user_link_def)
    then have "hd ?gone = r" using inj r(1) by (meson inj_onD)
    then show "?gone \<noteq> [] \<and> tu_role (hd ?gone) = Requester" using ne r(3) by simp
  qed
  then show ?thesis by (simp add: removeUserFromTicket_def Let_def)
qed

lemma rel_inv_remove_user:
  assumes inv: "rel_inv d" shows "rel_inv (snd (removeUserFromTicket i u d))"
proof (cases "u \<in> requesters (td_users d) i")
  case True
  show ?thesis
    unfolding removeUser_alt [OF inv] if_P [OF True]
    by (rule rel_inv_set_ticket [OF inv])
      (use True rel_inv_D(1-4,7) [OF inv] in \<open>auto simp: rel_simps distinct_filter_keys\<close>)
next
  case False
  show ?thesis
    unfolding removeUser_alt [OF inv] if_not_P [OF False]
    by (rule rel_inv_links [OF inv, where f = "\<lambda>t. t" and i = i])
      (use False rel_inv_D(1-4,7) [OF inv] in \<open>auto simp: rel_simps distinct_filter_keys\<close>)
qed

lemma rel_inv_add_device:
  assumes inv: "rel_inv d" and i: "i < td_next d" shows "rel_inv (addDeviceToTicket now i v d)"
  unfolding addDeviceToTicket_def
proof (rule rel_inv_set_ticket [OF inv])
  show "\<forall>r \<in> set (td_devices (d\<lparr>td_devices := put_device now i v (td_devices d)\<rparr>)). tv_ticket r < td_next d"
    using rel_inv_D(4) [OF inv] i by (auto dest!: put_ticket_ids)
qed (use rel_inv_D(1-3,7) [OF inv] in \<open>auto simp: rel_simps intro: device_keys_put split: if_splits\<close>)

lemma rel_inv_remove_device:
  assumes inv: "rel_inv d" shows "rel_inv (snd (removeDeviceFromTicket i v d))"
proof -
  let ?vs = "filter (\<lambda>r. \<not> device_link i v r) (td_devices d)"
  let ?d1 = "d\<lparr>td_devices := ?vs\<rparr>"
  have vs: "distinct (map device_key ?vs)" "\<forall>r \<in> set ?vs. tv_ticket r < td_next d"
    using rel_inv_D(3,4) [OF inv] by (auto simp: distinct_filter_keys)
  have pick: "set_option (map_option tv_device (oldest (devices_of i ?d1))) \<subseteq> machines ?vs i"
    by (cases "oldest (devices_of i ?d1)") (use oldest_machines [of i ?d1] in auto)
  consider (absent) "\<not> list_ex (device_link i v) (td_devices d)"
    | (primary) "list_ex (device_link i v) (td_devices d)" "Option.bind (find_ticket ?d1 i) tk_device = Some v"
    | (other) "list_ex (device_link i v) (td_devices d)" "Option.bind (find_ticket ?d1 i) tk_device \<noteq> Some v"
    by blast
  then show ?thesis
  proof cases
    case absent
    then show ?thesis using inv by (simp add: removeDeviceFromTicket_def)
  next
    case primary
    then show ?thesis
      unfolding removeDeviceFromTicket_def Let_def
      by simp (rule rel_inv_set_ticket [OF inv];
          use vs pick rel_inv_D(1,2,7) [OF inv] in \<open>auto simp: rel_simps\<close>)
  next
    case other
    have "tk_device t \<noteq> Some v" if "t \<in> set (td_tickets d)" "tk_id t = i" for t
    proof -
      have "find_ticket ?d1 i = Some t"
        using find_row_unique [of tk_id, OF rel_inv_D(9) [OF inv] that(1)] that(2) by (simp add: find_ticket_def)
      then show ?thesis using other(2) by simp
    qed
    with other show ?thesis
      unfolding removeDeviceFromTicket_def Let_def
      by simp (rule rel_inv_links [OF inv, where f = "\<lambda>t. t" and i = i];
          use vs rel_inv_D(1,2,7) [OF inv] in \<open>auto simp: rel_simps\<close>)
  qed
qed

lemma update_rows_none: "(\<And>x. x \<in> set xs \<Longrightarrow> \<not> P x) \<Longrightarrow> update_rows P f xs = xs"
  by (induction xs) auto

text \<open>A ticket just inserted, with its requester and its device linked.\<close>

lemma insert_link_inv:
  assumes inv: "rel_inv d" and run: "insert_ticket now title desc prio dev usr src auto creator creator_name d = (t, d1)"
    and usr: "usr = None \<or> truthy usr"
    and d2: "td_tickets d2 = td_tickets d @ [t']" "same_columns t t'" "td_users d2 = td_users d" "td_devices d2 = td_devices d"
      "td_accounts d2 = td_accounts d" "Suc (td_next d) \<le> td_next d2"
  shows "rel_inv (link_new_ticket now t d2)"
proof -
  have t: "tk_id t = td_next d" "tk_user t = usr" "tk_device t = dev" "tk_merged_into t = None"
    using run by (auto simp: insert_ticket_def Let_def)
  have none: "requesters (td_users d) (td_next d) = {}" "machines (td_devices d) (td_next d) = {}"
  proof -
    have "tu_ticket r \<noteq> td_next d" if "r \<in> set (td_users d)" for r using rel_inv_D(2) [OF inv that] by simp
    moreover have "tv_ticket r \<noteq> td_next d" if "r \<in> set (td_devices d)" for r using rel_inv_D(4) [OF inv that] by simp
    ultimately show "requesters (td_users d) (td_next d) = {}" "machines (td_devices d) (td_next d) = {}"
      by (auto simp: requesters_iff machines_iff)
  qed
  have old: "columns_ok (td_users d) (td_devices d) x \<and> tk_id x < td_next d" if "x \<in> set (td_tickets d)" for x
    using rel_inv_D(5,6) [OF inv] that by simp
  let ?us = "if truthy usr then sync_users now (td_next d) usr (td_users d) else td_users d"
  let ?vs = "case dev of None \<Rightarrow> td_devices d | Some v \<Rightarrow> put_device now (td_next d) v (td_devices d)"
  let ?d' = "link_new_ticket now t d2"
  have us: "td_users ?d' = ?us" "td_devices ?d' = ?vs" "td_accounts ?d' = td_accounts d" "td_next ?d' = td_next d2"
    using t d2 by (auto simp: link_new_ticket_def syncRequester_alt addDeviceToTicket_def Let_def split: option.splits)
  let ?t1 = "if truthy usr then t'\<lparr>tk_user := usr\<rparr> else t'"
  let ?t2 = "case dev of None \<Rightarrow> ?t1 | Some v \<Rightarrow> if tk_device ?t1 = None then ?t1\<lparr>tk_device := Some v\<rparr> else ?t1"
  have fresh: "update_rows (\<lambda>x. tk_id x = td_next d) f (td_tickets d) = td_tickets d" for f
  proof (rule update_rows_none)
    fix x assume "x \<in> set (td_tickets d)"
    from old [OF this] show "tk_id x \<noteq> td_next d" by simp
  qed
  have tickets: "td_tickets ?d' = td_tickets d @ [?t2]"
    using t d2 by (auto simp: link_new_ticket_def syncRequester_alt addDeviceToTicket_def Let_def td_tickets_set_ticket
        same_columns_def fresh split: option.splits)
  have t2: "tk_id ?t2 = td_next d" "tk_user ?t2 = usr" "tk_device ?t2 = dev"
    using t d2 usr by (auto simp: same_columns_def split: option.splits)
  have ids: "map tk_id (td_tickets ?d') = map tk_id (td_tickets d) @ [td_next d]"
    by (simp only: tickets map_append list.map t2)
  have rq: "requesters ?us j = (if j = td_next d then set_option usr else requesters (td_users d) j)" for j
    using usr none by (auto simp: requesters_sync truthy_def)
  have mv: "machines ?vs j = (if j = td_next d then set_option dev else machines (td_devices d) j)" for j
    using none by (auto simp: rel_simps split: option.splits)
  have "distinct (map user_key ?us)" "distinct (map device_key ?vs)"
    using rel_inv_D(1,3) [OF inv]
    by (auto simp: sync_users_def Let_def distinct_filter_keys intro: user_keys_put device_keys_put split: option.splits)
  moreover have "r \<in> set ?us \<Longrightarrow> tu_ticket r < td_next d2" "q \<in> set ?vs \<Longrightarrow> tv_ticket q < td_next d2" for r q
    using rel_inv_D(2,4) [OF inv] d2(6)
    by (fastforce simp: sync_users_def Let_def dest!: put_ticket_ids split: if_splits option.splits)+
  moreover have "columns_ok ?us ?vs x \<and> tk_id x < td_next d2" if "x \<in> set (td_tickets ?d')" for x
  proof (cases "x = ?t2")
    case True
    show ?thesis unfolding True columns_ok_def rq mv t2 using d2(6) by simp
  next
    case False
    then have "x \<in> set (td_tickets d)" using that unfolding tickets by simp
    then show ?thesis using old [of x] d2(6) by (auto simp: columns_ok_def rq mv)
  qed
  moreover have "\<forall>i. \<forall>u \<in> requesters ?us i. \<forall>v \<in> requesters ?us i. u = v"
    using rel_inv_D(7) [OF inv] by (auto simp: rq)
  moreover have "distinct (map tk_id (td_tickets ?d'))"
  proof -
    have "td_next d \<notin> tk_id ` set (td_tickets d)"
    proof
      assume "td_next d \<in> tk_id ` set (td_tickets d)"
      then obtain y where "y \<in> set (td_tickets d)" "tk_id y = td_next d" by auto
      with old [of y] show False by simp
    qed
    then show ?thesis using rel_inv_D(9) [OF inv] by (simp add: ids)
  qed
  ultimately show ?thesis
    using rel_inv_D(8) [OF inv] unfolding rel_inv_def us by simp
qed

section \<open>Merging\<close>

lemma set_ticket_rows [simp]:
  "set_ticket i f (d\<lparr>td_users := us\<rparr>) = (set_ticket i f d)\<lparr>td_users := us\<rparr>"
  "set_ticket i f (d\<lparr>td_devices := vs\<rparr>) = (set_ticket i f d)\<lparr>td_devices := vs\<rparr>"
  "set_ticket i f (d\<lparr>td_messages := ms\<rparr>) = (set_ticket i f d)\<lparr>td_messages := ms\<rparr>"
  "set_ticket i f (d\<lparr>td_mails := ps\<rparr>) = (set_ticket i f d)\<lparr>td_mails := ps\<rparr>"
  by (simp_all add: set_ticket_def)

lemma set_ticket_commute:
  assumes "i \<noteq> j" "\<And>t. tk_id (f t) = tk_id t" "\<And>t. tk_id (g t) = tk_id t"
  shows "set_ticket i f (set_ticket j g d) = set_ticket j g (set_ticket i f d)"
  using assms by (auto simp: set_ticket_def update_rows_def)

lemma keep_id [simp]:
  "tk_id (if tk_device t = None then t\<lparr>tk_device := x\<rparr> else t) = tk_id t"
  "tk_id (if tk_user t = None then t\<lparr>tk_user := y\<rparr> else t) = tk_id t"
  by simp_all

lemma fold_put_involved:
  "requesters (foldl (\<lambda>rs r. put_user now i Involved (tu_user r) rs) rs rows) j = requesters rs j"
  by (induction rows arbitrary: rs) (auto simp: rel_simps)

lemma fold_put_role:
  "requesters rs j \<subseteq> requesters (foldl (\<lambda>rs r. put_user now i (tu_role r) (tu_user r) rs) rs rows) j \<and>
   requesters (foldl (\<lambda>rs r. put_user now i (tu_role r) (tu_user r) rs) rs rows) j \<subseteq>
     requesters rs j \<union> (if j = i then tu_user ` {r \<in> set rows. tu_role r = Requester} else {})"
proof (induction rows arbitrary: rs)
  case (Cons r rows)
  let ?X = "if j = i \<and> tu_role r = Requester then {tu_user r} else {}"
  let ?Y = "if j = i then tu_user ` {x \<in> set rows. tu_role x = Requester} else {}"
  have step: "requesters rs j \<subseteq> requesters (put_user now i (tu_role r) (tu_user r) rs) j"
    "requesters (put_user now i (tu_role r) (tu_user r) rs) j \<subseteq> requesters rs j \<union> ?X"
    by (auto simp: rel_simps)
  have split: "(if j = i then tu_user ` {x \<in> set (r # rows). tu_role x = Requester} else {}) = ?X \<union> ?Y"
    by auto
  show ?case
    unfolding foldl_Cons split using step Cons.IH [of "put_user now i (tu_role r) (tu_user r) rs"] by blast
qed simp

lemma fold_put_people:
  "people (foldl (\<lambda>rs r. put_user now i (rl r) (tu_user r) rs) rs rows) j = people rs j \<union> (if j = i then tu_user ` set rows else {})"
  by (induction rows arbitrary: rs) (auto simp: rel_simps)

lemma fold_put_machines:
  "machines (foldl (\<lambda>rs r. put_device now i (tv_device r) rs) rs rows) j = machines rs j \<union> (if j = i then tv_device ` set rows else {})"
  by (induction rows arbitrary: rs) (auto simp: rel_simps)

lemma fold_put_keys:
  "distinct (map user_key rs) \<Longrightarrow> distinct (map user_key (foldl (\<lambda>rs r. put_user now i (rl r) (tu_user r) rs) rs rows))"
  by (induction rows arbitrary: rs) (simp_all add: user_keys_put)

lemma fold_put_device_keys:
  "distinct (map device_key vs) \<Longrightarrow> distinct (map device_key (foldl (\<lambda>rs r. put_device now i (tv_device r) rs) vs rows))"
  by (induction rows arbitrary: vs) (simp_all add: device_keys_put)

lemma fold_put_ids:
  assumes "i < n"
  shows "(\<forall>r \<in> set rs. tu_ticket r < n) \<Longrightarrow> \<forall>r \<in> set (foldl (\<lambda>rs r. put_user now i (rl r) (tu_user r) rs) rs rows). tu_ticket r < n"
proof (induction rows arbitrary: rs)
  case (Cons r rows)
  have "\<forall>x \<in> set (put_user now i (rl r) (tu_user r) rs). tu_ticket x < n"
    using Cons.prems assms by (auto dest!: put_ticket_ids)
  then show ?case using Cons.IH by simp
qed simp

lemma fold_put_device_ids:
  assumes "i < n"
  shows "(\<forall>r \<in> set vs. tv_ticket r < n) \<Longrightarrow> \<forall>r \<in> set (foldl (\<lambda>rs r. put_device now i (tv_device r) rs) vs rows). tv_ticket r < n"
proof (induction rows arbitrary: vs)
  case (Cons r rows)
  have "\<forall>x \<in> set (put_device now i (tv_device r) vs). tv_ticket x < n"
    using Cons.prems assms by (auto dest!: put_ticket_ids)
  then show ?case using Cons.IH by simp
qed simp

lemma rel_inv_merge_users:
  assumes inv: "rel_inv d" and i: "tgt < td_next d" and st: "src \<noteq> tgt"
  shows "rel_inv (merge_users now src tgt d)"
proof -
  let ?rows = "filter (\<lambda>r. tu_ticket r = src) (td_users d)"
  let ?inv = "foldl (\<lambda>rs r. put_user now tgt Involved (tu_user r) rs) (td_users d) ?rows"
  let ?us = "foldl (\<lambda>rs r. put_user now tgt (tu_role r) (tu_user r) rs) (td_users d) ?rows"
  note D = rel_inv_D [OF inv]
  have ids: "\<forall>r \<in> set (foldl (\<lambda>rs r. put_user now tgt (rl r) (tu_user r) rs) (td_users d) ?rows). tu_ticket r < td_next d" for rl
    using fold_put_ids [OF i, of "td_users d" now rl] D(2) by blast
  show ?thesis
  proof (cases "requesters (td_users d) tgt = {}")
    case False
    have "rel_inv (d\<lparr>td_users := ?inv\<rparr>)"
      by (rule rel_inv_links [OF inv, where f = "\<lambda>t. t" and i = tgt])
        (use D(1,3,4,7) ids [of "\<lambda>_. Involved"] in \<open>auto simp: fold_put_involved fold_put_keys\<close>)
    with False show ?thesis by (simp add: merge_users_def list_ex_requester Let_def)
  next
    case True
    have sub: "requesters ?us tgt \<subseteq> requesters (td_users d) src"
    proof -
      have "requesters ?us tgt \<subseteq> tu_user ` {r \<in> set ?rows. tu_role r = Requester}"
        using fold_put_role [of "td_users d" tgt now tgt ?rows] True by simp
      also have "\<dots> \<subseteq> requesters (td_users d) src" by (auto simp: requesters_iff)
      finally show ?thesis .
    qed
    have others: "requesters ?us j = requesters (td_users d) j" if "j \<noteq> tgt" for j
      using fold_put_role [of "td_users d" j now tgt ?rows] that by auto
    have one: "\<forall>u \<in> requesters ?us tgt. \<forall>v \<in> requesters ?us tgt. u = v" using sub D(7) by blast
    show ?thesis
    proof (cases "find (requester_of tgt) ?us")
      case None
      then have none: "requesters ?us tgt = {}" by (auto simp: find_None_iff requesters_iff requester_of_def)
      have "rel_inv (d\<lparr>td_users := ?us\<rparr>)"
        by (rule rel_inv_links [OF inv, where f = "\<lambda>t. t" and i = tgt])
          (use D(1,3,4) ids none True others in \<open>auto simp: fold_put_keys\<close>)
      with True None show ?thesis by (simp add: merge_users_def list_ex_requester Let_def)
    next
      case (Some r)
      then have r: "tu_user r \<in> requesters ?us tgt" by (auto simp: find_Some_iff requesters_def requester_of_def)
      then have rq: "requesters ?us tgt = {tu_user r}" using one by auto
      have "rel_inv (set_ticket tgt (\<lambda>t. if tk_user t = None then t\<lparr>tk_user := Some (tu_user r)\<rparr> else t) (d\<lparr>td_users := ?us\<rparr>))"
        by (rule rel_inv_set_ticket [OF inv])
          (use D(1,3,4) ids rq True others in \<open>auto simp: fold_put_keys split: if_splits\<close>)
      with True Some show ?thesis by (simp add: merge_users_def list_ex_requester Let_def)
    qed
  qed
qed

lemma fold_put_user_machines: "rows = devices_of src d \<Longrightarrow> tv_device ` set rows = machines (td_devices d) src"
  by (auto simp: devices_of_def machines_def)

lemma rel_inv_put_devices:
  assumes inv: "rel_inv d" and i: "tgt < td_next d"
  shows "rel_inv (set_ticket tgt (\<lambda>t. if tk_device t = None
            then t\<lparr>tk_device := map_option tv_device (oldest (devices_of tgt
                   (d\<lparr>td_devices := foldl (\<lambda>rs r. put_device now tgt (tv_device r) rs) (td_devices d) rows\<rparr>)))\<rparr> else t)
          (d\<lparr>td_devices := foldl (\<lambda>rs r. put_device now tgt (tv_device r) rs) (td_devices d) rows\<rparr>))"
proof -
  let ?vs = "foldl (\<lambda>rs r. put_device now tgt (tv_device r) rs) (td_devices d) rows"
  let ?d1 = "d\<lparr>td_devices := ?vs\<rparr>"
  have ids: "\<forall>r \<in> set ?vs. tv_ticket r < td_next d"
    using fold_put_device_ids [OF i, of "td_devices d" now rows] inv by (auto simp: rel_inv_def)
  have pick: "set_option (map_option tv_device (oldest (devices_of tgt ?d1))) \<subseteq> machines ?vs tgt"
    by (cases "oldest (devices_of tgt ?d1)") (use oldest_machines [of tgt ?d1] in auto)
  have grow: "machines (td_devices d) tgt \<subseteq> machines ?vs tgt" by (simp add: fold_put_machines)
  show ?thesis
  proof (rule rel_inv_set_ticket [OF inv])
    show "distinct (map device_key (td_devices ?d1))" using rel_inv_D(3) [OF inv] by (simp add: fold_put_device_keys)
    show "\<forall>u \<in> requesters (td_users ?d1) tgt. \<forall>v \<in> requesters (td_users ?d1) tgt. u = v"
      using rel_inv_D(7) [OF inv] by simp
  qed (use ids pick grow rel_inv_D(1,2) [OF inv] in \<open>auto simp: fold_put_machines split: if_splits\<close>)
qed

lemma rel_inv_drop_links:
  assumes inv: "rel_inv d" and gone: "\<And>t. t \<in> set (td_tickets d) \<Longrightarrow> tk_id t = s \<Longrightarrow> tk_merged_into t \<noteq> None"
  shows "rel_inv (d\<lparr>td_users := filter (\<lambda>r. tu_ticket r \<noteq> s) (td_users d)\<rparr>)"
    and "rel_inv (d\<lparr>td_devices := filter (\<lambda>r. tv_ticket r \<noteq> s) (td_devices d)\<rparr>)"
proof -
  show "rel_inv (d\<lparr>td_users := filter (\<lambda>r. tu_ticket r \<noteq> s) (td_users d)\<rparr>)"
    by (rule rel_inv_links [OF inv, where f = "\<lambda>t. t" and i = s])
      (use rel_inv_D(1-4) [OF inv] gone in \<open>auto simp: rel_simps distinct_filter_keys\<close>)
  show "rel_inv (d\<lparr>td_devices := filter (\<lambda>r. tv_ticket r \<noteq> s) (td_devices d)\<rparr>)"
    by (rule rel_inv_links [OF inv, where f = "\<lambda>t. t" and i = s])
      (use rel_inv_D(1-4,7) [OF inv] gone in \<open>auto simp: rel_simps distinct_filter_keys\<close>)
qed

text \<open>The merge with the source marked first: the same database, each step keeping the invariant.\<close>

definition mark_merged :: "time \<Rightarrow> uuid \<Rightarrow> uuid \<Rightarrow> tdb \<Rightarrow> tdb" where
  "mark_merged now src tgt = set_ticket src (\<lambda>t. t\<lparr>tk_status := ''merged'', tk_merged_into := Some tgt, tk_updated_at := now\<rparr>)"

lemma mark_merge_users:
  "src \<noteq> tgt \<Longrightarrow> mark_merged now src tgt (merge_users now src tgt d) = merge_users now src tgt (mark_merged now src tgt d)"
  by (simp add: merge_users_def mark_merged_def Let_def set_ticket_commute [of src tgt] split: option.splits)

lemma mark_merge_devices:
  "src \<noteq> tgt \<Longrightarrow> mark_merged now src tgt (merge_devices now src tgt d) = merge_devices now src tgt (mark_merged now src tgt d)"
  by (simp add: merge_devices_def mark_merged_def Let_def devices_of_def set_ticket_commute [of src tgt] cong: if_cong)

definition merge_tail :: "time \<Rightarrow> uuid \<Rightarrow> uuid \<Rightarrow> tdb \<Rightarrow> tdb" where
  "merge_tail now src tgt d =
     (let d4 = (merge_users now src tgt d)\<lparr>td_users := filter (\<lambda>r. tu_ticket r \<noteq> src) (td_users (merge_users now src tgt d))\<rparr>;
          d5 = merge_devices now src tgt d4
      in d5\<lparr>td_mails := update_rows (\<lambda>m. mp_ticket m = Some src) (\<lambda>m. m\<lparr>mp_ticket := Some tgt\<rparr>) (td_mails d5)\<rparr>)"

definition merge_messages :: "time \<Rightarrow> uuid \<Rightarrow> uuid \<Rightarrow> jsstring option \<Rightarrow> tdb \<Rightarrow> tdb" where
  "merge_messages now src tgt who d =
     (let d1 = add_message now tgt ''system'' (if truthy who then the who else SYSTEME) (merge_note src) (Some now) d
      in d1\<lparr>td_messages := update_rows (\<lambda>m. ms_ticket m = src) (\<lambda>m. m\<lparr>ms_ticket := tgt\<rparr>) (td_messages d1)\<rparr>)"

lemma mark_rows [simp]:
  "td_users (mark_merged now src tgt d) = td_users d" "td_mails (mark_merged now src tgt d) = td_mails d"
  "mark_merged now src tgt (d\<lparr>td_mails := ps\<rparr>) = (mark_merged now src tgt d)\<lparr>td_mails := ps\<rparr>"
  "mark_merged now src tgt (d\<lparr>td_users := us\<rparr>) = (mark_merged now src tgt d)\<lparr>td_users := us\<rparr>"
  by (simp_all add: mark_merged_def)

lemma mark_tail:
  assumes "src \<noteq> tgt"
  shows "mark_merged now src tgt (merge_tail now src tgt d) = merge_tail now src tgt (mark_merged now src tgt d)"
  by (simp add: merge_tail_def Let_def mark_merge_users [OF assms, symmetric] mark_merge_devices [OF assms, symmetric]
      flip: mark_rows(3,4))

lemma mergeTicketInto_alt:
  "mergeTicketInto now src tgt who d = Inr d' \<longleftrightarrow>
     src \<noteq> tgt \<and> (\<exists>s t. find_ticket d src = Some s \<and> tk_status s \<noteq> ''merged'' \<and> find_ticket d tgt = Some t \<and> tk_status t \<noteq> ''merged'') \<and>
     d' = touch_ticket now tgt (mark_merged now src tgt (merge_tail now src tgt (merge_messages now src tgt who d)))"
  by (auto simp: mergeTicketInto_def merge_tail_def merge_messages_def mark_merged_def Let_def split: option.splits)

lemma merge_users_rows [simp]:
  "td_next (merge_users now s t d) = td_next d" "td_accounts (merge_users now s t d) = td_accounts d"
  "td_messages (merge_users now s t d) = td_messages d" "td_devices (merge_users now s t d) = td_devices d"
  "td_mails (merge_users now s t d) = td_mails d"
  by (simp_all add: merge_users_def Let_def split: option.splits)

lemma merge_devices_rows [simp]:
  "td_next (merge_devices now s t d) = td_next d" "td_accounts (merge_devices now s t d) = td_accounts d"
  "td_messages (merge_devices now s t d) = td_messages d" "td_users (merge_devices now s t d) = td_users d"
  "td_mails (merge_devices now s t d) = td_mails d"
  by (simp_all add: merge_devices_def Let_def)

lemma frame_merge_messages: "frame d (merge_messages now s t who d)"
  by (simp add: merge_messages_def Let_def frame_def add_message_def list_all2_same)

lemma set_ticket_keeps:
  assumes "x \<in> set (td_tickets (set_ticket i f d))" "\<And>t. g (f t) = g t"
  shows "\<exists>y \<in> set (td_tickets d). g x = g y"
proof -
  from assms(1) obtain y where "y \<in> set (td_tickets d)" "x = (if tk_id y = i then f y else y)"
    by (auto simp: td_tickets_set_ticket in_update_rows)
  with assms(2) show ?thesis by (intro bexI [of _ y]) simp_all
qed

definition identity_of :: "ticket \<Rightarrow> uuid \<times> uuid option" where
  "identity_of t = (tk_id t, tk_merged_into t)"

lemma identity_of_links [simp]:
  "identity_of (if tk_device t = None then t\<lparr>tk_device := x\<rparr> else t) = identity_of t"
  "identity_of (if tk_user t = None then t\<lparr>tk_user := y\<rparr> else t) = identity_of t"
  by (simp_all add: identity_of_def)

lemma merge_users_tickets:
  "td_tickets (merge_users now src tgt d) = td_tickets d \<or>
   (\<exists>u. td_tickets (merge_users now src tgt d) =
      td_tickets (set_ticket tgt (\<lambda>t. if tk_user t = None then t\<lparr>tk_user := u\<rparr> else t) d))"
  by (auto simp: merge_users_def Let_def split: option.splits)

lemma merge_users_identity:
  assumes "x \<in> set (td_tickets (merge_users now src tgt d))"
  shows "\<exists>y \<in> set (td_tickets d). identity_of x = identity_of y"
  using merge_users_tickets [of now src tgt d]
proof (elim disjE exE)
  fix u assume "td_tickets (merge_users now src tgt d) =
      td_tickets (set_ticket tgt (\<lambda>t. if tk_user t = None then t\<lparr>tk_user := u\<rparr> else t) d)"
  with assms have "x \<in> set (td_tickets (set_ticket tgt (\<lambda>t. if tk_user t = None then t\<lparr>tk_user := u\<rparr> else t) d))" by simp
  then show ?thesis by (rule set_ticket_keeps) simp
qed (use assms in auto)

lemma src_marked:
  assumes "x \<in> set (td_tickets (merge_users now src tgt (mark_merged now src tgt d)))" "tk_id x = src"
  shows "tk_merged_into x \<noteq> None"
proof -
  from merge_users_identity [OF assms(1)] obtain y
    where y: "y \<in> set (td_tickets (mark_merged now src tgt d))" "identity_of x = identity_of y" by blast
  from y(1) obtain z
    where "y = (if tk_id z = src then z\<lparr>tk_status := ''merged'', tk_merged_into := Some tgt, tk_updated_at := now\<rparr> else z)"
    unfolding mark_merged_def td_tickets_set_ticket in_update_rows by blast
  with assms(2) y(2) show ?thesis by (cases "tk_id z = src") (simp_all add: identity_of_def)
qed

lemma rel_inv_merge:
  assumes inv: "rel_inv d" and run: "mergeTicketInto now src tgt who d = Inr d'"
  shows "rel_inv d'"
proof -
  from run have st: "src \<noteq> tgt" and found: "find_ticket d tgt \<noteq> None"
    and d': "d' = touch_ticket now tgt (merge_tail now src tgt (mark_merged now src tgt (merge_messages now src tgt who d)))"
    by (auto simp: mergeTicketInto_alt mark_tail)
  define d1 where "d1 = merge_messages now src tgt who d"
  have inv1: "rel_inv d1" unfolding d1_def by (rule rel_inv_frame [OF inv frame_merge_messages])
  have tgt: "tgt < td_next d1"
  proof -
    from found obtain t where "find_ticket d tgt = Some t" by blast
    then have "tgt < td_next d" using known_ticket rel_inv_D(6) [OF inv] by blast
    also have "td_next d \<le> td_next d1" using frame_merge_messages [of d] by (simp add: d1_def frame_def)
    finally show ?thesis .
  qed
  define d2 where "d2 = mark_merged now src tgt d1"
  have inv2: "rel_inv d2"
    unfolding d2_def mark_merged_def by (rule rel_inv_set_ticket [OF inv1]) (use rel_inv_D(1-4,7) [OF inv1] in auto)
  have next2: "td_next d2 = td_next d1" by (simp add: d2_def mark_merged_def)
  define d3 where "d3 = merge_users now src tgt d2"
  have inv3: "rel_inv d3" unfolding d3_def by (rule rel_inv_merge_users [OF inv2]) (use tgt next2 st in auto)
  have marked: "tk_merged_into x \<noteq> None" if "x \<in> set (td_tickets d3)" "tk_id x = src" for x
    using src_marked [of x now src tgt d1] that by (simp add: d3_def d2_def)
  define d4 where "d4 = d3\<lparr>td_users := filter (\<lambda>r. tu_ticket r \<noteq> src) (td_users d3)\<rparr>"
  have inv4: "rel_inv d4" unfolding d4_def by (rule rel_inv_drop_links(1) [OF inv3 marked])
  define d5 where "d5 = merge_devices now src tgt d4"
  have next4: "tgt < td_next d4" using tgt next2 by (simp add: d4_def d3_def)
  have inv5: "rel_inv d5"
    unfolding d5_def merge_devices_def Let_def
  proof (rule rel_inv_drop_links(2) [OF rel_inv_put_devices [OF inv4 next4]])
    fix x :: ticket
    assume x: "x \<in> set (td_tickets (set_ticket tgt (\<lambda>t. if tk_device t = None
        then t\<lparr>tk_device := map_option tv_device (oldest (devices_of tgt
               (d4\<lparr>td_devices := foldl (\<lambda>rs r. put_device now tgt (tv_device r) rs) (td_devices d4) (devices_of src d4)\<rparr>)))\<rparr> else t)
        (d4\<lparr>td_devices := foldl (\<lambda>rs r. put_device now tgt (tv_device r) rs) (td_devices d4) (devices_of src d4)\<rparr>)))" "tk_id x = src"
    from set_ticket_keeps [OF x(1), where g = identity_of]
    have "\<exists>y \<in> set (td_tickets d3). identity_of x = identity_of y" by (simp add: d4_def)
    then show "tk_merged_into x \<noteq> None" using marked x(2) by (auto simp: identity_of_def)
  qed
  have "frame d5 d'"
    unfolding d' merge_tail_def Let_def d1_def [symmetric] d2_def [symmetric] d3_def [symmetric] d4_def [symmetric] d5_def [symmetric]
    by (rule frame_trans [OF frame_rows(2) frame_touch])
  then show ?thesis by (rule rel_inv_frame [OF inv5])
qed

end
