(* ===== verification/Outbox.thy ===== *)
theory Outbox imports MailText begin

text \<open>
  The outbox (\<open>outbound-worker.js\<close>): which messages leave, to whom, how often a failing one
  is retried, and the worker that marks mails as read (\<open>mark-read-worker.js\<close>). Graph's
  two ways of sending are parameters that act on a world and answer with an outcome.
\<close>

definition MAX_BATCH :: nat where "MAX_BATCH = 20"
definition MAX_ATTEMPTS :: nat where "MAX_ATTEMPTS = 5"

record send_config =
  sg_enabled :: bool
  sg_sender :: jsstring

definition getConfig :: "tdb \<Rightarrow> send_config" where
  "getConfig d =
     \<lparr>sg_enabled = (jm_get (td_settings d) ''mail.send_enabled'' = Some ''true''),
      sg_sender = or_else (jm_get (td_settings d) ''mail.sender_address'') []\<rparr>"

text \<open>The WHERE clause of \<open>pickPending\<close>.\<close>

definition waiting :: "tdb \<Rightarrow> message \<Rightarrow> bool" where
  "waiting d m \<longleftrightarrow>
     ms_sent_at m = None \<and> ms_failed_at m = None \<and> ms_type m = ''comment'' \<and>
     find_ticket d (ms_ticket m) \<noteq> None \<and>
     list_ex (\<lambda>r. mp_ticket r = Some (ms_ticket m) \<and> mp_direction r = Inbound) (td_mails d)"

text \<open>Each row carries the title of its ticket, as read here.\<close>

definition pickPending :: "tdb \<Rightarrow> nat \<Rightarrow> (message \<times> jsstring) list" where
  "pickPending d limit =
     map (\<lambda>m. (m, tk_title (the (find_ticket d (ms_ticket m)))))
       (take limit (sort_key ms_created_at (filter (waiting d) (td_messages d))))"

text \<open>\<open>ORDER BY received_at ASC NULLS FIRST, created_at ASC\<close>.\<close>

definition loadTicketMappings :: "tdb \<Rightarrow> uuid \<Rightarrow> mapping list" where
  "loadTicketMappings d i =
     sort_key (\<lambda>m. (mp_received m \<noteq> None, or_else (mp_received m) 0, mp_created m)) (filter (\<lambda>m. mp_ticket m = Some i) (td_mails d))"

definition last_inbound :: "(mapping \<Rightarrow> bool) \<Rightarrow> mapping list \<Rightarrow> mapping option" where
  "last_inbound P ms = find (\<lambda>m. mp_direction m = Inbound \<and> P m) (rev ms)"

definition pickRecipient :: "mapping list \<Rightarrow> jsstring option" where
  "pickRecipient ms = Option.bind (last_inbound (\<lambda>m. truthy (mp_from m)) ms) mp_from"

definition pickReplyTarget :: "mapping list \<Rightarrow> (jsstring \<times> jsstring) option" where
  "pickReplyTarget ms =
     map_option (\<lambda>m. (mp_mailbox m, the (mp_graph_id m)))
       (last_inbound (\<lambda>m. truthy (mp_graph_id m) \<and> mp_mailbox m \<noteq> []) ms)"

definition pickSubject :: "mapping list \<Rightarrow> jsstring \<Rightarrow> jsstring" where
  "pickSubject ms title =
     (case last_inbound (\<lambda>m. truthy (mp_subject m)) ms of
        Some m \<Rightarrow> the (mp_subject m) | None \<Rightarrow> if title = [] then NO_SUBJECT else title)"

section \<open>Claim, release, failure\<close>

definition claimable :: "uuid \<Rightarrow> message \<Rightarrow> bool" where
  "claimable i m \<longleftrightarrow> ms_id m = i \<and> ms_sent_at m = None \<and> ms_failed_at m = None"

definition claimForSend :: "time \<Rightarrow> uuid \<Rightarrow> tdb \<Rightarrow> nat option \<times> tdb" where
  "claimForSend now i d =
     (case find (claimable i) (td_messages d) of
        None \<Rightarrow> (None, d)
      | Some m \<Rightarrow> (Some (ms_attempts m),
                   d\<lparr>td_messages := update_rows (claimable i) (\<lambda>r. r\<lparr>ms_sent_at := Some now\<rparr>) (td_messages d)\<rparr>))"

definition releaseClaim :: "uuid \<Rightarrow> tdb \<Rightarrow> tdb" where
  "releaseClaim i d =
     d\<lparr>td_messages := update_rows (\<lambda>m. ms_id m = i \<and> ms_failed_at m = None) (\<lambda>r. r\<lparr>ms_sent_at := None\<rparr>) (td_messages d)\<rparr>"

definition markFailure :: "time \<Rightarrow> uuid \<Rightarrow> nat \<Rightarrow> jsstring \<Rightarrow> tdb \<Rightarrow> bool \<times> tdb" where
  "markFailure now i before err d =
     (let n = before + 1; dead = (MAX_ATTEMPTS \<le> n)
      in (dead, d\<lparr>td_messages := update_rows (\<lambda>m. ms_id m = i)
            (\<lambda>r. r\<lparr>ms_sent_at := None, ms_attempts := n, ms_error := Some (take 500 err),
                   ms_failed_at := (if dead then Some now else None)\<rparr>) (td_messages d)\<rparr>))"

section \<open>Sending\<close>

text \<open>The answers of Graph: accepted, refused with a text, or waiting interrupted by the shutdown.\<close>

datatype outcome = Accepted | Aborted | Failed jsstring

datatype sent = Sent | Skipped_no_recipient | Skipped_claimed | Sent_aborted | Dead_letter | Send_error

text \<open>What leaves: a threaded reply (mailbox, message, text) or a new mail (sender, to, subject, text).\<close>

datatype letter = Reply_to jsstring jsstring jsstring | New_mail jsstring jsstring jsstring jsstring

type_synonym 'w mailer = "letter \<Rightarrow> 'w \<Rightarrow> outcome \<times> 'w"

definition new_letter :: "(uuid \<Rightarrow> jsstring) \<Rightarrow> jsstring \<Rightarrow> jsstring \<Rightarrow> mapping list \<Rightarrow> message \<times> jsstring \<Rightarrow> letter" where
  "new_letter uuid_text sender to ms mt =
     New_mail sender to (buildSubject (Some (pickSubject ms (snd mt))) (Some (uuid_text (ms_ticket (fst mt))))) (ms_content (fst mt))"

text \<open>A reply whose original is gone (\<open>createReply: 404\<close>) falls back to a new mail.\<close>

definition is_gone :: "jsstring \<Rightarrow> bool" where
  "is_gone e \<longleftrightarrow> search (m_exact ''createReply: 404'') e \<noteq> None"

definition deliver :: "'w mailer \<Rightarrow> (jsstring \<times> jsstring) option \<Rightarrow> letter \<Rightarrow> jsstring \<Rightarrow> 'w \<Rightarrow> outcome \<times> 'w" where
  "deliver send target fresh text w =
     (case target of
        None \<Rightarrow> send fresh w
      | Some (mailbox, gid) \<Rightarrow>
         (case send (Reply_to mailbox gid text) w of
            (Failed e, w1) \<Rightarrow> if is_gone e then send fresh w1 else (Failed e, w1)
          | r \<Rightarrow> r))"

text \<open>
  One call of \<open>sendOne\<close>, cut at its awaits: it has a message of its batch, then the mails of the
  ticket and the recipient, then the claim with the number of attempts, then the answer of Graph.
  Any number of calls, of several instances, may stand at these points at the same time.
\<close>

datatype worker =
    W_started "message \<times> jsstring"
  | W_addressed "message \<times> jsstring" "mapping list" jsstring
  | W_holding "message \<times> jsstring" "mapping list" jsstring nat
  | W_answered "message \<times> jsstring" nat outcome
  | W_finished sent

fun worker_step ::
    "(uuid \<Rightarrow> jsstring) \<Rightarrow> 'w mailer \<Rightarrow> time \<Rightarrow> jsstring \<Rightarrow> worker \<Rightarrow> tdb \<times> 'w \<Rightarrow> worker \<times> tdb \<times> 'w" where
  "worker_step uuid_text send now sender (W_started mt) (d, w) =
     (let ms = loadTicketMappings d (ms_ticket (fst mt)) in
      if ms = [] then (W_finished Skipped_no_recipient, d, w)
      else (case pickRecipient ms of
          None \<Rightarrow> (W_finished Skipped_no_recipient, d, w)
        | Some to \<Rightarrow> (W_addressed mt ms to, d, w)))"
| "worker_step uuid_text send now sender (W_addressed mt ms to) (d, w) =
     (case claimForSend now (ms_id (fst mt)) d of
        (None, d1) \<Rightarrow> (W_finished Skipped_claimed, d1, w)
      | (Some before, d1) \<Rightarrow> (W_holding mt ms to before, d1, w))"
| "worker_step uuid_text send now sender (W_holding mt ms to before) (d, w) =
     (case deliver send (pickReplyTarget ms) (new_letter uuid_text sender to ms mt) (ms_content (fst mt)) w of
        (answer, w1) \<Rightarrow> (W_answered mt before answer, d, w1))"
| "worker_step uuid_text send now sender (W_answered mt before answer) (d, w) =
     (case answer of
        Accepted \<Rightarrow> (W_finished Sent, d, w)
      | Aborted \<Rightarrow> (W_finished Sent_aborted, releaseClaim (ms_id (fst mt)) d, w)
      | Failed e \<Rightarrow> (case markFailure now (ms_id (fst mt)) before e d of
            (dead, d1) \<Rightarrow> (W_finished (if dead then Dead_letter else Send_error), d1, w)))"
| "worker_step uuid_text send now sender (W_finished r) (d, w) = (W_finished r, d, w)"

text \<open>The whole call; \<open>between\<close> is what other requests do to the base at each await.\<close>

definition sendOne ::
    "(uuid \<Rightarrow> jsstring) \<Rightarrow> 'w mailer \<Rightarrow> time \<Rightarrow> jsstring \<Rightarrow> (tdb \<Rightarrow> tdb) \<Rightarrow> message \<times> jsstring \<Rightarrow> tdb \<times> 'w \<Rightarrow> sent \<times> tdb \<times> 'w" where
  "sendOne uuid_text send now sender between mt s =
     (let resume = (\<lambda>(wk, d, w). worker_step uuid_text send now sender wk (between d, w))
      in case (resume ^^ 3) (worker_step uuid_text send now sender (W_started mt) s) of
           (W_finished r, s1) \<Rightarrow> (r, s1)
         | (_, s1) \<Rightarrow> (Send_error, s1))"

lemma sendOne_finishes:
  "\<exists>r s1. ((\<lambda>(wk, d, w). worker_step ut send now sender wk (between d, w)) ^^ 3) (worker_step ut send now sender (W_started mt) s)
     = (W_finished r, s1)"
  by (cases s) (auto simp: numeral_3_eq_3 Let_def split: option.splits prod.splits outcome.splits)

record stats =
  st_sent :: nat
  st_no_recipient :: nat
  st_claimed :: nat
  st_aborted :: nat
  st_errors :: nat
  st_dead :: nat

definition no_stats :: stats where
  "no_stats = \<lparr>st_sent = 0, st_no_recipient = 0, st_claimed = 0, st_aborted = 0, st_errors = 0, st_dead = 0\<rparr>"

definition tally :: "sent \<Rightarrow> stats \<Rightarrow> stats" where
  "tally r s =
     (case r of
        Sent \<Rightarrow> s\<lparr>st_sent := st_sent s + 1\<rparr>
      | Skipped_no_recipient \<Rightarrow> s\<lparr>st_no_recipient := st_no_recipient s + 1\<rparr>
      | Skipped_claimed \<Rightarrow> s\<lparr>st_claimed := st_claimed s + 1\<rparr>
      | Sent_aborted \<Rightarrow> s\<lparr>st_aborted := st_aborted s + 1\<rparr>
      | Dead_letter \<Rightarrow> s\<lparr>st_dead := st_dead s + 1\<rparr>
      | Send_error \<Rightarrow> s\<lparr>st_errors := st_errors s + 1\<rparr>)"

text \<open>The loop over the batch; \<open>stopped\<close> reads the shutdown signal, \<open>clock\<close> the hour.\<close>

fun flush_loop ::
    "(uuid \<Rightarrow> jsstring) \<Rightarrow> 'w mailer \<Rightarrow> ('w \<Rightarrow> time) \<Rightarrow> ('w \<Rightarrow> bool) \<Rightarrow> jsstring \<Rightarrow> (tdb \<Rightarrow> tdb) \<Rightarrow> (message \<times> jsstring) list
     \<Rightarrow> stats \<Rightarrow> tdb \<times> 'w \<Rightarrow> stats \<times> tdb \<times> 'w" where
  "flush_loop ut send clock stopped sender between [] acc s = (acc, s)"
| "flush_loop ut send clock stopped sender between (m # ms) acc s =
     (if stopped (snd s) then (acc, s)
      else case sendOne ut send (clock (snd s)) sender between m s of
             (r, s1) \<Rightarrow> flush_loop ut send clock stopped sender between ms (tally r acc) s1)"

definition flushOutbox ::
    "(uuid \<Rightarrow> jsstring) \<Rightarrow> 'w mailer \<Rightarrow> ('w \<Rightarrow> time) \<Rightarrow> ('w \<Rightarrow> bool) \<Rightarrow> (tdb \<Rightarrow> tdb) \<Rightarrow> tdb \<times> 'w
     \<Rightarrow> stats option \<times> tdb \<times> 'w" where
  "flushOutbox ut send clock stopped between s =
     (let cfg = getConfig (fst s) in
      if \<not> sg_enabled cfg \<or> sg_sender cfg = [] then (None, s)
      else case flush_loop ut send clock stopped (sg_sender cfg) between (pickPending (fst s) MAX_BATCH) no_stats s of
             (acc, s1) \<Rightarrow> (Some acc, s1))"

section \<open>Mails read in Outlook\<close>

definition to_mark :: "tdb \<Rightarrow> mapping \<Rightarrow> bool" where
  "to_mark d m \<longleftrightarrow>
     mp_read_at m = None \<and> mp_graph_id m \<noteq> None \<and>
     (mp_action m = Some ''message_appended'' \<or>
      list_ex (\<lambda>p. mp_proposal m = Some (pp_id p) \<and> pp_status p = ''accepted'') (td_proposals d))"

definition pick_to_mark :: "tdb \<Rightarrow> nat \<Rightarrow> mapping list" where
  "pick_to_mark d limit = take limit (sort_key mp_created (filter (to_mark d) (td_mails d)))"

definition markMapping :: "time \<Rightarrow> uuid \<Rightarrow> tdb \<Rightarrow> tdb" where
  "markMapping now i d = d\<lparr>td_mails := update_rows (\<lambda>m. mp_id m = i) (\<lambda>m. m\<lparr>mp_read_at := Some now\<rparr>) (td_mails d)\<rparr>"

text \<open>\<open>mark mailbox id\<close> is the call of Graph, which succeeds or not.\<close>

fun mark_loop :: "(jsstring \<Rightarrow> jsstring \<Rightarrow> bool) \<Rightarrow> time \<Rightarrow> mapping list \<Rightarrow> nat \<times> nat \<Rightarrow> tdb \<Rightarrow> (nat \<times> nat) \<times> tdb" where
  "mark_loop mark now [] acc d = (acc, d)"
| "mark_loop mark now (m # ms) (marked, errors) d =
     (if mark (mp_mailbox m) (the (mp_graph_id m)) then mark_loop mark now ms (marked + 1, errors) (markMapping now (mp_id m) d)
      else mark_loop mark now ms (marked, errors + 1) d)"

definition flushMarkRead :: "(jsstring \<Rightarrow> jsstring \<Rightarrow> bool) \<Rightarrow> time \<Rightarrow> tdb \<Rightarrow> (nat \<times> nat) option \<times> tdb" where
  "flushMarkRead mark now d =
     (if jm_get (td_settings d) ''mail.mark_as_read_enabled'' \<noteq> Some ''true'' then (None, d)
      else case mark_loop mark now (pick_to_mark d MAX_BATCH) (0, 0) d of (acc, d1) \<Rightarrow> (Some acc, d1))"

end
