(* ===== verification/TicketMachine.thy ===== *)
theory TicketMachine imports TicketSafety Outbox begin

text \<open>
  Every operation that changes the database of the tickets, as a step relation, and the
  invariant of the relations along its runs.
\<close>

section \<open>Steps\<close>

inductive ticket_step :: "tdb \<Rightarrow> tdb \<Rightarrow> bool" where
  Create: "ticket_step d (snd (createTicket now u nt d))"
| Patch: "ticket_step d (snd (patchTicket now u i pt d))"
| Post: "ticket_step d (snd (postMessage now u i content ty d))"
| Send_by_mail: "ticket_step d (snd (sendByMail now u i m d))"
| Retry: "ticket_step d (snd (retrySend now u i m d))"
| Delete_suggestion: "ticket_step d (snd (deleteSuggestion u i m d))"
| Suggest: "ticket_step d (snd (aiSuggest gen now u i d))"
| Add_user: "ticket_step d (snd (addUser now u i who role d))"
| Remove_user: "ticket_step d (snd (removeUser now u i e d))"
| Add_device: "ticket_step d (snd (addDevice now u i dev d))"
| Remove_device: "ticket_step d (snd (removeDevice now u i v d))"
| Merge: "ticket_step d (snd (mergeTicket now u i target d))"
| Create_tag: "ticket_step d (snd (createTag u name color d))"
| Delete_tag: "ticket_step d (snd (deleteTag u g d))"
| Tag: "ticket_step d (snd (tagTicket now u i tg d))"
| Untag: "ticket_step d (snd (untagTicket now u i g d))"
| System_event: "ticket_step d (snd (attachSystemEvent now v author text d))"
| Propose: "ticket_step d (snd (createProposal u np d))"
| Accept: "ticket_step d (snd (acceptProposal fmt now u p ab d))"
| Reject: "ticket_step d (snd (rejectProposal now u p reason d))"
| Ingest: "ticket_step d (snd (commit_mail sha fault now plan d))"
| Ingest_sent: "ticket_step d (snd (commit_sent sha fault now splan d))"
| To_ticket: "ticket_step d (snd (createTicketFromMapping sha ls get_message fmt now mi who who_name prep d))"
| Attach: "ticket_step d (snd (attachMappingToTicket sha ls get_message now mi i prep d))"
| Dismiss: "ticket_step d (snd (dismissInboxMapping sha now mi whole d))"
| Claim: "ticket_step d (snd (claimForSend now m d))"
| Release: "ticket_step d (releaseClaim m d)"
| Failure: "ticket_step d (snd (markFailure now m n err d))"
| Mark_read: "ticket_step d (markMapping now mi d)"

definition reachable :: "tdb \<Rightarrow> tdb \<Rightarrow> bool" where
  "reachable = ticket_step\<^sup>*\<^sup>*"

section \<open>Steps that leave the relations alone\<close>

named_theorems frame_intros \<open>operations that touch neither links nor columns\<close>

lemma frame_admin: "(\<And>d. frame d (snd (h d))) \<Longrightarrow> frame d (snd (admin_only u h d))"
  by (simp add: admin_only_def)

lemma frame_comp [intro]: "frame d d1 \<Longrightarrow> frame d (touch_ticket now i d1)" "frame d d1 \<Longrightarrow> frame d (put_mail m d1)"
  "frame d d1 \<Longrightarrow> frame d (add_message w i ty a c s d1)" "frame d d1 \<Longrightarrow> frame d (d1\<lparr>td_mails := ms\<rparr>)"
  "frame d d1 \<Longrightarrow> frame d (d1\<lparr>td_proposals := ps\<rparr>)" "frame d d1 \<Longrightarrow> frame d (add_tags i gs d1)"
  "frame d d1 \<Longrightarrow> frame d (d1\<lparr>td_messages := xs\<rparr>)"
  by (rule frame_trans, assumption, simp)+

lemma frame_post [frame_intros]: "frame d (snd (postMessage now u i content ty d))"
  by (auto simp: postMessage_def Let_def split: sum.splits)

lemma frame_send [frame_intros]: "frame d (snd (sendByMail now u i m d))"
  unfolding sendByMail_def by (rule frame_admin) (auto simp: Let_def split: sum.splits option.splits)

lemma frame_retry [frame_intros]: "frame d (snd (retrySend now u i m d))"
  by (auto simp: retrySend_def Let_def split: sum.splits option.splits)

lemma frame_delete_suggestion [frame_intros]: "frame d (snd (deleteSuggestion u i m d))"
  by (auto simp: deleteSuggestion_def Let_def split: sum.splits)

lemma frame_suggest [frame_intros]: "frame d (snd (aiSuggest gen now u i d))"
  unfolding aiSuggest_def by (rule frame_admin) (auto simp: Let_def split: sum.splits option.splits)

lemma frame_two [simp]:
  "frame d (d\<lparr>td_labels := l, td_next := Suc (td_next d)\<rparr>)" "frame d (d\<lparr>td_proposals := ps, td_next := Suc (td_next d)\<rparr>)"
  "frame d (d\<lparr>td_labels := l, td_tags := ts\<rparr>)"
  by (simp_all add: frame_def list_all2_same)

lemma frame_create_tag [frame_intros]: "frame d (snd (createTag u name color d))"
  unfolding createTag_def by (rule frame_admin) (auto simp: Let_def)

lemma frame_delete_tag [frame_intros]: "frame d (snd (deleteTag u g d))"
  unfolding deleteTag_def by (rule frame_admin) auto

lemma frame_tag [frame_intros]: "frame d (snd (tagTicket now u i tg d))"
  unfolding tagTicket_def by (rule frame_admin) (auto split: option.splits)

lemma frame_untag [frame_intros]: "frame d (snd (untagTicket now u i g d))"
  unfolding untagTicket_def by (rule frame_admin) auto

lemma frame_event [frame_intros]: "frame d (snd (attachSystemEvent now v author text d))"
proof -
  have "frame d0 (foldl (\<lambda>d1 t. add_message now (tk_id t) ty a c s d1) d0 ts)" for d0 :: tdb and ty a c s and ts :: "ticket list"
  proof (induction ts arbitrary: d0)
    case (Cons t ts)
    show ?case using frame_trans [OF frame_add_message Cons.IH] by simp
  qed simp
  then show ?thesis by (simp add: attachSystemEvent_def Let_def)
qed

lemma frame_propose [frame_intros]: "frame d (snd (createProposal u np d))"
  unfolding createProposal_def by (rule frame_admin) (auto simp: Let_def)

lemma frame_reject [frame_intros]: "frame d (snd (rejectProposal now u p reason d))"
  unfolding rejectProposal_def by (rule frame_admin) (auto simp: Let_def split: option.splits)

lemma frame_append_reply: "frame d (snd (appendReplyToProposal i r d))"
  by (simp add: appendReplyToProposal_def)

lemma frame_commit [frame_intros]: "frame d (snd (commit_mail sha fault now plan d))"
proof -
  have "frame d d2" if "appendReplyToProposal i r d = (b, d2)" for i r b d2
    using frame_append_reply [of d i r] that by simp
  then show ?thesis
    by (auto simp: commit_mail_def Let_def appendMessageToTicket_def split: option.splits prod.splits bool.splits)
qed

lemma frame_commit_sent [frame_intros]: "frame d (snd (commit_sent sha fault now splan d))"
  by (auto simp: commit_sent_def Let_def appendSentMessageToTicket_def)

lemma frame_dismiss [frame_intros]: "frame d (snd (dismissInboxMapping sha now mi whole d))"
  by (auto simp: dismissInboxMapping_def Let_def split: option.splits)

lemma frame_outbox [frame_intros]:
  "frame d (snd (claimForSend now m d))" "frame d (releaseClaim m d)" "frame d (snd (markFailure now m n err d))"
  "frame d (markMapping now mi d)"
  by (auto simp: claimForSend_def releaseClaim_def markFailure_def markMapping_def Let_def split: option.splits)

lemma frame_pour: "frame d (snd (pour_item sha now t x (n, d)))"
proof -
  have "frame d d1" if "claim_item sha now t x d = (b, d1)" for b d1
    using that by (auto simp: claim_item_def Let_def split: option.splits if_splits)
  then show ?thesis by (auto simp: pour_item_def split: prod.splits bool.splits)
qed

lemma frame_append_thread: "frame d (snd (appendThreadToTicket sha now t items d))"
proof -
  have "frame d (snd (foldl (\<lambda>s x. pour_item sha now t x s) (n, d) items))" for n
  proof (induction items arbitrary: n d)
    case (Cons x xs)
    show ?case
      using Cons [of "snd (pour_item sha now t x (n, d))" "fst (pour_item sha now t x (n, d))"] frame_pour [of d sha now t x n]
      by (auto intro: frame_trans)
  qed simp
  then show ?thesis by (auto simp: appendThreadToTicket_def split: prod.splits) (metis frame_comp(1) snd_conv)
qed

section \<open>Steps that change the relations\<close>

lemma frame_next_le: "frame d d' \<Longrightarrow> td_next d \<le> td_next d'"
  by (simp add: frame_def)

lemma touch_inv [intro]: "rel_inv d \<Longrightarrow> rel_inv (touch_ticket now i d)"
  by (erule rel_inv_frame) simp

lemma found_fresh: "rel_inv d \<Longrightarrow> find_ticket d i = Some t \<Longrightarrow> i < td_next d"
  using known_ticket rel_inv_D(6) by blast

lemma inv_admin: "rel_inv d \<Longrightarrow> (\<And>d. rel_inv d \<Longrightarrow> rel_inv (snd (h d))) \<Longrightarrow> rel_inv (snd (admin_only u h d))"
  by (simp add: admin_only_def)

lemma inv_add_user: "rel_inv d \<Longrightarrow> rel_inv (snd (addUser now u i who role d))"
  unfolding addUser_def
  by (erule inv_admin) (auto simp: Let_def intro: rel_inv_sync rel_inv_add_involved found_fresh split: option.splits)

lemma inv_remove_user: "rel_inv d \<Longrightarrow> rel_inv (snd (removeUser now u i e d))"
  unfolding removeUser_def
  by (erule inv_admin) (auto split: prod.splits bool.splits, metis rel_inv_remove_user snd_conv touch_inv)

lemma inv_add_device: "rel_inv d \<Longrightarrow> rel_inv (snd (addDevice now u i dev d))"
  unfolding addDevice_def by (erule inv_admin) (auto intro: rel_inv_add_device found_fresh split: option.splits)

lemma inv_remove_device: "rel_inv d \<Longrightarrow> rel_inv (snd (removeDevice now u i v d))"
  unfolding removeDevice_def
  by (erule inv_admin) (auto split: prod.splits bool.splits, metis rel_inv_remove_device snd_conv touch_inv)

lemma inv_merge: "rel_inv d \<Longrightarrow> rel_inv (snd (mergeTicket now u i target d))"
  unfolding mergeTicket_def by (erule inv_admin) (auto intro: rel_inv_merge split: option.splits sum.splits)

lemma truthy_or_null: "or_null s = None \<or> truthy (or_null s)"
  by (simp add: or_null_def truthy_def)

lemma add_tags_rows [simp]:
  "td_tickets (add_tags i gs d) = td_tickets d" "td_users (add_tags i gs d) = td_users d" "td_devices (add_tags i gs d) = td_devices d"
  "td_accounts (add_tags i gs d) = td_accounts d" "td_next (add_tags i gs d) = td_next d" "td_messages (add_tags i gs d) = td_messages d"
  "td_mails (add_tags i gs d) = td_mails d" "td_proposals (add_tags i gs d) = td_proposals d"
  by (simp_all add: add_tags_def)

lemma insert_ticket_rows:
  assumes "insert_ticket now title desc prio dev usr src auto creator creator_name d = (t, d1)"
  shows "td_tickets d1 = td_tickets d @ [t]" "td_users d1 = td_users d" "td_devices d1 = td_devices d" "td_accounts d1 = td_accounts d"
    "td_next d1 = Suc (td_next d)" "tk_id t = td_next d" "td_messages d1 = td_messages d" "td_mails d1 = td_mails d"
    "tk_user t = usr" "tk_device t = dev" "tk_merged_into t = None" "td_proposals d1 = td_proposals d"
  using assms by (auto simp: insert_ticket_def Let_def)

lemma inv_create:
  assumes inv: "rel_inv d" shows "rel_inv (snd (createTicket now u nt d))"
proof (cases "new_ticket_guard d u nt")
  case None
  define src where "src = the (or_else (nt_source nt) (Some ''manual''))"
  obtain t0 d0 where ins: "insert_ticket now (the (nt_title nt)) (or_null (nt_desc nt)) (the (or_else (nt_priority nt) (Some ''normal'')))
      (nt_device nt) (or_null (nt_user nt)) src (src = ''auto'') (Some (id_entra u)) (Some (id_name u)) d = (t0, d0)"
    by fastforce
  let ?t = "t0\<lparr>tk_assigned := or_null (nt_assigned nt), tk_assigned_name := or_null (nt_assigned_name nt)\<rparr>"
  let ?d2 = "add_tags (tk_id ?t) (nt_tags nt) (set_ticket (tk_id ?t) (\<lambda>_. ?t) d0)"
  note rows = insert_ticket_rows [OF ins]
  have fresh: "update_rows (\<lambda>x. tk_id x = td_next d) f (td_tickets d) = td_tickets d" for f
  proof (rule update_rows_none)
    fix x assume "x \<in> set (td_tickets d)"
    from rel_inv_D(6) [OF inv this] show "tk_id x \<noteq> td_next d" by simp
  qed
  have "rel_inv (link_new_ticket now t0 ?d2)"
    by (rule insert_link_inv [OF inv ins truthy_or_null, where t' = ?t])
      (simp_all add: rows td_tickets_set_ticket fresh same_columns_def)
  moreover have "link_new_ticket now ?t ?d2 = link_new_ticket now t0 ?d2" by (simp add: link_new_ticket_def Let_def cong: option.case_cong)
  ultimately show ?thesis
    using None by (simp add: createTicket_def Let_def ins [unfolded src_def] src_def)
qed (use inv in \<open>simp add: createTicket_def\<close>)

text \<open>
  The modification writes the columns first and the links after; whatever the columns are in
  between, they agree with the links in the end.
\<close>

lemma update_rows_twice:
  assumes "\<And>x. P x \<Longrightarrow> P (f x)" shows "update_rows P g (update_rows P f xs) = update_rows P (\<lambda>x. g (f x)) xs"
  using assms by (auto simp: update_rows_def)

lemma status_message_rows [simp]:
  "td_tickets (status_message now i who new old d) = td_tickets d" "td_users (status_message now i who new old d) = td_users d"
  "td_devices (status_message now i who new old d) = td_devices d" "td_accounts (status_message now i who new old d) = td_accounts d"
  by (simp_all add: status_message_def add_message_def split: option.splits)

lemma frame_status: "frame d (status_message now i who new old d)"
  by (simp add: status_message_def split: option.splits)

lemma inv_patch:
  assumes inv: "rel_inv d" shows "rel_inv (snd (patchTicket now u i pt d))"
proof -
  {
    fix t assume t: "find_ticket d i = Some t"
    let ?t' = "apply_patch now pt t"
    let ?new = "or_null (the (pt_user pt))"
    let ?t2 = "if pt_user pt = None then ?t' else ?t'\<lparr>tk_user := (if truthy ?new then ?new else None)\<rparr>"
    let ?us = "if pt_user pt = None then td_users d else sync_users now i ?new (td_users d)"
    let ?vs = "case pt_device pt of Some (Some v) \<Rightarrow> put_device now i v (td_devices d) | _ \<Rightarrow> td_devices d"
    let ?d1 = "set_ticket i (\<lambda>_. ?t') d"
    let ?d2 = "case pt_user pt of None \<Rightarrow> ?d1 | Some new \<Rightarrow> syncRequester now i (or_null new) ?d1"
    let ?d3 = "case pt_device pt of Some (Some v) \<Rightarrow> addDeviceToTicket now i v ?d2 | _ \<Rightarrow> ?d2"
    have id: "tk_id ?t' = i" "tk_merged_into ?t' = tk_merged_into t" "t \<in> set (td_tickets d)" "tk_id t = i"
      using known_ticket [OF t] by (auto simp: apply_patch_def)
    have i: "i < td_next d" by (rule found_fresh [OF inv t])
    have only: "x = t" if "x \<in> set (td_tickets d)" "tk_id x = i" for x
      using that id rel_inv_D(9) [OF inv] by (auto simp: distinct_map inj_on_def)
    have rows: "td_users ?d3 = ?us" "td_devices ?d3 = ?vs" "td_accounts ?d3 = td_accounts d" "td_next ?d3 = td_next d"
      by (auto simp: syncRequester_alt addDeviceToTicket_def split: option.splits)
    have dev: "pt_device pt = Some (Some v) \<Longrightarrow> tk_device ?t' = Some v" for v by (simp add: apply_patch_def)
    have "td_tickets ?d2 = update_rows (\<lambda>x. tk_id x = i) (\<lambda>_. ?t2) (td_tickets d)"
      by (simp add: syncRequester_alt td_tickets_set_ticket update_rows_twice id split: option.splits)
    then have tickets: "td_tickets ?d3 = update_rows (\<lambda>x. tk_id x = i) (\<lambda>_. ?t2) (td_tickets d)"
      by (auto simp: addDeviceToTicket_def td_tickets_set_ticket update_rows_twice id dev split: option.splits)
    have "rel_inv ?d3"
    proof (rule rel_inv_links [OF inv tickets rows(3,4)])
      show "distinct (map user_key (td_users ?d3))" "distinct (map device_key (td_devices ?d3))"
        unfolding rows using rel_inv_D(1,3) [OF inv]
        by (auto simp: sync_users_def Let_def distinct_filter_keys intro: user_keys_put device_keys_put split: option.splits)
      show "\<forall>r \<in> set (td_users ?d3). tu_ticket r < td_next d" "\<forall>r \<in> set (td_devices ?d3). tv_ticket r < td_next d"
        unfolding rows using inv i
        by (fastforce simp: rel_inv_def sync_users_def Let_def dest!: put_ticket_ids split: option.splits if_splits)+
      show "j \<noteq> i \<Longrightarrow> requesters (td_users ?d3) j = requesters (td_users d) j \<and> machines (td_devices d) j = machines (td_devices ?d3) j" for j
        unfolding rows by (auto simp: requesters_sync rel_simps split: option.splits)
      show "\<forall>x \<in> requesters (td_users ?d3) i. \<forall>y \<in> requesters (td_users ?d3) i. x = y"
        unfolding rows using rel_inv_D(7) [OF inv] by (auto simp: requesters_sync)
      fix x assume x: "x \<in> set (td_tickets d)" "tk_id x = i"
      show "tk_id ?t2 = i" using id by simp
      show "tk_merged_into ?t2 = None \<Longrightarrow> tk_merged_into x = None" using id only [OF x] by (simp split: if_splits)
      assume "tk_merged_into ?t2 = None" "requesters (td_users d) i = set_option (tk_user x)"
        "set_option (tk_device x) \<subseteq> machines (td_devices d) i"
      then show "requesters (td_users ?d3) i = set_option (tk_user ?t2) \<and> set_option (tk_device ?t2) \<subseteq> machines (td_devices ?d3) i"
        unfolding rows only [OF x]
        by (auto simp: requesters_sync rel_simps apply_patch_def truthy_def or_else_def split: option.splits if_splits)
    qed
    then have "rel_inv (status_message now i (id_name u) (pt_status pt) (tk_status t) ?d3)"
      by (rule rel_inv_frame [OF _ frame_status])
  }
  then show ?thesis using inv by (auto simp: patchTicket_def Let_def split: sum.splits option.splits)
qed

lemma link_rows [simp]:
  "td_next (link_new_ticket now t d) = td_next d" "td_accounts (link_new_ticket now t d) = td_accounts d"
  "td_messages (link_new_ticket now t d) = td_messages d" "td_mails (link_new_ticket now t d) = td_mails d"
  by (simp_all add: link_new_ticket_def syncRequester_alt addDeviceToTicket_def Let_def split: option.splits)

lemma frame_insert_messages: "frame d (insert_mail_messages now i ms d)"
  unfolding insert_mail_messages_def
proof (induction ms arbitrary: d)
  case (Cons m ms)
  obtain a c w where "m = (a, c, w)" by (cases m) auto
  then show ?case using frame_trans [OF frame_add_message Cons.IH] by simp
qed simp

lemma inv_accept:
  assumes inv: "rel_inv d" shows "rel_inv (snd (acceptProposal fmt now u p ab d))"
  unfolding acceptProposal_def
proof (rule inv_admin [OF inv])
  fix d :: tdb assume inv: "rel_inv d"
  have made: "rel_inv ((add_tags g tags (insert_mail_messages now k ms (link_new_ticket now t d1)))
      \<lparr>td_proposals := ps, td_mails := mls\<rparr>)"
    if "insert_ticket now title desc prio dev (or_null usr) src auto creator creator_name d = (t, d1)"
    for title desc prio dev usr src auto creator creator_name t d1 g tags k ms ps mls
  proof -
    note rows = insert_ticket_rows [OF that]
    have "rel_inv (link_new_ticket now t d1)"
      by (rule insert_link_inv [OF inv that truthy_or_null, where t' = t]) (simp_all add: rows)
    moreover have "frame (link_new_ticket now t d1) ((add_tags g tags (insert_mail_messages now k ms (link_new_ticket now t d1)))
      \<lparr>td_proposals := ps, td_mails := mls\<rparr>)"
      by (intro frame_comp frame_insert_messages)
    ultimately show ?thesis by (rule rel_inv_frame)
  qed
  show "rel_inv (snd (case find (\<lambda>x. pp_id x = p) (td_proposals d) of None \<Rightarrow> (Inl Proposal_not_found, d)
      | Some q \<Rightarrow>
          let title = js_trim (or_else (ab_title ab) (pp_title q));
              priority = or_else (ab_priority ab) (pp_priority q);
              dev = first_some (ab_device ab) (pp_device q);
              usr = first_some (ab_user ab) (pp_user q);
              is_mail = (pp_source q = ''email'' \<and> ab_desc ab = None);
              desc = (if is_mail then Some (mail_description fmt (sender_name (pp_payload q)) (pl_received (pp_payload q)))
                      else first_some (or_else (ab_desc ab) None) (pp_desc q))
          in if pp_status q \<noteq> ''pending'' then (Inl (Proposal_handled (pp_status q)), d)
             else if title = [] then (Inl Title_required, d)
             else if priority \<notin> set ALLOWED_PRIORITES then (Inl Bad_priority, d)
             else
               let (t, d1) = insert_ticket now title (or_null desc) priority dev (or_null usr) (pp_source q) True
                               (Some (id_entra u)) (Some (id_name u)) d;
                   d2 = link_new_ticket now t d1;
                   d3 = insert_mail_messages now (tk_id t) (if is_mail then proposal_messages q else []) d2;
                   d4 = add_tags (tk_id t) (ab_tags ab) d3;
                   d5 = d4\<lparr>td_proposals := update_rows (\<lambda>x. pp_id x = p)
                          (\<lambda>x. x\<lparr>pp_status := ''accepted'', pp_ticket := Some (tk_id t), pp_reviewer := Some (id_entra u),
                                 pp_reviewer_name := Some (id_name u), pp_reviewed_at := Some now\<rparr>) (td_proposals d4)\<rparr>
               in (Inr t, d5\<lparr>td_mails := update_rows (\<lambda>m. mp_proposal m = Some p)
                                (\<lambda>m. m\<lparr>mp_ticket := Some (tk_id t)\<rparr>) (td_mails d5)\<rparr>)))"
    by (simp only: Let_def split: option.splits prod.splits if_splits)
      (auto simp: inv intro: made)
qed

lemma sender_known: "matchSender d a = Some s \<Longrightarrow> sm_account s \<in> set (td_accounts d)"
  by (auto simp: matchSender_def Let_def find_Some_iff split: if_splits option.splits)

lemma thread_senders_known: "s \<in> set (thread_senders d box seen xs) \<Longrightarrow> sm_account (fst s) \<in> set (td_accounts d)"
  by (induction d box seen xs rule: thread_senders.induct) (auto simp: Let_def sender_known split: if_splits option.splits)

lemma requester_known: "requester_of_thread m ss = Some s \<Longrightarrow> s \<in> set ss"
  by (auto simp: requester_of_thread_def find_Some_iff split: option.splits list.splits)

lemma inv_fold_involved:
  assumes "rel_inv d" "i < td_next d"
  shows "rel_inv (foldl (\<lambda>d s. addInvolvedUser now i (f s) d) d ss)"
    and "rel_inv (foldl (\<lambda>d s. if P s then d else addInvolvedUser now i (f s) d) d ss)"
proof -
  have next_eq: "td_next (addInvolvedUser now i e x) = td_next x" for e x by (simp add: addInvolvedUser_def)
  show "rel_inv (foldl (\<lambda>d s. addInvolvedUser now i (f s) d) d ss)"
    using assms by (induction ss arbitrary: d) (simp_all add: rel_inv_add_involved next_eq)
  show "rel_inv (foldl (\<lambda>d s. if P s then d else addInvolvedUser now i (f s) d) d ss)"
    using assms by (induction ss arbitrary: d) (simp_all add: rel_inv_add_involved next_eq)
qed

lemma frame_append_rows:
  assumes "appendThreadToTicket sha now t items d = (n, d1)"
  shows "frame d d1"
  using frame_append_thread [of d sha now t items] assms by simp

lemma tickets_pour: "td_tickets (snd (pour_item sha now t x s)) = td_tickets (snd s)"
  by (auto simp: pour_item_def claim_item_def put_mail_def add_message_def Let_def split: option.splits prod.splits bool.splits if_splits)

lemma tickets_append_thread:
  assumes "appendThreadToTicket sha now t items d = (n, d1)"
  shows "td_tickets d1 = update_rows (\<lambda>x. tk_id x = t) (\<lambda>x. x\<lparr>tk_updated_at := now\<rparr>) (td_tickets d)"
proof -
  have "td_tickets (snd (foldl (\<lambda>s x. pour_item sha now t x s) s items)) = td_tickets (snd s)" for s
    by (induction items arbitrary: s) (simp_all add: tickets_pour)
  from this [of "(0, d)"] show ?thesis
    using assms by (auto simp: appendThreadToTicket_def touch_ticket_def td_tickets_set_ticket split: prod.splits)
qed

lemma update_rows_last:
  assumes inv: "rel_inv d"
  shows "update_rows (\<lambda>x. tk_id x = td_next d) f (td_tickets d) = td_tickets d"
proof (rule update_rows_none)
  fix x assume "x \<in> set (td_tickets d)"
  from rel_inv_D(6) [OF inv this] show "tk_id x \<noteq> td_next d" by simp
qed

lemma inv_to_ticket:
  assumes inv: "rel_inv d"
  shows "rel_inv (snd (createTicketFromMapping sha ls gm fmt now mi who who_name prep d))"
proof (cases "lockMapping d mi")
  case (Inr m)
  define items where "items = assembleThread sha ls gm m prep d"
  define senders where "senders = matchThreadSenders d items (mp_mailbox m)"
  define req where "req = requester_of_thread m senders"
  obtain t d1 where ins: "insert_ticket now (take 200 (cleanSubject (mp_subject m))) (Some (thread_description fmt m items)) ''normal''
      (Option.bind req (\<lambda>s. map_option mc_id (sm_machine (fst s)))) (map_option sender_entra req) ''email'' True who who_name d = (t, d1)"
    by fastforce
  obtain n d2 where app: "appendThreadToTicket sha now (tk_id t) items d1 = (n, d2)" by fastforce
  note rows = insert_ticket_rows [OF ins]
  have usr: "map_option sender_entra req = None \<or> truthy (map_option sender_entra req)"
  proof (cases req)
    case (Some s)
    then have "sm_account (fst s) \<in> set (td_accounts d)"
      using requester_known [of m senders s] thread_senders_known [of s d] by (auto simp: req_def senders_def matchThreadSenders_def)
    then have "sender_entra s \<noteq> []" using rel_inv_D(8) [OF inv] by (simp add: sender_entra_def)
    then show ?thesis using Some by (simp add: truthy_def)
  qed simp
  have fr: "frame d1 d2" by (rule frame_append_rows [OF app])
  have t': "td_tickets d2 = td_tickets d @ [t\<lparr>tk_updated_at := now\<rparr>]"
    using tickets_append_thread [OF app] by (simp add: rows update_rows_last [OF inv])
  have linked: "rel_inv (link_new_ticket now t d2)"
    by (rule insert_link_inv [OF inv ins usr t']) (use fr rows in \<open>auto simp: frame_def same_columns_def\<close>)
  have "tk_id t < td_next (link_new_ticket now t d2)" using frame_next_le [OF fr] by (simp add: rows)
  from inv_fold_involved(2) [OF linked this]
  have "rel_inv (foldl (\<lambda>d4 s. if Some s = req then d4 else addInvolvedUser now (tk_id t) (sender_entra s) d4)
      (link_new_ticket now t d2) senders)" .
  then show ?thesis
    by (simp add: createTicketFromMapping_def Inr Let_def items_def [symmetric] senders_def [symmetric] req_def [symmetric] ins app)
qed (use inv in \<open>simp add: createTicketFromMapping_def\<close>)

lemma inv_attach:
  assumes inv: "rel_inv d" shows "rel_inv (snd (attachMappingToTicket sha ls gm now mi i prep d))"
proof -
  {
    fix items senders n d1 t
    assume app: "appendThreadToTicket sha now i items d = (n, d1)" and t: "find_ticket d i = Some t"
    have inv1: "rel_inv d1" by (rule rel_inv_frame [OF inv frame_append_rows [OF app]])
    have i: "i < td_next d1" using found_fresh [OF inv t] frame_next_le [OF frame_append_rows [OF app]] by simp
    have "frame d1 (set_ticket i (reopen now) d1)" by (rule frame_set_ticket) (simp add: same_columns_def reopen_def)
    then have fr: "frame d1 (add_message now i ty a c None (set_ticket i (reopen now) d1))" for ty a c
      by (rule frame_comp)
    have "rel_inv (foldl (\<lambda>d3 s. addInvolvedUser now i (sender_entra s) d3) d1 senders)"
      "rel_inv (foldl (\<lambda>d3 s. addInvolvedUser now i (sender_entra s) d3)
         (add_message now i ty a c None (set_ticket i (reopen now) d1)) senders)" for ty a c
      using inv_fold_involved(1) [OF inv1 i] inv_fold_involved(1) [OF rel_inv_frame [OF inv1 fr]] frame_next_le [OF fr] i
      by (blast intro: less_le_trans)+
  }
  then show ?thesis using inv by (auto simp: attachMappingToTicket_def Let_def split: sum.splits option.splits prod.splits)
qed

section \<open>The invariant along the runs\<close>

lemmas inv_intros = inv_create inv_patch inv_add_user inv_remove_user inv_add_device inv_remove_device inv_merge inv_accept
  inv_to_ticket inv_attach

lemma ticket_step_inv: "ticket_step d d' \<Longrightarrow> rel_inv d \<Longrightarrow> rel_inv d'"
  by (induction rule: ticket_step.induct) (blast intro: inv_intros rel_inv_frame frame_intros)+

text \<open>
  C16: Whatever the routes, the proposals, the mail pipelines, the inbox, the outbox and the
  system events do, in any order and from an empty base or any base where it held, the relations
  of the tickets stay consistent: keys are unique, a ticket has at most one requester, and for
  every ticket that was never merged into another the column \<open>user_id\<close> is exactly its
  requester and \<open>device_id\<close>, when set, one of its devices.
\<close>

theorem relations_invariant:
  assumes "rel_inv d" and "reachable d d'"
  shows "rel_inv d'"
  using assms(2,1) unfolding reachable_def
  by (induction rule: rtranclp_induct) (auto intro: ticket_step_inv)

section \<open>A small base\<close>

definition sample_account :: "entra \<Rightarrow> jsstring \<Rightarrow> bool \<Rightarrow> account" where
  "sample_account e mail admin =
     \<lparr>ac_entra = e, ac_email = Some mail, ac_name = Some e, ac_admin = admin, ac_job = None, ac_department = None\<rparr>"

definition sample_tdb :: tdb where
  "sample_tdb = empty_tdb\<lparr>td_accounts := [sample_account ''ada'' ''ada@x.org'' True, sample_account ''bob'' ''bob@x.org'' False,
      sample_account ''eve'' ''eve@x.org'' False],
     td_machines := [\<lparr>mc_id = 0, mc_hostname = ''pc-bob'', mc_owner = Some ''bob'', mc_last_seen = Some 5, mc_os = None, mc_model = None\<rparr>],
     td_next := 1\<rparr>"

definition ada :: identity where "ada = \<lparr>id_entra = ''ada'', id_name = ''Ada''\<rparr>"
definition bob :: identity where "bob = \<lparr>id_entra = ''bob'', id_name = ''Bob''\<rparr>"

definition sample_ticket :: "jsstring \<Rightarrow> jsstring option \<Rightarrow> new_ticket" where
  "sample_ticket title usr =
     \<lparr>nt_title = Some title, nt_desc = None, nt_priority = None, nt_device = None, nt_source = None, nt_assigned = None,
      nt_assigned_name = None, nt_user = usr, nt_tags = []\<rparr>"

definition no_patch :: ticket_patch where
  "no_patch = \<lparr>pt_status = None, pt_priority = None, pt_title = None, pt_desc = None, pt_assigned = None,
     pt_assigned_name = None, pt_user = None, pt_device = None\<rparr>"

text \<open>Two tickets, 1 of Bob and 2 without a requester.\<close>

definition two_tickets :: tdb where
  "two_tickets = snd (createTicket 20 ada (sample_ticket ''Screen'' None)
     (snd (createTicket 10 bob (sample_ticket ''Mouse'' (Some ''bob'')) sample_tdb)))"

lemma sample_inv: "rel_inv sample_tdb"
  by (simp add: rel_inv_def sample_tdb_def empty_tdb_def sample_account_def requesters_def)

lemma reachable_two: "reachable sample_tdb two_tickets"
proof -
  have "ticket_step sample_tdb (snd (createTicket 10 bob (sample_ticket ''Mouse'' (Some ''bob'')) sample_tdb))"
    by (rule ticket_step.Create)
  moreover have "ticket_step (snd (createTicket 10 bob (sample_ticket ''Mouse'' (Some ''bob'')) sample_tdb)) two_tickets"
    unfolding two_tickets_def by (rule ticket_step.Create)
  ultimately show ?thesis unfolding reachable_def by (rule converse_rtranclp_into_rtranclp [OF _ r_into_rtranclp])
qed

theorem relations_invariant_witness:
  "rel_inv two_tickets \<and> requesters (td_users two_tickets) 1 = {''bob''} \<and> length (td_tickets two_tickets) = 2"
proof (intro conjI)
  show "rel_inv two_tickets" by (rule relations_invariant [OF sample_inv reachable_two])
  show "requesters (td_users two_tickets) 1 = {''bob''}" "length (td_tickets two_tickets) = 2" by code_simp+
qed

end
