(* ===== verification/MergeSafety.thy ===== *)
theory MergeSafety imports TicketMachine begin

text \<open>
  What the merge of two tickets moves, keeps and loses (\<open>tickets/lib/relations.js\<close>).
\<close>

section \<open>What a merge does\<close>

lemma messages_merge:
  assumes "src \<noteq> tgt"
  shows "filter (\<lambda>m. ms_ticket m = tgt) (update_rows (\<lambda>m. ms_ticket m = src) (\<lambda>m. m\<lparr>ms_ticket := tgt\<rparr>) ms) =
      map (\<lambda>m. m\<lparr>ms_ticket := tgt\<rparr>) (filter (\<lambda>m. ms_ticket m \<in> {src, tgt}) ms)"
    and "filter (\<lambda>m. ms_ticket m = src) (update_rows (\<lambda>m. ms_ticket m = src) (\<lambda>m. m\<lparr>ms_ticket := tgt\<rparr>) ms) = []"
    and "j \<notin> {src, tgt} \<Longrightarrow> filter (\<lambda>m. ms_ticket m = j) (update_rows (\<lambda>m. ms_ticket m = src) (\<lambda>m. m\<lparr>ms_ticket := tgt\<rparr>) ms) =
      filter (\<lambda>m. ms_ticket m = j) ms"
  using assms by (induction ms) auto

lemma mails_merge:
  assumes "src \<noteq> tgt"
  shows "filter (\<lambda>m. mp_ticket m = Some tgt) (update_rows (\<lambda>m. mp_ticket m = Some src) (\<lambda>m. m\<lparr>mp_ticket := Some tgt\<rparr>) ms) =
      map (\<lambda>m. m\<lparr>mp_ticket := Some tgt\<rparr>) (filter (\<lambda>m. mp_ticket m \<in> {Some src, Some tgt}) ms)"
    and "filter (\<lambda>m. mp_ticket m = Some src) (update_rows (\<lambda>m. mp_ticket m = Some src) (\<lambda>m. m\<lparr>mp_ticket := Some tgt\<rparr>) ms) = []"
    and "j \<notin> {src, tgt} \<Longrightarrow> filter (\<lambda>m. mp_ticket m = Some j)
        (update_rows (\<lambda>m. mp_ticket m = Some src) (\<lambda>m. m\<lparr>mp_ticket := Some tgt\<rparr>) ms) = filter (\<lambda>m. mp_ticket m = Some j) ms"
  using assms by (induction ms) auto

lemma people_drop_ticket: "people (filter (\<lambda>r. tu_ticket r \<noteq> s) rs) j = (if j = s then {} else people rs j)"
  by (auto simp: people_def)

lemma people_merge_users:
  "people (td_users (merge_users now src tgt d)) j =
     people (td_users d) j \<union> (if j = tgt then people (td_users d) src else {})"
proof -
  have "tu_user ` set (filter (\<lambda>r. tu_ticket r = src) (td_users d)) = people (td_users d) src" by (simp add: people_def)
  then show ?thesis by (simp add: merge_users_def Let_def fold_put_people split: option.splits)
qed

lemma machines_merge_devices:
  assumes "src \<noteq> tgt"
  shows "machines (td_devices (merge_devices now src tgt d)) j =
     (if j = src then {} else machines (td_devices d) j \<union> (if j = tgt then machines (td_devices d) src else {}))"
proof -
  have "tv_device ` set (devices_of src d) = machines (td_devices d) src" by (simp add: devices_of_def machines_def)
  then show ?thesis using assms by (simp add: merge_devices_def Let_def machines_drop_ticket fold_put_machines)
qed

lemma find_ticket_set:
  assumes "\<And>t. tk_id (f t) = tk_id t"
  shows "find_ticket (set_ticket i f d) j = map_option (\<lambda>t. if tk_id t = i then f t else t) (find_ticket d j)"
  unfolding find_ticket_def td_tickets_set_ticket by (rule find_update_rows) (simp add: assms)

lemma find_ticket_id: "find_ticket d j = Some t \<Longrightarrow> tk_id t = j"
  by (auto simp: find_ticket_def find_Some_iff)

lemma find_set_other:
  assumes "\<And>t. tk_id (f t) = tk_id t" "i \<noteq> j" shows "find_ticket (set_ticket i f d) j = find_ticket d j"
proof (cases "find_ticket d j")
  case (Some t)
  then show ?thesis using assms find_ticket_id [OF Some] by (simp add: find_ticket_set)
qed (use assms in \<open>simp add: find_ticket_set\<close>)

lemma find_rows [simp]:
  "find_ticket (d\<lparr>td_users := us\<rparr>) j = find_ticket d j" "find_ticket (d\<lparr>td_devices := vs\<rparr>) j = find_ticket d j"
  "find_ticket (d\<lparr>td_messages := ms\<rparr>) j = find_ticket d j" "find_ticket (d\<lparr>td_mails := ps\<rparr>) j = find_ticket d j"
  "find_ticket (add_message w i ty a c s d) j = find_ticket d j"
  by (simp_all add: find_ticket_def add_message_def)

lemma find_merge_users: "j \<noteq> tgt \<Longrightarrow> find_ticket (merge_users now src tgt d) j = find_ticket d j"
  by (auto simp: merge_users_def Let_def find_set_other split: option.splits)

lemma find_merge_devices: "j \<noteq> tgt \<Longrightarrow> find_ticket (merge_devices now src tgt d) j = find_ticket d j"
  by (simp add: merge_devices_def Let_def find_set_other)

lemma merge_kept_rows:
  "td_attachments (merge_tail now src tgt d) = td_attachments d" "td_tags (merge_tail now src tgt d) = td_tags d"
  "td_messages (merge_tail now src tgt d) = td_messages d" "td_proposals (merge_tail now src tgt d) = td_proposals d"
  by (simp_all add: merge_tail_def merge_users_def merge_devices_def Let_def set_ticket_def split: option.splits)

lemma merge_tail_tables:
  assumes "src \<noteq> tgt"
  shows "people (td_users (merge_tail now src tgt d)) j =
      (if j = src then {} else people (td_users d) j \<union> (if j = tgt then people (td_users d) src else {}))"
    and "machines (td_devices (merge_tail now src tgt d)) j =
      (if j = src then {} else machines (td_devices d) j \<union> (if j = tgt then machines (td_devices d) src else {}))"
    and "td_mails (merge_tail now src tgt d) =
      update_rows (\<lambda>m. mp_ticket m = Some src) (\<lambda>m. m\<lparr>mp_ticket := Some tgt\<rparr>) (td_mails d)"
    and "j \<noteq> tgt \<Longrightarrow> find_ticket (merge_tail now src tgt d) j = find_ticket d j"
  using assms
  by (simp_all add: merge_tail_def Let_def people_drop_ticket people_merge_users machines_merge_devices
      find_merge_users find_merge_devices)

text \<open>
  C17: A merge moves everything that belongs to the source: the messages of both tickets, in their
  order and followed by the note of the merge, are those of the target, and so are the mails; the
  people and the devices of the target become the union of both; the source keeps none of them,
  has the status \<open>merged\<close> and names its target. Every other ticket, its messages, mails,
  people and devices are untouched, and so are all attachments and tags.
\<close>

theorem merge_moves_everything:
  assumes "mergeTicketInto now src tgt who d = Inr d'"
  shows "(\<exists>note. messages_of d' tgt =
            map (\<lambda>m. m\<lparr>ms_ticket := tgt\<rparr>) (filter (\<lambda>m. ms_ticket m \<in> {src, tgt}) (td_messages d)) @ [note] \<and>
            ms_type note = ''system'' \<and> ms_content note = merge_note src) \<and>
         messages_of d' src = [] \<and>
         filter (\<lambda>m. mp_ticket m = Some tgt) (td_mails d') =
            map (\<lambda>m. m\<lparr>mp_ticket := Some tgt\<rparr>) (filter (\<lambda>m. mp_ticket m \<in> {Some src, Some tgt}) (td_mails d)) \<and>
         filter (\<lambda>m. mp_ticket m = Some src) (td_mails d') = [] \<and>
         people (td_users d') tgt = people (td_users d) tgt \<union> people (td_users d) src \<and> people (td_users d') src = {} \<and>
         machines (td_devices d') tgt = machines (td_devices d) tgt \<union> machines (td_devices d) src \<and>
         machines (td_devices d') src = {} \<and>
         map_option tk_status (find_ticket d' src) = Some ''merged'' \<and>
         map_option tk_merged_into (find_ticket d' src) = Some (Some tgt) \<and>
         (\<forall>j. j \<notin> {src, tgt} \<longrightarrow> find_ticket d' j = find_ticket d j \<and> messages_of d' j = messages_of d j \<and>
              filter (\<lambda>m. mp_ticket m = Some j) (td_mails d') = filter (\<lambda>m. mp_ticket m = Some j) (td_mails d) \<and>
              people (td_users d') j = people (td_users d) j \<and> machines (td_devices d') j = machines (td_devices d) j) \<and>
         td_attachments d' = td_attachments d \<and> td_tags d' = td_tags d"
proof -
  from assms obtain s where st: "src \<noteq> tgt" and s: "find_ticket d src = Some s"
    and d': "d' = touch_ticket now tgt (mark_merged now src tgt (merge_tail now src tgt (merge_messages now src tgt who d)))"
    by (auto simp: mergeTicketInto_alt)
  let ?m = "merge_messages now src tgt who d"
  let ?note = "\<lparr>ms_id = td_next d, ms_ticket = tgt, ms_type = ''system'', ms_author = (if truthy who then the who else SYSTEME),
      ms_content = merge_note src, ms_created_at = now, ms_sent_at = Some now, ms_attempts = 0, ms_error = None, ms_failed_at = None\<rparr>"
  have rows: "td_messages ?m = update_rows (\<lambda>m. ms_ticket m = src) (\<lambda>m. m\<lparr>ms_ticket := tgt\<rparr>) (td_messages d @ [?note])"
    "td_users ?m = td_users d" "td_devices ?m = td_devices d" "td_mails ?m = td_mails d" "td_tags ?m = td_tags d"
    "td_attachments ?m = td_attachments d" "find_ticket ?m j = find_ticket d j" for j
    by (simp_all add: merge_messages_def add_message_def Let_def find_ticket_def)
  have keep: "td_messages d' = td_messages ?m" "td_users d' = td_users (merge_tail now src tgt ?m)"
    "td_devices d' = td_devices (merge_tail now src tgt ?m)" "td_mails d' = td_mails (merge_tail now src tgt ?m)"
    "td_attachments d' = td_attachments d" "td_tags d' = td_tags d"
    by (simp_all add: d' touch_ticket_def mark_merged_def set_ticket_def merge_kept_rows rows)
  have src: "find_ticket d' src = Some (s\<lparr>tk_status := ''merged'', tk_merged_into := Some tgt, tk_updated_at := now\<rparr>)"
    using st find_ticket_id [OF s] by (simp add: d' touch_ticket_def find_set_other mark_merged_def find_ticket_set merge_tail_tables rows s)
  have other: "find_ticket d' j = find_ticket d j" if "j \<notin> {src, tgt}" for j
    using that st by (simp add: d' touch_ticket_def find_set_other mark_merged_def merge_tail_tables rows)
  have msgs: "messages_of d' tgt = map (\<lambda>m. m\<lparr>ms_ticket := tgt\<rparr>) (filter (\<lambda>m. ms_ticket m \<in> {src, tgt}) (td_messages d)) @ [?note]"
    unfolding messages_of_def keep(1) rows(1) messages_merge(1) [OF st] by simp
  have msgs': "messages_of d' src = []" "j \<notin> {src, tgt} \<Longrightarrow> messages_of d' j = messages_of d j" for j
    by (simp_all add: messages_of_def keep(1) rows(1) messages_merge(2,3) [OF st] del: update_rows_append)
  note tables = keep rows src other msgs msgs' merge_tail_tables(1,2) [OF st] merge_tail_tables(3) [OF st] mails_merge [OF st]
  show ?thesis
    by (intro conjI allI impI exI [of _ ?note]) (use st in \<open>simp_all add: tables\<close>)
qed

text \<open>Bob's ticket 1 goes into ticket 2.\<close>

theorem merge_moves_everything_witness:
  "case mergeTicketInto 30 1 2 (Some ''Ada'') two_tickets of
     Inl e \<Rightarrow> False
   | Inr d \<Rightarrow> people (td_users d) 2 = {''bob''} \<and> messages_of d 1 = [] \<and> map_option tk_status (find_ticket d 1) = Some ''merged''"
proof -
  obtain d' where run: "mergeTicketInto 30 1 2 (Some ''Ada'') two_tickets = Inr d'"
  proof -
    have "\<not> isl (mergeTicketInto 30 1 2 (Some ''Ada'') two_tickets)" by code_simp
    then show thesis using that by (cases "mergeTicketInto 30 1 2 (Some ''Ada'') two_tickets") auto
  qed
  have "people (td_users two_tickets) 2 \<union> people (td_users two_tickets) 1 = {''bob''}" by code_simp
  with merge_moves_everything [OF run] run show ?thesis by simp
qed


section \<open>The requester of a merged ticket\<close>

lemma fold_put_requesters:
  assumes "distinct (map tu_user rows)"
  shows "requesters (foldl (\<lambda>rs r. put_user now i (tu_role r) (tu_user r) rs) rs rows) i =
     requesters rs i \<union> (tu_user ` {r \<in> set rows. tu_role r = Requester} - people rs i)"
  using assms
proof (induction rows arbitrary: rs)
  case (Cons r rows)
  then have "tu_user r \<notin> tu_user ` {x \<in> set rows. tu_role x = Requester}" by auto
  moreover have "tu_user ` {x \<in> set (r # rows). tu_role x = Requester} =
      (if tu_role r = Requester then {tu_user r} else {}) \<union> tu_user ` {x \<in> set rows. tu_role x = Requester}" by auto
  ultimately show ?case using Cons by (auto simp: rel_simps)
qed simp

lemma distinct_users_of:
  "distinct (map user_key rs) \<Longrightarrow> distinct (map tu_user (filter (\<lambda>r. tu_ticket r = i) rs))"
  by (auto simp: distinct_map inj_on_def)

lemma requesters_of_rows: "tu_user ` {r \<in> set rs. tu_ticket r = i \<and> tu_role r = Requester} = requesters rs i"
  by (auto simp: requesters_iff)

lemma requesters_merge_users:
  assumes "distinct (map user_key (td_users d))"
  shows "requesters (td_users (merge_users now src tgt d)) tgt =
     (if requesters (td_users d) tgt \<noteq> {} then requesters (td_users d) tgt
      else requesters (td_users d) src - people (td_users d) tgt)"
  using fold_put_requesters [OF distinct_users_of [OF assms], of now tgt "td_users d" src]
  by (simp add: merge_users_def Let_def list_ex_requester fold_put_involved requesters_of_rows split: option.splits)

lemma merge_rows:
  assumes "mergeTicketInto now src tgt who d = Inr d'"
  shows "td_users d' = filter (\<lambda>r. tu_ticket r \<noteq> src) (td_users (merge_users now src tgt (merge_messages now src tgt who d)))"
    and "src \<noteq> tgt" and "td_users (merge_messages now src tgt who d) = td_users d"
    and "td_accounts d' = td_accounts d"
  using assms
  by (auto simp: mergeTicketInto_alt merge_tail_def Let_def touch_ticket_def mark_merged_def set_ticket_def merge_messages_def add_message_def)

text \<open>
  After a merge the requester of the target is the one it had before; a target without a
  requester takes the one of the source, except when this person is already among the people of
  the target: the insertion then leaves the existing link, whose role is \<open>involved\<close>, and
  the merged ticket has no requester at all.
\<close>

theorem merge_requester:
  assumes "rel_inv d" and "mergeTicketInto now src tgt who d = Inr d'"
  shows "requesters (td_users d') tgt =
     (if requesters (td_users d) tgt \<noteq> {} then requesters (td_users d) tgt
      else requesters (td_users d) src - people (td_users d) tgt)"
  using requesters_merge_users [of "merge_messages now src tgt who d" now src tgt] rel_inv_D(1) [OF assms(1)] merge_rows [OF assms(2)]
  by (simp add: rel_simps)

text \<open>Bob, the requester of 1, is also involved in 2: the merged ticket loses its requester.\<close>

definition bob_involved :: tdb where
  "bob_involved = snd (addUser 25 ada 2 (Some ''bob'') None two_tickets)"

lemma run_ok: "\<not> isl x \<Longrightarrow> (\<And>y. x = Inr y \<Longrightarrow> P) \<Longrightarrow> P"
  by (cases x) simp_all

lemma reachable_step: "reachable d d1 \<Longrightarrow> ticket_step d1 d2 \<Longrightarrow> reachable d d2"
  unfolding reachable_def by (rule rtranclp.rtrancl_into_rtrancl)

lemma bob_inv: "rel_inv bob_involved"
  unfolding bob_involved_def two_tickets_def by (intro inv_add_user inv_create sample_inv)

theorem merge_requester_witness:
  "requesters (td_users bob_involved) 1 = {''bob''} \<and>
   (\<exists>d'. mergeTicketInto 30 1 2 (Some ''Ada'') bob_involved = Inr d' \<and> requesters (td_users d') 2 = {})"
proof -
  have "\<not> isl (mergeTicketInto 30 1 2 (Some ''Ada'') bob_involved)" by code_simp
  then obtain d' where run: "mergeTicketInto 30 1 2 (Some ''Ada'') bob_involved = Inr d'" by (rule run_ok)
  have "requesters (td_users bob_involved) 2 = {}" "requesters (td_users bob_involved) 1 = {''bob''}"
    "people (td_users bob_involved) 2 = {''bob''}" by code_simp+
  with run merge_requester [OF bob_inv run] show ?thesis by simp
qed

section \<open>Merging there and back\<close>

lemma find_some_set:
  "find_ticket d i = Some t \<Longrightarrow> (\<And>t. tk_id (f t) = tk_id t) \<Longrightarrow> find_ticket (set_ticket i f d) i = Some (f t)"
  by (simp add: find_ticket_set find_ticket_id)

lemma find_ticket_const:
  assumes "tk_id x = i"
  shows "find_ticket (set_ticket i (\<lambda>_. x) d) j = (if j = i then map_option (\<lambda>_. x) (find_ticket d i) else find_ticket d j)"
proof -
  have "find (\<lambda>t. tk_id t = j) (update_rows (\<lambda>t. tk_id t = i) (\<lambda>_. x) ts) =
      (if j = i then map_option (\<lambda>_. x) (find (\<lambda>t. tk_id t = i) ts) else find (\<lambda>t. tk_id t = j) ts)" for ts
    using assms by (induction ts) auto
  then show ?thesis by (simp add: find_ticket_def td_tickets_set_ticket)
qed

definition fate :: "tdb \<Rightarrow> uuid \<Rightarrow> (jsstring \<times> uuid option) option" where
  "fate d i = map_option (\<lambda>t. (tk_status t, tk_merged_into t)) (find_ticket d i)"

lemma fate_keep:
  assumes "\<And>t. tk_id (f t) = tk_id t" "\<And>t. tk_status (f t) = tk_status t" "\<And>t. tk_merged_into (f t) = tk_merged_into t"
  shows "fate (set_ticket i f d) j = fate d j"
  using assms by (simp add: fate_def find_ticket_set option.map_comp comp_def if_distrib cong: if_cong)

lemma fate_merge_tail: "fate (merge_tail now src tgt d) j = fate d j"
proof -
  have rows: "fate (d\<lparr>td_users := us\<rparr>) j = fate d j" "fate (d\<lparr>td_devices := vs\<rparr>) j = fate d j" "fate (d\<lparr>td_mails := ms\<rparr>) j = fate d j"
    for d us vs ms by (simp_all add: fate_def)
  have "fate (merge_users now src tgt d) j = fate d j"
    by (auto simp: merge_users_def Let_def rows fate_keep split: option.splits)
  moreover have "fate (merge_devices now src tgt d) j = fate d j" for d
    by (simp add: merge_devices_def Let_def rows fate_keep)
  ultimately show ?thesis by (simp add: merge_tail_def Let_def rows)
qed

lemma fate_merge:
  assumes "mergeTicketInto now src tgt who d = Inr d'"
  shows "fate d' j = (if j = src then Some (''merged'', Some tgt) else fate d j)"
proof -
  let ?d1 = "merge_tail now src tgt (merge_messages now src tgt who d)"
  have same: "fate ?d1 i = fate d i" for i
    by (simp add: fate_merge_tail) (simp add: fate_def merge_messages_def Let_def)
  from assms obtain s where st: "src \<noteq> tgt" and d': "d' = touch_ticket now tgt (mark_merged now src tgt ?d1)"
    and s: "find_ticket d src = Some s" by (auto simp: mergeTicketInto_alt)
  then obtain s1 where s1: "find_ticket ?d1 src = Some s1" using same [of src] by (auto simp: fate_def)
  have "fate d' j = fate (mark_merged now src tgt ?d1) j" by (simp add: d' touch_ticket_def fate_keep)
  also have "\<dots> = (if j = src then Some (''merged'', Some tgt) else fate d j)"
    using same [of j] s1 by (simp add: fate_def mark_merged_def find_some_set find_set_other)
  finally show ?thesis .
qed

lemma merge_runs:
  assumes "src \<noteq> tgt" "fate d src = Some (s, ms)" "s \<noteq> ''merged''" "fate d tgt = Some (t, mt)" "t \<noteq> ''merged''"
  obtains d' where "mergeTicketInto now src tgt who d = Inr d'"
  using assms by (auto simp: mergeTicketInto_alt fate_def)

definition reopen :: ticket_patch where
  "reopen = no_patch\<lparr>pt_status := Some (Some ''open'')\<rparr>"

lemma reopen_fields [simp]:
  "pt_status reopen = Some (Some ''open'')" "pt_priority reopen = None" "pt_title reopen = None" "pt_desc reopen = None"
  "pt_assigned reopen = None" "pt_assigned_name reopen = None" "pt_user reopen = None" "pt_device reopen = None"
  by (simp_all add: reopen_def no_patch_def)

lemma reopen_guards [simp]:
  "patch_values_guard reopen = None" "al_admin al \<Longrightarrow> patch_rights_guard d al reopen = None" "\<not> patch_is_empty reopen"
  by (simp_all add: patch_values_guard_def patch_rights_guard_def patch_is_empty_def patch_title_def patch_desc_def STATUSES_def)

lemma fate_reopen:
  assumes "isAdmin d u" "find_ticket d i = Some t"
  shows "fate (snd (patchTicket now u i reopen d)) j = (if j = i then Some (''open'', tk_merged_into t) else fate d j)"
proof -
  obtain al where al: "checkTicketAccess d u i = Inr al" "al_admin al" using assms by (simp add: checkTicketAccess_def)
  let ?d1 = "set_ticket i (\<lambda>_. apply_patch now reopen t) d"
  have "snd (patchTicket now u i reopen d) = status_message now i (id_name u) (pt_status reopen) (tk_status t) ?d1"
    using assms(2) al by (simp add: patchTicket_def Let_def)
  moreover have "fate (status_message now i who new old d) j = fate d j" for who new old d j
    by (simp add: fate_def status_message_def split: option.splits)
  moreover have "fate ?d1 j = (if j = i then Some (''open'', tk_merged_into t) else fate d j)"
    using assms(2) find_ticket_id [OF assms(2)] known_ticket
    by (auto simp: fate_def find_ticket_const apply_patch_def)
  ultimately show ?thesis by simp
qed

text \<open>
  C18: The guard against cycles of merges only looks at the statuses, and a merged ticket can be
  reopened: after any merge of A into B, an administrator who reopens A with the modification
  route can merge B into A, and the two tickets are then each marked as merged into the other.
\<close>

theorem merge_cycle_after_reopening:
  assumes "mergeTicketInto w1 a b who d = Inr d1" and "isAdmin d u" and "find_ticket d b = Some t"
  shows "\<exists>d3. mergeTicketInto w3 b a who' (snd (patchTicket w2 u a reopen d1)) = Inr d3 \<and>
              map_option tk_merged_into (find_ticket d3 a) = Some (Some b) \<and>
              map_option tk_merged_into (find_ticket d3 b) = Some (Some a)"
proof -
  from assms have ab: "a \<noteq> b" and tm: "tk_status t \<noteq> ''merged''" by (auto simp: mergeTicketInto_alt)
  have admin: "isAdmin d1 u" using assms(2) merge_rows(4) [OF assms(1)] by (simp add: isAdmin_def)
  let ?d2 = "snd (patchTicket w2 u a reopen d1)"
  have f1: "fate d1 a = Some (''merged'', Some b)" "fate d1 b = Some (tk_status t, tk_merged_into t)"
    using fate_merge [OF assms(1)] ab assms(3) by (simp_all add: fate_def)
  then obtain s where s: "find_ticket d1 a = Some s" "tk_merged_into s = Some b" by (auto simp: fate_def)
  have f2: "fate ?d2 a = Some (''open'', Some b)" "fate ?d2 b = Some (tk_status t, tk_merged_into t)"
    using fate_reopen [OF admin s(1)] s(2) ab f1 by simp_all
  obtain d3 where run: "mergeTicketInto w3 b a who' ?d2 = Inr d3"
    by (rule merge_runs [OF ab [symmetric] f2(2) tm f2(1)]) simp_all
  have "fate d3 a = Some (''open'', Some b)" "fate d3 b = Some (''merged'', Some a)"
    using fate_merge [OF run] ab f2 by simp_all
  with run show ?thesis by (auto simp: fate_def)
qed

theorem merge_cycle_after_reopening_witness:
  "\<exists>d1 d3. mergeTicketInto 30 1 2 (Some ''Ada'') two_tickets = Inr d1 \<and>
      mergeTicketInto 50 2 1 (Some ''Ada'') (snd (patchTicket 40 ada 1 reopen d1)) = Inr d3 \<and>
      map_option tk_merged_into (find_ticket d3 1) = Some (Some 2) \<and> map_option tk_merged_into (find_ticket d3 2) = Some (Some 1)"
proof -
  have "\<not> isl (mergeTicketInto 30 1 2 (Some ''Ada'') two_tickets)" "isAdmin two_tickets ada"
    "find_ticket two_tickets 2 \<noteq> None" by code_simp+
  then obtain d1 t where run: "mergeTicketInto 30 1 2 (Some ''Ada'') two_tickets = Inr d1" "isAdmin two_tickets ada"
    "find_ticket two_tickets 2 = Some t" by (auto elim: run_ok)
  from merge_cycle_after_reopening [OF run] run(1) show ?thesis by blast
qed

end
