(* ===== verification/TicketRights.thy ===== *)
theory TicketRights imports TicketMachine begin

text \<open>
  What a member who is not an administrator may change and see (\<open>tickets/routes/tickets.js\<close>,
  \<open>tickets/routes/ticket-proposals.js\<close>).
\<close>

section \<open>The requests of one person\<close>

inductive request :: "identity \<Rightarrow> tdb \<Rightarrow> tdb \<Rightarrow> bool" for u where
  R_create: "request u d (snd (createTicket now u nt d))"
| R_patch: "request u d (snd (patchTicket now u i pt d))"
| R_post: "request u d (snd (postMessage now u i content ty d))"
| R_send: "request u d (snd (sendByMail now u i m d))"
| R_retry: "request u d (snd (retrySend now u i m d))"
| R_delete: "request u d (snd (deleteSuggestion u i m d))"
| R_suggest: "request u d (snd (aiSuggest gen now u i d))"
| R_add_user: "request u d (snd (addUser now u i who role d))"
| R_remove_user: "request u d (snd (removeUser now u i e d))"
| R_add_device: "request u d (snd (addDevice now u i dev d))"
| R_remove_device: "request u d (snd (removeDevice now u i v d))"
| R_merge: "request u d (snd (mergeTicket now u i target d))"
| R_create_tag: "request u d (snd (createTag u name color d))"
| R_delete_tag: "request u d (snd (deleteTag u g d))"
| R_tag: "request u d (snd (tagTicket now u i tg d))"
| R_untag: "request u d (snd (untagTicket now u i g d))"
| R_propose: "request u d (snd (createProposal u np d))"
| R_accept: "request u d (snd (acceptProposal fmt now u p ab d))"
| R_reject: "request u d (snd (rejectProposal now u p reason d))"

inductive_cases requestE: "request u d d'"

lemma request_step: "request u d d' \<Longrightarrow> ticket_step d d'"
  by (erule request.cases) (auto intro: ticket_step.intros)

text \<open>The administrators' routes leave the base alone when somebody else calls them.\<close>

lemma not_admin: "\<not> isAdmin d u \<Longrightarrow> snd (admin_only u h d) = d"
  by (simp add: admin_only_def)

lemmas admin_routes = sendByMail_def aiSuggest_def addUser_def removeUser_def addDevice_def removeDevice_def mergeTicket_def
  createTag_def deleteTag_def tagTicket_def untagTicket_def createProposal_def acceptProposal_def rejectProposal_def

section \<open>Changes confined to one ticket\<close>

definition same_ticket :: "tdb \<Rightarrow> tdb \<Rightarrow> uuid \<Rightarrow> bool" where
  "same_ticket d d' j \<longleftrightarrow>
     find_ticket d' j = find_ticket d j \<and> messages_of d' j = messages_of d j \<and>
     filter (\<lambda>r. tu_ticket r = j) (td_users d') = filter (\<lambda>r. tu_ticket r = j) (td_users d) \<and>
     filter (\<lambda>r. tv_ticket r = j) (td_devices d') = filter (\<lambda>r. tv_ticket r = j) (td_devices d)"

definition owners :: "ticket \<Rightarrow> entra option \<times> entra option \<times> uuid option" where
  "owners t = (tk_user t, tk_assigned t, tk_merged_into t)"

definition confined :: "uuid \<Rightarrow> tdb \<Rightarrow> tdb \<Rightarrow> bool" where
  "confined i d d' \<longleftrightarrow> td_accounts d' = td_accounts d \<and> (\<forall>j. j \<noteq> i \<longrightarrow> same_ticket d d' j)"

definition keeps_owners :: "uuid \<Rightarrow> tdb \<Rightarrow> tdb \<Rightarrow> bool" where
  "keeps_owners i d d' \<longleftrightarrow> map_option owners (find_ticket d' i) = map_option owners (find_ticket d i)"

lemma confined_refl [simp]: "confined i d d"
  by (simp add: confined_def same_ticket_def)

lemma confined_trans: "confined i d d1 \<Longrightarrow> confined i d1 d2 \<Longrightarrow> confined i d d2"
  by (simp add: confined_def same_ticket_def)

lemma keeps_trans: "keeps_owners i d d1 \<Longrightarrow> keeps_owners i d1 d2 \<Longrightarrow> keeps_owners i d d2"
  by (simp add: keeps_owners_def)

lemma find_set_only: "i \<noteq> j \<Longrightarrow> (\<And>t. tk_id t = i \<Longrightarrow> tk_id (f t) = i) \<Longrightarrow> find_ticket (set_ticket i f d) j = find_ticket d j"
proof -
  assume ij: "i \<noteq> j" and f: "\<And>t. tk_id t = i \<Longrightarrow> tk_id (f t) = i"
  have "find (\<lambda>t. tk_id t = j) (update_rows (\<lambda>t. tk_id t = i) f ts) = find (\<lambda>t. tk_id t = j) ts" for ts
    using ij f by (induction ts) auto
  then show ?thesis by (simp add: find_ticket_def td_tickets_set_ticket)
qed

lemma find_set_same:
  assumes "\<And>t. tk_id t = i \<Longrightarrow> tk_id (f t) = i"
  shows "find_ticket (set_ticket i f d) i = map_option f (find_ticket d i)"
proof -
  have "find (\<lambda>t. tk_id t = i) (update_rows (\<lambda>t. tk_id t = i) f ts) = map_option f (find (\<lambda>t. tk_id t = i) ts)" for ts
    using assms by (induction ts) auto
  then show ?thesis by (simp add: find_ticket_def td_tickets_set_ticket)
qed

lemma confined_set: "(\<And>t. tk_id t = i \<Longrightarrow> tk_id (f t) = i) \<Longrightarrow> confined i d (set_ticket i f d)"
  by (simp add: confined_def same_ticket_def find_set_only messages_of_def)

lemma confined_touch: "confined i d (touch_ticket now i d)"
  unfolding touch_ticket_def by (rule confined_set) simp

lemma confined_message: "confined i d (add_message now i ty a c s d)"
  by (simp add: confined_def same_ticket_def messages_of_def add_message_def find_ticket_def)

lemma confined_messages:
  assumes "\<And>j. j \<noteq> i \<Longrightarrow> filter (\<lambda>m. ms_ticket m = j) ms = filter (\<lambda>m. ms_ticket m = j) (td_messages d)"
  shows "confined i d (d\<lparr>td_messages := ms\<rparr>)"
  using assms by (simp add: confined_def same_ticket_def messages_of_def find_ticket_def)

lemma filter_update_other:
  assumes "\<And>x. P x \<Longrightarrow> key x = i" "\<And>x. key (f x) = key x" "j \<noteq> i"
  shows "filter (\<lambda>x. key x = j) (update_rows P f xs) = filter (\<lambda>x. key x = j) xs"
  using assms by (induction xs) auto

lemma filter_drop_other:
  assumes "\<And>x. P x \<Longrightarrow> key x = i" "j \<noteq> i"
  shows "filter (\<lambda>x. key x = j) (filter (\<lambda>x. \<not> P x) xs) = filter (\<lambda>x. key x = j) xs"
  using assms by (induction xs) auto

lemma confined_device: "confined i d (addDeviceToTicket now i v d)"
proof -
  have "confined i d (d\<lparr>td_devices := put_device now i v (td_devices d)\<rparr>)"
    by (simp add: confined_def same_ticket_def messages_of_def find_ticket_def put_device_def)
  moreover have "confined i d1 (set_ticket i (\<lambda>t. if tk_device t = None then t\<lparr>tk_device := Some v\<rparr> else t) d1)" for d1
    by (rule confined_set) simp
  ultimately show ?thesis unfolding addDeviceToTicket_def by (blast intro: confined_trans)
qed

lemma confined_sync: "confined i d (syncRequester now i new d)"
proof -
  have "filter (\<lambda>r. tu_ticket r = j) (sync_users now i new us) = filter (\<lambda>r. tu_ticket r = j) us" if "j \<noteq> i" for j us
  proof -
    have drop: "filter (\<lambda>r. tu_ticket r = j) (filter (\<lambda>r. \<not> requester_of i r) us) = filter (\<lambda>r. tu_ticket r = j) us"
      by (rule filter_drop_other) (use that in \<open>auto simp: requester_of_def\<close>)
    have "filter (\<lambda>r. tu_ticket r = j) (put_requester now i u xs) = filter (\<lambda>r. tu_ticket r = j) xs" for u xs
      using that by (auto simp: put_requester_def user_link_def intro!: filter_update_other)
    with drop show ?thesis by (simp add: sync_users_def Let_def)
  qed
  then have "confined i d (d\<lparr>td_users := sync_users now i new (td_users d)\<rparr>)"
    by (simp add: confined_def same_ticket_def messages_of_def find_ticket_def)
  moreover have "confined i d1 (set_ticket i (\<lambda>t. t\<lparr>tk_user := x\<rparr>) d1)" for d1 x
    by (rule confined_set) simp
  ultimately show ?thesis unfolding syncRequester_alt by (blast intro: confined_trans)
qed


section \<open>What a member's request does\<close>

definition party :: "identity \<Rightarrow> ticket \<Rightarrow> bool" where
  "party u t \<longleftrightarrow> tk_user t = Some (id_entra u) \<or> tk_assigned t = Some (id_entra u)"

text \<open>A change of one ticket, either new or one the person is a party of.\<close>

definition own_change :: "identity \<Rightarrow> tdb \<Rightarrow> tdb \<Rightarrow> bool" where
  "own_change u d d' \<longleftrightarrow>
     (\<exists>i. confined i d d' \<and>
       (find_ticket d i = None \<or> (keeps_owners i d d' \<and> (\<exists>t. find_ticket d i = Some t \<and> party u t))))"

lemma access_party:
  assumes "checkTicketAccess d u i = Inr al" "\<not> isAdmin d u"
  shows "\<exists>t. find_ticket d i = Some t \<and> party u t" "\<not> al_admin al"
  using assms by (auto simp: checkTicketAccess_def party_def split: option.splits if_splits)

lemma own_changeI:
  assumes "checkTicketAccess d u i = Inr al" "\<not> isAdmin d u" "confined i d d'" "keeps_owners i d d'"
  shows "own_change u d d'"
  unfolding own_change_def using access_party(1) [OF assms(1,2)] assms(3,4) by blast

lemma owners_touch [simp]: "owners (t\<lparr>tk_updated_at := now\<rparr>) = owners t"
  by (simp add: owners_def)

lemma keeps_touch: "keeps_owners i d d1 \<Longrightarrow> keeps_owners i d (touch_ticket now j d1)"
  by (cases "i = j") (simp_all add: keeps_owners_def touch_ticket_def find_set_same find_set_only option.map_comp comp_def)

lemma keeps_messages: "keeps_owners i d (d\<lparr>td_messages := ms\<rparr>)" "keeps_owners i d (add_message now j ty a c s d)"
  by (simp_all add: keeps_owners_def find_ticket_def add_message_def)

lemma member_post:
  assumes "\<not> isAdmin d u"
  shows "snd (postMessage now u i content ty d) = d \<or> own_change u d (snd (postMessage now u i content ty d))"
proof (cases "checkTicketAccess d u i")
  case (Inr al)
  have "own_change u d (touch_ticket now i (add_message now i t a c s d))" for t a c s
    by (rule own_changeI [OF Inr assms confined_trans [OF confined_message confined_touch]])
      (intro keeps_touch keeps_messages)
  with Inr show ?thesis by (simp add: postMessage_def Let_def)
qed (simp add: postMessage_def)

lemma member_retry:
  assumes "\<not> isAdmin d u"
  shows "snd (retrySend now u i m d) = d \<or> own_change u d (snd (retrySend now u i m d))"
proof (cases "checkTicketAccess d u i")
  case (Inr al)
  let ?P = "\<lambda>x. ticket_message i m x \<and> ms_failed_at x \<noteq> None"
  have "confined i d (d\<lparr>td_messages := update_rows ?P requeue (td_messages d)\<rparr>)"
    by (rule confined_messages, rule filter_update_other) (auto simp: ticket_message_def requeue_def)
  then have "own_change u d (touch_ticket now i (d\<lparr>td_messages := update_rows ?P requeue (td_messages d)\<rparr>))"
    by (intro own_changeI [OF Inr assms] confined_trans [OF _ confined_touch] keeps_touch keeps_messages)
  with Inr show ?thesis by (simp add: retrySend_def Let_def split: option.splits)
qed (simp add: retrySend_def)

lemma member_delete:
  assumes "\<not> isAdmin d u"
  shows "snd (deleteSuggestion u i m d) = d \<or> own_change u d (snd (deleteSuggestion u i m d))"
proof (cases "checkTicketAccess d u i")
  case (Inr al)
  let ?P = "\<lambda>x. ticket_message i m x \<and> ms_type x = ''ai_suggestion''"
  have "confined i d (d\<lparr>td_messages := filter (\<lambda>x. \<not> ?P x) (td_messages d)\<rparr>)"
    by (rule confined_messages, rule filter_drop_other) (auto simp: ticket_message_def)
  then have "own_change u d (d\<lparr>td_messages := filter (\<lambda>x. \<not> ?P x) (td_messages d)\<rparr>)"
    by (intro own_changeI [OF Inr assms] keeps_messages)
  with Inr show ?thesis by (simp add: deleteSuggestion_def Let_def)
qed (simp add: deleteSuggestion_def)

lemma confined_status: "confined i d (status_message now i who new old d)"
  by (simp add: status_message_def confined_message split: option.splits)

lemma owners_device [simp]: "owners (if tk_device t = None then t\<lparr>tk_device := x\<rparr> else t) = owners t"
  by (simp add: owners_def)

lemma keeps_device: "keeps_owners i d d1 \<Longrightarrow> keeps_owners i d (addDeviceToTicket now i v d1)"
proof -
  assume "keeps_owners i d d1"
  moreover have "keeps_owners i d1 (addDeviceToTicket now i v d1)"
    by (simp add: keeps_owners_def addDeviceToTicket_def find_set_same option.map_comp comp_def del: set_ticket_rows)
      (simp add: find_ticket_def)
  ultimately show ?thesis by (rule keeps_trans)
qed

lemma keeps_status: "keeps_owners i d d1 \<Longrightarrow> keeps_owners i d (status_message now i who new old d1)"
  by (simp add: status_message_def keeps_trans [OF _ keeps_messages(2)] split: option.splits)

lemma member_patch:
  assumes member: "\<not> isAdmin d u"
  shows "snd (patchTicket now u i pt d) = d \<or> own_change u d (snd (patchTicket now u i pt d))"
proof (cases "checkTicketAccess d u i")
  case (Inr al)
  note al = access_party(2) [OF Inr member]
  show ?thesis
  proof (cases "first_some (patch_values_guard pt) (patch_rights_guard d al pt) = None \<and> \<not> patch_is_empty pt")
    case True
    from True have "patch_rights_guard d al pt = None" by (auto simp: first_some_def split: option.splits)
    with al have no: "pt_user pt = None" "pt_assigned pt = None"
      by (auto simp: patch_rights_guard_def Let_def split: if_splits)
    from access_party(1) [OF Inr member] obtain t where t: "find_ticket d i = Some t" by blast
    let ?t' = "apply_patch now pt t"
    let ?d1 = "set_ticket i (\<lambda>_. ?t') d"
    let ?d3 = "case pt_device pt of Some (Some v) \<Rightarrow> addDeviceToTicket now i v ?d1 | _ \<Rightarrow> ?d1"
    have id: "tk_id ?t' = i" "owners ?t' = owners t"
      using known_ticket [OF t] no by (simp_all add: apply_patch_def owners_def)
    have c1: "confined i d ?d1" and k1: "keeps_owners i d ?d1"
      using id t by (simp_all add: confined_set keeps_owners_def find_set_same)
    have "confined i d ?d3" "keeps_owners i d ?d3"
      using c1 k1 by (auto split: option.splits intro: confined_trans [OF _ confined_device] keeps_device)
    then have "own_change u d (status_message now i (id_name u) (pt_status pt) (tk_status t) ?d3)"
      by (intro own_changeI [OF Inr member] confined_trans [OF _ confined_status] keeps_status)
    with Inr True t no show ?thesis by (simp add: patchTicket_def Let_def)
  qed (auto simp: patchTicket_def Inr split: option.splits)
qed (simp add: patchTicket_def)

lemma confined_link: "confined (tk_id t) d (link_new_ticket now t d)"
proof -
  let ?d1 = "if truthy (tk_user t) then syncRequester now (tk_id t) (tk_user t) d else d"
  have "confined (tk_id t) d ?d1" by (simp add: confined_sync)
  then show ?thesis
    by (auto simp: link_new_ticket_def Let_def split: option.splits intro: confined_trans [OF _ confined_device])
qed

lemma find_snoc: "\<not> P x \<Longrightarrow> find P (xs @ [x]) = find P xs"
  by (induction xs) auto

lemma member_create:
  assumes "rel_inv d"
  shows "snd (createTicket now u nt d) = d \<or> own_change u d (snd (createTicket now u nt d))"
proof (cases "new_ticket_guard d u nt")
  case None
  define src where "src = the (or_else (nt_source nt) (Some ''manual''))"
  obtain t0 d0 where ins: "insert_ticket now (the (nt_title nt)) (or_null (nt_desc nt)) (the (or_else (nt_priority nt) (Some ''normal'')))
      (nt_device nt) (or_null (nt_user nt)) src (src = ''auto'') (Some (id_entra u)) (Some (id_name u)) d = (t0, d0)"
    by fastforce
  let ?t = "t0\<lparr>tk_assigned := or_null (nt_assigned nt), tk_assigned_name := or_null (nt_assigned_name nt)\<rparr>"
  note rows = insert_ticket_rows [OF ins]
  have new: "find_ticket d (tk_id t0) = None"
    using rel_inv_D(6) [OF assms] rows(6) by (fastforce simp: find_ticket_def find_None_iff)
  have c0: "confined (tk_id t0) d d0"
    by (simp add: confined_def same_ticket_def messages_of_def find_ticket_def rows find_snoc)
  have c1: "confined (tk_id t0) d0 (set_ticket (tk_id t0) (\<lambda>_. ?t) d0)" by (rule confined_set) simp
  have c2: "confined i d1 (add_tags j gs d1)" for i j gs d1
    by (simp add: confined_def same_ticket_def messages_of_def find_ticket_def)
  have "confined (tk_id t0) d (link_new_ticket now ?t (add_tags (tk_id ?t) (nt_tags nt) (set_ticket (tk_id ?t) (\<lambda>_. ?t) d0)))"
    using confined_trans [OF confined_trans [OF confined_trans [OF c0 c1] c2] confined_link [of ?t, simplified]] by simp
  with new None ins show ?thesis
    by (auto simp: createTicket_def Let_def own_change_def src_def [symmetric])
qed (simp add: createTicket_def)

lemmas member_routes = member_post member_retry member_delete member_patch

lemma member_request:
  assumes "request u d d'" and member: "\<not> isAdmin d u" and inv: "rel_inv d"
  shows "d' = d \<or> own_change u d d'"
  using assms(1)
proof cases
  case R_create then show ?thesis using member_create [OF inv] by simp
next
  case R_patch then show ?thesis using member_patch [OF member] by simp
next
  case R_post then show ?thesis using member_post [OF member] by simp
next
  case R_retry then show ?thesis using member_retry [OF member] by simp
next
  case R_delete then show ?thesis using member_delete [OF member] by simp
qed (simp_all only: admin_routes not_admin [OF member] simp_thms)


section \<open>Rights of a member\<close>

lemma same_ticket_refl: "same_ticket d d i"
  by (simp add: same_ticket_def)

lemma same_ticket_trans: "same_ticket d d1 i \<Longrightarrow> same_ticket d1 d2 i \<Longrightarrow> same_ticket d d2 i"
  by (simp add: same_ticket_def)

lemma own_change_ticket:
  assumes "own_change u d d'" "find_ticket d i = Some t"
  shows "\<exists>t'. find_ticket d' i = Some t' \<and> owners t' = owners t \<and> (party u t \<or> same_ticket d d' i)"
proof -
  from assms(1) obtain k where conf: "confined k d d'"
    and own: "find_ticket d k = None \<or> (keeps_owners k d d' \<and> (\<exists>t. find_ticket d k = Some t \<and> party u t))"
    unfolding own_change_def by blast
  show ?thesis
  proof (cases "i = k")
    case True
    with own assms(2) have "keeps_owners i d d'" "party u t" by auto
    with assms(2) show ?thesis by (auto simp: keeps_owners_def)
  next
    case False
    with conf have "same_ticket d d' i" by (simp add: confined_def)
    with assms(2) show ?thesis by (auto simp: same_ticket_def)
  qed
qed

lemma own_change_accounts: "own_change u d d' \<Longrightarrow> td_accounts d' = td_accounts d"
  by (auto simp: own_change_def confined_def)

text \<open>
  C19: Whatever a person who is not an administrator asks for, through any route and any number of
  times, every ticket that existed keeps its requester, its assignee and its merge target; and a
  ticket of which this person is neither the requester nor the assignee keeps its whole row, its
  messages, its people and its devices.
\<close>

theorem members_only_touch_their_tickets:
  assumes "rel_inv d" and "\<not> isAdmin d u" and "(request u)\<^sup>*\<^sup>* d d'" and "find_ticket d i = Some t"
  shows "\<exists>t'. find_ticket d' i = Some t' \<and> tk_user t' = tk_user t \<and> tk_assigned t' = tk_assigned t \<and>
              tk_merged_into t' = tk_merged_into t \<and> (party u t \<or> same_ticket d d' i)"
proof -
  from assms(3) have "rel_inv d' \<and> td_accounts d' = td_accounts d \<and>
      (\<exists>t'. find_ticket d' i = Some t' \<and> owners t' = owners t \<and> (party u t \<or> same_ticket d d' i))"
  proof (induction rule: rtranclp_induct)
    case base
    then show ?case using assms(1,4) by (auto simp: same_ticket_refl)
  next
    case (step d1 d2)
    then obtain t1 where t1: "find_ticket d1 i = Some t1" "owners t1 = owners t" "party u t \<or> same_ticket d d1 i"
      and inv: "rel_inv d1" and acc: "td_accounts d1 = td_accounts d" by blast
    have member: "\<not> isAdmin d1 u" using assms(2) acc by (simp add: isAdmin_def)
    have inv2: "rel_inv d2" by (rule ticket_step_inv [OF request_step [OF step.hyps(2)] inv])
    consider "d2 = d1" | "own_change u d1 d2" using member_request [OF step.hyps(2) member inv] by blast
    then show ?case
    proof cases
      case 1
      with t1 inv acc show ?thesis by blast
    next
      case 2
      have p: "party u t1 \<longleftrightarrow> party u t" using t1(2) by (simp add: party_def owners_def)
      from own_change_ticket [OF 2 t1(1)] obtain t2
        where "find_ticket d2 i = Some t2" "owners t2 = owners t1" "party u t1 \<or> same_ticket d1 d2 i" by blast
      with t1 p inv2 acc own_change_accounts [OF 2] show ?thesis by (auto intro: same_ticket_trans)
    qed
  qed
  then show ?thesis by (auto simp: owners_def)
qed

text \<open>Eve, a member without tickets, writes into Bob's ticket and tries to close it.\<close>

definition eve :: identity where "eve = \<lparr>id_entra = ''eve'', id_name = ''Eve''\<rparr>"

definition eve_tries :: tdb where
  "eve_tries = snd (patchTicket 41 eve 1 (no_patch\<lparr>pt_status := Some (Some ''closed'')\<rparr>)
     (snd (postMessage 40 eve 1 (Some ''mine'') None two_tickets)))"

theorem members_only_touch_their_tickets_witness:
  "\<exists>t t'. find_ticket two_tickets 1 = Some t \<and> find_ticket eve_tries 1 = Some t' \<and> tk_user t' = tk_user t \<and>
     same_ticket two_tickets eve_tries 1"
proof -
  have inv: "rel_inv two_tickets" unfolding two_tickets_def by (intro inv_create sample_inv)
  have "\<not> isAdmin two_tickets eve" "find_ticket two_tickets 1 \<noteq> None" "map_option (party eve) (find_ticket two_tickets 1) = Some False"
    by code_simp+
  then obtain t where t: "\<not> isAdmin two_tickets eve" "find_ticket two_tickets 1 = Some t" "\<not> party eve t" by auto
  have "request eve two_tickets (snd (postMessage 40 eve 1 (Some ''mine'') None two_tickets))" by (rule R_post)
  moreover have "request eve (snd (postMessage 40 eve 1 (Some ''mine'') None two_tickets)) eve_tries"
    unfolding eve_tries_def by (rule R_patch)
  ultimately have run: "(request eve)\<^sup>*\<^sup>* two_tickets eve_tries" by (rule converse_rtranclp_into_rtranclp [OF _ r_into_rtranclp])
  from members_only_touch_their_tickets [OF inv t(1) run t(2)] t(2,3) show ?thesis by blast
qed

section \<open>Internal notes\<close>

text \<open>The base as if no internal note and no suggestion had ever been written.\<close>

definition redact :: "tdb \<Rightarrow> tdb" where
  "redact d = d\<lparr>td_messages := filter (\<lambda>m. ms_type m \<notin> set INTERNAL_MESSAGE_TYPES) (td_messages d)\<rparr>"

lemma redact_simps [simp]:
  "td_tickets (redact d) = td_tickets d" "td_users (redact d) = td_users d" "td_devices (redact d) = td_devices d"
  "td_mails (redact d) = td_mails d" "td_accounts (redact d) = td_accounts d" "td_machines (redact d) = td_machines d"
  "td_tags (redact d) = td_tags d" "td_labels (redact d) = td_labels d" "td_attachments (redact d) = td_attachments d"
  "isAdmin (redact d) u = isAdmin d u" "find_ticket (redact d) i = find_ticket d i"
  by (simp_all add: redact_def isAdmin_def find_ticket_def)











end
