(* ===== verification/MailThreads.thy ===== *)
theory MailThreads imports MailIngest Outbox begin

text \<open>
  Round trips of what the bridge writes into a mail and reads back from its answer: the tag of
  a subject, the identifiers of the thread headers.
\<close>

section \<open>Matchers never match a character they do not name\<close>

definition sound_matcher :: "(char \<Rightarrow> bool) \<Rightarrow> matcher \<Rightarrow> bool" where
  "sound_matcher P m \<longleftrightarrow> (\<forall>s n. m s = Some n \<longrightarrow> n \<le> length s \<and> list_all P (take n s))"

lemma sound_matcherD: "sound_matcher P m \<Longrightarrow> m s = Some n \<Longrightarrow> n \<le> length s \<and> list_all P (take n s)"
  by (simp add: sound_matcher_def)

lemma sound_seq:
  assumes "sound_matcher P a" "sound_matcher P b" shows "sound_matcher P (m_seq a b)"
  unfolding sound_matcher_def
proof (intro allI impI)
  fix s n assume "m_seq a b s = Some n"
  then obtain i k where i: "a s = Some i" and k: "b (drop i s) = Some k" and n: "n = i + k"
    by (auto simp: m_seq_def split: option.splits)
  from sound_matcherD [OF assms(1) i] sound_matcherD [OF assms(2) k] n show "n \<le> length s \<and> list_all P (take n s)" by (simp add: take_add le_diff_conv2 add.commute)
qed

lemma sound_alt: "sound_matcher P a \<Longrightarrow> sound_matcher P b \<Longrightarrow> sound_matcher P (m_alt a b)"
  by (auto simp: sound_matcher_def m_alt_def split: option.splits)

lemma sound_all: "list_all (sound_matcher P) as \<Longrightarrow> sound_matcher P (m_all as)"
proof (induction as)
  case (Cons a as)
  then have "sound_matcher P (m_seq a (m_all as))" by (intro sound_seq) simp_all
  then show ?case by (simp add: sound_matcher_def)
qed (simp add: sound_matcher_def)

lemma sound_run: "(\<And>c. Q c \<Longrightarrow> P c) \<Longrightarrow> sound_matcher P (m_run Q)"
  by (auto simp: sound_matcher_def m_run_def list_all_iff takeWhile_eq_take [symmetric] length_takeWhile_le dest: set_takeWhileD)

lemma sound_exact: "list_all P p \<Longrightarrow> sound_matcher P (m_exact p)"
  by (auto simp: sound_matcher_def m_exact_def split: if_splits) (metis length_take min.absorb_iff2 nle_le)

lemma sound_lit:
  assumes "\<And>c. lower_char c \<in> set (js_lower p) \<Longrightarrow> P c" shows "sound_matcher P (m_lit p)"
  unfolding sound_matcher_def
proof (intro allI impI)
  fix s n assume "m_lit p s = Some n"
  then have n: "n = length p" and eq: "js_lower (take n s) = js_lower p" by (auto simp: m_lit_def split: if_splits)
  from eq have "length (take n s) = n" using n by (metis length_js_lower)
  moreover have "P c" if "c \<in> set (take n s)" for c
    by (rule assms) (use that eq in \<open>metis imageI js_lower_def list.set_map\<close>)
  ultimately show "n \<le> length s \<and> list_all P (take n s)" by (auto simp: list_all_iff)
qed

lemma sound_repeat: "sound_matcher P m \<Longrightarrow> repeat_len k m s \<le> length s \<and> list_all P (take (repeat_len k m s) s)"
proof (induction k arbitrary: s)
  case (Suc k)
  show ?case
  proof (cases "m s")
    case (Some n)
    with Suc.prems have "n \<le> length s" "list_all P (take n s)" by (auto simp: sound_matcher_def)
    moreover from Suc.IH [OF Suc.prems, of "drop n s"] have "n + repeat_len k m (drop n s) \<le> length s"
      using \<open>n \<le> length s\<close> by (simp add: le_diff_conv2 add.commute)
    ultimately show ?thesis using Some Suc.IH [OF Suc.prems, of "drop n s"] by (simp add: take_add)
  qed simp
qed simp

section \<open>The tag of a subject\<close>

definition no_bracket :: "char \<Rightarrow> bool" where
  "no_bracket c \<longleftrightarrow> c \<noteq> CHR ''[''"

lemma reply_prefix_no_bracket: "list_all no_bracket (take (prefix_len m_reply s) s)"
proof -
  have lit: "sound_matcher no_bracket (m_lit p)" if "CHR ''['' \<notin> set (js_lower p)" for p
    by (rule sound_lit) (use that in \<open>auto simp: no_bracket_def lower_char_def\<close>)
  have "sound_matcher no_bracket m_reply"
    unfolding m_reply_def
    by (rule sound_all)
      (auto simp: js_lower_def lower_char_def no_bracket_def js_space_def intro!: sound_alt lit sound_run sound_exact)
  then show ?thesis unfolding prefix_len_def by (rule sound_repeat [THEN conjunct2])
qed

lemma m_tag_bracket: "s \<noteq> [] \<Longrightarrow> no_bracket (hd s) \<Longrightarrow> m_tag s = None" "m_tag [] = None"
  by (cases s; simp add: m_tag_def m_tag_head_def m_seq_def m_exact_def no_bracket_def)+

lemma search_skip:
  "list_all no_bracket pre \<Longrightarrow> search m_tag (pre @ s) = map_option (\<lambda>(i, n). (length pre + i, n)) (search m_tag s)"
proof (induction pre)
  case (Cons c pre)
  then show ?case by (cases "search m_tag s") (auto simp: m_tag_bracket)
qed (cases "search m_tag s"; auto)

lemma m_tag_here:
  assumes "list_all tag_char t" "t \<noteq> []"
  shows "m_tag_head (''[Opale #'' @ t @ '']'' @ rest) = Some 8"
    and "\<exists>n. m_tag (''[Opale #'' @ t @ '']'' @ rest) = Some n"
proof -
  obtain c cs where t: "t = c # cs" "tag_char c" using assms by (cases t) auto
  have nosp: "\<not> js_space c" using t(2) by (auto simp: tag_char_def js_char_defs)
  show head: "m_tag_head (''[Opale #'' @ t @ '']'' @ rest) = Some 8"
    using nosp unfolding t by (simp add: m_tag_head_def m_seq_def m_exact_def m_run_def m_lit_def js_space_def)
  have "takeWhile tag_char (t @ '']'' @ rest) = t"
    using assms(1) by (simp add: takeWhile_append2 list_all_iff tag_char_def js_char_defs)
  with assms(2) head show "\<exists>n. m_tag (''[Opale #'' @ t @ '']'' @ rest) = Some n"
    by (simp add: m_tag_def m_seq_def m_run1_def m_run_def m_exact_def js_space_def)
qed

lemma tag_found:
  assumes "list_all tag_char t" "t \<noteq> []" "list_all no_bracket pre"
  shows "extractTicketTag (Some (pre @ ''[Opale #'' @ t @ '']'' @ rest)) = Some t"
proof -
  let ?u = "''[Opale #'' @ t @ '']'' @ rest"
  obtain n where n: "m_tag ?u = Some n" using m_tag_here(2) [OF assms(1,2)] by blast
  then have "search m_tag ?u = Some (0, n)" by simp
  with assms(3) have "search m_tag (pre @ ?u) = Some (length pre, n)" by (simp add: search_skip)
  moreover have "takeWhile tag_char (drop 8 ?u) = t"
    using assms(1) by (simp add: takeWhile_append2 list_all_iff tag_char_def js_char_defs)
  ultimately show ?thesis using m_tag_here(1) [OF assms(1,2)] by (simp add: extractTicketTag_def Let_def)
qed


lemma trim_kept:
  assumes "pre = [] \<or> \<not> js_space (hd pre)" "mid \<noteq> []" "\<not> js_space (hd mid)" "\<not> js_space (last mid)"
  shows "\<exists>r. js_trim (pre @ mid @ rest) = pre @ mid @ r"
proof -
  have "dropWhile js_space (pre @ mid @ rest) = pre @ mid @ rest"
    using assms(1-3) by (cases pre; cases mid) auto
  moreover have "dropWhile js_space (rev rest @ rev mid @ rev pre) = dropWhile js_space (rev rest) @ rev mid @ rev pre"
    using assms(2,4) by (simp add: dropWhile_append3 dropWhile_append hd_rev) (cases "rev mid"; auto simp: hd_rev [symmetric])
  ultimately show ?thesis by (simp add: js_trim_def)
qed

lemma js_trim_hd: "js_trim s = [] \<or> \<not> js_space (hd (js_trim s))"
proof (cases "js_trim s")
  case (Cons a as)
  have "hd (js_trim s) = hd (dropWhile js_space s)" "dropWhile js_space s \<noteq> []"
    using hd_rev_dropWhile_rev [of js_space "dropWhile js_space s" a as] Cons by (simp_all add: js_trim_def)
  then show ?thesis by (metis hd_dropWhile)
qed simp

text \<open>Identifiers of the database are UUIDs: letters, digits and hyphens.\<close>

definition uuid_like :: "jsstring \<Rightarrow> bool" where
  "uuid_like i \<longleftrightarrow> list_all tag_char i \<and> (\<exists>c \<in> set i. c \<noteq> CHR ''-'')"

lemma tag_char_upper: "tag_char c \<Longrightarrow> tag_char (upper_char c)"
  by (auto simp: tag_char_def js_char_defs char_eq_iff)

lemma ticket_tag:
  assumes "uuid_like i"
  obtains t where "ticketTagFromUuid (Some i) = Some t" "list_all tag_char t" "t \<noteq> []"
proof -
  let ?t = "js_upper (take 8 (filter (\<lambda>c. c \<noteq> CHR ''-'') i))"
  have ne: "filter (\<lambda>c. c \<noteq> CHR ''-'') i \<noteq> []" "i \<noteq> []"
    using assms by (auto simp: uuid_like_def filter_empty_conv)
  show thesis
  proof (rule that [of ?t])
    show "ticketTagFromUuid (Some i) = Some ?t" using ne by (simp add: ticketTagFromUuid_def truthy_def)
    show "list_all tag_char ?t"
      using assms by (auto simp: uuid_like_def list_all_iff js_upper_def dest!: in_set_takeD intro: tag_char_upper)
    show "?t \<noteq> []" using ne by (simp add: js_upper_def)
  qed
qed

text \<open>
  The tag put into a subject is the tag read back from it: whatever the original subject
  holds, older tags, parts of tags and prefixes of replies included, the first tag that
  \<open>extractTicketTag\<close> finds in the built subject is the one of the ticket.
\<close>

theorem subject_tag_round_trip:
  assumes "uuid_like i"
  shows "extractTicketTag (Some (buildSubject orig (Some i))) = ticketTagFromUuid (Some i)"
proof -
  from assms obtain t where t: "ticketTagFromUuid (Some i) = Some t" "list_all tag_char t" "t \<noteq> []" by (rule ticket_tag)
  define cleaned where "cleaned = js_trim (drop_tags (or_else orig []))"
  define subject where "subject = (if cleaned = [] then NO_SUBJECT else cleaned)"
  define n where "n = prefix_len m_reply subject"
  let ?tagged = "''[Opale #'' @ t @ ''] ''"
  have built: "buildSubject orig (Some i) =
      (if 0 < n then js_trim (take n subject @ ?tagged @ drop n subject) else ?tagged @ subject)"
    using t by (simp add: buildSubject_def Let_def n_def subject_def cleaned_def)
  have hd_ok: "take n subject = [] \<or> \<not> js_space (hd (take n subject))"
    using js_trim_hd [of "drop_tags (or_else orig [])"]
    by (auto simp: subject_def cleaned_def NO_SUBJECT_def js_space_def hd_take)
  have pre: "list_all no_bracket (take n subject)" unfolding n_def by (rule reply_prefix_no_bracket)
  have mid: "''[Opale #'' @ t @ '']'' \<noteq> []" "\<not> js_space (hd (''[Opale #'' @ t @ '']''))" "\<not> js_space (last (''[Opale #'' @ t @ '']''))"
    by (simp_all add: js_space_def)
  show ?thesis
  proof (cases "0 < n")
    case True
    from trim_kept [OF hd_ok mid, of "'' '' @ drop n subject"] obtain r
      where "js_trim (take n subject @ ?tagged @ drop n subject) = take n subject @ ''[Opale #'' @ t @ '']'' @ r" by auto
    with True built tag_found [OF t(2,3) pre, of r] t(1) show ?thesis by simp
  next
    case False
    with built tag_found [OF t(2,3), of "[]" "'' '' @ subject"] t(1) show ?thesis by simp
  qed
qed

theorem subject_tag_round_trip_witness:
  "extractTicketTag (Some (buildSubject (Some ''Re: [Opale #0B] screen'') (Some ''3f2a-77c1-90''))) = Some ''3F2A77C1''"
proof -
  have "uuid_like ''3f2a-77c1-90''" "ticketTagFromUuid (Some ''3f2a-77c1-90'') = Some ''3F2A77C1''" by code_simp+
  with subject_tag_round_trip [of "''3f2a-77c1-90''"] show ?thesis by simp
qed


section \<open>The identifiers of the thread headers\<close>


lemma angled_inner [simp]: "butlast (tl (angled g)) = g"
  by (simp add: angled_def)
















end
