(* ===== verification/MailOnce.thy ===== *)
theory MailOnce imports TicketMachine begin

text \<open>
  A mail is ingested once: its row in the table of the mails outlives every operation, and both
  pipelines look at it before they write (\<open>process-mail.js\<close>, \<open>process-sent-mail.js\<close>,
  \<open>inbox.js\<close>). The preorders on databases the proofs of this library use share the locale
  \<open>evolution\<close>.
\<close>

section \<open>Relations along runs\<close>

locale evolution =
  fixes R :: "tdb \<Rightarrow> tdb \<Rightarrow> bool"
  assumes refl: "R d d"
    and trans: "R d d1 \<Longrightarrow> R d1 d2 \<Longrightarrow> R d d2"
begin

lemma after_refl: "d' = d \<Longrightarrow> R d d'"
  by (simp add: refl)

lemma admin: "(\<And>d. R d (snd (h d))) \<Longrightarrow> R d (snd (admin_only u h d))"
  by (simp add: admin_only_def refl)

lemma fold_step: "(\<And>d x. R d (f d x)) \<Longrightarrow> R d (foldl f d xs)"
  by (induction xs arbitrary: d) (auto intro: refl trans)

lemma runs: "(\<And>a b. ticket_step a b \<Longrightarrow> R a b) \<Longrightarrow> reachable d d' \<Longrightarrow> R d d'"
  unfolding reachable_def by (rotate_tac, induction rule: rtranclp_induct) (auto intro: refl trans)

end

interpretation frames: evolution frame
  by unfold_locales (auto intro: frame_trans)

section \<open>The table of the mails only grows\<close>

abbreviation imids :: "tdb \<Rightarrow> jsstring list" where
  "imids d \<equiv> map mp_imid (td_mails d)"

definition mails_grow :: "tdb \<Rightarrow> tdb \<Rightarrow> bool" where
  "mails_grow d d' \<longleftrightarrow> (\<exists>new. imids d' = imids d @ new \<and> distinct new \<and> set new \<inter> set (imids d) = {})"

lemma mails_grow_refl: "mails_grow d d"
  by (simp add: mails_grow_def)

lemma mails_grow_trans:
  assumes "mails_grow d d1" "mails_grow d1 d2" shows "mails_grow d d2"
proof -
  from assms obtain a b where a: "imids d1 = imids d @ a" "distinct a" "set a \<inter> set (imids d) = {}"
    and b: "imids d2 = imids d1 @ b" "distinct b" "set b \<inter> set (imids d1) = {}"
    unfolding mails_grow_def by blast
  then have "imids d2 = imids d @ (a @ b)" "distinct (a @ b)" "set (a @ b) \<inter> set (imids d) = {}" by auto
  then show ?thesis unfolding mails_grow_def by blast
qed

interpretation grow: evolution mails_grow
  by unfold_locales (rule mails_grow_refl, rule mails_grow_trans)

lemma grow_same: "td_mails d' = td_mails d \<Longrightarrow> mails_grow d d'"
  by (simp add: mails_grow_def)

lemma grow_update: "(\<And>m. mp_imid (f m) = mp_imid m) \<Longrightarrow> td_mails d' = update_rows P f (td_mails d) \<Longrightarrow> mails_grow d d'"
  by (simp add: mails_grow_def)

lemma grow_put:
  assumes "\<not> list_ex (\<lambda>r. mp_imid r = mp_imid m) (td_mails d)" "td_mails d1 = td_mails d"
  shows "mails_grow d (put_mail m d1)"
  using assms by (auto simp: mails_grow_def put_mail_def list_ex_iff)

section \<open>Every step\<close>

named_theorems grow_intros \<open>operations that only add rows to the table of the mails\<close>

lemma touch_mails [simp]: "td_mails (touch_ticket now i d) = td_mails d"
  by (simp add: touch_ticket_def)

lemma message_mails [simp]: "td_mails (add_message w i ty a c s d) = td_mails d"
  by (simp add: add_message_def)

lemma sync_mails [simp]: "td_mails (syncRequester now i new d) = td_mails d" "td_mails (addInvolvedUser now i u d) = td_mails d"
  "td_mails (addDeviceToTicket now i v d) = td_mails d" "td_mails (status_message now i who new2 old d) = td_mails d"
  "td_mails (snd (removeUserFromTicket i u d)) = td_mails d" "td_mails (snd (removeDeviceFromTicket i v d)) = td_mails d"
  by (simp_all add: syncRequester_def addInvolvedUser_def addDeviceToTicket_def status_message_def removeUserFromTicket_def
      removeDeviceFromTicket_def Let_def split: option.splits)

lemma grow_member [grow_intros]:
  "mails_grow d (snd (postMessage now u i content ty d))" "mails_grow d (snd (retrySend now u i m d))"
  "mails_grow d (snd (deleteSuggestion u i m d))"
  by (auto simp: postMessage_def retrySend_def deleteSuggestion_def Let_def intro!: grow_same split: sum.splits option.splits)

lemma grow_create [grow_intros]: "mails_grow d (snd (createTicket now u nt d))"
  by (rule grow_same) (simp add: createTicket_def insert_ticket_def Let_def split: option.splits)

lemma grow_patch [grow_intros]: "mails_grow d (snd (patchTicket now u i pt d))"
  by (rule grow_same) (simp add: patchTicket_def Let_def split: sum.splits option.splits)

lemma grow_admin_routes [grow_intros]:
  "mails_grow d (snd (sendByMail now u i m d))" "mails_grow d (snd (aiSuggest gen now u i d))"
  "mails_grow d (snd (addUser now u i who role d))" "mails_grow d (snd (addDevice now u i dev d))"
  "mails_grow d (snd (createTag u name color d))" "mails_grow d (snd (deleteTag u g d))"
  "mails_grow d (snd (tagTicket now u i tg d))" "mails_grow d (snd (untagTicket now u i g d))"
  "mails_grow d (snd (createProposal u np d))" "mails_grow d (snd (rejectProposal now u p reason d))"
  unfolding sendByMail_def aiSuggest_def addUser_def addDevice_def createTag_def deleteTag_def tagTicket_def untagTicket_def
    createProposal_def rejectProposal_def
  by (rule grow.admin, rule grow_same, simp add: Let_def split: sum.splits option.splits)+

lemma grow_remove [grow_intros]:
  "mails_grow d (snd (removeUser now u i e d))" "mails_grow d (snd (removeDevice now u i v d))"
  unfolding removeUser_def removeDevice_def
  by (rule grow.admin, rule grow_same, simp split: prod.splits bool.splits, metis sync_mails(5,6) snd_conv)+

lemma grow_merge [grow_intros]: "mails_grow d (snd (mergeTicket now u i target d))"
  unfolding mergeTicket_def
proof (rule grow.admin)
  fix d :: tdb
  have "mails_grow d d'" if "mergeTicketInto now i g who d = Inr d'" for g who d'
  proof (rule grow_update)
    show "td_mails d' = update_rows (\<lambda>m. mp_ticket m = Some i) (\<lambda>m. m\<lparr>mp_ticket := Some g\<rparr>) (td_mails d)"
      using that by (auto simp: mergeTicketInto_alt merge_tail_def merge_messages_def mark_merged_def set_ticket_def Let_def)
  qed simp
  then show "mails_grow d (snd (case target of None \<Rightarrow> (Inl Target_required, d)
      | Some g \<Rightarrow> (case mergeTicketInto now i g (Some (id_name u)) d of Inl e \<Rightarrow> (Inl (Merge_refused e), d) | Inr d1 \<Rightarrow> (Inr (), d1))))"
    by (auto simp: mails_grow_refl split: option.splits sum.splits)
qed

lemma grow_event [grow_intros]: "mails_grow d (snd (attachSystemEvent now v author text d))"
proof -
  have "mails_grow d (foldl (\<lambda>d1 t. add_message now (tk_id t) ty a c s d1) d ts)" for ty a c s and ts :: "ticket list"
    by (rule grow.fold_step, rule grow_same) simp
  then show ?thesis by (simp add: attachSystemEvent_def Let_def mails_grow_refl)
qed

lemma insert_mail_messages_mails [simp]: "td_mails (insert_mail_messages now i ms d) = td_mails d"
  unfolding insert_mail_messages_def by (induction ms arbitrary: d) (auto split: prod.splits)

lemma grow_linked: "td_mails d' = update_rows P (mp_ticket_update (\<lambda>_. x)) (td_mails d) \<Longrightarrow> mails_grow d d'"
  by (rule grow_update) simp_all

lemma grow_accept [grow_intros]: "mails_grow d (snd (acceptProposal fmt now u p ab d))"
  unfolding acceptProposal_def
  by (rule grow.admin)
    (auto simp: Let_def insert_ticket_def mails_grow_refl intro!: grow_linked split: option.splits)

lemma grow_workers [grow_intros]:
  "mails_grow d (snd (claimForSend now m d))" "mails_grow d (releaseClaim m d)" "mails_grow d (snd (markFailure now m n err d))"
  by (auto simp: claimForSend_def releaseClaim_def markFailure_def Let_def intro!: grow_same split: option.splits)

lemma grow_mark [grow_intros]: "mails_grow d (markMapping now mi d)"
  by (rule grow_update [where P = "\<lambda>m. mp_id m = mi"]) (auto simp: markMapping_def)

lemma grow_dismiss [grow_intros]: "mails_grow d (snd (dismissInboxMapping sha now mi whole d))"
proof -
  have "mails_grow d (d\<lparr>td_mails := update_rows P (\<lambda>x. x\<lparr>mp_action := a, mp_processed := w\<rparr>) (td_mails d)\<rparr>)" for P a w
    by (rule grow_update) simp_all
  then show ?thesis by (simp add: dismissInboxMapping_def Let_def mails_grow_refl split: option.splits)
qed

lemma append_reply_mails [simp]: "appendReplyToProposal i r d = (b, d1) \<Longrightarrow> td_mails d1 = td_mails d"
  by (auto simp: appendReplyToProposal_def split: if_splits)

lemma grow_commit [grow_intros]: "mails_grow d (snd (commit_mail sha fault now p d))"
proof -
  let ?stored = "storedMessageId sha (pn_imid p)"
  have imid: "mp_imid (inbound_row sha now p) = ?stored" by (simp add: inbound_row_def Let_def)
  show ?thesis
    by (auto simp: commit_mail_def Let_def appendMessageToTicket_def imid mails_grow_refl intro!: grow_put
        split: option.splits prod.splits bool.splits dest: append_reply_mails)
qed

lemma grow_commit_sent [grow_intros]: "mails_grow d (snd (commit_sent sha fault now p d))"
proof -
  have "mails_grow d (appendSentMessageToTicket now i who c w (put_mail m d))"
    if "\<not> list_ex (\<lambda>r. mp_imid r = mp_imid m) (td_mails d)" for i who c w m
    by (rule mails_grow_trans [OF grow_put [OF that HOL.refl] grow_same]) (simp add: appendSentMessageToTicket_def)
  then show ?thesis by (auto simp: commit_sent_def Let_def mails_grow_refl)
qed

lemma claim_row_imid [simp]: "mp_imid (claim_row now t m) = mp_imid m"
  by (simp add: claim_row_def)

lemma grow_pour: "mails_grow (snd s) (snd (pour_item sha now t x s))"
proof -
  obtain b d1 where c: "claim_item sha now t x (snd s) = (b, d1)" by (cases "claim_item sha now t x (snd s)")
  have "mails_grow (snd s) d1"
  proof (cases "it_mapping x")
    case None
    with c show ?thesis by (auto simp: claim_item_def Let_def mails_grow_refl intro!: grow_put split: if_splits)
  next
    case (Some i)
    with c show ?thesis
      by (auto simp: claim_item_def intro!: grow_update [where P = "free_row i" and f = "claim_row now t"])
  qed
  with c show ?thesis
    by (auto simp: pour_item_def split: bool.splits intro: mails_grow_trans [OF _ grow_same])
qed

lemma grow_append: "mails_grow d (snd (appendThreadToTicket sha now t items d))"
proof -
  have "mails_grow (snd s) (snd (foldl (\<lambda>s x. pour_item sha now t x s) s items))" for s
  proof (induction items arbitrary: s)
    case (Cons x xs)
    show ?case using mails_grow_trans [OF grow_pour [of s sha now t x] Cons] by simp
  qed (simp add: mails_grow_refl)
  from mails_grow_trans [OF this [of "(0, d)"] grow_same] show ?thesis
    by (auto simp: appendThreadToTicket_def split: prod.splits)
qed

lemma fold_involved_mails [simp]:
  "td_mails (foldl (\<lambda>d s. if P s then d else addInvolvedUser now i (f s) d) d xs) = td_mails d"
  "td_mails (foldl (\<lambda>d s. addInvolvedUser now i (f s) d) d xs) = td_mails d"
  by (induction xs arbitrary: d) auto

lemma grow_to_ticket [grow_intros]: "mails_grow d (snd (createTicketFromMapping sha ls gm fmt now mi who who_name prep d))"
proof -
  have made: "mails_grow d d3" if "insert_ticket now ti de pr dv us src au cr cn d = (t, d1)"
      "appendThreadToTicket sha now (tk_id t) items d1 = (n, d2)" "td_mails d3 = td_mails d2"
    for ti de pr dv us src au cr cn t d1 items n d2 d3
    using grow_append [of d1 sha now "tk_id t" items] insert_ticket_rows(8) [OF that(1)] that(2,3)
    by (simp add: mails_grow_def)
  then show ?thesis
    by (auto simp: createTicketFromMapping_def Let_def mails_grow_refl split: sum.splits prod.splits intro: made)
qed

lemma grow_attach [grow_intros]: "mails_grow d (snd (attachMappingToTicket sha ls gm now mi i prep d))"
proof -
  have made: "mails_grow d d2" if "appendThreadToTicket sha now i items d = (n, d1)" "td_mails d2 = td_mails d1" for items n d1 d2
    using grow_append [of d sha now i items] that by (simp add: mails_grow_def)
  then show ?thesis
    by (auto simp: attachMappingToTicket_def Let_def mails_grow_refl split: sum.splits prod.splits option.splits intro: made)
qed

lemma ticket_step_grow: "ticket_step d d' \<Longrightarrow> mails_grow d d'"
  by (erule ticket_step.cases) (simp_all add: grow_intros)


section \<open>Once\<close>

lemma grow_known: "mails_grow d d' \<Longrightarrow> i \<in> set (imids d) \<Longrightarrow> i \<in> set (imids d')"
  unfolding mails_grow_def by (metis Un_iff set_append)

lemma grow_distinct: "mails_grow d d' \<Longrightarrow> distinct (imids d) \<Longrightarrow> distinct (imids d')"
  unfolding mails_grow_def by (metis distinct_append inf_commute)

lemma known_imid: "list_ex (\<lambda>m. mp_imid m = i) (td_mails d) \<longleftrightarrow> i \<in> set (imids d)"
  by (auto simp: list_ex_iff)

lemma committed_known:
  assumes "commit_mail sha fault now p d = (r, d1)" "rs_committed r"
  shows "storedMessageId sha (pn_imid p) \<in> set (imids d1)"
  using assms by (auto simp: commit_mail_def Let_def result_of_def inbound_row_def put_mail_def split: if_splits option.splits prod.splits)

lemma stored_known: "storedMessageId sha i \<in> set (imids d) \<Longrightarrow> known_mail sha d i"
  by (force simp: known_mail_def list_ex_iff messageIdLookupKeys_def)

text \<open>
  C22: A mail is ingested once. Once a transaction has recorded a mail, and whatever all the
  components do after it, the mail's identifier keeps exactly one row: a later poll of the same
  mail stops at \<open>already_ingested\<close> before it asks Graph or the classifier anything, and a plan
  made earlier by another worker, for the received or for the sent folder, writes nothing when its
  transaction comes after.
\<close>

theorem mail_is_ingested_once:
  assumes "distinct (imids d)" and "commit_mail sha fault now p d = (r, d1)" and "rs_committed r" and "reachable d1 d2"
  shows "length (filter (\<lambda>m. mp_imid m = storedMessageId sha (pn_imid p)) (td_mails d2)) = 1 \<and>
     (gm_imid (strip_mail raw) = Some (pn_imid p) \<longrightarrow> pn_imid p \<noteq> [] \<longrightarrow>
        processOne sha get_message classify fault' now' memo mailbox raw d2 = (result_of Already_ingested, d2)) \<and>
     (pn_imid q = pn_imid p \<longrightarrow> snd (commit_mail sha fault' now' q d2) = d2) \<and>
     (sp_imid sq = pn_imid p \<longrightarrow> snd (commit_sent sha fault' now' sq d2) = d2)"
proof -
  let ?s = "storedMessageId sha (pn_imid p)"
  have g1: "mails_grow d d1" using grow_commit [of d sha fault now p] assms(2) by simp
  have g2: "mails_grow d1 d2" by (rule grow.runs [OF ticket_step_grow assms(4)])
  have known: "?s \<in> set (imids d2)" by (rule grow_known [OF g2 committed_known [OF assms(2,3)]])
  have dist: "distinct (imids d2)" by (rule grow_distinct [OF g2 grow_distinct [OF g1 assms(1)]])
  have one: "length (filter (\<lambda>m. f m = x) ms) = 1" if "distinct (map f ms)" "x \<in> set (map f ms)" for f :: "mapping \<Rightarrow> jsstring" and x ms
    using that by (induction ms) (auto simp: filter_empty_conv, metis imageI)
  show ?thesis
    using one [OF dist known] known stored_known [OF known]
    by (auto simp: processOne_def prepare_mail_def commit_mail_def commit_sent_def known_imid Let_def truthy_def)
qed

text \<open>A mail nobody answered before; the same mail comes back from a second poll.\<close>

definition sample_plan :: plan where
  "sample_plan =
     \<lparr>pn_mail = \<lparr>gm_id = None, gm_imid = Some ''<a@x>'', gm_conversation = None, gm_subject = Some ''Printer'', gm_from = None,
        gm_from_name = None, gm_received = Some 5, gm_sent = None, gm_headers = [], gm_preview = None, gm_folder = None\<rparr>,
      pn_imid = ''<a@x>'', pn_mailbox = ''it@x.org'', pn_thread = None, pn_classifier = thread_reply [], pn_body = None,
      pn_sender = None\<rparr>"

theorem mail_is_ingested_once_witness:
  "length (td_mails (snd (commit_mail (\<lambda>s. s) False 10 sample_plan empty_tdb))) = 1 \<and>
   processOne (\<lambda>s. s) (\<lambda>a b. None) (\<lambda>a b c. Inl []) False 20 None ''it@x.org'' (pn_mail sample_plan)
     (snd (commit_mail (\<lambda>s. s) False 10 sample_plan empty_tdb)) =
   (result_of Already_ingested, snd (commit_mail (\<lambda>s. s) False 10 sample_plan empty_tdb))"
proof -
  let ?c = "commit_mail (\<lambda>s. s) False 10 sample_plan empty_tdb"
  have "distinct (imids empty_tdb)" by (simp add: empty_tdb_def)
  moreover have "rs_committed (fst ?c)" "gm_imid (strip_mail (pn_mail sample_plan)) = Some (pn_imid sample_plan)"
    "pn_imid sample_plan \<noteq> []" "length (td_mails (snd ?c)) = 1" by code_simp+
  moreover have "reachable (snd ?c) (snd ?c)" by (simp add: reachable_def)
  ultimately show ?thesis
    using mail_is_ingested_once [of empty_tdb "\<lambda>s. s" False 10 sample_plan "fst ?c" "snd ?c" "snd ?c" "pn_mail sample_plan"] by simp
qed

end
