(* ===== verification/OutboxSafety.thy ===== *)
theory OutboxSafety imports Outbox begin

text \<open>
  The life of one message in the outbox (\<open>outbound-worker.js\<close>): any number of calls of
  \<open>sendOne\<close> interleaved at their awaits, and the abstract machine they refine, which moves on
  the answers of Graph alone.
\<close>

section \<open>The phases of a message\<close>

datatype phase = Queued nat | Left | Dead

definition message_of :: "tdb \<Rightarrow> uuid \<Rightarrow> message option" where
  "message_of d i = find (\<lambda>m. ms_id m = i) (td_messages d)"

definition row_phase :: "message \<Rightarrow> phase" where
  "row_phase m =
     (if ms_failed_at m \<noteq> None then Dead else if ms_sent_at m = None then Queued (ms_attempts m) else Left)"




definition message_ids_distinct :: "tdb \<Rightarrow> bool" where
  "message_ids_distinct d \<longleftrightarrow> distinct (map ms_id (td_messages d))"

text \<open>What other requests do meanwhile, as long as they leave this message alone.\<close>

definition leaves_alone :: "uuid \<Rightarrow> (tdb \<Rightarrow> tdb) \<Rightarrow> bool" where
  "leaves_alone i f \<longleftrightarrow>
     (\<forall>d. message_ids_distinct d \<longrightarrow> message_ids_distinct (f d) \<and> message_of (f d) i = message_of d i)"





lemma message_of_id: "message_of d i = Some m \<Longrightarrow> ms_id m = i"
  by (auto simp: message_of_def find_Some_iff)







section \<open>Workers side by side\<close>

text \<open>
  The base, the world of Graph, every call in progress, the letters Graph was given with what it
  answered, and the outcomes the calls came back with, in their order, each with its message.
\<close>

record 'w outbox =
  ob_db :: tdb
  ob_world :: 'w
  ob_workers :: "worker list"
  ob_posts :: "(uuid \<times> outcome) list"
  ob_log :: "(uuid \<times> outcome) list"

text \<open>Graph, with a note of every letter it is given.\<close>

definition recording :: "'w mailer \<Rightarrow> ('w \<times> outcome list) mailer" where
  "recording send l s = (case send l (fst s) of (answer, w) \<Rightarrow> (answer, w, snd s @ [answer]))"

fun works_on :: "worker \<Rightarrow> uuid" where
  "works_on (W_started mt) = ms_id (fst mt)"
| "works_on (W_addressed mt ms to) = ms_id (fst mt)"
| "works_on (W_holding mt ms to n) = ms_id (fst mt)"
| "works_on (W_answered mt n answer) = ms_id (fst mt)"
| "works_on (W_finished v) = 0"

definition outbox_turn :: "(uuid \<Rightarrow> jsstring) \<Rightarrow> 'w mailer \<Rightarrow> jsstring \<Rightarrow> time \<Rightarrow> nat \<Rightarrow> 'w outbox \<Rightarrow> 'w outbox" where
  "outbox_turn ut send sender now k S =
     (case worker_step ut (recording send) now sender (ob_workers S ! k) (ob_db S, ob_world S, []) of
        (wk, d, w, given) \<Rightarrow>
          \<lparr>ob_db = d, ob_world = w, ob_workers = (ob_workers S)[k := wk],
           ob_posts = ob_posts S @ map (Pair (works_on (ob_workers S ! k))) given,
           ob_log = ob_log S @ (case wk of W_answered mt n answer \<Rightarrow> [(ms_id (fst mt), answer)] | _ \<Rightarrow> [])\<rparr>)"

text \<open>
  A call starts on any snapshot of any message; a call goes on to its next await; other requests
  write the base, leaving message \<open>i\<close> alone. A call that never goes on is an instance that crashed.
\<close>

inductive outbox_step ::
    "(uuid \<Rightarrow> jsstring) \<Rightarrow> 'w mailer \<Rightarrow> jsstring \<Rightarrow> uuid \<Rightarrow> 'w outbox \<Rightarrow> 'w outbox \<Rightarrow> bool"
  for ut :: "uuid \<Rightarrow> jsstring" and send :: "'w mailer" and sender :: jsstring and i :: uuid where
  ob_start: "outbox_step ut send sender i S (S\<lparr>ob_workers := ob_workers S @ [W_started mt]\<rparr>)"
| ob_turn: "k < length (ob_workers S) \<Longrightarrow> outbox_step ut send sender i S (outbox_turn ut send sender now k S)"
| ob_other: "leaves_alone i f \<Longrightarrow> outbox_step ut send sender i S (S\<lparr>ob_db := f (ob_db S)\<rparr>)"



















lemma claimable_row: "message_of d i = Some r \<Longrightarrow> claimable i r \<longleftrightarrow> row_phase r = Queued (ms_attempts r)"
  by (auto simp: claimable_def row_phase_def dest: message_of_id)








section \<open>What the phases allow\<close>



















end
