(* ===== verification/NativeGroups.thy ===== *)
theory NativeGroups imports Prelude begin

text \<open>
  Native groups (\<open>groups/lib/groups.js\<close>, \<open>groups/routes/native-groups.js\<close>,
  \<open>groups/lib/group-sync.js\<close>): groups of machines, people and groups, the test against
  cycles, the effective members, the import of a tree of Entra groups and its synchronisation.

  Microsoft Graph is a parameter (a record of functions that fail with \<open>None\<close>). The rows of a
  query without ORDER BY come in the order of their insertion.
\<close>

section \<open>Tables\<close>

record group_row =
  gp_id :: uuid
  gp_name :: jsstring
  gp_desc :: "jsstring option"
  gp_color :: jsstring
  gp_source :: jsstring
  gp_entra :: "jsstring option"
  gp_updated_by :: "jsstring option"

record member =
  mb_id :: uuid
  mb_group :: uuid
  mb_device :: "uuid option"
  mb_user :: "jsstring option"
  mb_child :: "uuid option"
  mb_by :: "jsstring option"

record group_audit =
  ga_action :: jsstring
  ga_by :: "jsstring option"
  ga_target :: jsstring
  ga_detail :: "jsstring option"

record gdb =
  gd_groups :: "group_row list"
  gd_members :: "member list"
  gd_devices :: "(uuid \<times> jsstring) list"
  gd_audit :: "group_audit list"
  gd_next :: uuid

datatype gr_error =
    Group_not_found | Group_name_required | Group_name_empty | Group_bad_color | Group_name_taken
  | Member_required | One_member_only | Self_member | Member_group_not_found | Would_cycle | Already_member
  | Group_device_not_found | Group_member_not_found | Entra_id_required | Already_imported jsstring
  | Graph_failed | Not_linked | Detach_not_found | Group_failure

definition GROUP_COLORS :: "jsstring list" where
  "GROUP_COLORS = [''slate'', ''blue'', ''green'', ''amber'', ''red'', ''violet'', ''pink'', ''teal'']"

definition find_group :: "gdb \<Rightarrow> uuid \<Rightarrow> group_row option" where
  "find_group d i = find (\<lambda>g. gp_id g = i) (gd_groups d)"

definition group_by_entra :: "gdb \<Rightarrow> jsstring \<Rightarrow> group_row option" where
  "group_by_entra d e = find (\<lambda>g. gp_entra g = Some e) (gd_groups d)"

definition members_of :: "gdb \<Rightarrow> uuid \<Rightarrow> member list" where
  "members_of d g = filter (\<lambda>m. mb_group m = g) (gd_members d)"

definition group_log :: "jsstring \<Rightarrow> jsstring option \<Rightarrow> jsstring \<Rightarrow> jsstring option \<Rightarrow> gdb \<Rightarrow> gdb" where
  "group_log action who target detail d =
     d\<lparr>gd_audit := gd_audit d @ [\<lparr>ga_action = action, ga_by = who, ga_target = target, ga_detail = detail\<rparr>]\<rparr>"

section \<open>Direct members\<close>

record direct_members =
  dm_devices :: "(uuid \<times> uuid \<times> jsstring option) list"
  dm_users :: "(uuid \<times> jsstring option) list"
  dm_groups :: "(uuid \<times> uuid \<times> jsstring option \<times> nat) list"

definition resolveGroupMembers :: "gdb \<Rightarrow> uuid \<Rightarrow> direct_members" where
  "resolveGroupMembers d g =
     (let rows = members_of d g in
      \<lparr>dm_devices = map (\<lambda>m. (mb_id m, the (mb_device m), map_of (gd_devices d) (the (mb_device m))))
                      (filter (\<lambda>m. mb_device m \<noteq> None) rows),
       dm_users = map (\<lambda>m. (mb_id m, mb_user m)) (filter (\<lambda>m. mb_device m = None \<and> mb_child m = None) rows),
       dm_groups = map (\<lambda>m. (mb_id m, the (mb_child m), map_option gp_name (find_group d (the (mb_child m))),
                             length (members_of d (the (mb_child m)))))
                      (filter (\<lambda>m. mb_device m = None \<and> mb_child m \<noteq> None) rows)\<rparr>)"

section \<open>Effective members\<close>

definition MAX_GROUP_DEPTH :: nat where "MAX_GROUP_DEPTH = 20"

text \<open>A \<open>Set\<close> in insertion order.\<close>

definition set_put :: "'a \<Rightarrow> 'a list \<Rightarrow> 'a list" where
  "set_put x s = (if x \<in> set s then s else s @ [x])"

text \<open>
  \<open>resolveGroupDeviceIds\<close> and \<open>resolveGroupUserIds\<close> differ by the column they collect,
  the parameter \<open>f\<close>. The number is \<open>MAX_GROUP_DEPTH + 1 - _depth\<close>; \<open>seen\<close> is the
  shared set \<open>_seen\<close>.
\<close>

fun effective :: "(member \<Rightarrow> 'a option) \<Rightarrow> nat \<Rightarrow> gdb \<Rightarrow> uuid \<Rightarrow> uuid list \<Rightarrow> 'a list \<times> uuid list"
  and effective_rows :: "(member \<Rightarrow> 'a option) \<Rightarrow> nat \<Rightarrow> gdb \<Rightarrow> member list \<Rightarrow> 'a list \<Rightarrow> uuid list \<Rightarrow> 'a list \<times> uuid list" where
  "effective f 0 d g seen = ([], seen)"
| "effective f (Suc k) d g seen =
     (if g \<in> set seen then ([], seen) else effective_rows f k d (members_of d g) [] (g # seen))"
| "effective_rows f k d [] ids seen = (ids, seen)"
| "effective_rows f k d (m # ms) ids seen =
     (case f m of
        Some v \<Rightarrow> effective_rows f k d ms (set_put v ids) seen
      | None \<Rightarrow>
         (case mb_child m of
            None \<Rightarrow> effective_rows f k d ms ids seen
          | Some c \<Rightarrow>
             (case effective f k d c seen of
                (sub, seen1) \<Rightarrow> effective_rows f k d ms (foldl (\<lambda>s v. set_put v s) ids sub) seen1)))"

definition resolveGroupDeviceIds :: "gdb \<Rightarrow> uuid \<Rightarrow> uuid list" where
  "resolveGroupDeviceIds d g = fst (effective mb_device (MAX_GROUP_DEPTH + 1) d g [])"

definition resolveGroupUserIds :: "gdb \<Rightarrow> uuid \<Rightarrow> jsstring list" where
  "resolveGroupUserIds d g = fst (effective mb_user (MAX_GROUP_DEPTH + 1) d g [])"

section \<open>The test against cycles\<close>

definition children :: "gdb \<Rightarrow> uuid \<Rightarrow> uuid list" where
  "children d g = map (the \<circ> mb_child) (filter (\<lambda>m. mb_child m \<noteq> None) (members_of d g))"

text \<open>
  The recursion of \<open>wouldCreateCycle\<close> with fuel: whether the parent was met, and the set
  \<open>_seen\<close>; \<open>None\<close> when the fuel is spent.
\<close>

fun would_cycle :: "nat \<Rightarrow> gdb \<Rightarrow> uuid \<Rightarrow> uuid \<Rightarrow> uuid list \<Rightarrow> (bool \<times> uuid list) option"
  and cycle_among :: "nat \<Rightarrow> gdb \<Rightarrow> uuid \<Rightarrow> uuid list \<Rightarrow> uuid list \<Rightarrow> (bool \<times> uuid list) option" where
  "would_cycle 0 d p c seen = None"
| "would_cycle (Suc n) d p c seen =
     (if c = p then Some (True, seen)
      else if c \<in> set seen then Some (False, seen)
      else cycle_among n d p (children d c) (c # seen))"
| "cycle_among n d p [] seen = Some (False, seen)"
| "cycle_among n d p (c # cs) seen =
     (case would_cycle n d p c seen of
        None \<Rightarrow> None
      | Some (True, s) \<Rightarrow> Some (True, s)
      | Some (False, s) \<Rightarrow> cycle_among n d p cs s)"

definition wouldCreateCycle :: "gdb \<Rightarrow> uuid \<Rightarrow> uuid \<Rightarrow> bool option" where
  "wouldCreateCycle d p c = map_option fst (would_cycle (length (gd_members d) + 2) d p c [])"

section \<open>The routes\<close>

text \<open>\<open>String(body.x ?? '').trim() || null\<close>.\<close>

definition text_field :: "jsstring option \<Rightarrow> jsstring \<Rightarrow> jsstring" where
  "text_field v dflt = js_trim (or_else v dflt)"

definition non_empty :: "jsstring \<Rightarrow> jsstring option" where
  "non_empty s = (if s = [] then None else Some s)"

definition new_group :: "jsstring \<Rightarrow> jsstring option \<Rightarrow> jsstring \<Rightarrow> jsstring \<Rightarrow> jsstring option \<Rightarrow> jsstring option \<Rightarrow> gdb \<Rightarrow> group_row" where
  "new_group name desc color source ent who d =
     \<lparr>gp_id = gd_next d, gp_name = name, gp_desc = desc, gp_color = color, gp_source = source, gp_entra = ent, gp_updated_by = who\<rparr>"

definition insert_group :: "group_row \<Rightarrow> gdb \<Rightarrow> gdb" where
  "insert_group g d = d\<lparr>gd_groups := gd_groups d @ [g], gd_next := gd_next d + 1\<rparr>"

definition name_taken :: "jsstring \<Rightarrow> gdb \<Rightarrow> bool" where
  "name_taken s d \<longleftrightarrow> list_ex (\<lambda>g. gp_name g = s) (gd_groups d)"

definition createGroup ::
    "jsstring option \<Rightarrow> jsstring option \<Rightarrow> jsstring option \<Rightarrow> jsstring option \<Rightarrow> gdb \<Rightarrow> (gr_error + group_row) \<times> gdb" where
  "createGroup who name0 desc0 color0 d =
     (let name = text_field name0 []; desc = non_empty (text_field desc0 []); color = text_field color0 ''slate'' in
      if name = [] then (Inl Group_name_required, d)
      else if color \<notin> set GROUP_COLORS then (Inl Group_bad_color, d)
      else if name_taken name d then (Inl Group_name_taken, d)
      else let g = new_group name desc color ''native'' None who d
           in (Inr g, group_log ''group_created'' who name None (insert_group g d)))"

text \<open>\<open>body.x !== undefined ? String(body.x).trim() : undefined\<close>; a null becomes the text \<open>null\<close>.\<close>

definition patch_field :: "jsstring option option \<Rightarrow> jsstring option" where
  "patch_field v = map_option (\<lambda>x. js_trim (or_else x ''null'')) v"

definition patchGroup ::
    "jsstring option \<Rightarrow> uuid \<Rightarrow> jsstring option option \<Rightarrow> jsstring option option \<Rightarrow> jsstring option option \<Rightarrow> gdb
     \<Rightarrow> (gr_error + group_row) \<times> gdb" where
  "patchGroup who i name0 desc0 color0 d =
     (case find_group d i of
        None \<Rightarrow> (Inl Group_not_found, d)
      | Some g \<Rightarrow>
          let name = patch_field name0; desc = patch_field desc0; color = patch_field color0 in
          if name = Some [] then (Inl Group_name_empty, d)
          else if (case color of None \<Rightarrow> False | Some c \<Rightarrow> c \<notin> set GROUP_COLORS) then (Inl Group_bad_color, d)
          else if (case name of None \<Rightarrow> False | Some n \<Rightarrow> n \<noteq> gp_name g \<and> name_taken n d) then (Inl Group_name_taken, d)
          else
            let g1 = g\<lparr>gp_name := or_else name (gp_name g), gp_desc := first_some desc (gp_desc g),
                       gp_color := or_else color (gp_color g), gp_updated_by := who\<rparr>
            in (Inr g1, group_log ''group_updated'' who (gp_name g) None
                          (d\<lparr>gd_groups := update_rows (\<lambda>x. gp_id x = i) (\<lambda>_. g1) (gd_groups d)\<rparr>)))"

text \<open>The foreign keys cascade: the members of the group go, and its memberships.\<close>

definition deleteGroup :: "jsstring option \<Rightarrow> uuid \<Rightarrow> gdb \<Rightarrow> (gr_error + unit) \<times> gdb" where
  "deleteGroup who i d =
     (case find_group d i of
        None \<Rightarrow> (Inl Group_not_found, d)
      | Some g \<Rightarrow>
          (Inr (), group_log ''group_deleted'' who (gp_name g) None
             (d\<lparr>gd_groups := filter (\<lambda>x. gp_id x \<noteq> i) (gd_groups d),
                gd_members := filter (\<lambda>m. mb_group m \<noteq> i \<and> mb_child m \<noteq> Some i) (gd_members d)\<rparr>)))"

text \<open>The body of an addition; an empty user is not a member but is not null either.\<close>

record member_body =
  bd_device :: "uuid option"
  bd_user :: "jsstring option"
  bd_child :: "uuid option"

definition provided :: "member_body \<Rightarrow> nat" where
  "provided b = (if bd_device b = None then 0 else 1) + (if truthy (bd_user b) then 1 else 0) + (if bd_child b = None then 0 else 1)"

text \<open>The checks of the route: they read, and another request may run before the insertion.\<close>

definition checkMember :: "gdb \<Rightarrow> uuid \<Rightarrow> member_body \<Rightarrow> gr_error option" where
  "checkMember d g b =
     (if find_group d g = None then Some Group_not_found
      else if provided b = 0 then Some Member_required
      else if 1 < provided b then Some One_member_only
      else (case bd_child b of
         None \<Rightarrow> None
       | Some c \<Rightarrow>
           if c = g then Some Self_member
           else if find_group d c = None then Some Member_group_not_found
           else (case wouldCreateCycle d g c of
              None \<Rightarrow> Some Group_failure
            | Some True \<Rightarrow> Some Would_cycle
            | Some False \<Rightarrow> None)))"

definition same_member :: "uuid \<Rightarrow> member_body \<Rightarrow> member \<Rightarrow> bool" where
  "same_member g b m \<longleftrightarrow>
     mb_group m = g \<and>
     ((bd_device b \<noteq> None \<and> mb_device m = bd_device b) \<or> (bd_user b \<noteq> None \<and> mb_user m = bd_user b) \<or>
      (bd_child b \<noteq> None \<and> mb_child m = bd_child b))"

definition add_row :: "uuid \<Rightarrow> member_body \<Rightarrow> jsstring option \<Rightarrow> gdb \<Rightarrow> gdb" where
  "add_row g b who d =
     d\<lparr>gd_members := gd_members d @ [\<lparr>mb_id = gd_next d, mb_group = g, mb_device = bd_device b, mb_user = bd_user b,
                                       mb_child = bd_child b, mb_by = who\<rparr>],
       gd_next := gd_next d + 1\<rparr>"

definition member_target :: "member_body \<Rightarrow> jsstring" where
  "member_target b =
     (case bd_device b of
        Some v \<Rightarrow> ''device:'' @ nat_str v
      | None \<Rightarrow> (case bd_child b of Some c \<Rightarrow> ''group:'' @ nat_str c | None \<Rightarrow> ''user:'' @ or_else (bd_user b) ''null''))"

text \<open>The insertion, under the constraints: one kind of member, no self, no duplicate, known machine.\<close>

definition insertMember :: "jsstring option \<Rightarrow> uuid \<Rightarrow> member_body \<Rightarrow> gdb \<Rightarrow> (gr_error + unit) \<times> gdb" where
  "insertMember who g b d =
     (case find_group d g of
        None \<Rightarrow> (Inl Group_failure, d)
      | Some row \<Rightarrow>
          if length (filter id [bd_device b \<noteq> None, bd_user b \<noteq> None, bd_child b \<noteq> None]) \<noteq> 1 \<or> bd_child b = Some g
          then (Inl Group_failure, d)
          else if list_ex (same_member g b) (gd_members d) then (Inl Already_member, d)
          else if (case bd_device b of None \<Rightarrow> False | Some v \<Rightarrow> map_of (gd_devices d) v = None) then (Inl Group_device_not_found, d)
          else if (case bd_child b of None \<Rightarrow> False | Some c \<Rightarrow> find_group d c = None) then (Inl Group_failure, d)
          else (Inr (), group_log ''group_member_added'' who (gp_name row) (Some (member_target b)) (add_row g b who d)))"

definition addMember :: "jsstring option \<Rightarrow> uuid \<Rightarrow> member_body \<Rightarrow> gdb \<Rightarrow> (gr_error + unit) \<times> gdb" where
  "addMember who g b d = (case checkMember d g b of Some e \<Rightarrow> (Inl e, d) | None \<Rightarrow> insertMember who g b d)"

text \<open>The row returned by DELETE has no \<open>member_group_id\<close>.\<close>

definition removed_target :: "member \<Rightarrow> jsstring" where
  "removed_target m = (case mb_device m of Some v \<Rightarrow> ''device:'' @ nat_str v | None \<Rightarrow> ''user:'' @ or_else (mb_user m) ''null'')"

definition removeMember :: "jsstring option \<Rightarrow> uuid \<Rightarrow> uuid \<Rightarrow> gdb \<Rightarrow> (gr_error + unit) \<times> gdb" where
  "removeMember who g i d =
     (case find_group d g of
        None \<Rightarrow> (Inl Group_not_found, d)
      | Some row \<Rightarrow>
         (case find (\<lambda>m. mb_id m = i \<and> mb_group m = g) (gd_members d) of
            None \<Rightarrow> (Inl Group_member_not_found, d)
          | Some m \<Rightarrow>
              (Inr (), group_log ''group_member_removed'' who (gp_name row) (Some (removed_target m))
                 (d\<lparr>gd_members := filter (\<lambda>x. \<not> (mb_id x = i \<and> mb_group x = g)) (gd_members d)\<rparr>))))"

definition detachEntra :: "jsstring option \<Rightarrow> uuid \<Rightarrow> gdb \<Rightarrow> (gr_error + unit) \<times> gdb" where
  "detachEntra who i d =
     (case find (\<lambda>g. gp_id g = i \<and> gp_entra g \<noteq> None) (gd_groups d) of
        None \<Rightarrow> (Inl Detach_not_found, d)
      | Some g \<Rightarrow>
          (Inr (), group_log ''group_detached_from_entra'' who (gp_name g) None
             (d\<lparr>gd_groups := update_rows (\<lambda>x. gp_id x = i)
                  (\<lambda>x. x\<lparr>gp_source := ''native'', gp_entra := None, gp_updated_by := who\<rparr>) (gd_groups d)\<rparr>)))"


section \<open>Import of a tree of Entra groups\<close>

definition MAX_IMPORT_DEPTH :: nat where "MAX_IMPORT_DEPTH = 20"

text \<open>Direct members of an Entra group: host names, people, sub-groups (identifier, name, description).\<close>

record graph_api =
  gx_hostnames :: "jsstring \<Rightarrow> jsstring list option"
  gx_users :: "jsstring \<Rightarrow> jsstring list option"
  gx_nested :: "jsstring \<Rightarrow> (jsstring \<times> jsstring \<times> jsstring option) list option"

record import_stats =
  is_created :: nat
  is_devices :: nat
  is_users :: nat
  is_unmatched :: nat
  is_truncated :: bool

definition no_import :: import_stats where
  "no_import = \<lparr>is_created = 0, is_devices = 0, is_users = 0, is_unmatched = 0, is_truncated = False\<rparr>"

definition try_name :: "jsstring \<Rightarrow> jsstring \<Rightarrow> nat \<Rightarrow> jsstring" where
  "try_name name entra attempt =
     take 200 (if attempt = 0 then name
               else name @ '' ['' @ take 6 entra @ (if 1 < attempt then ''-'' @ nat_str attempt else []) @ '']'')"

text \<open>Up to six names; \<open>None\<close> when all are taken.\<close>

definition free_name :: "gdb \<Rightarrow> jsstring \<Rightarrow> jsstring \<Rightarrow> jsstring option" where
  "free_name d name entra = find (\<lambda>s. \<not> name_taken s d) (map (try_name name entra) [0..<6])"

definition createEntraGroup ::
    "gdb \<Rightarrow> jsstring \<Rightarrow> jsstring option \<Rightarrow> jsstring \<Rightarrow> jsstring \<Rightarrow> jsstring option \<Rightarrow> (uuid \<times> gdb) option" where
  "createEntraGroup d name desc color entra who =
     (case free_name d name entra of
        None \<Rightarrow> None
      | Some s \<Rightarrow> Some (gd_next d, insert_group (new_group s desc color ''entra'' (Some entra) who d) d))"

text \<open>\<open>INSERT ... ON CONFLICT DO NOTHING\<close>.\<close>

definition put_member :: "uuid \<Rightarrow> member_body \<Rightarrow> jsstring option \<Rightarrow> gdb \<Rightarrow> gdb" where
  "put_member g b who d = (if list_ex (same_member g b) (gd_members d) then d else add_row g b who d)"

definition device_member :: "uuid \<Rightarrow> member_body" where
  "device_member v = \<lparr>bd_device = Some v, bd_user = None, bd_child = None\<rparr>"

definition user_member :: "jsstring \<Rightarrow> member_body" where
  "user_member u = \<lparr>bd_device = None, bd_user = Some u, bd_child = None\<rparr>"

definition child_member :: "uuid \<Rightarrow> member_body" where
  "child_member c = \<lparr>bd_device = None, bd_user = None, bd_child = Some c\<rparr>"

definition replaced_by_sync :: "gdb \<Rightarrow> uuid \<Rightarrow> bool \<Rightarrow> member \<Rightarrow> bool" where
  "replaced_by_sync d g recursive m \<longleftrightarrow>
     mb_group m = g \<and>
     (case mb_child m of None \<Rightarrow> True
      | Some c \<Rightarrow> recursive \<and> list_ex (\<lambda>x. gp_id x = c \<and> gp_source x = ''entra'') (gd_groups d))"

definition fill_direct ::
    "uuid \<Rightarrow> bool \<Rightarrow> bool \<Rightarrow> jsstring option \<Rightarrow> jsstring list \<Rightarrow> jsstring list \<Rightarrow> gdb \<times> import_stats \<Rightarrow> gdb \<times> import_stats" where
  "fill_direct g sync recursive who hosts users s =
     (case s of (d, st) \<Rightarrow>
       let devs = map fst (filter (\<lambda>(v, h). h \<in> set hosts) (gd_devices d));
           d1 = (if sync then d\<lparr>gd_members := filter (\<lambda>m. \<not> replaced_by_sync d g recursive m) (gd_members d)\<rparr> else d);
           d2 = foldl (\<lambda>x v. put_member g (device_member v) who x) d1 devs;
           d3 = foldl (\<lambda>x u. put_member g (user_member u) who x) d2 users
       in (d3, st\<lparr>is_devices := is_devices st + length devs, is_users := is_users st + length users,
                  is_unmatched := is_unmatched st + (length hosts - length devs)\<rparr>))"

record import_options =
  io_color :: jsstring
  io_who :: "jsstring option"
  io_recursive :: bool
  io_sync :: bool

type_synonym import_state = "gdb \<times> (jsstring, uuid) jsmap \<times> import_stats"

type_synonym import_call = "jsstring \<Rightarrow> jsstring \<Rightarrow> jsstring option \<Rightarrow> import_state \<Rightarrow> gr_error + uuid option \<times> import_state"

text \<open>The loop over the sub-groups; \<open>visit\<close> is the recursive call.\<close>

fun import_children ::
    "import_call \<Rightarrow> import_options \<Rightarrow> uuid \<Rightarrow> (jsstring \<times> jsstring \<times> jsstring option) list \<Rightarrow> import_state \<Rightarrow> gr_error + import_state" where
  "import_children visit io i [] s = Inr s"
| "import_children visit io i (n # ns) s =
     (case n of (entra, name, desc) \<Rightarrow>
       (case visit entra (if name = [] then entra else name) desc s of
          Inl e \<Rightarrow> Inl e
        | Inr (None, s1) \<Rightarrow> import_children visit io i ns s1
        | Inr (Some c, d1, seen1, st1) \<Rightarrow>
            if c = i then Inl Group_failure
            else import_children visit io i ns (put_member i (child_member c) (io_who io) d1, seen1, st1)))"

definition import_node :: "graph_api \<Rightarrow> import_options \<Rightarrow> import_call \<Rightarrow> import_call" where
  "import_node gx io visit entra name desc s =
     (case s of (d, seen, st) \<Rightarrow>
       let known = group_by_entra d entra;
           made = (case known of
                     Some g \<Rightarrow> Some (gp_id g, d)
                   | None \<Rightarrow> createEntraGroup d (if name = [] then entra else name) desc (io_color io) entra (io_who io))
       in case made of
            None \<Rightarrow> Inl Group_failure
          | Some (i, d1) \<Rightarrow>
              (case (gx_hostnames gx entra, gx_users gx entra, if io_recursive io then gx_nested gx entra else Some []) of
                 (Some hosts, Some users, Some nested) \<Rightarrow>
                   let st1 = (if known = None then st\<lparr>is_created := is_created st + 1\<rparr> else st);
                       s2 = (if known = None \<or> io_sync io
                             then fill_direct i (io_sync io) (io_recursive io) (io_who io) hosts users (d1, st1)
                             else (d1, st1))
                   in (case import_children visit io i nested (fst s2, jm_set entra i seen, snd s2) of
                         Inl e \<Rightarrow> Inl e
                       | Inr s3 \<Rightarrow> Inr (Some i, s3))
               | _ \<Rightarrow> Inl Graph_failed))"

text \<open>
  The number is \<open>MAX_IMPORT_DEPTH + 1 - depth\<close>. The result is the id of the group, or
  \<open>None\<close> beyond the depth.
\<close>

primrec importEntraTree :: "nat \<Rightarrow> graph_api \<Rightarrow> import_options \<Rightarrow> import_call" where
  "importEntraTree 0 gx io entra name desc s =
     (case jm_get (fst (snd s)) entra of
        Some i \<Rightarrow> Inr (Some i, s)
      | None \<Rightarrow> Inr (None, fst s, fst (snd s), (snd (snd s))\<lparr>is_truncated := True\<rparr>))"
| "importEntraTree (Suc k) gx io entra name desc s =
     (case jm_get (fst (snd s)) entra of
        Some i \<Rightarrow> Inr (Some i, s)
      | None \<Rightarrow> import_node gx io (importEntraTree k gx io) entra name desc s)"

text \<open>Both routes run in a transaction: an error leaves the base as it was.\<close>

definition importFromEntra ::
    "graph_api \<Rightarrow> jsstring option \<Rightarrow> jsstring option \<Rightarrow> jsstring option \<Rightarrow> jsstring option \<Rightarrow> jsstring option \<Rightarrow> bool \<Rightarrow> gdb
     \<Rightarrow> (gr_error + uuid option \<times> import_stats) \<times> gdb" where
  "importFromEntra gx who entra0 name0 desc0 color0 recursive d =
     (let entra = text_field entra0 []; name = text_field name0 []; desc = non_empty (text_field desc0 []);
          color = text_field color0 ''slate'' in
      if entra = [] then (Inl Entra_id_required, d)
      else if name = [] then (Inl Group_name_required, d)
      else if color \<notin> set GROUP_COLORS then (Inl Group_bad_color, d)
      else (case group_by_entra d entra of
         Some g \<Rightarrow> (Inl (Already_imported (gp_name g)), d)
       | None \<Rightarrow>
          (case importEntraTree (MAX_IMPORT_DEPTH + 1) gx
                  \<lparr>io_color = color, io_who = who, io_recursive = recursive, io_sync = False\<rparr> entra name desc (d, [], no_import) of
             Inl e \<Rightarrow> (Inl e, d)
           | Inr (root_id, d1, seen, st) \<Rightarrow> (Inr (root_id, st), group_log ''group_imported_from_entra'' who name None d1))))"

definition syncFromEntra ::
    "graph_api \<Rightarrow> jsstring option \<Rightarrow> uuid \<Rightarrow> bool \<Rightarrow> gdb \<Rightarrow> (gr_error + import_stats) \<times> gdb" where
  "syncFromEntra gx who i recursive d =
     (case find_group d i of
        None \<Rightarrow> (Inl Group_not_found, d)
      | Some g \<Rightarrow>
         (case gp_entra g of
            None \<Rightarrow> (Inl Not_linked, d)
          | Some entra \<Rightarrow>
             (case importEntraTree (MAX_IMPORT_DEPTH + 1) gx
                     \<lparr>io_color = ''slate'', io_who = who, io_recursive = recursive, io_sync = True\<rparr> entra (gp_name g) None (d, [], no_import) of
                Inl e \<Rightarrow> (Inl e, d)
              | Inr (root_id, d1, seen, st) \<Rightarrow> (Inr st, group_log ''group_synced_from_entra'' who (gp_name g) None d1))))"

section \<open>Memberships of the deployments\<close>

text \<open>
  \<open>syncGroupMemberships\<close>: for each Entra group of an active deployment, its rows are replaced
  in a transaction; \<open>fault g\<close> tells that the database refused it.
\<close>

record membership_db =
  mm_rows :: "(uuid \<times> jsstring) list"
  mm_hosts :: "(uuid \<times> jsstring) list"

definition sync_one ::
    "(jsstring \<Rightarrow> jsstring list option) \<Rightarrow> (jsstring \<Rightarrow> bool) \<Rightarrow> jsstring \<Rightarrow> membership_db \<times> nat \<Rightarrow> membership_db \<times> nat" where
  "sync_one hostnames fault g s =
     (case hostnames g of
        None \<Rightarrow> s
      | Some hs \<Rightarrow>
          if fault g then s
          else
            let ids = map fst (filter (\<lambda>(v, h). h \<in> set hs) (mm_hosts (fst s)));
                kept = filter (\<lambda>r. snd r \<noteq> g) (mm_rows (fst s))
            in ((fst s)\<lparr>mm_rows := foldl (\<lambda>rs v. set_put (v, g) rs) kept ids\<rparr>, snd s + length ids))"

definition syncGroupMemberships ::
    "(jsstring \<Rightarrow> jsstring list option) \<Rightarrow> (jsstring \<Rightarrow> bool) \<Rightarrow> jsstring list \<Rightarrow> membership_db \<Rightarrow> (nat \<times> nat) \<times> membership_db" where
  "syncGroupMemberships hostnames fault jobs d =
     (let gs = js_uniq jobs; (d1, n) = foldl (\<lambda>s g. sync_one hostnames fault g s) (d, 0) gs
      in ((length gs, n), d1))"

end
