(* ===== verification/GroupSafety.thy ===== *)
theory GroupSafety imports NativeGroups begin

text \<open>
  The graph of the groups: the test against cycles terminates and decides reachability, the routes
  of the native groups keep the graph acyclic, and the effective members are those of the reachable
  groups while the depth limit is not met. Where the code does not keep these promises (two
  additions at once, a synchronisation, the depth limit) a concrete run shows it.
\<close>

section \<open>Reachability\<close>

definition edge :: "gdb \<Rightarrow> uuid \<Rightarrow> uuid \<Rightarrow> bool" where
  "edge d a b \<longleftrightarrow> (\<exists>m \<in> set (gd_members d). mb_group m = a \<and> mb_child m = Some b)"

abbreviation reaches :: "gdb \<Rightarrow> uuid \<Rightarrow> uuid \<Rightarrow> bool" where
  "reaches d \<equiv> (edge d)\<^sup>*\<^sup>*"

definition acyclic_groups :: "gdb \<Rightarrow> bool" where
  "acyclic_groups d \<longleftrightarrow> acyclic {(a, b). edge d a b}"

lemma set_children: "set (children d a) = {b. edge d a b}"
  by (force simp: children_def members_of_def edge_def)

lemma closed_reaches:
  assumes "reaches d a b" "a \<in> S" "\<And>x y. x \<in> S \<Longrightarrow> edge d x y \<Longrightarrow> y \<in> S" shows "b \<in> S"
  using assms by (induction rule: rtranclp_induct) auto

section \<open>The test against cycles\<close>

lemma would_cycle_SomeE:
  assumes "would_cycle (Suc n) d p c seen = Some (b, s)"
  obtains "c = p" "b" | "c \<noteq> p" "c \<in> set seen" "\<not> b" "s = seen"
    | "c \<noteq> p" "c \<notin> set seen" "cycle_among n d p (children d c) (c # seen) = Some (b, s)"
  using assms by (auto split: if_splits)

lemma cycle_among_SomeE:
  assumes "cycle_among n d p (c # cs) seen = Some (b, s)"
  obtains "b" "would_cycle n d p c seen = Some (True, s)"
    | s1 where "would_cycle n d p c seen = Some (False, s1)" "cycle_among n d p cs s1 = Some (b, s)"
  using assms by (auto split: option.splits prod.splits bool.splits)

lemma would_cycle_meets:
  "would_cycle n d p c seen = Some (True, s) \<Longrightarrow> reaches d c p"
  "cycle_among n d p cs seen = Some (True, s) \<Longrightarrow> \<exists>c \<in> set cs. reaches d c p"
proof (induction n d p c seen and n d p cs seen arbitrary: s and s rule: would_cycle_cycle_among.induct)
  case (2 n d p c seen)
  from 2(2) show ?case
  proof (cases rule: would_cycle_SomeE)
    case 3
    from 2(1) [OF 3] obtain b where "edge d c b" "reaches d b p" by (auto simp: set_children)
    then show ?thesis by (rule converse_rtranclp_into_rtranclp)
  qed auto
next
  case (4 n d p c cs seen)
  from 4(3) show ?case
  proof (cases rule: cycle_among_SomeE)
    case 1
    from 4(1) [OF 1(2)] show ?thesis by auto
  next
    case (2 s1)
    from 4(2) [OF 2(1) HOL.refl HOL.refl 2(2)] show ?thesis by auto
  qed
qed auto

text \<open>
  What an answer leaves in \<open>_seen\<close>: more than before and, when negative, a set that the edges
  of its new nodes do not leave.
\<close>

lemma would_cycle_grows:
  "would_cycle n d p c seen = Some (b, s) \<Longrightarrow> set seen \<subseteq> set s"
  "cycle_among n d p cs seen = Some (b, s) \<Longrightarrow> set seen \<subseteq> set s"
proof (induction n d p c seen and n d p cs seen arbitrary: b s and b s rule: would_cycle_cycle_among.induct)
  case (2 n d p c seen)
  from 2(2) show ?case
  proof (cases rule: would_cycle_SomeE)
    case 3
    from 2(1) [OF 3] show ?thesis by simp
  qed (use 2(2) in auto)
next
  case (4 n d p c cs seen)
  from 4(3) show ?case
  proof (cases rule: cycle_among_SomeE)
    case 1
    from 4(1) [OF 1(2)] show ?thesis .
  next
    case (2 s1)
    from 4(1) [OF 2(1)] 4(2) [OF 2(1) HOL.refl HOL.refl 2(2)] show ?thesis by (rule subset_trans)
  qed
qed auto

definition misses :: "gdb \<Rightarrow> uuid \<Rightarrow> uuid list \<Rightarrow> uuid list \<Rightarrow> bool" where
  "misses d p seen s \<longleftrightarrow> set seen \<subseteq> set s \<and> p \<notin> set s \<and> (\<forall>x y. edge d x y \<longrightarrow> x \<in> set s \<longrightarrow> x \<notin> set seen \<longrightarrow> y \<in> set s)"

lemma misses_trans:
  assumes "misses d p seen s1" "misses d p s1 s" shows "misses d p seen s"
  using assms unfolding misses_def by (meson subset_iff)

lemma misses_enter:
  assumes "misses d p (c # seen) s" "set (children d c) \<subseteq> set s" shows "misses d p seen s \<and> c \<in> set s"
proof -
  from assms(1) have "set seen \<subseteq> set s" "c \<in> set s" "p \<notin> set s"
    and old: "edge d x y \<Longrightarrow> x \<in> set s \<Longrightarrow> x \<notin> set (c # seen) \<Longrightarrow> y \<in> set s" for x y
    unfolding misses_def by auto
  moreover from assms(2) have "edge d c y \<Longrightarrow> y \<in> set s" for y by (auto simp: set_children)
  ultimately show ?thesis unfolding misses_def by (metis set_ConsD)
qed

lemma would_cycle_misses:
  "would_cycle n d p c seen = Some (False, s) \<Longrightarrow> p \<notin> set seen \<Longrightarrow> misses d p seen s \<and> c \<in> set s"
  "cycle_among n d p cs seen = Some (False, s) \<Longrightarrow> p \<notin> set seen \<Longrightarrow> misses d p seen s \<and> set cs \<subseteq> set s"
proof (induction n d p c seen and n d p cs seen arbitrary: s and s rule: would_cycle_cycle_among.induct)
  case (2 n d p c seen)
  from 2(2) show ?case
  proof (cases rule: would_cycle_SomeE)
    case 3
    from 2(1) [OF 3] 2(3) 3(1) have "misses d p (c # seen) s" "set (children d c) \<subseteq> set s" by auto
    then show ?thesis by (rule misses_enter)
  qed (use 2(3) in \<open>auto simp: misses_def\<close>)
next
  case (4 n d p c cs seen)
  from 4(3) show ?case
  proof (cases rule: cycle_among_SomeE)
    case (2 s1)
    from 4(1) [OF 2(1) 4(4)] have m1: "misses d p seen s1" "c \<in> set s1" by auto
    then have "p \<notin> set s1" by (simp add: misses_def)
    from 4(2) [OF 2(1) HOL.refl HOL.refl 2(2) this] have m2: "misses d p s1 s" "set cs \<subseteq> set s" by auto
    then have "set s1 \<subseteq> set s" by (simp add: misses_def)
    with m1(2) m2(2) have "set (c # cs) \<subseteq> set s" by auto
    with misses_trans [OF m1(1) m2(1)] show ?thesis by blast
  qed simp
qed (auto simp: misses_def)

text \<open>Fuel: each level of the recursion enters a group that is not in \<open>_seen\<close> yet.\<close>

lemma would_cycle_fuel:
  assumes fin: "finite V"
  shows "(\<forall>x y. edge d x y \<longrightarrow> y \<in> V) \<Longrightarrow> c \<in> V \<Longrightarrow> card (V - set seen) < n \<Longrightarrow> would_cycle n d p c seen \<noteq> None"
    and "(\<forall>x y. edge d x y \<longrightarrow> y \<in> V) \<Longrightarrow> set cs \<subseteq> V \<Longrightarrow> card (V - set seen) < n \<Longrightarrow> cycle_among n d p cs seen \<noteq> None"
proof (induction n d p c seen and n d p cs seen rule: would_cycle_cycle_among.induct)
  case (2 n d p c seen)
  show ?case
  proof (cases "c = p \<or> c \<in> set seen")
    case False
    then have "c \<in> V - set seen" using 2(3) by simp
    then have "card (V - set (c # seen)) < card (V - set seen)"
      using fin by (intro psubset_card_mono) auto
    then have "card (V - set (c # seen)) < n" using 2(4) by simp
    moreover have "set (children d c) \<subseteq> V" using 2(2) by (auto simp: set_children)
    ultimately show ?thesis using 2(1,2) False by simp
  qed auto
next
  case (4 n d p c cs seen)
  then obtain b s where s: "would_cycle n d p c seen = Some (b, s)" by fastforce
  show ?case
  proof (cases b)
    case False
    have "card (V - set s) \<le> card (V - set seen)"
      using would_cycle_grows(1) [OF s] fin by (intro card_mono) auto
    with 4(5) have "card (V - set s) < n" by simp
    moreover have "set cs \<subseteq> V" using 4(4) by simp
    ultimately have "cycle_among n d p cs s \<noteq> None" using 4(2) [OF s HOL.refl] 4(3) False by blast
    with s False show ?thesis by simp
  qed (use s in simp)
qed auto

lemma cycle_check:
  "wouldCreateCycle d parent child = Some (reaches d child parent)"
proof -
  let ?V = "insert child ((the \<circ> mb_child) ` set (gd_members d))"
  have closed: "\<forall>x y. edge d x y \<longrightarrow> y \<in> ?V" by (force simp: edge_def)
  have "card ?V \<le> Suc (card ((the \<circ> mb_child) ` set (gd_members d)))" by (rule card_insert_le_m1) simp_all
  also have "\<dots> \<le> Suc (length (gd_members d))" using card_image_le [of "set (gd_members d)"] card_length le_trans by blast
  finally have "card (?V - set []) < length (gd_members d) + 2" by simp
  from would_cycle_fuel(1) [OF _ closed _ this] obtain b s
    where s: "would_cycle (length (gd_members d) + 2) d parent child [] = Some (b, s)" by fastforce
  have "b = reaches d child parent"
  proof (cases b)
    case True
    with s have "would_cycle (length (gd_members d) + 2) d parent child [] = Some (True, s)" by simp
    then have "reaches d child parent" by (rule would_cycle_meets(1))
    with True show ?thesis by simp
  next
    case False
    with s have "would_cycle (length (gd_members d) + 2) d parent child [] = Some (False, s)" by simp
    from would_cycle_misses(1) [OF this] have "misses d parent [] s \<and> child \<in> set s" by simp
    then have "parent \<notin> set s" "child \<in> set s" "\<forall>x \<in> set s. \<forall>y. edge d x y \<longrightarrow> y \<in> set s" by (auto simp: misses_def)
    with closed_reaches [of d child parent "set s"] False show ?thesis by auto
  qed
  with s show ?thesis by (simp add: wouldCreateCycle_def)
qed

section \<open>The routes keep the graph acyclic\<close>

lemma fewer_links:
  assumes "acyclic_groups d" "\<And>a b. edge d' a b \<Longrightarrow> edge d a b" shows "acyclic_groups d'"
  using assms unfolding acyclic_groups_def by (auto intro: acyclic_subset)

lemma edge_same_members: "gd_members d' = gd_members d \<Longrightarrow> edge d' = edge d"
  by (simp add: edge_def fun_eq_iff)

lemma edge_kept_members: "set (gd_members d') \<subseteq> set (gd_members d) \<Longrightarrow> edge d' a b \<Longrightarrow> edge d a b"
  by (auto simp: edge_def)

lemma gd_members_group_log [simp]: "gd_members (group_log a w t x d) = gd_members d"
  by (simp add: group_log_def)

lemma gd_members_insert_group [simp]: "gd_members (insert_group g d) = gd_members d"
  by (simp add: insert_group_def)

lemma edge_group_log [simp]: "edge (group_log a w t x d) = edge d"
  by (rule edge_same_members) simp

lemma edge_add_row: "edge (add_row g b who d) x y \<longleftrightarrow> edge d x y \<or> x = g \<and> bd_child b = Some y"
  by (auto simp: edge_def add_row_def)

lemma createGroup_members: "gd_members (snd (createGroup who n e c d)) = gd_members d"
  by (simp add: createGroup_def Let_def)

lemma patchGroup_members: "gd_members (snd (patchGroup who i n e c d)) = gd_members d"
  by (simp add: patchGroup_def Let_def split: option.split)

lemma detachEntra_members: "gd_members (snd (detachEntra who i d)) = gd_members d"
  by (simp add: detachEntra_def split: option.split)

lemma deleteGroup_members: "set (gd_members (snd (deleteGroup who i d))) \<subseteq> set (gd_members d)"
  by (auto simp: deleteGroup_def split: option.split)

lemma removeMember_members: "set (gd_members (snd (removeMember who g i d))) \<subseteq> set (gd_members d)"
  by (auto simp: removeMember_def split: option.split)

lemma checkMember_passes:
  assumes "checkMember d g b = None" "bd_child b = Some c" shows "c \<noteq> g \<and> \<not> reaches d c g"
  using assms by (auto simp: checkMember_def cycle_check split: if_splits bool.splits)

lemma insertMember_edges:
  "edge (snd (insertMember who g b d)) x y \<Longrightarrow> edge d x y \<or> x = g \<and> bd_child b = Some y"
  by (auto simp: insertMember_def edge_add_row split: option.splits if_splits)

lemma addMember_acyclic:
  assumes "acyclic_groups d" shows "acyclic_groups (snd (addMember who g b d))"
proof (cases "checkMember d g b = None \<and> bd_child b \<noteq> None")
  case True
  then obtain c where c: "checkMember d g b = None" "bd_child b = Some c" by auto
  then have "(c, g) \<notin> {(a, b). edge d a b}\<^sup>*" using checkMember_passes [OF c] by (simp add: rtranclp_rtrancl_eq)
  with assms have "acyclic (insert (g, c) {(a, b). edge d a b})" by (simp add: acyclic_groups_def acyclic_insert)
  moreover have "{(x, y). edge (snd (insertMember who g b d)) x y} \<subseteq> insert (g, c) {(a, b). edge d a b}"
    using insertMember_edges [of who g b d] c(2) by fastforce
  ultimately show ?thesis using c(1) by (auto simp: addMember_def acyclic_groups_def intro: acyclic_subset)
next
  case False
  then have "edge (snd (addMember who g b d)) x y \<Longrightarrow> edge d x y" for x y
    by (auto simp: addMember_def dest: insertMember_edges split: option.splits)
  with assms show ?thesis by (rule fewer_links)
qed

text \<open>A membership of a machine or of a person, and an import that is not recursive, add no link.\<close>

lemma put_member_edges:
  "bd_child b = None \<Longrightarrow> edge (put_member g b who d) x y \<Longrightarrow> edge d x y"
  by (auto simp: put_member_def edge_add_row split: if_splits)

lemma put_members_edges:
  assumes "\<And>v. bd_child (k v) = None"
  shows "edge (foldl (\<lambda>x v. put_member g (k v) who x) d vs) a b \<Longrightarrow> edge d a b"
proof (induction vs arbitrary: d)
  case (Cons v vs)
  from Cons.IH [of "put_member g (k v) who d"] Cons.prems put_member_edges [OF assms] show ?case by auto
qed simp

lemma fill_direct_edges:
  assumes "edge (fst (fill_direct g sync r who hosts users (d, st))) x y" shows "edge d x y"
proof -
  have "edge (if sync then d\<lparr>gd_members := filter (\<lambda>m. \<not> replaced_by_sync d g r m) (gd_members d)\<rparr> else d) x y"
    using assms by (auto simp: fill_direct_def Let_def device_member_def user_member_def dest!: put_members_edges [rotated])
  then show ?thesis by (auto simp: edge_def split: if_splits)
qed

lemma createEntraGroup_edges:
  "createEntraGroup d n e c z w = Some (i, d') \<Longrightarrow> edge d' x y \<Longrightarrow> edge d x y"
  by (auto simp: createEntraGroup_def edge_def split: option.splits)

lemma importEntraTree_flat_edges:
  assumes "importEntraTree (Suc k) gx io entra name desc (d, [], st) = Inr (i, d', seen, st')" "\<not> io_recursive io"
    "edge d' x y"
  shows "edge d x y"
  using assms by (auto simp: import_node_def Let_def dest!: fill_direct_edges intro: createEntraGroup_edges split: option.splits if_splits)

text \<open>
  A request to the routes of the native groups, from start to end. The imports and the
  synchronisations are those that do not descend into the sub-groups.
\<close>

inductive group_step :: "gdb \<Rightarrow> gdb \<Rightarrow> bool" where
  gs_create: "group_step d (snd (createGroup who n e c d))"
| gs_patch: "group_step d (snd (patchGroup who i n1 e1 c1 d))"
| gs_delete: "group_step d (snd (deleteGroup who i d))"
| gs_add: "group_step d (snd (addMember who g b d))"
| gs_remove: "group_step d (snd (removeMember who g i d))"
| gs_detach: "group_step d (snd (detachEntra who i d))"
| gs_import: "group_step d (snd (importFromEntra gx who x n e c False d))"
| gs_sync: "group_step d (snd (syncFromEntra gx who i False d))"

lemma importFromEntra_flat_edges: "edge (snd (importFromEntra gx who x n e c False d)) a b \<Longrightarrow> edge d a b"
  by (auto simp: importFromEntra_def Let_def simp del: importEntraTree.simps
      intro: importEntraTree_flat_edges split: if_splits option.splits sum.splits)

lemma syncFromEntra_flat_edges: "edge (snd (syncFromEntra gx who i False d)) a b \<Longrightarrow> edge d a b"
  by (auto simp: syncFromEntra_def Let_def simp del: importEntraTree.simps
      intro: importEntraTree_flat_edges split: if_splits option.splits sum.splits)

lemma group_step_acyclic:
  assumes "group_step d d'" "acyclic_groups d" shows "acyclic_groups d'"
  using assms
proof (cases rule: group_step.cases)
  case gs_create
  with assms show ?thesis by (simp add: acyclic_groups_def edge_same_members [OF createGroup_members])
next
  case gs_patch
  with assms show ?thesis by (simp add: acyclic_groups_def edge_same_members [OF patchGroup_members])
next
  case gs_detach
  with assms show ?thesis by (simp add: acyclic_groups_def edge_same_members [OF detachEntra_members])
next
  case gs_delete
  with assms show ?thesis by (blast intro: fewer_links edge_kept_members [OF deleteGroup_members])
next
  case gs_remove
  with assms show ?thesis by (blast intro: fewer_links edge_kept_members [OF removeMember_members])
next
  case gs_add
  with assms show ?thesis by (simp add: addMember_acyclic)
next
  case gs_import
  with assms show ?thesis by (blast intro: fewer_links importFromEntra_flat_edges)
next
  case gs_sync
  with assms show ?thesis by (blast intro: fewer_links syncFromEntra_flat_edges)
qed

section \<open>Effective members\<close>

definition has_member :: "(member \<Rightarrow> 'a option) \<Rightarrow> gdb \<Rightarrow> uuid \<Rightarrow> 'a \<Rightarrow> bool" where
  "has_member f d g v \<longleftrightarrow> (\<exists>m \<in> set (gd_members d). mb_group m = g \<and> f m = Some v)"

text \<open>The CHECK of the table: a row is of one kind.\<close>

definition one_kind :: "gdb \<Rightarrow> bool" where
  "one_kind d \<longleftrightarrow> (\<forall>m \<in> set (gd_members d). mb_child m \<noteq> None \<longrightarrow> mb_device m = None \<and> mb_user m = None)"

lemma set_put_simps [simp]: "set (set_put x s) = insert x (set s)" "distinct s \<Longrightarrow> distinct (set_put x s)"
  by (auto simp: set_put_def)

lemma set_put_all [simp]:
  "set (foldl (\<lambda>s v. set_put v s) ids sub) = set ids \<union> set sub"
  "distinct ids \<Longrightarrow> distinct (foldl (\<lambda>s v. set_put v s) ids sub)"
  by (induction sub arbitrary: ids) auto

lemma effective_distinct:
  "distinct (fst (effective f k d g seen))"
  "distinct ids \<Longrightarrow> distinct (fst (effective_rows f k d ms ids seen))"
  by (induction f k d g seen and f k d ms ids seen rule: effective_effective_rows.induct)
    (auto split: option.split prod.split)

lemma effective_grows:
  "set seen \<subseteq> set (snd (effective f k d g seen))"
  "set seen \<subseteq> set (snd (effective_rows f k d ms ids seen)) \<and> set ids \<subseteq> set (fst (effective_rows f k d ms ids seen))"
proof (induction f k d g seen and f k d ms ids seen rule: effective_effective_rows.induct)
  case (4 f k d m ms ids seen)
  obtain sub s where "effective f k d (the (mb_child m)) seen = (sub, s)" by fastforce
  with 4 show ?case by (fastforce split: option.splits)
qed auto

text \<open>Nothing else than the members of the reachable groups.\<close>

lemma effective_sound:
  "v \<in> set (fst (effective f k d g seen)) \<Longrightarrow> \<exists>h. reaches d g h \<and> has_member f d h v"
  "v \<in> set (fst (effective_rows f k d ms ids seen)) \<Longrightarrow>
     v \<in> set ids \<or> (\<exists>m \<in> set ms. f m = Some v) \<or> (\<exists>m \<in> set ms. \<exists>c h. mb_child m = Some c \<and> reaches d c h \<and> has_member f d h v)"
proof (induction f k d g seen and f k d ms ids seen rule: effective_effective_rows.induct)
  case (2 f k d g seen)
  then have g: "g \<notin> set seen" by (auto split: if_splits)
  with 2 have "(\<exists>m \<in> set (members_of d g). f m = Some v)
      \<or> (\<exists>m \<in> set (members_of d g). \<exists>c h. mb_child m = Some c \<and> reaches d c h \<and> has_member f d h v)" by simp
  then show ?case
  proof
    assume "\<exists>m \<in> set (members_of d g). f m = Some v"
    then have "has_member f d g v" by (auto simp: has_member_def members_of_def)
    then show ?thesis by blast
  next
    assume "\<exists>m \<in> set (members_of d g). \<exists>c h. mb_child m = Some c \<and> reaches d c h \<and> has_member f d h v"
    then obtain c h where "edge d g c" "reaches d c h" "has_member f d h v" by (auto simp: edge_def members_of_def)
    then show ?thesis by (blast intro: converse_rtranclp_into_rtranclp)
  qed
next
  case (4 f k d m ms ids seen)
  show ?case
  proof (cases "f m")
    case None
    show ?thesis
    proof (cases "mb_child m")
      case (Some c)
      obtain sub s where s: "effective f k d c seen = (sub, s)" by fastforce
      with 4(5) None Some have "v \<in> set (fst (effective_rows f k d ms (foldl (\<lambda>s v. set_put v s) ids sub) s))" by simp
      from 4(3) [OF None Some s [symmetric] this] 4(2) [OF None Some] s Some show ?thesis by auto
    qed (use 4 None in auto)
  qed (use 4 in auto)
qed auto

text \<open>
  And all of them while the depth is enough: the groups entered have all their members in the
  result, and their sub-groups are entered too.
\<close>

definition covers :: "(member \<Rightarrow> 'a option) \<Rightarrow> gdb \<Rightarrow> uuid list \<Rightarrow> uuid list \<Rightarrow> 'a list \<Rightarrow> bool" where
  "covers f d seen s ids \<longleftrightarrow>
     (\<forall>x. x \<in> set s \<longrightarrow> x \<notin> set seen \<longrightarrow> (\<forall>v. has_member f d x v \<longrightarrow> v \<in> set ids) \<and> (\<forall>y. edge d x y \<longrightarrow> y \<in> set s))"

definition row_done :: "(member \<Rightarrow> 'a option) \<Rightarrow> uuid list \<Rightarrow> 'a list \<Rightarrow> member \<Rightarrow> bool" where
  "row_done f s ids m \<longleftrightarrow> (\<forall>v. f m = Some v \<longrightarrow> v \<in> set ids) \<and> (f m = None \<longrightarrow> (\<forall>c. mb_child m = Some c \<longrightarrow> c \<in> set s))"

lemma covers_trans:
  assumes "covers f d seen s1 sub" "covers f d s1 s ids" "set s1 \<subseteq> set s" "set sub \<subseteq> set ids" shows "covers f d seen s ids"
  using assms unfolding covers_def by (meson subset_iff)

lemma covers_enter:
  assumes "covers f d (g # seen) s ids" "\<forall>m \<in> set (members_of d g). row_done f s ids m" "g \<in> set s"
    and "\<forall>m \<in> set (gd_members d). mb_child m \<noteq> None \<longrightarrow> f m = None"
  shows "covers f d seen s ids"
proof -
  have "has_member f d g v \<Longrightarrow> v \<in> set ids" for v
    using assms(2) by (auto simp: has_member_def members_of_def row_done_def)
  moreover have "edge d g y \<Longrightarrow> y \<in> set s" for y
    using assms(2,4) by (force simp: edge_def members_of_def row_done_def)
  moreover from assms(1) have "x \<in> set s \<Longrightarrow> x \<noteq> g \<Longrightarrow> x \<notin> set seen \<Longrightarrow> has_member f d x v \<Longrightarrow> v \<in> set ids"
    and "x \<in> set s \<Longrightarrow> x \<noteq> g \<Longrightarrow> x \<notin> set seen \<Longrightarrow> edge d x y \<Longrightarrow> y \<in> set s" for x y v
    by (simp_all add: covers_def)
  ultimately show ?thesis unfolding covers_def by metis
qed

lemma effective_complete:
  assumes fin: "finite V" and closed: "\<And>x y. x \<in> V \<Longrightarrow> edge d x y \<Longrightarrow> y \<in> V"
    and kind: "\<forall>m \<in> set (gd_members d). mb_child m \<noteq> None \<longrightarrow> f m = None"
  shows "g \<in> V \<Longrightarrow> card (V - set seen) \<le> k \<Longrightarrow> effective f k d g seen = (ids', s) \<Longrightarrow> g \<in> set s \<and> covers f d seen s ids'"
    and "(\<And>m c. m \<in> set ms \<Longrightarrow> mb_child m = Some c \<Longrightarrow> c \<in> V) \<Longrightarrow> card (V - set seen) \<le> k \<Longrightarrow>
      effective_rows f k d ms ids seen = (ids', s) \<Longrightarrow> covers f d seen s ids' \<and> (\<forall>m \<in> set ms. row_done f s ids' m)"
  using closed kind
proof (induction f k d g seen and f k d ms ids seen arbitrary: ids' s and ids' s rule: effective_effective_rows.induct)
  case (1 f d g seen)
  then show ?case using fin by (auto simp: covers_def)
next
  case (2 f k d g seen)
  show ?case
  proof (cases "g \<in> set seen")
    case True
    with 2(4) show ?thesis by (auto simp: covers_def)
  next
    case False
    with 2(2) fin have "card (V - set (g # seen)) < card (V - set seen)" by (intro psubset_card_mono) auto
    with 2(3) have c: "card (V - set (g # seen)) \<le> k" by simp
    have ch: "m \<in> set (members_of d g) \<Longrightarrow> mb_child m = Some y \<Longrightarrow> y \<in> V" for m y
      using 2(5) [OF 2(2)] by (auto simp: edge_def members_of_def)
    from False 2(4) have e: "effective_rows f k d (members_of d g) [] (g # seen) = (ids', s)" by simp
    have "covers f d (g # seen) s ids' \<and> (\<forall>m \<in> set (members_of d g). row_done f s ids' m)"
      by (rule 2(1) [OF False _ c e _ 2(6)]) (erule (1) ch, erule (1) 2(5))
    then have cov: "covers f d (g # seen) s ids'"
      and rows: "\<forall>m \<in> set (members_of d g). row_done f s ids' m" by auto
    have "g \<in> set s" using effective_grows(2) [of "g # seen" f k d "members_of d g" "[]"] e by simp
    with covers_enter [OF cov rows this 2(6)] show ?thesis by simp
  qed
next
  case (3 f k d ids seen)
  then show ?case by (auto simp: covers_def)
next
  case (4 f k d m ms ids seen)
  have ms: "x \<in> set ms \<Longrightarrow> mb_child x = Some c \<Longrightarrow> c \<in> V" for x c using 4(5) by auto
  show ?case
  proof (cases "f m")
    case (Some v)
    with 4(7) have e: "effective_rows f k d ms (set_put v ids) seen = (ids', s)" by simp
    have "covers f d seen s ids' \<and> (\<forall>m \<in> set ms. row_done f s ids' m)"
      by (rule 4(4) [OF Some _ 4(6) e _ 4(9)]) (erule (1) ms, erule (1) 4(8))
    with effective_grows(2) [of seen f k d ms "set_put v ids"] e Some
    show ?thesis by (auto simp: row_done_def)
  next
    case None
    show ?thesis
    proof (cases "mb_child m")
      case n: None
      with None 4(7) have e: "effective_rows f k d ms ids seen = (ids', s)" by simp
      have "covers f d seen s ids' \<and> (\<forall>m \<in> set ms. row_done f s ids' m)"
        by (rule 4(1) [OF None n _ 4(6) e _ 4(9)]) (erule (1) ms, erule (1) 4(8))
      with None n show ?thesis by (auto simp: row_done_def)
    next
      case c: (Some c)
      obtain sub s1 where s1: "effective f k d c seen = (sub, s1)" by fastforce
      let ?ids = "foldl (\<lambda>s v. set_put v s) ids sub"
      from None c s1 4(7) have e: "effective_rows f k d ms ?ids s1 = (ids', s)" by simp
      have cV: "c \<in> V" using 4(5) c by auto
      have "c \<in> set s1 \<and> covers f d seen s1 sub"
        by (rule 4(2) [OF None c cV 4(6) s1 _ 4(9)]) (erule (1) 4(8))
      then have m1: "c \<in> set s1" "covers f d seen s1 sub" by auto
      have "set seen \<subseteq> set s1" using effective_grows(1) [of seen f k d c] s1 by simp
      with fin have "card (V - set s1) \<le> card (V - set seen)" by (intro card_mono) auto
      with 4(6) have k: "card (V - set s1) \<le> k" by simp
      have "covers f d s1 s ids' \<and> (\<forall>m \<in> set ms. row_done f s ids' m)"
        by (rule 4(3) [OF None c s1 [symmetric] _ k e _ 4(9)]) (erule (1) ms, erule (1) 4(8))
      then have m2: "covers f d s1 s ids'" "\<forall>m \<in> set ms. row_done f s ids' m" by auto
      from effective_grows(2) [of s1 f k d ms ?ids] e have g: "set s1 \<subseteq> set s" "set ?ids \<subseteq> set ids'" by auto
      from g(2) have "set sub \<subseteq> set ids'" by simp
      from covers_trans [OF m1(2) m2(1) g(1) this] m1(1) g(1) m2(2) None c show ?thesis by (auto simp: row_done_def)
    qed
  qed
qed

lemma effective_exact:
  assumes kind: "\<forall>m \<in> set (gd_members d). mb_child m \<noteq> None \<longrightarrow> f m = None"
    and fin: "finite {h. reaches d g h}" and depth: "card {h. reaches d g h} \<le> k"
  shows "set (fst (effective f k d g [])) = {v. \<exists>h. reaches d g h \<and> has_member f d h v}"
proof (intro subset_antisym subsetI)
  fix v assume "v \<in> {v. \<exists>h. reaches d g h \<and> has_member f d h v}"
  then obtain h where h: "reaches d g h" "has_member f d h v" by blast
  obtain ids s where e: "effective f k d g [] = (ids, s)" by fastforce
  have "g \<in> set s \<and> covers f d [] s ids"
    by (rule effective_complete(1) [OF fin _ kind _ _ e])
      (use depth in \<open>auto intro: rtranclp.rtrancl_into_rtrancl\<close>)
  then have "h \<in> set s" "covers f d [] s ids" using closed_reaches [OF h(1)] by (auto simp: covers_def)
  with h(2) e show "v \<in> set (fst (effective f k d g []))" by (auto simp: covers_def)
qed (auto dest: effective_sound(1))

section \<open>What the code does not prevent\<close>

definition plain_group :: "uuid \<Rightarrow> jsstring \<Rightarrow> jsstring option \<Rightarrow> group_row" where
  "plain_group i n e = \<lparr>gp_id = i, gp_name = n, gp_desc = None, gp_color = ''slate'',
     gp_source = (if e = None then ''native'' else ''entra''), gp_entra = e, gp_updated_by = None\<rparr>"

definition link :: "uuid \<Rightarrow> uuid \<Rightarrow> uuid \<Rightarrow> member" where
  "link i a b = \<lparr>mb_id = i, mb_group = a, mb_device = None, mb_user = None, mb_child = Some b, mb_by = None\<rparr>"

definition group_base :: "group_row list \<Rightarrow> member list \<Rightarrow> gdb" where
  "group_base gs ms = \<lparr>gd_groups = gs, gd_members = ms, gd_devices = [(7, ''PC-7'')], gd_audit = [], gd_next = 60\<rparr>"

lemma cycle_of_two:
  assumes "b \<in> set (children d a)" "a \<in> set (children d b)" shows "\<not> acyclic_groups d"
  using assms unfolding set_children acyclic_groups_def acyclic_def by (blast intro: trancl_trans r_into_trancl)

text \<open>Two requests whose checks both run before either insertion: each is accepted, and the graph has a cycle.\<close>

lemma two_additions_make_a_cycle:
  fixes d defines "d \<equiv> group_base [plain_group 0 ''A'' None, plain_group 1 ''B'' None] []"
  shows "checkMember d 0 (child_member 1) = None \<and> checkMember d 1 (child_member 0) = None \<and>
    \<not> acyclic_groups (snd (insertMember None 1 (child_member 0) (snd (insertMember None 0 (child_member 1) d))))"
proof -
  have "checkMember d 0 (child_member 1) = None" "checkMember d 1 (child_member 0) = None"
    "children (snd (insertMember None 1 (child_member 0) (snd (insertMember None 0 (child_member 1) d)))) 0 = [1]"
    "children (snd (insertMember None 1 (child_member 0) (snd (insertMember None 0 (child_member 1) d)))) 1 = [0]"
    unfolding d_def by code_simp+
  then show ?thesis by (simp add: cycle_of_two [of 1 _ 0])
qed

text \<open>
  A recursive synchronisation adds the sub-groups of Entra without the test: with a native group
  between, it closes a cycle.
\<close>

definition nested_api :: graph_api where
  "nested_api = \<lparr>gx_hostnames = \<lambda>_. Some [], gx_users = \<lambda>_. Some [],
     gx_nested = \<lambda>e. Some (if e = ''r'' then [(''s'', ''S'', None)] else [])\<rparr>"

lemma sync_closes_a_cycle:
  fixes d defines "d \<equiv> group_base [plain_group 0 ''R'' (Some ''r''), plain_group 1 ''S'' (Some ''s''), plain_group 2 ''N'' None]
    [link 3 1 2, link 4 2 0]"
  shows "acyclic_groups d \<and> \<not> isl (fst (syncFromEntra nested_api None 0 True d)) \<and>
    \<not> acyclic_groups (snd (syncFromEntra nested_api None 0 True d))"
proof -
  have before: "edge d a b \<longleftrightarrow> a = 1 \<and> b = 2 \<or> a = 2 \<and> b = 0" for a b
    by (auto simp: d_def group_base_def link_def edge_def)
  have "{(a, b). edge d a b} = {(1, 2), (2, 0)}" by (auto simp: before)
  then have "acyclic_groups d" by (simp add: acyclic_groups_def acyclic_insert rtrancl_insert acyclic_def [of "{}"])
  moreover have "\<not> isl (fst (syncFromEntra nested_api None 0 True d))" unfolding d_def by code_simp
  moreover have "children (snd (syncFromEntra nested_api None 0 True d)) 0 = [1]"
    "children (snd (syncFromEntra nested_api None 0 True d)) 1 = [2]"
    "children (snd (syncFromEntra nested_api None 0 True d)) 2 = [0]"
    unfolding d_def by code_simp+
  then have "edge (snd (syncFromEntra nested_api None 0 True d)) 0 1"
    "edge (snd (syncFromEntra nested_api None 0 True d)) 1 2" "edge (snd (syncFromEntra nested_api None 0 True d)) 2 0"
    using set_children by (metis list.set_intros(1) mem_Collect_eq)+
  then have "\<not> acyclic_groups (snd (syncFromEntra nested_api None 0 True d))"
    unfolding acyclic_groups_def acyclic_def by (blast intro: trancl_trans r_into_trancl)
  ultimately show ?thesis by blast
qed

text \<open>
  The set of the groups seen is shared with the depth limit: a group met first at the end of a long
  chain is not entered again by a short way, and a machine two links away is missed.
\<close>

lemma deep_chain_hides_a_machine:
  fixes d defines "d \<equiv> group_base [] (map (\<lambda>i. link i i (i + 1)) [0..<21] @ [link 40 0 20,
      \<lparr>mb_id = 50, mb_group = 21, mb_device = Some 7, mb_user = None, mb_child = None, mb_by = None\<rparr>])"
  shows "edge d 0 20 \<and> edge d 20 21 \<and> has_member mb_device d 21 7 \<and> resolveGroupDeviceIds d 0 = []"
proof -
  have "edge d 0 20" "edge d 20 21" "has_member mb_device d 21 7" unfolding d_def by code_simp+
  moreover have "resolveGroupDeviceIds d 0 = []" unfolding d_def by code_simp
  ultimately show ?thesis by blast
qed

text \<open>The audit of the removal of a sub-group names no one; a null description becomes a text.\<close>

lemma removal_of_a_group_is_audited_as_a_user:
  "map ga_detail (gd_audit (snd (removeMember None 0 1 (group_base [plain_group 0 ''A'' None, plain_group 1 ''B'' None] [link 1 0 1]))))
     = [Some ''user:null'']"
  by code_simp

lemma null_description_is_stored_as_text:
  "map gp_desc (gd_groups (snd (patchGroup None 0 None (Some None) None (group_base [plain_group 0 ''A'' None] [])))) = [Some ''null'']"
  by code_simp

section \<open>Properties\<close>

text \<open>
  C28: The test against cycles terminates on every base, cyclic ones included, and decides
  reachability: the recursion never goes deeper than the number of links plus two, and its answer
  is whether the parent can be reached from the child.
\<close>

theorem cycle_check_terminates_and_decides:
  "wouldCreateCycle d parent child = Some (reaches d child parent)"
  by (rule cycle_check)

text \<open>
  C29: Every request to the routes of the native groups that runs alone, and every import or
  synchronisation that does not descend, keeps the graph of the groups acyclic: starting with no
  link, no sequence of them makes a cycle.
\<close>

theorem routes_keep_groups_acyclic:
  assumes "gd_members d0 = []" "group_step\<^sup>*\<^sup>* d0 d" shows "acyclic_groups d"
  using assms(2)
proof (induction rule: rtranclp_induct)
  case base
  from assms(1) show ?case by (simp add: acyclic_groups_def edge_def acyclic_def)
qed (rule group_step_acyclic)

lemma routes_keep_groups_acyclic_witness:
  fixes d defines "d \<equiv> group_base [plain_group 0 ''A'' None, plain_group 1 ''B'' None] []"
  shows "acyclic_groups (snd (addMember None 1 (child_member 0) (snd (addMember None 0 (child_member 1) d))))"
  by (rule routes_keep_groups_acyclic [of d])
    (auto simp: d_def group_base_def intro: rtranclp.rtrancl_into_rtrancl group_step.intros)

text \<open>
  C30: The effective members of a group are exactly the members of the groups it reaches, each
  once, cycles included, as long as it reaches at most as many groups as the depth limit allows.
\<close>

theorem effective_members_are_exact:
  assumes "one_kind d" "finite {h. reaches d g h}" "card {h. reaches d g h} \<le> MAX_GROUP_DEPTH + 1"
  shows "set (resolveGroupDeviceIds d g) = {v. \<exists>h. reaches d g h \<and> has_member mb_device d h v} \<and>
    set (resolveGroupUserIds d g) = {v. \<exists>h. reaches d g h \<and> has_member mb_user d h v} \<and>
    distinct (resolveGroupDeviceIds d g) \<and> distinct (resolveGroupUserIds d g)"
  unfolding resolveGroupDeviceIds_def resolveGroupUserIds_def
  using assms effective_exact [of d mb_device g "MAX_GROUP_DEPTH + 1"] effective_exact [of d mb_user g "MAX_GROUP_DEPTH + 1"]
  by (simp add: one_kind_def effective_distinct)

lemma effective_members_are_exact_witness:
  fixes d defines "d \<equiv> group_base [] [link 2 0 1, link 3 1 0,
    \<lparr>mb_id = 50, mb_group = 1, mb_device = Some 7, mb_user = None, mb_child = None, mb_by = None\<rparr>]"
  shows "set (resolveGroupDeviceIds d 0) = {v. \<exists>h. reaches d 0 h \<and> has_member mb_device d h v} \<and>
    resolveGroupDeviceIds d 0 = [7]"
proof
  have "h \<in> {0, 1}" if "reaches d 0 h" for h
    by (rule closed_reaches [OF that]) (auto simp: d_def group_base_def link_def edge_def)
  then have "{h. reaches d 0 h} \<subseteq> {0, 1}" by blast
  then have "finite {h. reaches d 0 h}" "card {h. reaches d 0 h} \<le> card {0::uuid, 1}"
    using card_mono [of "{0::uuid, 1}"] by (blast intro: finite_subset, simp)
  moreover have "one_kind d" by (simp add: d_def group_base_def link_def one_kind_def)
  ultimately show "set (resolveGroupDeviceIds d 0) = {v. \<exists>h. reaches d 0 h \<and> has_member mb_device d h v}"
    using effective_members_are_exact [of d 0] by (simp add: MAX_GROUP_DEPTH_def)
  show "resolveGroupDeviceIds d 0 = [7]" unfolding d_def by code_simp
qed

end
