(* ===== verification/JsNumber.thy ===== *)
theory JsNumber imports Prelude begin

text \<open>
  \<open>Number(s)\<close> and \<open>parseInt(s, 10)\<close> of the language, on the values the modelled code
  reads. A finite number is an exact rational: the rounding of a decimal to a double is not
  modelled, the overflow to infinity is.
\<close>

section \<open>Number\<close>

datatype js_number = NaN | Inf bool | Fin rat

definition MAX_FINITE :: rat where "MAX_FINITE = 2 ^ 1024 - 2 ^ 970"

definition js_finite :: "rat \<Rightarrow> js_number" where
  "js_finite r = (if r < MAX_FINITE \<and> - MAX_FINITE < r then Fin r else Inf (0 \<le> r))"

definition pow10 :: "int \<Rightarrow> rat" where
  "pow10 e = (if 0 \<le> e then 10 ^ nat e else 1 / 10 ^ nat (- e))"

definition all_digits :: "jsstring \<Rightarrow> bool" where
  "all_digits s \<longleftrightarrow> s \<noteq> [] \<and> list_all digit_char s"

text \<open>The exponent of a decimal literal; empty text is exponent 0.\<close>

fun exponent_part :: "jsstring \<Rightarrow> int option" where
  "exponent_part [] = Some 0"
| "exponent_part (c # s) =
     (if c \<noteq> CHR ''e'' \<and> c \<noteq> CHR ''E'' then None
      else (case s of
         [] \<Rightarrow> None
       | x # r \<Rightarrow>
           if x = CHR ''-'' then (if all_digits r then Some (- int (dec_val r)) else None)
           else if x = CHR ''+'' then (if all_digits r then Some (int (dec_val r)) else None)
           else if all_digits s then Some (int (dec_val s)) else None))"

definition unsigned_decimal :: "jsstring \<Rightarrow> rat option" where
  "unsigned_decimal s =
     (let ip = takeWhile digit_char s; r = dropWhile digit_char s;
          dot = (r \<noteq> [] \<and> hd r = CHR ''.'');
          fp = (if dot then takeWhile digit_char (tl r) else []);
          r1 = (if dot then dropWhile digit_char (tl r) else r)
      in if ip = [] \<and> fp = [] then None
         else map_option (\<lambda>e. of_nat (dec_val (ip @ fp)) * pow10 (e - int (length fp))) (exponent_part r1))"

definition digit_in :: "nat \<Rightarrow> char \<Rightarrow> nat option" where
  "digit_in base c =
     (let n = of_char c :: nat;
          v = (if 48 \<le> n \<and> n \<le> 57 then n - 48 else if 97 \<le> n \<and> n \<le> 102 then n - 87
               else if 65 \<le> n \<and> n \<le> 70 then n - 55 else base)
      in if v < base then Some v else None)"

definition radix_val :: "nat \<Rightarrow> jsstring \<Rightarrow> rat option" where
  "radix_val base s =
     (if s = [] \<or> list_ex (\<lambda>c. digit_in base c = None) s then None
      else Some (of_nat (foldl (\<lambda>n c. base * n + the (digit_in base c)) 0 s)))"

text \<open>\<open>0x\<close>, \<open>0o\<close> and \<open>0b\<close> literals.\<close>

definition radix_of :: "jsstring \<Rightarrow> nat option" where
  "radix_of s =
     (if s \<in> {''0x'', ''0X''} then Some 16 else if s \<in> {''0o'', ''0O''} then Some 8
      else if s \<in> {''0b'', ''0B''} then Some 2 else None)"

definition signed_decimal :: "jsstring \<Rightarrow> js_number" where
  "signed_decimal s =
     (let neg = (s \<noteq> [] \<and> hd s = CHR ''-''); sgd = (s \<noteq> [] \<and> (hd s = CHR ''-'' \<or> hd s = CHR ''+''));
          u = (if sgd then tl s else s)
      in if u = ''Infinity'' then Inf (\<not> neg)
         else (case unsigned_decimal u of None \<Rightarrow> NaN | Some r \<Rightarrow> js_finite (if neg then - r else r)))"

definition js_num :: "jsstring \<Rightarrow> js_number" where
  "js_num s0 =
     (let s = js_trim s0 in
      if s = [] then Fin 0
      else (case radix_of (take 2 s) of
              Some b \<Rightarrow> (case radix_val b (drop 2 s) of None \<Rightarrow> NaN | Some r \<Rightarrow> js_finite r)
            | None \<Rightarrow> signed_decimal s))"

text \<open>\<open>n || 0\<close> and \<open>a > b\<close> on numbers.\<close>

definition num_or_0 :: "js_number \<Rightarrow> js_number" where
  "num_or_0 n = (if n = NaN then Fin 0 else n)"

fun num_gt :: "js_number \<Rightarrow> js_number \<Rightarrow> bool" where
  "num_gt NaN y = False"
| "num_gt x NaN = False"
| "num_gt (Inf p) (Inf q) = (p \<and> \<not> q)"
| "num_gt (Inf p) (Fin r) = p"
| "num_gt (Fin r) (Inf q) = (\<not> q)"
| "num_gt (Fin r) (Fin t) = (t < r)"

section \<open>parseInt\<close>

definition js_parse_int :: "jsstring \<Rightarrow> int option" where
  "js_parse_int s0 =
     (let s = dropWhile js_space s0;
          neg = (s \<noteq> [] \<and> hd s = CHR ''-''); sgd = (s \<noteq> [] \<and> (hd s = CHR ''-'' \<or> hd s = CHR ''+''));
          ds = takeWhile digit_char (if sgd then tl s else s)
      in if ds = [] then None else Some (if neg then - int (dec_val ds) else int (dec_val ds)))"

definition int_str :: "int \<Rightarrow> jsstring" where
  "int_str n = (if n < 0 then CHR ''-'' # nat_str (nat (- n)) else nat_str (nat n))"

section \<open>Lemmas\<close>

lemma all_digits_first: "all_digits s \<Longrightarrow> digit_char (hd s)"
  by (cases s) (auto simp: all_digits_def)

lemma digit_not_space: "digit_char c \<Longrightarrow> \<not> js_space c"
  by (auto simp: js_char_defs)

lemma js_trim_digits: "all_digits s \<Longrightarrow> js_trim s = s"
proof -
  assume s: "all_digits s"
  then have "\<forall>c \<in> set s. \<not> js_space c" by (auto simp: all_digits_def list_all_iff digit_not_space)
  then have "dropWhile js_space s = s" "dropWhile js_space (rev s) = rev s"
    by (cases s, simp_all) (cases "rev s", simp, metis dropWhile.simps(2) list.set_intros(1) set_rev)
  then show ?thesis by (simp add: js_trim_def)
qed

lemma takeWhile_digits: "all_digits s \<Longrightarrow> takeWhile digit_char s = s \<and> dropWhile digit_char s = []"
  by (auto simp: all_digits_def list_all_iff takeWhile_eq_all_conv dropWhile_eq_Nil_conv)

lemma radix_of_digits: "all_digits s \<Longrightarrow> radix_of (take 2 s) = None"
proof -
  assume s: "all_digits s"
  then have "\<forall>c \<in> set (take 2 s). digit_char c" by (auto simp: all_digits_def list_all_iff dest: in_set_takeD)
  then show ?thesis by (auto simp: radix_of_def js_char_defs)
qed

lemma js_num_digits:
  assumes "all_digits s" "dec_val s < 2 ^ 53" shows "js_num s = Fin (of_nat (dec_val s))"
proof -
  from assms(1) have d: "digit_char (hd s)" "s \<noteq> []" by (simp_all add: all_digits_first all_digits_def)
  then have h: "hd s \<noteq> CHR ''-''" "hd s \<noteq> CHR ''+''" by (auto simp: js_char_defs)
  have i: "s \<noteq> ''Infinity''" using d by (auto simp: js_char_defs)
  have "(of_nat (dec_val s) :: rat) < of_nat (2 ^ 53)" using assms(2) by (rule of_nat_less_iff [THEN iffD2])
  moreover have "(of_nat (2 ^ 53) :: rat) < MAX_FINITE" by (simp add: MAX_FINITE_def)
  ultimately have "(of_nat (dec_val s) :: rat) < MAX_FINITE" by (rule less_trans)
  moreover have "- MAX_FINITE < (of_nat (dec_val s) :: rat)"
    by (rule less_le_trans [of _ 0]) (simp_all add: MAX_FINITE_def)
  ultimately have "js_finite (of_nat (dec_val s)) = Fin (of_nat (dec_val s))" by (simp add: js_finite_def)
  with assms(1) d h i show ?thesis
    by (simp add: js_num_def js_trim_digits radix_of_digits signed_decimal_def unsigned_decimal_def takeWhile_digits pow10_def)
qed

end
