(* ===== verification/Maintenance.thy ===== *)
theory Maintenance imports JsNumber Validation "HOL-Library.Product_Lexorder" begin

text \<open>
  When the server lets a Windows agent work (\<open>inventory/routes/agent.js\<close>): the versions of
  the agent, what its User-Agent tells, the update offered, and the maintenance window, its check,
  its evaluation and the memo of the warnings.

  The time zones of \<open>Intl.DateTimeFormat\<close> are a parameter: \<open>local tz now\<close> is the day of the
  week, the hour as formatted (it may be 24) and the minute, \<open>None\<close> when the zone is refused.
\<close>

section \<open>Versions\<close>

definition version_part :: "jsstring \<Rightarrow> nat \<Rightarrow> js_number" where
  "version_part v i =
     (let ps = map js_num (js_split (CHR ''.'') v) in if i < length ps then num_or_0 (ps ! i) else Fin 0)"

fun gt_lex :: "(js_number \<times> js_number) list \<Rightarrow> bool" where
  "gt_lex [] = False"
| "gt_lex ((x, y) # ps) = (if num_gt x y then True else if num_gt y x then False else gt_lex ps)"

definition semverGt :: "jsstring \<Rightarrow> jsstring \<Rightarrow> bool" where
  "semverGt a b = gt_lex (map (\<lambda>i. (version_part a i, version_part b i)) [0, 1, 2])"

text \<open>\<open>/^\d+\.\d+\.\d+$/\<close>.\<close>

definition strict_version :: "jsstring \<Rightarrow> bool" where
  "strict_version v \<longleftrightarrow> (let ps = js_split (CHR ''.'') v in length ps = 3 \<and> list_all all_digits ps)"

definition AGENT_PROCESSES_EVERY_RESPONSE :: jsstring where
  "AGENT_PROCESSES_EVERY_RESPONSE = ''2.15.3''"

definition processesEveryResponse :: "json option \<Rightarrow> bool" where
  "processesEveryResponse v =
     (case v of Some (JStr s) \<Rightarrow> strict_version s \<and> \<not> semverGt AGENT_PROCESSES_EVERY_RESPONSE s | _ \<Rightarrow> False)"

section \<open>User-Agent\<close>

text \<open>The first match of a pattern: \<open>f\<close> matches at the start of a suffix.\<close>

fun first_match :: "(jsstring \<Rightarrow> 'a option) \<Rightarrow> jsstring \<Rightarrow> 'a option" where
  "first_match f [] = f []"
| "first_match f (c # s) = (case f (c # s) of Some x \<Rightarrow> Some x | None \<Rightarrow> first_match f s)"

definition closed_word :: "jsstring \<Rightarrow> jsstring option" where
  "closed_word s =
     (let w = takeWhile word_char s in if w \<noteq> [] \<and> starts_with '')'' (dropWhile word_char s) then Some w else None)"

definition arch_at :: "jsstring \<Rightarrow> jsstring option" where
  "arch_at s =
     (case find (\<lambda>p. starts_with p s) [''(windows/'', ''(linux/'', ''(darwin/''] of
        None \<Rightarrow> None
      | Some p \<Rightarrow> closed_word (drop (length p) s))"

definition archFromUA :: "jsstring option \<Rightarrow> jsstring" where
  "archFromUA ua =
     (case first_match arch_at (or_else ua []) of
        None \<Rightarrow> ''amd64''
      | Some a \<Rightarrow> if a \<in> {''amd64'', ''arm64'', ''386''} then a else ''amd64'')"

definition alnum_char :: "char \<Rightarrow> bool" where
  "alnum_char c \<longleftrightarrow> alpha_char c \<or> digit_char c"

definition os_at :: "jsstring \<Rightarrow> jsstring option" where
  "os_at s =
     (let os = takeWhile alnum_char (tl s); r = dropWhile alnum_char (tl s) in
      if starts_with ''('' s \<and> os \<noteq> [] \<and> starts_with ''/'' r \<and> closed_word (tl r) \<noteq> None then Some os else None)"

definition osFromUA :: "jsstring option \<Rightarrow> jsstring" where
  "osFromUA ua = (case first_match os_at (or_else ua []) of None \<Rightarrow> ''windows'' | Some os \<Rightarrow> js_lower os)"

section \<open>The update offered to an agent\<close>

record agent_meta =
  am_version :: jsstring
  am_sha256 :: jsstring
  am_signature :: jsstring

record agent_update =
  au_version :: jsstring
  au_url :: jsstring
  au_sha256 :: jsstring
  au_signature :: jsstring

text \<open>
  \<open>binary\<close> is \<open>getAgentBinaryMeta\<close> (\<open>None\<close> without binary or key); \<open>legacy\<close> is the
  pattern of the instances that keep an older User-Agent.
\<close>

definition isGoAgent :: "(jsstring \<Rightarrow> bool) \<Rightarrow> jsstring \<Rightarrow> bool" where
  "isGoAgent legacy ua \<longleftrightarrow> js_index_of ''opale-agent'' ua \<noteq> None \<or> legacy ua"

definition agentUpdate ::
    "(jsstring \<Rightarrow> agent_meta option) \<Rightarrow> (jsstring \<Rightarrow> bool) \<Rightarrow> bool \<Rightarrow> jsstring option \<Rightarrow> jsstring option \<Rightarrow> agent_update option" where
  "agentUpdate binary legacy in_window ua version =
     (if in_window \<and> isGoAgent legacy (or_else ua []) \<and> osFromUA (Some (or_else ua [])) = ''windows''
      then (let arch = archFromUA ua in
            case (binary arch, version) of
              (Some m, Some v) \<Rightarrow>
                if am_version m \<noteq> [] \<and> am_signature m \<noteq> [] \<and> v \<noteq> [] \<and> semverGt (am_version m) v
                then Some \<lparr>au_version = am_version m, au_url = ''/api/agent/binary?arch='' @ arch,
                           au_sha256 = am_sha256 m, au_signature = am_signature m\<rparr>
                else None
            | _ \<Rightarrow> None)
      else None)"

section \<open>The maintenance window\<close>

definition WINDOW_KEYS :: "jsstring list" where
  "WINDOW_KEYS = [''weekdays'', ''start'', ''end'', ''tz'']"

definition is_integer :: "json \<Rightarrow> bool" where
  "is_integer v = (case v of JNum r \<Rightarrow> of_int \<lfloor>r\<rfloor> = r | _ \<Rightarrow> False)"

definition day_ok :: "json \<Rightarrow> bool" where
  "day_ok v = (case v of JNum r \<Rightarrow> is_integer v \<and> \<bar>r\<bar> < 2 ^ 31 | _ \<Rightarrow> False)"

definition text_or_null :: "json option \<Rightarrow> bool" where
  "text_or_null v = (case v of None \<Rightarrow> True | Some JNull \<Rightarrow> True | Some (JStr s) \<Rightarrow> True | _ \<Rightarrow> False)"

definition days_or_null :: "json option \<Rightarrow> bool" where
  "days_or_null v = (case v of None \<Rightarrow> True | Some JNull \<Rightarrow> True | Some (JArr ds) \<Rightarrow> list_all day_ok ds | _ \<Rightarrow> False)"

definition windowForAgent :: "json option \<Rightarrow> json option" where
  "windowForAgent w =
     (case w of
        Some (JObj ps) \<Rightarrow>
          if text_or_null (jm_get ps ''start'') \<and> text_or_null (jm_get ps ''end'') \<and> text_or_null (jm_get ps ''tz'') \<and>
             days_or_null (jm_get ps ''weekdays'')
          then Some (JObj (List.map_filter (\<lambda>k. map_option (Pair k) (jm_get ps k)) WINDOW_KEYS))
          else None
      | _ \<Rightarrow> None)"

datatype window_problem =
    Window_types | Window_unknown_key jsstring | Window_days | Window_hours | Window_zone | Window_json

text \<open>\<open>s.match(/^(\d{1,2}):(\d{2})$/)\<close> with the bounds of a time of day: the minute of the day.\<close>

definition hhmm :: "jsstring \<Rightarrow> nat option" where
  "hhmm s =
     (case js_split (CHR '':'') s of
        [h, m] \<Rightarrow>
          if all_digits h \<and> length h \<le> 2 \<and> all_digits m \<and> length m = 2 \<and> dec_val h \<le> 23 \<and> dec_val m \<le> 59
          then Some (dec_val h * 60 + dec_val m) else None
      | _ \<Rightarrow> None)"

definition parseHHMM :: "json option \<Rightarrow> nat option" where
  "parseHHMM v = (case v of Some (JStr s) \<Rightarrow> hhmm s | _ \<Rightarrow> None)"

text \<open>Truth of a value that is absent, null or any JSON value.\<close>

definition json_true :: "json option \<Rightarrow> bool" where
  "json_true v =
     (case v of None \<Rightarrow> False | Some JNull \<Rightarrow> False | Some (JBool b) \<Rightarrow> b | Some (JNum r) \<Rightarrow> r \<noteq> 0
      | Some (JStr s) \<Rightarrow> s \<noteq> [] | Some (JArr xs) \<Rightarrow> True | Some (JObj ps) \<Rightarrow> True)"

type_synonym zones = "json \<Rightarrow> time \<Rightarrow> (nat \<times> nat \<times> nat) option"

definition day_in_range :: "json \<Rightarrow> bool" where
  "day_in_range v = (case v of JNum r \<Rightarrow> 0 \<le> r \<and> r \<le> 6 | _ \<Rightarrow> False)"

definition maintenanceWindowProblem :: "(json \<Rightarrow> bool) \<Rightarrow> json \<Rightarrow> window_problem option" where
  "maintenanceWindowProblem zone_ok w =
     (if w = JNull then None
      else case (windowForAgent (Some w), w) of
        (Some _, JObj ps) \<Rightarrow>
          (case find (\<lambda>k. k \<notin> set WINDOW_KEYS) (map fst ps) of
             Some k \<Rightarrow> Some (Window_unknown_key k)
           | None \<Rightarrow>
               let days = jm_get ps ''weekdays''; start = jm_get ps ''start''; finish = jm_get ps ''end''; tz = jm_get ps ''tz'' in
               if (case days of Some (JArr ds) \<Rightarrow> list_ex (\<lambda>d. \<not> day_in_range d) ds | _ \<Rightarrow> False) then Some Window_days
               else if (json_true start \<or> json_true finish) \<and> (parseHHMM start = None \<or> parseHHMM finish = None) then Some Window_hours
               else if json_true tz \<and> \<not> zone_ok (the tz) then Some Window_zone
               else None)
      | _ \<Rightarrow> Some Window_types)"

text \<open>\<open>w.weekdays && w.weekdays.length\<close>.\<close>

definition has_days :: "json option \<Rightarrow> bool" where
  "has_days v = (case v of Some (JArr ds) \<Rightarrow> ds \<noteq> [] | Some (JStr s) \<Rightarrow> s \<noteq> [] | Some (JObj ps) \<Rightarrow> json_true (jm_get ps ''length'') | _ \<Rightarrow> False)"

definition in_hours :: "nat \<Rightarrow> nat \<Rightarrow> nat \<Rightarrow> bool" where
  "in_hours start finish cur \<longleftrightarrow>
     (if start < finish then start \<le> cur \<and> cur < finish else start \<le> cur \<or> cur < finish)"

definition isMaintenanceWindowActive :: "zones \<Rightarrow> json option \<Rightarrow> time \<Rightarrow> bool" where
  "isMaintenanceWindowActive local w now =
     (case w of
        Some (JObj ps) \<Rightarrow>
          let days = jm_get ps ''weekdays''; start = jm_get ps ''start''; finish = jm_get ps ''end''; tz = jm_get ps ''tz'' in
          if \<not> (has_days days \<or> json_true start \<or> json_true finish) then True
          else (case local (if json_true tz then the tz else JStr ''UTC'') now of
             None \<Rightarrow> True
           | Some (day, h, m) \<Rightarrow>
               if (case days of Some (JArr ds) \<Rightarrow> ds \<noteq> [] \<and> JNum (of_nat day) \<notin> set ds | _ \<Rightarrow> False) then False
               else (case (parseHHMM start, parseHHMM finish) of
                  (Some s, Some e) \<Rightarrow> s = e \<or> in_hours s e ((h mod 24) * 60 + m)
                | _ \<Rightarrow> True))
      | _ \<Rightarrow> True)"

record window_state =
  ws_window :: "json option"
  ws_problem :: "window_problem option"
  ws_active :: bool
  ws_allowed :: bool

text \<open>
  What a check-in reads of the setting \<open>maintenance_window_default\<close>; \<open>parse\<close> is
  \<open>JSON.parse\<close>. A zone is accepted or refused whatever the date.
\<close>

definition readWindow :: "(jsstring \<Rightarrow> json option) \<Rightarrow> zones \<Rightarrow> jsstring option \<Rightarrow> time \<Rightarrow> window_state" where
  "readWindow parse local setting now =
     (let zone_ok = (\<lambda>tz. local tz now \<noteq> None);
          (w, problem) =
            (if truthy setting
             then (case parse (the setting) of
                     None \<Rightarrow> (None, Some Window_json)
                   | Some v \<Rightarrow> (Some v, maintenanceWindowProblem zone_ok v))
             else (None, None));
          active = isMaintenanceWindowActive local w now
      in \<lparr>ws_window = w, ws_problem = problem, ws_active = active, ws_allowed = (active \<and> problem = None)\<rparr>)"

section \<open>The memo of the warnings\<close>

definition WINDOW_WARN_EVERY_MS :: int where "WINDOW_WARN_EVERY_MS = 60 * 60 * 1000"

definition WINDOW_WARN_MEMO_MAX :: nat where "WINDOW_WARN_MEMO_MAX = 100"

text \<open>Whether it warns, and the memo afterwards: a \<open>Map\<close> in the order of the insertions.\<close>

definition warnInvalidWindow :: "time \<Rightarrow> jsstring \<Rightarrow> (jsstring, time) jsmap \<Rightarrow> bool \<times> (jsstring, time) jsmap" where
  "warnInvalidWindow now raw memo =
     (case jm_get memo raw of
        Some previous \<Rightarrow>
          if now - previous < WINDOW_WARN_EVERY_MS then (False, memo)
          else
            let m1 = jm_del raw memo; m2 = (if WINDOW_WARN_MEMO_MAX \<le> length m1 then tl m1 else m1)
            in (True, jm_set raw now m2)
      | None \<Rightarrow>
          let m2 = (if WINDOW_WARN_MEMO_MAX \<le> length memo then tl memo else memo) in (True, jm_set raw now m2))"


section \<open>Versions are compared as numbers\<close>

definition version_triple :: "jsstring \<Rightarrow> nat \<times> nat \<times> nat" where
  "version_triple v = (let ps = map dec_val (js_split (CHR ''.'') v) in (ps ! 0, ps ! 1, ps ! 2))"

definition small_version :: "jsstring \<Rightarrow> bool" where
  "small_version v \<longleftrightarrow> strict_version v \<and> list_all (\<lambda>p. dec_val p < 2 ^ 53) (js_split (CHR ''.'') v)"

lemma small_version_cases:
  assumes "small_version v"
  obtains x y z where "js_split (CHR ''.'') v = [x, y, z]" "js_num x = Fin (of_nat (dec_val x))"
    "js_num y = Fin (of_nat (dec_val y))" "js_num z = Fin (of_nat (dec_val z))"
proof -
  from assms obtain x y z where s: "js_split (CHR ''.'') v = [x, y, z]"
    by (auto simp: small_version_def strict_version_def Let_def length_Suc_conv numeral_3_eq_3)
  with assms have "all_digits w \<and> dec_val w < 2 ^ 53" if "w \<in> {x, y, z}" for w
    using that by (auto simp: small_version_def strict_version_def)
  then show thesis using that s by (simp add: js_num_digits)
qed

lemma semverGt_triple:
  assumes "small_version a" "small_version b" shows "semverGt a b \<longleftrightarrow> version_triple b < version_triple a"
proof -
  from assms(1) obtain x y z where a: "js_split (CHR ''.'') a = [x, y, z]" "js_num x = Fin (of_nat (dec_val x))"
    "js_num y = Fin (of_nat (dec_val y))" "js_num z = Fin (of_nat (dec_val z))" by (rule small_version_cases)
  from assms(2) obtain u v w where b: "js_split (CHR ''.'') b = [u, v, w]" "js_num u = Fin (of_nat (dec_val u))"
    "js_num v = Fin (of_nat (dec_val v))" "js_num w = Fin (of_nat (dec_val w))" by (rule small_version_cases)
  show ?thesis
    using a b by (auto simp: semverGt_def version_part_def version_triple_def num_or_0_def less_prod_def')
qed

lemma agentUpdate_version:
  assumes "agentUpdate binary legacy w ua (Some v) = Some u" "small_version v" "small_version (au_version u)"
  shows "w \<and> osFromUA (Some (or_else ua [])) = ''windows'' \<and> version_triple v < version_triple (au_version u) \<and>
    (\<exists>m. binary (archFromUA ua) = Some m \<and> au_version u = am_version m \<and> au_sha256 u = am_sha256 m \<and> au_signature u = am_signature m)"
  using assms by (auto simp: agentUpdate_def Let_def semverGt_triple split: if_splits option.splits)

section \<open>A valid window means what it says\<close>

text \<open>The days of a window and its hours; none means every day, all day.\<close>

definition window_days :: "(jsstring \<times> json) list \<Rightarrow> json list" where
  "window_days ps = (case jm_get ps ''weekdays'' of Some (JArr ds) \<Rightarrow> ds | _ \<Rightarrow> [])"

definition window_hours :: "(jsstring \<times> json) list \<Rightarrow> (nat \<times> nat) option" where
  "window_hours ps =
     (case (parseHHMM (jm_get ps ''start''), parseHHMM (jm_get ps ''end'')) of (Some s, Some e) \<Rightarrow> Some (s, e) | _ \<Rightarrow> None)"

definition window_zone :: "(jsstring \<times> json) list \<Rightarrow> json" where
  "window_zone ps = (if json_true (jm_get ps ''tz'') then the (jm_get ps ''tz'') else JStr ''UTC'')"

text \<open>On the circle of the minutes of a day, from the start to the end.\<close>

definition window_open :: "(jsstring \<times> json) list \<Rightarrow> nat \<Rightarrow> nat \<Rightarrow> bool" where
  "window_open ps day cur \<longleftrightarrow>
     (window_days ps = [] \<or> JNum (of_nat day) \<in> set (window_days ps)) \<and>
     (case window_hours ps of
        None \<Rightarrow> True
      | Some (s, e) \<Rightarrow> s = e \<or> (cur + (1440 - s)) mod 1440 < (e + (1440 - s)) mod 1440)"

lemma hhmm_bound: "hhmm s = Some n \<Longrightarrow> n < 1440"
  by (auto simp: hhmm_def split: list.splits if_splits)

lemma parseHHMM_bound: "parseHHMM v = Some n \<Longrightarrow> n < 1440"
  by (auto simp: parseHHMM_def hhmm_bound split: option.splits json.splits)

lemma mod_day: "x < 2880 \<Longrightarrow> x mod (1440::nat) = (if x < 1440 then x else x - 1440)"
  by (simp add: mod_if)

lemma in_hours_circle:
  assumes "s < 1440" "e < 1440" "cur < 1440" "s \<noteq> e"
  shows "in_hours s e cur \<longleftrightarrow> (cur + (1440 - s)) mod 1440 < (e + (1440 - s)) mod 1440"
  using assms by (auto simp: in_hours_def mod_day)

lemma windowForAgent_obj:
  "windowForAgent (Some (JObj ps)) = Some v \<Longrightarrow>
     days_or_null (jm_get ps ''weekdays'') \<and> text_or_null (jm_get ps ''start'') \<and> text_or_null (jm_get ps ''end'') \<and>
     v = JObj (List.map_filter (\<lambda>k. map_option (Pair k) (jm_get ps k)) WINDOW_KEYS)"
  by (auto simp: windowForAgent_def split: if_splits)

lemma jm_get_picked:
  "k \<in> set ks \<Longrightarrow> jm_get (List.map_filter (\<lambda>k. map_option (Pair k) (jm_get ps k)) ks) k = jm_get ps k"
proof (induction ks)
  case (Cons a ks)
  have other: "jm_get (List.map_filter (\<lambda>k. map_option (Pair k) (jm_get ps k)) ks) k = jm_get ps k" if "k \<notin> set ks" "jm_get ps k = None"
    using that by (induction ks) (auto simp: List.map_filter_simps jm_get_def split: option.splits)
  show ?case
  proof (cases "jm_get ps a")
    case None
    with Cons other show ?thesis by (cases "k \<in> set ks") (auto simp: List.map_filter_simps)
  next
    case (Some v)
    with Cons show ?thesis by (cases "k = a") (simp_all add: List.map_filter_simps jm_get_def)
  qed
qed simp

lemma isActive_agrees:
  assumes "\<And>k. k \<in> set WINDOW_KEYS \<Longrightarrow> jm_get ps k = jm_get qs k"
  shows "isMaintenanceWindowActive local (Some (JObj ps)) now = isMaintenanceWindowActive local (Some (JObj qs)) now"
  using assms by (simp add: isMaintenanceWindowActive_def WINDOW_KEYS_def)

lemma isActive_split:
  assumes "local (window_zone ps) now = Some (day, h, m)"
  shows "isMaintenanceWindowActive local (Some (JObj ps)) now =
    (\<not> (has_days (jm_get ps ''weekdays'') \<or> json_true (jm_get ps ''start'') \<or> json_true (jm_get ps ''end'')) \<or>
     (window_days ps = [] \<or> JNum (of_nat day) \<in> set (window_days ps)) \<and>
     (case window_hours ps of None \<Rightarrow> True | Some (s, e) \<Rightarrow> s = e \<or> in_hours s e ((h mod 24) * 60 + m)))"
proof -
  have d: "(case jm_get ps ''weekdays'' of Some (JArr ds) \<Rightarrow> ds \<noteq> [] \<and> JNum (of_nat day) \<notin> set ds | _ \<Rightarrow> False) \<longleftrightarrow>
      \<not> (window_days ps = [] \<or> JNum (of_nat day) \<in> set (window_days ps))"
    by (auto simp: window_days_def split: option.split json.split)
  show ?thesis
    using assms unfolding isMaintenanceWindowActive_def Let_def option.case json.case window_zone_def [symmetric]
    by (simp add: d window_hours_def split: option.split)
qed

lemma valid_window:
  assumes ok: "maintenanceWindowProblem zone_ok (JObj ps) = None"
    and loc: "local (window_zone ps) now = Some (day, h, m)" and m: "m < 60"
  shows "isMaintenanceWindowActive local (Some (JObj ps)) now = window_open ps day ((h mod 24) * 60 + m)"
proof -
  from ok obtain v where v: "windowForAgent (Some (JObj ps)) = Some v"
    and hours: "\<not> ((json_true (jm_get ps ''start'') \<or> json_true (jm_get ps ''end'')) \<and>
      (parseHHMM (jm_get ps ''start'') = None \<or> parseHHMM (jm_get ps ''end'') = None))"
    by (auto simp: maintenanceWindowProblem_def Let_def split: option.splits if_splits)
  have days: "has_days (jm_get ps ''weekdays'') \<longleftrightarrow> window_days ps \<noteq> []"
    using windowForAgent_obj [OF v] by (auto simp: has_days_def window_days_def days_or_null_def split: option.splits json.splits)
  have none: "parseHHMM x = None" if "\<not> json_true x" for x
    using that by (auto simp: parseHHMM_def json_true_def hhmm_def split: option.splits json.splits)
  have cur: "(h mod 24) * 60 + m < 1440" using m mod_less_divisor [of 24 h] by simp
  show ?thesis
  proof (cases "window_hours ps")
    case None
    with hours none show ?thesis
      unfolding isActive_split [of local, OF loc] days window_open_def
      by (fastforce simp: window_hours_def split: option.splits)
  next
    case (Some se)
    then obtain s e where se: "se = (s, e)" "parseHHMM (jm_get ps ''start'') = Some s" "parseHHMM (jm_get ps ''end'') = Some e"
      by (auto simp: window_hours_def split: option.splits)
    with parseHHMM_bound have "s < 1440" "e < 1440" by blast+
    with se none [of "jm_get ps ''start''"] Some cur in_hours_circle [of s e] show ?thesis
      unfolding isActive_split [of local, OF loc] window_open_def by auto
  qed
qed


lemma warn_memo_bounded:
  assumes "length memo \<le> WINDOW_WARN_MEMO_MAX" shows "length (snd (warnInvalidWindow now raw memo)) \<le> WINDOW_WARN_MEMO_MAX"
proof -
  have grow: "length (jm_set raw now m) \<le> Suc (length m)" for m :: "(jsstring, time) jsmap"
    unfolding jm_set_def by (induction m) auto
  have shrink: "length (if WINDOW_WARN_MEMO_MAX \<le> length m then tl m else m) < WINDOW_WARN_MEMO_MAX"
    if "length m \<le> WINDOW_WARN_MEMO_MAX" for m :: "(jsstring, time) jsmap"
    using that by (auto simp: WINDOW_WARN_MEMO_MAX_def)
  have "length (jm_del raw memo) \<le> length memo"
    by (simp add: jm_del_def length_delete_le)
  with assms have del: "length (jm_del raw memo) \<le> WINDOW_WARN_MEMO_MAX" by simp
  have "length (jm_set raw now (if WINDOW_WARN_MEMO_MAX \<le> length m then tl m else m)) \<le> WINDOW_WARN_MEMO_MAX"
    if "length m \<le> WINDOW_WARN_MEMO_MAX" for m :: "(jsstring, time) jsmap"
    using le_trans [OF grow Suc_leI [OF shrink [OF that]]] .
  from this [OF assms] this [OF del] assms show ?thesis
    by (cases "WINDOW_WARN_MEMO_MAX \<le> length (jm_del raw memo)")
      (auto simp add: warnInvalidWindow_def Let_def split: option.split if_splits)
qed

section \<open>Property\<close>

lemma readWindow_fields:
  "ws_allowed (readWindow parse local setting now) =
     (ws_active (readWindow parse local setting now) \<and> ws_problem (readWindow parse local setting now) = None)"
  "ws_active (readWindow parse local setting now) = isMaintenanceWindowActive local (ws_window (readWindow parse local setting now)) now"
  "ws_window (readWindow parse local setting now) = Some w \<Longrightarrow>
     ws_problem (readWindow parse local setting now) = maintenanceWindowProblem (\<lambda>tz. local tz now \<noteq> None) w"
  by (auto simp: readWindow_def Let_def split: option.splits if_splits)

text \<open>
  What a window must be: only the four keys, days from 0 to 6, both hours or none, a zone that is
  known. Absent, null and empty texts count as not given.
\<close>

definition not_given :: "json option \<Rightarrow> bool" where
  "not_given v \<longleftrightarrow> v = None \<or> v = Some JNull \<or> v = Some (JStr [])"

definition days_valid :: "json option \<Rightarrow> bool" where
  "days_valid v = (case v of None \<Rightarrow> True | Some JNull \<Rightarrow> True | Some (JArr ds) \<Rightarrow> set ds \<subseteq> (\<lambda>n. JNum (of_nat n)) ` {0..6} | _ \<Rightarrow> False)"

definition hours_valid :: "json option \<Rightarrow> json option \<Rightarrow> bool" where
  "hours_valid s e \<longleftrightarrow> not_given s \<and> not_given e \<or> parseHHMM s \<noteq> None \<and> parseHHMM e \<noteq> None"

definition zone_valid :: "(json \<Rightarrow> bool) \<Rightarrow> json option \<Rightarrow> bool" where
  "zone_valid known tz \<longleftrightarrow> not_given tz \<or> (\<exists>s. tz = Some (JStr s) \<and> known (JStr s))"

definition window_valid :: "(json \<Rightarrow> bool) \<Rightarrow> (jsstring \<times> json) list \<Rightarrow> bool" where
  "window_valid known ps \<longleftrightarrow> set (map fst ps) \<subseteq> set WINDOW_KEYS \<and> days_valid (jm_get ps ''weekdays'') \<and>
     hours_valid (jm_get ps ''start'') (jm_get ps ''end'') \<and> zone_valid known (jm_get ps ''tz'')"

lemma small_day: "day_ok v \<and> day_in_range v \<longleftrightarrow> v \<in> (\<lambda>n. JNum (of_nat n)) ` {0..6}"
proof
  assume "day_ok v \<and> day_in_range v"
  then obtain r where r: "v = JNum r" "of_int \<lfloor>r\<rfloor> = r" "0 \<le> r" "r \<le> 6"
    by (auto simp: day_ok_def day_in_range_def is_integer_def split: json.splits)
  define k where "k = \<lfloor>r\<rfloor>"
  have k: "v = JNum (of_int k)" unfolding k_def r(2) by (rule r(1))
  have "0 \<le> k" "k \<le> 6" using r(3,4) unfolding k_def by (simp_all add: floor_le_iff)
  then have "v = JNum (of_nat (nat k))" "nat k \<in> {0..6}" using k by (simp_all add: nat_le_iff)
  then show "v \<in> (\<lambda>n. JNum (of_nat n)) ` {0..6}" by blast
qed (auto simp: day_ok_def day_in_range_def is_integer_def)

lemma days_valid_iff:
  "days_valid v \<longleftrightarrow> days_or_null v \<and> \<not> (case v of Some (JArr ds) \<Rightarrow> list_ex (\<lambda>d. \<not> day_in_range d) ds | _ \<Rightarrow> False)"
  by (auto simp: days_valid_def days_or_null_def list_all_iff list_ex_iff subset_iff simp flip: small_day split: option.splits json.splits)

lemma given_text: "text_or_null v \<Longrightarrow> json_true v \<longleftrightarrow> \<not> not_given v"
  by (auto simp: text_or_null_def json_true_def not_given_def split: option.splits json.splits)

lemma given_hours:
  "hours_valid s e \<longleftrightarrow> text_or_null s \<and> text_or_null e \<and> \<not> ((json_true s \<or> json_true e) \<and> (parseHHMM s = None \<or> parseHHMM e = None))"
proof -
  have t: "text_or_null v" if "parseHHMM v \<noteq> None \<or> not_given v" for v
    using that by (auto simp: parseHHMM_def text_or_null_def not_given_def split: option.splits json.splits)
  have g: "\<not> not_given v" if "parseHHMM v \<noteq> None" for v
    using that by (auto simp: parseHHMM_def not_given_def hhmm_def split: option.splits json.splits)
  show ?thesis using t g given_text [of s] given_text [of e] unfolding hours_valid_def by metis
qed

lemma given_zone: "zone_valid known v \<longleftrightarrow> text_or_null v \<and> \<not> (json_true v \<and> \<not> known (the v))"
  by (auto simp: zone_valid_def text_or_null_def not_given_def json_true_def split: option.splits json.splits)

lemma problem_iff: "maintenanceWindowProblem known (JObj ps) = None \<longleftrightarrow> window_valid known ps"
proof -
  have k: "find (\<lambda>k. k \<notin> set WINDOW_KEYS) (map fst ps) = None \<longleftrightarrow> set (map fst ps) \<subseteq> set WINDOW_KEYS"
    by (auto simp: find_None_iff)
  show ?thesis
    unfolding window_valid_def days_valid_iff given_hours given_zone k [symmetric] maintenanceWindowProblem_def windowForAgent_def Let_def
    by (auto split: option.split)
qed

lemma other_windows:
  "w \<noteq> JNull \<Longrightarrow> \<not> (\<exists>ps. w = JObj ps) \<Longrightarrow> maintenanceWindowProblem known w \<noteq> None"
  by (auto simp: maintenanceWindowProblem_def windowForAgent_def split: json.splits)

lemma read_cases:
  "\<not> truthy setting \<Longrightarrow> ws_allowed (readWindow parse local setting now)"
  "truthy setting \<Longrightarrow> parse (the setting) = None \<Longrightarrow> \<not> ws_allowed (readWindow parse local setting now)"
  "truthy setting \<Longrightarrow> parse (the setting) = Some w \<Longrightarrow>
     ws_allowed (readWindow parse local setting now) \<longleftrightarrow>
       maintenanceWindowProblem (\<lambda>tz. local tz now \<noteq> None) w = None \<and> isMaintenanceWindowActive local (Some w) now"
  by (auto simp: readWindow_def Let_def isMaintenanceWindowActive_def)

text \<open>
  C33: The setting decides when deployments leave. Without a setting, or with the JSON null, always.
  With a text that is not JSON, a value that is not an object or a window that is not what a window
  must be (an unknown key, a day out of range, an hour missing or malformed, an unknown zone), never.
  With a valid window, exactly on its days and between its hours, on the circle of the minutes of the
  day (it may cross midnight), in its time zone or UTC; and the window sent to the agents, cut to the
  keys they decode, is open at the same moments. Assumed of Intl: the zone UTC is known, minutes are
  below 60.
\<close>

theorem window_decides_deployments:
  assumes utc: "local (JStr ''UTC'') now \<noteq> None" and minutes: "\<And>tz day h m. local tz now = Some (day, h, m) \<Longrightarrow> m < 60"
  shows "ws_allowed (readWindow parse local setting now) =
      (if \<not> truthy setting then True
       else case parse (the setting) of
         Some JNull \<Rightarrow> True
       | Some (JObj ps) \<Rightarrow>
           window_valid (\<lambda>tz. local tz now \<noteq> None) ps \<and>
           (case local (window_zone ps) now of None \<Rightarrow> False | Some (day, h, m) \<Rightarrow> window_open ps day ((h mod 24) * 60 + m))
       | _ \<Rightarrow> False) \<and>
    (\<forall>ps. window_valid (\<lambda>tz. local tz now \<noteq> None) ps \<longrightarrow>
       (case local (window_zone ps) now of
          None \<Rightarrow> False
        | Some (day, h, m) \<Rightarrow> isMaintenanceWindowActive local (windowForAgent (Some (JObj ps))) now = window_open ps day ((h mod 24) * 60 + m)))"
proof -
  let ?known = "\<lambda>tz. local tz now \<noteq> None"
  have zone: "\<exists>day h m. local (window_zone ps) now = Some (day, h, m)" if "window_valid ?known ps" for ps
    using that utc by (auto simp: window_valid_def given_zone window_zone_def)
  have active: "isMaintenanceWindowActive local (Some (JObj ps)) now = window_open ps day ((h mod 24) * 60 + m)"
    if "window_valid ?known ps" "local (window_zone ps) now = Some (day, h, m)" for ps day h m
    using valid_window [OF iffD2 [OF problem_iff that(1)], where local = local, OF that(2) minutes [OF that(2)]] .
  have sent: "isMaintenanceWindowActive local (windowForAgent (Some (JObj ps))) now = isMaintenanceWindowActive local (Some (JObj ps)) now"
    if "window_valid ?known ps" for ps
  proof -
    from that have "maintenanceWindowProblem ?known (JObj ps) = None" by (simp add: problem_iff)
    then obtain v where v: "windowForAgent (Some (JObj ps)) = Some v"
      by (auto simp: maintenanceWindowProblem_def split: option.splits)
    from windowForAgent_obj [OF v] have "v = JObj (List.map_filter (\<lambda>k. map_option (Pair k) (jm_get ps k)) WINDOW_KEYS)" by simp
    then show ?thesis unfolding v by (simp only:) (rule isActive_agrees, rule jm_get_picked)
  qed
  have "ws_allowed (readWindow parse local setting now) =
      (window_valid ?known ps \<and>
       (case local (window_zone ps) now of None \<Rightarrow> False | Some (day, h, m) \<Rightarrow> window_open ps day ((h mod 24) * 60 + m)))"
    if "truthy setting" "parse (the setting) = Some (JObj ps)" for ps
    using zone [of ps] active [of ps] unfolding read_cases(3) [where setting = setting and parse = parse and w = "JObj ps", OF that] problem_iff by auto
  moreover have "ws_allowed (readWindow parse local setting now)" if "truthy setting" "parse (the setting) = Some JNull"
    unfolding read_cases(3) [where setting = setting and parse = parse and w = JNull, OF that] by (simp add: maintenanceWindowProblem_def isMaintenanceWindowActive_def)
  moreover have "\<not> ws_allowed (readWindow parse local setting now)"
    if "truthy setting" "parse (the setting) = Some w" "w \<noteq> JNull" "\<not> (\<exists>ps. w = JObj ps)" for w
    using read_cases(3) [where setting = setting and parse = parse and w = w, OF that(1,2)] other_windows [OF that(3,4)] by blast
  ultimately have "ws_allowed (readWindow parse local setting now) =
      (if \<not> truthy setting then True
       else case parse (the setting) of
         Some JNull \<Rightarrow> True
       | Some (JObj ps) \<Rightarrow> window_valid ?known ps \<and>
           (case local (window_zone ps) now of None \<Rightarrow> False | Some (day, h, m) \<Rightarrow> window_open ps day ((h mod 24) * 60 + m))
       | _ \<Rightarrow> False)"
    using read_cases(1,2) by (simp split: option.split json.split)
  moreover have "\<forall>ps. window_valid ?known ps \<longrightarrow>
       (case local (window_zone ps) now of
          None \<Rightarrow> False
        | Some (day, h, m) \<Rightarrow> isMaintenanceWindowActive local (windowForAgent (Some (JObj ps))) now = window_open ps day ((h mod 24) * 60 + m))"
    using zone active sent by (fastforce split: option.split)
  ultimately show ?thesis by blast
qed

definition night_window :: "(jsstring \<times> json) list" where
  "night_window = [(''weekdays'', JArr [JNum 1, JNum 5]), (''start'', JStr ''22:00''), (''end'', JStr ''6:30'')]"

text \<open>A clock that knows UTC only: a Friday, a quarter past midnight.\<close>

definition friday :: zones where
  "friday tz now = (if tz = JStr ''UTC'' then Some (5, 24, 15) else None)"

lemma window_decides_deployments_witness:
  "ws_allowed (readWindow (\<lambda>_. Some (JObj night_window)) friday (Some ''w'') 0) \<and>
   \<not> ws_allowed (readWindow (\<lambda>_. Some (JObj ((''tz'', JStr ''Mars/Olympus'') # night_window))) friday (Some ''w'') 0) \<and>
   \<not> ws_allowed (readWindow (\<lambda>_. None) friday (Some ''w'') 0)"
proof -
  have f: "friday (JStr ''UTC'') 0 \<noteq> None" "\<And>tz day h m. friday tz 0 = Some (day, h, m) \<Longrightarrow> m < 60"
    by (simp_all add: friday_def split: if_splits)
  have spec: "ws_allowed (readWindow p friday (Some ''w'') 0) =
      (case p ''w'' of
         Some JNull \<Rightarrow> True
       | Some (JObj ps) \<Rightarrow> window_valid (\<lambda>tz. friday tz 0 \<noteq> None) ps \<and>
           (case friday (window_zone ps) 0 of None \<Rightarrow> False | Some (day, h, m) \<Rightarrow> window_open ps day ((h mod 24) * 60 + m))
       | _ \<Rightarrow> False)" for p
    using window_decides_deployments [where local = friday and now = 0 and parse = p and setting = "Some ''w''", OF f, THEN conjunct1]
    by (simp add: truthy_def)
  have a: "truthy (Some ''w'')" "window_zone night_window = JStr ''UTC''" "window_open night_window 5 15"
    by code_simp+
  have v: "window_valid (\<lambda>tz. friday tz 0 \<noteq> None) night_window" unfolding problem_iff [symmetric] by code_simp
  have n: "\<not> window_valid (\<lambda>tz. friday tz 0 \<noteq> None) ((''tz'', JStr ''Mars/Olympus'') # night_window)"
    unfolding problem_iff [symmetric] by code_simp
  have c: "friday (JStr ''UTC'') 0 = Some (5, 24, 15)" by (simp add: friday_def)
  show ?thesis unfolding spec using a v n c by simp
qed

end
