(* ===== verification/Deployments.thy ===== *)
theory Deployments imports Maintenance NativeGroups begin

text \<open>
  Packages, their approval and their deployment on the Windows machines
  (\<open>inventory/routes/packages.js\<close>, \<open>inventory/routes/deployments.js\<close>,
  \<open>inventory/lib/deployment-snapshots.js\<close>, \<open>inventory/lib/pull-managed.js\<close>), the part of
  the check-in that reports, selects and reserves them with the remote scripts
  (\<open>inventory/routes/agent.js\<close>), and the timeouts (\<open>plugins/cleanup.js\<close>).

  Each statement or transaction of the code is one function on the database; a handler composes
  them, and other requests may run between them. Time is in microseconds, the precision of
  PostgreSQL. Rows without ORDER BY come in the order of their insertion. An identifier of a body
  that is not the text of a row's identifier is one that no row has.
\<close>

section \<open>Tables\<close>

text \<open>What runs on a machine: the columns that a package and a snapshot share.\<close>

record content =
  ct_name :: jsstring
  ct_type :: jsstring
  ct_winget :: "jsstring option"
  ct_install :: "jsstring option"
  ct_post :: "jsstring option"
  ct_detect :: "jsstring option"

datatype pkg_status = Pk_draft | Pk_approved

record package =
  pk_id :: uuid
  pk_content :: content
  pk_desc :: "jsstring option"
  pk_version :: "jsstring option"
  pk_status :: pkg_status
  pk_approved_by :: "jsstring option"
  pk_approved_at :: "time option"
  pk_created_by :: "jsstring option"

record snapshot =
  sn_content :: content
  sn_by :: "jsstring option"
  sn_at :: "time option"

datatype dep_status = Dep_pending | Dep_running | Dep_success | Dep_failed | Dep_cancelled

record deployment =
  dp_id :: uuid
  dp_package :: uuid
  dp_device :: uuid
  dp_status :: dep_status
  dp_exit :: "int option"
  dp_output :: "jsstring option"
  dp_by :: "jsstring option"
  dp_job :: "uuid option"
  dp_queued :: time
  dp_started :: "time option"
  dp_completed :: "time option"

datatype job_scope = Sc_all | Sc_group jsstring | Sc_native uuid | Sc_user jsstring

record job =
  jb_id :: uuid
  jb_package :: uuid
  jb_scope :: job_scope
  jb_active :: bool
  jb_by :: "jsstring option"

record fleet_device =
  fd_id :: uuid
  fd_hostname :: jsstring
  fd_pull :: bool
  fd_user :: "jsstring option"

record software =
  sw_device :: uuid
  sw_package :: uuid
  sw_detected :: bool
  sw_checked :: time

datatype exec_status = Ex_pending | Ex_running | Ex_done | Ex_error

text \<open>An execution of a script; \<open>ex_agent\<close> tells the mode agent from the mode ssh.\<close>

record execution =
  ex_id :: uuid
  ex_device :: uuid
  ex_agent :: bool
  ex_name :: "jsstring option"
  ex_code :: "jsstring option"
  ex_status :: exec_status
  ex_exit :: "int option"
  ex_output :: "jsstring option"
  ex_queued :: time
  ex_started :: "time option"
  ex_completed :: "time option"

datatype fleet_audit = Package_deployed uuid uuid uuid | Script_executed uuid "jsstring option"

record ddb =
  dd_devices :: "fleet_device list"
  dd_packages :: "package list"
  dd_deps :: "deployment list"
  dd_snaps :: "(uuid, snapshot) jsmap"
  dd_jobs :: "job list"
  dd_software :: "software list"
  dd_execs :: "execution list"
  dd_memberships :: "(uuid \<times> jsstring) list"
  dd_native :: gdb
  dd_users :: "jsstring list"
  dd_audit :: "fleet_audit list"
  dd_next :: uuid

definition find_package :: "ddb \<Rightarrow> uuid \<Rightarrow> package option" where
  "find_package d i = find (\<lambda>p. pk_id p = i) (dd_packages d)"

definition find_dep :: "ddb \<Rightarrow> uuid \<Rightarrow> deployment option" where
  "find_dep d i = find (\<lambda>r. dp_id r = i) (dd_deps d)"

definition approved :: "ddb \<Rightarrow> uuid \<Rightarrow> package option" where
  "approved d i = find (\<lambda>p. pk_id p = i \<and> pk_status p = Pk_approved) (dd_packages d)"

text \<open>The unique index: one pending deployment per package and machine.\<close>

definition pending_pairs :: "deployment list \<Rightarrow> (uuid \<times> uuid) list" where
  "pending_pairs rs = map (\<lambda>r. (dp_package r, dp_device r)) (filter (\<lambda>r. dp_status r = Dep_pending) rs)"

section \<open>Snapshots\<close>

definition snapshotSelect :: "package \<Rightarrow> snapshot" where
  "snapshotSelect p = \<lparr>sn_content = pk_content p, sn_by = pk_approved_by p, sn_at = pk_approved_at p\<rparr>"

text \<open>
  \<open>INSERT ... SELECT ... JOIN packages\<close> with \<open>SNAPSHOT_UPSERT\<close>: the snapshot of each
  deployment (its id, its package) from the current content of the package.
\<close>

definition SNAPSHOT_UPSERT :: "(uuid \<times> uuid) list \<Rightarrow> ddb \<Rightarrow> ddb" where
  "SNAPSHOT_UPSERT rows d =
     d\<lparr>dd_snaps := foldl (\<lambda>m (i, p). case find_package d p of None \<Rightarrow> m | Some k \<Rightarrow> jm_set i (snapshotSelect k) m) (dd_snaps d) rows\<rparr>"

text \<open>The same, for the deployments whose package is approved in the same statement.\<close>

definition snapshot_approved :: "(uuid \<times> uuid) list \<Rightarrow> ddb \<Rightarrow> ddb" where
  "snapshot_approved rows d = SNAPSHOT_UPSERT (filter (\<lambda>(i, p). approved d p \<noteq> None) rows) d"

section \<open>Packages\<close>

datatype pk_error =
    Name_required | Winget_id_required | Winget_id_invalid | Install_script_required | Package_not_found
  | Already_approved | Winget_id_missing | Active_deployments | Package_not_approved
  | Device_ids_required | Group_id_required | Entra_group_failed | Empty_entra_group | Native_group_required
  | Empty_native_group | User_required | Bad_scope | No_managed_device int nat
  | Deployment_not_found | Not_cancellable | Ids_required | Not_retryable | Pull_managed | Pending_exists
  | Must_be_approved | Job_not_found | Unique_violation

text \<open>
  \<open>/^[\p{L}\p{N}][^\s\\/:*?"<>|\p{Cc}\p{Cf}]{0,127}$/u\<close> on Latin-1: the letters and numbers,
  and the control and format characters, of that range.
\<close>

definition letter_or_number :: "char \<Rightarrow> bool" where
  "letter_or_number c \<longleftrightarrow>
     (let n = of_char c :: nat in
      48 \<le> n \<and> n \<le> 57 \<or> 65 \<le> n \<and> n \<le> 90 \<or> 97 \<le> n \<and> n \<le> 122 \<or> n \<in> {0xAA, 0xB2, 0xB3, 0xB5, 0xB9, 0xBA, 0xBC, 0xBD, 0xBE} \<or>
      0xC0 \<le> n \<and> n \<le> 0xFF \<and> n \<noteq> 0xD7 \<and> n \<noteq> 0xF7)"

definition winget_char :: "char \<Rightarrow> bool" where
  "winget_char c \<longleftrightarrow>
     (let n = of_char c :: nat in
      \<not> js_space c \<and> n \<notin> {0x5C, 0x2F, 0x3A, 0x2A, 0x3F, 0x22, 0x3C, 0x3E, 0x7C, 0xAD} \<and>
      \<not> n < 32 \<and> \<not> (127 \<le> n \<and> n \<le> 159))"

definition isValidWingetId :: "jsstring option \<Rightarrow> bool" where
  "isValidWingetId v =
     (case v of Some (c # s) \<Rightarrow> letter_or_number c \<and> list_all winget_char s \<and> length s \<le> 127 | _ \<Rightarrow> False)"

record package_body =
  bo_name :: "jsstring option"
  bo_desc :: "jsstring option"
  bo_type :: "jsstring option"
  bo_winget :: "jsstring option"
  bo_install :: "jsstring option"
  bo_post :: "jsstring option"
  bo_detect :: "jsstring option"
  bo_version :: "jsstring option"

definition createPackage :: "jsstring option \<Rightarrow> package_body \<Rightarrow> ddb \<Rightarrow> (pk_error + package) \<times> ddb" where
  "createPackage who b d =
     (if \<not> truthy (bo_name b) then (Inl Name_required, d)
      else if bo_type b = Some ''winget'' \<and> \<not> truthy (bo_winget b) then (Inl Winget_id_required, d)
      else if truthy (bo_winget b) \<and> \<not> isValidWingetId (bo_winget b) then (Inl Winget_id_invalid, d)
      else if bo_type b = Some ''script'' \<and> \<not> truthy (bo_install b) then (Inl Install_script_required, d)
      else
        let p = \<lparr>pk_id = dd_next d,
                 pk_content = \<lparr>ct_name = the (bo_name b), ct_type = or_else (or_null (bo_type b)) ''winget'',
                               ct_winget = or_null (bo_winget b), ct_install = or_null (bo_install b),
                               ct_post = or_null (bo_post b), ct_detect = or_null (bo_detect b)\<rparr>,
                 pk_desc = or_null (bo_desc b), pk_version = or_null (bo_version b), pk_status = Pk_draft,
                 pk_approved_by = None, pk_approved_at = None, pk_created_by = who\<rparr>
        in (Inr p, d\<lparr>dd_packages := dd_packages d @ [p], dd_next := dd_next d + 1\<rparr>))"

definition patchCheck :: "package \<Rightarrow> package_body \<Rightarrow> pk_error option" where
  "patchCheck e b =
     (if truthy (bo_winget b) \<and> bo_winget b \<noteq> ct_winget (pk_content e) \<and> \<not> isValidWingetId (bo_winget b) then Some Winget_id_invalid
      else if bo_type b = Some ''winget'' \<and> ct_type (pk_content e) \<noteq> ''winget'' \<and>
              \<not> isValidWingetId (first_some (or_null (bo_winget b)) (ct_winget (pk_content e))) then Some Winget_id_missing
      else None)"

definition patched_content :: "package_body \<Rightarrow> content \<Rightarrow> content" where
  "patched_content b c =
     \<lparr>ct_name = or_else (or_null (bo_name b)) (ct_name c), ct_type = or_else (or_null (bo_type b)) (ct_type c),
      ct_winget = first_some (or_null (bo_winget b)) (ct_winget c), ct_install = first_some (or_null (bo_install b)) (ct_install c),
      ct_post = first_some (or_null (bo_post b)) (ct_post c), ct_detect = first_some (or_null (bo_detect b)) (ct_detect c)\<rparr>"

definition patched_package :: "package_body \<Rightarrow> pkg_status \<Rightarrow> package \<Rightarrow> package" where
  "patched_package b s p =
     p\<lparr>pk_content := patched_content b (pk_content p), pk_desc := first_some (or_null (bo_desc b)) (pk_desc p),
       pk_version := first_some (or_null (bo_version b)) (pk_version p), pk_status := s,
       pk_approved_by := (if s = Pk_draft then None else pk_approved_by p),
       pk_approved_at := (if s = Pk_draft then None else pk_approved_at p)\<rparr>"

definition patchCommit :: "uuid \<Rightarrow> package_body \<Rightarrow> pkg_status \<Rightarrow> ddb \<Rightarrow> ddb" where
  "patchCommit i b s d = d\<lparr>dd_packages := update_rows (\<lambda>p. pk_id p = i) (patched_package b s) (dd_packages d)\<rparr>"

definition patchPackage :: "uuid \<Rightarrow> package_body \<Rightarrow> ddb \<Rightarrow> (pk_error + unit) \<times> ddb" where
  "patchPackage i b d =
     (case find_package d i of
        None \<Rightarrow> (Inl Package_not_found, d)
      | Some e \<Rightarrow>
         (case patchCheck e b of
            Some err \<Rightarrow> (Inl err, d)
          | None \<Rightarrow> (Inr (), patchCommit i b (if pk_status e = Pk_approved then Pk_draft else pk_status e) d)))"

definition is_active :: "deployment \<Rightarrow> bool" where
  "is_active r \<longleftrightarrow> dp_status r \<in> {Dep_pending, Dep_running}"

text \<open>The foreign keys cascade.\<close>

definition deleteCommit :: "uuid \<Rightarrow> ddb \<Rightarrow> ddb" where
  "deleteCommit i d =
     (let gone = map dp_id (filter (\<lambda>r. dp_package r = i) (dd_deps d)) in
      d\<lparr>dd_packages := filter (\<lambda>p. pk_id p \<noteq> i) (dd_packages d),
        dd_deps := filter (\<lambda>r. dp_package r \<noteq> i) (dd_deps d),
        dd_snaps := filter (\<lambda>(k, s). k \<notin> set gone) (dd_snaps d),
        dd_jobs := filter (\<lambda>j. jb_package j \<noteq> i) (dd_jobs d),
        dd_software := filter (\<lambda>s. sw_package s \<noteq> i) (dd_software d)\<rparr>)"

definition deletePackage :: "uuid \<Rightarrow> ddb \<Rightarrow> (pk_error + unit) \<times> ddb" where
  "deletePackage i d =
     (if list_ex (\<lambda>r. dp_package r = i \<and> is_active r) (dd_deps d) then (Inl Active_deployments, d) else (Inr (), deleteCommit i d))"

definition approveCheck :: "ddb \<Rightarrow> uuid \<Rightarrow> pk_error option" where
  "approveCheck d i =
     (case find_package d i of
        None \<Rightarrow> Some Package_not_found
      | Some p \<Rightarrow>
          if pk_status p = Pk_approved then Some Already_approved
          else if ct_type (pk_content p) = ''winget'' \<and> \<not> isValidWingetId (ct_winget (pk_content p)) then Some Winget_id_missing
          else None)"

definition approve_row :: "time \<Rightarrow> jsstring option \<Rightarrow> package \<Rightarrow> package" where
  "approve_row now who p = p\<lparr>pk_status := Pk_approved, pk_approved_by := who, pk_approved_at := Some now\<rparr>"

text \<open>The transaction: the approval, and the snapshots of the deployments that still wait.\<close>

definition approveCommit :: "time \<Rightarrow> jsstring option \<Rightarrow> uuid \<Rightarrow> ddb \<Rightarrow> ddb" where
  "approveCommit now who i d =
     (let d1 = d\<lparr>dd_packages := update_rows (\<lambda>p. pk_id p = i) (approve_row now who) (dd_packages d)\<rparr>;
          rows = map (\<lambda>r. (dp_id r, dp_package r)) (filter (\<lambda>r. dp_package r = i \<and> dp_status r = Dep_pending) (dd_deps d1))
      in snapshot_approved rows d1)"

definition approvePackage :: "time \<Rightarrow> jsstring option \<Rightarrow> uuid \<Rightarrow> ddb \<Rightarrow> (pk_error + unit) \<times> ddb" where
  "approvePackage now who i d =
     (case approveCheck d i of Some e \<Rightarrow> (Inl e, d) | None \<Rightarrow> (Inr (), approveCommit now who i d))"

section \<open>Deployment of a package\<close>

record deploy_body =
  de_scope :: "jsstring option"
  de_devices :: "uuid list option"
  de_group :: "jsstring option"
  de_native :: "uuid option"
  de_user :: "jsstring option"
  de_confirmed :: bool

text \<open>The machines of the scope, how many of the group are unknown, and the scope of the job.\<close>

definition deployTargets ::
    "(jsstring \<Rightarrow> jsstring list option) \<Rightarrow> deploy_body \<Rightarrow> ddb \<Rightarrow> (pk_error + uuid list \<times> int \<times> job_scope option) \<times> ddb" where
  "deployTargets hostnames b d =
     (let scope = or_else (de_scope b) ''device'' in
      if scope = ''device'' then
        (case de_devices b of
           None \<Rightarrow> (Inl Device_ids_required, d)
         | Some [] \<Rightarrow> (Inl Device_ids_required, d)
         | Some ids \<Rightarrow> (Inr (ids, 0, None), d))
      else if scope = ''group'' then
        (if \<not> truthy (de_group b) then (Inl Group_id_required, d)
         else case hostnames (the (de_group b)) of
           None \<Rightarrow> (Inl Entra_group_failed, d)
         | Some [] \<Rightarrow> (Inl Empty_entra_group, d)
         | Some hs \<Rightarrow>
             let ids = map fd_id (filter (\<lambda>v. fd_hostname v \<in> set hs) (dd_devices d))
             in (Inr (ids, int (length hs) - int (length ids), Some (Sc_group (the (de_group b)))), d))
      else if scope = ''native_group'' then
        (case de_native b of
           None \<Rightarrow> (Inl Native_group_required, d)
         | Some g \<Rightarrow>
             let ids = resolveGroupDeviceIds (dd_native d) g
             in if ids = [] then (Inl Empty_native_group, d) else (Inr (ids, 0, Some (Sc_native g)), d))
      else if scope = ''all'' then (Inr (map fd_id (dd_devices d), 0, Some Sc_all), d)
      else if scope = ''user'' then
        (if \<not> truthy (de_user b) then (Inl User_required, d)
         else let u = the (de_user b)
              in (Inr (map fd_id (filter (\<lambda>v. fd_user v = Some u) (dd_devices d)), 0, Some (Sc_user u)),
                  d\<lparr>dd_users := (if u \<in> set (dd_users d) then dd_users d else dd_users d @ [u])\<rparr>))
      else (Inl Bad_scope, d))"

definition isPullManaged :: "ddb \<Rightarrow> uuid \<Rightarrow> bool" where
  "isPullManaged d i = (case find (\<lambda>v. fd_id v = i) (dd_devices d) of None \<Rightarrow> False | Some v \<Rightarrow> fd_pull v)"

definition filterPullManaged :: "ddb \<Rightarrow> uuid list \<Rightarrow> uuid list \<times> nat" where
  "filterPullManaged d ids =
     (let kept = filter (\<lambda>i. list_ex (\<lambda>v. fd_id v = i \<and> \<not> fd_pull v) (dd_devices d)) ids in (kept, length ids - length kept))"

definition new_dep :: "time \<Rightarrow> uuid \<Rightarrow> uuid \<Rightarrow> uuid \<Rightarrow> jsstring option \<Rightarrow> uuid option \<Rightarrow> deployment" where
  "new_dep now i p v who j =
     \<lparr>dp_id = i, dp_package = p, dp_device = v, dp_status = Dep_pending, dp_exit = None, dp_output = None,
      dp_by = who, dp_job = j, dp_queued = now, dp_started = None, dp_completed = None\<rparr>"

text \<open>
  One INSERT of a deployment, \<open>ON CONFLICT DO NOTHING\<close>: the row and its id, when there is one.
\<close>

definition insert_dep :: "time \<Rightarrow> uuid \<Rightarrow> uuid \<Rightarrow> jsstring option \<Rightarrow> uuid option \<Rightarrow> ddb \<Rightarrow> uuid option \<times> ddb" where
  "insert_dep now p v who j d =
     (if (p, v) \<in> set (pending_pairs (dd_deps d)) then (None, d)
      else (Some (dd_next d), d\<lparr>dd_deps := dd_deps d @ [new_dep now (dd_next d) p v who j], dd_next := dd_next d + 1\<rparr>))"

text \<open>The insertion with its snapshot; an unknown machine or package is refused by the foreign keys.\<close>

definition queueDeployment :: "time \<Rightarrow> uuid \<Rightarrow> jsstring option \<Rightarrow> uuid option \<Rightarrow> uuid \<Rightarrow> nat \<times> ddb \<Rightarrow> nat \<times> ddb" where
  "queueDeployment now p who j v s =
     (case s of (n, d) \<Rightarrow>
       if \<not> list_ex (\<lambda>x. fd_id x = v) (dd_devices d) \<or> find_package d p = None then (n, d)
       else (case insert_dep now p v who j d of
               (None, d1) \<Rightarrow> (n + 1, d1)
             | (Some i, d1) \<Rightarrow> (n + 1, snapshot_approved [(i, p)] d1)))"

datatype deploy_reply =
    Needs_confirmation nat int nat
  | Queued_on nat nat int nat "uuid option"

definition add_job :: "uuid \<Rightarrow> job_scope option \<Rightarrow> jsstring option \<Rightarrow> ddb \<Rightarrow> uuid option \<times> ddb" where
  "add_job p scope who d =
     (case scope of
        None \<Rightarrow> (None, d)
      | Some sc \<Rightarrow>
          (Some (dd_next d),
           d\<lparr>dd_jobs := dd_jobs d @ [\<lparr>jb_id = dd_next d, jb_package = p, jb_scope = sc, jb_active = True, jb_by = who\<rparr>],
             dd_next := dd_next d + 1\<rparr>))"

definition deployPackage ::
    "(jsstring \<Rightarrow> jsstring list option) \<Rightarrow> time \<Rightarrow> jsstring option \<Rightarrow> uuid \<Rightarrow> deploy_body \<Rightarrow> ddb \<Rightarrow> (pk_error + deploy_reply) \<times> ddb" where
  "deployPackage hostnames now who i b d =
     (case find_package d i of
        None \<Rightarrow> (Inl Package_not_found, d)
      | Some p \<Rightarrow>
          if pk_status p \<noteq> Pk_approved then (Inl Package_not_approved, d)
          else
            (case deployTargets hostnames b d of
               (Inl e, d1) \<Rightarrow> (Inl e, d1)
             | (Inr (ids, unmatched, scope), d1) \<Rightarrow>
                 (case filterPullManaged d1 ids of
                    (kept, skipped) \<Rightarrow>
                      if kept = [] \<and> or_else (de_scope b) ''device'' \<noteq> ''user'' then (Inl (No_managed_device unmatched skipped), d1)
                      else if 10 < length kept \<and> \<not> de_confirmed b then (Inr (Needs_confirmation (length kept) unmatched skipped), d1)
                      else (case add_job i scope who d1 of
                              (j, d2) \<Rightarrow>
                                (case foldl (\<lambda>s v. queueDeployment now i who j v s) (0, d2) kept of
                                   (n, d3) \<Rightarrow> (Inr (Queued_on n (length kept) unmatched skipped j), d3))))))"

end
