(* ===== verification/DeployRuns.thy ===== *)
theory DeployRuns imports Deployments begin

text \<open>
  The life of a deployment after its creation: cancelled or retried by an administrator
  (\<open>inventory/routes/deployments.js\<close>, \<open>inventory/routes/packages.js\<close>), selected and reserved by
  the check-in of its machine with the remote scripts, settled by the result the agent reports
  (\<open>inventory/routes/agent.js\<close>, \<open>inventory/routes/scripts.js\<close>,
  \<open>inventory/lib/script-output.js\<close>) or by a timeout (\<open>plugins/cleanup.js\<close>).
\<close>

section \<open>Cancellation and retry\<close>

definition set_deps :: "(deployment \<Rightarrow> bool) \<Rightarrow> (deployment \<Rightarrow> deployment) \<Rightarrow> ddb \<Rightarrow> ddb" where
  "set_deps P f d = d\<lparr>dd_deps := update_rows P f (dd_deps d)\<rparr>"

definition cancel_row :: "time \<Rightarrow> deployment \<Rightarrow> deployment" where
  "cancel_row now r = r\<lparr>dp_status := Dep_cancelled, dp_completed := Some now\<rparr>"

definition cancelDeployment :: "time \<Rightarrow> uuid \<Rightarrow> ddb \<Rightarrow> (pk_error + unit) \<times> ddb" where
  "cancelDeployment now i d =
     (let P = (\<lambda>r. dp_id r = i \<and> dp_status r = Dep_pending) in
      if list_ex P (dd_deps d) then (Inr (), set_deps P (cancel_row now) d) else (Inl Not_cancellable, d))"

text \<open>The counts cancelled and skipped; an id given twice counts twice among the ids.\<close>

definition cancelBulk :: "time \<Rightarrow> uuid list \<Rightarrow> ddb \<Rightarrow> (pk_error + nat \<times> int) \<times> ddb" where
  "cancelBulk now ids d =
     (if ids = [] then (Inl Ids_required, d)
      else let P = (\<lambda>r. dp_id r \<in> set ids \<and> dp_status r = Dep_pending); n = length (filter P (dd_deps d))
           in (Inr (n, int (length ids) - int n), set_deps P (cancel_row now) d))"

text \<open>The counts of deployments and jobs cancelled, and of deployments left running.\<close>

definition cancelAll :: "time \<Rightarrow> uuid \<Rightarrow> ddb \<Rightarrow> (pk_error + nat \<times> nat \<times> nat) \<times> ddb" where
  "cancelAll now i d =
     (if find_package d i = None then (Inl Package_not_found, d)
      else
        let P = (\<lambda>r. dp_package r = i \<and> dp_status r = Dep_pending);
            Q = (\<lambda>j. jb_package j = i \<and> jb_active j);
            d1 = set_deps P (cancel_row now) d;
            d2 = d1\<lparr>dd_jobs := update_rows Q (\<lambda>j. j\<lparr>jb_active := False\<rparr>) (dd_jobs d1)\<rparr>
        in (Inr (length (filter P (dd_deps d)), length (filter Q (dd_jobs d)),
                 length (filter (\<lambda>r. dp_package r = i \<and> dp_status r = Dep_running) (dd_deps d2))), d2))"

definition cancelJob :: "uuid \<Rightarrow> ddb \<Rightarrow> (pk_error + unit) \<times> ddb" where
  "cancelJob i d =
     (let Q = (\<lambda>j. jb_id j = i \<and> jb_active j) in
      if list_ex Q (dd_jobs d) then (Inr (), d\<lparr>dd_jobs := update_rows Q (\<lambda>j. j\<lparr>jb_active := False\<rparr>) (dd_jobs d)\<rparr>)
      else (Inl Job_not_found, d))"

definition requeue_row :: "time \<Rightarrow> deployment \<Rightarrow> deployment" where
  "requeue_row now r =
     r\<lparr>dp_status := Dep_pending, dp_exit := None, dp_output := None, dp_queued := now, dp_started := None, dp_completed := None\<rparr>"

text \<open>
  \<open>WITH upd AS (UPDATE ...), snap AS (INSERT ...)\<close>: the rows go back to pending with a new
  snapshot; the unique index may refuse the statement.
\<close>

definition requeue :: "time \<Rightarrow> (deployment \<Rightarrow> bool) \<Rightarrow> ddb \<Rightarrow> (pk_error + nat) \<times> ddb" where
  "requeue now P d =
     (let rows = filter P (dd_deps d); d1 = set_deps P (requeue_row now) d in
      if \<not> distinct (pending_pairs (dd_deps d1)) then (Inl Unique_violation, d)
      else (Inr (length rows), SNAPSHOT_UPSERT (map (\<lambda>r. (dp_id r, dp_package r)) rows) d1))"

definition other_pending :: "ddb \<Rightarrow> deployment \<Rightarrow> bool" where
  "other_pending d r \<longleftrightarrow>
     list_ex (\<lambda>c. dp_package c = dp_package r \<and> dp_device c = dp_device r \<and> dp_status c = Dep_pending \<and> dp_id c \<noteq> dp_id r) (dd_deps d)"

definition retryBulk :: "time \<Rightarrow> uuid list \<Rightarrow> ddb \<Rightarrow> (pk_error + nat \<times> int) \<times> ddb" where
  "retryBulk now ids d =
     (if ids = [] then (Inl Ids_required, d)
      else
        let P = (\<lambda>r. dp_id r \<in> set ids \<and> dp_status r \<in> {Dep_failed, Dep_cancelled} \<and> approved d (dp_package r) \<noteq> None \<and>
                     list_ex (\<lambda>v. fd_id v = dp_device r \<and> \<not> fd_pull v) (dd_devices d) \<and> \<not> other_pending d r)
        in (case requeue now P d of
              (Inl e, d1) \<Rightarrow> (Inl e, d1)
            | (Inr n, d1) \<Rightarrow> (Inr (n, int (length ids) - int n), d1)))"

text \<open>The checks of a single retry read; the statement that follows does not test the status again.\<close>

definition retryCheck :: "ddb \<Rightarrow> uuid \<Rightarrow> pk_error option" where
  "retryCheck d i =
     (case find_dep d i of
        None \<Rightarrow> Some Deployment_not_found
      | Some r \<Rightarrow>
          if dp_status r \<noteq> Dep_failed \<and> dp_status r \<noteq> Dep_cancelled then Some Not_retryable
          else if isPullManaged d (dp_device r) then Some Pull_managed
          else if (dp_package r, dp_device r) \<in> set (pending_pairs (dd_deps d)) then Some Pending_exists
          else None)"

definition retryCommit :: "time \<Rightarrow> uuid \<Rightarrow> ddb \<Rightarrow> (pk_error + unit) \<times> ddb" where
  "retryCommit now i d =
     (case requeue now (\<lambda>r. dp_id r = i \<and> approved d (dp_package r) \<noteq> None) d of
        (Inl e, d1) \<Rightarrow> (Inl e, d1)
      | (Inr n, d1) \<Rightarrow> if n = 0 then (Inl Must_be_approved, d1) else (Inr (), d1))"

definition retryDeployment :: "time \<Rightarrow> uuid \<Rightarrow> ddb \<Rightarrow> (pk_error + unit) \<times> ddb" where
  "retryDeployment now i d = (case retryCheck d i of Some e \<Rightarrow> (Inl e, d) | None \<Rightarrow> retryCommit now i d)"

section \<open>Results\<close>

text \<open>The token of an attempt: when it was reserved.\<close>

definition claimTokenSql :: "time option \<Rightarrow> jsstring option" where
  "claimTokenSql t = map_option int_str t"

definition CLAIM_TOKEN_RE :: "json option \<Rightarrow> jsstring option" where
  "CLAIM_TOKEN_RE v = (case v of Some (JStr s) \<Rightarrow> if all_digits s \<and> length s \<le> 20 then Some s else None | _ \<Rightarrow> None)"

record dep_result =
  dr_id :: "uuid option"
  dr_exit :: "int option"
  dr_output :: "jsstring option"
  dr_token :: "json option"

definition result_for :: "uuid \<Rightarrow> dep_result \<Rightarrow> deployment \<Rightarrow> bool" where
  "result_for v r p \<longleftrightarrow>
     dr_id r = Some (dp_id p) \<and> dp_device p = v \<and> dp_status p = Dep_running \<and>
     (CLAIM_TOKEN_RE (dr_token r) = None \<or> claimTokenSql (dp_started p) = CLAIM_TOKEN_RE (dr_token r))"

definition settle_row :: "time \<Rightarrow> dep_result \<Rightarrow> deployment \<Rightarrow> deployment" where
  "settle_row now r p =
     (let code = or_else (dr_exit r) (- 1) in
      p\<lparr>dp_status := (if code = 0 then Dep_success else Dep_failed), dp_exit := Some code,
        dp_output := or_null (dr_output r), dp_completed := Some now\<rparr>)"

definition applyResult :: "time \<Rightarrow> uuid \<Rightarrow> dep_result \<Rightarrow> ddb \<Rightarrow> ddb" where
  "applyResult now v r d =
     (case find (result_for v r) (dd_deps d) of
        None \<Rightarrow> d
      | Some p \<Rightarrow>
          let d1 = set_deps (result_for v r) (settle_row now r) d
          in if or_else (dr_exit r) (- 1) = 0
             then d1\<lparr>dd_audit := dd_audit d1 @ [Package_deployed v (dp_package p) (dp_id p)]\<rparr>
             else d1)"

record det_result =
  dt_id :: "uuid option"
  dt_detected :: "bool option"

text \<open>An older agent sends the id of the deployment instead of the package's.\<close>

definition detected_package :: "ddb \<Rightarrow> uuid \<Rightarrow> uuid \<Rightarrow> uuid option" where
  "detected_package d v i =
     (case find_package d i of
        Some p \<Rightarrow> Some i
      | None \<Rightarrow> map_option dp_package (find (\<lambda>r. dp_id r = i \<and> dp_device r = v) (dd_deps d)))"

definition applyDetection :: "time \<Rightarrow> uuid \<Rightarrow> det_result \<Rightarrow> ddb \<Rightarrow> ddb" where
  "applyDetection now v r d =
     (case Option.bind (dt_id r) (detected_package d v) of
        None \<Rightarrow> d
      | Some p \<Rightarrow>
          let found = or_else (dt_detected r) False; mine = (\<lambda>s. sw_device s = v \<and> sw_package s = p) in
          d\<lparr>dd_software :=
              (if list_ex mine (dd_software d)
               then update_rows mine (\<lambda>s. s\<lparr>sw_detected := found, sw_checked := now\<rparr>) (dd_software d)
               else dd_software d @ [\<lparr>sw_device = v, sw_package = p, sw_detected = found, sw_checked = now\<rparr>])\<rparr>)"

section \<open>Fan-out of the jobs\<close>

text \<open>The groups of a machine and, level after level, the groups that contain them.\<close>

definition groups_of_device :: "gdb \<Rightarrow> uuid \<Rightarrow> uuid list" where
  "groups_of_device g v = map mb_group (filter (\<lambda>m. mb_device m = Some v) (gd_members g))"

definition parents :: "gdb \<Rightarrow> uuid list \<Rightarrow> uuid list" where
  "parents g seen = map mb_group (filter (\<lambda>m. \<exists>c \<in> set seen. mb_child m = Some c) (gd_members g))"

text \<open>\<open>WITH RECURSIVE anc ... UNION\<close>: each round adds at least one group, so one round per link is enough.\<close>

fun ancestors :: "nat \<Rightarrow> gdb \<Rightarrow> uuid list \<Rightarrow> uuid list" where
  "ancestors 0 g seen = seen"
| "ancestors (Suc n) g seen =
     (let new = filter (\<lambda>x. x \<notin> set seen) (js_uniq (parents g seen)) in
      if new = [] then seen else ancestors n g (seen @ new))"

definition device_groups :: "gdb \<Rightarrow> uuid \<Rightarrow> uuid list" where
  "device_groups g v = ancestors (length (gd_members g)) g (js_uniq (groups_of_device g v))"

definition job_matches :: "ddb \<Rightarrow> uuid \<Rightarrow> job \<Rightarrow> bool" where
  "job_matches d v j =
     (case jb_scope j of
        Sc_all \<Rightarrow> True
      | Sc_group g \<Rightarrow> (v, g) \<in> set (dd_memberships d)
      | Sc_user u \<Rightarrow> list_ex (\<lambda>x. fd_id x = v \<and> fd_user x = Some u) (dd_devices d)
      | Sc_native g \<Rightarrow> g \<in> set (device_groups (dd_native d) v))"

definition due_jobs :: "ddb \<Rightarrow> uuid \<Rightarrow> job list" where
  "due_jobs d v =
     filter (\<lambda>j. jb_active j \<and> approved d (jb_package j) \<noteq> None \<and>
                 \<not> list_ex (\<lambda>r. dp_job r = Some (jb_id j) \<and> dp_device r = v) (dd_deps d) \<and> job_matches d v j) (dd_jobs d)"

definition fan_step :: "time \<Rightarrow> uuid \<Rightarrow> job \<Rightarrow> (uuid \<times> uuid) list \<times> ddb \<Rightarrow> (uuid \<times> uuid) list \<times> ddb" where
  "fan_step now v j s =
     (case s of (ins, d) \<Rightarrow>
       (case insert_dep now (jb_package j) v (jb_by j) (Some (jb_id j)) d of
          (None, d1) \<Rightarrow> (ins, d1)
        | (Some i, d1) \<Rightarrow> (ins @ [(i, jb_package j)], d1)))"

definition fanOut :: "time \<Rightarrow> uuid \<Rightarrow> ddb \<Rightarrow> ddb" where
  "fanOut now v d = (case foldl (\<lambda>s j. fan_step now v j s) ([], d) (due_jobs d v) of (ins, d1) \<Rightarrow> snapshot_approved ins d1)"

section \<open>Selection and reservation\<close>

definition pendingScripts :: "ddb \<Rightarrow> uuid \<Rightarrow> uuid list" where
  "pendingScripts d v =
     map ex_id (take 5 (sort_key ex_queued (filter (\<lambda>e. ex_device e = v \<and> ex_status e = Ex_pending \<and> ex_agent e) (dd_execs d))))"

text \<open>The deployments selected; those without snapshot come last and are then left out.\<close>

definition pendingDeployments :: "ddb \<Rightarrow> uuid \<Rightarrow> uuid list" where
  "pendingDeployments d v =
     map dp_id (filter (\<lambda>r. jm_get (dd_snaps d) (dp_id r) \<noteq> None)
       (take 10 (sort_key (\<lambda>r. (jm_get (dd_snaps d) (dp_id r) = None, dp_queued r))
          (filter (\<lambda>r. dp_device r = v \<and> dp_status r = Dep_pending \<and> approved d (dp_package r) \<noteq> None) (dd_deps d)))))"

definition HOURS_24 :: int where "HOURS_24 = 24 * 3600 * 1000000"

definition toDetect :: "time \<Rightarrow> ddb \<Rightarrow> uuid \<Rightarrow> (uuid \<times> jsstring) list" where
  "toDetect now d v =
     map (\<lambda>p. (pk_id p, the (ct_detect (pk_content p))))
       (take 20 (filter (\<lambda>p. pk_status p = Pk_approved \<and> ct_detect (pk_content p) \<noteq> None \<and>
          \<not> list_ex (\<lambda>s. sw_device s = v \<and> sw_package s = pk_id p \<and> now - HOURS_24 < sw_checked s) (dd_software d)) (dd_packages d)))"

record delivery =
  dl_id :: uuid
  dl_package :: uuid
  dl_token :: "jsstring option"
  dl_content :: content

definition claimable_dep :: "ddb \<Rightarrow> uuid list \<Rightarrow> deployment \<Rightarrow> bool" where
  "claimable_dep d ids r \<longleftrightarrow>
     dp_id r \<in> set ids \<and> dp_status r = Dep_pending \<and> jm_get (dd_snaps d) (dp_id r) \<noteq> None \<and> approved d (dp_package r) \<noteq> None"

definition start_row :: "time \<Rightarrow> deployment \<Rightarrow> deployment" where
  "start_row now r = r\<lparr>dp_status := Dep_running, dp_started := Some now\<rparr>"

text \<open>What the reservation returns, in the order of the selection.\<close>

definition claimDeployments :: "time \<Rightarrow> uuid list \<Rightarrow> ddb \<Rightarrow> delivery list \<times> ddb" where
  "claimDeployments now ids d =
     (List.map_filter (\<lambda>i.
        case (find (\<lambda>r. dp_id r = i \<and> claimable_dep d ids r) (dd_deps d), jm_get (dd_snaps d) i) of
          (Some r, Some s) \<Rightarrow> Some \<lparr>dl_id = i, dl_package = dp_package r, dl_token = claimTokenSql (Some now), dl_content = sn_content s\<rparr>
        | _ \<Rightarrow> None) ids,
      set_deps (claimable_dep d ids) (start_row now) d)"

definition claimable_exec :: "uuid list \<Rightarrow> execution \<Rightarrow> bool" where
  "claimable_exec ids e \<longleftrightarrow> ex_id e \<in> set ids \<and> ex_status e = Ex_pending"

definition claimScripts :: "time \<Rightarrow> uuid list \<Rightarrow> ddb \<Rightarrow> (uuid \<times> jsstring option \<times> jsstring option) list \<times> ddb" where
  "claimScripts now ids d =
     (List.map_filter (\<lambda>i. map_option (\<lambda>e. (i, ex_name e, ex_code e))
        (find (\<lambda>e. ex_id e = i \<and> claimable_exec ids e) (dd_execs d))) ids,
      d\<lparr>dd_execs := update_rows (claimable_exec ids) (\<lambda>e. e\<lparr>ex_status := Ex_running, ex_started := Some now\<rparr>) (dd_execs d)\<rparr>)"

section \<open>The work of a check-in\<close>

record work_in =
  wi_device :: uuid
  wi_version :: "json option"
  wi_results :: "dep_result list"
  wi_detections :: "det_result list"
  wi_allowed :: bool
  wi_update :: bool

record work_out =
  wo_commands :: "(uuid \<times> jsstring option \<times> jsstring option) list"
  wo_deployments :: "delivery list"
  wo_detect :: "(uuid \<times> jsstring) list"

text \<open>
  \<open>between\<close> is what other requests do between the selection and the reservation. An older agent
  ignores the answer when it reports results or is offered an update: nothing is reserved then.
\<close>

definition checkinWork :: "time \<Rightarrow> (ddb \<Rightarrow> ddb) \<Rightarrow> work_in \<Rightarrow> ddb \<Rightarrow> work_out \<times> ddb" where
  "checkinWork now between w d =
     (let v = wi_device w;
          d1 = foldl (\<lambda>x r. applyResult now v r x) d (wi_results w);
          d2 = foldl (\<lambda>x r. applyDetection now v r x) d1 (wi_detections w);
          scripts = pendingScripts d2 v;
          d3 = fanOut now v d2;
          deps = (if wi_allowed w then pendingDeployments d3 v else []);
          detect = toDetect now d3 v;
          ignored = (\<not> processesEveryResponse (wi_version w) \<and> (wi_update w \<or> wi_results w \<noteq> []));
          d4 = between d3
      in if ignored then (\<lparr>wo_commands = [], wo_deployments = [], wo_detect = detect\<rparr>, d4)
         else (case claimScripts now scripts d4 of
                 (cs, d5) \<Rightarrow>
                   (case claimDeployments now deps d5 of
                      (ds, d6) \<Rightarrow> (\<lparr>wo_commands = cs, wo_deployments = ds, wo_detect = detect\<rparr>, d6))))"

section \<open>Remote scripts\<close>

definition SCRIPT_OUTPUT_MAX :: nat where "SCRIPT_OUTPUT_MAX = 10000"

definition scriptOutputForDb :: "jsstring option \<Rightarrow> jsstring" where
  "scriptOutputForDb v = take SCRIPT_OUTPUT_MAX (filter (\<lambda>c. c \<noteq> CHR 0x00) (or_else v []))"

text \<open>\<open>POST /api/scripts/:id/run\<close>; \<open>script\<close> is the name and code of the script, when it exists.\<close>

datatype run_error = Device_required | Script_not_found | Run_pull_managed | Run_unknown_device

definition runScript :: "time \<Rightarrow> (jsstring \<times> jsstring) option \<Rightarrow> uuid option \<Rightarrow> ddb \<Rightarrow> (run_error + uuid) \<times> ddb" where
  "runScript now script dev d =
     (case dev of
        None \<Rightarrow> (Inl Device_required, d)
      | Some v \<Rightarrow>
         (case script of
            None \<Rightarrow> (Inl Script_not_found, d)
          | Some (name, code) \<Rightarrow>
              if isPullManaged d v then (Inl Run_pull_managed, d)
              else if \<not> list_ex (\<lambda>x. fd_id x = v) (dd_devices d) then (Inl Run_unknown_device, d)
              else (Inr (dd_next d),
                    d\<lparr>dd_execs := dd_execs d @ [\<lparr>ex_id = dd_next d, ex_device = v, ex_agent = True, ex_name = Some name, ex_code = Some code,
                        ex_status = Ex_pending, ex_exit = None, ex_output = None, ex_queued = now, ex_started = None, ex_completed = None\<rparr>],
                      dd_next := dd_next d + 1\<rparr>)))"

datatype result_error = Token_without_device | Execution_required

definition own_execution :: "uuid \<Rightarrow> uuid \<Rightarrow> execution \<Rightarrow> bool" where
  "own_execution v i e \<longleftrightarrow> ex_id e = i \<and> ex_agent e \<and> ex_device e = v"

text \<open>\<open>POST /api/agent/result\<close>, after the authentication; \<open>dev\<close> is the machine of the token.\<close>

definition agentResult ::
    "time \<Rightarrow> uuid option \<Rightarrow> uuid option \<Rightarrow> int option \<Rightarrow> jsstring option \<Rightarrow> ddb \<Rightarrow> (result_error + unit) \<times> ddb" where
  "agentResult now dev exec code out d =
     (case dev of
        None \<Rightarrow> (Inl Token_without_device, d)
      | Some v \<Rightarrow>
         (case exec of
            None \<Rightarrow> (Inl Execution_required, d)
          | Some i \<Rightarrow>
              let ok = (code = Some 0);
                  d1 = d\<lparr>dd_execs := update_rows (own_execution v i)
                          (\<lambda>e. e\<lparr>ex_status := (if ok then Ex_done else Ex_error), ex_exit := Some (or_else code (- 1)),
                                 ex_output := Some (scriptOutputForDb out), ex_completed := Some now\<rparr>) (dd_execs d)\<rparr>
              in (Inr (),
                  case find (own_execution v i) (dd_execs d) of
                    Some e \<Rightarrow> if ok then d1\<lparr>dd_audit := dd_audit d1 @ [Script_executed v (or_null (ex_name e))]\<rparr> else d1
                  | None \<Rightarrow> d1)))"

section \<open>Deletion of a machine\<close>

text \<open>\<open>DELETE /api/devices/:id\<close>: its rows go with it (\<open>ON DELETE CASCADE\<close>). \<open>None\<close>: not found.\<close>

definition deleteMachine :: "uuid \<Rightarrow> ddb \<Rightarrow> ddb option" where
  "deleteMachine v d =
     (if \<not> list_ex (\<lambda>x. fd_id x = v) (dd_devices d) then None
      else
        let gone = map dp_id (filter (\<lambda>r. dp_device r = v) (dd_deps d)); native = dd_native d in
        Some (d\<lparr>dd_devices := filter (\<lambda>x. fd_id x \<noteq> v) (dd_devices d),
                dd_deps := filter (\<lambda>r. dp_device r \<noteq> v) (dd_deps d),
                dd_snaps := filter (\<lambda>(k, s). k \<notin> set gone) (dd_snaps d),
                dd_software := filter (\<lambda>s. sw_device s \<noteq> v) (dd_software d),
                dd_execs := filter (\<lambda>e. ex_device e \<noteq> v) (dd_execs d),
                dd_memberships := filter (\<lambda>m. fst m \<noteq> v) (dd_memberships d),
                dd_native := native\<lparr>gd_members := filter (\<lambda>m. mb_device m \<noteq> Some v) (gd_members native)\<rparr>\<rparr>))"

section \<open>Timeouts\<close>

definition DEPLOYMENT_TIMEOUT :: int where "DEPLOYMENT_TIMEOUT = 60 * 60 * 1000000"

definition SCRIPT_TIMEOUT :: int where "SCRIPT_TIMEOUT = 60 * 60 * 1000000"

definition SSH_TIMEOUT :: int where "SSH_TIMEOUT = 6 * 3600 * 1000000"

definition started_before :: "time option \<Rightarrow> time \<Rightarrow> bool" where
  "started_before t limit = (case t of None \<Rightarrow> False | Some x \<Rightarrow> x < limit)"

text \<open>\<open>note\<close> is the text of the message, which depends on the kind of the run.\<close>

definition stuck_dep :: "time \<Rightarrow> deployment \<Rightarrow> bool" where
  "stuck_dep now r \<longleftrightarrow> dp_status r = Dep_running \<and> started_before (dp_started r) (now - DEPLOYMENT_TIMEOUT)"

definition timeoutStuckDeployments :: "jsstring \<Rightarrow> time \<Rightarrow> ddb \<Rightarrow> ddb" where
  "timeoutStuckDeployments note now d =
     set_deps (stuck_dep now)
       (\<lambda>r. r\<lparr>dp_status := Dep_failed, dp_completed := Some now, dp_output := Some (or_else (dp_output r) [] @ note)\<rparr>) d"

definition stuck_exec :: "time \<Rightarrow> execution \<Rightarrow> bool" where
  "stuck_exec now e \<longleftrightarrow>
     ex_status e = Ex_running \<and> started_before (ex_started e) (now - (if ex_agent e then SCRIPT_TIMEOUT else SSH_TIMEOUT))"

definition timeoutStuckScripts :: "(bool \<Rightarrow> jsstring) \<Rightarrow> time \<Rightarrow> ddb \<Rightarrow> ddb" where
  "timeoutStuckScripts note now d =
     d\<lparr>dd_execs := update_rows (stuck_exec now)
         (\<lambda>e. e\<lparr>ex_status := Ex_error, ex_completed := Some now,
                ex_output := Some (take 9800 (or_else (ex_output e) []) @ note (ex_agent e))\<rparr>) (dd_execs d)\<rparr>"

end
