(* ===== verification/DeploySafety.thy ===== *)
theory DeploySafety imports DeployRuns GroupSafety begin

text \<open>
  What runs as SYSTEM on a machine was approved by an administrator, and leaves once per queueing:
  the requests of \<open>Deployments\<close> and \<open>DeployRuns\<close> as atomic steps that any request may
  interleave, with the history of the approvals, queueings and deliveries.
\<close>

section \<open>Steps and histories\<close>

datatype fleet_event = Approved_content uuid content | Queued uuid | Delivered uuid

definition approval_events :: "ddb \<Rightarrow> uuid \<Rightarrow> fleet_event list" where
  "approval_events d i = map (\<lambda>p. Approved_content i (pk_content p)) (filter (\<lambda>p. pk_id p = i) (dd_packages d))"

definition retryable :: "ddb \<Rightarrow> (deployment \<Rightarrow> bool) \<Rightarrow> bool" where
  "retryable d P \<longleftrightarrow> (\<forall>r \<in> set (dd_deps d). P r \<longrightarrow> approved d (dp_package r) \<noteq> None)"

text \<open>
  \<open>fs_other\<close> is every step that leaves packages, deployments and snapshots alone: jobs, users,
  machines, groups, scripts, detections.
\<close>

inductive fleet_step :: "ddb \<Rightarrow> fleet_event list \<Rightarrow> ddb \<Rightarrow> bool" where
  fs_create: "fleet_step d [] (snd (createPackage who b d))"
| fs_patch: "fleet_step d [] (patchCommit i b Pk_draft d)"
| fs_delete: "fleet_step d [] (deleteCommit i d)"
| fs_machine: "deleteMachine v d = Some d' \<Longrightarrow> fleet_step d [] d'"
| fs_approve: "fleet_step d (approval_events d i) (approveCommit now who i d)"
| fs_queue: "queueDeployment now p who j v (n, d) = (n', d') \<Longrightarrow>
    fleet_step d (if dd_deps d' = dd_deps d then [] else [Queued (dd_next d)]) d'"
| fs_settle: "(\<And>r. dp_id (f r) = dp_id r \<and> dp_package (f r) = dp_package r \<and> dp_device (f r) = dp_device r \<and> dp_status (f r) \<noteq> Dep_pending) \<Longrightarrow>
    fleet_step d [] (set_deps P f d)"
| fs_requeue: "retryable d P \<Longrightarrow> requeue now P d = (Inr n, d') \<Longrightarrow>
    fleet_step d (map (\<lambda>r. Queued (dp_id r)) (filter P (dd_deps d))) d'"
| fs_fan: "fan_step now v j (ins, d) = (ins', d') \<Longrightarrow>
    fleet_step d (if dd_deps d' = dd_deps d then [] else [Queued (dd_next d)]) d'"
| fs_snap: "(\<And>i p r. (i, p) \<in> set rows \<Longrightarrow> r \<in> set (dd_deps d) \<Longrightarrow> dp_id r = i \<Longrightarrow> dp_package r = p) \<Longrightarrow>
    (\<And>i p. (i, p) \<in> set rows \<Longrightarrow> i < dd_next d) \<Longrightarrow> fleet_step d [] (snapshot_approved rows d)"
| fs_claim: "distinct ids \<Longrightarrow> claimDeployments now ids d = (ds, d') \<Longrightarrow> fleet_step d (map (\<lambda>x. Delivered (dl_id x)) ds) d'"
| fs_other: "dd_packages d' = dd_packages d \<Longrightarrow> dd_deps d' = dd_deps d \<Longrightarrow> dd_snaps d' = dd_snaps d \<Longrightarrow> dd_next d \<le> dd_next d' \<Longrightarrow>
    fleet_step d [] d'"

inductive fleet_runs :: "ddb \<Rightarrow> fleet_event list \<Rightarrow> ddb \<Rightarrow> bool" where
  fr_start: "fleet_runs d [] d"
| fr_step: "fleet_runs d h d1 \<Longrightarrow> fleet_step d1 es d2 \<Longrightarrow> fleet_runs d (h @ es) d2"

section \<open>The invariant\<close>

definition pend :: "uuid \<Rightarrow> ddb \<Rightarrow> nat" where
  "pend i d = (if \<exists>r \<in> set (dd_deps d). dp_id r = i \<and> dp_status r = Dep_pending then 1 else 0)"

definition fresh_ids :: "ddb \<Rightarrow> bool" where
  "fresh_ids d \<longleftrightarrow> (\<forall>r \<in> set (dd_deps d). dp_id r < dd_next d) \<and> (\<forall>p \<in> set (dd_packages d). pk_id p < dd_next d) \<and>
     (\<forall>i s. jm_get (dd_snaps d) i = Some s \<longrightarrow> i < dd_next d)"

definition known_ids :: "ddb \<Rightarrow> bool" where
  "known_ids d \<longleftrightarrow> distinct (map dp_id (dd_deps d)) \<and> distinct (map pk_id (dd_packages d)) \<and> distinct (pending_pairs (dd_deps d))"

text \<open>Every approved content, and every snapshot, was approved for its package.\<close>

definition backed :: "fleet_event list \<Rightarrow> ddb \<Rightarrow> bool" where
  "backed h d \<longleftrightarrow>
     (\<forall>p \<in> set (dd_packages d). pk_status p = Pk_approved \<longrightarrow> Approved_content (pk_id p) (pk_content p) \<in> set h) \<and>
     (\<forall>r \<in> set (dd_deps d). \<forall>s. jm_get (dd_snaps d) (dp_id r) = Some s \<longrightarrow> Approved_content (dp_package r) (sn_content s) \<in> set h)"

definition counted :: "fleet_event list \<Rightarrow> ddb \<Rightarrow> bool" where
  "counted h d \<longleftrightarrow> (\<forall>i. count_list h (Delivered i) + pend i d \<le> count_list h (Queued i))"

definition fleet_ok :: "fleet_event list \<Rightarrow> ddb \<Rightarrow> bool" where
  "fleet_ok h d \<longleftrightarrow> fresh_ids d \<and> known_ids d \<and> backed h d \<and> counted h d"

lemma fleet_okI: "fresh_ids d \<Longrightarrow> known_ids d \<Longrightarrow> backed h d \<Longrightarrow> counted h d \<Longrightarrow> fleet_ok h d"
  by (simp add: fleet_ok_def)

section \<open>Fewer rows and settled rows\<close>

lemma jm_get_removed: "jm_get (filter (\<lambda>(k, s). k \<notin> S) m) i = (if i \<in> S then None else jm_get m i)"
  by (induction m) (auto simp: jm_get_def)

lemma pending_pairs_simps [simp]:
  "pending_pairs [] = []"
  "pending_pairs (r # rs) = (if dp_status r = Dep_pending then (dp_package r, dp_device r) # pending_pairs rs else pending_pairs rs)"
  "pending_pairs (rs @ ss) = pending_pairs rs @ pending_pairs ss"
  by (simp_all add: pending_pairs_def)

lemma set_pending_pairs: "set (pending_pairs rs) = {(dp_package r, dp_device r) | r. r \<in> set rs \<and> dp_status r = Dep_pending}"
  by (auto simp: pending_pairs_def)

lemma pending_pairs_filter: "distinct (pending_pairs rs) \<Longrightarrow> distinct (pending_pairs (filter Q rs))"
  by (induction rs) (auto simp: set_pending_pairs split: if_splits)

lemma pending_pairs_settled:
  assumes "\<And>r. dp_status (f r) \<noteq> Dep_pending" shows "distinct (pending_pairs rs) \<Longrightarrow> distinct (pending_pairs (update_rows P f rs))"
proof (induction rs)
  case (Cons r rs)
  have "set (pending_pairs (update_rows P f rs)) \<subseteq> set (pending_pairs rs)"
    using assms by (auto simp: set_pending_pairs update_rows_def split: if_splits)
  with Cons assms show ?case by (auto split: if_splits)
qed (simp add: update_rows_def)

lemma map_dp_id_update: "(\<And>r. dp_id (f r) = dp_id r) \<Longrightarrow> map dp_id (update_rows P f rs) = map dp_id rs"
  by (simp add: update_rows_def)

lemma pend_settle:
  assumes "\<And>r. dp_id (f r) = dp_id r \<and> dp_package (f r) = dp_package r \<and> dp_device (f r) = dp_device r \<and> dp_status (f r) \<noteq> Dep_pending"
  shows "pend i (set_deps P f d) \<le> pend i d"
proof -
  have "\<exists>z \<in> set (dd_deps d). dp_id z = dp_id y \<and> dp_status z = Dep_pending"
    if "y \<in> set (dd_deps (set_deps P f d))" "dp_status y = Dep_pending" for y
    using that assms by (auto simp: set_deps_def elim!: update_rowsE split: if_splits)
  then show ?thesis by (auto simp: pend_def)
qed

lemma settle_ok:
  assumes ok: "fleet_ok h d"
    and f: "\<And>r. dp_id (f r) = dp_id r \<and> dp_package (f r) = dp_package r \<and> dp_device (f r) = dp_device r \<and> dp_status (f r) \<noteq> Dep_pending"
  shows "fleet_ok h (set_deps P f d)"
proof (rule fleet_okI)
  have same: "\<exists>r \<in> set (dd_deps d). dp_id x = dp_id r \<and> dp_package x = dp_package r \<and> (dp_status x = Dep_pending \<longrightarrow> x = r)"
    if "x \<in> set (dd_deps (set_deps P f d))" for x
    using that f by (auto simp: set_deps_def elim!: update_rowsE)
  show "fresh_ids (set_deps P f d)"
    using ok same by (force simp: fleet_ok_def fresh_ids_def set_deps_def)
  show "known_ids (set_deps P f d)"
    using ok f pending_pairs_settled [of f] by (simp add: fleet_ok_def known_ids_def set_deps_def map_dp_id_update)
  have "backed h d" using ok by (simp add: fleet_ok_def)
  then show "backed h (set_deps P f d)"
    unfolding backed_def using same by (fastforce simp: set_deps_def)
  have "pend i (set_deps P f d) \<le> pend i d" for i using f by (rule pend_settle)
  with ok show "counted h (set_deps P f d)"
    unfolding fleet_ok_def counted_def by (meson add_left_mono le_trans)
qed

lemma delete_ok:
  assumes "fleet_ok h d" shows "fleet_ok h (deleteCommit i d)"
proof (rule fleet_okI)
  show "fresh_ids (deleteCommit i d)"
    using assms by (auto simp: fleet_ok_def fresh_ids_def deleteCommit_def Let_def jm_get_removed split: if_splits)
  show "known_ids (deleteCommit i d)"
    using assms by (auto simp: fleet_ok_def known_ids_def deleteCommit_def Let_def distinct_map_filter pending_pairs_filter)
  show "backed h (deleteCommit i d)"
    using assms by (auto simp: fleet_ok_def backed_def deleteCommit_def Let_def jm_get_removed split: if_splits)
  have "pend j (deleteCommit i d) \<le> pend j d" for j
    by (auto simp: pend_def deleteCommit_def Let_def)
  with assms show "counted h (deleteCommit i d)"
    unfolding fleet_ok_def counted_def by (meson add_left_mono le_trans)
qed

lemma machine_ok:
  assumes ok: "fleet_ok h d" and m: "deleteMachine v d = Some d'" shows "fleet_ok h d'"
proof -
  have f: "dd_deps d' = filter (\<lambda>r. dp_device r \<noteq> v) (dd_deps d)" "dd_packages d' = dd_packages d" "dd_next d' = dd_next d"
      "dd_snaps d' = filter (\<lambda>(k, s). k \<notin> set (map dp_id (filter (\<lambda>r. dp_device r = v) (dd_deps d)))) (dd_snaps d)"
    using m by (auto simp: deleteMachine_def Let_def split: if_splits)
  show ?thesis
  proof (rule fleet_okI)
    show "fresh_ids d'" using ok unfolding fresh_ids_def f jm_get_removed by (auto simp: fleet_ok_def fresh_ids_def split: if_splits)
    show "known_ids d'" using ok unfolding known_ids_def f by (auto simp: fleet_ok_def known_ids_def distinct_map_filter pending_pairs_filter)
    show "backed h d'" using ok unfolding backed_def f jm_get_removed by (auto simp: fleet_ok_def backed_def split: if_splits)
    have "pend j d' \<le> pend j d" for j by (auto simp: pend_def f)
    with ok show "counted h d'" unfolding fleet_ok_def counted_def by (meson add_left_mono le_trans)
  qed
qed

lemma other_ok:
  assumes "fleet_ok h d" "dd_packages d' = dd_packages d" "dd_deps d' = dd_deps d" "dd_snaps d' = dd_snaps d" "dd_next d \<le> dd_next d'"
  shows "fleet_ok h d'"
  using assms by (auto simp: fleet_ok_def fresh_ids_def known_ids_def backed_def counted_def pend_def intro: less_le_trans)

section \<open>Packages\<close>

lemma patch_ok:
  assumes "fleet_ok h d" shows "fleet_ok h (patchCommit i b Pk_draft d)"
proof (rule fleet_okI)
  have row: "pk_id (patched_package b Pk_draft p) = pk_id p" "pk_status (patched_package b Pk_draft p) = Pk_draft" for p
    by (simp_all add: patched_package_def)
  show "fresh_ids (patchCommit i b Pk_draft d)"
    using assms by (auto simp: fleet_ok_def fresh_ids_def patchCommit_def row elim!: update_rowsE)
  show "known_ids (patchCommit i b Pk_draft d)"
    using assms by (simp add: fleet_ok_def known_ids_def patchCommit_def update_rows_def comp_def if_distrib row cong: if_cong)
  show "backed h (patchCommit i b Pk_draft d)"
    using assms by (auto simp: fleet_ok_def backed_def patchCommit_def row elim!: update_rowsE split: if_splits)
  show "counted h (patchCommit i b Pk_draft d)"
    using assms by (simp add: fleet_ok_def counted_def pend_def patchCommit_def)
qed

lemma create_ok:
  assumes "fleet_ok h d" shows "fleet_ok h (snd (createPackage who b d))"
  using assms
  by (auto simp: createPackage_def Let_def fleet_ok_def fresh_ids_def known_ids_def backed_def counted_def pend_def intro: less_SucI)


section \<open>Snapshots and approvals\<close>

lemma approved_find:
  assumes "known_ids d" "approved d i = Some k" shows "find_package d i = Some k \<and> k \<in> set (dd_packages d) \<and> pk_id k = i \<and> pk_status k = Pk_approved"
proof -
  from assms(2) have k: "k \<in> set (dd_packages d)" "pk_id k = i" "pk_status k = Pk_approved"
    by (auto simp: approved_def find_Some_iff dest: nth_mem)
  moreover obtain k' where k': "find_package d i = Some k'" "k' \<in> set (dd_packages d)" "pk_id k' = i"
  proof (cases "find_package d i")
    case None
    with k show ?thesis by (auto simp: find_package_def find_None_iff)
  next
    case (Some k')
    then have "k' \<in> set (dd_packages d) \<and> pk_id k' = i" by (auto simp: find_package_def find_Some_iff)
    with Some that show ?thesis by blast
  qed
  moreover have "k' = k" using assms(1) k(1,2) k'(2,3) by (auto simp: known_ids_def distinct_map inj_on_def)
  ultimately show ?thesis by simp
qed

lemma SNAPSHOT_UPSERT_frame [simp]:
  "dd_packages (SNAPSHOT_UPSERT rows d) = dd_packages d" "dd_deps (SNAPSHOT_UPSERT rows d) = dd_deps d"
  "dd_next (SNAPSHOT_UPSERT rows d) = dd_next d"
  by (simp_all add: SNAPSHOT_UPSERT_def)

lemma jm_get_set [simp]: "jm_get (jm_set k v m) i = (if i = k then Some v else jm_get m i)"
  by (simp add: jm_get_def jm_set_def update_conv')

lemma upsert_get:
  "jm_get (foldl (\<lambda>m (i, p). case find_package d p of None \<Rightarrow> m | Some k \<Rightarrow> jm_set i (snapshotSelect k) m) m rows) j = Some s \<Longrightarrow>
     jm_get m j = Some s \<or> (\<exists>p k. (j, p) \<in> set rows \<and> find_package d p = Some k \<and> s = snapshotSelect k)"
proof (induction rows arbitrary: m)
  case (Cons x rows)
  obtain i p where x: "x = (i, p)" by fastforce
  from Cons.IH [OF Cons.prems [unfolded foldl.simps]] x show ?case
    by (auto split: option.splits if_splits)
qed simp

lemma upsert_ok:
  assumes ok: "fleet_ok h d"
    and own: "\<And>i p r. (i, p) \<in> set rows \<Longrightarrow> r \<in> set (dd_deps d) \<Longrightarrow> dp_id r = i \<Longrightarrow> dp_package r = p"
    and fresh: "\<And>i p. (i, p) \<in> set rows \<Longrightarrow> i < dd_next d"
    and app: "\<And>i p. (i, p) \<in> set rows \<Longrightarrow> approved d p \<noteq> None"
  shows "fleet_ok h (SNAPSHOT_UPSERT rows d)"
proof (rule fleet_okI)
  have old: "jm_get (dd_snaps d) i = Some s \<or> (\<exists>p k. (i, p) \<in> set rows \<and> find_package d p = Some k \<and> s = snapshotSelect k)"
    if "jm_get (dd_snaps (SNAPSHOT_UPSERT rows d)) i = Some s" for i s
    using that upsert_get by (force simp: SNAPSHOT_UPSERT_def)
  show "fresh_ids (SNAPSHOT_UPSERT rows d)"
    using ok old fresh unfolding fleet_ok_def fresh_ids_def by (simp, metis)
  show "known_ids (SNAPSHOT_UPSERT rows d)"
    using ok by (simp add: fleet_ok_def known_ids_def)
  show "counted h (SNAPSHOT_UPSERT rows d)"
    using ok by (simp add: fleet_ok_def counted_def pend_def)
  have "Approved_content (dp_package r) (sn_content s) \<in> set h"
    if r: "r \<in> set (dd_deps d)" and s: "jm_get (dd_snaps (SNAPSHOT_UPSERT rows d)) (dp_id r) = Some s" for r s
  proof -
    from old [OF s] show ?thesis
    proof
      assume "jm_get (dd_snaps d) (dp_id r) = Some s"
      with ok r show ?thesis by (auto simp: fleet_ok_def backed_def)
    next
      assume "\<exists>p k. (dp_id r, p) \<in> set rows \<and> find_package d p = Some k \<and> s = snapshotSelect k"
      then obtain p k where k: "(dp_id r, p) \<in> set rows" "find_package d p = Some k" "s = snapshotSelect k" by blast
      with app obtain k' where "approved d p = Some k'" by blast
      with approved_find [of d p k'] ok k(2) have "k \<in> set (dd_packages d)" "pk_id k = p" "pk_status k = Pk_approved"
        by (auto simp: fleet_ok_def)
      with ok own [OF k(1) r HOL.refl] k(3) show ?thesis by (auto simp: fleet_ok_def backed_def snapshotSelect_def)
    qed
  qed
  with ok show "backed h (SNAPSHOT_UPSERT rows d)" by (simp add: fleet_ok_def backed_def)
qed

lemma snapshot_approved_ok:
  assumes "fleet_ok h d" "\<And>i p r. (i, p) \<in> set rows \<Longrightarrow> r \<in> set (dd_deps d) \<Longrightarrow> dp_id r = i \<Longrightarrow> dp_package r = p"
    "\<And>i p. (i, p) \<in> set rows \<Longrightarrow> i < dd_next d"
  shows "fleet_ok h (snapshot_approved rows d)"
  unfolding snapshot_approved_def by (rule upsert_ok [OF assms(1)]) (use assms(2,3) in auto)

lemma snapshot_approved_frame [simp]:
  "dd_packages (snapshot_approved rows d) = dd_packages d" "dd_deps (snapshot_approved rows d) = dd_deps d"
  "dd_next (snapshot_approved rows d) = dd_next d"
  by (simp_all add: snapshot_approved_def)

lemma same_row: "known_ids d \<Longrightarrow> r \<in> set (dd_deps d) \<Longrightarrow> s \<in> set (dd_deps d) \<Longrightarrow> dp_id r = dp_id s \<Longrightarrow> r = s"
  by (auto simp: known_ids_def distinct_map inj_on_def)

lemma count_approvals [simp]:
  "count_list (approval_events d i) (Delivered j) = 0" "count_list (approval_events d i) (Queued j) = 0"
  by (auto simp: approval_events_def count_list_0_iff)

lemma approve_ok:
  assumes "fleet_ok h d" shows "fleet_ok (h @ approval_events d i) (approveCommit now who i d)"
proof -
  let ?d = "d\<lparr>dd_packages := update_rows (\<lambda>p. pk_id p = i) (approve_row now who) (dd_packages d)\<rparr>"
  have row: "pk_id (approve_row now who p) = pk_id p" "pk_content (approve_row now who p) = pk_content p" for p
    by (simp_all add: approve_row_def)
  have "fleet_ok (h @ approval_events d i) ?d"
  proof (rule fleet_okI)
    show "fresh_ids ?d" using assms by (auto simp: fleet_ok_def fresh_ids_def row elim!: update_rowsE)
    show "known_ids ?d"
      using assms by (simp add: fleet_ok_def known_ids_def update_rows_def comp_def if_distrib row cong: if_cong)
    show "counted (h @ approval_events d i) ?d"
      using assms by (simp add: fleet_ok_def counted_def pend_def)
    show "backed (h @ approval_events d i) ?d"
      using assms by (auto simp: fleet_ok_def backed_def row approval_events_def elim!: update_rowsE split: if_splits)
  qed
  moreover from this have "fresh_ids ?d" by (simp add: fleet_ok_def)
  moreover have k: "known_ids d" using assms by (simp add: fleet_ok_def)
  ultimately show ?thesis
    unfolding approveCommit_def Let_def
    by (intro snapshot_approved_ok) (auto dest: same_row [OF k] simp: fresh_ids_def)
qed

section \<open>Queueing\<close>

lemma insert_ok:
  assumes ok: "fleet_ok h d" and new: "insert_dep now p v who j d = (Some i, d')"
  shows "fleet_ok (h @ [Queued i]) d' \<and> i = dd_next d \<and> dd_deps d' = dd_deps d @ [new_dep now i p v who j] \<and>
    dd_packages d' = dd_packages d \<and> dd_next d' = dd_next d + 1"
proof -
  from new have d': "i = dd_next d" "(p, v) \<notin> set (pending_pairs (dd_deps d))"
    "d' = d\<lparr>dd_deps := dd_deps d @ [new_dep now (dd_next d) p v who j], dd_next := dd_next d + 1\<rparr>"
    by (auto simp: insert_dep_def split: if_splits)
  from ok have fr: "\<forall>r \<in> set (dd_deps d). dp_id r < dd_next d" and none: "jm_get (dd_snaps d) (dd_next d) = None"
    by (auto simp: fleet_ok_def fresh_ids_def)
  have "fleet_ok (h @ [Queued i]) d'"
  proof (rule fleet_okI)
    show "fresh_ids d'" using ok by (auto simp: d' fleet_ok_def fresh_ids_def new_dep_def intro: less_SucI)
    show "known_ids d'" using ok fr d'(2) by (auto simp: d'(3) fleet_ok_def known_ids_def new_dep_def)
    show "backed (h @ [Queued i]) d'" using ok none by (auto simp: d' fleet_ok_def backed_def new_dep_def)
    have c: "\<forall>x. count_list h (Delivered x) + pend x d' \<le> count_list h (Queued x) + (if i = x then 1 else 0)"
    proof
      fix x
      have "count_list h (Delivered x) + pend x d \<le> count_list h (Queued x)" using ok by (simp add: fleet_ok_def counted_def)
      moreover have "pend x d' \<le> (if i = x then 1 else pend x d)"
        by (auto simp: pend_def d' new_dep_def)
      ultimately show "count_list h (Delivered x) + pend x d' \<le> count_list h (Queued x) + (if i = x then 1 else 0)"
        by (auto split: if_splits)
    qed
    show "counted (h @ [Queued i]) d'"
      unfolding counted_def
    proof
      fix x show "count_list (h @ [Queued i]) (Delivered x) + pend x d' \<le> count_list (h @ [Queued i]) (Queued x)"
        using spec [OF c, of x] by (cases "i = x") simp_all
    qed
  qed
  with d' show ?thesis by simp
qed

lemma queue_ok:
  assumes ok: "fleet_ok h d" and q: "queueDeployment now p who j v (n, d) = (n', d')"
  shows "fleet_ok (h @ (if dd_deps d' = dd_deps d then [] else [Queued (dd_next d)])) d'"
proof (cases "list_ex (\<lambda>x. fd_id x = v) (dd_devices d) \<and> find_package d p \<noteq> None")
  case False
  with q ok show ?thesis by (auto simp: queueDeployment_def)
next
  case True
  obtain o1 d1 where i: "insert_dep now p v who j d = (o1, d1)" by fastforce
  show ?thesis
  proof (cases o1)
    case None
    with i True q ok show ?thesis by (auto simp: queueDeployment_def insert_dep_def split: if_splits)
  next
    case (Some i0)
    with i have new: "insert_dep now p v who j d = (Some i0, d1)" by simp
    from insert_ok [OF ok new] have f: "fleet_ok (h @ [Queued i0]) d1" "i0 = dd_next d"
      "dd_deps d1 = dd_deps d @ [new_dep now i0 p v who j]" "dd_next d1 = dd_next d + 1" by auto
    have d': "d' = snapshot_approved [(i0, p)] d1" using q True new by (auto simp: queueDeployment_def)
    have "r \<in> set (dd_deps d) \<Longrightarrow> dp_id r \<noteq> dd_next d" for r using ok by (auto simp: fleet_ok_def fresh_ids_def)
    then have "fleet_ok (h @ [Queued i0]) d'"
      unfolding d' by (intro snapshot_approved_ok [OF f(1)]) (auto simp: f new_dep_def)
    with f d' show ?thesis by simp
  qed
qed

lemma fan_ok:
  assumes ok: "fleet_ok h d" and q: "fan_step now v j (ins, d) = (ins', d')"
  shows "fleet_ok (h @ (if dd_deps d' = dd_deps d then [] else [Queued (dd_next d)])) d'"
proof -
  obtain o1 d1 where i: "insert_dep now (jb_package j) v (jb_by j) (Some (jb_id j)) d = (o1, d1)" by fastforce
  show ?thesis
  proof (cases o1)
    case None
    with i q ok show ?thesis by (auto simp: fan_step_def insert_dep_def split: if_splits)
  next
    case (Some i0)
    with i q have "d' = d1" by (simp add: fan_step_def)
    moreover from insert_ok [OF ok i [unfolded Some]] have "fleet_ok (h @ [Queued i0]) d1" "i0 = dd_next d" "dd_deps d1 \<noteq> dd_deps d" by auto
    ultimately show ?thesis by simp
  qed
qed


text \<open>A row that goes back to pending, with a new snapshot.\<close>

lemma count_queued:
  assumes "distinct (map dp_id rs)"
  shows "count_list (map (\<lambda>r. Queued (dp_id r)) (filter P rs)) (Queued i) = (if \<exists>r \<in> set rs. P r \<and> dp_id r = i then 1 else 0)"
  using assms by (induction rs) (auto simp: count_list_0_iff image_iff)

lemma requeue_ok:
  assumes ok: "fleet_ok h d" and app: "retryable d P" and q: "requeue now P d = (Inr n, d')"
  shows "fleet_ok (h @ map (\<lambda>r. Queued (dp_id r)) (filter P (dd_deps d))) d'"
proof -
  let ?h = "h @ map (\<lambda>r. Queued (dp_id r)) (filter P (dd_deps d))" and ?d = "set_deps P (requeue_row now) d"
  let ?rows = "map (\<lambda>r. (dp_id r, dp_package r)) (filter P (dd_deps d))"
  have row: "dp_id (requeue_row now r) = dp_id r" "dp_package (requeue_row now r) = dp_package r" for r
    by (simp_all add: requeue_row_def)
  from q have dist: "distinct (pending_pairs (dd_deps ?d))" and d': "d' = SNAPSHOT_UPSERT ?rows ?d"
    by (auto simp: requeue_def Let_def split: if_splits)
  have k: "known_ids d" using ok by (simp add: fleet_ok_def)
  have "fleet_ok ?h ?d"
  proof (rule fleet_okI)
    show "fresh_ids ?d" using ok by (auto simp: fleet_ok_def fresh_ids_def set_deps_def row elim!: update_rowsE split: if_splits)
    show "known_ids ?d" using ok dist by (simp add: fleet_ok_def known_ids_def set_deps_def map_dp_id_update row)
    show "backed ?h ?d" using ok by (auto simp: fleet_ok_def backed_def set_deps_def row elim!: update_rowsE split: if_splits)
    show "counted ?h ?d"
      unfolding counted_def
    proof
      fix i
      have "pend i ?d \<le> (if \<exists>r \<in> set (dd_deps d). P r \<and> dp_id r = i then 1 else pend i d)"
        by (auto simp: pend_def set_deps_def row elim!: update_rowsE split: if_splits)
      moreover have "count_list h (Delivered i) + pend i d \<le> count_list h (Queued i)" using ok by (simp add: fleet_ok_def counted_def)
      moreover have "count_list (map (\<lambda>r. Queued (dp_id r)) (filter P (dd_deps d))) (Queued i) =
          (if \<exists>r \<in> set (dd_deps d). P r \<and> dp_id r = i then 1 else 0)"
        using k by (intro count_queued) (simp add: known_ids_def)
      moreover have "count_list (map (\<lambda>r. Queued (dp_id r)) (filter P (dd_deps d))) (Delivered i) = 0"
        by (auto simp: count_list_0_iff)
      ultimately show "count_list ?h (Delivered i) + pend i ?d \<le> count_list ?h (Queued i)"
        by (cases "\<exists>r \<in> set (dd_deps d). P r \<and> dp_id r = i") simp_all
    qed
  qed
  moreover have "approved ?d p = approved d p" "dd_next ?d = dd_next d" for p by (simp_all add: approved_def set_deps_def)
  moreover have "dp_package r = dp_package x" if "r \<in> set (dd_deps ?d)" "x \<in> set (dd_deps d)" "dp_id r = dp_id x" for r x
  proof -
    from that(1) obtain z where "z \<in> set (dd_deps d)" "r = (if P z then requeue_row now z else z)"
      by (auto simp: set_deps_def elim: update_rowsE)
    then have z: "z \<in> set (dd_deps d)" "dp_id r = dp_id z" "dp_package r = dp_package z" by (simp_all add: row)
    with same_row [OF k z(1) that(2)] that(3) show ?thesis by simp
  qed
  ultimately show ?thesis
    unfolding d' using ok app by (intro upsert_ok) (auto simp: fleet_ok_def fresh_ids_def retryable_def)
qed

section \<open>Delivery\<close>

definition reserved :: "time \<Rightarrow> uuid list \<Rightarrow> ddb \<Rightarrow> uuid \<Rightarrow> delivery option" where
  "reserved now ids d i =
     (case (find (\<lambda>r. dp_id r = i \<and> claimable_dep d ids r) (dd_deps d), jm_get (dd_snaps d) i) of
        (Some r, Some s) \<Rightarrow> Some \<lparr>dl_id = i, dl_package = dp_package r, dl_token = claimTokenSql (Some now), dl_content = sn_content s\<rparr>
      | _ \<Rightarrow> None)"

lemma claim_reserved:
  "claimDeployments now ids d = (List.map_filter (reserved now ids d) ids, set_deps (claimable_dep d ids) (start_row now) d)"
  by (simp add: claimDeployments_def reserved_def [abs_def])

lemma reserved_Some:
  assumes "reserved now ids d i = Some x"
  obtains r s where "r \<in> set (dd_deps d)" "dp_id r = i" "claimable_dep d ids r" "jm_get (dd_snaps d) i = Some s"
    "x = \<lparr>dl_id = i, dl_package = dp_package r, dl_token = claimTokenSql (Some now), dl_content = sn_content s\<rparr>"
proof -
  from assms obtain r s where f: "find (\<lambda>r. dp_id r = i \<and> claimable_dep d ids r) (dd_deps d) = Some r"
    and "jm_get (dd_snaps d) i = Some s"
      "x = \<lparr>dl_id = i, dl_package = dp_package r, dl_token = claimTokenSql (Some now), dl_content = sn_content s\<rparr>"
    by (auto simp: reserved_def split: option.splits)
  moreover from f have "r \<in> set (dd_deps d)" "dp_id r = i" "claimable_dep d ids r" by (auto simp: find_Some_iff)
  ultimately show thesis by (intro that)
qed

lemma map_filter_ids:
  "(\<And>i x. g i = Some x \<Longrightarrow> f x = i) \<Longrightarrow> map f (List.map_filter g is) = filter (\<lambda>i. g i \<noteq> None) is"
  by (induction "is") (auto simp: List.map_filter_simps split: option.splits)

lemma claim_ids_distinct:
  assumes "distinct ids" shows "distinct (map dl_id (List.map_filter (reserved now ids d) ids))"
  by (subst map_filter_ids) (use assms in \<open>auto elim: reserved_Some\<close>)

lemma in_map_filter: "x \<in> set (List.map_filter g is) \<longleftrightarrow> (\<exists>i \<in> set is. g i = Some x)"
  by (force simp: List.map_filter_def)

lemma count_distinct: "distinct xs \<Longrightarrow> count_list xs x \<le> 1"
  by (induction xs) (auto simp: count_list_0_iff)

lemma claim_ok:
  assumes ok: "fleet_ok h d" and ids: "distinct ids" and c: "claimDeployments now ids d = (ds, d')"
  shows "fleet_ok (h @ map (\<lambda>x. Delivered (dl_id x)) ds) d'"
proof -
  have d': "d' = set_deps (claimable_dep d ids) (start_row now) d" and ds: "ds = List.map_filter (reserved now ids d) ids"
    using c by (simp_all add: claim_reserved)
  have k: "known_ids d" using ok by (simp add: fleet_ok_def)
  have same: "fleet_ok h d'" unfolding d' by (rule settle_ok [OF ok]) (simp add: start_row_def)
  have one: "count_list (map (\<lambda>x. Delivered (dl_id x)) ds) (Delivered i) + pend i d' \<le> pend i d" for i
  proof (cases "i \<in> set (map dl_id ds)")
    case True
    then obtain i0 x where "reserved now ids d i0 = Some x" "i = dl_id x" by (auto simp: ds in_map_filter)
    then obtain r where r: "r \<in> set (dd_deps d)" "dp_id r = i" "claimable_dep d ids r" by (auto elim: reserved_Some)
    then have "pend i d = 1" by (auto simp: pend_def claimable_dep_def)
    moreover have "\<not> (dp_id y = i \<and> dp_status y = Dep_pending)" if "y \<in> set (dd_deps d')" for y
    proof -
      from that obtain z where z: "z \<in> set (dd_deps d)" "y = (if claimable_dep d ids z then start_row now z else z)"
        by (auto simp: d' set_deps_def elim: update_rowsE)
      show ?thesis
      proof (cases "dp_id z = i")
        case True
        with r(2) have "r = z" by (intro same_row [OF k r(1) z(1)]) simp
        with r(3) z(2) show ?thesis by (simp add: start_row_def)
      qed (simp add: z(2) start_row_def)
    qed
    then have "pend i d' = 0" by (auto simp: pend_def)
    moreover have "count_list (map (\<lambda>x. Delivered (dl_id x)) ds) (Delivered i) \<le> 1"
    proof -
      have "distinct (map (\<lambda>x. Delivered (dl_id x)) ds)"
        using claim_ids_distinct [OF ids, of now d] by (simp add: ds distinct_map inj_on_def)
      then show ?thesis by (rule count_distinct)
    qed
    ultimately show ?thesis by simp
  next
    case False
    then have "count_list (map (\<lambda>x. Delivered (dl_id x)) ds) (Delivered i) = 0" by (auto simp: count_list_0_iff)
    moreover have "pend i d' \<le> pend i d" unfolding d' by (rule pend_settle) (simp add: start_row_def)
    ultimately show ?thesis by simp
  qed
  show ?thesis
  proof (rule fleet_okI)
    show "counted (h @ map (\<lambda>x. Delivered (dl_id x)) ds) d'"
      unfolding counted_def
    proof
      fix i
      have "count_list h (Delivered i) + pend i d \<le> count_list h (Queued i)" using ok by (simp add: fleet_ok_def counted_def)
      with one [of i] show "count_list (h @ map (\<lambda>x. Delivered (dl_id x)) ds) (Delivered i) + pend i d' \<le>
          count_list (h @ map (\<lambda>x. Delivered (dl_id x)) ds) (Queued i)" by simp
    qed
    show "backed (h @ map (\<lambda>x. Delivered (dl_id x)) ds) d'" using same by (auto simp: fleet_ok_def backed_def)
  qed (use same in \<open>simp_all add: fleet_ok_def\<close>)
qed


section \<open>Every step, every run\<close>

lemma fleet_step_ok: "fleet_step d es d' \<Longrightarrow> fleet_ok h d \<Longrightarrow> fleet_ok (h @ es) d'"
proof (induction arbitrary: h rule: fleet_step.induct)
  case (fs_create d who b)
  then show ?case by (simp add: create_ok)
next
  case (fs_patch d i b)
  then show ?case by (simp add: patch_ok)
next
  case (fs_delete d i)
  then show ?case by (simp add: delete_ok)
next
  case (fs_machine v d d')
  from machine_ok [OF fs_machine(2,1)] show ?case by simp
next
  case (fs_approve d i now who)
  then show ?case by (rule approve_ok)
next
  case (fs_queue now p who j v n d n' d')
  from queue_ok [OF fs_queue(2,1)] show ?case .
next
  case (fs_settle f d P)
  from settle_ok [OF fs_settle(2,1)] show ?case by simp
next
  case (fs_requeue d P now n d')
  from requeue_ok [OF fs_requeue(3,1,2)] show ?case .
next
  case (fs_fan now v j ins d ins' d')
  from fan_ok [OF fs_fan(2,1)] show ?case .
next
  case (fs_snap rows d)
  from snapshot_approved_ok [OF fs_snap(3), of rows] fs_snap(1,2) show ?case by simp
next
  case (fs_claim ids now d ds d')
  from claim_ok [OF fs_claim(3,1,2)] show ?case .
next
  case (fs_other d' d)
  from other_ok [OF fs_other(5,1-4)] show ?case by simp
qed

lemma fleet_runs_ok: "fleet_runs d h d' \<Longrightarrow> fleet_ok [] d \<Longrightarrow> fleet_ok h d'"
  by (induction rule: fleet_runs.induct) (auto intro: fleet_step_ok)

lemma fleet_runs_trans: "fleet_runs d1 es d2 \<Longrightarrow> fleet_runs d h d1 \<Longrightarrow> fleet_runs d (h @ es) d2"
proof (induction arbitrary: h rule: fleet_runs.induct)
  case (fr_step d es d1 fs d2)
  from fleet_runs.fr_step [OF fr_step.IH [OF fr_step.prems] fr_step.hyps(2)] show ?case by simp
qed simp

lemma step_runs: "fleet_step d es d' \<Longrightarrow> fleet_runs d es d'"
  using fr_step [OF fr_start] by fastforce

definition moves :: "ddb \<Rightarrow> ddb \<Rightarrow> bool" where
  "moves d d' \<longleftrightarrow> (\<exists>es. fleet_runs d es d')"

lemma moves_refl [simp]: "moves d d"
  using fr_start by (auto simp: moves_def)

lemma moves_trans: "moves d d1 \<Longrightarrow> moves d1 d2 \<Longrightarrow> moves d d2"
  unfolding moves_def by (blast dest: fleet_runs_trans)

lemma moves_step: "fleet_step d es d' \<Longrightarrow> moves d d'"
  using step_runs by (auto simp: moves_def)

lemma moves_foldl: "(\<And>x d. moves d (f d x)) \<Longrightarrow> moves d (foldl f d xs)"
  by (induction xs arbitrary: d) (auto intro: moves_trans)

section \<open>The handlers are runs\<close>

lemma moves_other:
  "dd_packages d' = dd_packages d \<Longrightarrow> dd_deps d' = dd_deps d \<Longrightarrow> dd_snaps d' = dd_snaps d \<Longrightarrow> dd_next d \<le> dd_next d' \<Longrightarrow> moves d d'"
  by (rule moves_step [OF fs_other])

lemma moves_settle:
  assumes "\<And>r. dp_id (f r) = dp_id r \<and> dp_package (f r) = dp_package r \<and> dp_device (f r) = dp_device r \<and> dp_status (f r) \<noteq> Dep_pending"
  shows "moves d (set_deps P f d)"
  by (rule moves_step [OF fs_settle [OF assms]])

lemma moves_patch: "moves d (snd (patchPackage i b d))"
proof -
  have "s \<noteq> Pk_approved \<longleftrightarrow> s = Pk_draft" for s by (cases s) auto
  then show ?thesis by (auto simp: patchPackage_def intro: moves_step [OF fs_patch] split: option.split)
qed

lemma moves_delete: "moves d (snd (deletePackage i d))"
  by (auto simp: deletePackage_def intro: moves_step [OF fs_delete])

lemma moves_approve: "moves d (snd (approvePackage now who i d))"
  by (auto simp: approvePackage_def intro: moves_step [OF fs_approve] split: option.split)

lemma cancel_row_settles: "dp_id (cancel_row now r) = dp_id r \<and> dp_package (cancel_row now r) = dp_package r \<and> dp_device (cancel_row now r) = dp_device r \<and> dp_status (cancel_row now r) \<noteq> Dep_pending"
  by (simp add: cancel_row_def)

lemma moves_cancel: "moves d (snd (cancelDeployment now i d))" "moves d (snd (cancelBulk now ids d))"
  by (auto simp: cancelDeployment_def cancelBulk_def Let_def intro: moves_settle [OF cancel_row_settles])

lemma moves_cancelAll: "moves d (snd (cancelAll now i d))"
proof (cases "find_package d i = None")
  case False
  then show ?thesis
    by (auto simp: cancelAll_def Let_def intro: moves_trans [OF moves_settle [OF cancel_row_settles] moves_other])
qed (simp add: cancelAll_def)

lemma moves_requeue:
  "retryable d P \<Longrightarrow> moves d (snd (requeue now P d))"
proof (cases "requeue now P d")
  case (Pair r d')
  then show "retryable d P \<Longrightarrow> ?thesis"
  proof (cases r)
    case (Inl e)
    with Pair show ?thesis by (auto simp: requeue_def Let_def split: if_splits)
  next
    case (Inr n)
    assume "retryable d P"
    from moves_step [OF fs_requeue [OF this Pair [unfolded Inr]]] Pair show ?thesis by simp
  qed
qed

lemma moves_retry: "moves d (snd (retryCommit now i d))" "moves d (snd (retryBulk now ids d))"
proof -
  let ?P = "\<lambda>r. dp_id r = i \<and> approved d (dp_package r) \<noteq> None"
  have "retryable d ?P" by (simp add: retryable_def)
  from moves_requeue [OF this, of now] show "moves d (snd (retryCommit now i d))"
    unfolding retryCommit_def by (cases "requeue now ?P d"; cases "fst (requeue now ?P d)") auto
next
  let ?P = "\<lambda>r. dp_id r \<in> set ids \<and> dp_status r \<in> {Dep_failed, Dep_cancelled} \<and> approved d (dp_package r) \<noteq> None \<and>
     list_ex (\<lambda>v. fd_id v = dp_device r \<and> \<not> fd_pull v) (dd_devices d) \<and> \<not> other_pending d r"
  have "retryable d ?P" by (simp add: retryable_def)
  from moves_requeue [OF this, of now] show "moves d (snd (retryBulk now ids d))"
    unfolding retryBulk_def Let_def by (cases "requeue now ?P d"; cases "fst (requeue now ?P d)") auto
qed


lemma moves_result: "moves d (applyResult now v r d)"
proof -
  have s: "dp_id (settle_row now r p) = dp_id p \<and> dp_package (settle_row now r p) = dp_package p \<and> dp_device (settle_row now r p) = dp_device p \<and> dp_status (settle_row now r p) \<noteq> Dep_pending" for p
    by (simp add: settle_row_def Let_def)
  show ?thesis
    by (auto simp: applyResult_def Let_def intro: moves_settle [OF s] moves_trans [OF moves_settle [OF s] moves_other] split: option.split)
qed

lemma moves_detection: "moves d (applyDetection now v r d)"
  by (rule moves_other) (simp_all add: applyDetection_def Let_def split: option.split)

lemma moves_timeouts: "moves d (timeoutStuckDeployments note now d)" "moves d (timeoutStuckScripts note2 now d)"
  unfolding timeoutStuckDeployments_def by (rule moves_settle, simp) (rule moves_other; simp add: timeoutStuckScripts_def)

lemma moves_agentResult: "moves d (snd (agentResult now dev e code out d))"
  by (rule moves_other) (simp_all add: agentResult_def Let_def split: option.split)

lemma moves_runScript: "moves d (snd (runScript now script dev d))"
  by (rule moves_other) (simp_all add: runScript_def split: option.split prod.split)

text \<open>The fan-out: the rows it inserts are its own, so their snapshots may follow.\<close>

definition fan_inv :: "ddb \<Rightarrow> (uuid \<times> uuid) list \<times> ddb \<Rightarrow> bool" where
  "fan_inv d s \<longleftrightarrow> moves d (snd s) \<and> (\<forall>r \<in> set (dd_deps (snd s)). dp_id r < dd_next (snd s)) \<and>
     (\<forall>(i, p) \<in> set (fst s). i < dd_next (snd s) \<and> (\<forall>r \<in> set (dd_deps (snd s)). dp_id r = i \<longrightarrow> dp_package r = p))"

lemma fan_inv_step: "fan_inv d s \<Longrightarrow> fan_inv d (fan_step now v j s)"
proof -
  assume inv: "fan_inv d s"
  obtain ins d1 where s: "s = (ins, d1)" by fastforce
  obtain ins' d2 where f: "fan_step now v j (ins, d1) = (ins', d2)" by fastforce
  from inv s have "moves d d2" using moves_trans [OF _ moves_step [OF fs_fan [OF f]]] by (simp add: fan_inv_def)
  moreover from inv s f have "(\<forall>r \<in> set (dd_deps d2). dp_id r < dd_next d2) \<and>
     (\<forall>(i, p) \<in> set ins'. i < dd_next d2 \<and> (\<forall>r \<in> set (dd_deps d2). dp_id r = i \<longrightarrow> dp_package r = p))"
    by (fastforce simp: fan_inv_def fan_step_def insert_dep_def new_dep_def split: if_splits intro: less_SucI)
  ultimately show ?thesis by (simp add: s f fan_inv_def)
qed

lemma fan_inv_fold: "fan_inv d s \<Longrightarrow> fan_inv d (foldl (\<lambda>s j. fan_step now v j s) s js)"
  by (induction js arbitrary: s) (simp_all add: fan_inv_step)

lemma moves_fanOut:
  assumes "fleet_ok h d" shows "moves d (fanOut now v d)"
proof -
  obtain ins d1 where f: "foldl (\<lambda>s j. fan_step now v j s) ([], d) (due_jobs d v) = (ins, d1)" by fastforce
  have "fan_inv d ([], d)" using assms by (simp add: fan_inv_def fleet_ok_def fresh_ids_def)
  from fan_inv_fold [OF this, of now v "due_jobs d v"] have inv: "fan_inv d (ins, d1)" unfolding f .
  then have "moves d1 (snapshot_approved ins d1)" by (intro moves_step [OF fs_snap]) (auto simp: fan_inv_def)
  with inv f show ?thesis by (auto simp: fanOut_def fan_inv_def intro: moves_trans)
qed

lemma moves_ok: "moves d d' \<Longrightarrow> fleet_ok h d \<Longrightarrow> \<exists>h'. fleet_ok h' d'"
proof -
  have *: "fleet_runs d es d' \<Longrightarrow> fleet_ok h d \<Longrightarrow> fleet_ok (h @ es) d'" for es
  proof (induction rule: fleet_runs.induct)
    case (fr_step d es d1 fs d2)
    with fleet_step_ok [OF fr_step.hyps(2) fr_step.IH] show ?case by simp
  qed simp
  assume "moves d d'" "fleet_ok h d"
  with * show ?thesis by (auto simp: moves_def)
qed

text \<open>A deployment keeps its machine: a row with an id drawn before is a row of before, on the same machine.\<close>

definition devices_kept :: "ddb \<Rightarrow> ddb \<Rightarrow> bool" where
  "devices_kept d d' \<longleftrightarrow> dd_next d \<le> dd_next d' \<and>
     (\<forall>r \<in> set (dd_deps d'). dp_id r < dd_next d \<longrightarrow> (\<exists>s \<in> set (dd_deps d). dp_id s = dp_id r \<and> dp_device s = dp_device r))"

lemma devices_kept_refl: "devices_kept d d"
  by (auto simp: devices_kept_def)

lemma devices_kept_trans: "devices_kept d d1 \<Longrightarrow> devices_kept d1 d2 \<Longrightarrow> devices_kept d d2"
  unfolding devices_kept_def by (metis less_le_trans le_trans)

lemma devices_kept_rows:
  assumes "dd_next d \<le> dd_next d'" "\<And>r. r \<in> set (dd_deps d') \<Longrightarrow> dp_id r = dd_next d \<or> (\<exists>s \<in> set (dd_deps d). dp_id s = dp_id r \<and> dp_device s = dp_device r)"
  shows "devices_kept d d'"
  using assms unfolding devices_kept_def by fastforce

lemma devices_kept_same: "set (dd_deps d') \<subseteq> set (dd_deps d) \<Longrightarrow> dd_next d \<le> dd_next d' \<Longrightarrow> devices_kept d d'"
  by (rule devices_kept_rows) auto

lemma devices_kept_update:
  assumes "\<And>r. dp_id (f r) = dp_id r \<and> dp_device (f r) = dp_device r" shows "devices_kept d (set_deps P f d)"
proof (rule devices_kept_rows)
  fix r assume "r \<in> set (dd_deps (set_deps P f d))"
  then obtain q where "q \<in> set (dd_deps d)" "r = (if P q then f q else q)" by (auto simp: set_deps_def elim!: update_rowsE)
  with assms [of q] show "dp_id r = dd_next d \<or> (\<exists>s \<in> set (dd_deps d). dp_id s = dp_id r \<and> dp_device s = dp_device r)"
    by (intro disjI2 bexI [of _ q]) auto
qed (simp add: set_deps_def)

lemma devices_kept_insert:
  "dd_next d \<le> dd_next d' \<Longrightarrow> dd_deps d' = dd_deps d \<or> (\<exists>r. dd_deps d' = dd_deps d @ [r] \<and> dp_id r = dd_next d) \<Longrightarrow> devices_kept d d'"
  by (rule devices_kept_rows) auto

lemma step_keeps_devices: "fleet_step d es d' \<Longrightarrow> devices_kept d d'"
proof (induction rule: fleet_step.induct)
  case (fs_create d who b)
  then show ?case by (intro devices_kept_same) (auto simp: createPackage_def Let_def)
next
  case (fs_patch d i b)
  then show ?case by (intro devices_kept_same) (auto simp: patchCommit_def)
next
  case (fs_delete d i)
  then show ?case by (intro devices_kept_same) (auto simp: deleteCommit_def Let_def)
next
  case (fs_machine v d d')
  then show ?case by (intro devices_kept_same) (auto simp: deleteMachine_def Let_def split: if_splits)
next
  case (fs_approve d i now who)
  then show ?case by (intro devices_kept_same) (auto simp: approveCommit_def Let_def)
next
  case (fs_queue now p who j v n d n' d')
  then show ?case
    by (intro devices_kept_insert) (auto simp: queueDeployment_def insert_dep_def new_dep_def Let_def split: if_splits)
next
  case (fs_settle f d P)
  then show ?case by (intro devices_kept_update) auto
next
  case (fs_requeue d P now n d')
  then have "d' = SNAPSHOT_UPSERT (map (\<lambda>r. (dp_id r, dp_package r)) (filter P (dd_deps d))) (set_deps P (requeue_row now) d)"
    by (auto simp: requeue_def Let_def split: if_splits)
  moreover have "devices_kept d (set_deps P (requeue_row now) d)" by (rule devices_kept_update) (simp add: requeue_row_def)
  ultimately show ?case by (simp add: devices_kept_def)
next
  case (fs_fan now v j ins d ins' d')
  then show ?case by (intro devices_kept_insert) (auto simp: fan_step_def insert_dep_def new_dep_def Let_def split: if_splits)
next
  case (fs_snap rows d)
  show ?case by (rule devices_kept_same) auto
next
  case (fs_claim ids now d ds d')
  then have "d' = set_deps (claimable_dep d ids) (start_row now) d" by (simp add: claim_reserved)
  then show ?case by (auto intro: devices_kept_update simp: start_row_def)
next
  case (fs_other d' d)
  then show ?case by (intro devices_kept_same) auto
qed

lemma moves_keep_devices: "moves d d' \<Longrightarrow> devices_kept d d'"
proof -
  have "fleet_runs d es d' \<Longrightarrow> devices_kept d d'" for es
    by (induction rule: fleet_runs.induct) (auto intro: devices_kept_refl devices_kept_trans step_keeps_devices)
  then show "moves d d' \<Longrightarrow> ?thesis" by (auto simp: moves_def)
qed

section \<open>A check-in\<close>

definition prepared :: "time \<Rightarrow> work_in \<Rightarrow> ddb \<Rightarrow> ddb" where
  "prepared now w d =
     (let d1 = foldl (\<lambda>x r. applyResult now (wi_device w) r x) d (wi_results w);
          d2 = foldl (\<lambda>x r. applyDetection now (wi_device w) r x) d1 (wi_detections w)
      in fanOut now (wi_device w) d2)"

lemma moves_prepared:
  assumes "fleet_ok h d" shows "moves d (prepared now w d)"
proof -
  let ?d1 = "foldl (\<lambda>x r. applyResult now (wi_device w) r x) d (wi_results w)"
  let ?d2 = "foldl (\<lambda>x r. applyDetection now (wi_device w) r x) ?d1 (wi_detections w)"
  have "moves d ?d1" by (rule moves_foldl) (rule moves_result)
  moreover have "moves ?d1 ?d2" by (rule moves_foldl) (rule moves_detection)
  ultimately have m: "moves d ?d2" by (rule moves_trans)
  from moves_ok [OF m assms] obtain h' where "fleet_ok h' ?d2" by blast
  from moves_fanOut [OF this] m show ?thesis by (auto simp: prepared_def Let_def intro: moves_trans)
qed

lemma checkin_delivers:
  assumes "checkinWork now between w d = (out, d')" "x \<in> set (wo_deployments out)"
  obtains d5 ds where "moves (between (prepared now w d)) d5"
    "claimDeployments now (pendingDeployments (prepared now w d) (wi_device w)) d5 = (ds, d')" "wo_deployments out = ds" "wi_allowed w"
    "processesEveryResponse (wi_version w) \<or> (\<not> wi_update w \<and> wi_results w = [])"
proof -
  let ?p = "prepared now w d"
  obtain scripts where s: "\<exists>detect. checkinWork now between w d =
      (if \<not> processesEveryResponse (wi_version w) \<and> (wi_update w \<or> wi_results w \<noteq> [])
       then (\<lparr>wo_commands = [], wo_deployments = [], wo_detect = detect\<rparr>, between ?p)
       else (case claimScripts now scripts (between ?p) of
               (cs, d5) \<Rightarrow>
                 (case claimDeployments now (if wi_allowed w then pendingDeployments ?p (wi_device w) else []) d5 of
                    (ds, d6) \<Rightarrow> (\<lparr>wo_commands = cs, wo_deployments = ds, wo_detect = detect\<rparr>, d6))))"
    unfolding checkinWork_def prepared_def Let_def by blast
  obtain cs d5 where c: "claimScripts now scripts (between ?p) = (cs, d5)" by fastforce
  have m: "moves (between ?p) d5" using c by (intro moves_other) (auto simp: claimScripts_def)
  obtain ds d6 where k: "claimDeployments now (if wi_allowed w then pendingDeployments ?p (wi_device w) else []) d5 = (ds, d6)" by fastforce
  from s assms c k have e: "wo_deployments out = ds" "d' = d6"
    "processesEveryResponse (wi_version w) \<or> (\<not> wi_update w \<and> wi_results w = [])"
    by (auto split: if_splits)
  moreover have "wi_allowed w"
  proof (rule ccontr)
    assume "\<not> wi_allowed w"
    with k have "ds = []" by (auto simp: claimDeployments_def List.map_filter_simps)
    with e assms(2) show False by simp
  qed
  ultimately show thesis using that [OF m] k by simp
qed


lemma distinct_selected:
  assumes "fleet_ok h d" shows "distinct (pendingDeployments d v)"
proof -
  have "distinct (map dp_id (filter P (dd_deps d)))" for P using assms by (simp add: fleet_ok_def known_ids_def distinct_map_filter)
  then have "distinct (map dp_id (sort_key k (filter P (dd_deps d))))" for P and k :: "deployment \<Rightarrow> bool \<times> int"
    by (simp add: distinct_map)
  then show ?thesis unfolding pendingDeployments_def by (intro distinct_map_filter) (simp add: take_map [symmetric])
qed

lemma selected_device: "i \<in> set (pendingDeployments d v) \<Longrightarrow> \<exists>r \<in> set (dd_deps d). dp_id r = i \<and> dp_device r = v"
  unfolding pendingDeployments_def by (auto dest!: in_set_takeD)

text \<open>What was selected for a machine is still a row of this machine when it is reserved.\<close>

lemma still_on_machine:
  assumes "fleet_ok h d" "moves d d5" "i \<in> set (pendingDeployments d v)" "r \<in> set (dd_deps d5)" "dp_id r = i"
  shows "dp_device r = v"
proof -
  from selected_device [OF assms(3)] obtain s where s: "s \<in> set (dd_deps d)" "dp_id s = i" "dp_device s = v" by blast
  have k: "known_ids d" and "i < dd_next d" using assms(1) s(1,2) by (auto simp: fleet_ok_def fresh_ids_def)
  with moves_keep_devices [OF assms(2)] assms(4,5) obtain q where q: "q \<in> set (dd_deps d)" "dp_id q = i" "dp_device q = dp_device r"
    by (auto simp: devices_kept_def)
  have "q = s" by (rule same_row [OF k q(1) s(1)]) (simp add: q(2) s(2))
  with q(3) s(3) show ?thesis by simp
qed

lemma moves_checkin:
  assumes ok: "fleet_ok h d" and b: "\<And>x. moves x (between x)"
  shows "moves d (snd (checkinWork now between w d))"
proof -
  let ?p = "prepared now w d"
  note m = moves_prepared [OF ok, of now w]
  from moves_ok [OF m ok] obtain h' where p: "fleet_ok h' ?p" by blast
  have c: "moves x (snd (claimScripts now ids x))" for ids x by (rule moves_other) (simp_all add: claimScripts_def)
  have k: "moves x (snd (claimDeployments now ids x))" if "distinct ids" for ids x
    using that by (cases "claimDeployments now ids x") (auto intro: moves_step [OF fs_claim])
  have "moves d (between ?p)" using m b by (rule moves_trans)
  then show ?thesis
    using moves_trans [OF _ moves_trans [OF c k]] distinct_selected [OF p]
    by (auto simp: checkinWork_def prepared_def Let_def split: prod.split)
      (metis distinct.simps(1) snd_conv)+
qed

section \<open>The groups of a machine\<close>

definition parent_closed :: "gdb \<Rightarrow> uuid list \<Rightarrow> bool" where
  "parent_closed g seen \<longleftrightarrow> set (parents g seen) \<subseteq> set seen"

lemma set_parents: "set (parents g seen) = {a. \<exists>c \<in> set seen. edge g a c}"
  by (force simp: parents_def edge_def)

lemma parents_in: "set (parents g seen) \<subseteq> mb_group ` set (gd_members g)"
  by (auto simp: parents_def)

lemma ancestors_closed:
  assumes "card (mb_group ` set (gd_members g) - set seen) \<le> n"
  shows "set seen \<subseteq> set (ancestors n g seen) \<and> parent_closed g (ancestors n g seen)"
  using assms
proof (induction n arbitrary: seen)
  case 0
  then have "mb_group ` set (gd_members g) \<subseteq> set seen" by simp
  then show ?case using parents_in [of g seen] by (auto simp: parent_closed_def)
next
  case (Suc n)
  let ?new = "filter (\<lambda>x. x \<notin> set seen) (js_uniq (parents g seen))"
  show ?case
  proof (cases "?new = []")
    case True
    then show ?thesis by (auto simp: parent_closed_def filter_empty_conv)
  next
    case False
    then obtain x where "x \<in> set ?new" by (cases ?new) auto
    then have "x \<in> mb_group ` set (gd_members g)" "x \<notin> set seen" using parents_in [of g seen] by auto
    then have "card (mb_group ` set (gd_members g) - set (seen @ ?new)) < card (mb_group ` set (gd_members g) - set seen)"
      using \<open>x \<in> set ?new\<close> by (intro psubset_card_mono) auto
    with Suc.prems have "card (mb_group ` set (gd_members g) - set (seen @ ?new)) \<le> n" by simp
    from Suc.IH [OF this] False show ?thesis by (auto simp: Let_def)
  qed
qed

lemma ancestors_sound: "x \<in> set (ancestors n g seen) \<Longrightarrow> \<exists>h \<in> set seen. reaches g x h"
proof (induction n arbitrary: seen)
  case (Suc n)
  let ?new = "filter (\<lambda>x. x \<notin> set seen) (js_uniq (parents g seen))"
  show ?case
  proof (cases "?new = []")
    case False
    with Suc.prems have "x \<in> set (ancestors n g (seen @ ?new))" by (simp add: Let_def)
    from Suc.IH [OF this] obtain h where h: "h \<in> set (seen @ ?new)" "reaches g x h" by blast
    show ?thesis
    proof (cases "h \<in> set seen")
      case False
      with h obtain c where "c \<in> set seen" "edge g h c" by (auto simp: set_parents)
      with h(2) show ?thesis by (blast intro: rtranclp.rtrancl_into_rtrancl)
    qed (use h in blast)
  qed (use Suc.prems in auto)
qed auto

lemma device_groups_iff: "g \<in> set (device_groups db v) \<longleftrightarrow> (\<exists>h. reaches db g h \<and> has_member mb_device db h v)"
proof
  assume "g \<in> set (device_groups db v)"
  from ancestors_sound [OF this [unfolded device_groups_def]] show "\<exists>h. reaches db g h \<and> has_member mb_device db h v"
    by (auto simp: groups_of_device_def has_member_def)
next
  assume "\<exists>h. reaches db g h \<and> has_member mb_device db h v"
  then obtain h where h: "reaches db g h" "has_member mb_device db h v" by blast
  have "card (mb_group ` set (gd_members db) - set (js_uniq (groups_of_device db v))) \<le> card (set (gd_members db))"
    by (rule le_trans [OF card_mono [OF _ Diff_subset] card_image_le]) simp_all
  also have "\<dots> \<le> length (gd_members db)" by (rule card_length)
  finally have a: "set (js_uniq (groups_of_device db v)) \<subseteq> set (device_groups db v)" "parent_closed db (device_groups db v)"
    unfolding device_groups_def using ancestors_closed by blast+
  have "h \<in> set (device_groups db v)" using h(2) a(1) by (force simp: groups_of_device_def has_member_def)
  with h(1) show "g \<in> set (device_groups db v)"
  proof (induction rule: converse_rtranclp_induct)
    case (step y z)
    then have "z \<in> set (device_groups db v)" by blast
    with step.hyps(1) a(2) show ?case by (force simp: parent_closed_def set_parents)
  qed
qed


section \<open>Examples\<close>

definition empty_fleet :: ddb where
  "empty_fleet = \<lparr>dd_devices = [\<lparr>fd_id = 1, fd_hostname = ''PC-1'', fd_pull = False, fd_user = None\<rparr>], dd_packages = [], dd_deps = [],
     dd_snaps = [], dd_jobs = [], dd_software = [], dd_execs = [], dd_memberships = [], dd_native = group_base [] [],
     dd_users = [], dd_audit = [], dd_next = 5\<rparr>"

definition firefox :: package_body where
  "firefox = \<lparr>bo_name = Some ''Firefox'', bo_desc = None, bo_type = Some ''winget'', bo_winget = Some ''Mozilla.Firefox'', bo_install = None,
     bo_post = None, bo_detect = None, bo_version = None\<rparr>"

definition to_device :: deploy_body where
  "to_device = \<lparr>de_scope = None, de_devices = Some [1], de_group = None, de_native = None, de_user = None, de_confirmed = False\<rparr>"

definition a_checkin :: work_in where
  "a_checkin = \<lparr>wi_device = 1, wi_version = None, wi_results = [], wi_detections = [], wi_allowed = True, wi_update = False\<rparr>"

definition created :: ddb where "created = snd (createPackage None firefox empty_fleet)"

definition queued :: ddb where
  "queued = snd (deployPackage (\<lambda>_. None) 20 None 5 to_device (snd (approvePackage 10 None 5 created)))"

definition failed_run :: ddb where
  "failed_run = applyResult 31 1 \<lparr>dr_id = Some 6, dr_exit = Some 1, dr_output = None, dr_token = Some (JStr ''30'')\<rparr>
     (snd (checkinWork 30 id a_checkin queued))"

lemma moves_job: "add_job i scope who d = (j, d1) \<Longrightarrow> moves d d1"
  by (rule moves_other) (auto simp: add_job_def split: option.splits)

lemma moves_targets: "moves d (snd (deployTargets hostnames b d))"
  by (rule moves_other) (auto simp: deployTargets_def Let_def split: option.split list.split)

lemma moves_queue_fold: "moves d (snd (foldl (\<lambda>s v. queueDeployment now p who j v s) (n, d) vs))"
proof (induction vs arbitrary: n d)
  case (Cons v vs)
  obtain n' d' where q: "queueDeployment now p who j v (n, d) = (n', d')" by fastforce
  from moves_trans [OF moves_step [OF fs_queue [OF q]] Cons.IH [of d' n']] q show ?case by simp
qed simp

lemma moves_deploy: "moves d (snd (deployPackage hostnames now who i b d))"
proof -
  obtain r d1 where t: "deployTargets hostnames b d = (r, d1)" by fastforce
  have m: "moves d d1" using moves_targets [of d hostnames b] t by simp
  have "moves d (snd (case add_job i scope who d1 of (j, d2) \<Rightarrow>
      (case foldl (\<lambda>s v. queueDeployment now i who j v s) (0, d2) kept of
         (n, d3) \<Rightarrow> (Inr (Queued_on n (length kept) unmatched skipped j) :: pk_error + deploy_reply, d3))))" for scope kept unmatched skipped
  proof -
    obtain j d2 where j: "add_job i scope who d1 = (j, d2)" by fastforce
    from moves_trans [OF moves_trans [OF m moves_job [OF j]] moves_queue_fold] j show ?thesis
      by (simp split: prod.split) (metis snd_conv)
  qed
  with m t show ?thesis
    by (auto simp: deployPackage_def split: option.split sum.split prod.split)
qed

lemma moves_create: "moves d (snd (createPackage who b d))"
  by (rule moves_step [OF fs_create])

text \<open>
  Two retries of the same deployment whose checks run before either statement: the second puts a
  deployment that is already running back in the queue, and it leaves twice.
\<close>

lemma racing_retries_deliver_twice:
  fixes d1 d2 defines "d1 \<equiv> snd (retryCommit 40 6 failed_run)"
  defines "d2 \<equiv> snd (retryCommit 42 6 (snd (checkinWork 41 id a_checkin d1)))"
  shows "retryCheck failed_run 6 = None \<and>
    map dl_id (wo_deployments (fst (checkinWork 41 id a_checkin d1))) = [6] \<and>
    map dl_id (wo_deployments (fst (checkinWork 43 id a_checkin d2))) = [6]"
  unfolding d1_def d2_def by code_simp

text \<open>A bulk retry of two failed deployments of one package on one machine is refused as a whole.\<close>

lemma bulk_retry_of_a_pair_fails:
  "fst (retryBulk 7 [8, 9] (created\<lparr>dd_packages := map (approve_row 1 None) (dd_packages created),
     dd_deps := map (\<lambda>i. (new_dep 2 i 5 1 None None)\<lparr>dp_status := Dep_failed\<rparr>) [8, 9]\<rparr>)) = Inl Unique_violation"
  by code_simp

text \<open>A deployment that already waits is counted as queued again.\<close>

lemma queued_counts_duplicates:
  "deployPackage (\<lambda>_. None) 40 None 5 to_device queued = (Inr (Queued_on 1 1 0 0 None), queued)"
  by code_simp

section \<open>Properties\<close>

definition no_deployments :: "ddb \<Rightarrow> bool" where
  "no_deployments d \<longleftrightarrow> dd_packages d = [] \<and> dd_deps d = [] \<and> dd_snaps d = []"

lemma no_deployments_ok: "no_deployments d \<Longrightarrow> fleet_ok [] d"
  by (simp add: no_deployments_def fleet_ok_def fresh_ids_def known_ids_def backed_def counted_def pend_def jm_get_def)


text \<open>
  C31: What runs on a machine was approved. From a base without packages, whatever the requests and
  their interleaving, and whatever other requests do between the selection and the reservation of a
  check-in, each deployment it delivers carries a content that an administrator approved for its
  package before, never what the package became since; it leaves only in an allowed window, to its
  own machine, and its package is approved at that moment.
\<close>

theorem only_approved_content_is_delivered:
  assumes "no_deployments d0" and "fleet_runs d0 h d" and "\<And>x. moves x (between x)"
    and "checkinWork now between w d = (out, d')" and "x \<in> set (wo_deployments out)"
  shows "\<exists>es. fleet_runs d0 (h @ es) d' \<and> Approved_content (dl_package x) (dl_content x) \<in> set (h @ es) \<and>
    Delivered (dl_id x) \<in> set es \<and> wi_allowed w \<and> approved d' (dl_package x) \<noteq> None \<and>
    (\<exists>r \<in> set (dd_deps d'). dp_id r = dl_id x \<and> dp_device r = wi_device w \<and> dp_package r = dl_package x \<and>
       dp_status r = Dep_running \<and> claimTokenSql (dp_started r) = dl_token x)"
proof -
  let ?p = "prepared now w d" and ?ids = "pendingDeployments (prepared now w d) (wi_device w)"
  have ok: "fleet_ok h d" using fleet_runs_ok [OF assms(2) no_deployments_ok [OF assms(1)]] .
  from checkin_delivers [OF assms(4,5)] obtain d5 ds where m5: "moves (between ?p) d5"
    and c: "claimDeployments now ?ids d5 = (ds, d')" and ds: "wo_deployments out = ds" "wi_allowed w" by metis
  have "moves d d5" using moves_trans [OF moves_trans [OF moves_prepared [OF ok] assms(3)] m5] .
  then obtain es where es: "fleet_runs d es d5" by (auto simp: moves_def)
  have r5: "fleet_runs d0 (h @ es) d5" by (rule fleet_runs_trans [OF es assms(2)])
  then have ok5: "fleet_ok (h @ es) d5" using fleet_runs_ok no_deployments_ok [OF assms(1)] by blast
  from moves_ok [OF moves_prepared [OF ok] ok] obtain h' where okp: "fleet_ok h' ?p" by blast
  then have dist: "distinct ?ids" by (rule distinct_selected)
  have run: "fleet_runs d0 (h @ es @ map (\<lambda>x. Delivered (dl_id x)) ds) d'"
    using fr_step [OF r5 fs_claim [OF dist c]] by simp
  have sel: "ds = List.map_filter (reserved now ?ids d5) ?ids" and d': "d' = set_deps (claimable_dep d5 ?ids) (start_row now) d5"
    using c by (simp_all add: claim_reserved)
  have "x \<in> set (List.map_filter (reserved now ?ids d5) ?ids)" using sel ds assms(5) by simp
  then obtain i where "reserved now ?ids d5 i = Some x" by (auto simp: in_map_filter)
  then obtain r s where r: "r \<in> set (dd_deps d5)" "dp_id r = dl_id x" "claimable_dep d5 ?ids r" "jm_get (dd_snaps d5) (dp_id r) = Some s"
    "dl_package x = dp_package r" "dl_content x = sn_content s" "dl_token x = claimTokenSql (Some now)" by (auto elim!: reserved_Some)
  from ok5 r(1,4-6) have "Approved_content (dl_package x) (dl_content x) \<in> set (h @ es)" by (auto simp: fleet_ok_def backed_def)
  moreover have "approved d' (dl_package x) \<noteq> None" using r(3,5) by (simp add: d' claimable_dep_def approved_def set_deps_def)
  moreover have started: "start_row now r \<in> set (dd_deps d')" using r(1,3) by (auto simp: d' set_deps_def update_rows_def)
  have "dl_id x \<in> set ?ids" using r(2,3) by (simp add: claimable_dep_def)
  then have "dp_device r = wi_device w" by (rule still_on_machine [OF okp moves_trans [OF assms(3) m5] _ r(1,2)])
  with started have "\<exists>r \<in> set (dd_deps d'). dp_id r = dl_id x \<and> dp_device r = wi_device w \<and> dp_package r = dl_package x \<and>
      dp_status r = Dep_running \<and> claimTokenSql (dp_started r) = dl_token x" using r by (intro bexI [of _ "start_row now r"]) (simp_all add: start_row_def)
  moreover have "Delivered (dl_id x) \<in> set (es @ map (\<lambda>x. Delivered (dl_id x)) ds)" using ds assms(5) by auto
  ultimately show ?thesis
    using run ds(2) by (intro exI [of _ "es @ map (\<lambda>x. Delivered (dl_id x)) ds"]) auto
qed

lemma moves_queued: "moves empty_fleet queued"
  unfolding queued_def created_def by (intro moves_trans [OF moves_trans [OF moves_create moves_approve] moves_deploy])

lemma only_approved_content_is_delivered_witness:
  "\<exists>h es out d'. checkinWork 30 id a_checkin queued = (out, d') \<and> map dl_id (wo_deployments out) = [6] \<and>
     fleet_runs empty_fleet (h @ es) d' \<and> (\<exists>x \<in> set (wo_deployments out). Approved_content (dl_package x) (dl_content x) \<in> set (h @ es))"
proof -
  obtain h where h: "fleet_runs empty_fleet h queued" using moves_queued by (auto simp: moves_def)
  obtain out d' where c: "checkinWork 30 id a_checkin queued = (out, d')" by fastforce
  have "map dl_id (wo_deployments (fst (checkinWork 30 id a_checkin queued))) = [6]" by code_simp
  with c have six: "map dl_id (wo_deployments out) = [6]" by simp
  then obtain x where x: "x \<in> set (wo_deployments out)" by (cases "wo_deployments out") auto
  have "no_deployments empty_fleet" by (simp add: no_deployments_def empty_fleet_def)
  from only_approved_content_is_delivered [OF this h _ c x] obtain es
    where "fleet_runs empty_fleet (h @ es) d'" "Approved_content (dl_package x) (dl_content x) \<in> set (h @ es)" by auto
  with c six x show ?thesis
    by (intro exI [of _ h] exI [of _ es] exI [of _ out] exI [of _ d'] conjI bexI [of _ x])
qed

text \<open>
  C32: A deployment leaves at most once per queueing: in every history, its deliveries are no more
  than its creations and retries, and fewer while it waits; and a package waits at most once on a
  machine.
\<close>

theorem delivered_at_most_once_per_queueing:
  assumes "no_deployments d0" and "fleet_runs d0 h d"
  shows "count_list h (Delivered i) + pend i d \<le> count_list h (Queued i) \<and> distinct (pending_pairs (dd_deps d)) \<and>
    distinct (map dp_id (dd_deps d))"
  using fleet_runs_ok [OF assms(2) no_deployments_ok [OF assms(1)]] by (simp add: fleet_ok_def counted_def known_ids_def)

lemma delivered_at_most_once_per_queueing_witness:
  "\<exists>h. fleet_runs empty_fleet h queued \<and> pend 6 queued = 1 \<and> count_list h (Delivered 6) + 1 \<le> count_list h (Queued 6)"
proof -
  obtain h where h: "fleet_runs empty_fleet h queued" using moves_queued by (auto simp: moves_def)
  have "pend 6 queued = 1" by code_simp
  moreover have "no_deployments empty_fleet" by (simp add: no_deployments_def empty_fleet_def)
  ultimately show ?thesis using delivered_at_most_once_per_queueing [of empty_fleet h queued 6] h by auto
qed

text \<open>
  A job on a native group reaches the same machines at each check-in as when it was created:
  the recursive query that climbs from the machine finds a group exactly when the walk down from the
  group finds the machine, while the group reaches no more groups than the depth limit allows.
\<close>

theorem fan_out_agrees_with_group_members:
  assumes "one_kind (dd_native d)" and "finite {h. reaches (dd_native d) g h}"
    and "card {h. reaches (dd_native d) g h} \<le> MAX_GROUP_DEPTH + 1" and "jb_scope j = Sc_native g"
  shows "job_matches d v j \<longleftrightarrow> v \<in> set (resolveGroupDeviceIds (dd_native d) g)"
proof -
  have "set (resolveGroupDeviceIds (dd_native d) g) = {v. \<exists>h. reaches (dd_native d) g h \<and> has_member mb_device (dd_native d) h v}"
    unfolding resolveGroupDeviceIds_def by (rule effective_exact) (use assms in \<open>auto simp: one_kind_def\<close>)
  with assms(4) show ?thesis by (simp add: job_matches_def device_groups_iff)
qed

definition nested_fleet :: ddb where
  "nested_fleet = empty_fleet\<lparr>dd_native := group_base [] [link 2 0 1, link 3 1 0,
     \<lparr>mb_id = 50, mb_group = 1, mb_device = Some 7, mb_user = None, mb_child = None, mb_by = None\<rparr>]\<rparr>"

lemma fan_out_agrees_with_group_members_witness:
  "job_matches nested_fleet 7 \<lparr>jb_id = 3, jb_package = 5, jb_scope = Sc_native 0, jb_active = True, jb_by = None\<rparr> \<and>
   7 \<in> set (resolveGroupDeviceIds (dd_native nested_fleet) 0)"
proof -
  let ?j = "\<lparr>jb_id = 3, jb_package = 5, jb_scope = Sc_native 0, jb_active = True, jb_by = None\<rparr>"
  have "h \<in> {0, 1}" if "reaches (dd_native nested_fleet) 0 h" for h
    by (rule closed_reaches [OF that]) (auto simp: nested_fleet_def group_base_def link_def edge_def)
  then have s: "{h. reaches (dd_native nested_fleet) 0 h} \<subseteq> {0, 1}" by blast
  then have "finite {h. reaches (dd_native nested_fleet) 0 h}" by (rule finite_subset) simp
  moreover have "card {h. reaches (dd_native nested_fleet) 0 h} \<le> MAX_GROUP_DEPTH + 1"
    using card_mono [OF _ s] by (simp add: MAX_GROUP_DEPTH_def)
  moreover have "one_kind (dd_native nested_fleet)" by (simp add: nested_fleet_def group_base_def link_def one_kind_def)
  moreover have "job_matches nested_fleet 7 ?j" by code_simp
  ultimately show ?thesis using fan_out_agrees_with_group_members [of nested_fleet 0 ?j 7] by simp
qed

end
