(* ===== verification/AgentTokens.thy ===== *)
theory AgentTokens imports LinuxDb Validation JsNumber begin

text \<open>
  The credentials of the Windows agents (\<open>inventory/routes/agent.js\<close>, \<open>core/routes/settings.js\<close>):
  a shared bootstrap token is exchanged for a token of one machine, a token is rotated by its agent,
  created and revoked by an administrator, and a token without machine attaches itself to one at its
  first check-in under the rules of \<open>inventory/lib/device-claim.js\<close> (modelled in \<open>LinuxDb\<close>).
  SHA-256 is a parameter, random tokens are arguments.
\<close>

section \<open>Tables\<close>

record cred = agent_token +
  ac_hash :: jsstring
  ac_label :: "jsstring option"
  ac_max :: "int option"
  ac_redeemed :: nat
  ac_redeemed_at :: "time option"
  ac_replaced_by :: "uuid option"

text \<open>A row of \<open>devices\<close>, with the columns an agent fills.\<close>

record pc =
  pc_id :: uuid
  pc_hostname :: jsstring
  pc_serial :: "jsstring option"
  pc_pull :: bool
  pc_source :: "jsstring option"
  pc_os :: "jsstring option"
  pc_os_build :: "jsstring option"
  pc_ram :: "rat option"
  pc_disk_pct :: "rat option"
  pc_disk_total :: "rat option"
  pc_ip :: "jsstring option"
  pc_version :: "jsstring option"
  pc_health :: "json option"
  pc_health_at :: "time option"
  pc_sysinfo :: "json option"
  pc_compliance :: "jsstring option"
  pc_last_seen :: "time option"
  pc_updated :: "time option"

definition blank_pc :: "uuid \<Rightarrow> jsstring \<Rightarrow> jsstring option \<Rightarrow> pc" where
  "blank_pc i host ser =
     \<lparr>pc_id = i, pc_hostname = host, pc_serial = ser, pc_pull = False, pc_source = Some ''agent'', pc_os = None,
      pc_os_build = None, pc_ram = None, pc_disk_pct = None, pc_disk_total = None, pc_ip = None, pc_version = None,
      pc_health = None, pc_health_at = None, pc_sysinfo = None, pc_compliance = None, pc_last_seen = None, pc_updated = None\<rparr>"

datatype agent_audit =
    Bootstrap_exchange jsstring uuid "jsstring option" "jsstring option" nat
  | Bootstrap_refused jsstring uuid claim_refusal "jsstring option" "jsstring option"
  | Token_rotated "uuid option" uuid time
  | Token_bound jsstring uuid uuid nat
  | Bind_refused jsstring uuid claim_refusal uuid
  | Token_created "jsstring option" jsstring
  | Token_revoked "jsstring option" "jsstring option"
  | Agent_checkin jsstring uuid bool "jsstring list"
  | Setup_script "jsstring option" jsstring jsstring "nat list"
  | Laps_rotated uuid jsstring
  | Tamper_detected jsstring uuid

record adb =
  ad_pcs :: "pc list"
  ad_tokens :: "cred list"
  ad_audit :: "agent_audit list"
  ad_next :: uuid

definition audit :: "agent_audit \<Rightarrow> adb \<Rightarrow> adb" where
  "audit e a = a\<lparr>ad_audit := ad_audit a @ [e]\<rparr>"

text \<open>What the claim rules read of a machine (\<open>{ id, serial, managed_by }\<close>) and of the tokens.\<close>

definition claim_view :: "pc \<Rightarrow> device" where
  "claim_view p =
     \<lparr>dv_id = pc_id p, dv_hostname = pc_hostname p, dv_serial = pc_serial p, dv_platform = None, dv_pull = pc_pull p,
      dv_source = pc_source p, dv_profile = None, dv_ring = None, dv_user = None, dv_os = pc_os p, dv_disk_pct = pc_disk_pct p,
      dv_last_seen = pc_last_seen p, dv_last_revision = None, dv_ok_revision = None, dv_apply_status = None, dv_apply_at = None,
      dv_facts = \<lparr>wf_health_signals = None, wf_health_updated_at = None, wf_system_info = None, wf_ssh_host_key_fp = None,
        wf_ssh_host_key_learned_at = None, wf_ip_netbird = pc_ip p, wf_agent_version = pc_version p, wf_intune_device_id = None,
        wf_aad_device_id = None, wf_intune_user_id = None, wf_intune_user_display_name = None, wf_intune_last_sync = None,
        wf_compliance_state = pc_compliance p, wf_enrolled_at = None, wf_last_seen_ws = None\<rparr>\<rparr>"

definition claim_base :: "adb \<Rightarrow> db" where
  "claim_base a = empty_db\<lparr>db_tokens := map agent_token.truncate (ad_tokens a)\<rparr>"

section \<open>Authentication\<close>

text \<open>The text after \<open>Bearer \<close>, and the row it opens.\<close>

definition bearer :: "jsstring option \<Rightarrow> jsstring option" where
  "bearer auth = (let a = or_else auth [] in if starts_with ''Bearer '' a then Some (drop 7 a) else None)"

definition live :: "time \<Rightarrow> cred \<Rightarrow> bool" where
  "live now t \<longleftrightarrow> tk_revoked_at t = None \<and> (case tk_expires_at t of None \<Rightarrow> True | Some e \<Rightarrow> now < e)"

definition on_pull :: "adb \<Rightarrow> cred \<Rightarrow> bool" where
  "on_pull a t \<longleftrightarrow> list_ex (\<lambda>p. tk_device t = Some (pc_id p) \<and> pc_pull p) (ad_pcs a)"

definition authToken :: "(jsstring \<Rightarrow> jsstring) \<Rightarrow> time \<Rightarrow> jsstring option \<Rightarrow> adb \<Rightarrow> cred option" where
  "authToken hash now auth a =
     (case bearer auth of
        None \<Rightarrow> None
      | Some plain \<Rightarrow>
          find (\<lambda>t. ac_hash t = hash plain \<and> \<not> tk_bootstrap t \<and> live now t \<and> \<not> on_pull a t) (ad_tokens a))"

section \<open>Bootstrap exchange\<close>

datatype ex_error = Bootstrap_missing | Ex_hostname_required | Bootstrap_invalid | Ex_refused claim_refusal | Ex_internal

text \<open>Neither revoked, expired nor used up.\<close>

definition redeemable :: "time \<Rightarrow> jsstring \<Rightarrow> cred \<Rightarrow> bool" where
  "redeemable now h t \<longleftrightarrow>
     ac_hash t = h \<and> tk_bootstrap t \<and> live now t \<and>
     (case ac_max t of None \<Rightarrow> True | Some n \<Rightarrow> int (ac_redeemed t) < n)"

text \<open>Issued to the machine, never used, and not by a rotation.\<close>

definition unused :: "uuid \<Rightarrow> cred \<Rightarrow> bool" where
  "unused v t \<longleftrightarrow>
     tk_device t = Some v \<and> \<not> tk_bootstrap t \<and> tk_revoked_at t = None \<and> tk_last_used_at t = None \<and>
     tk_created_by t \<noteq> Some ''agent-rotation''"

definition new_cred :: "uuid \<Rightarrow> uuid option \<Rightarrow> jsstring \<Rightarrow> jsstring option \<Rightarrow> jsstring option \<Rightarrow> cred" where
  "new_cred i dev h lab who =
     \<lparr>tk_id = i, tk_device = dev, tk_bootstrap = False, tk_revoked_at = None, tk_expires_at = None, tk_last_used_at = None,
      tk_created_by = who, ac_hash = h, ac_label = lab, ac_max = None, ac_redeemed = 0, ac_redeemed_at = None, ac_replaced_by = None\<rparr>"

text \<open>\<open>INSERT INTO agent_tokens\<close>; the hash is unique.\<close>

definition insert_token :: "uuid option \<Rightarrow> jsstring \<Rightarrow> jsstring option \<Rightarrow> jsstring option \<Rightarrow> adb \<Rightarrow> (uuid \<times> adb) option" where
  "insert_token dev h lab who a =
     (if list_ex (\<lambda>t. ac_hash t = h) (ad_tokens a) then None
      else Some (ad_next a, a\<lparr>ad_tokens := ad_tokens a @ [new_cred (ad_next a) dev h lab who], ad_next := ad_next a + 1\<rparr>))"

definition revoke_where :: "(cred \<Rightarrow> bool) \<Rightarrow> time \<Rightarrow> adb \<Rightarrow> uuid list \<times> adb" where
  "revoke_where P now a =
     (map tk_id (filter P (ad_tokens a)), a\<lparr>ad_tokens := update_rows P (\<lambda>t. t\<lparr>tk_revoked_at := Some now\<rparr>) (ad_tokens a)\<rparr>)"

text \<open>\<open>INSERT INTO devices\<close>; host names and serial numbers are unique.\<close>

definition insert_pc :: "(uuid \<Rightarrow> pc) \<Rightarrow> adb \<Rightarrow> (uuid \<times> adb) option" where
  "insert_pc mk a =
     (let p = mk (ad_next a) in
      if list_ex (\<lambda>q. pc_hostname q = pc_hostname p \<or> (pc_serial p \<noteq> None \<and> pc_serial q = pc_serial p)) (ad_pcs a) then None
      else Some (ad_next a, a\<lparr>ad_pcs := ad_pcs a @ [p], ad_next := ad_next a + 1\<rparr>))"

text \<open>The token of the machine, then the count of the bootstrap.\<close>

definition redeem :: "time \<Rightarrow> jsstring \<Rightarrow> jsstring \<Rightarrow> uuid \<Rightarrow> cred \<Rightarrow> adb \<Rightarrow> (uuid \<times> adb) option" where
  "redeem now h lab v bs a =
     (case insert_token (Some v) h (Some lab) (Some (''bootstrap:'' @ or_else (ac_label bs) ''null'')) a of
        None \<Rightarrow> None
      | Some (i, a1) \<Rightarrow>
          Some (i, a1\<lparr>ad_tokens := update_rows (\<lambda>t. tk_id t = tk_id bs)
                        (\<lambda>t. t\<lparr>ac_redeemed := ac_redeemed t + 1, ac_redeemed_at := Some now\<rparr>) (ad_tokens a1)\<rparr>))"

record exchanged =
  xc_token :: jsstring
  xc_id :: uuid
  xc_device :: uuid
  xc_revoked :: "uuid list"

definition trimmed :: "jsstring option \<Rightarrow> jsstring option" where
  "trimmed s = (let t = js_trim (or_else s []) in if t = [] then None else Some t)"

text \<open>
  \<open>fresh\<close> is the random token, \<open>day\<close> the date of a clock reading. The transaction is one step: the
  bootstrap row and the machine are locked. A failure inside it restores the base (\<open>Ex_internal\<close>).
\<close>

definition exchangeToken ::
    "(jsstring \<Rightarrow> jsstring) \<Rightarrow> (time \<Rightarrow> jsstring) \<Rightarrow> time \<Rightarrow> jsstring \<Rightarrow> jsstring option \<Rightarrow> jsstring option \<Rightarrow> jsstring option \<Rightarrow>
      adb \<Rightarrow> (ex_error + exchanged) \<times> adb" where
  "exchangeToken hash day now fresh auth hostname serial a =
     (case (bearer auth, trimmed hostname) of
        (None, _) \<Rightarrow> (Inl Bootstrap_missing, a)
      | (Some _, None) \<Rightarrow> (Inl Ex_hostname_required, a)
      | (Some plain, Some host) \<Rightarrow>
         (case find (redeemable now (hash plain)) (ad_tokens a) of
            None \<Rightarrow> (Inl Bootstrap_invalid, a)
          | Some bs \<Rightarrow>
              let ser = trimmed serial;
                  finish = (\<lambda>v revoked a1.
                    case redeem now (hash fresh) (''auto-'' @ host @ ''-'' @ day now) v bs a1 of
                      None \<Rightarrow> (Inl Ex_internal, a)
                    | Some (i, a2) \<Rightarrow>
                        (Inr \<lparr>xc_token = fresh, xc_id = i, xc_device = v, xc_revoked = revoked\<rparr>,
                         audit (Bootstrap_exchange host v (ac_label bs) ser (length revoked)) a2))
              in (case find (\<lambda>p. pc_hostname p = host) (ad_pcs a) of
                    Some p \<Rightarrow>
                      (case checkDeviceClaim now (claim_base a) (claim_view p) ser None of
                         Some r \<Rightarrow> (Inl (Ex_refused r), audit (Bootstrap_refused (take 255 host) (pc_id p) r (ac_label bs) (map_option (take 100) ser)) a)
                       | None \<Rightarrow> (case revoke_where (unused (pc_id p)) now a of (revoked, a1) \<Rightarrow> finish (pc_id p) revoked a1))
                  | None \<Rightarrow>
                      (case insert_pc (\<lambda>i. (blank_pc i host ser)\<lparr>pc_last_seen := Some now\<rparr>) a of
                         None \<Rightarrow> (Inl Ex_internal, a)
                       | Some (v, a1) \<Rightarrow> finish v [] a1))))"

section \<open>Rotation\<close>

definition GRACE :: int where "GRACE = 24 * 60 * 60 * 1000"

datatype rotate_error = Rotate_unauthorized | Rotate_internal

text \<open>
  The transaction after the authentication: it does not read the token again. The row of a machine
  deleted meanwhile is refused by the foreign key.
\<close>

definition rotateCommit :: "(jsstring \<Rightarrow> jsstring) \<Rightarrow> time \<Rightarrow> jsstring \<Rightarrow> cred \<Rightarrow> adb \<Rightarrow> (rotate_error + uuid \<times> time) \<times> adb" where
  "rotateCommit hash now fresh t a =
     (if (case tk_device t of None \<Rightarrow> False | Some v \<Rightarrow> \<not> list_ex (\<lambda>p. pc_id p = v) (ad_pcs a)) then (Inl Rotate_internal, a)
      else
        case insert_token (tk_device t) (hash fresh)
               (Some ((if truthy (ac_label t) then the (ac_label t) else ''agent'') @ '' (rotated)'')) (Some ''agent-rotation'') a of
          None \<Rightarrow> (Inl Rotate_internal, a)
        | Some (i, a1) \<Rightarrow>
            (Inr (i, now + GRACE),
             audit (Token_rotated (tk_device t) (tk_id t) (now + GRACE))
               (a1\<lparr>ad_tokens := update_rows (\<lambda>x. tk_id x = tk_id t)
                     (\<lambda>x. x\<lparr>tk_expires_at := Some (now + GRACE), ac_replaced_by := Some i\<rparr>) (ad_tokens a1)\<rparr>)))"

definition rotateToken ::
    "(jsstring \<Rightarrow> jsstring) \<Rightarrow> (adb \<Rightarrow> adb) \<Rightarrow> time \<Rightarrow> jsstring \<Rightarrow> jsstring option \<Rightarrow> adb \<Rightarrow> (rotate_error + uuid \<times> time) \<times> adb" where
  "rotateToken hash between now fresh auth a =
     (case authToken hash now auth a of
        None \<Rightarrow> (Inl Rotate_unauthorized, a)
      | Some t \<Rightarrow> rotateCommit hash now fresh t (between a))"

section \<open>Tokens of an administrator\<close>

datatype admin_error = Label_required | Token_not_found | Admin_internal

definition createToken :: "(jsstring \<Rightarrow> jsstring) \<Rightarrow> jsstring \<Rightarrow> jsstring option \<Rightarrow> jsstring option \<Rightarrow> adb \<Rightarrow> (admin_error + uuid) \<times> adb" where
  "createToken hash fresh who label a =
     (if \<not> truthy label then (Inl Label_required, a)
      else case insert_token None (hash fresh) label who a of
             None \<Rightarrow> (Inl Admin_internal, a)
           | Some (i, a1) \<Rightarrow> (Inr i, audit (Token_created who (the label)) a1))"

text \<open>The tokens given are those whose connection is then closed (\<open>evictTokens\<close>).\<close>

definition revokeToken :: "time \<Rightarrow> jsstring option \<Rightarrow> uuid \<Rightarrow> adb \<Rightarrow> (admin_error + uuid list) \<times> adb" where
  "revokeToken now who i a =
     (case find (\<lambda>t. tk_id t = i \<and> tk_revoked_at t = None) (ad_tokens a) of
        None \<Rightarrow> (Inl Token_not_found, a)
      | Some t \<Rightarrow>
          (case revoke_where (\<lambda>t. tk_id t = i \<and> tk_revoked_at t = None) now a of
             (ids, a1) \<Rightarrow> (Inr [tk_id t], audit (Token_revoked who (ac_label t)) a1)))"

section \<open>Who a check-in is for\<close>

datatype ci_error = Ci_unauthorized | Ci_hostname_required | Ci_other_device | Ci_refused claim_refusal | Ci_internal

text \<open>By serial number first, then by host name.\<close>

definition lookupPc :: "jsstring option \<Rightarrow> jsstring \<Rightarrow> adb \<Rightarrow> pc option" where
  "lookupPc serial host a =
     (let by_host = find (\<lambda>p. pc_hostname p = host) (ad_pcs a) in
      if truthy serial then first_some (find (\<lambda>p. pc_serial p = serial) (ad_pcs a)) by_host else by_host)"

text \<open>The token, the host name and the machine found; a token of another machine is refused.\<close>

definition identify ::
    "(jsstring \<Rightarrow> jsstring) \<Rightarrow> time \<Rightarrow> jsstring option \<Rightarrow> jsstring option \<Rightarrow> jsstring option \<Rightarrow> adb \<Rightarrow> ci_error + cred \<times> jsstring \<times> pc option" where
  "identify hash now auth hostname serial a =
     (case authToken hash now auth a of
        None \<Rightarrow> Inl Ci_unauthorized
      | Some t \<Rightarrow>
          if \<not> truthy hostname then Inl Ci_hostname_required
          else let found = lookupPc serial (the hostname) a in
               (case (tk_device t, found) of
                  (Some v, Some p) \<Rightarrow> if pc_id p \<noteq> v then Inl Ci_other_device else Inr (t, the hostname, found)
                | _ \<Rightarrow> Inr (t, the hostname, found)))"

text \<open>
  The transaction that attaches a token without machine to a known one: the row of the machine is
  locked and read again (or the one found, when it was deleted meanwhile: the foreign key then refuses).
\<close>

definition bindable :: "uuid \<Rightarrow> uuid \<Rightarrow> cred \<Rightarrow> bool" where
  "bindable i v t \<longleftrightarrow> tk_id t = i \<and> (tk_device t = None \<or> tk_device t = Some v)"

definition bindToken :: "time \<Rightarrow> cred \<Rightarrow> jsstring \<Rightarrow> jsstring option \<Rightarrow> pc \<Rightarrow> adb \<Rightarrow> (ci_error + uuid list) \<times> adb" where
  "bindToken now t host serial p a =
     (let locked = find (\<lambda>q. pc_id q = pc_id p) (ad_pcs a) in
      case checkDeviceClaim now (claim_base a) (claim_view (or_else locked p)) serial (Some (tk_id t)) of
        Some r \<Rightarrow> (Inl (Ci_refused r), audit (Bind_refused (take 255 host) (pc_id p) r (tk_id t)) a)
      | None \<Rightarrow>
          if \<not> list_ex (bindable (tk_id t) (pc_id p)) (ad_tokens a) then (Inl Ci_other_device, a)
          else if locked = None then (Inl Ci_internal, a)
          else
            let a1 = a\<lparr>ad_tokens := update_rows (bindable (tk_id t) (pc_id p))
                         (\<lambda>x. x\<lparr>tk_device := Some (pc_id p), tk_last_used_at := Some now\<rparr>) (ad_tokens a)\<rparr>
            in (case revoke_where (\<lambda>x. unused (pc_id p) x \<and> tk_id x \<noteq> tk_id t) now a1 of
                  (revoked, a2) \<Rightarrow> (Inr revoked, audit (Token_bound (take 255 host) (pc_id p) (tk_id t) (length revoked)) a2)))"

text \<open>Only a token without machine, for a machine that is known, goes through it.\<close>

definition claimPc ::
    "time \<Rightarrow> cred \<Rightarrow> jsstring \<Rightarrow> jsstring option \<Rightarrow> pc option \<Rightarrow> adb \<Rightarrow> (ci_error + uuid list) \<times> adb" where
  "claimPc now t host serial found a =
     (case (tk_device t, found) of
        (None, Some p) \<Rightarrow> bindToken now t host serial p a
      | _ \<Rightarrow> (Inr [], a))"

text \<open>At the end of the inventory: used now, on the machine of the check-in, whatever the row says.\<close>

definition touchToken :: "time \<Rightarrow> uuid \<Rightarrow> uuid \<Rightarrow> adb \<Rightarrow> adb" where
  "touchToken now v i a =
     a\<lparr>ad_tokens := update_rows (\<lambda>x. tk_id x = i) (\<lambda>x. x\<lparr>tk_last_used_at := Some now, tk_device := Some v\<rparr>) (ad_tokens a)\<rparr>"

end
