(* ===== verification/Inventory.thy ===== *)
theory Inventory imports AgentTokens begin

text \<open>
  What a check-in of a Windows agent writes (\<open>inventory/routes/agent.js\<close>): the machine, its
  partitions, interfaces and samples in one transaction, the token, the audited events, the alert
  of a disk; and the other writes of the agents: the log of an installation, the local password
  kept in escrow.
\<close>

section \<open>Tables\<close>

record disk_row =
  dk_device :: uuid
  dk_letter :: jsstring
  dk_label :: "jsstring option"
  dk_size :: "rat option"
  dk_used :: "rat option"
  dk_updated :: time

record iface_row =
  if_device :: uuid
  if_mac :: jsstring
  if_ip :: "jsstring option"
  if_adapter :: "jsstring option"
  if_type :: "jsstring option"

text \<open>A sample of a time series, with its values and its text: adapter, host, or state of the battery.\<close>

record sample =
  sm_device :: uuid
  sm_key :: "jsstring option"
  sm_values :: "rat option list"
  sm_at :: time

record inv =
  iv_disks :: "disk_row list"
  iv_ifaces :: "iface_row list"
  iv_bandwidth :: "sample list"
  iv_ping :: "sample list"
  iv_perf :: "sample list"
  iv_creds :: "credential list"

section \<open>What the agent sends\<close>

text \<open>The body after \<open>stripNul\<close> and the defaults for what is not a list.\<close>

record disk_in =
  di_letter :: "jsstring option"
  di_label :: "jsstring option"
  di_size :: "rat option"
  di_used :: "rat option"

record iface_in =
  ii_mac :: "jsstring option"
  ii_ip :: "jsstring option"
  ii_adapter :: "jsstring option"
  ii_type :: "json option"

record ci_body =
  cb_hostname :: "jsstring option"
  cb_serial :: "jsstring option"
  cb_os :: "jsstring option"
  cb_os_build :: "jsstring option"
  cb_ram :: "rat option"
  cb_ip :: "json option"
  cb_version :: "jsstring option"
  cb_disks :: "disk_in list"
  cb_network :: "iface_in list"
  cb_bandwidth :: "(jsstring option \<times> rat option list) list"
  cb_ping :: "(jsstring option \<times> rat option list) list"
  cb_perf :: "(jsstring option \<times> rat option list) option"
  cb_health :: "json option"
  cb_sysinfo :: "json option"

text \<open>\<open>v || null\<close> on numbers; a JSON object or array, else null.\<close>

definition num_or_null :: "rat option \<Rightarrow> rat option" where
  "num_or_null q = (if q = Some 0 then None else q)"

definition obj_or_null :: "json option \<Rightarrow> json option" where
  "obj_or_null v = (case v of Some (JObj ps) \<Rightarrow> v | Some (JArr xs) \<Rightarrow> v | _ \<Rightarrow> None)"

definition mainDisk :: "disk_in list \<Rightarrow> disk_in option" where
  "mainDisk ds = first_some (find (\<lambda>d. di_letter d = Some ''C:'') ds) (case ds of [] \<Rightarrow> None | d # _ \<Rightarrow> Some d)"

text \<open>Sent: neither absent, null nor empty; kept only in the range of Netbird.\<close>

definition ipNetbirdSent :: "json option \<Rightarrow> bool" where
  "ipNetbirdSent v \<longleftrightarrow> v \<noteq> None \<and> v \<noteq> Some JNull \<and> v \<noteq> Some (JStr [])"

definition ipNetbird :: "json option \<Rightarrow> jsstring option" where
  "ipNetbird v = (if ipNetbirdSent v \<and> isNetbirdIp v then (case v of Some (JStr s) \<Rightarrow> Some s | _ \<Rightarrow> None) else None)"

definition ipNetbirdReject :: "json option \<Rightarrow> bool" where
  "ipNetbirdReject v \<longleftrightarrow> ipNetbirdSent v \<and> ipNetbird v = None"

section \<open>The machine\<close>

definition disk_pct :: "ci_body \<Rightarrow> rat option" where
  "disk_pct b = Option.bind (mainDisk (cb_disks b)) di_used"

definition disk_total :: "ci_body \<Rightarrow> rat option" where
  "disk_total b = Option.bind (mainDisk (cb_disks b)) di_size"

definition update_pc :: "time \<Rightarrow> jsstring \<Rightarrow> ci_body \<Rightarrow> pc \<Rightarrow> pc" where
  "update_pc now host b p =
     p\<lparr>pc_hostname := host,
       pc_os := first_some (or_null (cb_os b)) (pc_os p),
       pc_os_build := first_some (or_null (cb_os_build b)) (pc_os_build p),
       pc_ram := first_some (num_or_null (cb_ram b)) (pc_ram p),
       pc_disk_pct := first_some (disk_pct b) (pc_disk_pct p),
       pc_disk_total := first_some (disk_total b) (pc_disk_total p),
       pc_ip := (if ipNetbirdReject (cb_ip b) then None else first_some (ipNetbird (cb_ip b)) (pc_ip p)),
       pc_version := first_some (or_null (cb_version b)) (pc_version p),
       pc_health := first_some (obj_or_null (cb_health b)) (pc_health p),
       pc_health_at := (if obj_or_null (cb_health b) \<noteq> None then Some now else pc_health_at p),
       pc_sysinfo := first_some (obj_or_null (cb_sysinfo b)) (pc_sysinfo p),
       pc_last_seen := Some now, pc_updated := Some now\<rparr>"

definition create_pc :: "time \<Rightarrow> jsstring \<Rightarrow> ci_body \<Rightarrow> uuid \<Rightarrow> pc" where
  "create_pc now host b i =
     (blank_pc i host (or_null (cb_serial b)))\<lparr>
       pc_os := or_null (cb_os b), pc_os_build := or_null (cb_os_build b), pc_ram := num_or_null (cb_ram b),
       pc_disk_pct := disk_pct b, pc_disk_total := disk_total b, pc_ip := ipNetbird (cb_ip b), pc_version := or_null (cb_version b),
       pc_health := obj_or_null (cb_health b), pc_health_at := (if obj_or_null (cb_health b) \<noteq> None then Some now else None),
       pc_sysinfo := obj_or_null (cb_sysinfo b), pc_last_seen := Some now, pc_updated := Some now\<rparr>"

text \<open>
  The row of the machine; a host name taken by another one is refused by the unique constraint. A
  machine deleted meanwhile is no row to update.
\<close>

definition upsertPc :: "time \<Rightarrow> jsstring \<Rightarrow> ci_body \<Rightarrow> uuid option \<Rightarrow> adb \<Rightarrow> (uuid \<times> adb) option" where
  "upsertPc now host b found a =
     (case found of
        Some v \<Rightarrow>
          if list_ex (\<lambda>p. pc_id p = v) (ad_pcs a) \<and> list_ex (\<lambda>p. pc_id p \<noteq> v \<and> pc_hostname p = host) (ad_pcs a) then None
          else Some (v, a\<lparr>ad_pcs := update_rows (\<lambda>p. pc_id p = v) (update_pc now host b) (ad_pcs a)\<rparr>)
      | None \<Rightarrow> insert_pc (create_pc now host b) a)"

section \<open>Partitions, interfaces, samples\<close>

definition upsert_disk :: "time \<Rightarrow> uuid \<Rightarrow> disk_in \<Rightarrow> disk_row list \<Rightarrow> disk_row list" where
  "upsert_disk now v d rows =
     (if \<not> truthy (di_letter d) then rows
      else
        let same = (\<lambda>r. dk_device r = v \<and> dk_letter r = the (di_letter d)) in
        if list_ex same rows
        then update_rows same (\<lambda>r. r\<lparr>dk_label := first_some (or_null (di_label d)) (dk_label r), dk_size := num_or_null (di_size d),
                                     dk_used := di_used d, dk_updated := now\<rparr>) rows
        else rows @ [\<lparr>dk_device = v, dk_letter = the (di_letter d), dk_label = or_null (di_label d), dk_size = num_or_null (di_size d),
                      dk_used = di_used d, dk_updated = now\<rparr>])"

definition iface_rows :: "uuid \<Rightarrow> iface_in list \<Rightarrow> iface_row list" where
  "iface_rows v ns =
     map (\<lambda>n. \<lparr>if_device = v, if_mac = the (ii_mac n), if_ip = or_null (ii_ip n), if_adapter = or_null (ii_adapter n),
               if_type = normalizeIfaceType (ii_type n)\<rparr>) (filter (\<lambda>n. truthy (ii_mac n)) ns)"

definition refresh_ifaces :: "uuid \<Rightarrow> iface_in list \<Rightarrow> iface_row list \<Rightarrow> iface_row list" where
  "refresh_ifaces v ns rows = (if ns = [] then rows else filter (\<lambda>r. if_device r \<noteq> v) rows @ iface_rows v ns)"

definition RETENTION_DAYS :: int where "RETENTION_DAYS = 7"

definition DAY_MS :: int where "DAY_MS = 24 * 3600 * 1000"

definition purge :: "time \<Rightarrow> uuid \<Rightarrow> sample list \<Rightarrow> sample list" where
  "purge now v rows = filter (\<lambda>s. sm_device s \<noteq> v \<or> now - RETENTION_DAYS * DAY_MS \<le> sm_at s) rows"

definition add_samples :: "time \<Rightarrow> uuid \<Rightarrow> (jsstring option \<times> rat option list) list \<Rightarrow> sample list \<Rightarrow> sample list" where
  "add_samples now v xs rows =
     rows @ map (\<lambda>(k, vs). \<lparr>sm_device = v, sm_key = k, sm_values = vs, sm_at = now\<rparr>) (filter (\<lambda>(k, vs). truthy k) xs)"

text \<open>The series of the machine; the old samples of a series are purged when it received some (bandwidth: always).\<close>

definition inventory :: "time \<Rightarrow> uuid \<Rightarrow> ci_body \<Rightarrow> inv \<Rightarrow> inv" where
  "inventory now v b iv =
     iv\<lparr>iv_disks := foldl (\<lambda>rows d. upsert_disk now v d rows) (iv_disks iv) (cb_disks b),
        iv_ifaces := refresh_ifaces v (cb_network b) (iv_ifaces iv),
        iv_bandwidth := purge now v (add_samples now v (cb_bandwidth b) (iv_bandwidth iv)),
        iv_ping := (let rows = add_samples now v (cb_ping b) (iv_ping iv) in if cb_ping b = [] then rows else purge now v rows),
        iv_perf := (case cb_perf b of None \<Rightarrow> iv_perf iv
                    | Some (k, vs) \<Rightarrow> purge now v (iv_perf iv @ [\<lparr>sm_device = v, sm_key = k, sm_values = vs, sm_at = now\<rparr>]))\<rparr>"

section \<open>Alert and audit\<close>

text \<open>The alert of the main disk when it leaves the normal range: \<open>Some True\<close> when critical.\<close>

definition disk_alert :: "rat \<Rightarrow> rat \<Rightarrow> rat option \<Rightarrow> rat option \<Rightarrow> bool option" where
  "disk_alert warn crit before after =
     (case after of
        None \<Rightarrow> None
      | Some n \<Rightarrow>
          if (case before of None \<Rightarrow> True | Some p \<Rightarrow> p < warn) \<and> (crit \<le> n \<or> warn \<le> n) then Some (crit \<le> n) else None)"

definition same_serial :: "jsstring \<Rightarrow> jsstring \<Rightarrow> bool" where
  "same_serial s t \<longleftrightarrow> js_lower (js_trim s) = js_lower (js_trim t)"

definition checkin_events :: "jsstring \<Rightarrow> ci_body \<Rightarrow> pc option \<Rightarrow> jsstring list" where
  "checkin_events host b prev =
     (case prev of
        None \<Rightarrow> [''enrolled'']
      | Some p \<Rightarrow>
          (if pc_hostname p \<noteq> host then [''hostname_changed''] else []) @
          (if truthy (cb_serial b) \<and> truthy (pc_serial p) \<and> \<not> same_serial (the (cb_serial b)) (the (pc_serial p))
           then [''serial_mismatch''] else []) @
          (if truthy (cb_version b) \<and> pc_version p \<noteq> cb_version b then [''agent_version_changed''] else [])) @
     (if ipNetbirdReject (cb_ip b) then [''ip_netbird_rejected''] else [])"

definition audit_checkin :: "jsstring \<Rightarrow> uuid \<Rightarrow> jsstring list \<Rightarrow> adb \<Rightarrow> adb" where
  "audit_checkin host v es a =
     (if es = [] then a
      else audit (Agent_checkin host v (''serial_mismatch'' \<in> set es \<or> ''ip_netbird_rejected'' \<in> set es) es) a)"

section \<open>A check-in\<close>

record ci_done =
  cd_device :: uuid
  cd_new :: bool
  cd_revoked :: "uuid list"
  cd_alert :: "bool option"
  cd_prev :: "pc option"

text \<open>
  \<open>mid\<close> is what other requests do between the identification and the claim, the claim and the
  inventory, the inventory and the last write of the token.
\<close>

definition checkinAgent ::
    "(jsstring \<Rightarrow> jsstring) \<Rightarrow> (nat \<Rightarrow> adb \<Rightarrow> adb) \<Rightarrow> rat \<Rightarrow> rat \<Rightarrow> time \<Rightarrow> jsstring option \<Rightarrow> ci_body \<Rightarrow>
      adb \<times> inv \<Rightarrow> (ci_error + ci_done) \<times> adb \<times> inv" where
  "checkinAgent hash mid warn crit now auth b s =
     (case s of (a, iv) \<Rightarrow>
       (case identify hash now auth (cb_hostname b) (cb_serial b) a of
          Inl e \<Rightarrow> (Inl e, a, iv)
        | Inr (t, host, found) \<Rightarrow>
            (case claimPc now t host (cb_serial b) found (mid 0 a) of
               (Inl e, a1) \<Rightarrow> (Inl e, a1, iv)
             | (Inr revoked, a1) \<Rightarrow>
                 (case upsertPc now host b (map_option pc_id found) (mid 1 a1) of
                    None \<Rightarrow> (Inl Ci_internal, mid 1 a1, iv)
                  | Some (v, a2) \<Rightarrow>
                      let a3 = touchToken now v (tk_id t) (mid 2 a2);
                          a4 = audit_checkin host v (checkin_events host b found) a3
                      in (Inr \<lparr>cd_device = v, cd_new = (found = None), cd_revoked = revoked,
                               cd_alert = disk_alert warn crit (Option.bind found pc_disk_pct) (disk_pct b), cd_prev = found\<rparr>,
                          a4, inventory now v b iv)))))"

section \<open>Installation log and local password\<close>

text \<open>\<open>POST /setup-log\<close>, without authentication: what is stored is bounded.\<close>

definition setupLog ::
    "(rat \<Rightarrow> jsstring) \<Rightarrow> (json \<Rightarrow> code_points) \<Rightarrow> json option \<Rightarrow> json option \<Rightarrow> json option \<Rightarrow> json option \<Rightarrow> adb \<Rightarrow> bool \<times> adb" where
  "setupLog num_str text hostname script level logged a =
     (let falsy = (\<lambda>v. v \<in> {None, Some JNull, Some (JStr []), Some (JNum 0), Some (JBool False)});
          lvl = (case level of None \<Rightarrow> Some (JStr ''info'') | _ \<Rightarrow> level) in
      if falsy hostname \<or> falsy logged then (False, a)
      else if script = Some (JStr ''checkin'') \<and> (falsy lvl \<or> lvl = Some (JStr ''info'')) then (True, a)
      else (True,
            audit (Setup_script (clipStr num_str hostname 255)
                     (let s = clipStr num_str script 100 in if truthy s then the s else ''unknown'')
                     (let s = clipStr num_str lvl 16 in if truthy s then the s else ''info'')
                     (truncateMiddle (text (the logged)) (8 * 1024))) a))"

datatype laps_error = Laps_unauthorized | Laps_fields_required | Laps_invalid | Laps_bad_size | Laps_no_device

definition escrowPassword ::
    "(jsstring \<Rightarrow> jsstring) \<Rightarrow> time \<Rightarrow> jsstring option \<Rightarrow> jsstring option \<Rightarrow> jsstring option \<Rightarrow>
      adb \<times> inv \<Rightarrow> (laps_error + unit) \<times> adb \<times> inv" where
  "escrowPassword hash now auth username encrypted s =
     (case s of (a, iv) \<Rightarrow>
       (case authToken hash now auth a of
          None \<Rightarrow> (Inl Laps_unauthorized, a, iv)
        | Some t \<Rightarrow>
            if \<not> truthy username \<or> \<not> truthy encrypted then (Inl Laps_fields_required, a, iv)
            else if 5000 < length (the encrypted) then (Inl Laps_invalid, a, iv)
            else
              let buf = b64_dec (the encrypted) in
              if length buf < 200 \<or> 1024 < length buf then (Inl Laps_bad_size, a, iv)
              else
                (case tk_device t of
                   None \<Rightarrow> (Inl Laps_no_device, a, iv)
                 | Some v \<Rightarrow>
                     let row = \<lparr>cr_device = v, cr_username = the username, cr_password = buf, cr_changed_at = now, cr_rotation_at = None\<rparr>;
                         mine = (\<lambda>c. cr_device c = v)
                     in (Inr (), audit (Laps_rotated v (the username)) a,
                         iv\<lparr>iv_creds := (if list_ex mine (iv_creds iv) then update_rows mine (\<lambda>c. row) (iv_creds iv)
                                         else iv_creds iv @ [row])\<rparr>))))"

end
