(* ===== verification/TokenSafety.thy ===== *)
theory TokenSafety imports Inventory begin

text \<open>
  What the credentials of the Windows agents guarantee along any run of the requests of
  \<open>AgentTokens\<close> and \<open>Inventory\<close>, each taken as a whole: the tokens that open one machine all
  descend, by rotation, from one token given to it; a bootstrap is redeemed no more than its quota.
  Where two requests interleave, a concrete run shows what is lost.
\<close>

section \<open>Histories\<close>

text \<open>The newest event first: a bootstrap gave a token, a token was replaced by another.\<close>

datatype tk_event = Issued uuid uuid | Rotated uuid uuid

fun root :: "tk_event list \<Rightarrow> uuid \<Rightarrow> uuid" where
  "root [] i = i"
| "root (Issued b n # h) i = root h i"
| "root (Rotated x n # h) i = (if i = n then root h x else root h i)"

fun issued_by :: "uuid \<Rightarrow> tk_event \<Rightarrow> bool" where
  "issued_by b (Issued c n) \<longleftrightarrow> c = b"
| "issued_by b (Rotated x n) \<longleftrightarrow> False"

text \<open>
  One request, or one write of another part of the server: the script that inserts a bootstrap, the
  deletion of a machine (its tokens go with it), the conversion of a machine to Linux and other
  revocations, the synchronisation of the machines.
\<close>

inductive tk_step :: "(jsstring \<Rightarrow> jsstring) \<Rightarrow> (time \<Rightarrow> jsstring) \<Rightarrow> time \<Rightarrow> adb \<Rightarrow> tk_event list \<Rightarrow> adb \<Rightarrow> bool"
  for hash day now where
  ts_exchange: "exchangeToken hash day now fresh auth host ser a = (Inr x, a') \<Longrightarrow> bearer auth = Some plain \<Longrightarrow>
     find (redeemable now (hash plain)) (ad_tokens a) = Some bs \<Longrightarrow> tk_step hash day now a [Issued (tk_id bs) (xc_id x)] a'"
| ts_refused: "exchangeToken hash day now fresh auth host ser a = (Inl e, a') \<Longrightarrow> tk_step hash day now a [] a'"
| ts_rotate: "authToken hash now auth a = Some t \<Longrightarrow> rotateToken hash id now fresh auth a = (Inr (i, e), a') \<Longrightarrow>
     tk_step hash day now a [Rotated (tk_id t) i] a'"
| ts_rotate_failed: "rotateToken hash id now fresh auth a = (Inl e, a') \<Longrightarrow> tk_step hash day now a [] a'"
| ts_checkin: "checkinAgent hash (\<lambda>k. id) warn crit now auth b (a, iv) = (r, a', iv') \<Longrightarrow> tk_step hash day now a [] a'"
| ts_create: "createToken hash fresh who lab a = (r, a') \<Longrightarrow> tk_step hash day now a [] a'"
| ts_revoke: "revokeToken now who i a = (r, a') \<Longrightarrow> tk_step hash day now a [] a'"
| ts_bootstrap: "tk_id t = ad_next a \<Longrightarrow> tk_bootstrap t \<Longrightarrow> ac_redeemed t = 0 \<Longrightarrow>
     tk_step hash day now a [] (a\<lparr>ad_tokens := ad_tokens a @ [t], ad_next := ad_next a + 1\<rparr>)"
| ts_delete: "tk_step hash day now a [] (a\<lparr>ad_pcs := filter (\<lambda>p. pc_id p \<noteq> v) (ad_pcs a),
     ad_tokens := filter (\<lambda>t. tk_device t \<noteq> Some v) (ad_tokens a)\<rparr>)"
| ts_revoke_where: "revoke_where P now a = (ids, a') \<Longrightarrow> tk_step hash day now a [] a'"
| ts_machines: "ad_next a \<le> n \<Longrightarrow> (\<And>p. p \<in> set ps \<Longrightarrow> pc_id p < n) \<Longrightarrow>
     tk_step hash day now a [] (a\<lparr>ad_pcs := ps, ad_next := n\<rparr>)"

inductive tk_runs :: "(jsstring \<Rightarrow> jsstring) \<Rightarrow> (time \<Rightarrow> jsstring) \<Rightarrow> adb \<Rightarrow> tk_event list \<Rightarrow> time \<Rightarrow> adb \<Rightarrow> bool"
  for hash day a0 where
  tr_start: "tk_runs hash day a0 [] now a0"
| tr_step: "tk_runs hash day a0 h now a \<Longrightarrow> now \<le> later \<Longrightarrow> tk_step hash day later a es a' \<Longrightarrow>
     tk_runs hash day a0 (es @ h) later a'"

section \<open>The invariant\<close>

text \<open>A token that opens the machine.\<close>

definition opens :: "time \<Rightarrow> uuid \<Rightarrow> cred \<Rightarrow> bool" where
  "opens now v t \<longleftrightarrow> tk_device t = Some v \<and> \<not> tk_bootstrap t \<and> live now t"

definition one_chain :: "tk_event list \<Rightarrow> time \<Rightarrow> cred list \<Rightarrow> bool" where
  "one_chain h now ts \<longleftrightarrow>
     (\<forall>v. \<forall>t \<in> set ts. \<forall>t' \<in> set ts. opens now v t \<longrightarrow> opens now v t' \<longrightarrow> root h (tk_id t) = root h (tk_id t'))"

definition known_event :: "uuid \<Rightarrow> tk_event \<Rightarrow> bool" where
  "known_event n e \<longleftrightarrow> (case e of Issued b i \<Rightarrow> b < n \<and> i < n | Rotated x i \<Rightarrow> x < n \<and> i < n)"

definition known_ids :: "tk_event list \<Rightarrow> adb \<Rightarrow> bool" where
  "known_ids h a \<longleftrightarrow>
     distinct (map tk_id (ad_tokens a)) \<and> (\<forall>t \<in> set (ad_tokens a). tk_id t < ad_next a) \<and>
     (\<forall>t \<in> set (ad_tokens a). \<forall>v. \<not> tk_bootstrap t \<longrightarrow> tk_device t = Some v \<longrightarrow> v < ad_next a) \<and>
     (\<forall>p \<in> set (ad_pcs a). pc_id p < ad_next a) \<and> (\<forall>e \<in> set h. known_event (ad_next a) e)"

definition within_quota :: "tk_event list \<Rightarrow> cred list \<Rightarrow> bool" where
  "within_quota h ts \<longleftrightarrow>
     (\<forall>t \<in> set ts. tk_bootstrap t \<longrightarrow>
        ac_redeemed t = length (filter (issued_by (tk_id t)) h) \<and>
        (\<forall>n. ac_max t = Some n \<longrightarrow> ac_redeemed t \<le> nat n))"

definition tk_ok :: "tk_event list \<Rightarrow> time \<Rightarrow> adb \<Rightarrow> bool" where
  "tk_ok h now a \<longleftrightarrow> known_ids h a \<and> one_chain h now (ad_tokens a) \<and> within_quota h (ad_tokens a)"

lemmas tk_ok_defs = tk_ok_def known_ids_def one_chain_def within_quota_def

lemma root_new: "\<forall>e \<in> set h. known_event n e \<Longrightarrow> n \<le> i \<Longrightarrow> root h i = i"
  by (induction h rule: list.induct) (auto simp: known_event_def split: tk_event.splits elim: root.elims)

lemma known_event_mono: "known_event n e \<Longrightarrow> n \<le> m \<Longrightarrow> known_event m e"
  by (auto simp: known_event_def split: tk_event.splits)

lemma live_earlier: "live later t \<Longrightarrow> now \<le> later \<Longrightarrow> live now t"
  by (auto simp: live_def split: option.splits)

lemma opens_earlier: "opens later v t \<Longrightarrow> now \<le> later \<Longrightarrow> opens now v t"
  by (auto simp: opens_def live_earlier)

text \<open>The two ways a chain is kept: each opener comes from one, or the machine has a single one.\<close>

lemma chain_from:
  assumes "one_chain h now ts"
    and "\<And>t' w. t' \<in> set ts' \<Longrightarrow> opens later w t' \<Longrightarrow> \<exists>t \<in> set ts. opens now w t \<and> root h' (tk_id t') = root h (tk_id t)"
  shows "one_chain h' later ts'"
  using assms unfolding one_chain_def by metis

lemma chain_alone:
  assumes "one_chain h now ts"
    and "\<And>t' w. t' \<in> set ts' \<Longrightarrow> opens now w t' \<Longrightarrow> w \<noteq> v \<Longrightarrow> \<exists>t \<in> set ts. opens now w t \<and> root h' (tk_id t') = root h (tk_id t)"
    and "\<And>t'. t' \<in> set ts' \<Longrightarrow> opens now v t' \<Longrightarrow> tk_id t' = i"
  shows "one_chain h' now ts'"
  using assms unfolding one_chain_def by metis

lemma tk_ok_later: "tk_ok h now a \<Longrightarrow> now \<le> later \<Longrightarrow> tk_ok h later a"
  unfolding tk_ok_def using chain_from [of h now "ad_tokens a" "ad_tokens a" later h] opens_earlier by blast

section \<open>Reading the claim\<close>

lemma truncate_token [simp]:
  "tk_id (agent_token.truncate t) = tk_id t" "tk_device (agent_token.truncate t) = tk_device t"
  "tk_bootstrap (agent_token.truncate t) = tk_bootstrap t" "tk_revoked_at (agent_token.truncate t) = tk_revoked_at t"
  "tk_expires_at (agent_token.truncate t) = tk_expires_at t" "tk_last_used_at (agent_token.truncate t) = tk_last_used_at t"
  "tk_created_by (agent_token.truncate t) = tk_created_by t"
  by (simp_all add: agent_token.truncate_def)

lemma claim_free:
  assumes "checkDeviceClaim now (claim_base a) (claim_view p) ser excl = None" "t \<in> set (ad_tokens a)" "opens now (pc_id p) t"
    and "excl \<noteq> Some (tk_id t)"
  shows "unused (pc_id p) t"
proof (rule ccontr)
  assume used: "\<not> unused (pc_id p) t"
  have "find (active_token now (pc_id p) excl) (map agent_token.truncate (ad_tokens a)) = None"
    using assms(1) by (auto simp: checkDeviceClaim_def claim_base_def claim_view_def Let_def split: if_splits option.splits)
  then have "\<not> active_token now (pc_id p) excl (agent_token.truncate t)"
    by (rule find_NoneD) (use assms(2) in simp)
  with used assms(3,4) show False
    by (auto simp: active_token_def unused_def opens_def live_def split: option.splits)
qed

lemma authToken_Some: "authToken hash now auth a = Some t \<Longrightarrow> t \<in> set (ad_tokens a) \<and> \<not> tk_bootstrap t \<and> live now t"
  by (auto simp: authToken_def dest: find_SomeD split: option.splits)

section \<open>Every request keeps it\<close>

lemma tk_ok_audit [simp]: "tk_ok h now (audit e a) = tk_ok h now a"
  by (simp add: tk_ok_def known_ids_def audit_def)

lemma tk_ok_pcs:
  assumes "tk_ok h now a" "ad_next a \<le> n" "\<And>p. p \<in> set ps \<Longrightarrow> pc_id p < n"
  shows "tk_ok h now (a\<lparr>ad_pcs := ps, ad_next := n\<rparr>)"
  using assms by (fastforce simp: tk_ok_def known_ids_def split: option.splits intro: known_event_mono)

lemma tk_ok_new_pcs:
  assumes "tk_ok h now a" "\<And>p. p \<in> set ps \<Longrightarrow> pc_id p < ad_next a" shows "tk_ok h now (a\<lparr>ad_pcs := ps\<rparr>)"
  using tk_ok_pcs [OF assms(1) order_refl, of ps] assms(2) by simp

lemma insert_pc_Some:
  "insert_pc mk a = Some (i, a') \<Longrightarrow> i = ad_next a \<and> a' = a\<lparr>ad_pcs := ad_pcs a @ [mk i], ad_next := ad_next a + 1\<rparr>"
  by (auto simp: insert_pc_def Let_def split: if_splits)

lemma tk_ok_insert_pc:
  assumes "tk_ok h now a" "insert_pc mk a = Some (i, a')" "\<And>j. pc_id (mk j) = j"
  shows "tk_ok h now a' \<and> i < ad_next a' \<and> ad_tokens a' = ad_tokens a \<and> (\<forall>t \<in> set (ad_tokens a). \<not> opens now i t)"
proof -
  note i = insert_pc_Some [OF assms(2)]
  have "tk_ok h now (a\<lparr>ad_pcs := ad_pcs a @ [mk i], ad_next := ad_next a + 1\<rparr>)"
    by (rule tk_ok_pcs [OF assms(1)]) (use assms(1,3) i in \<open>auto simp: tk_ok_def known_ids_def\<close>)
  moreover have "\<not> opens now i t" if "t \<in> set (ad_tokens a)" for t
    using that assms(1) i by (auto simp: tk_ok_def known_ids_def opens_def)
  ultimately show ?thesis using i by simp
qed

text \<open>Rows changed in place: the identifiers stay, no token opens more than before.\<close>

lemma tk_ok_rows:
  assumes "tk_ok h now a" "\<And>t. tk_id (f t) = tk_id t \<and> tk_bootstrap (f t) = tk_bootstrap t \<and> ac_redeemed (f t) = ac_redeemed t \<and> ac_max (f t) = ac_max t"
    and "\<And>t v. \<lbrakk>t \<in> set (ad_tokens a); P t; \<not> tk_bootstrap t; tk_device (f t) = Some v\<rbrakk> \<Longrightarrow> v < ad_next a"
    and "one_chain h now (update_rows P f (ad_tokens a))"
  shows "tk_ok h now (a\<lparr>ad_tokens := update_rows P f (ad_tokens a)\<rparr>)"
proof -
  have "known_ids h (a\<lparr>ad_tokens := update_rows P f (ad_tokens a)\<rparr>)"
    using assms(1-3) by (auto simp: tk_ok_def known_ids_def in_update_rows split: if_splits)
  moreover have "within_quota h (update_rows P f (ad_tokens a))"
    unfolding within_quota_def
  proof (intro ballI)
    fix t' assume "t' \<in> set (update_rows P f (ad_tokens a))"
    then obtain r where r: "r \<in> set (ad_tokens a)" "t' = (if P r then f r else r)" by (rule update_rowsE)
    then have "tk_id t' = tk_id r \<and> tk_bootstrap t' = tk_bootstrap r \<and> ac_redeemed t' = ac_redeemed r \<and> ac_max t' = ac_max r"
      using assms(2) [of r] by simp
    with r(1) assms(1) show "tk_bootstrap t' \<longrightarrow> ac_redeemed t' = length (filter (issued_by (tk_id t')) h) \<and>
        (\<forall>n. ac_max t' = Some n \<longrightarrow> ac_redeemed t' \<le> nat n)"
      by (auto simp: tk_ok_def within_quota_def)
  qed
  ultimately show ?thesis using assms(4) by (simp add: tk_ok_def)
qed

lemma revoked_opens: "opens now v (t\<lparr>tk_revoked_at := Some x\<rparr>) = False"
  by (simp add: opens_def live_def)

lemma tk_ok_revoke_where:
  assumes "tk_ok h now a" "revoke_where P now a = (ids, a')" shows "tk_ok h now a'"
proof -
  have a': "a' = a\<lparr>ad_tokens := update_rows P (\<lambda>t. t\<lparr>tk_revoked_at := Some now\<rparr>) (ad_tokens a)\<rparr>"
    using assms(2) by (simp add: revoke_where_def)
  have ch: "one_chain h now (ad_tokens a)" using assms(1) by (simp add: tk_ok_def)
  show ?thesis unfolding a'
  proof (rule tk_ok_rows [OF assms(1)])
    show "one_chain h now (update_rows P (\<lambda>t. t\<lparr>tk_revoked_at := Some now\<rparr>) (ad_tokens a))"
      by (rule chain_from [OF ch]) (auto simp: in_update_rows revoked_opens split: if_splits)
  qed (use assms(1) in \<open>auto simp: tk_ok_def known_ids_def\<close>)
qed

lemma insert_token_Some:
  "insert_token dev hh lab who a = Some (i, a') \<Longrightarrow>
     i = ad_next a \<and> a' = a\<lparr>ad_tokens := ad_tokens a @ [new_cred i dev hh lab who], ad_next := ad_next a + 1\<rparr>"
  by (auto simp: insert_token_def split: if_splits)

lemma new_cred_simps [simp]:
  "tk_id (new_cred i dev hh lab who) = i" "tk_device (new_cred i dev hh lab who) = dev" "\<not> tk_bootstrap (new_cred i dev hh lab who)"
  "live now (new_cred i dev hh lab who)"
  by (simp_all add: new_cred_def live_def)

text \<open>A token with no machine joins no chain.\<close>

lemma tk_ok_unbound:
  assumes "tk_ok h now a" "tk_id t = ad_next a" "tk_bootstrap t \<or> tk_device t = None" "tk_bootstrap t \<Longrightarrow> ac_redeemed t = 0"
  shows "tk_ok h now (a\<lparr>ad_tokens := ad_tokens a @ [t], ad_next := ad_next a + 1\<rparr>)"
proof -
  have ch: "one_chain h now (ad_tokens a)" and ids: "known_ids h a" and q: "within_quota h (ad_tokens a)"
    using assms(1) by (auto simp: tk_ok_def)
  have "one_chain h now (ad_tokens a @ [t])"
    by (rule chain_from [OF ch]) (use assms(3) in \<open>auto simp: opens_def\<close>)
  moreover have "known_ids h (a\<lparr>ad_tokens := ad_tokens a @ [t], ad_next := ad_next a + 1\<rparr>)"
    using ids assms(2,3) by (fastforce simp: known_ids_def split: option.splits intro: known_event_mono)
  moreover have "filter (issued_by (ad_next a)) h = []"
  proof -
    have "\<not> issued_by (ad_next a) e" if "e \<in> set h" for e
      using ids that by (cases e) (auto simp: known_ids_def known_event_def)
    then show ?thesis by simp
  qed
  ultimately show ?thesis using q assms(2,4) by (auto simp: tk_ok_def within_quota_def split: option.splits)
qed

section \<open>Exchange\<close>

lemma filter_issued_new:
  assumes "known_ids h a" "ad_next a \<le> i" shows "root h i = i"
  using assms root_new [of h "ad_next a" i] by (auto simp: known_ids_def)

text \<open>A machine that no token opens is given one; the bootstrap counts it.\<close>

lemma tk_ok_redeem:
  assumes ok: "tk_ok h now a" and bs: "bs \<in> set (ad_tokens a)" "redeemable now hh bs"
    and free: "\<And>t. t \<in> set (ad_tokens a) \<Longrightarrow> \<not> opens now v t" and v: "v < ad_next a"
    and r: "redeem now g lab v bs a = Some (i, a')"
  shows "tk_ok (Issued (tk_id bs) i # h) now a'"
proof -
  define new where "new = new_cred i (Some v) g (Some lab) (Some (''bootstrap:'' @ or_else (ac_label bs) ''null''))"
  define count :: "cred \<Rightarrow> cred" where "count = (\<lambda>t. t\<lparr>ac_redeemed := ac_redeemed t + 1, ac_redeemed_at := Some now\<rparr>)"
  have i: "i = ad_next a"
    and a': "a' = a\<lparr>ad_tokens := update_rows (\<lambda>t. tk_id t = tk_id bs) count (ad_tokens a @ [new]), ad_next := ad_next a + 1\<rparr>"
    using r by (auto simp: redeem_def new_def count_def dest!: insert_token_Some split: option.splits)
  have origin: "\<exists>t \<in> set (ad_tokens a @ [new]). t' = (if tk_id t = tk_id bs then count t else t)" if "t' \<in> set (ad_tokens a')" for t'
  proof -
    from that have "t' \<in> set (update_rows (\<lambda>t. tk_id t = tk_id bs) count (ad_tokens a @ [new]))" by (simp add: a')
    then show ?thesis unfolding in_update_rows .
  qed
  have ids: "known_ids h a" and ch: "one_chain h now (ad_tokens a)" and q: "within_quota h (ad_tokens a)"
    using ok by (auto simp: tk_ok_def)
  have new [simp]: "tk_id new = i" "tk_device new = Some v" "\<not> tk_bootstrap new" by (simp_all add: new_def)
  have count [simp]: "opens now w (count t) = opens now w t" "tk_id (count t) = tk_id t" "tk_device (count t) = tk_device t"
      "tk_bootstrap (count t) = tk_bootstrap t" "ac_redeemed (count t) = ac_redeemed t + 1" "ac_max (count t) = ac_max t" for w t
    by (simp_all add: count_def opens_def live_def)
  have below: "tk_id t < i" if "t \<in> set (ad_tokens a)" for t using that ids i by (auto simp: known_ids_def)
  have same: "t = bs" if "t \<in> set (ad_tokens a)" "tk_id t = tk_id bs" for t
    using that bs(1) ids distinct_map_eqD by (fastforce simp: known_ids_def)
  have other: "i \<noteq> tk_id bs" using below [OF bs(1)] by simp
  have known: "known_ids (Issued (tk_id bs) i # h) a'"
  proof -
    have "map tk_id (ad_tokens a') = map tk_id (ad_tokens a) @ [i]"
      using other by (simp add: a' update_rows_def)
    then have "distinct (map tk_id (ad_tokens a'))" using ids below by (auto simp: known_ids_def)
    moreover have "tk_id t' < ad_next a' \<and> (\<forall>w. \<not> tk_bootstrap t' \<longrightarrow> tk_device t' = Some w \<longrightarrow> w < ad_next a')" if "t' \<in> set (ad_tokens a')" for t'
    proof -
      from origin [OF that] obtain t where tin: "t \<in> set (ad_tokens a @ [new])" and t': "t' = (if tk_id t = tk_id bs then count t else t)" by blast
      from tin have t: "t = new \<or> t \<in> set (ad_tokens a)" by auto
      from t' have f: "tk_id t' = tk_id t" "tk_bootstrap t' = tk_bootstrap t" "tk_device t' = tk_device t" by simp_all
      have "tk_id t < ad_next a + 1 \<and> (\<forall>w. \<not> tk_bootstrap t \<longrightarrow> tk_device t = Some w \<longrightarrow> w < ad_next a + 1)"
      proof (cases "t = new")
        case True with v i show ?thesis by simp
      next
        case False with t ids show ?thesis by (simp add: known_ids_def less_SucI)
      qed
      with f show ?thesis by (simp add: a')
    qed
    moreover have "\<forall>e \<in> set (Issued (tk_id bs) i # h). known_event (ad_next a') e"
      using ids below [OF bs(1)] i by (auto simp: known_ids_def a' known_event_def split: tk_event.splits)
    ultimately show ?thesis using ids by (auto simp: known_ids_def a' less_SucI)
  qed
  have chain: "one_chain (Issued (tk_id bs) i # h) now (ad_tokens a')"
  proof (rule chain_alone [OF ch, where v = v and i = i])
    fix t' w assume t': "t' \<in> set (ad_tokens a')" "opens now w t'" "w \<noteq> v"
    from origin [OF t'(1)] obtain t where t: "t \<in> set (ad_tokens a @ [new])" "t' = (if tk_id t = tk_id bs then count t else t)" by blast
    then have "opens now w t" "tk_id t' = tk_id t" using t'(2) by (simp_all split: if_splits)
    moreover from this(1) t'(3) have "t \<noteq> new" by (auto simp: opens_def)
    ultimately have "\<exists>t \<in> set (ad_tokens a). opens now w t \<and> tk_id t' = tk_id t" using t(1) by auto
    then show "\<exists>t \<in> set (ad_tokens a). opens now w t \<and> root (Issued (tk_id bs) i # h) (tk_id t') = root h (tk_id t)" by auto
  next
    fix t' assume t': "t' \<in> set (ad_tokens a')" "opens now v t'"
    with origin [OF t'(1)] free other show "tk_id t' = i" by (auto split: if_splits)
  qed
  have quota: "within_quota (Issued (tk_id bs) i # h) (ad_tokens a')"
    unfolding within_quota_def
  proof (intro ballI impI)
    fix t' assume t': "t' \<in> set (ad_tokens a')" "tk_bootstrap t'"
    from origin [OF this(1)] obtain t where "t \<in> set (ad_tokens a @ [new])" and t: "t' = (if tk_id t = tk_id bs then count t else t)" by blast
    with t'(2) have tin: "t \<in> set (ad_tokens a)" by (auto split: if_splits)
    with q t t'(2) have qt: "ac_redeemed t = length (filter (issued_by (tk_id t)) h)" "\<And>n. ac_max t = Some n \<Longrightarrow> ac_redeemed t \<le> nat n"
      by (auto simp: within_quota_def split: if_splits)
    show "ac_redeemed t' = length (filter (issued_by (tk_id t')) (Issued (tk_id bs) i # h)) \<and> (\<forall>n. ac_max t' = Some n \<longrightarrow> ac_redeemed t' \<le> nat n)"
    proof (cases "tk_id t = tk_id bs")
      case True
      with same [OF tin] bs(2) have "\<And>n. ac_max t = Some n \<Longrightarrow> int (ac_redeemed t) < n" by (auto simp: redeemable_def)
      with True t qt show ?thesis by fastforce
    next
      case False with t qt show ?thesis by simp
    qed
  qed
  from known chain quota show ?thesis by (simp add: tk_ok_def)
qed

lemma exchange_keeps:
  assumes ok: "tk_ok h now a" and x: "exchangeToken hash day now fresh auth host ser a = (Inr x, a')"
    and p: "bearer auth = Some plain" and bs: "find (redeemable now (hash plain)) (ad_tokens a) = Some bs"
  shows "tk_ok (Issued (tk_id bs) (xc_id x) # h) now a'"
proof -
  have b: "bs \<in> set (ad_tokens a)" "redeemable now (hash plain) bs" using find_SomeD [OF bs] by auto
  from x p bs obtain hn where hn: "trimmed host = Some hn" by (auto simp: exchangeToken_def split: option.splits)
  let ?lab = "''auto-'' @ hn @ ''-'' @ day now"
  show ?thesis
  proof (cases "find (\<lambda>q. pc_hostname q = hn) (ad_pcs a)")
    case None
    with x p bs hn obtain v a1 a2 where ins: "insert_pc (\<lambda>i. (blank_pc i hn (trimmed ser))\<lparr>pc_last_seen := Some now\<rparr>) a = Some (v, a1)"
      and r: "redeem now (hash fresh) ?lab v bs a1 = Some (xc_id x, a2)" and a': "\<And>g. tk_ok g now a' = tk_ok g now a2"
      by (auto simp: exchangeToken_def Let_def split: option.splits prod.splits)
    have "tk_ok h now a1 \<and> v < ad_next a1 \<and> ad_tokens a1 = ad_tokens a \<and> (\<forall>t \<in> set (ad_tokens a). \<not> opens now v t)"
      by (rule tk_ok_insert_pc [OF ok ins]) (simp add: blank_pc_def)
    then have "tk_ok (Issued (tk_id bs) (xc_id x) # h) now a2" using b by (intro tk_ok_redeem [OF _ _ _ _ _ r]) auto
    with a' show ?thesis by simp
  next
    case (Some q)
    with x p bs hn obtain revoked a1 a2 where free: "checkDeviceClaim now (claim_base a) (claim_view q) (trimmed ser) None = None"
      and rv: "revoke_where (unused (pc_id q)) now a = (revoked, a1)"
      and r: "redeem now (hash fresh) ?lab (pc_id q) bs a1 = Some (xc_id x, a2)" and a': "\<And>g. tk_ok g now a' = tk_ok g now a2"
      by (auto simp: exchangeToken_def Let_def split: option.splits prod.splits)
    have a1: "a1 = a\<lparr>ad_tokens := update_rows (unused (pc_id q)) (\<lambda>t. t\<lparr>tk_revoked_at := Some now\<rparr>) (ad_tokens a)\<rparr>"
      using rv by (simp add: revoke_where_def)
    have "bs \<in> set (ad_tokens a1)" using b by (auto simp: a1 unused_def redeemable_def intro: update_rows_keep)
    moreover have "\<not> opens now (pc_id q) t" if "t \<in> set (ad_tokens a1)" for t
    proof
      assume o: "opens now (pc_id q) t"
      from that obtain u where u: "u \<in> set (ad_tokens a)" "t = (if unused (pc_id q) u then u\<lparr>tk_revoked_at := Some now\<rparr> else u)"
        unfolding a1 by (auto elim: update_rowsE)
      with o revoked_opens have "\<not> unused (pc_id q) u" "opens now (pc_id q) u" by (auto split: if_splits)
      with claim_free [OF free u(1)] show False by simp
    qed
    moreover have "pc_id q < ad_next a1" using ok find_SomeD [OF Some] by (auto simp: a1 tk_ok_def known_ids_def)
    ultimately have "tk_ok (Issued (tk_id bs) (xc_id x) # h) now a2"
      using tk_ok_redeem [OF tk_ok_revoke_where [OF ok rv] _ b(2) _ _ r] by blast
    with a' show ?thesis by simp
  qed
qed

lemma exchange_refused_keeps:
  assumes "tk_ok h now a" "exchangeToken hash day now fresh auth host ser a = (Inl e, a')" shows "tk_ok h now a'"
  using assms by (auto simp: exchangeToken_def Let_def split: option.splits prod.splits)

section \<open>Rotation\<close>

lemma rotate_keeps:
  assumes ok: "tk_ok h now a" and auth: "authToken hash now auth a = Some t"
    and r: "rotateToken hash id now fresh auth a = (Inr (i, e), a')"
  shows "tk_ok (Rotated (tk_id t) i # h) now a'"
proof -
  define new where "new = new_cred i (tk_device t) (hash fresh)
    (Some ((if truthy (ac_label t) then the (ac_label t) else ''agent'') @ '' (rotated)'')) (Some ''agent-rotation'')"
  define fade :: "cred \<Rightarrow> cred" where "fade = (\<lambda>x. x\<lparr>tk_expires_at := Some (now + GRACE), ac_replaced_by := Some i\<rparr>)"
  have t: "t \<in> set (ad_tokens a)" "\<not> tk_bootstrap t" "live now t" using authToken_Some [OF auth] by auto
  have i: "i = ad_next a"
    and toks: "ad_tokens a' = update_rows (\<lambda>x. tk_id x = tk_id t) fade (ad_tokens a @ [new])"
    and rest: "ad_pcs a' = ad_pcs a" "ad_next a' = ad_next a + 1"
    using r auth by (auto simp: rotateToken_def rotateCommit_def audit_def new_def fade_def dest!: insert_token_Some split: option.splits if_splits)
  have new [simp]: "tk_id new = i" "tk_device new = tk_device t" "\<not> tk_bootstrap new" by (simp_all add: new_def)
  have fade [simp]: "tk_id (fade x) = tk_id x" "tk_device (fade x) = tk_device x" "tk_bootstrap (fade x) = tk_bootstrap x"
      "ac_redeemed (fade x) = ac_redeemed x" "ac_max (fade x) = ac_max x" for x
    by (simp_all add: fade_def)
  have ids: "known_ids h a" and ch: "one_chain h now (ad_tokens a)" and q: "within_quota h (ad_tokens a)"
    using ok by (auto simp: tk_ok_def)
  have below: "tk_id x < i" if "x \<in> set (ad_tokens a)" for x using that ids i by (auto simp: known_ids_def)
  have same: "x = t" if "x \<in> set (ad_tokens a)" "tk_id x = tk_id t" for x
    using that t(1) ids distinct_map_eqD by (fastforce simp: known_ids_def)
  have origin: "\<exists>u. (u = new \<or> u \<in> set (ad_tokens a)) \<and> t' = (if tk_id u = tk_id t then fade u else u)" if "t' \<in> set (ad_tokens a')" for t'
    using that unfolding toks in_update_rows by fastforce
  have known: "known_ids (Rotated (tk_id t) i # h) a'"
  proof -
    have "map tk_id (ad_tokens a') = map tk_id (ad_tokens a) @ [i]" by (simp add: toks update_rows_def)
    then have "distinct (map tk_id (ad_tokens a'))" using ids below by (auto simp: known_ids_def)
    moreover have "tk_id t' < ad_next a' \<and> (\<forall>w. \<not> tk_bootstrap t' \<longrightarrow> tk_device t' = Some w \<longrightarrow> w < ad_next a')" if t': "t' \<in> set (ad_tokens a')" for t'
    proof -
      from origin [OF t'] obtain u where u: "u = new \<or> u \<in> set (ad_tokens a)" "t' = (if tk_id u = tk_id t then fade u else u)" by blast
      then have f: "tk_id t' = tk_id u" "tk_bootstrap t' = tk_bootstrap u" "tk_device t' = tk_device u" by simp_all
      have "tk_id u < ad_next a + 1 \<and> (\<forall>w. \<not> tk_bootstrap u \<longrightarrow> tk_device u = Some w \<longrightarrow> w < ad_next a + 1)"
        using u(1) ids i t(1,2) by (auto simp: known_ids_def less_SucI)
      with f rest show ?thesis by simp
    qed
    moreover have "\<forall>e \<in> set (Rotated (tk_id t) i # h). known_event (ad_next a') e"
      using ids below [OF t(1)] i by (auto simp: known_ids_def rest known_event_def split: tk_event.splits)
    ultimately show ?thesis using ids by (auto simp: known_ids_def rest less_SucI)
  qed
  have "one_chain (Rotated (tk_id t) i # h) now (ad_tokens a')"
  proof (rule chain_from [OF ch])
    fix t' w assume t': "t' \<in> set (ad_tokens a')" "opens now w t'"
    from origin [OF this(1)] obtain u where u: "u = new \<or> u \<in> set (ad_tokens a)" "t' = (if tk_id u = tk_id t then fade u else u)" by blast
    show "\<exists>x \<in> set (ad_tokens a). opens now w x \<and> root (Rotated (tk_id t) i # h) (tk_id t') = root h (tk_id x)"
    proof (cases "u = new")
      case True
      with u t' below [OF t(1)] have "opens now w t" using t by (auto simp: opens_def split: if_splits)
      with t True u(2) show ?thesis by (intro bexI [of _ t]) auto
    next
      case False
      with u(1) have ua: "u \<in> set (ad_tokens a)" by simp
      with u(2) t'(2) same [OF ua] t have "opens now w u" by (auto simp: opens_def split: if_splits)
      with ua u(2) below [OF ua] show ?thesis by (intro bexI [of _ u]) auto
    qed
  qed
  moreover have "within_quota (Rotated (tk_id t) i # h) (ad_tokens a')"
    unfolding within_quota_def
  proof (intro ballI impI)
    fix t' assume t': "t' \<in> set (ad_tokens a')" "tk_bootstrap t'"
    from origin [OF this(1)] obtain u where u: "u = new \<or> u \<in> set (ad_tokens a)" "t' = (if tk_id u = tk_id t then fade u else u)" by blast
    with t'(2) have ua: "u \<in> set (ad_tokens a)" "tk_bootstrap u" by (auto split: if_splits)
    from u(2) have "tk_id t' = tk_id u \<and> ac_redeemed t' = ac_redeemed u \<and> ac_max t' = ac_max u" by simp
    with ua q show "ac_redeemed t' = length (filter (issued_by (tk_id t')) (Rotated (tk_id t) i # h)) \<and> (\<forall>n. ac_max t' = Some n \<longrightarrow> ac_redeemed t' \<le> nat n)"
      by (auto simp: within_quota_def)
  qed
  ultimately show ?thesis using known by (simp add: tk_ok_def)
qed

lemma rotate_failed_keeps:
  assumes "tk_ok h now a" "rotateToken hash id now fresh auth a = (Inl e, a')" shows "tk_ok h now a'"
  using assms by (auto simp: rotateToken_def rotateCommit_def split: option.splits if_splits prod.splits)

section \<open>Check-in\<close>

lemma tk_ok_map:
  assumes ok: "tk_ok h now a"
    and f: "\<And>t. t \<in> set (ad_tokens a) \<Longrightarrow> tk_id (f t) = tk_id t \<and> tk_bootstrap (f t) = tk_bootstrap t \<and>
              ac_redeemed (f t) = ac_redeemed t \<and> ac_max (f t) = ac_max t"
    and "\<And>t v. \<lbrakk>t \<in> set (ad_tokens a); \<not> tk_bootstrap t; tk_device (f t) = Some v\<rbrakk> \<Longrightarrow> v < ad_next a"
    and "one_chain h now (map f (ad_tokens a))"
  shows "tk_ok h now (a\<lparr>ad_tokens := map f (ad_tokens a)\<rparr>)"
proof -
  have "map tk_id (map f (ad_tokens a)) = map tk_id (ad_tokens a)" using f by simp
  then have "known_ids h (a\<lparr>ad_tokens := map f (ad_tokens a)\<rparr>)"
    using ok f assms(3) by (auto simp: tk_ok_def known_ids_def simp del: map_map)
  moreover have "within_quota h (map f (ad_tokens a))" using ok f by (auto simp: tk_ok_def within_quota_def)
  ultimately show ?thesis using assms(4) by (simp add: tk_ok_def)
qed

text \<open>The last write of a check-in, by a token that opens the machine or when nothing else does.\<close>

lemma tk_ok_touch:
  assumes ok: "tk_ok h now a" and t: "t \<in> set (ad_tokens a)" "\<not> tk_bootstrap t" "live now t" and v: "v < ad_next a"
    and case_or: "opens now v t \<or> (\<forall>u \<in> set (ad_tokens a). \<not> opens now v u)"
  shows "tk_ok h now (touchToken now v (tk_id t) a)"
proof -
  define f :: "cred \<Rightarrow> cred" where "f = (\<lambda>x. if tk_id x = tk_id t then x\<lparr>tk_last_used_at := Some now, tk_device := Some v\<rparr> else x)"
  have shape: "touchToken now v (tk_id t) a = a\<lparr>ad_tokens := map f (ad_tokens a)\<rparr>"
    by (simp add: touchToken_def update_rows_def f_def)
  have ch: "one_chain h now (ad_tokens a)" and ids: "known_ids h a" using ok by (auto simp: tk_ok_def)
  have same: "x = t" if "x \<in> set (ad_tokens a)" "tk_id x = tk_id t" for x
    using that t(1) ids distinct_map_eqD by (fastforce simp: known_ids_def)
  have other: "opens now w x" if "x \<in> set (ad_tokens a)" "opens now w (f x)" "w \<noteq> v \<or> tk_id x \<noteq> tk_id t" for w x
    using that by (auto simp: f_def opens_def live_def split: if_splits)
  have "one_chain h now (map f (ad_tokens a))"
  proof (cases "opens now v t")
    case True
    show ?thesis
    proof (rule chain_from [OF ch])
      fix t' w assume "t' \<in> set (map f (ad_tokens a))" "opens now w t'"
      then obtain x where x: "x \<in> set (ad_tokens a)" "t' = f x" "opens now w (f x)" by auto
      with other [OF x(1,3)] same [OF x(1)] True have "opens now w x" by blast
      with x show "\<exists>u \<in> set (ad_tokens a). opens now w u \<and> root h (tk_id t') = root h (tk_id u)" by (auto simp: f_def)
    qed
  next
    case False
    with case_or have alone: "\<not> opens now v u" if "u \<in> set (ad_tokens a)" for u using that by blast
    show ?thesis
    proof (rule chain_alone [OF ch])
      fix t' w assume "t' \<in> set (map f (ad_tokens a))" "opens now w t'" "w \<noteq> v"
      then obtain x where x: "x \<in> set (ad_tokens a)" "t' = f x" "opens now w (f x)" "w \<noteq> v" by auto
      with other [OF x(1,3)] have "opens now w x" by blast
      with x show "\<exists>u \<in> set (ad_tokens a). opens now w u \<and> root h (tk_id t') = root h (tk_id u)" by (auto simp: f_def)
    next
      fix t' assume "t' \<in> set (map f (ad_tokens a))" "opens now v t'"
      then obtain x where x: "x \<in> set (ad_tokens a)" "t' = f x" "opens now v (f x)" by auto
      with other [OF x(1,3)] alone [OF x(1)] show "tk_id t' = tk_id t" by (auto simp: f_def)
    qed
  qed
  then show ?thesis unfolding shape
    by (intro tk_ok_map [OF ok]) (use ids v in \<open>auto simp: f_def known_ids_def split: if_splits\<close>)
qed

text \<open>A token attached to a known machine then opens it alone.\<close>

lemma bind_keeps:
  assumes ok: "tk_ok h now a" and t: "t \<in> set (ad_tokens a)" "\<not> tk_bootstrap t" "live now t" "tk_device t = None"
    and p: "p \<in> set (ad_pcs a)" and b: "bindToken now t host ser p a = (Inr revoked, a')"
  shows "tk_ok h now a' \<and> (\<exists>u \<in> set (ad_tokens a'). tk_id u = tk_id t \<and> opens now (pc_id p) u) \<and> ad_pcs a' = ad_pcs a \<and> ad_next a' = ad_next a"
proof -
  let ?v = "pc_id p"
  define q where "q = or_else (find (\<lambda>q. pc_id q = ?v) (ad_pcs a)) p"
  have q: "pc_id q = ?v"
    by (cases "find (\<lambda>q. pc_id q = ?v) (ad_pcs a)") (auto simp: q_def dest: find_SomeD)
  define f :: "cred \<Rightarrow> cred" where "f = (\<lambda>x. if bindable (tk_id t) ?v x then x\<lparr>tk_device := Some ?v, tk_last_used_at := Some now\<rparr> else x)"
  define g :: "cred \<Rightarrow> cred" where "g = (\<lambda>x. if unused ?v x \<and> tk_id x \<noteq> tk_id t then x\<lparr>tk_revoked_at := Some now\<rparr> else x)"
  from b have free: "checkDeviceClaim now (claim_base a) (claim_view q) ser (Some (tk_id t)) = None"
    and shape: "\<exists>e. a' = audit e (a\<lparr>ad_tokens := map (g \<circ> f) (ad_tokens a)\<rparr>)"
    by (auto simp: bindToken_def Let_def q_def f_def g_def revoke_where_def update_rows_def comp_def split: option.splits if_splits)
  have ch: "one_chain h now (ad_tokens a)" and ids: "known_ids h a" using ok by (auto simp: tk_ok_def)
  have same: "x = t" if "x \<in> set (ad_tokens a)" "tk_id x = tk_id t" for x
    using that t(1) ids distinct_map_eqD by (fastforce simp: known_ids_def)
  have fields: "tk_id (g (f x)) = tk_id x" "tk_bootstrap (g (f x)) = tk_bootstrap x" "ac_redeemed (g (f x)) = ac_redeemed x"
      "ac_max (g (f x)) = ac_max x" for x by (simp_all add: f_def g_def)
  have "one_chain h now (map (g \<circ> f) (ad_tokens a))"
  proof (rule chain_alone [OF ch])
    fix t' w assume "t' \<in> set (map (g \<circ> f) (ad_tokens a))" "opens now w t'" "w \<noteq> ?v"
    then obtain x where x: "x \<in> set (ad_tokens a)" "t' = g (f x)" "opens now w (g (f x))" "w \<noteq> ?v" by auto
    then have "opens now w x" by (auto simp: f_def g_def opens_def live_def split: if_splits)
    with x fields show "\<exists>u \<in> set (ad_tokens a). opens now w u \<and> root h (tk_id t') = root h (tk_id u)" by auto
  next
    fix t' assume "t' \<in> set (map (g \<circ> f) (ad_tokens a))" "opens now ?v t'"
    then obtain x where x: "x \<in> set (ad_tokens a)" "t' = g (f x)" "opens now ?v (g (f x))" by auto
    have "tk_id x = tk_id t"
    proof (rule ccontr)
      assume ne: "tk_id x \<noteq> tk_id t"
      then have fx: "f x = x" by (simp add: f_def bindable_def)
      with x(3) have o: "opens now ?v x" by (auto simp: g_def opens_def live_def split: if_splits)
      with claim_free [OF free x(1)] q ne have "unused ?v x" by auto
      with ne fx x(3) show False by (simp add: g_def opens_def live_def)
    qed
    with x fields show "tk_id t' = tk_id t" by simp
  qed
  moreover have "v < ad_next a" if "x \<in> set (ad_tokens a)" "\<not> tk_bootstrap x" "tk_device ((g \<circ> f) x) = Some v" for x v
  proof -
    from that(3) have "v = ?v \<or> tk_device x = Some v" by (auto simp: f_def g_def split: if_splits)
    with ids p that(1,2) show ?thesis by (auto simp: known_ids_def)
  qed
  ultimately have "tk_ok h now (a\<lparr>ad_tokens := map (g \<circ> f) (ad_tokens a)\<rparr>)"
    by (intro tk_ok_map [OF ok]) (auto simp: fields)
  moreover have "opens now ?v (g (f t))"
    using t by (simp add: f_def g_def bindable_def opens_def live_def unused_def)
  moreover have "g (f t) \<in> set (map (g \<circ> f) (ad_tokens a))" using t(1) by auto
  ultimately show ?thesis using shape fields by (auto simp: audit_def tk_ok_def known_ids_def intro!: bexI [of _ "g (f t)"])
qed

lemma tk_ok_update_pc:
  assumes "tk_ok h now a" "upsertPc now host b (Some v) a = Some (w, a')"
  shows "tk_ok h now a' \<and> w = v \<and> ad_tokens a' = ad_tokens a \<and> ad_next a' = ad_next a"
proof -
  from assms(2) have a': "w = v" "a' = a\<lparr>ad_pcs := update_rows (\<lambda>p. pc_id p = v) (update_pc now host b) (ad_pcs a)\<rparr>"
    by (auto simp: upsertPc_def split: if_splits)
  moreover have "tk_ok h now (a\<lparr>ad_pcs := update_rows (\<lambda>p. pc_id p = v) (update_pc now host b) (ad_pcs a)\<rparr>)"
    by (rule tk_ok_new_pcs [OF assms(1)]) (use assms(1) in \<open>auto simp: tk_ok_def known_ids_def update_pc_def elim!: update_rowsE split: if_splits\<close>)
  ultimately show ?thesis by simp
qed

lemma identify_Inr:
  assumes "identify hash now auth hostname ser a = Inr (t, host, found)"
  shows "t \<in> set (ad_tokens a) \<and> \<not> tk_bootstrap t \<and> live now t \<and> (case found of None \<Rightarrow> True | Some p \<Rightarrow>
    p \<in> set (ad_pcs a) \<and> (tk_device t = None \<or> tk_device t = Some (pc_id p)))"
proof -
  from assms have auth_ok: "authToken hash now auth a = Some t" and found: "found = lookupPc ser host a"
    by (auto simp: identify_def Let_def split: option.splits if_splits)
  from assms have own: "pc_id p = v" if "tk_device t = Some v" "found = Some p" for v p
    using that by (auto simp: identify_def Let_def split: option.splits if_splits)
  have "p \<in> set (ad_pcs a)" if "found = Some p" for p
    using that found by (auto simp: lookupPc_def Let_def first_some_def dest: find_SomeD split: if_splits option.splits)
  with authToken_Some [OF auth_ok] own show ?thesis by (cases "tk_device t") (auto split: option.splits)
qed

lemma tk_ok_audit_checkin [simp]: "tk_ok h now (audit_checkin host v es a) = tk_ok h now a"
  by (simp add: audit_checkin_def)

lemma bind_refused_keeps:
  assumes "tk_ok h now a" "bindToken now t host ser p a = (Inl e, a')" shows "tk_ok h now a'"
  using assms by (auto simp: bindToken_def Let_def revoke_where_def split: option.splits if_splits)

lemma checkin_keeps:
  assumes ok: "tk_ok h now a" and c: "checkinAgent hash (\<lambda>k. id) warn crit now auth b (a, iv) = (r, a', iv')"
  shows "tk_ok h now a'"
proof (cases "identify hash now auth (cb_hostname b) (cb_serial b) a")
  case (Inl e) with ok c show ?thesis by (simp add: checkinAgent_def)
next
  case (Inr y)
  obtain t host found where y: "y = (t, host, found)" by (cases y)
  note t = identify_Inr [OF Inr [unfolded y]]
  obtain cr a1 where cl: "claimPc now t host (cb_serial b) found a = (cr, a1)" by fastforce
  show ?thesis
  proof (cases cr)
    case (Inl e)
    with cl ok have "tk_ok h now a1" by (auto simp: claimPc_def intro: bind_refused_keeps split: option.splits)
    with c Inl cl \<open>identify _ _ _ _ _ _ = _\<close> y show ?thesis by (simp add: checkinAgent_def)
  next
    case (Inr revoked)
    have a1: "tk_ok h now a1 \<and> ad_next a1 = ad_next a \<and> ad_pcs a1 = ad_pcs a \<and> (\<exists>u \<in> set (ad_tokens a1). tk_id u = tk_id t \<and> \<not> tk_bootstrap u \<and> live now u \<and>
        (case found of None \<Rightarrow> True | Some p \<Rightarrow> opens now (pc_id p) u))"
    proof (cases found)
      case None
      with cl Inr have "a1 = a" by (auto simp: claimPc_def split: option.splits)
      with t ok None show ?thesis by auto
    next
      case (Some p)
      show ?thesis
      proof (cases "tk_device t")
        case None
        with cl Inr Some t bind_keeps [OF ok, of t p host "cb_serial b" revoked a1] show ?thesis
          by (auto simp: claimPc_def opens_def)
      next
        case (Some v)
        with cl Inr \<open>found = Some p\<close> have "a1 = a" by (simp add: claimPc_def)
        with t ok Some \<open>found = Some p\<close> show ?thesis by (auto simp: opens_def)
      qed
    qed
    then obtain u where u: "u \<in> set (ad_tokens a1)" "tk_id u = tk_id t" "\<not> tk_bootstrap u" "live now u"
      "\<And>p. found = Some p \<Longrightarrow> opens now (pc_id p) u" by (auto split: option.splits)
    show ?thesis
    proof (cases "upsertPc now host b (map_option pc_id found) a1")
      case None
      with c \<open>identify _ _ _ _ _ _ = _\<close> y cl Inr a1 show ?thesis by (simp add: checkinAgent_def)
    next
      case (Some z)
      obtain v a2 where z: "z = (v, a2)" by (cases z)
      have a2: "tk_ok h now a2 \<and> v < ad_next a2 \<and> ad_tokens a2 = ad_tokens a1 \<and> (opens now v u \<or> (\<forall>x \<in> set (ad_tokens a1). \<not> opens now v x))"
      proof (cases found)
        case None
        with Some z have "insert_pc (create_pc now host b) a1 = Some (v, a2)" by (simp add: upsertPc_def)
        from tk_ok_insert_pc [OF conjunct1 [OF a1] this] show ?thesis by (auto simp: create_pc_def blank_pc_def)
      next
        case (Some p)
        with \<open>upsertPc _ _ _ _ _ = _\<close> z have "upsertPc now host b (Some (pc_id p)) a1 = Some (v, a2)" by simp
        from tk_ok_update_pc [OF conjunct1 [OF a1] this] u(5) [OF Some] a1 t Some ok show ?thesis
          by (auto simp: tk_ok_def known_ids_def)
      qed
      from c \<open>identify _ _ _ _ _ _ = _\<close> y cl Inr Some z
      have "a' = audit_checkin host v (checkin_events host b found) (touchToken now v (tk_id t) a2)"
        by (simp add: checkinAgent_def Let_def)
      moreover have "tk_ok h now (touchToken now v (tk_id u) a2)"
        using a2 u by (intro tk_ok_touch) auto
      ultimately show ?thesis using u(2) by simp
    qed
  qed
qed

section \<open>Every run\<close>

lemma step_keeps: "tk_step hash day now a es a' \<Longrightarrow> tk_ok h now a \<Longrightarrow> tk_ok (es @ h) now a'"
proof (induction rule: tk_step.induct)
  case (ts_exchange fresh auth host ser a x a' plain bs) then show ?case using exchange_keeps by simp
next
  case (ts_refused fresh auth host ser a e a') then show ?case using exchange_refused_keeps by simp
next
  case (ts_rotate auth a t fresh i e a') then show ?case using rotate_keeps by simp
next
  case (ts_rotate_failed fresh auth a e a') then show ?case using rotate_failed_keeps by simp
next
  case (ts_checkin warn crit auth b a iv r a' iv') then show ?case using checkin_keeps by simp
next
  case (ts_create fresh who lab a r a')
  show ?case
  proof (cases "truthy lab \<and> insert_token None (hash fresh) lab who a \<noteq> None")
    case True
    then obtain i a1 where ins: "insert_token None (hash fresh) lab who a = Some (i, a1)" by auto
    note new = insert_token_Some [OF ins]
    have "tk_ok h now a1" unfolding conjunct2 [OF new]
      by (rule tk_ok_unbound [OF ts_create.prems]) (use new in simp_all)
    with ts_create.hyps ins True show ?thesis by (auto simp: createToken_def)
  next
    case False
    with ts_create show ?thesis by (auto simp: createToken_def split: if_splits option.splits)
  qed
next
  case (ts_revoke who i a r a')
  then show ?case using tk_ok_revoke_where by (auto simp: revokeToken_def split: option.splits prod.splits)
next
  case (ts_bootstrap t a) then show ?case using tk_ok_unbound [of h now a t] by simp
next
  case (ts_delete a v)
  then have "distinct (map tk_id (filter (\<lambda>t. tk_device t \<noteq> Some v) (ad_tokens a)))"
    by (simp add: tk_ok_def known_ids_def distinct_map_filter)
  with ts_delete show ?case by (auto simp: tk_ok_def known_ids_def one_chain_def within_quota_def)
next
  case (ts_revoke_where P a ids a') then show ?case using tk_ok_revoke_where by simp
next
  case (ts_machines a n ps) then show ?case by (simp add: tk_ok_pcs)
qed

lemma runs_keep: "tk_runs hash day a0 h now a \<Longrightarrow> (\<And>t. tk_ok [] t a0) \<Longrightarrow> tk_ok h now a"
proof (induction rule: tk_runs.induct)
  case (tr_step h now a later es a')
  then show ?case using step_keeps [OF tr_step.hyps(3)] tk_ok_later by blast
qed simp

section \<open>Examples\<close>

text \<open>One bootstrap for one machine; a token text is its own hash here.\<close>

definition shared_cred :: cred where
  "shared_cred = (new_cred 0 None ''boot'' (Some ''fleet'') None)\<lparr>tk_bootstrap := True, ac_max := Some 1\<rparr>"

definition no_agents :: adb where
  "no_agents = \<lparr>ad_pcs = [], ad_tokens = [], ad_audit = [], ad_next = 0\<rparr>"

definition one_bootstrap :: adb where
  "one_bootstrap = no_agents\<lparr>ad_tokens := [shared_cred], ad_next := 1\<rparr>"

definition first_exchange :: "(ex_error + exchanged) \<times> adb" where
  "first_exchange = exchangeToken id (\<lambda>t. ''day'') 10 ''tok1'' (Some ''Bearer boot'') (Some ''PC1'') (Some ''S1'') one_bootstrap"

definition first_rotation :: "(rotate_error + uuid \<times> time) \<times> adb" where
  "first_rotation = rotateToken id id 20 ''tok2'' (Some ''Bearer tok1'') (snd first_exchange)"

lemma one_bootstrap_run: "tk_runs id (\<lambda>t. ''day'') no_agents [] 5 one_bootstrap"
proof -
  have "tk_step id (\<lambda>t. ''day'') 5 no_agents [] (no_agents\<lparr>ad_tokens := ad_tokens no_agents @ [shared_cred], ad_next := ad_next no_agents + 1\<rparr>)"
    by (rule ts_bootstrap) (simp_all add: shared_cred_def new_cred_def no_agents_def)
  then have "tk_step id (\<lambda>t. ''day'') 5 no_agents [] one_bootstrap" by (simp add: one_bootstrap_def no_agents_def)
  from tr_step [OF tr_start order_refl this] show ?thesis by simp
qed

lemma exchange_run: "tk_runs id (\<lambda>t. ''day'') no_agents [Issued 0 2] 10 (snd first_exchange)"
proof -
  have "first_exchange = (Inr \<lparr>xc_token = ''tok1'', xc_id = 2, xc_device = 1, xc_revoked = []\<rparr>, snd first_exchange)" by code_simp
  moreover have "bearer (Some ''Bearer boot'') = Some ''boot''" by code_simp
  moreover have "find (redeemable 10 (id ''boot'')) (ad_tokens one_bootstrap) = Some shared_cred" by code_simp
  moreover have "tk_id shared_cred = 0" by code_simp
  ultimately have "tk_step id (\<lambda>t. ''day'') 10 one_bootstrap [Issued 0 2] (snd first_exchange)"
    using ts_exchange [of id "\<lambda>t. ''day''" 10 "''tok1''" "Some ''Bearer boot''" "Some ''PC1''" "Some ''S1''" one_bootstrap
        "\<lparr>xc_token = ''tok1'', xc_id = 2, xc_device = 1, xc_revoked = []\<rparr>" "snd first_exchange" "''boot''" shared_cred]
    by (simp add: first_exchange_def)
  from tr_step [OF one_bootstrap_run _ this] show ?thesis by simp
qed


lemma no_agents_ok: "tk_ok [] t no_agents"
  by (simp add: tk_ok_defs no_agents_def)

section \<open>What interleaved requests lose\<close>

text \<open>
  A token revoked between the authentication of a rotation and its transaction is replaced all the
  same: the new token opens the machine.
\<close>

lemma rotation_survives_revocation:
  "case rotateToken id (\<lambda>a. snd (revokeToken 20 None 2 a)) 20 ''tok2'' (Some ''Bearer tok1'') (snd first_exchange) of
     (r, a) \<Rightarrow> is_inr r \<and> authToken id 30 (Some ''Bearer tok1'') a = None \<and>
       map_option tk_device (authToken id 30 (Some ''Bearer tok2'') a) = Some (Some 1)"
  by code_simp

text \<open>
  Within its grace the replaced token rotates again, which gives it a new grace: it does not expire a
  day after it was replaced.
\<close>

lemma rotated_token_outlives_its_grace:
  "(let a1 = snd first_rotation;
        again = snd (rotateToken id id (20 + GRACE - 1) ''tok3'' (Some ''Bearer tok1'') a1)
    in authToken id (20 + GRACE) (Some ''Bearer tok1'') a1 = None \<and>
       map_option tk_id (authToken id (20 + GRACE + 1000) (Some ''Bearer tok1'') again) = Some 2)"
  by code_simp

text \<open>
  A first check-in creates its machine before it attaches its token: an exchange in between gives the
  same machine another token, and both open it.
\<close>

definition two_holders :: adb where
  "two_holders =
     (let a0 = one_bootstrap\<lparr>ad_tokens := ad_tokens one_bootstrap @ [new_cred 1 None ''adm'' (Some ''install'') None], ad_next := 2\<rparr>;
          b = \<lparr>cb_hostname = Some ''PC1'', cb_serial = None, cb_os = None, cb_os_build = None, cb_ram = None, cb_ip = None, cb_version = None,
               cb_disks = [], cb_network = [], cb_bandwidth = [], cb_ping = [], cb_perf = None, cb_health = None, cb_sysinfo = None\<rparr>;
          iv = \<lparr>iv_disks = [], iv_ifaces = [], iv_bandwidth = [], iv_ping = [], iv_perf = [], iv_creds = []\<rparr>;
          swap = (\<lambda>k a. if k = 2 then snd (exchangeToken id (\<lambda>t. ''day'') 10 ''tok1'' (Some ''Bearer boot'') (Some ''PC1'') None a) else a)
      in fst (snd (checkinAgent id swap 80 90 10 (Some ''Bearer adm'') b (a0, iv))))"

lemma first_checkin_races_an_exchange:
  "map_option (\<lambda>t. (tk_id t, tk_device t)) (authToken id 20 (Some ''Bearer adm'') two_holders) = Some (1, Some 2) \<and>
   map_option (\<lambda>t. (tk_id t, tk_device t)) (authToken id 20 (Some ''Bearer tok1'') two_holders) = Some (3, Some 2)"
  by code_simp

section \<open>Properties\<close>





text \<open>
  C25: A bootstrap is redeemed no more often than its quota, in any run: as many tokens as its row
  counts were given for it, and never more than its maximum.
\<close>

theorem bootstrap_quota_holds:
  assumes "tk_runs hash day no_agents h now a" "b \<in> set (ad_tokens a)" "tk_bootstrap b" "ac_max b = Some n"
  shows "length (filter (issued_by (tk_id b)) h) = ac_redeemed b \<and> length (filter (issued_by (tk_id b)) h) \<le> nat n"
  using runs_keep [OF assms(1) no_agents_ok] assms(2-4) by (fastforce simp: tk_ok_def within_quota_def)

lemma bootstrap_quota_holds_witness:
  "\<exists>b \<in> set (ad_tokens (snd first_exchange)). tk_bootstrap b \<and> ac_redeemed b = 1 \<and>
     length (filter (issued_by (tk_id b)) [Issued 0 2]) \<le> nat 1"
proof -
  have "map (\<lambda>b. (tk_bootstrap b, ac_max b, ac_redeemed b)) (ad_tokens (snd first_exchange)) = [(True, Some 1, 1), (False, None, 0)]" by code_simp
  then obtain b where b: "b \<in> set (ad_tokens (snd first_exchange))" "tk_bootstrap b" "ac_max b = Some 1" "ac_redeemed b = 1"
    by (cases "ad_tokens (snd first_exchange)") auto
  from bootstrap_quota_holds [OF exchange_run b(1-3)] b show ?thesis by blast
qed

end
