(* ===== verification/AgentLink.thy ===== *)
theory AgentLink imports AgentTokens RamStores begin

text \<open>
  The permanent connections of the Windows agents and the SYSTEM consoles they carry:
  \<open>inventory/lib/agent-ws.js\<close> and its plugin (the registry), the WebSocket handler of
  \<open>inventory/routes/agent.js\<close>, \<open>remote/lib/console-sessions.js\<close>, \<open>remote/lib/session-buffer.js\<close>,
  \<open>remote/lib/remote-reason.js\<close> and \<open>remote/routes/console.js\<close>. Everything lives in the memory of
  the server (\<open>hub\<close>); what is sent, closed or audited is appended to a list of effects.
\<close>

section \<open>Capture of a session\<close>

record buffer =
  bf_started :: time
  bf_frames :: "(time \<times> jsstring \<times> jsstring) list"
  bf_size :: nat
  bf_truncated :: bool

definition DEFAULT_MAX_FRAMES :: nat where "DEFAULT_MAX_FRAMES = 10000"

definition DEFAULT_MAX_BYTES :: nat where "DEFAULT_MAX_BYTES = 5 * 1024 * 1024"

definition new_buffer :: "time \<Rightarrow> buffer" where
  "new_buffer now = \<lparr>bf_started = now, bf_frames = [], bf_size = 0, bf_truncated = False\<rparr>"

definition buffer_add :: "nat \<Rightarrow> nat \<Rightarrow> time \<Rightarrow> jsstring \<Rightarrow> bytes \<Rightarrow> buffer \<Rightarrow> buffer" where
  "buffer_add max_frames max_bytes now dir bs b =
     (if bf_truncated b then b
      else if bs = [] then b
      else if length (bf_frames b) \<ge> max_frames \<or> bf_size b + length bs > max_bytes then b\<lparr>bf_truncated := True\<rparr>
      else b\<lparr>bf_frames := bf_frames b @ [(now - bf_started b, dir, b64_enc bs)], bf_size := bf_size b + length bs\<rparr>)"

text \<open>\<open>flush\<close>: the row to insert, when there is something to keep; the buffer is emptied.\<close>

definition buffer_flush :: "buffer \<Rightarrow> ((time \<times> jsstring \<times> jsstring) list \<times> nat \<times> bool) option \<times> buffer" where
  "buffer_flush b =
     (if bf_frames b = [] then (None, b)
      else (Some (bf_frames b, bf_size b, bf_truncated b), b\<lparr>bf_frames := [], bf_size := 0\<rparr>))"

definition buffer_abandon :: "buffer \<Rightarrow> buffer" where
  "buffer_abandon b = b\<lparr>bf_frames := [], bf_size := 0\<rparr>"

section \<open>The reason of a remote session\<close>

definition REASON_CATEGORIES :: "jsstring list" where
  "REASON_CATEGORIES = [''maintenance'', ''troubleshoot'', ''audit'', ''incident'', ''other'']"

definition NOTE_MIN :: nat where "NOTE_MIN = 5"

definition NOTE_MAX :: nat where "NOTE_MAX = 500"

datatype reason_error = Reason_required | Bad_category | Note_too_short | Note_too_long

text \<open>\<open>String(v || '').trim()\<close>; \<open>str\<close> is \<open>String\<close> on what is not a text.\<close>

definition text_of :: "(json \<Rightarrow> jsstring) \<Rightarrow> json option \<Rightarrow> jsstring" where
  "text_of str v =
     js_trim (case v of
                None \<Rightarrow> [] | Some JNull \<Rightarrow> [] | Some (JBool False) \<Rightarrow> []
              | Some (JNum q) \<Rightarrow> if q = 0 then [] else str (JNum q)
              | Some (JStr s) \<Rightarrow> s | Some w \<Rightarrow> str w)"

definition parseReason :: "(json \<Rightarrow> jsstring) \<Rightarrow> json option \<Rightarrow> reason_error + jsstring \<times> jsstring" where
  "parseReason str v =
     (case v of
        Some (JObj ps) \<Rightarrow>
          let category = js_lower (text_of str (jm_get ps ''category'')); note = text_of str (jm_get ps ''note'') in
          if category \<notin> set REASON_CATEGORIES then Inl Bad_category
          else if length note < NOTE_MIN then Inl Note_too_short
          else if length note > NOTE_MAX then Inl Note_too_long
          else Inr (category, note)
      | Some (JArr xs) \<Rightarrow> Inl Bad_category
      | _ \<Rightarrow> Inl Reason_required)"

section \<open>State\<close>

text \<open>A connection object (\<open>makeAgentConn\<close>); \<open>cn_open\<close> is \<open>readyState === 1\<close>.\<close>

record conn =
  cn_device :: uuid
  cn_token :: uuid
  cn_host :: jsstring
  cn_connected :: time
  cn_pong :: time
  cn_caps :: "jsstring list"
  cn_version :: "jsstring option"
  cn_revoked :: "jsstring option"
  cn_audited :: bool
  cn_open :: bool

text \<open>A session: the connection and the browser socket it joins, by their identity.\<close>

record session =
  ss_device :: uuid
  ss_conn :: nat
  ss_browser :: nat
  ss_entra :: "jsstring option"
  ss_name :: "jsstring option"
  ss_shell :: jsstring
  ss_started :: time
  ss_buffer :: buffer

record remote_row =
  rm_id :: uuid
  rm_device :: uuid
  rm_by :: "jsstring option"
  rm_takeover :: "uuid option"
  rm_ended :: "(time \<times> jsstring) option"

datatype effect =
    To_agent nat jsstring "uuid option"
  | Agent_closed nat int jsstring
  | To_browser nat jsstring
  | Browser_closed nat jsstring
  | Audit_connect uuid uuid
  | Audit_disconnect uuid uuid int jsstring int
  | Audit_open uuid uuid "jsstring \<times> jsstring"
  | Audit_close uuid uuid jsstring int
  | Audit_takeover uuid uuid

record hub =
  hb_objs :: "(nat, conn) jsmap"
  hb_conns :: "(uuid, nat) jsmap"
  hb_sessions :: "(uuid, session) jsmap"
  hb_by_device :: "(uuid, uuid) jsmap"
  hb_shut :: "nat list"
  hb_rows :: "remote_row list"
  hb_logs :: "(uuid, (time \<times> jsstring \<times> jsstring) list \<times> nat \<times> bool) jsmap"
  hb_out :: "effect list"

definition empty_hub :: hub where
  "empty_hub = \<lparr>hb_objs = [], hb_conns = [], hb_sessions = [], hb_by_device = [], hb_shut = [], hb_rows = [], hb_logs = [], hb_out = []\<rparr>"

definition out :: "effect \<Rightarrow> hub \<Rightarrow> hub" where
  "out e h = h\<lparr>hb_out := hb_out h @ [e]\<rparr>"

definition with_conn :: "nat \<Rightarrow> (conn \<Rightarrow> conn) \<Rightarrow> hub \<Rightarrow> hub" where
  "with_conn c f h = (case jm_get (hb_objs h) c of None \<Rightarrow> h | Some x \<Rightarrow> h\<lparr>hb_objs := jm_set c (f x) (hb_objs h)\<rparr>)"

definition conn_open :: "hub \<Rightarrow> nat \<Rightarrow> bool" where
  "conn_open h c \<longleftrightarrow> (case jm_get (hb_objs h) c of None \<Rightarrow> False | Some x \<Rightarrow> cn_open x)"

text \<open>\<open>conn.send\<close>, \<open>conn.close\<close>, and the same on the socket of a browser.\<close>

definition send_agent :: "nat \<Rightarrow> jsstring \<Rightarrow> uuid option \<Rightarrow> hub \<Rightarrow> hub" where
  "send_agent c kind sid h = (if conn_open h c then out (To_agent c kind sid) h else h)"

definition close_agent :: "nat \<Rightarrow> int \<Rightarrow> jsstring \<Rightarrow> hub \<Rightarrow> hub" where
  "close_agent c code reason h =
     (if conn_open h c then out (Agent_closed c code reason) (with_conn c (\<lambda>x. x\<lparr>cn_open := False\<rparr>) h) else h)"

definition sendBrowser :: "nat \<Rightarrow> jsstring \<Rightarrow> hub \<Rightarrow> hub" where
  "sendBrowser b kind h = (if b \<in> set (hb_shut h) then h else out (To_browser b kind) h)"

definition close_browser :: "nat \<Rightarrow> jsstring \<Rightarrow> hub \<Rightarrow> hub" where
  "close_browser b reason h =
     (if b \<in> set (hb_shut h) then h else out (Browser_closed b (take 120 reason)) (h\<lparr>hb_shut := hb_shut h @ [b]\<rparr>))"

definition WS_AUTH_FAIL :: int where "WS_AUTH_FAIL = 4401"
definition WS_SUPERSEDED :: int where "WS_SUPERSEDED = 4000"
definition WS_PROTOCOL :: int where "WS_PROTOCOL = 4002"
definition WS_HEARTBEAT :: int where "WS_HEARTBEAT = 4003"
definition WS_POLICY :: int where "WS_POLICY = 4004"

definition wsReasonFromCode :: "int \<Rightarrow> jsstring" where
  "wsReasonFromCode code =
     (if code = WS_SUPERSEDED then ''superseded''
      else if code = WS_AUTH_FAIL then ''auth-fail''
      else if code = WS_PROTOCOL then ''protocol-error''
      else if code = WS_HEARTBEAT then ''heartbeat-timeout''
      else if code = WS_POLICY then ''policy''
      else if code = 1000 then ''normal''
      else if code = 1001 then ''going-away''
      else if code = 1006 then ''tcp-abort''
      else if code = 1011 then ''server-error''
      else ''ws-code-'' @ int_str code)"

text \<open>\<open>Math.round(ms / 1000)\<close>.\<close>

definition seconds :: "int \<Rightarrow> int" where "seconds ms = (ms + 500) div 1000"

section \<open>Console sessions\<close>

definition findActiveByDevice :: "hub \<Rightarrow> uuid \<Rightarrow> (uuid \<times> session) option" where
  "findActiveByDevice h v =
     (case jm_get (hb_by_device h) v of None \<Rightarrow> None | Some sid \<Rightarrow> map_option (Pair sid) (jm_get (hb_sessions h) sid))"

definition forget_session :: "uuid \<Rightarrow> session \<Rightarrow> hub \<Rightarrow> hub" where
  "forget_session sid s h =
     h\<lparr>hb_sessions := jm_del sid (hb_sessions h),
       hb_by_device := (if jm_get (hb_by_device h) (ss_device s) = Some sid then jm_del (ss_device s) (hb_by_device h) else hb_by_device h)\<rparr>"

definition store_log :: "uuid \<Rightarrow> session \<Rightarrow> hub \<Rightarrow> hub" where
  "store_log sid s h =
     (case fst (buffer_flush (ss_buffer s)) of
        None \<Rightarrow> h
      | Some row \<Rightarrow> if jm_get (hb_logs h) sid = None then h\<lparr>hb_logs := jm_set sid row (hb_logs h)\<rparr> else h)"

definition end_row :: "time \<Rightarrow> uuid \<Rightarrow> jsstring \<Rightarrow> hub \<Rightarrow> hub" where
  "end_row now sid reason h =
     h\<lparr>hb_rows := update_rows (\<lambda>r. rm_id r = sid \<and> rm_ended r = None) (\<lambda>r. r\<lparr>rm_ended := Some (now, reason)\<rparr>) (hb_rows h)\<rparr>"

text \<open>\<open>close(sessionId, reason)\<close>.\<close>

definition closeSession :: "time \<Rightarrow> uuid \<Rightarrow> jsstring \<Rightarrow> hub \<Rightarrow> hub" where
  "closeSession now sid reason h =
     (case jm_get (hb_sessions h) sid of
        None \<Rightarrow> h
      | Some s \<Rightarrow>
          out (Audit_close (ss_device s) sid reason (seconds (now - ss_started s)))
            (end_row now sid reason
              (store_log sid s
                (close_browser (ss_browser s) reason
                  (send_agent (ss_conn s) ''console.close'' (Some sid) (forget_session sid s h))))))"

definition closeByDevice :: "time \<Rightarrow> uuid \<Rightarrow> jsstring \<Rightarrow> hub \<Rightarrow> hub" where
  "closeByDevice now v reason h =
     (case jm_get (hb_by_device h) v of None \<Rightarrow> h | Some sid \<Rightarrow> closeSession now sid reason h)"

section \<open>The registry\<close>

text \<open>
  The listeners of a disconnection: the audit of those decided by the server, then the sessions.
\<close>

definition emit_disconnect :: "time \<Rightarrow> uuid \<Rightarrow> nat \<Rightarrow> (int \<times> jsstring) option \<Rightarrow> hub \<Rightarrow> hub" where
  "emit_disconnect now v c info h =
     (let h1 = (case (info, jm_get (hb_objs h) c) of
                  (Some (code, reason), Some x) \<Rightarrow> out (Audit_disconnect v (cn_token x) code reason (seconds (now - cn_connected x))) h
                | _ \<Rightarrow> h)
      in closeByDevice now v (case info of None \<Rightarrow> ''agent-disconnected'' | Some (code, reason) \<Rightarrow> reason) h1)"

definition register :: "time \<Rightarrow> uuid \<Rightarrow> nat \<Rightarrow> hub \<Rightarrow> hub" where
  "register now v c h =
     (let h1 = (case jm_get (hb_conns h) v of
                  Some p \<Rightarrow>
                    if p \<noteq> c
                    then close_agent p WS_SUPERSEDED ''superseded''
                           (emit_disconnect now v p (Some (WS_SUPERSEDED, ''superseded'')) (with_conn p (\<lambda>x. x\<lparr>cn_audited := True\<rparr>) h))
                    else h
                | None \<Rightarrow> h)
      in h1\<lparr>hb_conns := jm_set v c (hb_conns h1)\<rparr>)"

definition unregister :: "time \<Rightarrow> uuid \<Rightarrow> nat \<Rightarrow> hub \<Rightarrow> hub" where
  "unregister now v c h =
     (if jm_get (hb_conns h) v \<noteq> Some c then h
      else emit_disconnect now v c None (h\<lparr>hb_conns := jm_del v (hb_conns h)\<rparr>))"

definition evict :: "time \<Rightarrow> nat \<Rightarrow> jsstring \<Rightarrow> hub \<Rightarrow> bool \<times> hub" where
  "evict now c reason h =
     (case jm_get (hb_objs h) c of
        None \<Rightarrow> (False, h)
      | Some x \<Rightarrow>
          if cn_revoked x \<noteq> None then (False, h)
          else
            let h1 = with_conn c (\<lambda>x. x\<lparr>cn_revoked := Some reason\<rparr>) h;
                h2 = (if jm_get (hb_conns h1) (cn_device x) = Some c
                      then emit_disconnect now (cn_device x) c (Some (WS_AUTH_FAIL, reason))
                             (with_conn c (\<lambda>x. x\<lparr>cn_audited := True\<rparr>) (h1\<lparr>hb_conns := jm_del (cn_device x) (hb_conns h1)\<rparr>))
                      else h1)
            in (True, close_agent c WS_AUTH_FAIL reason h2))"

definition token_of :: "hub \<Rightarrow> nat \<Rightarrow> uuid option" where
  "token_of h c = map_option cn_token (jm_get (hb_objs h) c)"

definition evict_one :: "time \<Rightarrow> uuid list \<Rightarrow> jsstring \<Rightarrow> nat \<Rightarrow> nat \<times> hub \<Rightarrow> nat \<times> hub" where
  "evict_one now ids reason c s =
     (case s of (n, h) \<Rightarrow>
       (case token_of h c of
          None \<Rightarrow> (n, h)
        | Some t \<Rightarrow> if t \<in> set ids then (case evict now c reason h of (done, h1) \<Rightarrow> (if done then n + 1 else n, h1)) else (n, h)))"

text \<open>The connections registered when it starts, one after the other.\<close>

definition evictTokens :: "time \<Rightarrow> uuid list \<Rightarrow> jsstring \<Rightarrow> hub \<Rightarrow> nat \<times> hub" where
  "evictTokens now ids reason h = foldl (\<lambda>s c. evict_one now ids reason c s) (0, h) (map snd (hb_conns h))"

definition evictDevice :: "time \<Rightarrow> uuid \<Rightarrow> jsstring \<Rightarrow> hub \<Rightarrow> bool \<times> hub" where
  "evictDevice now v reason h = (case jm_get (hb_conns h) v of None \<Rightarrow> (False, h) | Some c \<Rightarrow> evict now c reason h)"

section \<open>The connection of an agent\<close>

text \<open>
  \<open>GET /ws\<close>: \<open>token\<close> is what the authentication returned, \<open>host\<close> the name of the machine when it still
  exists, \<open>c\<close> the new object, \<open>ready\<close> whether the socket survived the authentication.
\<close>

definition acceptAgent :: "time \<Rightarrow> cred option \<Rightarrow> jsstring option \<Rightarrow> nat \<Rightarrow> bool \<Rightarrow> hub \<Rightarrow> hub" where
  "acceptAgent now token host c ready h =
     (case Option.bind token (\<lambda>t. map_option (Pair t) (tk_device t)) of
        None \<Rightarrow> out (Agent_closed c WS_AUTH_FAIL ''auth'') h
      | Some (t, v) \<Rightarrow>
         (case host of
            None \<Rightarrow> out (Agent_closed c WS_AUTH_FAIL ''device-missing'') h
          | Some n \<Rightarrow>
              if \<not> ready then h
              else
                let x = \<lparr>cn_device = v, cn_token = tk_id t, cn_host = n, cn_connected = now, cn_pong = now, cn_caps = [],
                         cn_version = None, cn_revoked = None, cn_audited = False, cn_open = True\<rparr>;
                    h1 = register now v c (h\<lparr>hb_objs := jm_set c x (hb_objs h)\<rparr>)
                in send_agent c ''welcome'' None (out (Audit_connect v (tk_id t)) h1)))"

text \<open>What the row of the token says of the connection opened with it.\<close>

definition token_problem :: "time \<Rightarrow> cred list \<Rightarrow> conn \<Rightarrow> jsstring option" where
  "token_problem now tokens x =
     (case find (\<lambda>t. tk_id t = cn_token x) tokens of
        None \<Rightarrow> Some ''device-deleted''
      | Some t \<Rightarrow>
          if tk_revoked_at t \<noteq> None then Some ''token-revoked''
          else if (case tk_expires_at t of None \<Rightarrow> False | Some e \<Rightarrow> e \<le> now) then Some ''token-expired''
          else if tk_device t \<noteq> Some (cn_device x) then Some ''token-rebound''
          else None)"

definition recheckToken :: "time \<Rightarrow> cred list \<Rightarrow> nat \<Rightarrow> hub \<Rightarrow> hub" where
  "recheckToken now tokens c h =
     (case jm_get (hb_objs h) c of
        None \<Rightarrow> h
      | Some x \<Rightarrow>
          if cn_revoked x \<noteq> None then h
          else (case token_problem now tokens x of
                  None \<Rightarrow> h
                | Some reason \<Rightarrow> if cn_open x then snd (evict now c reason h) else h))"

definition HEARTBEAT_TIMEOUT_MS :: int where "HEARTBEAT_TIMEOUT_MS = 45000"

definition heartbeat :: "time \<Rightarrow> cred list \<Rightarrow> nat \<Rightarrow> hub \<Rightarrow> hub" where
  "heartbeat now tokens c h =
     (case jm_get (hb_objs h) c of
        None \<Rightarrow> h
      | Some x \<Rightarrow>
          if now - cn_pong x > HEARTBEAT_TIMEOUT_MS then close_agent c WS_HEARTBEAT ''heartbeat-timeout'' h
          else recheckToken now tokens c (send_agent c ''ping'' None h))"

definition ownConsoleSession :: "nat \<Rightarrow> uuid \<Rightarrow> hub \<Rightarrow> session option" where
  "ownConsoleSession c sid h =
     (case (jm_get (hb_sessions h) sid, jm_get (hb_objs h) c) of
        (Some s, Some x) \<Rightarrow> if ss_device s \<noteq> cn_device x \<or> ss_conn s \<noteq> c then None else Some s
      | _ \<Rightarrow> None)"

text \<open>A frame received, after its parsing.\<close>

datatype frame =
    Too_large | Bad_json | Bad_frame
  | Hello "jsstring option" "jsstring list" | Pong | Ping | Bye
  | Console_opened uuid | Console_data uuid "bytes option" | Console_error uuid | Console_exit uuid "jsstring option"
  | Unknown_frame

definition capture :: "time \<Rightarrow> jsstring \<Rightarrow> bytes option \<Rightarrow> uuid \<Rightarrow> hub \<Rightarrow> hub" where
  "capture now dir bs sid h =
     (case (bs, jm_get (hb_sessions h) sid) of
        (Some xs, Some s) \<Rightarrow>
          h\<lparr>hb_sessions := jm_set sid (s\<lparr>ss_buffer := buffer_add DEFAULT_MAX_FRAMES DEFAULT_MAX_BYTES now dir xs (ss_buffer s)\<rparr>) (hb_sessions h)\<rparr>
      | _ \<Rightarrow> h)"

definition onFrame :: "time \<Rightarrow> nat \<Rightarrow> frame \<Rightarrow> hub \<Rightarrow> hub" where
  "onFrame now c f h =
     (if (case jm_get (hb_objs h) c of None \<Rightarrow> True | Some x \<Rightarrow> cn_revoked x \<noteq> None) then h
      else
        (case f of
           Too_large \<Rightarrow> close_agent c WS_PROTOCOL ''frame-too-large'' h
         | Bad_json \<Rightarrow> close_agent c WS_PROTOCOL ''invalid-json'' h
         | Bad_frame \<Rightarrow> close_agent c WS_PROTOCOL ''invalid-frame'' h
         | Hello version caps \<Rightarrow> with_conn c (\<lambda>x. x\<lparr>cn_version := version, cn_caps := take 32 caps\<rparr>) h
         | Pong \<Rightarrow> with_conn c (\<lambda>x. x\<lparr>cn_pong := now\<rparr>) h
         | Ping \<Rightarrow> send_agent c ''pong'' None h
         | Bye \<Rightarrow> close_agent c 1000 ''client-bye'' h
         | Console_opened sid \<Rightarrow>
             (case ownConsoleSession c sid h of
                None \<Rightarrow> send_agent c ''console.close'' (Some sid) h
              | Some s \<Rightarrow> sendBrowser (ss_browser s) ''opened'' h)
         | Console_data sid bs \<Rightarrow>
             (case ownConsoleSession c sid h of
                None \<Rightarrow> h
              | Some s \<Rightarrow> sendBrowser (ss_browser s) ''data'' (capture now ''out'' bs sid h))
         | Console_error sid \<Rightarrow>
             (case ownConsoleSession c sid h of
                None \<Rightarrow> h
              | Some s \<Rightarrow> closeSession now sid ''agent-error'' (sendBrowser (ss_browser s) ''error'' h))
         | Console_exit sid reason \<Rightarrow>
             (case ownConsoleSession c sid h of
                None \<Rightarrow> h
              | Some s \<Rightarrow> closeSession now sid (or_else reason ''exit'') (sendBrowser (ss_browser s) ''exit'' h))
         | Unknown_frame \<Rightarrow> h))"

text \<open>The socket of the agent is closed.\<close>

definition onAgentClose :: "time \<Rightarrow> nat \<Rightarrow> int \<Rightarrow> hub \<Rightarrow> hub" where
  "onAgentClose now c code h =
     (case jm_get (hb_objs h) c of
        None \<Rightarrow> h
      | Some x \<Rightarrow>
          let h1 = unregister now (cn_device x) c (with_conn c (\<lambda>x. x\<lparr>cn_open := False\<rparr>) h)
          in if cn_audited x then h1
             else out (Audit_disconnect (cn_device x) (cn_token x) code (wsReasonFromCode code) (seconds (now - cn_connected x))) h1)"

section \<open>Opening a console\<close>

record console_grant =
  cg_device :: uuid
  cg_entra :: "jsstring option"
  cg_name :: "jsstring option"
  cg_takeover :: "uuid option"
  cg_reason :: "jsstring \<times> jsstring"

datatype grant_error =
    Console_device_required | Console_bad_reason reason_error | Console_unknown_device | Console_pull_managed
  | Agent_offline | Capability_missing "jsstring option" | Console_conflict "jsstring option" time

text \<open>\<open>POST /api/console/grant\<close>; \<open>known\<close> tells of a machine whether it exists and is managed by state.\<close>

definition consoleGrant ::
    "(json \<Rightarrow> jsstring) \<Rightarrow> (uuid \<Rightarrow> bool option) \<Rightarrow> time \<Rightarrow> jsstring \<Rightarrow> jsstring option \<Rightarrow> jsstring option \<Rightarrow> uuid option \<Rightarrow> bool \<Rightarrow> json option \<Rightarrow>
      hub \<Rightarrow> console_grant grant_store \<Rightarrow> (grant_error + jsstring \<times> rat) \<times> console_grant grant_store" where
  "consoleGrant str known now nonce entra name device takeover reason h gs =
     (case device of
        None \<Rightarrow> (Inl Console_device_required, gs)
      | Some v \<Rightarrow>
         (case parseReason str reason of
            Inl e \<Rightarrow> (Inl (Console_bad_reason e), gs)
          | Inr why \<Rightarrow>
             (case known v of
                None \<Rightarrow> (Inl Console_unknown_device, gs)
              | Some pull \<Rightarrow>
                  if pull then (Inl Console_pull_managed, gs)
                  else
                    (case Option.bind (jm_get (hb_conns h) v) (jm_get (hb_objs h)) of
                       None \<Rightarrow> (Inl Agent_offline, gs)
                     | Some x \<Rightarrow>
                         if ''console'' \<notin> set (cn_caps x) then (Inl (Capability_missing (cn_version x)), gs)
                         else
                           (case findActiveByDevice h v of
                              Some (sid, s) \<Rightarrow>
                                if \<not> takeover then (Inl (Console_conflict (ss_name s) (ss_started s)), gs)
                                else map_prod Inr id (grant_create 30000 now nonce
                                       \<lparr>cg_device = v, cg_entra = entra, cg_name = name, cg_takeover = Some sid, cg_reason = why\<rparr> gs)
                            | None \<Rightarrow>
                                map_prod Inr id (grant_create 30000 now nonce
                                  \<lparr>cg_device = v, cg_entra = entra, cg_name = name, cg_takeover = None, cg_reason = why\<rparr> gs))))))"

text \<open>The checks of the upgrade: the connection of the agent, when all is well.\<close>

datatype open_error = Open_nonce consume_error | Open_other_device | Open_offline | Open_no_capability | Open_conflict | Open_lost

definition openCheck :: "time \<Rightarrow> jsstring option \<Rightarrow> uuid \<Rightarrow> hub \<Rightarrow> console_grant grant_store \<Rightarrow>
    (open_error + console_grant \<times> nat) \<times> console_grant grant_store" where
  "openCheck now nonce v h gs =
     (case grant_consume now nonce gs of
        (Inl e, gs1) \<Rightarrow> (Inl (Open_nonce e), gs1)
      | (Inr g, gs1) \<Rightarrow>
          let p = g_payload g in
          if cg_device p \<noteq> v then (Inl Open_other_device, gs1)
          else (case jm_get (hb_conns h) v of
                  None \<Rightarrow> (Inl Open_offline, gs1)
                | Some c \<Rightarrow>
                    if (case jm_get (hb_objs h) c of None \<Rightarrow> True | Some x \<Rightarrow> ''console'' \<notin> set (cn_caps x)) then (Inl Open_no_capability, gs1)
                    else (Inr (p, c), gs1)))"

definition openTakeover :: "time \<Rightarrow> console_grant \<Rightarrow> hub \<Rightarrow> hub" where
  "openTakeover now p h =
     (case cg_takeover p of
        None \<Rightarrow> h
      | Some sid \<Rightarrow> out (Audit_takeover (cg_device p) sid) (closeSession now sid ''taken-over'' h))"

definition CONSOLE_DEFAULT_SHELL :: jsstring where "CONSOLE_DEFAULT_SHELL = ''powershell.exe''"

text \<open>\<open>create\<close>: the test, and after the insertion of the row, the registration.\<close>

definition createAllowed :: "console_grant \<Rightarrow> hub \<Rightarrow> bool" where
  "createAllowed p h \<longleftrightarrow> jm_get (hb_by_device h) (cg_device p) = None"

definition createSession :: "time \<Rightarrow> console_grant \<Rightarrow> nat \<Rightarrow> nat \<Rightarrow> uuid \<Rightarrow> hub \<Rightarrow> hub" where
  "createSession now p c b sid h =
     (let s = \<lparr>ss_device = cg_device p, ss_conn = c, ss_browser = b, ss_entra = cg_entra p, ss_name = cg_name p,
               ss_shell = CONSOLE_DEFAULT_SHELL, ss_started = now, ss_buffer = new_buffer now\<rparr>
      in h\<lparr>hb_rows := hb_rows h @ [\<lparr>rm_id = sid, rm_device = cg_device p, rm_by = cg_name p, rm_takeover = cg_takeover p, rm_ended = None\<rparr>],
           hb_sessions := jm_set sid s (hb_sessions h), hb_by_device := jm_set (cg_device p) sid (hb_by_device h)\<rparr>)"

text \<open>After \<open>create\<close>, without waiting: the agent may have been lost meanwhile.\<close>

definition openFinish :: "time \<Rightarrow> console_grant \<Rightarrow> nat \<Rightarrow> nat \<Rightarrow> uuid \<Rightarrow> hub \<Rightarrow> (open_error + uuid) \<times> hub" where
  "openFinish now p c b sid h0 =
     (let h = out (Audit_open (cg_device p) sid (cg_reason p)) (createSession now p c b sid h0);
          current = jm_get (hb_conns h) (cg_device p) in
      if current \<noteq> Some c
      then let why = (case Option.bind (jm_get (hb_objs h) c) cn_revoked of
                        Some r \<Rightarrow> r | None \<Rightarrow> if current \<noteq> None then ''superseded'' else ''agent-disconnected'')
           in (Inl Open_lost, closeSession now sid why (sendBrowser b ''error'' h))
      else (Inr sid, send_agent c ''console.open'' (Some sid) (sendBrowser b ''status'' h)))"

text \<open>
  \<open>WS GET /api/console/:deviceId\<close>: \<open>mid\<close> is what happens while the session taken over is closed and
  while the row is inserted; \<open>sid\<close> is the random identifier, \<open>b\<close> the socket of the browser.
\<close>

definition openConsole ::
    "(nat \<Rightarrow> hub \<Rightarrow> hub) \<Rightarrow> time \<Rightarrow> jsstring option \<Rightarrow> uuid \<Rightarrow> nat \<Rightarrow> uuid \<Rightarrow> hub \<Rightarrow> console_grant grant_store \<Rightarrow>
      (open_error + uuid) \<times> hub \<times> console_grant grant_store" where
  "openConsole mid now nonce v b sid h gs =
     (case openCheck now nonce v h gs of
        (Inl e, gs1) \<Rightarrow> (Inl e, close_browser b ''error'' (sendBrowser b ''error'' h), gs1)
      | (Inr (p, c), gs1) \<Rightarrow>
          let h1 = mid 0 (openTakeover now p h) in
          if \<not> createAllowed p h1 then (Inl Open_conflict, close_browser b ''error'' (sendBrowser b ''error'' h1), gs1)
          else (case openFinish now p c b sid (mid 1 h1) of (r, h2) \<Rightarrow> (r, h2, gs1)))"

text \<open>A frame of the browser, and the close of its socket.\<close>

datatype browser_frame = B_too_large | B_ignored | B_input bytes | B_resize int int

definition onBrowserFrame :: "time \<Rightarrow> uuid \<Rightarrow> nat \<Rightarrow> browser_frame \<Rightarrow> hub \<Rightarrow> hub" where
  "onBrowserFrame now sid c f h =
     (case f of
        B_too_large \<Rightarrow> closeSession now sid ''browser-frame-too-large'' h
      | B_ignored \<Rightarrow> h
      | B_input bs \<Rightarrow> send_agent c ''console.input'' (Some sid) (capture now ''in'' (Some bs) sid h)
      | B_resize rows cols \<Rightarrow>
          if 0 < rows \<and> rows \<le> 1000 \<and> 0 < cols \<and> cols \<le> 1000 then send_agent c ''console.resize'' (Some sid) h else h)"

definition onBrowserClose :: "time \<Rightarrow> uuid \<Rightarrow> nat \<Rightarrow> hub \<Rightarrow> hub" where
  "onBrowserClose now sid b h =
     closeSession now sid ''browser-closed'' (h\<lparr>hb_shut := (if b \<in> set (hb_shut h) then hb_shut h else hb_shut h @ [b])\<rparr>)"

end
