(* ===== verification/LinkSafety.thy ===== *)
theory LinkSafety imports AgentLink begin

text \<open>
  A SYSTEM console rests on the live connection of its machine's agent: when the credential of the
  agent goes, so do its connection and its console. Openings of one machine may overlap; the sessions
  they overtake are recorded along a run, and are the only ones that escape. The registries of
  \<open>AgentLink\<close> are read as four partial functions (who is online, what a connection is, what a
  session joins, who is busy), and each operation as a change of these; where two requests interleave,
  a concrete run shows what is lost.
\<close>

section \<open>The registries as partial functions\<close>

definition online :: "hub \<Rightarrow> uuid \<Rightarrow> nat option" where
  "online h = jm_get (hb_conns h)"

definition core :: "hub \<Rightarrow> nat \<Rightarrow> (uuid \<times> uuid \<times> jsstring option) option" where
  "core h c = map_option (\<lambda>x. (cn_device x, cn_token x, cn_revoked x)) (jm_get (hb_objs h) c)"

definition joins :: "hub \<Rightarrow> uuid \<Rightarrow> (uuid \<times> nat) option" where
  "joins h sid = map_option (\<lambda>s. (ss_device s, ss_conn s)) (jm_get (hb_sessions h) sid)"

definition busy :: "hub \<Rightarrow> uuid \<Rightarrow> uuid option" where
  "busy h = jm_get (hb_by_device h)"

lemmas view_defs = online_def core_def joins_def busy_def

text \<open>What sends, closes a socket or writes a row changes none of them.\<close>

lemma out_view [simp]:
  "online (out e h) = online h" "core (out e h) = core h" "joins (out e h) = joins h" "busy (out e h) = busy h"
  by (auto simp: view_defs out_def)

lemma with_conn_view [simp]:
  "online (with_conn c f h) = online h" "joins (with_conn c f h) = joins h" "busy (with_conn c f h) = busy h"
  by (auto simp: view_defs with_conn_def split: option.splits)

lemma with_conn_core:
  assumes "\<And>x. cn_device (f x) = cn_device x \<and> cn_token (f x) = cn_token x \<and> cn_revoked (f x) = cn_revoked x"
  shows "core (with_conn c f h) = core h"
  using assms by (auto simp: view_defs with_conn_def split: option.splits)

lemma send_agent_view [simp]:
  "online (send_agent c k sid h) = online h" "core (send_agent c k sid h) = core h" "joins (send_agent c k sid h) = joins h"
  "busy (send_agent c k sid h) = busy h"
  by (simp_all add: send_agent_def)

lemma close_agent_view [simp]:
  "online (close_agent c code r h) = online h" "core (close_agent c code r h) = core h" "joins (close_agent c code r h) = joins h"
  "busy (close_agent c code r h) = busy h"
  by (simp_all add: close_agent_def with_conn_core)

lemma sendBrowser_view [simp]:
  "online (sendBrowser b k h) = online h" "core (sendBrowser b k h) = core h" "joins (sendBrowser b k h) = joins h"
  "busy (sendBrowser b k h) = busy h"
  by (simp_all add: sendBrowser_def)

lemma shut_view [simp]:
  "online (h\<lparr>hb_shut := l\<rparr>) = online h" "core (h\<lparr>hb_shut := l\<rparr>) = core h" "joins (h\<lparr>hb_shut := l\<rparr>) = joins h"
  "busy (h\<lparr>hb_shut := l\<rparr>) = busy h"
  by (auto simp: view_defs)

lemma close_browser_view [simp]:
  "online (close_browser b r h) = online h" "core (close_browser b r h) = core h" "joins (close_browser b r h) = joins h"
  "busy (close_browser b r h) = busy h"
  by (simp_all add: close_browser_def)

lemma rows_view [simp]:
  "online (end_row now sid r h) = online h" "core (end_row now sid r h) = core h" "joins (end_row now sid r h) = joins h"
  "busy (end_row now sid r h) = busy h"
  "online (store_log sid s h) = online h" "core (store_log sid s h) = core h" "joins (store_log sid s h) = joins h"
  "busy (store_log sid s h) = busy h"
  by (auto simp: view_defs end_row_def store_log_def split: option.splits)

lemma capture_view [simp]:
  "online (capture now dir bs sid h) = online h" "core (capture now dir bs sid h) = core h" "joins (capture now dir bs sid h) = joins h"
  "busy (capture now dir bs sid h) = busy h"
  by (auto simp: view_defs capture_def split: option.splits)


section \<open>The invariant\<close>

text \<open>
  The sessions and the machines they keep busy correspond; \<open>L\<close> are the sessions that an overlapping
  opening overtook, which their machine no longer finds.
\<close>

definition tied :: "uuid set \<Rightarrow> hub \<Rightarrow> bool" where
  "tied L h \<longleftrightarrow> (\<forall>sid v c. joins h sid = Some (v, c) \<longrightarrow> sid \<in> L \<or> busy h v = Some sid) \<and>
     (\<forall>v sid. busy h v = Some sid \<longrightarrow> (\<exists>c. joins h sid = Some (v, c)))"

text \<open>The session a machine finds is carried by the connection registered for it.\<close>

definition carried :: "hub \<Rightarrow> bool" where
  "carried h \<longleftrightarrow> (\<forall>sid v c. busy h v = Some sid \<longrightarrow> joins h sid = Some (v, c) \<longrightarrow> online h v = Some c)"

text \<open>A registered connection is of its machine, and its credential was not withdrawn.\<close>

definition genuine :: "hub \<Rightarrow> bool" where
  "genuine h \<longleftrightarrow> (\<forall>v c. online h v = Some c \<longrightarrow> (\<exists>t. core h c = Some (v, t, None)))"

definition hub_ok :: "uuid set \<Rightarrow> hub \<Rightarrow> bool" where
  "hub_ok L h \<longleftrightarrow> tied L h \<and> carried h \<and> genuine h"


lemma hub_ok_simps [simp]:
  "hub_ok L (out e h) = hub_ok L h" "hub_ok L (send_agent c k sid h) = hub_ok L h" "hub_ok L (close_agent c code r h) = hub_ok L h"
  "hub_ok L (sendBrowser b k h) = hub_ok L h" "hub_ok L (close_browser b r h) = hub_ok L h" "hub_ok L (capture now dir bs s h) = hub_ok L h"
  "hub_ok L (h\<lparr>hb_shut := l\<rparr>) = hub_ok L h"
  by (simp_all add: hub_ok_def tied_def carried_def genuine_def)








section \<open>The registry keeps the invariant\<close>




lemma conns_view [simp]:
  "core (h\<lparr>hb_conns := m\<rparr>) = core h" "joins (h\<lparr>hb_conns := m\<rparr>) = joins h" "busy (h\<lparr>hb_conns := m\<rparr>) = busy h"
  "online (h\<lparr>hb_conns := jm_del v (hb_conns h)\<rparr>) = (online h)(v := None)"
  "online (h\<lparr>hb_conns := jm_set v c (hb_conns h)\<rparr>) = (online h)(v := Some c)"
  by (auto simp: view_defs)

lemma tied_view: "joins h' = joins h \<Longrightarrow> busy h' = busy h \<Longrightarrow> tied L h' = tied L h"
  unfolding tied_def by (simp only:)

lemma tied_conns [simp]: "tied L (h\<lparr>hb_conns := m\<rparr>) = tied L h"
  by (rule tied_view) simp_all






lemma objs_view [simp]:
  "online (h\<lparr>hb_objs := m\<rparr>) = online h" "joins (h\<lparr>hb_objs := m\<rparr>) = joins h" "busy (h\<lparr>hb_objs := m\<rparr>) = busy h"
  by (auto simp: view_defs)













section \<open>The consoles keep it\<close>



text \<open>The session that a registration overtakes: the one its machine was busy with.\<close>

definition overtaken :: "console_grant \<Rightarrow> hub \<Rightarrow> uuid list" where
  "overtaken p h = (case busy h (cg_device p) of None \<Rightarrow> [] | Some sid \<Rightarrow> [sid])"




section \<open>Runs\<close>

text \<open>
  What changes the registries, one step per synchronous stretch of code: an opening is the close of
  the session taken over, then, after the insertion of its row, its registration, whatever happened
  to the registries in between: the test of \<open>create\<close> was made before, and openings of one machine may
  overlap. A step is labelled with the sessions that it overtakes.
\<close>

inductive link_step :: "hub \<Rightarrow> uuid list \<Rightarrow> hub \<Rightarrow> bool" where
  ls_accept: "jm_get (hb_objs h) c = None \<Longrightarrow> link_step h [] (acceptAgent now token host c ready h)"
| ls_recheck: "link_step h [] (recheckToken now tokens c h)"
| ls_heartbeat: "link_step h [] (heartbeat now tokens c h)"
| ls_frame: "link_step h [] (onFrame now c f h)"
| ls_agent_close: "link_step h [] (onAgentClose now c code h)"
| ls_evict_tokens: "link_step h [] (snd (evictTokens now ids r h))"
| ls_evict_device: "link_step h [] (snd (evictDevice now v r h))"
| ls_takeover: "link_step h [] (openTakeover now p h)"
| ls_finish: "jm_get (hb_sessions h) sid = None \<Longrightarrow> link_step h (overtaken p h) (snd (openFinish now p c b sid h))"
| ls_failed: "link_step h [] (close_browser b r (sendBrowser b k h))"
| ls_browser: "link_step h [] (onBrowserFrame now sid c bf h)"
| ls_browser_close: "link_step h [] (onBrowserClose now sid b h)"

inductive link_runs :: "hub \<Rightarrow> uuid list \<Rightarrow> hub \<Rightarrow> bool" where
  lr_start: "link_runs h [] h"
| lr_step: "link_runs h lost g \<Longrightarrow> link_step g es k \<Longrightarrow> link_runs h (lost @ es) k"

inductive_cases link_runsE: "link_runs h lost g"





lemma link_runs_trans: "link_runs g es k \<Longrightarrow> link_runs h lost g \<Longrightarrow> link_runs h (lost @ es) k"
proof (induction arbitrary: lost rule: link_runs.induct)
  case (lr_step g es k fs l)
  from link_runs.lr_step [OF lr_step.IH [OF lr_step.prems] lr_step.hyps(2)] show ?case by simp
qed simp

lemma one_step: "link_step h es g \<Longrightarrow> link_runs h es g"
  using lr_step [OF lr_start] by fastforce

text \<open>
  An opening, whatever runs while it waits, is a run; it overtakes a session only when its machine got
  one after the test.
\<close>

lemma openConsole_run:
  assumes "openConsole mid now nonce v b sid h gs = (r, h', gs')"
    and mids: "\<And>k x. \<exists>es. link_runs x es (mid k x)" and fresh: "\<And>p. jm_get (hb_sessions (mid 1 (mid 0 (openTakeover now p h)))) sid = None"
  shows "\<exists>lost. link_runs h lost h'"
proof (cases "openCheck now nonce v h gs")
  case (Pair y gs1)
  show ?thesis
  proof (cases y)
    case (Inl e)
    with Pair assms(1) have "h' = close_browser b ''error'' (sendBrowser b ''error'' h)" by (simp add: openConsole_def)
    then show ?thesis using one_step [OF ls_failed] by blast
  next
    case (Inr z)
    obtain p c where z: "z = (p, c)" by (cases z)
    let ?h1 = "mid 0 (openTakeover now p h)"
    obtain es where r1: "link_runs h es ?h1" using link_runs_trans [OF _ one_step [OF ls_takeover]] mids by metis
    show ?thesis
    proof (cases "createAllowed p ?h1")
      case True
      with Pair Inr z assms(1) have h': "h' = snd (openFinish now p c b sid (mid 1 ?h1))" by (auto simp: openConsole_def Let_def split: prod.splits)
      obtain fs where "link_runs h (es @ fs) (mid 1 ?h1)" using link_runs_trans [OF _ r1] mids by metis
      from lr_step [OF this ls_finish [OF fresh]] h' show ?thesis by blast
    next
      case False
      with Pair Inr z assms(1) have "h' = close_browser b ''error'' (sendBrowser b ''error'' ?h1)" by (simp add: openConsole_def Let_def)
      then show ?thesis using lr_step [OF r1 ls_failed] by blast
    qed
  qed
qed

section \<open>The capture\<close>

lemma buffer_add_bounded:
  assumes "bf_size b \<le> max_bytes" "length (bf_frames b) \<le> max_frames"
  shows "bf_size (buffer_add max_frames max_bytes now dir bs b) \<le> max_bytes \<and>
    length (bf_frames (buffer_add max_frames max_bytes now dir bs b)) \<le> max_frames"
  using assms by (auto simp: buffer_add_def)

section \<open>Examples\<close>

definition agent_cred :: cred where
  "agent_cred = new_cred 7 (Some 1) ''h'' None None"

definition connected :: hub where
  "connected = onFrame 2 0 (Hello (Some ''2.16.0'') [''console'']) (acceptAgent 1 (Some agent_cred) (Some ''PC1'') 0 True empty_hub)"

definition a_grant :: console_grant where
  "a_grant = \<lparr>cg_device = 1, cg_entra = None, cg_name = Some ''Ann'', cg_takeover = None, cg_reason = (''incident'', ''disk full'')\<rparr>"

definition granted :: "console_grant grant_store" where
  "granted = [(''n1'', \<lparr>g_payload = a_grant, g_expires = 100\<rparr>), (''n2'', \<lparr>g_payload = a_grant, g_expires = 100\<rparr>)]"






section \<open>What interleaved openings lose\<close>

text \<open>
  Two openings of one machine whose tests both pass before either registers: two consoles, of which
  one is no longer found by its machine, and stays when the agent leaves or its token is revoked.
\<close>

lemma two_openings_two_consoles:
  "(let second = (\<lambda>h. fst (snd (openConsole (\<lambda>k. id) 10 (Some ''n2'') 1 51 21 h granted)));
        h = fst (snd (openConsole (\<lambda>k. if k = 1 then second else id) 10 (Some ''n1'') 1 50 20 connected granted));
        gone = onAgentClose 90 0 1006 h
    in map fst (hb_sessions h) = [21, 20] \<and> map fst (hb_sessions gone) = [21] \<and> hb_conns gone = [] \<and>
       map fst (hb_sessions (snd (evictTokens 90 [7] ''token-revoked'' h))) = [21])"
  by code_simp

text \<open>
  A browser closed while its console opens: its close is not heard, and the machine stays busy with a
  session without browser.
\<close>

lemma browser_closed_while_opening:
  "(let left = (\<lambda>h. h\<lparr>hb_shut := hb_shut h @ [50]\<rparr>);
        h = fst (snd (openConsole (\<lambda>k. if k = 1 then left else id) 10 (Some ''n1'') 1 50 20 connected granted))
    in map fst (hb_sessions h) = [20] \<and> hb_by_device h = [(1, 20)] \<and> 50 \<in> set (hb_shut h))"
  by code_simp

section \<open>Properties\<close>






end
