(* ===== verification/Compliance.thy ===== *)
theory Compliance imports Inventory begin

text \<open>
  The conformity of the machines: \<open>monitoring/lib/compliance.js\<close> (the rules, their evaluation at a
  check-in, the proposals of tickets), \<open>monitoring/routes/compliance.js\<close> (overview, one rule, one
  machine), \<open>monitoring/routes/alerts.js\<close> and \<open>alert-snoozes.js\<close>. The texts shown to the
  administrator (labels, titles) are left out; \<open>legacy\<close> is what \<open>Date.parse\<close> makes of a text that
  is not of the ISO form.
\<close>

section \<open>Severities and verdicts\<close>

datatype severity = Low | Medium | High | Critical

fun severity_rank :: "severity \<Rightarrow> nat" where
  "severity_rank Low = 0"
| "severity_rank Medium = 1"
| "severity_rank High = 2"
| "severity_rank Critical = 3"

text \<open>Severities are ordered as the administrator reads them.\<close>

instantiation severity :: linorder
begin

definition less_eq_severity :: "severity \<Rightarrow> severity \<Rightarrow> bool" where
  "less_eq_severity a b \<longleftrightarrow> severity_rank a \<le> severity_rank b"

definition less_severity :: "severity \<Rightarrow> severity \<Rightarrow> bool" where
  "less_severity a b \<longleftrightarrow> severity_rank a < severity_rank b"

instance
proof
  fix a b :: severity
  show "a \<le> b \<Longrightarrow> b \<le> a \<Longrightarrow> a = b" by (cases a; cases b) (simp_all add: less_eq_severity_def)
qed (auto simp: less_eq_severity_def less_severity_def)

end

datatype verdict = Pass | Fail | Not_applicable

text \<open>\<open>ALERTING_SEVERITIES\<close> and \<open>SEVERITY_TO_PRIORITY\<close>.\<close>

definition ALERTING_SEVERITIES :: "severity list" where
  "ALERTING_SEVERITIES = [High, Critical]"

definition SEVERITY_TO_PRIORITY :: "severity \<Rightarrow> jsstring" where
  "SEVERITY_TO_PRIORITY s = (case s of Critical \<Rightarrow> ''critical'' | High \<Rightarrow> ''high'' | _ \<Rightarrow> ''normal'')"

section \<open>Dates and versions\<close>

text \<open>Days from 1970-01-01 of a date of the Gregorian calendar.\<close>

definition civil_days :: "int \<Rightarrow> int \<Rightarrow> int \<Rightarrow> int" where
  "civil_days y m d =
     (let y1 = (if m \<le> 2 then y - 1 else y);
          yoe = y1 mod 400;
          doy = (153 * ((m + 9) mod 12) + 2) div 5 + d - 1
      in y1 div 400 * 146097 + yoe * 365 + yoe div 4 - yoe div 100 + doy - 719468)"

definition leap :: "int \<Rightarrow> bool" where
  "leap y \<longleftrightarrow> 4 dvd y \<and> (\<not> 100 dvd y \<or> 400 dvd y)"

definition month_days :: "int \<Rightarrow> int \<Rightarrow> int" where
  "month_days y m = (if m = 2 then (if leap y then 29 else 28) else if m \<in> {4, 6, 9, 11} then 30 else 31)"

text \<open>\<open>YYYY-MM-DD\<close>, with its elements in range.\<close>

definition iso_day :: "jsstring \<Rightarrow> int option" where
  "iso_day s =
     (let y = take 4 s; m = take 2 (drop 5 s); d = take 2 (drop 8 s) in
      if length s = 10 \<and> s ! 4 = CHR ''-'' \<and> s ! 7 = CHR ''-'' \<and> list_all digit_char (y @ m @ d)
      then let yi = int (dec_val y); mi = int (dec_val m); di = int (dec_val d) in
           if 1 \<le> mi \<and> mi \<le> 12 \<and> 1 \<le> di \<and> di \<le> month_days yi mi then Some (civil_days yi mi di) else None
      else None)"

definition daysSince :: "(jsstring \<Rightarrow> time option) \<Rightarrow> time \<Rightarrow> json option \<Rightarrow> int option" where
  "daysSince legacy now v =
     (case v of
        Some (JStr s) \<Rightarrow>
          (case iso_day s of
             Some n \<Rightarrow> Some ((now - n * 86400000) div 86400000)
           | None \<Rightarrow> map_option (\<lambda>t. (now - t) div 86400000) (legacy (s @ ''T00:00:00Z'')))
      | _ \<Rightarrow> None)"

text \<open>The parts of a version, as many as there are.\<close>

definition version_parts :: "jsstring \<Rightarrow> int list" where
  "version_parts v = map (\<lambda>p. or_else (js_parse_int p) 0) (js_split (CHR ''.'') v)"

fun parts_gt :: "int list \<Rightarrow> int list \<Rightarrow> bool" where
  "parts_gt [] [] = False"
| "parts_gt (x # xs) [] = (if x > 0 then True else if x < 0 then False else parts_gt xs [])"
| "parts_gt [] (y # ys) = (if 0 > y then True else if 0 < y then False else parts_gt [] ys)"
| "parts_gt (x # xs) (y # ys) = (if x > y then True else if x < y then False else parts_gt xs ys)"

definition version_gt :: "jsstring \<Rightarrow> jsstring \<Rightarrow> bool" where
  "version_gt a b = parts_gt (version_parts a) (version_parts b)"

section \<open>The rules\<close>

record snapshot =
  sn_hostname :: "jsstring option"
  sn_health :: "json option"
  sn_seen :: "time option"
  sn_version :: "jsstring option"
  sn_latest :: "jsstring option"
  sn_state :: "jsstring option"
  sn_disk :: "rat option"

type_synonym outcome = "verdict \<times> json option"

text \<open>An object literal; a property that is \<open>undefined\<close> is not stored.\<close>

definition obj :: "(jsstring \<times> json option) list \<Rightarrow> json option" where
  "obj ps = Some (JObj (map (\<lambda>p. (fst p, the (snd p))) (filter (\<lambda>p. snd p \<noteq> None) ps)))"

definition num :: "int \<Rightarrow> json option" where "num n = Some (JNum (of_int n))"

text \<open>\<open>v && typeof v === 'object'\<close>.\<close>

fun is_object :: "json option \<Rightarrow> bool" where
  "is_object (Some (JObj ps)) = True"
| "is_object (Some (JArr xs)) = True"
| "is_object _ = False"

text \<open>\<open>v || null\<close>.\<close>

fun value_or_null :: "json option \<Rightarrow> json option" where
  "value_or_null None = Some JNull"
| "value_or_null (Some (JBool False)) = Some JNull"
| "value_or_null (Some (JNum q)) = (if q = 0 then Some JNull else Some (JNum q))"
| "value_or_null (Some (JStr s)) = (if s = [] then Some JNull else Some (JStr s))"
| "value_or_null v = v"

definition AGENT_OFFLINE_HOURS :: int where "AGENT_OFFLINE_HOURS = 24"
definition SIGNATURE_AV_MAX_AGE_DAYS :: int where "SIGNATURE_AV_MAX_AGE_DAYS = 7"
definition WINDOWS_UPDATE_MAX_AGE_DAYS :: int where "WINDOWS_UPDATE_MAX_AGE_DAYS = 30"
definition DISK_C_MAX_USED_PCT :: int where "DISK_C_MAX_USED_PCT = 90"

definition HOUR_MS :: int where "HOUR_MS = 3600000"

text \<open>\<open>Math.round(ageMs / 3600000)\<close>.\<close>

definition round_hours :: "int \<Rightarrow> int" where "round_hours ms = (ms + HOUR_MS div 2) div HOUR_MS"

definition bitlocker_c_active :: "snapshot \<Rightarrow> outcome" where
  "bitlocker_c_active s =
     (let bl = jprop (sn_health s) ''bitlocker'' in
      if \<not> is_object bl then (Not_applicable, None)
      else if jprop bl ''volume'' \<noteq> Some (JStr ''C:'') then (Not_applicable, obj [(''volume'', jprop bl ''volume'')])
      else if jprop bl ''protection_status'' = Some (JStr ''on'') then (Pass, None)
      else (Fail, obj [(''protection_status'', jprop bl ''protection_status''), (''enabled'', jprop bl ''enabled'')]))"

definition defender_flag :: "jsstring \<Rightarrow> snapshot \<Rightarrow> outcome" where
  "defender_flag k s =
     (let d = jprop (sn_health s) ''defender'' in
      if \<not> is_object d then (Not_applicable, None)
      else if jprop d k = Some (JBool True) then (Pass, None) else (Fail, obj [(k, jprop d k)]))"

definition defender_av_active :: "snapshot \<Rightarrow> outcome" where
  "defender_av_active = defender_flag ''antivirus_enabled''"

definition defender_rt_active :: "snapshot \<Rightarrow> outcome" where
  "defender_rt_active = defender_flag ''realtime_protection''"

definition defender_signature_fresh :: "snapshot \<Rightarrow> outcome" where
  "defender_signature_fresh s =
     (let d = jprop (sn_health s) ''defender'' in
      if \<not> is_object d then (Not_applicable, None)
      else (case jprop d ''signature_age_days'' of
              Some (JNum age) \<Rightarrow>
                if age \<le> of_int SIGNATURE_AV_MAX_AGE_DAYS then (Pass, obj [(''age_days'', Some (JNum age))])
                else (Fail, obj [(''age_days'', Some (JNum age)), (''max'', num SIGNATURE_AV_MAX_AGE_DAYS)])
            | _ \<Rightarrow> (Not_applicable, None)))"

definition defender_no_recent_threats :: "snapshot \<Rightarrow> outcome" where
  "defender_no_recent_threats s =
     (let d = jprop (sn_health s) ''defender'' in
      if \<not> is_object d then (Not_applicable, None)
      else (case jprop d ''threats_last_30d'' of
              Some (JNum n) \<Rightarrow>
                if n = 0 then (Pass, None)
                else (Fail, obj [(''threats_last_30d'', Some (JNum n)), (''last_threat_at'', value_or_null (jprop d ''last_threat_at''))])
            | _ \<Rightarrow> (Not_applicable, None)))"

definition firewall_all_profiles :: "snapshot \<Rightarrow> outcome" where
  "firewall_all_profiles s =
     (let fw = jprop (sn_health s) ''firewall''; on = (\<lambda>k. jprop fw k = Some (JBool True)) in
      if \<not> is_object fw then (Not_applicable, None)
      else if on ''domain_enabled'' \<and> on ''private_enabled'' \<and> on ''public_enabled'' then (Pass, None)
      else (Fail, obj [(''domain'', jprop fw ''domain_enabled''), (''private'', jprop fw ''private_enabled''), (''public'', jprop fw ''public_enabled'')]))"

definition hours_outcome :: "int \<Rightarrow> outcome" where
  "hours_outcome ms =
     (if ms \<le> AGENT_OFFLINE_HOURS * HOUR_MS then (Pass, obj [(''hours_since'', num (round_hours ms))])
      else (Fail, obj [(''hours_since'', num (round_hours ms)), (''max'', num AGENT_OFFLINE_HOURS)]))"

definition agent_seen_recent :: "time \<Rightarrow> snapshot \<Rightarrow> outcome" where
  "agent_seen_recent now s = (case sn_seen s of None \<Rightarrow> (Not_applicable, None) | Some t \<Rightarrow> hours_outcome (now - t))"

definition agent_version_current :: "snapshot \<Rightarrow> outcome" where
  "agent_version_current s =
     (if \<not> truthy (sn_version s) \<or> \<not> truthy (sn_latest s) then (Not_applicable, None)
      else let v = obj [(''current'', map_option JStr (sn_version s)), (''latest'', map_option JStr (sn_latest s))] in
           if \<not> version_gt (the (sn_latest s)) (the (sn_version s)) then (Pass, v) else (Fail, v))"

definition disk_c_under_90 :: "snapshot \<Rightarrow> outcome" where
  "disk_c_under_90 s =
     (case sn_disk s of
        None \<Rightarrow> (Not_applicable, None)
      | Some q \<Rightarrow>
          if q < of_int DISK_C_MAX_USED_PCT then (Pass, obj [(''used_pct'', Some (JNum q))])
          else (Fail, obj [(''used_pct'', Some (JNum q)), (''max'', num DISK_C_MAX_USED_PCT)]))"

definition windows_update_recent :: "(jsstring \<Rightarrow> time option) \<Rightarrow> time \<Rightarrow> snapshot \<Rightarrow> outcome" where
  "windows_update_recent legacy now s =
     (case daysSince legacy now (jprop (sn_health s) ''last_windows_update'') of
        None \<Rightarrow> (Not_applicable, None)
      | Some d \<Rightarrow>
          if d \<le> WINDOWS_UPDATE_MAX_AGE_DAYS then (Pass, obj [(''age_days'', num d)])
          else (Fail, obj [(''age_days'', num d), (''max'', num WINDOWS_UPDATE_MAX_AGE_DAYS)]))"

definition no_pending_reboot :: "snapshot \<Rightarrow> outcome" where
  "no_pending_reboot s =
     (case jprop (sn_health s) ''pending_reboot'' of
        Some (JBool b) \<Rightarrow> if b then (Fail, None) else (Pass, None)
      | _ \<Rightarrow> (Not_applicable, None))"

definition intune_compliant :: "snapshot \<Rightarrow> outcome" where
  "intune_compliant s =
     (case sn_state s of
        None \<Rightarrow> (Not_applicable, None)
      | Some c \<Rightarrow> if c = ''compliant'' then (Pass, None) else (Fail, obj [(''compliance_state'', Some (JStr c))]))"

record rule =
  ru_id :: jsstring
  ru_severity :: severity
  ru_eval :: "(jsstring \<Rightarrow> time option) \<Rightarrow> time \<Rightarrow> snapshot \<Rightarrow> outcome"

definition RULES :: "rule list" where
  "RULES =
     [\<lparr>ru_id = ''bitlocker_c_active'', ru_severity = High, ru_eval = (\<lambda>l now. bitlocker_c_active)\<rparr>,
      \<lparr>ru_id = ''defender_av_active'', ru_severity = Critical, ru_eval = (\<lambda>l now. defender_av_active)\<rparr>,
      \<lparr>ru_id = ''defender_rt_active'', ru_severity = Critical, ru_eval = (\<lambda>l now. defender_rt_active)\<rparr>,
      \<lparr>ru_id = ''defender_signature_fresh'', ru_severity = Medium, ru_eval = (\<lambda>l now. defender_signature_fresh)\<rparr>,
      \<lparr>ru_id = ''defender_no_recent_threats'', ru_severity = High, ru_eval = (\<lambda>l now. defender_no_recent_threats)\<rparr>,
      \<lparr>ru_id = ''firewall_all_profiles'', ru_severity = High, ru_eval = (\<lambda>l now. firewall_all_profiles)\<rparr>,
      \<lparr>ru_id = ''agent_seen_recent'', ru_severity = Medium, ru_eval = (\<lambda>l. agent_seen_recent)\<rparr>,
      \<lparr>ru_id = ''agent_version_current'', ru_severity = Low, ru_eval = (\<lambda>l now. agent_version_current)\<rparr>,
      \<lparr>ru_id = ''disk_c_under_90'', ru_severity = Medium, ru_eval = (\<lambda>l now. disk_c_under_90)\<rparr>,
      \<lparr>ru_id = ''windows_update_recent'', ru_severity = Medium, ru_eval = windows_update_recent\<rparr>,
      \<lparr>ru_id = ''no_pending_reboot'', ru_severity = Low, ru_eval = (\<lambda>l now. no_pending_reboot)\<rparr>,
      \<lparr>ru_id = ''intune_compliant'', ru_severity = Medium, ru_eval = (\<lambda>l now. intune_compliant)\<rparr>]"

section \<open>Evaluation at a check-in\<close>

record cresult =
  cr_device :: uuid
  cr_rule :: jsstring
  cr_status :: verdict
  cr_severity :: severity
  cr_value :: "json option"
  cr_at :: time

text \<open>A proposal of source \<open>compliance\<close>; \<open>cq_status\<close> is changed by the administrator.\<close>

record cproposal =
  cq_id :: uuid
  cq_rule :: jsstring
  cq_device :: uuid
  cq_severity :: severity
  cq_value :: "json option"
  cq_hostname :: "jsstring option"
  cq_priority :: jsstring
  cq_status :: jsstring

datatype caudit = Compliance_changed uuid jsstring verdict verdict severity "json option"

record cdb =
  cd_results :: "cresult list"
  cd_proposals :: "cproposal list"
  cd_audit :: "caudit list"
  cd_pushes :: "(uuid \<times> jsstring) list"
  cd_next :: uuid

definition same_result :: "uuid \<Rightarrow> jsstring \<Rightarrow> cresult \<Rightarrow> bool" where
  "same_result v i r \<longleftrightarrow> cr_device r = v \<and> cr_rule r = i"

text \<open>\<open>ON CONFLICT (device_id, rule_id) DO UPDATE\<close>.\<close>

definition upsert_result :: "cresult \<Rightarrow> cresult list \<Rightarrow> cresult list" where
  "upsert_result r rs =
     (if list_ex (same_result (cr_device r) (cr_rule r)) rs
      then update_rows (same_result (cr_device r) (cr_rule r)) (\<lambda>_. r) rs else rs @ [r])"

definition pending_for :: "jsstring \<Rightarrow> uuid \<Rightarrow> cproposal \<Rightarrow> bool" where
  "pending_for i v p \<longleftrightarrow> cq_status p = ''pending'' \<and> cq_rule p = i \<and> cq_device p = v"

text \<open>\<open>mid\<close> is what other requests do between its two statements.\<close>

definition createComplianceProposal ::
    "(cdb \<Rightarrow> cdb) \<Rightarrow> rule \<Rightarrow> uuid \<Rightarrow> jsstring option \<Rightarrow> json option \<Rightarrow> cdb \<Rightarrow> uuid option \<times> cdb" where
  "createComplianceProposal mid r v host val d0 =
     (if list_ex (pending_for (ru_id r) v) (cd_proposals d0) then (None, d0)
      else let d = mid d0 in
        (Some (cd_next d),
         d\<lparr>cd_proposals := cd_proposals d @
             [\<lparr>cq_id = cd_next d, cq_rule = ru_id r, cq_device = v, cq_severity = ru_severity r, cq_value = val,
               cq_hostname = host, cq_priority = SEVERITY_TO_PRIORITY (ru_severity r), cq_status = ''pending''\<rparr>],
           cd_next := cd_next d + 1\<rparr>))"

text \<open>Only \<open>pass\<close> to \<open>fail\<close> and back are changes of conformity.\<close>

definition pass_fail :: "verdict option \<Rightarrow> verdict \<Rightarrow> bool" where
  "pass_fail before st \<longleftrightarrow> before \<noteq> Some st \<and> (before = Some Pass \<or> before = Some Fail) \<and> (st = Pass \<or> st = Fail)"

definition alerting :: "bool \<Rightarrow> verdict option \<Rightarrow> verdict \<Rightarrow> rule \<Rightarrow> bool" where
  "alerting on before st r \<longleftrightarrow> on \<and> before = Some Pass \<and> st = Fail \<and> ru_severity r \<in> set ALERTING_SEVERITIES"

text \<open>
  One turn of the loop: \<open>ok\<close> tells whether the insertion succeeds, \<open>prev\<close> are the verdicts read
  before. The proposal, which the code does not wait for, is created at once.
\<close>

definition persist_rule ::
    "(jsstring \<Rightarrow> time option) \<Rightarrow> (jsstring \<Rightarrow> bool) \<Rightarrow> bool \<Rightarrow> time \<Rightarrow> uuid \<Rightarrow> snapshot \<Rightarrow> (jsstring, verdict) jsmap \<Rightarrow> rule \<Rightarrow> cdb \<Rightarrow> cdb" where
  "persist_rule legacy ok on now v s prev r d =
     (case ru_eval r legacy now s of
        (st, val) \<Rightarrow>
          if \<not> ok (ru_id r) then d
          else
            let row = \<lparr>cr_device = v, cr_rule = ru_id r, cr_status = st, cr_severity = ru_severity r, cr_value = val, cr_at = now\<rparr>;
                d1 = d\<lparr>cd_results := upsert_result row (cd_results d)\<rparr>;
                before = jm_get prev (ru_id r)
            in if \<not> pass_fail before st then d1
               else
                 let d2 = d1\<lparr>cd_audit := cd_audit d1 @ [Compliance_changed v (ru_id r) (the before) st (ru_severity r) val]\<rparr>
                 in if alerting on before st r
                    then snd (createComplianceProposal id r v (or_null (sn_hostname s)) val (d2\<lparr>cd_pushes := cd_pushes d2 @ [(v, ru_id r)]\<rparr>))
                    else d2)"

definition verdicts_of :: "uuid \<Rightarrow> cdb \<Rightarrow> (jsstring, verdict) jsmap" where
  "verdicts_of v d = map (\<lambda>r. (cr_rule r, cr_status r)) (filter (\<lambda>r. cr_device r = v) (cd_results d))"

text \<open>\<open>mid\<close> is what happens between the reading of the previous verdicts and the first insertion.\<close>

definition evaluateAndPersist ::
    "(jsstring \<Rightarrow> time option) \<Rightarrow> (jsstring \<Rightarrow> bool) \<Rightarrow> (cdb \<Rightarrow> cdb) \<Rightarrow> jsstring option \<Rightarrow> time \<Rightarrow> uuid \<Rightarrow> snapshot \<Rightarrow> cdb \<Rightarrow> cdb" where
  "evaluateAndPersist legacy ok mid setting now v s d =
     foldl (\<lambda>x r. persist_rule legacy ok (setting = Some ''true'') now v s (verdicts_of v d) r x) (mid d) RULES"

text \<open>What a check-in hands over, and the evaluation it makes.\<close>

definition checkin_snapshot :: "time \<Rightarrow> ci_body \<Rightarrow> jsstring option \<Rightarrow> pc option \<Rightarrow> snapshot" where
  "checkin_snapshot now b latest found =
     \<lparr>sn_hostname = cb_hostname b, sn_health = cb_health b, sn_seen = Some now, sn_version = or_null (cb_version b),
      sn_latest = latest, sn_state = Option.bind found pc_compliance,
      sn_disk = disk_pct b\<rparr>"

section \<open>The pages\<close>

text \<open>\<open>evalAgentSeenRecentFromRow\<close>: the rule that is computed when it is read.\<close>

definition evalAgentSeenRecentFromRow :: "time \<Rightarrow> pc \<Rightarrow> outcome" where
  "evalAgentSeenRecentFromRow now p =
     (if \<not> truthy (pc_version p) then (Not_applicable, None)
      else (case pc_last_seen p of
              None \<Rightarrow> (Fail, obj [(''hours_since'', Some JNull)])
            | Some t \<Rightarrow> hours_outcome (now - t)))"

definition LIVE_RULE :: jsstring where "LIVE_RULE = ''agent_seen_recent''"

record rule_counts =
  rc_rule :: jsstring
  rc_severity :: severity
  rc_pass :: nat
  rc_fail :: nat
  rc_na :: nat

definition count_status :: "verdict \<Rightarrow> verdict list \<Rightarrow> nat" where
  "count_status s vs = length (filter (\<lambda>v. v = s) vs)"

definition counts_of :: "rule \<Rightarrow> verdict list \<Rightarrow> rule_counts" where
  "counts_of r vs =
     \<lparr>rc_rule = ru_id r, rc_severity = ru_severity r, rc_pass = count_status Pass vs, rc_fail = count_status Fail vs,
      rc_na = count_status Not_applicable vs\<rparr>"

record overview =
  ov_rules :: "rule_counts list"
  ov_total :: nat
  ov_compliant :: nat
  ov_failing :: nat
  ov_unevaluated :: nat
  ov_critical :: nat
  ov_high :: nat
  ov_score :: "int option"

text \<open>What the second query says of a machine: none of its rows, or how many fail.\<close>

definition stored_of :: "cresult list \<Rightarrow> uuid \<Rightarrow> cresult list" where
  "stored_of rs v = filter (\<lambda>r. cr_device r = v \<and> cr_rule r \<noteq> LIVE_RULE) rs"

definition failing_with :: "(severity \<Rightarrow> bool) \<Rightarrow> cresult list \<Rightarrow> nat" where
  "failing_with P rs = length (filter (\<lambda>r. cr_status r = Fail \<and> P (cr_severity r)) rs)"

datatype standing = Unevaluated | Compliant | Failing

definition standing_of :: "time \<Rightarrow> cresult list \<Rightarrow> pc \<Rightarrow> standing" where
  "standing_of now rs p =
     (let row = stored_of rs (pc_id p); live = (if fst (evalAgentSeenRecentFromRow now p) = Fail then 1 else 0 :: nat) in
      if row = [] \<and> live = 0 then Unevaluated
      else if failing_with (\<lambda>s. True) row + live = 0 then Compliant
      else Failing)"

definition score :: "nat \<Rightarrow> nat \<Rightarrow> int option" where
  "score ok bad = (if ok + bad = 0 then None else Some ((200 * int ok + int (ok + bad)) div (2 * int (ok + bad))))"

definition complianceOverview :: "time \<Rightarrow> pc list \<Rightarrow> cresult list \<Rightarrow> overview" where
  "complianceOverview now pcs rs =
     (let devs = filter (\<lambda>p. \<not> pc_pull p) pcs;
          rules = map (\<lambda>r. counts_of r (if ru_id r = LIVE_RULE then map (\<lambda>p. fst (evalAgentSeenRecentFromRow now p)) devs
                                        else map cr_status (filter (\<lambda>x. cr_rule x = ru_id r) rs))) RULES;
          with = (\<lambda>s. filter (\<lambda>p. standing_of now rs p = s) devs);
          sev = (\<lambda>s. length (filter (\<lambda>p. failing_with (\<lambda>x. x = s) (stored_of rs (pc_id p)) > 0) (with Failing)))
      in \<lparr>ov_rules = rules, ov_total = length devs, ov_compliant = length (with Compliant), ov_failing = length (with Failing),
          ov_unevaluated = length (with Unevaluated), ov_critical = sev Critical, ov_high = sev High,
          ov_score = score (sum_list (map rc_pass rules)) (sum_list (map rc_fail rules))\<rparr>)"

text \<open>The page of one rule; \<open>by_host\<close> is the order of the host names in the database.\<close>

definition status_rank :: "verdict \<Rightarrow> nat" where
  "status_rank s = (case s of Fail \<Rightarrow> 0 | Not_applicable \<Rightarrow> 1 | Pass \<Rightarrow> 2)"

definition complianceRule :: "(pc list \<Rightarrow> pc list) \<Rightarrow> time \<Rightarrow> jsstring \<Rightarrow> pc list \<Rightarrow> cresult list \<Rightarrow> (uuid \<times> outcome) list option" where
  "complianceRule by_host now i pcs rs =
     (if i \<notin> set (map ru_id RULES) then None
      else if i = LIVE_RULE
      then Some (map (\<lambda>p. (pc_id p, evalAgentSeenRecentFromRow now p)) (by_host (filter (\<lambda>p. \<not> pc_pull p) pcs)))
      else Some (sort_key (\<lambda>x. status_rank (fst (snd x)))
             (concat (map (\<lambda>p. map (\<lambda>r. (pc_id p, cr_status r, cr_value r)) (filter (same_result (pc_id p) i) rs)) (by_host pcs)))))"

text \<open>The page of one machine.\<close>

definition deviceCompliance :: "time \<Rightarrow> uuid \<Rightarrow> pc list \<Rightarrow> cresult list \<Rightarrow> (jsstring \<times> severity \<times> outcome) list option" where
  "deviceCompliance now v pcs rs =
     (case find (\<lambda>p. pc_id p = v) pcs of
        None \<Rightarrow> None
      | Some p \<Rightarrow>
          Some (map (\<lambda>r. (ru_id r, ru_severity r,
                   if ru_id r = LIVE_RULE then evalAgentSeenRecentFromRow now p
                   else (case find (same_result v (ru_id r)) rs of
                           None \<Rightarrow> (Not_applicable, None) | Some x \<Rightarrow> (cr_status x, cr_value x)))) RULES))"

section \<open>Alerts\<close>

datatype alert_type = Disk_critical | Disk_high | Noncompliant | Offline

record snooze =
  sz_id :: uuid
  sz_device :: uuid
  sz_type :: alert_type
  sz_until :: time
  sz_reason :: "jsstring option"
  sz_by :: "jsstring option"

text \<open>\<open>parseInt(s.key || 'default')\<close>; a setting that is no number is refused by the database (\<open>None\<close>).\<close>

definition threshold :: "(jsstring, jsstring) jsmap \<Rightarrow> jsstring \<Rightarrow> jsstring \<Rightarrow> int option" where
  "threshold settings k dflt = js_parse_int (or_else (or_null (jm_get settings k)) dflt)"

definition snoozed :: "time \<Rightarrow> snooze list \<Rightarrow> uuid \<Rightarrow> alert_type \<Rightarrow> bool" where
  "snoozed now sz v t \<longleftrightarrow> list_ex (\<lambda>x. sz_device x = v \<and> sz_type x = t \<and> now < sz_until x) sz"

record alerts =
  al_critical :: "(uuid \<times> bool) list"
  al_warn :: "(uuid \<times> bool) list"
  al_offline :: "(uuid \<times> bool) list"
  al_noncompliant :: "(uuid \<times> bool) list"
  al_count_critical :: nat
  al_count_warn :: nat

text \<open>The machines of each list, in the order of the table, with whether the alert is snoozed.\<close>

definition alertsPage :: "(jsstring, jsstring) jsmap \<Rightarrow> time \<Rightarrow> pc list \<Rightarrow> snooze list \<Rightarrow> alerts option" where
  "alertsPage settings now pcs sz =
     (case (threshold settings ''disk_warn_pct'' ''85'', threshold settings ''disk_critical_pct'' ''95'',
            threshold settings ''agent_offline_days'' ''7'') of
        (Some w, Some c, Some n) \<Rightarrow>
          let sel = (\<lambda>P t. map (\<lambda>p. (pc_id p, snoozed now sz (pc_id p) t)) (filter P pcs));
              pct = (\<lambda>Q p. case pc_disk_pct p of None \<Rightarrow> False | Some q \<Rightarrow> Q q);
              crit = sel (pct (\<lambda>q. of_int c \<le> q)) Disk_critical;
              warn = sel (pct (\<lambda>q. of_int w \<le> q \<and> q < of_int c)) Disk_high;
              gone = sel (\<lambda>p. (pc_source p = Some ''agent'' \<or> pc_pull p) \<and>
                               (case pc_last_seen p of None \<Rightarrow> False | Some t \<Rightarrow> t < now - n * DAY_MS)) Offline;
              bad = sel (\<lambda>p. pc_compliance p \<noteq> None \<and> pc_compliance p \<noteq> Some ''compliant'') Noncompliant;
              active = (\<lambda>xs. length (filter (\<lambda>x. \<not> snd x) xs))
          in Some \<lparr>al_critical = crit, al_warn = warn, al_offline = gone, al_noncompliant = bad,
                   al_count_critical = active crit + active bad, al_count_warn = active warn + active gone\<rparr>
      | _ \<Rightarrow> None)"

datatype snooze_error = Bad_until | Snooze_not_found | No_such_device

text \<open>\<open>until\<close> is the date parsed; one row per machine and type.\<close>

definition createSnooze ::
    "time \<Rightarrow> (uuid \<Rightarrow> bool) \<Rightarrow> uuid \<Rightarrow> uuid \<Rightarrow> alert_type \<Rightarrow> time option \<Rightarrow> jsstring option \<Rightarrow> jsstring option \<Rightarrow> snooze list \<Rightarrow>
      (snooze_error + snooze) \<times> snooze list" where
  "createSnooze now exists i v t til reason who sz =
     (case til of
        None \<Rightarrow> (Inl Bad_until, sz)
      | Some u \<Rightarrow>
          if u \<le> now then (Inl Bad_until, sz)
          else if \<not> exists v then (Inl No_such_device, sz)
          else
            let same = (\<lambda>x. sz_device x = v \<and> sz_type x = t); r = trimmed reason in
            (case find same sz of
               Some old \<Rightarrow>
                 let new = \<lparr>sz_id = sz_id old, sz_device = v, sz_type = t, sz_until = u, sz_reason = r, sz_by = who\<rparr>
                 in (Inr new, update_rows same (\<lambda>_. new) sz)
             | None \<Rightarrow>
                 let new = \<lparr>sz_id = i, sz_device = v, sz_type = t, sz_until = u, sz_reason = r, sz_by = who\<rparr>
                 in (Inr new, sz @ [new])))"

definition activeSnoozes :: "time \<Rightarrow> snooze list \<Rightarrow> snooze list" where
  "activeSnoozes now sz = sort_key sz_until (filter (\<lambda>x. now < sz_until x) sz)"

definition deleteSnooze :: "uuid \<Rightarrow> snooze list \<Rightarrow> (snooze_error + uuid \<times> alert_type) \<times> snooze list" where
  "deleteSnooze i sz =
     (case find (\<lambda>x. sz_id x = i) sz of
        None \<Rightarrow> (Inl Snooze_not_found, sz)
      | Some x \<Rightarrow> (Inr (sz_device x, sz_type x), filter (\<lambda>x. sz_id x \<noteq> i) sz))"

end
