(* ===== verification/ComplianceSafety.thy ===== *)
theory ComplianceSafety imports Compliance Maintenance begin

text \<open>
  What the evaluation of the rules keeps (\<open>monitoring/lib/compliance.js\<close>): the verdicts written, the
  changes recorded, one pending proposal per rule and machine; the overview agrees with the pages of
  the machines; what concurrent check-ins lose.
\<close>

section \<open>The rules\<close>

lemma distinct_rules: "distinct (map ru_id RULES)"
  by (simp add: RULES_def)

lemma rule_eqI: "r \<in> set RULES \<Longrightarrow> q \<in> set RULES \<Longrightarrow> ru_id r = ru_id q \<Longrightarrow> r = q"
  using distinct_rules by (auto simp: distinct_map dest: inj_onD)

lemma alerting_from_High: "r \<in> set ALERTING_SEVERITIES \<longleftrightarrow> High \<le> r"
  by (cases r) (simp_all add: ALERTING_SEVERITIES_def less_eq_severity_def)

section \<open>One rule\<close>

definition verdict_at :: "uuid \<Rightarrow> jsstring \<Rightarrow> cdb \<Rightarrow> verdict option" where
  "verdict_at v i d = map_option cr_status (find (same_result v i) (cd_results d))"

lemma verdicts_of_get: "jm_get (verdicts_of v d) i = verdict_at v i d"
proof -
  have "jm_get (map (\<lambda>r. (cr_rule r, cr_status r)) (filter (\<lambda>r. cr_device r = v) rs)) i = map_option cr_status (find (same_result v i) rs)" for rs
    by (induction rs) (auto simp: jm_get_def same_result_def)
  then show ?thesis by (simp add: verdicts_of_def verdict_at_def)
qed

lemma find_replaced: "P r \<Longrightarrow> find P (update_rows P (\<lambda>_. r) rs) = (if list_ex P rs then Some r else None)"
  by (induction rs) auto

lemma find_not_replaced:
  "(\<And>x. P x \<Longrightarrow> \<not> Q x) \<Longrightarrow> \<not> P r \<Longrightarrow> find P (update_rows Q (\<lambda>_. r) rs) = find P rs"
  by (induction rs) auto

lemma find_upsert:
  "find (same_result v i) (upsert_result r rs) =
     (if v = cr_device r \<and> i = cr_rule r then Some r else find (same_result v i) rs)"
proof (cases "list_ex (same_result (cr_device r) (cr_rule r)) rs")
  case True
  show ?thesis
  proof (cases "v = cr_device r \<and> i = cr_rule r")
    case same: True
    then have "same_result v i r" by (simp add: same_result_def)
    from find_replaced [of "same_result v i" r rs] this same True show ?thesis by (simp add: upsert_result_def)
  next
    case other: False
    then have "find (same_result v i) (update_rows (same_result (cr_device r) (cr_rule r)) (\<lambda>_. r) rs) = find (same_result v i) rs"
      by (intro find_not_replaced) (auto simp: same_result_def)
    with other True show ?thesis by (auto simp: upsert_result_def)
  qed
next
  case False
  then have "find (same_result (cr_device r) (cr_rule r)) rs = None" by (simp add: find_None_iff list_ex_iff)
  moreover have "find P (rs @ [r]) = (case find P rs of None \<Rightarrow> if P r then Some r else None | Some x \<Rightarrow> Some x)" for P
    by (induction rs) auto
  ultimately show ?thesis using False by (auto simp: upsert_result_def same_result_def split: option.splits)
qed

definition row_of :: "(jsstring \<Rightarrow> time option) \<Rightarrow> time \<Rightarrow> uuid \<Rightarrow> snapshot \<Rightarrow> rule \<Rightarrow> cresult" where
  "row_of legacy now v s r =
     \<lparr>cr_device = v, cr_rule = ru_id r, cr_status = fst (ru_eval r legacy now s), cr_severity = ru_severity r,
      cr_value = snd (ru_eval r legacy now s), cr_at = now\<rparr>"

lemma proposal_frame [simp]:
  "cd_results (snd (createComplianceProposal id r v h x d)) = cd_results d"
  "cd_audit (snd (createComplianceProposal id r v h x d)) = cd_audit d"
  "cd_pushes (snd (createComplianceProposal id r v h x d)) = cd_pushes d"
  by (simp_all add: createComplianceProposal_def Let_def)

lemma persist_results:
  "cd_results (persist_rule legacy ok on now v s prev r d) =
     (if ok (ru_id r) then upsert_result (row_of legacy now v s r) (cd_results d) else cd_results d)"
  by (simp add: persist_rule_def row_of_def Let_def split: prod.split)

definition changed :: "(jsstring \<Rightarrow> time option) \<Rightarrow> time \<Rightarrow> snapshot \<Rightarrow> (jsstring, verdict) jsmap \<Rightarrow> rule \<Rightarrow> bool" where
  "changed legacy now s prev r \<longleftrightarrow> pass_fail (jm_get prev (ru_id r)) (fst (ru_eval r legacy now s))"

definition change_of ::
    "(jsstring \<Rightarrow> time option) \<Rightarrow> time \<Rightarrow> uuid \<Rightarrow> snapshot \<Rightarrow> (jsstring, verdict) jsmap \<Rightarrow> rule \<Rightarrow> caudit" where
  "change_of legacy now v s prev r =
     Compliance_changed v (ru_id r) (the (jm_get prev (ru_id r))) (fst (ru_eval r legacy now s)) (ru_severity r) (snd (ru_eval r legacy now s))"

lemma persist_audit:
  "cd_audit (persist_rule legacy ok on now v s prev r d) =
     cd_audit d @ (if ok (ru_id r) \<and> changed legacy now s prev r then [change_of legacy now v s prev r] else [])"
  by (simp add: persist_rule_def changed_def change_of_def Let_def split: prod.split)

definition alarming :: "(jsstring \<Rightarrow> time option) \<Rightarrow> bool \<Rightarrow> time \<Rightarrow> snapshot \<Rightarrow> (jsstring, verdict) jsmap \<Rightarrow> rule \<Rightarrow> bool" where
  "alarming legacy on now s prev r \<longleftrightarrow> alerting on (jm_get prev (ru_id r)) (fst (ru_eval r legacy now s)) r"

lemma alarming_changed: "alarming legacy on now s prev r \<Longrightarrow> changed legacy now s prev r"
  by (simp add: alarming_def changed_def alerting_def pass_fail_def)

lemma persist_pushes:
  "cd_pushes (persist_rule legacy ok on now v s prev r d) =
     cd_pushes d @ (if ok (ru_id r) \<and> alarming legacy on now s prev r then [(v, ru_id r)] else [])"
  using alarming_changed [of legacy on now s prev r]
  by (auto simp: persist_rule_def alarming_def changed_def Let_def split_beta)

lemma persist_proposals:
  "\<exists>d0 x. cd_proposals d0 = cd_proposals d \<and> cd_next d0 = cd_next d \<and>
     cd_proposals (persist_rule legacy ok on now v s prev r d) =
       (if ok (ru_id r) \<and> alarming legacy on now s prev r
        then cd_proposals (snd (createComplianceProposal id r v (or_null (sn_hostname s)) x d0)) else cd_proposals d) \<and>
     cd_next (persist_rule legacy ok on now v s prev r d) =
       (if ok (ru_id r) \<and> alarming legacy on now s prev r
        then cd_next (snd (createComplianceProposal id r v (or_null (sn_hostname s)) x d0)) else cd_next d)"
proof -
  let ?d0 = "d\<lparr>cd_results := upsert_result (row_of legacy now v s r) (cd_results d),
               cd_audit := cd_audit d @ [change_of legacy now v s prev r], cd_pushes := cd_pushes d @ [(v, ru_id r)]\<rparr>"
  show ?thesis
    using alarming_changed [of legacy on now s prev r]
    by (intro exI [of _ ?d0] exI [of _ "snd (ru_eval r legacy now s)"])
      (auto simp: persist_rule_def alarming_def changed_def change_of_def row_of_def Let_def split_beta)
qed

section \<open>A whole evaluation\<close>

abbreviation persist_all where
  "persist_all legacy ok on now v s prev rs d \<equiv> foldl (\<lambda>x r. persist_rule legacy ok on now v s prev r x) d rs"

lemma fold_results:
  assumes "distinct (map ru_id rs)"
  shows "find (same_result w i) (cd_results (persist_all legacy ok on now v s prev rs d)) =
     (if w = v \<and> (\<exists>r \<in> set rs. ru_id r = i) \<and> ok i
      then map_option (row_of legacy now v s) (find (\<lambda>r. ru_id r = i) rs)
      else find (same_result w i) (cd_results d))"
  using assms
proof (induction rs rule: rev_induct)
  case (snoc r rs)
  have f: "find (\<lambda>r. ru_id r = i) (rs @ [r]) = (case find (\<lambda>r. ru_id r = i) rs of None \<Rightarrow> if ru_id r = i then Some r else None | Some x \<Rightarrow> Some x)"
    by (induction rs) auto
  have "ru_id r = i \<Longrightarrow> find (\<lambda>r. ru_id r = i) rs = None" using snoc.prems by (auto simp: find_None_iff rev_image_eqI)
  moreover have "(\<exists>x \<in> set rs. ru_id x = i) \<longleftrightarrow> find (\<lambda>r. ru_id r = i) rs \<noteq> None" by (auto simp: find_None_iff)
  ultimately show ?case
    using snoc by (cases "find (\<lambda>r. ru_id r = i) rs") (auto simp: persist_results find_upsert row_of_def f)
qed simp

lemma fold_audit:
  "cd_audit (persist_all legacy ok on now v s prev rs d) =
     cd_audit d @ map (change_of legacy now v s prev) (filter (\<lambda>r. ok (ru_id r) \<and> changed legacy now s prev r) rs)"
  by (induction rs rule: rev_induct) (auto simp: persist_audit)

lemma fold_pushes:
  "cd_pushes (persist_all legacy ok on now v s prev rs d) =
     cd_pushes d @ map (\<lambda>r. (v, ru_id r)) (filter (\<lambda>r. ok (ru_id r) \<and> alarming legacy on now s prev r) rs)"
  by (induction rs rule: rev_induct) (auto simp: persist_pushes)

section \<open>Proposals\<close>

definition pending_keys :: "cdb \<Rightarrow> (jsstring \<times> uuid) list" where
  "pending_keys d = map (\<lambda>p. (cq_rule p, cq_device p)) (filter (\<lambda>p. cq_status p = ''pending'') (cd_proposals d))"

lemma pending_keys_cong: "cd_proposals d = cd_proposals e \<Longrightarrow> pending_keys d = pending_keys e"
  by (simp add: pending_keys_def)

lemma in_pending_keys: "(i, v) \<in> set (pending_keys d) \<longleftrightarrow> list_ex (pending_for i v) (cd_proposals d)"
  by (auto simp: pending_keys_def pending_for_def list_ex_iff)

lemma pending_create:
  "pending_keys (snd (createComplianceProposal id r v h x d)) =
     (if (ru_id r, v) \<in> set (pending_keys d) then pending_keys d else pending_keys d @ [(ru_id r, v)])"
  by (simp add: createComplianceProposal_def in_pending_keys Let_def) (simp add: pending_keys_def)

lemma pending_persist:
  "pending_keys (persist_rule legacy ok on now v s prev r d) =
     (if ok (ru_id r) \<and> alarming legacy on now s prev r \<and> (ru_id r, v) \<notin> set (pending_keys d)
      then pending_keys d @ [(ru_id r, v)] else pending_keys d)"
proof -
  obtain d0 x where d0: "cd_proposals d0 = cd_proposals d"
    and p: "cd_proposals (persist_rule legacy ok on now v s prev r d) =
       (if ok (ru_id r) \<and> alarming legacy on now s prev r
        then cd_proposals (snd (createComplianceProposal id r v (or_null (sn_hostname s)) x d0)) else cd_proposals d)"
    using persist_proposals by blast
  show ?thesis
  proof (cases "ok (ru_id r) \<and> alarming legacy on now s prev r")
    case True
    then have "pending_keys (persist_rule legacy ok on now v s prev r d) =
        pending_keys (snd (createComplianceProposal id r v (or_null (sn_hostname s)) x d0))"
      using p by (intro pending_keys_cong) simp
    with True pending_keys_cong [OF d0] show ?thesis by (simp add: pending_create)
  next
    case False
    with p have "cd_proposals (persist_rule legacy ok on now v s prev r d) = cd_proposals d" by simp
    from pending_keys_cong [OF this] False show ?thesis by auto
  qed
qed

lemma fold_pending:
  "distinct (pending_keys d) \<Longrightarrow> distinct (pending_keys (persist_all legacy ok on now v s prev rs d))"
  by (induction rs rule: rev_induct) (simp_all add: pending_persist)

lemma fold_pending_set:
  "set (pending_keys (persist_all legacy ok on now v s prev rs d)) =
     set (pending_keys d) \<union> (\<lambda>r. (ru_id r, v)) ` {r \<in> set rs. ok (ru_id r) \<and> alarming legacy on now s prev r}"
  by (induction rs rule: rev_induct) (auto simp: pending_persist)

lemma evaluateAndPersist_all:
  "evaluateAndPersist legacy ok id setting now v s d = persist_all legacy ok (setting = Some ''true'') now v s (verdicts_of v d) RULES d"
  by (simp add: evaluateAndPersist_def)

section \<open>Runs\<close>

text \<open>
  A check-in's evaluation, a decision on a proposal, a machine converted to Linux: each taken whole.
\<close>

inductive comp_step :: "cdb \<Rightarrow> cdb \<Rightarrow> bool" where
  cs_evaluate: "comp_step d (evaluateAndPersist legacy ok id setting now v s d)"
| cs_decide: "x \<noteq> ''pending'' \<Longrightarrow>
    comp_step d (d\<lparr>cd_proposals := update_rows (\<lambda>p. cq_id p = i \<and> cq_status p = ''pending'') (\<lambda>p. p\<lparr>cq_status := x\<rparr>) (cd_proposals d)\<rparr>)"
| cs_convert: "comp_step d (d\<lparr>cd_results := filter (\<lambda>r. cr_device r \<noteq> v) (cd_results d)\<rparr>)"

inductive comp_runs :: "cdb \<Rightarrow> cdb \<Rightarrow> bool" where
  cr_start: "comp_runs d d"
| cr_step: "comp_runs d e \<Longrightarrow> comp_step e f \<Longrightarrow> comp_runs d f"

definition empty_cdb :: cdb where
  "empty_cdb = \<lparr>cd_results = [], cd_proposals = [], cd_audit = [], cd_pushes = [], cd_next = 0\<rparr>"

definition result_key :: "cresult \<Rightarrow> uuid \<times> jsstring" where
  "result_key r = (cr_device r, cr_rule r)"

text \<open>The rows of a table of results: one per machine and rule, of a rule that exists, with its severity.\<close>

definition results_ok :: "cresult list \<Rightarrow> bool" where
  "results_ok rs \<longleftrightarrow> distinct (map result_key rs) \<and>
     (\<forall>x \<in> set rs. \<exists>r \<in> set RULES. cr_rule x = ru_id r \<and> cr_severity x = ru_severity r)"

definition comp_ok :: "cdb \<Rightarrow> bool" where
  "comp_ok d \<longleftrightarrow> results_ok (cd_results d) \<and> distinct (pending_keys d)"

lemma results_ok_upsert:
  assumes "results_ok rs" "r \<in> set RULES" "cr_rule x = ru_id r" "cr_severity x = ru_severity r"
  shows "results_ok (upsert_result x rs)"
proof (cases "list_ex (same_result (cr_device x) (cr_rule x)) rs")
  case True
  let ?u = "update_rows (same_result (cr_device x) (cr_rule x)) (\<lambda>_. x) rs"
  have keys: "map result_key ?u = map result_key rs"
    by (induction rs) (auto simp: result_key_def same_result_def)
  have "y \<in> set rs \<or> y = x" if "y \<in> set ?u" for y
    using that by (rule update_rowsE) (auto split: if_splits)
  then have "\<exists>q \<in> set RULES. cr_rule y = ru_id q \<and> cr_severity y = ru_severity q" if "y \<in> set ?u" for y
    using that assms unfolding results_ok_def by blast
  with keys assms(1) have "results_ok ?u" by (simp add: results_ok_def)
  with True show ?thesis by (simp add: upsert_result_def)
next
  case False
  then have "result_key x \<notin> set (map result_key rs)" by (auto simp: list_ex_iff result_key_def same_result_def)
  with False assms show ?thesis by (auto simp: results_ok_def upsert_result_def)
qed

lemma fold_results_ok:
  assumes "results_ok (cd_results d)" "set rs \<subseteq> set RULES"
  shows "results_ok (cd_results (persist_all legacy ok on now v s prev rs d))"
  using assms(2)
proof (induction rs rule: rev_induct)
  case (snoc r rs)
  then show ?case
    using results_ok_upsert [of "cd_results (persist_all legacy ok on now v s prev rs d)" r "row_of legacy now v s r"]
    by (auto simp: persist_results row_of_def)
qed (use assms(1) in simp)

lemma comp_ok_step: "comp_step d e \<Longrightarrow> comp_ok d \<Longrightarrow> comp_ok e"
proof (induction rule: comp_step.induct)
  case (cs_evaluate d legacy ok setting now v s)
  then show ?case
    by (simp add: comp_ok_def evaluateAndPersist_all fold_results_ok fold_pending)
next
  case (cs_decide x d i)
  have "distinct (map f (filter P (update_rows Q g ps)))"
    if "distinct (map f (filter P ps))" "\<And>p. Q p \<Longrightarrow> \<not> P (g p)" for f :: "cproposal \<Rightarrow> jsstring \<times> uuid" and P Q g ps
  proof -
    have "filter P (update_rows Q g ps) = filter (\<lambda>p. P p \<and> \<not> Q p) ps" using that(2) by (induction ps) auto
    with distinct_map_filter [OF that(1), of "\<lambda>p. \<not> Q p"] show ?thesis by simp
  qed
  with cs_decide show ?case by (simp add: comp_ok_def pending_keys_def)
next
  case (cs_convert d v)
  then show ?case by (auto simp: comp_ok_def results_ok_def pending_keys_def distinct_map_filter)
qed

lemma comp_ok_runs: "comp_runs d e \<Longrightarrow> comp_ok d \<Longrightarrow> comp_ok e"
  by (induction rule: comp_runs.induct) (auto intro: comp_ok_step)

lemma comp_ok_empty: "comp_ok empty_cdb"
  by (simp add: comp_ok_def results_ok_def pending_keys_def empty_cdb_def)

section \<open>The overview and the pages of the machines\<close>

definition page_verdicts :: "time \<Rightarrow> pc \<Rightarrow> cresult list \<Rightarrow> verdict list" where
  "page_verdicts now p rs =
     map (\<lambda>r. if ru_id r = LIVE_RULE then fst (evalAgentSeenRecentFromRow now p)
              else or_else (map_option cr_status (find (same_result (pc_id p) (ru_id r)) rs)) Not_applicable) RULES"

lemma deviceCompliance_verdicts:
  assumes "distinct (map pc_id pcs)" "p \<in> set pcs"
  shows "map_option (map (\<lambda>x. fst (snd (snd x)))) (deviceCompliance now (pc_id p) pcs rs) = Some (page_verdicts now p rs)"
proof -
  have "find (\<lambda>q. pc_id q = pc_id p) pcs = Some p" using find_row_unique [OF assms] .
  then show ?thesis
    by (auto simp: deviceCompliance_def page_verdicts_def split: option.split)
qed

lemma find_same_result:
  assumes "results_ok rs" "x \<in> set rs"
  shows "find (same_result (cr_device x) (cr_rule x)) rs = Some x"
proof -
  have "distinct (map result_key rs)" using assms(1) by (simp add: results_ok_def)
  then show ?thesis using assms(2)
    by (induction rs) (auto simp: same_result_def result_key_def rev_image_eqI)
qed

lemma find_same_resultD: "find (same_result v i) rs = Some x \<Longrightarrow> x \<in> set rs \<and> cr_device x = v \<and> cr_rule x = i"
  by (auto simp: same_result_def dest: find_SomeD)

lemma page_fails_iff:
  assumes "results_ok rs"
  shows "Fail \<in> set (page_verdicts now p rs) \<longleftrightarrow>
     fst (evalAgentSeenRecentFromRow now p) = Fail \<or> (\<exists>x \<in> set (stored_of rs (pc_id p)). cr_status x = Fail)"
proof
  assume "Fail \<in> set (page_verdicts now p rs)"
  then obtain r where r: "r \<in> set RULES"
      "Fail = (if ru_id r = LIVE_RULE then fst (evalAgentSeenRecentFromRow now p)
              else or_else (map_option cr_status (find (same_result (pc_id p) (ru_id r)) rs)) Not_applicable)"
    unfolding page_verdicts_def by auto
  show "fst (evalAgentSeenRecentFromRow now p) = Fail \<or> (\<exists>x \<in> set (stored_of rs (pc_id p)). cr_status x = Fail)"
  proof (cases "ru_id r = LIVE_RULE")
    case False
    with r(2) obtain x where "find (same_result (pc_id p) (ru_id r)) rs = Some x" "cr_status x = Fail"
      by (cases "find (same_result (pc_id p) (ru_id r)) rs") auto
    with False find_same_resultD [OF this(1)] show ?thesis by (auto simp: stored_of_def)
  qed (use r(2) in simp)
next
  assume "fst (evalAgentSeenRecentFromRow now p) = Fail \<or> (\<exists>x \<in> set (stored_of rs (pc_id p)). cr_status x = Fail)"
  then show "Fail \<in> set (page_verdicts now p rs)"
  proof
    assume live: "fst (evalAgentSeenRecentFromRow now p) = Fail"
    have "\<exists>r \<in> set RULES. ru_id r = LIVE_RULE" by (simp add: RULES_def LIVE_RULE_def)
    with live show ?thesis unfolding page_verdicts_def by force
  next
    assume "\<exists>x \<in> set (stored_of rs (pc_id p)). cr_status x = Fail"
    then obtain x where x: "x \<in> set rs" "cr_device x = pc_id p" "cr_rule x \<noteq> LIVE_RULE" "cr_status x = Fail" by (auto simp: stored_of_def)
    with assms obtain r where r: "r \<in> set RULES" "cr_rule x = ru_id r" by (auto simp: results_ok_def)
    have "find (same_result (pc_id p) (ru_id r)) rs = Some x" using find_same_result [OF assms x(1)] x(2) r(2) by simp
    with x(3,4) r show ?thesis unfolding page_verdicts_def by force
  qed
qed

lemma failing_with_pos: "0 < failing_with P xs \<longleftrightarrow> (\<exists>x \<in> set xs. cr_status x = Fail \<and> P (cr_severity x))"
  by (auto simp: failing_with_def filter_empty_conv)

lemma standing_Failing_iff:
  "standing_of now rs p = Failing \<longleftrightarrow>
     fst (evalAgentSeenRecentFromRow now p) = Fail \<or> (\<exists>x \<in> set (stored_of rs (pc_id p)). cr_status x = Fail)"
proof -
  have "failing_with (\<lambda>s. True) (stored_of rs (pc_id p)) = 0 \<longleftrightarrow> \<not> (\<exists>x \<in> set (stored_of rs (pc_id p)). cr_status x = Fail)"
    using failing_with_pos [of "\<lambda>s. True" "stored_of rs (pc_id p)"] by auto
  then show ?thesis by (auto simp: standing_of_def Let_def)
qed

lemma standing_Failing_page: "results_ok rs \<Longrightarrow> standing_of now rs p = Failing \<longleftrightarrow> Fail \<in> set (page_verdicts now p rs)"
  by (simp add: standing_Failing_iff page_fails_iff)

lemma standing_partition:
  "length (filter (\<lambda>p. standing_of now rs p = Compliant) ps) + length (filter (\<lambda>p. standing_of now rs p = Failing) ps) +
     length (filter (\<lambda>p. standing_of now rs p = Unevaluated) ps) = length ps"
proof (induction ps)
  case (Cons p ps)
  then show ?case by (cases "standing_of now rs p") auto
qed simp

lemma score_bounds: "score a b = Some n \<Longrightarrow> 0 \<le> n \<and> n \<le> 100"
proof -
  assume "score a b = Some n"
  then have pos: "0 < int (a + b)" and n: "n = (200 * int a + int (a + b)) div (2 * int (a + b))"
    by (auto simp: score_def split: if_splits)
  let ?c = "2 * int (a + b)"
  have c: "0 < ?c" using pos by simp
  have "n * ?c \<le> 200 * int a + int (a + b)"
    using div_mult_mod_eq [of "200 * int a + int (a + b)" ?c] pos_mod_sign [OF c, of "200 * int a + int (a + b)"]
    unfolding n by linarith
  moreover have "101 * ?c \<le> n * ?c" if "101 \<le> n" using that pos by (intro mult_right_mono) simp_all
  ultimately have "n < 101" using pos by (cases "101 \<le> n") simp_all
  moreover have "0 \<le> n" unfolding n using pos by (simp add: pos_imp_zdiv_nonneg_iff)
  ultimately show ?thesis by simp
qed

section \<open>Examples\<close>

definition no_date :: "jsstring \<Rightarrow> time option" where "no_date x = None"

definition healthy :: snapshot where
  "healthy =
     \<lparr>sn_hostname = Some ''PC1'',
      sn_health = Some (JObj [(''defender'', JObj [(''antivirus_enabled'', JBool True), (''realtime_protection'', JBool True)])]),
      sn_seen = Some 1000, sn_version = Some ''2.16.0'', sn_latest = Some ''2.16.0'', sn_state = None, sn_disk = Some 50\<rparr>"

definition disarmed :: snapshot where
  "disarmed = healthy\<lparr>sn_health := Some (JObj [(''defender'', JObj [(''antivirus_enabled'', JBool False), (''realtime_protection'', JBool True)])])\<rparr>"

definition evaluate_at :: "time \<Rightarrow> snapshot \<Rightarrow> cdb \<Rightarrow> cdb" where
  "evaluate_at now s d = (evaluateAndPersist no_date (\<lambda>i. True) id (Some ''true'') now 7 s d)"

definition seen_healthy :: cdb where "seen_healthy = evaluate_at 1000 healthy empty_cdb"

definition seen_disarmed :: cdb where "seen_disarmed = evaluate_at 2000 disarmed seen_healthy"

lemma evaluate_run: "comp_runs d e \<Longrightarrow> comp_runs d (evaluate_at now s e)"
  by (auto simp: evaluate_at_def intro: cr_step cs_evaluate)

lemma seen_healthy_run: "comp_runs empty_cdb seen_healthy"
  unfolding seen_healthy_def by (rule evaluate_run [OF cr_start])

lemma seen_disarmed_run: "comp_runs empty_cdb seen_disarmed"
  unfolding seen_disarmed_def by (rule evaluate_run [OF seen_healthy_run])

section \<open>What concurrent check-ins lose\<close>

text \<open>
  The lock of \<open>SELECT ... FOR UPDATE\<close> ends with its statement, outside a transaction: of two check-ins
  at once, both see the old verdict and both record the change.
\<close>

lemma two_checkins_record_one_change_twice:
  "cd_audit (evaluateAndPersist no_date (\<lambda>i. True) (evaluate_at 2000 disarmed) (Some ''true'') 2001 7 disarmed seen_healthy) =
     (let c = Compliance_changed 7 ''defender_av_active'' Pass Fail Critical (Some (JObj [(''antivirus_enabled'', JBool False)])) in [c, c])"
  by code_simp

text \<open>The test of \<open>createComplianceProposal\<close> and its insertion are two statements: two proposals.\<close>

lemma two_creations_two_proposals:
  "pending_keys (snd (createComplianceProposal (\<lambda>d. snd (createComplianceProposal id (RULES ! 1) 7 None None d)) (RULES ! 1) 7 None None empty_cdb)) =
     [(''defender_av_active'', 7), (''defender_av_active'', 7)]"
  by code_simp

text \<open>\<open>semverGt\<close> of the rules is not the one that offers the updates, as its comment says it is.\<close>

lemma num_gt_irrefl [simp]: "num_gt x x = False"
  by (cases x) auto

lemma two_orders_of_versions: "version_gt ''2.15.3.1'' ''2.15.3'' \<and> \<not> semverGt ''2.15.3.1'' ''2.15.3''"
proof -
  have "js_split (CHR ''.'') ''2.15.3.1'' = [''2'', ''15'', ''3'', ''1'']" "js_split (CHR ''.'') ''2.15.3'' = [''2'', ''15'', ''3'']"
    by code_simp+
  then have "\<not> semverGt ''2.15.3.1'' ''2.15.3''" by (simp add: semverGt_def version_part_def Let_def)
  moreover have "version_gt ''2.15.3.1'' ''2.15.3''" by code_simp
  ultimately show ?thesis by simp
qed

text \<open>A machine first created by the Intune synchronisation is never listed offline, whatever its agent.\<close>

lemma checkin_keeps_source: "pc_source (update_pc now host b p) = pc_source p" "pc_pull (update_pc now host b p) = pc_pull p"
  by (simp_all add: update_pc_def Let_def)

lemma intune_machine_is_never_offline:
  assumes "pc_source p = Some ''intune''" "\<not> pc_pull p"
  shows "case alertsPage settings now [update_pc t host b p] sz of None \<Rightarrow> True | Some a \<Rightarrow> al_offline a = []"
  using assms by (simp add: alertsPage_def Let_def checkin_keeps_source split: option.split)

section \<open>Properties\<close>

text \<open>
  C35: An evaluation writes the verdict of every rule whose insertion succeeds, keeps the rows of the
  other machines, records exactly the rules that went from pass to fail or back (in the order of the
  rules, with the verdict before), and alerts exactly for those of severity high or more that began
  to fail, when the setting asks for it; each of them then has a pending proposal.
\<close>

theorem evaluation_writes_and_records:
  assumes "d' = evaluateAndPersist legacy ok id setting now v s d"
  shows "(\<forall>r \<in> set RULES. find (same_result v (ru_id r)) (cd_results d') =
            (if ok (ru_id r)
             then Some \<lparr>cr_device = v, cr_rule = ru_id r, cr_status = fst (ru_eval r legacy now s), cr_severity = ru_severity r,
                        cr_value = snd (ru_eval r legacy now s), cr_at = now\<rparr>
             else find (same_result v (ru_id r)) (cd_results d))) \<and>
    (\<forall>w i. w \<noteq> v \<longrightarrow> find (same_result w i) (cd_results d') = find (same_result w i) (cd_results d)) \<and>
    cd_audit d' = cd_audit d @
      map (\<lambda>r. Compliance_changed v (ru_id r) (the (verdict_at v (ru_id r) d)) (fst (ru_eval r legacy now s)) (ru_severity r) (snd (ru_eval r legacy now s)))
        (filter (\<lambda>r. ok (ru_id r) \<and> pass_fail (verdict_at v (ru_id r) d) (fst (ru_eval r legacy now s))) RULES) \<and>
    cd_pushes d' = cd_pushes d @ map (\<lambda>r. (v, ru_id r))
      (filter (\<lambda>r. ok (ru_id r) \<and> setting = Some ''true'' \<and> verdict_at v (ru_id r) d = Some Pass \<and>
                    fst (ru_eval r legacy now s) = Fail \<and> High \<le> ru_severity r) RULES) \<and>
    (\<forall>x \<in> set (drop (length (cd_pushes d)) (cd_pushes d')). list_ex (pending_for (snd x) v) (cd_proposals d'))"
proof -
  let ?on = "setting = Some ''true''"
  have d': "d' = persist_all legacy ok ?on now v s (verdicts_of v d) RULES d" using assms by (simp add: evaluateAndPersist_all)
  note results = fold_results [OF distinct_rules, where legacy = legacy and ok = ok and on = ?on and now = now and v = v and s = s
      and prev = "verdicts_of v d" and d = d, folded d']
  have found: "find (\<lambda>q. ru_id q = ru_id r) RULES = Some r" if "r \<in> set RULES" for r
    by (rule find_row_unique [OF distinct_rules that])
  have a: "filter (\<lambda>r. ok (ru_id r) \<and> alarming legacy ?on now s (verdicts_of v d) r) RULES =
      filter (\<lambda>r. ok (ru_id r) \<and> ?on \<and> verdict_at v (ru_id r) d = Some Pass \<and> fst (ru_eval r legacy now s) = Fail \<and> High \<le> ru_severity r) RULES"
    by (simp add: alarming_def alerting_def verdicts_of_get alerting_from_High)
  have pushes: "cd_pushes d' = cd_pushes d @ map (\<lambda>r. (v, ru_id r)) (filter (\<lambda>r. ok (ru_id r) \<and> alarming legacy ?on now s (verdicts_of v d) r) RULES)"
    unfolding d' by (rule fold_pushes)
  have "list_ex (pending_for (snd x) v) (cd_proposals d')" if "x \<in> set (drop (length (cd_pushes d)) (cd_pushes d'))" for x
    using that fold_pending_set [of legacy ok ?on now v s "verdicts_of v d" d RULES, folded d']
    by (auto simp: pushes simp flip: in_pending_keys)
  moreover have "cd_audit d' = cd_audit d @ map (change_of legacy now v s (verdicts_of v d))
      (filter (\<lambda>r. ok (ru_id r) \<and> changed legacy now s (verdicts_of v d) r) RULES)"
    unfolding d' by (rule fold_audit)
  moreover have "find (same_result v (ru_id r)) (cd_results d') =
      (if ok (ru_id r) then Some (row_of legacy now v s r) else find (same_result v (ru_id r)) (cd_results d))" if "r \<in> set RULES" for r
    using results [of v "ru_id r"] found [OF that] that by auto
  moreover have "find (same_result w i) (cd_results d') = find (same_result w i) (cd_results d)" if "w \<noteq> v" for w i
    using results [of w i] that by simp
  ultimately show ?thesis
    using pushes unfolding a row_of_def changed_def change_of_def verdicts_of_get by blast
qed

lemma evaluation_writes_and_records_witness:
  "cd_pushes seen_disarmed = cd_pushes seen_healthy @ [(7, ''defender_av_active'')] \<and>
   list_ex (pending_for ''defender_av_active'' 7) (cd_proposals seen_disarmed) \<and>
   find (same_result 8 ''defender_av_active'') (cd_results seen_disarmed) = find (same_result 8 ''defender_av_active'') (cd_results seen_healthy)"
proof -
  have e: "seen_disarmed = evaluateAndPersist no_date (\<lambda>i. True) id (Some ''true'') 2000 7 disarmed seen_healthy"
    by (simp add: seen_disarmed_def evaluate_at_def)
  have p: "cd_pushes seen_disarmed = cd_pushes seen_healthy @ [(7, ''defender_av_active'')]" by code_simp
  from evaluation_writes_and_records [OF e] p show ?thesis by simp
qed

text \<open>
  C34: Whatever the check-ins, decisions and conversions, one after the other: at most one proposal is
  pending for a rule and a machine, and the results hold one row per machine and rule, of a rule that
  exists and with its severity.
\<close>

theorem one_pending_proposal_per_rule_and_machine:
  assumes "comp_runs empty_cdb d"
  shows "distinct (map (\<lambda>p. (cq_rule p, cq_device p)) (filter (\<lambda>p. cq_status p = ''pending'') (cd_proposals d))) \<and>
    distinct (map result_key (cd_results d)) \<and>
    (\<forall>x \<in> set (cd_results d). \<exists>r \<in> set RULES. cr_rule x = ru_id r \<and> cr_severity x = ru_severity r)"
  using comp_ok_runs [OF assms comp_ok_empty] by (simp add: comp_ok_def results_ok_def pending_keys_def)

lemma one_pending_proposal_per_rule_and_machine_witness:
  "length (cd_proposals seen_disarmed) = 1 \<and> length (cd_results seen_disarmed) = 12 \<and> distinct (map result_key (cd_results seen_disarmed))"
proof -
  have "length (cd_proposals seen_disarmed) = 1" "length (cd_results seen_disarmed) = 12" by code_simp+
  with one_pending_proposal_per_rule_and_machine [OF seen_disarmed_run] show ?thesis by simp
qed

text \<open>
  C36: The overview agrees with the pages of the machines: its three counts share the machines it
  covers, a machine is counted as failing exactly when its own page shows a rule that fails, and the
  score is a percentage.
\<close>

theorem overview_agrees_with_the_pages:
  assumes "comp_runs empty_cdb d" "distinct (map pc_id pcs)" "ov = complianceOverview now pcs (cd_results d)"
  shows "ov_total ov = length (filter (\<lambda>p. \<not> pc_pull p) pcs) \<and>
    ov_compliant ov + ov_failing ov + ov_unevaluated ov = ov_total ov \<and>
    ov_failing ov = length (filter (\<lambda>p. case deviceCompliance now (pc_id p) pcs (cd_results d) of
        None \<Rightarrow> False | Some xs \<Rightarrow> \<exists>x \<in> set xs. fst (snd (snd x)) = Fail) (filter (\<lambda>p. \<not> pc_pull p) pcs)) \<and>
    (\<forall>n. ov_score ov = Some n \<longrightarrow> 0 \<le> n \<and> n \<le> 100)"
proof -
  have ok: "results_ok (cd_results d)" using comp_ok_runs [OF assms(1) comp_ok_empty] by (simp add: comp_ok_def)
  have "standing_of now (cd_results d) p = Failing \<longleftrightarrow> (case deviceCompliance now (pc_id p) pcs (cd_results d) of
      None \<Rightarrow> False | Some xs \<Rightarrow> \<exists>x \<in> set xs. fst (snd (snd x)) = Fail)" if p: "p \<in> set pcs" for p
  proof -
    obtain xs where "deviceCompliance now (pc_id p) pcs (cd_results d) = Some xs"
        "map (\<lambda>x. fst (snd (snd x))) xs = page_verdicts now p (cd_results d)"
      using deviceCompliance_verdicts [OF assms(2) p] by fastforce
    moreover from this(2) have "(\<exists>x \<in> set xs. fst (snd (snd x)) = Fail) \<longleftrightarrow> Fail \<in> set (page_verdicts now p (cd_results d))"
      by (metis (mono_tags, lifting) imageE image_eqI set_map)
    ultimately show ?thesis by (simp add: standing_Failing_page [OF ok])
  qed
  then have "filter (\<lambda>p. standing_of now (cd_results d) p = Failing) (filter (\<lambda>p. \<not> pc_pull p) pcs) =
      filter (\<lambda>p. case deviceCompliance now (pc_id p) pcs (cd_results d) of
        None \<Rightarrow> False | Some xs \<Rightarrow> \<exists>x \<in> set xs. fst (snd (snd x)) = Fail) (filter (\<lambda>p. \<not> pc_pull p) pcs)"
    by (intro filter_cong) auto
  then show ?thesis
    using standing_partition [of now "cd_results d" "filter (\<lambda>p. \<not> pc_pull p) pcs"] score_bounds
    unfolding assms(3) complianceOverview_def Let_def by (simp add: score_bounds)
qed

definition pc1 :: pc where
  "pc1 = (blank_pc 7 ''PC1'' None)\<lparr>pc_version := Some ''2.16.0'', pc_last_seen := Some 2000\<rparr>"

lemma overview_agrees_with_the_pages_witness:
  "ov_failing (complianceOverview 3000 [pc1, blank_pc 8 ''PC2'' None] (cd_results seen_disarmed)) = 1 \<and>
   ov_total (complianceOverview 3000 [pc1, blank_pc 8 ''PC2'' None] (cd_results seen_disarmed)) = 2 \<and>
   ov_compliant (complianceOverview 3000 [pc1, blank_pc 8 ''PC2'' None] (cd_results seen_disarmed)) +
   ov_unevaluated (complianceOverview 3000 [pc1, blank_pc 8 ''PC2'' None] (cd_results seen_disarmed)) = 1"
proof -
  have f: "ov_failing (complianceOverview 3000 [pc1, blank_pc 8 ''PC2'' None] (cd_results seen_disarmed)) = 1" by code_simp
  have "distinct (map pc_id [pc1, blank_pc 8 ''PC2'' None])" by code_simp
  from overview_agrees_with_the_pages [OF seen_disarmed_run this refl, of 3000] f
  show ?thesis by (simp add: pc1_def blank_pc_def)
qed

end
