(* ===== verification/SshAccess.thy ===== *)
theory SshAccess imports AgentLink begin

text \<open>
  What the server sends to the machines over SSH: the host keys trusted on first use
  (\<open>remote/lib/ssh-host-key.js\<close>), the terminal (\<open>remote/routes/ssh.js\<close>), the scripts
  (\<open>inventory/routes/scripts.js\<close>), the restart of the agents and the reset of a fingerprint
  (\<open>inventory/routes/devices.js\<close>). SHA-256 is a parameter, \<open>ssh2\<close> is seen through its events: a
  handshake that presents a key, \<open>ready\<close>, data, the end. Texts are Latin-1, so the blanks of
  PostgreSQL's \<open>[[:space:]]\<close> with the non-breaking space are \<open>js_space\<close>.
\<close>

section \<open>Addresses\<close>

text \<open>\<open>net.isIP\<close>: an IPv4 address, or an IPv6 address with an optional zone.\<close>

definition hex_group :: "jsstring \<Rightarrow> bool" where
  "hex_group g \<longleftrightarrow> g \<noteq> [] \<and> length g \<le> 4 \<and> list_all hex_char g"

text \<open>How many groups a part of an address holds; the last may be an IPv4 address, worth two.\<close>

fun groups :: "bool \<Rightarrow> jsstring list \<Rightarrow> nat option" where
  "groups v4 [] = Some 0"
| "groups v4 [g] = (if hex_group g then Some 1 else if v4 \<and> parse_ipv4 g \<noteq> None then Some 2 else None)"
| "groups v4 (g # gs) = (if hex_group g then map_option Suc (groups v4 gs) else None)"

definition part_groups :: "bool \<Rightarrow> jsstring \<Rightarrow> nat option" where
  "part_groups v4 s = (if s = [] then Some 0 else groups v4 (js_split (CHR '':'') s))"

definition zone_char :: "char \<Rightarrow> bool" where
  "zone_char c \<longleftrightarrow> alpha_char c \<or> digit_char c \<or> c \<in> {CHR ''-'', CHR ''.'', CHR '':''}"

definition isIPv6 :: "jsstring \<Rightarrow> bool" where
  "isIPv6 s =
     (let a = takeWhile (\<lambda>c. c \<noteq> CHR ''%'') s; z = dropWhile (\<lambda>c. c \<noteq> CHR ''%'') s in
      (z = [] \<or> (tl z \<noteq> [] \<and> list_all zone_char (tl z))) \<and>
      (case js_index_of ''::'' a of
         None \<Rightarrow> a \<noteq> [] \<and> part_groups True a = Some 8
       | Some i \<Rightarrow> (case (part_groups False (take i a), part_groups True (drop (i + 2) a)) of
                      (Some m, Some n) \<Rightarrow> m + n \<le> 7 | _ \<Rightarrow> False)))"

definition isIP :: "jsstring \<Rightarrow> bool" where
  "isIP s \<longleftrightarrow> parse_ipv4 s \<noteq> None \<or> isIPv6 s"

section \<open>Fingerprints\<close>

text \<open>\<open>replace(/=+$/, '')\<close>.\<close>

definition strip_pad :: "jsstring \<Rightarrow> jsstring" where
  "strip_pad s = rev (dropWhile (\<lambda>c. c = CHR ''='') (rev s))"

definition hostKeyFingerprint :: "(bytes \<Rightarrow> bytes) \<Rightarrow> bytes \<Rightarrow> jsstring" where
  "hostKeyFingerprint sha key = strip_pad (b64_enc (sha key))"

definition drop_prefix :: "jsstring \<Rightarrow> jsstring" where
  "drop_prefix s = (if js_lower (take 7 s) = ''sha256:'' then drop 7 s else s)"

definition normalizeFingerprint :: "jsstring option \<Rightarrow> jsstring option" where
  "normalizeFingerprint fp =
     (case fp of
        None \<Rightarrow> None
      | Some s \<Rightarrow> let v = strip_pad (js_trim (drop_prefix (js_trim s))) in if v = [] then None else Some v)"

text \<open>The regular expression of the update: nothing but blanks, the prefix and padding.\<close>

definition blankFingerprint :: "jsstring option \<Rightarrow> bool" where
  "blankFingerprint fp =
     (case fp of
        None \<Rightarrow> True
      | Some s \<Rightarrow> list_all (\<lambda>c. js_space c \<or> c = CHR ''='') (drop_prefix (dropWhile js_space s)))"

datatype policy = Tofu | Strict

definition hostKeyPolicy :: "jsstring option \<Rightarrow> policy" where
  "hostKeyPolicy raw = (if js_lower (js_trim (or_else raw [])) = ''strict'' then Strict else Tofu)"

section \<open>State\<close>

record ssh_dev =
  sd_id :: uuid
  sd_hostname :: jsstring
  sd_ip :: "jsstring option"
  sd_pull :: bool
  sd_fp :: "jsstring option"
  sd_learned :: "time option"

datatype ssh_audit =
    Key_mismatch uuid "jsstring option" jsstring
  | Key_learned uuid jsstring
  | Key_reset uuid "jsstring option"
  | Ssh_opened uuid uuid "jsstring \<times> jsstring"
  | Ssh_closed uuid uuid int

record ssh_db =
  sb_devs :: "ssh_dev list"
  sb_rows :: "remote_row list"
  sb_logs :: "(uuid, (time \<times> jsstring \<times> jsstring) list \<times> nat \<times> bool) jsmap"
  sb_audit :: "ssh_audit list"

definition ssh_log :: "ssh_audit \<Rightarrow> ssh_db \<Rightarrow> ssh_db" where
  "ssh_log e d = d\<lparr>sb_audit := sb_audit d @ [e]\<rparr>"

definition find_dev :: "uuid \<Rightarrow> ssh_db \<Rightarrow> ssh_dev option" where
  "find_dev v d = find (\<lambda>x. sd_id x = v) (sb_devs d)"

definition loadKnownHostKey :: "uuid \<Rightarrow> ssh_db \<Rightarrow> jsstring option option" where
  "loadKnownHostKey v d = map_option (\<lambda>x. normalizeFingerprint (sd_fp x)) (find_dev v d)"

section \<open>The guard of a connection\<close>

datatype refusal = Unexpected_key | Unknown_machine | No_fingerprint | Check_failed

record guard =
  gd_device :: uuid
  gd_policy :: policy
  gd_pending :: "jsstring option"
  gd_accepted :: "jsstring option"
  gd_refused :: "refusal option"

definition hostKeyGuard :: "policy \<Rightarrow> uuid \<Rightarrow> guard" where
  "hostKeyGuard p v = \<lparr>gd_device = v, gd_policy = p, gd_pending = None, gd_accepted = None, gd_refused = None\<rparr>"

text \<open>The first refusal is the one reported.\<close>

definition refuse :: "refusal \<Rightarrow> guard \<Rightarrow> guard" where
  "refuse r g = (if gd_refused g = None then g\<lparr>gd_refused := Some r\<rparr> else g)"

definition mismatch :: "jsstring option \<Rightarrow> jsstring \<Rightarrow> guard \<Rightarrow> ssh_db \<Rightarrow> bool \<times> guard \<times> ssh_db" where
  "mismatch expected fp g d = (False, refuse Unexpected_key g, ssh_log (Key_mismatch (gd_device g) expected fp) d)"

text \<open>\<open>db_ok\<close>: the query succeeds. The result is what \<open>verify\<close> is called with.\<close>

definition hostVerifier :: "bool \<Rightarrow> jsstring \<Rightarrow> guard \<Rightarrow> ssh_db \<Rightarrow> bool \<times> guard \<times> ssh_db" where
  "hostVerifier db_ok fp g d =
     (case gd_accepted g of
        Some a \<Rightarrow> if fp = a then (True, g, d) else mismatch (Some a) fp g d
      | None \<Rightarrow>
          if \<not> db_ok then (False, refuse Check_failed g, d)
          else
            (case loadKnownHostKey (gd_device g) d of
               None \<Rightarrow> (False, refuse Unknown_machine g, d)
             | Some (Some known) \<Rightarrow> if fp = known then (True, g\<lparr>gd_accepted := Some fp\<rparr>, d) else mismatch (Some known) fp g d
             | Some None \<Rightarrow>
                 if gd_policy g = Strict then (False, refuse No_fingerprint g, d)
                 else (True, g\<lparr>gd_pending := Some fp, gd_accepted := Some fp\<rparr>, d)))"

definition learn_row :: "uuid \<Rightarrow> ssh_dev \<Rightarrow> bool" where
  "learn_row v x \<longleftrightarrow> sd_id x = v \<and> blankFingerprint (sd_fp x)"

text \<open>\<open>mid\<close> is what other connections do between the update and the second reading.\<close>

definition confirm :: "(ssh_db \<Rightarrow> ssh_db) \<Rightarrow> bool \<Rightarrow> time \<Rightarrow> guard \<Rightarrow> ssh_db \<Rightarrow> bool \<times> guard \<times> ssh_db" where
  "confirm mid db_ok now g d =
     (if gd_refused g \<noteq> None then (False, g, d)
      else
        (case gd_pending g of
           None \<Rightarrow> (True, g, d)
         | Some fp \<Rightarrow>
             if \<not> db_ok then (False, refuse Check_failed g, d)
             else if list_ex (learn_row (gd_device g)) (sb_devs d)
             then (True, g\<lparr>gd_pending := None\<rparr>,
                   ssh_log (Key_learned (gd_device g) fp)
                     (d\<lparr>sb_devs := update_rows (learn_row (gd_device g)) (\<lambda>x. x\<lparr>sd_fp := Some fp, sd_learned := Some now\<rparr>) (sb_devs d)\<rparr>))
             else
               let d1 = mid d in
               (case loadKnownHostKey (gd_device g) d1 of
                  None \<Rightarrow> (False, refuse Unknown_machine g, d1)
                | Some known \<Rightarrow> if known = Some fp then (True, g\<lparr>gd_pending := None\<rparr>, d1) else mismatch known fp g d1)))"

section \<open>Connections\<close>

text \<open>
  A connection to a machine, for a terminal or for one command; \<open>lk_ready\<close>: confirmed, so that
  the shell or the command runs. What the machines were sent, and the keys that became trusted
  (compared with the one stored, or stored) or were forgotten, are kept in the order they came.
\<close>

datatype purpose = Terminal uuid | Command bytes

record link =
  lk_guard :: guard
  lk_purpose :: purpose
  lk_ready :: bool
  lk_open :: bool
  lk_failed :: bool
  lk_by :: "jsstring option"
  lk_started :: time
  lk_buffer :: buffer

datatype trace = Trusted uuid jsstring | Forgotten uuid | Sent uuid jsstring bytes

record ssh_world =
  sw_db :: ssh_db
  sw_links :: "(nat, link) jsmap"
  sw_trace :: "trace list"
  sw_browser :: "(nat \<times> jsstring) list"

definition tell :: "nat \<Rightarrow> jsstring \<Rightarrow> ssh_world \<Rightarrow> ssh_world" where
  "tell c kind w = w\<lparr>sw_browser := sw_browser w @ [(c, kind)]\<rparr>"

definition note_trace :: "trace \<Rightarrow> ssh_world \<Rightarrow> ssh_world" where
  "note_trace e w = w\<lparr>sw_trace := sw_trace w @ [e]\<rparr>"

definition set_link :: "nat \<Rightarrow> link \<Rightarrow> ssh_world \<Rightarrow> ssh_world" where
  "set_link c l w = w\<lparr>sw_links := jm_set c l (sw_links w)\<rparr>"

definition new_link :: "policy \<Rightarrow> time \<Rightarrow> uuid \<Rightarrow> purpose \<Rightarrow> jsstring option \<Rightarrow> link" where
  "new_link p now v pu who =
     \<lparr>lk_guard = hostKeyGuard p v, lk_purpose = pu, lk_ready = False, lk_open = True, lk_failed = False, lk_by = who,
      lk_started = now, lk_buffer = new_buffer now\<rparr>"

record ssh_grant =
  sg_device :: uuid
  sg_entra :: "jsstring option"
  sg_name :: "jsstring option"
  sg_reason :: "jsstring \<times> jsstring"

datatype ssh_error =
    Ssh_device_required | Ssh_bad_reason reason_error | Ssh_unknown | Ssh_pull
  | Ssh_nonce consume_error | Ssh_other_device | Ssh_no_ip | Ssh_bad_ip

definition sshGrant ::
    "(json \<Rightarrow> jsstring) \<Rightarrow> time \<Rightarrow> jsstring \<Rightarrow> jsstring option \<Rightarrow> jsstring option \<Rightarrow> uuid option \<Rightarrow> json option \<Rightarrow> ssh_db \<Rightarrow>
      ssh_grant grant_store \<Rightarrow> (ssh_error + jsstring \<times> rat) \<times> ssh_grant grant_store" where
  "sshGrant str now nonce entra name device reason d gs =
     (case device of
        None \<Rightarrow> (Inl Ssh_device_required, gs)
      | Some v \<Rightarrow>
         (case parseReason str reason of
            Inl e \<Rightarrow> (Inl (Ssh_bad_reason e), gs)
          | Inr why \<Rightarrow>
             (case find_dev v d of
                None \<Rightarrow> (Inl Ssh_unknown, gs)
              | Some x \<Rightarrow>
                  if sd_pull x then (Inl Ssh_pull, gs)
                  else map_prod Inr id (grant_create 30000 now nonce
                         \<lparr>sg_device = v, sg_entra = entra, sg_name = name, sg_reason = why\<rparr> gs))))"

text \<open>\<open>WS GET /api/ssh/:deviceId\<close> up to the connection: \<open>c\<close> the connection, \<open>sid\<close> the row of the session.\<close>

definition sshOpen ::
    "policy \<Rightarrow> time \<Rightarrow> jsstring option \<Rightarrow> uuid \<Rightarrow> nat \<Rightarrow> uuid \<Rightarrow> ssh_world \<Rightarrow> ssh_grant grant_store \<Rightarrow>
      (ssh_error option \<times> ssh_world) \<times> ssh_grant grant_store" where
  "sshOpen p now nonce v c sid w gs =
     (case grant_consume now nonce gs of
        (Inl e, gs1) \<Rightarrow> ((Some (Ssh_nonce e), tell c ''error'' w), gs1)
      | (Inr g, gs1) \<Rightarrow>
          let pl = g_payload g in
          if sg_device pl \<noteq> v then ((Some Ssh_other_device, tell c ''error'' w), gs1)
          else
            (case Option.bind (find_dev v (sw_db w)) sd_ip of
               None \<Rightarrow> ((Some Ssh_no_ip, tell c ''error'' w), gs1)
             | Some ip \<Rightarrow>
                 if ip = [] then ((Some Ssh_no_ip, tell c ''error'' w), gs1)
                 else if \<not> isIP ip then ((Some Ssh_bad_ip, tell c ''error'' w), gs1)
                 else
                   let d = sw_db w;
                       row = \<lparr>rm_id = sid, rm_device = v, rm_by = sg_name pl, rm_takeover = None, rm_ended = None\<rparr>
                   in ((None, tell c ''status''
                         (set_link c (new_link p now v (Terminal sid) (sg_name pl))
                           (w\<lparr>sw_db := ssh_log (Ssh_opened v sid (sg_reason pl)) (d\<lparr>sb_rows := sb_rows d @ [row]\<rparr>)\<rparr>))), gs1)))"

text \<open>A handshake: \<open>fp\<close> is the fingerprint of the key presented; a refused one ends the connection.\<close>

definition sshHandshake :: "bool \<Rightarrow> nat \<Rightarrow> jsstring \<Rightarrow> ssh_world \<Rightarrow> ssh_world" where
  "sshHandshake db_ok c fp w =
     (case jm_get (sw_links w) c of
        None \<Rightarrow> w
      | Some l \<Rightarrow>
          if \<not> lk_open l then w
          else
            (case hostVerifier db_ok fp (lk_guard l) (sw_db w) of
               (ok, g, d) \<Rightarrow>
                 let w1 = set_link c (l\<lparr>lk_guard := g, lk_open := ok, lk_failed := (lk_failed l \<or> \<not> ok)\<rparr>) (w\<lparr>sw_db := d\<rparr>)
                 in if ok \<and> gd_accepted (lk_guard l) = None \<and> gd_pending g = None
                    then note_trace (Trusted (gd_device g) fp) w1 else w1))"

text \<open>\<open>ready\<close>, which \<open>ssh2\<close> emits after a handshake it accepted; a command runs at once.\<close>

definition sshReady :: "(ssh_db \<Rightarrow> ssh_db) \<Rightarrow> bool \<Rightarrow> time \<Rightarrow> nat \<Rightarrow> ssh_world \<Rightarrow> ssh_world" where
  "sshReady mid db_ok now c w =
     (case jm_get (sw_links w) c of
        None \<Rightarrow> w
      | Some l \<Rightarrow>
         (case gd_accepted (lk_guard l) of
            None \<Rightarrow> w
          | Some fp \<Rightarrow>
              if \<not> lk_open l \<or> lk_ready l then w
              else
                (case confirm mid db_ok now (lk_guard l) (sw_db w) of
                   (ok, g, d) \<Rightarrow>
                     let w1 = set_link c (l\<lparr>lk_guard := g, lk_ready := ok, lk_open := ok\<rparr>) (w\<lparr>sw_db := d\<rparr>)
                     in if \<not> ok then w1
                        else
                          let w2 = (if gd_pending (lk_guard l) \<noteq> None then note_trace (Trusted (gd_device g) fp) w1 else w1) in
                          (case lk_purpose l of
                             Terminal sid \<Rightarrow> tell c ''status'' w2
                           | Command code \<Rightarrow> note_trace (Sent (gd_device g) fp code) w2))))"

section \<open>A terminal\<close>

text \<open>What the administrator types, and the size of the window.\<close>

definition sshInput :: "time \<Rightarrow> nat \<Rightarrow> bytes \<Rightarrow> ssh_world \<Rightarrow> ssh_world" where
  "sshInput now c raw w =
     (case jm_get (sw_links w) c of
        None \<Rightarrow> w
      | Some l \<Rightarrow>
         (case (lk_purpose l, gd_accepted (lk_guard l)) of
            (Terminal sid, Some fp) \<Rightarrow>
              if lk_open l \<and> lk_ready l
              then note_trace (Sent (gd_device (lk_guard l)) fp raw)
                     (set_link c (l\<lparr>lk_buffer := buffer_add DEFAULT_MAX_FRAMES DEFAULT_MAX_BYTES now ''in'' raw (lk_buffer l)\<rparr>) w)
              else w
          | _ \<Rightarrow> w))"

text \<open>What the machine answers, on either stream.\<close>

definition sshData :: "time \<Rightarrow> nat \<Rightarrow> bytes \<Rightarrow> ssh_world \<Rightarrow> ssh_world" where
  "sshData now c raw w =
     (case jm_get (sw_links w) c of
        None \<Rightarrow> w
      | Some l \<Rightarrow>
         (case lk_purpose l of
            Terminal sid \<Rightarrow>
              if lk_open l \<and> lk_ready l
              then tell c ''data''
                     (set_link c (l\<lparr>lk_buffer := buffer_add DEFAULT_MAX_FRAMES DEFAULT_MAX_BYTES now ''out'' raw (lk_buffer l)\<rparr>) w)
              else w
          | Command code \<Rightarrow> w))"

text \<open>\<open>ssh2\<close> reports an error: told once, unless the key was refused.\<close>

definition sshError :: "nat \<Rightarrow> ssh_world \<Rightarrow> ssh_world" where
  "sshError c w =
     (case jm_get (sw_links w) c of
        None \<Rightarrow> w
      | Some l \<Rightarrow>
          let w1 = set_link c (l\<lparr>lk_open := False, lk_failed := True\<rparr>) w in
          if gd_refused (lk_guard l) = None \<and> \<not> lk_failed l then tell c ''error'' w1 else w1)"

text \<open>The end of the connection of a terminal: the capture is stored, the session ended.\<close>

definition store_ssh_log :: "uuid \<Rightarrow> buffer \<Rightarrow> ssh_db \<Rightarrow> ssh_db" where
  "store_ssh_log sid b d =
     (case fst (buffer_flush b) of
        None \<Rightarrow> d
      | Some row \<Rightarrow> if jm_get (sb_logs d) sid = None then d\<lparr>sb_logs := jm_set sid row (sb_logs d)\<rparr> else d)"

definition sshEnd :: "time \<Rightarrow> nat \<Rightarrow> ssh_world \<Rightarrow> ssh_world" where
  "sshEnd now c w =
     (case jm_get (sw_links w) c of
        None \<Rightarrow> w
      | Some l \<Rightarrow>
         (case lk_purpose l of
            Command code \<Rightarrow> w\<lparr>sw_links := jm_del c (sw_links w)\<rparr>
          | Terminal sid \<Rightarrow>
              let w1 = (if \<not> lk_ready l \<and> gd_refused (lk_guard l) = None \<and> \<not> lk_failed l then tell c ''error'' w else w);
                  d = store_ssh_log sid (lk_buffer l) (sw_db w1);
                  d1 = ssh_log (Ssh_closed (gd_device (lk_guard l)) sid (seconds (now - lk_started l)))
                         (d\<lparr>sb_rows := update_rows (\<lambda>r. rm_id r = sid) (\<lambda>r. r\<lparr>rm_ended := Some (now, [])\<rparr>) (sb_rows d)\<rparr>)
              in w1\<lparr>sw_db := d1, sw_links := jm_del c (sw_links w1)\<rparr>))"

section \<open>Commands\<close>

text \<open>The machines a script goes to, and those whose agent is restarted; the others are skipped.\<close>

definition scriptTargets :: "uuid list \<Rightarrow> ssh_db \<Rightarrow> ssh_dev list" where
  "scriptTargets ids d = filter (\<lambda>x. sd_id x \<in> set ids \<and> sd_ip x \<noteq> None \<and> \<not> sd_pull x \<and> isIP (the (sd_ip x))) (sb_devs d)"

definition restartable :: "ssh_dev \<Rightarrow> bool" where
  "restartable x \<longleftrightarrow> \<not> sd_pull x \<and> truthy (sd_ip x) \<and> isIP (the (sd_ip x))"

definition forceCheckinTargets :: "uuid list \<Rightarrow> ssh_db \<Rightarrow> ssh_dev list \<times> nat" where
  "forceCheckinTargets ids d =
     (let rows = filter (\<lambda>x. sd_id x \<in> set ids) (sb_devs d) in
      (filter restartable rows, length (filter (\<lambda>x. \<not> restartable x) rows)))"

definition service_name :: "jsstring \<Rightarrow> bool" where
  "service_name s \<longleftrightarrow> s \<noteq> [] \<and> list_all (\<lambda>c. word_char c \<or> c = CHR ''-'') s"

definition serviceNames :: "jsstring option \<Rightarrow> jsstring list" where
  "serviceNames legacy = ''Opale-Agent'' # filter service_name (map js_trim (js_split (CHR '','') (or_else legacy [])))"

definition nameList :: "jsstring option \<Rightarrow> jsstring" where
  "nameList legacy = js_join '','' (map (\<lambda>n. [CHR 0x27] @ n @ [CHR 0x27]) (serviceNames legacy))"

text \<open>A connection for one command to one of these machines.\<close>

definition sshCommand :: "policy \<Rightarrow> time \<Rightarrow> ssh_dev \<Rightarrow> nat \<Rightarrow> bytes \<Rightarrow> ssh_world \<Rightarrow> ssh_world" where
  "sshCommand p now x c code w = set_link c (new_link p now (sd_id x) (Command code) None) w"

section \<open>Forgetting a key\<close>

definition resetHostKey :: "uuid \<Rightarrow> ssh_world \<Rightarrow> bool \<times> ssh_world" where
  "resetHostKey v w =
     (case find_dev v (sw_db w) of
        None \<Rightarrow> (False, w)
      | Some x \<Rightarrow>
          let d = sw_db w in
          (True, note_trace (Forgotten v)
             (w\<lparr>sw_db := ssh_log (Key_reset v (sd_fp x))
                 (d\<lparr>sb_devs := update_rows (\<lambda>y. sd_id y = v) (\<lambda>y. y\<lparr>sd_fp := None, sd_learned := None\<rparr>) (sb_devs d)\<rparr>)\<rparr>)))"

definition deleteDevice :: "uuid \<Rightarrow> ssh_world \<Rightarrow> bool \<times> ssh_world" where
  "deleteDevice v w =
     (case find_dev v (sw_db w) of
        None \<Rightarrow> (False, w)
      | Some x \<Rightarrow> (True, note_trace (Forgotten v) (w\<lparr>sw_db := (sw_db w)\<lparr>sb_devs := filter (\<lambda>y. sd_id y \<noteq> v) (sb_devs (sw_db w))\<rparr>\<rparr>)))"

end
