(* ===== verification/SshSafety.thy ===== *)
theory SshSafety imports SshAccess begin

text \<open>
  What the host keys promise (\<open>remote/lib/ssh-host-key.js\<close>): nothing is sent to a machine before its
  key was compared with the one stored, or stored; between two resets only one key is trusted for a
  machine; a first contact alone succeeds.
\<close>

section \<open>Fingerprints\<close>

definition proper :: "jsstring \<Rightarrow> bool" where
  "proper f \<longleftrightarrow> f \<noteq> [] \<and> list_all (\<lambda>c. b64_val c \<noteq> None) f"

lemma b64_val_space [simp]: "js_space c \<Longrightarrow> b64_val c = None"
  unfolding js_space_def insert_iff empty_iff by (elim disjE FalseE) (simp_all add: b64_val_def js_char_defs)

lemma b64_val_colon [simp]: "b64_val (CHR '':'') = None"
  by (simp add: b64_val_def js_char_defs)

lemma dropWhile_none: "list_all (\<lambda>c. \<not> P c) s \<Longrightarrow> dropWhile P s = s"
  by (cases s) auto

lemma strip_pad_proper: "list_all (\<lambda>c. b64_val c \<noteq> None) s \<Longrightarrow> strip_pad s = s"
proof -
  assume "list_all (\<lambda>c. b64_val c \<noteq> None) s"
  then have "list_all (\<lambda>c. \<not> c = CHR ''='') (rev s)" using b64_val_pad by (auto simp: list_all_iff)
  from dropWhile_none [of "\<lambda>c. c = CHR ''=''", OF this] show ?thesis by (simp add: strip_pad_def)
qed

lemma trim_proper: "list_all (\<lambda>c. b64_val c \<noteq> None) s \<Longrightarrow> js_trim s = s"
proof -
  assume "list_all (\<lambda>c. b64_val c \<noteq> None) s"
  then have "list_all (\<lambda>c. \<not> js_space c) s" "list_all (\<lambda>c. \<not> js_space c) (rev s)" by (auto simp: list_all_iff)
  then show ?thesis by (simp add: js_trim_def dropWhile_none)
qed

lemma lower_colon: "lower_char c = CHR '':'' \<Longrightarrow> c = CHR '':''"
  by (auto simp: lower_char_def char_eq_iff Let_def split: if_splits)

lemma drop_prefix_proper: "list_all (\<lambda>c. b64_val c \<noteq> None) s \<Longrightarrow> drop_prefix s = s"
proof -
  assume a: "list_all (\<lambda>c. b64_val c \<noteq> None) s"
  have "js_lower (take 7 s) \<noteq> ''sha256:''"
  proof
    assume e: "js_lower (take 7 s) = ''sha256:''"
    then have "length (js_lower (take 7 s)) = length ''sha256:''" by simp
    then have len: "7 \<le> length s" by simp
    from e have "js_lower (take 7 s) ! 6 = CHR '':''" by simp
    with len have "lower_char (s ! 6) = CHR '':''" by (simp add: js_lower_def)
    then have "s ! 6 = CHR '':''" by (rule lower_colon)
    moreover have "s ! 6 \<in> set s" using len by simp
    ultimately show False using a by (auto simp: list_all_iff)
  qed
  then show ?thesis by (simp add: drop_prefix_def)
qed

lemma normalize_proper: "proper f \<Longrightarrow> normalizeFingerprint (Some f) = Some f"
  by (simp add: proper_def normalizeFingerprint_def trim_proper drop_prefix_proper strip_pad_proper)

lemma b64_digit_known [simp]: "\<exists>v. b64_val (b64_digit n) = Some v"
proof (cases "n < 64")
  case False
  then have "b64_digit n = b64_digit 63" by (simp add: b64_digit_def)
  then show ?thesis using b64_val_digit [of 63] by simp
qed simp

lemma b64_enc_shape:
  "\<exists>a p. b64_enc bs = a @ replicate p (CHR ''='') \<and> list_all (\<lambda>c. b64_val c \<noteq> None) a \<and> (bs \<noteq> [] \<longrightarrow> a \<noteq> [])"
proof (induction bs rule: b64_enc.induct)
  case 1
  show ?case by (intro exI [of _ "[]"] exI [of _ 0]) simp
next
  case (2 a)
  show ?case
    by (intro exI [of _ "[b64_digit (of_char a div 4), b64_digit (of_char a mod 4 * 16)]"] exI [of _ 2]) (simp add: Let_def numeral_2_eq_2)
next
  case (3 a b)
  show ?case
    by (intro exI [of _ "[b64_digit (of_char a div 4), b64_digit (of_char a mod 4 * 16 + of_char b div 16), b64_digit (of_char b mod 16 * 4)]"]
        exI [of _ 1]) (simp add: Let_def)
next
  case (4 a b c rest)
  then obtain x p where x: "b64_enc rest = x @ replicate p (CHR ''='')" "list_all (\<lambda>c. b64_val c \<noteq> None) x" by blast
  let ?q = "[b64_digit (of_char a div 4), b64_digit (of_char a mod 4 * 16 + of_char b div 16),
     b64_digit (of_char b mod 16 * 4 + of_char c div 64), b64_digit (of_char c mod 64)]"
  show ?case by (intro exI [of _ "?q @ x"] exI [of _ p]) (use x(2) in \<open>simp add: Let_def x(1)\<close>)
qed

text \<open>A fingerprint of a digest that is not empty keeps its form when it is stored and read again.\<close>

lemma fingerprint_proper:
  assumes "sha key \<noteq> []"
  shows "proper (hostKeyFingerprint sha key)"
proof -
  obtain a p where a: "b64_enc (sha key) = a @ replicate p (CHR ''='')" "list_all (\<lambda>c. b64_val c \<noteq> None) a" "a \<noteq> []"
    using b64_enc_shape [of "sha key"] assms by blast
  have "dropWhile (\<lambda>c. c = CHR ''='') (replicate p (CHR ''='') @ xs) = dropWhile (\<lambda>c. c = CHR ''='') xs" for xs
    by (induction p) simp_all
  then have "strip_pad (a @ replicate p (CHR ''='')) = strip_pad a" by (simp add: strip_pad_def)
  with a strip_pad_proper [OF a(2)] show ?thesis by (simp add: hostKeyFingerprint_def proper_def)
qed

text \<open>What is read as no fingerprint can be replaced: the update accepts it.\<close>

lemma strip_pad_Nil: "strip_pad s = [] \<Longrightarrow> list_all (\<lambda>c. c = CHR ''='') s"
  by (auto simp: strip_pad_def dropWhile_eq_Nil_conv list_all_iff)

lemma js_trim_chars: "c \<in> set s \<Longrightarrow> c \<in> set (js_trim s) \<or> js_space c"
proof -
  assume "c \<in> set s"
  then have "c \<in> set (takeWhile js_space s) \<or> c \<in> set (dropWhile js_space s)" by (metis Un_iff set_append takeWhile_dropWhile_id)
  then show ?thesis
  proof
    assume "c \<in> set (takeWhile js_space s)"
    then show ?thesis by (auto dest: set_takeWhileD)
  next
    let ?r = "rev (dropWhile js_space s)"
    assume "c \<in> set (dropWhile js_space s)"
    then have "c \<in> set ?r" by simp
    then have "c \<in> set (takeWhile js_space ?r) \<or> c \<in> set (dropWhile js_space ?r)" by (metis Un_iff set_append takeWhile_dropWhile_id)
    then show ?thesis by (auto simp: js_trim_def dest: set_takeWhileD)
  qed
qed

lemma js_trim_left: "\<exists>z. dropWhile js_space s = js_trim s @ z \<and> list_all js_space z"
proof -
  let ?d = "dropWhile js_space s"
  have "?d = rev (dropWhile js_space (rev ?d)) @ rev (takeWhile js_space (rev ?d))"
    by (metis rev_append rev_rev_ident takeWhile_dropWhile_id)
  moreover have "list_all js_space (rev (takeWhile js_space (rev ?d)))" by (auto simp: list_all_iff dest: set_takeWhileD)
  ultimately show ?thesis unfolding js_trim_def by blast
qed

lemma no_fingerprint_is_blank: "normalizeFingerprint fp = None \<Longrightarrow> blankFingerprint fp"
proof (cases fp)
  case (Some s)
  assume "normalizeFingerprint fp = None"
  with Some have n: "strip_pad (js_trim (drop_prefix (js_trim s))) = []" by (simp add: normalizeFingerprint_def Let_def split: if_splits)
  have p: "list_all (\<lambda>c. js_space c \<or> c = CHR ''='') (drop_prefix (js_trim s))"
    using strip_pad_Nil [OF n] js_trim_chars by (auto simp: list_all_iff)
  obtain z where z: "dropWhile js_space s = js_trim s @ z" "list_all js_space z" using js_trim_left by blast
  have "list_all (\<lambda>c. js_space c \<or> c = CHR ''='') (drop_prefix (js_trim s @ z))"
  proof (cases "js_lower (take 7 (js_trim s)) = ''sha256:''")
    case True
    then have "length (js_lower (take 7 (js_trim s))) = length ''sha256:''" by simp
    then have "7 \<le> length (js_trim s)" by simp
    with True p z(2) show ?thesis by (auto simp: drop_prefix_def list_all_iff)
  next
    case False
    with p have q: "list_all (\<lambda>c. js_space c \<or> c = CHR ''='') (js_trim s @ z)" using z(2) by (auto simp: drop_prefix_def list_all_iff)
    then have "list_all (\<lambda>c. js_space c \<or> c = CHR ''='') (drop 7 (js_trim s @ z))" by (auto simp: list_all_iff dest: in_set_dropD)
    with q show ?thesis by (simp add: drop_prefix_def)
  qed
  with Some z(1) show ?thesis by (simp add: blankFingerprint_def)
qed (simp add: blankFingerprint_def)

text \<open>What can be replaced is no fingerprint of a key.\<close>

lemma blank_not_proper: "blankFingerprint fp \<Longrightarrow> proper f \<Longrightarrow> normalizeFingerprint fp \<noteq> Some f"
proof
  assume b: "blankFingerprint fp" and f: "proper f" and n: "normalizeFingerprint fp = Some f"
  then obtain s where s: "fp = Some s" "f = strip_pad (js_trim (drop_prefix (js_trim s)))"
    by (auto simp: normalizeFingerprint_def Let_def split: option.splits if_splits)
  obtain z where z: "dropWhile js_space s = js_trim s @ z" "list_all js_space z" using js_trim_left by blast
  have sub: "set (strip_pad t) \<subseteq> set t" "set (js_trim t) \<subseteq> set t" for t
    by (auto simp: strip_pad_def js_trim_def dest!: set_dropWhileD)
  have c: "hd f \<in> set f" using f by (simp add: proper_def)
  then have "hd f \<in> set (drop_prefix (js_trim s))" using s(2) sub by blast
  moreover have "set (drop_prefix (js_trim s)) \<subseteq> set (drop_prefix (js_trim s @ z))"
  proof (cases "js_lower (take 7 (js_trim s)) = ''sha256:''")
    case True
    then have "length (js_lower (take 7 (js_trim s))) = length ''sha256:''" by simp
    then have "7 \<le> length (js_trim s)" by simp
    with True show ?thesis by (auto simp: drop_prefix_def)
  next
    case False
    show ?thesis
    proof (cases "js_lower (take 7 (js_trim s @ z)) = ''sha256:''")
      case True
      then have "length (js_lower (take 7 (js_trim s @ z))) = length ''sha256:''" by simp
      moreover have l: "length (js_trim s) < 7" using False True by (cases "7 \<le> length (js_trim s)") auto
      ultimately have "z \<noteq> []" by auto
      with l have "hd z \<in> set (take 7 (js_trim s @ z))" by (cases z) (auto simp: take_Cons')
      then have "lower_char (hd z) \<in> set (js_lower (take 7 (js_trim s @ z)))" unfolding js_lower_def set_map by (rule imageI)
      then have "lower_char (hd z) \<in> set ''sha256:''" unfolding True .
      moreover have "js_space (lower_char (hd z))" using z(2) \<open>z \<noteq> []\<close> by (cases z) simp_all
      moreover have "list_all (\<lambda>c. \<not> js_space c) ''sha256:''" by code_simp
      ultimately have False unfolding list_all_iff by blast
      then show ?thesis ..
    qed (use False in \<open>auto simp: drop_prefix_def\<close>)
  qed
  ultimately have "js_space (hd f) \<or> hd f = CHR ''=''" using b s(1) z(1) by (auto simp: blankFingerprint_def list_all_iff)
  moreover have "b64_val (hd f) \<noteq> None" using f c by (auto simp: proper_def list_all_iff)
  ultimately show False using b64_val_pad by auto
qed

section \<open>Traces\<close>

definition recent_step :: "uuid \<Rightarrow> jsstring list \<Rightarrow> trace \<Rightarrow> jsstring list" where
  "recent_step v fs e =
     (case e of Trusted w f \<Rightarrow> if w = v then f # fs else fs | Forgotten w \<Rightarrow> if w = v then [] else fs | Sent w f b \<Rightarrow> fs)"

text \<open>The keys trusted for a machine since it was last forgotten.\<close>

definition recent :: "uuid \<Rightarrow> trace list \<Rightarrow> jsstring list" where
  "recent v tr = foldl (recent_step v) [] tr"

lemma recent_snoc [simp]: "recent v (tr @ [e]) = recent_step v (recent v tr) e"
  by (simp add: recent_def)

lemma recent_between:
  "Forgotten v \<notin> set ys \<Longrightarrow> f \<in> set (recent v (xs @ Trusted v f # ys))"
proof (induction ys rule: rev_induct)
  case (snoc e ys)
  then have "f \<in> set (recent v (xs @ Trusted v f # ys))" by simp
  then have "f \<in> set (recent v ((xs @ Trusted v f # ys) @ [e]))"
    unfolding recent_snoc using snoc.prems by (auto simp: recent_step_def split: trace.split)
  then show ?case by simp
next
  case Nil
  have "recent v (xs @ [Trusted v f]) = recent_step v (recent v xs) (Trusted v f)" by (rule recent_snoc)
  then show ?case by (simp add: recent_step_def)
qed

text \<open>Two keys trusted with no reset between are the same; what is sent goes to a key trusted before.\<close>

definition one_key :: "trace list \<Rightarrow> bool" where
  "one_key tr \<longleftrightarrow> (\<forall>xs v f ys g zs. tr = xs @ Trusted v f # ys @ Trusted v g # zs \<longrightarrow> Forgotten v \<notin> set ys \<longrightarrow> f = g)"

definition sent_trusted :: "trace list \<Rightarrow> bool" where
  "sent_trusted tr \<longleftrightarrow> (\<forall>xs v f b ys. tr = xs @ Sent v f b # ys \<longrightarrow> Trusted v f \<in> set xs)"

definition known_as :: "ssh_db \<Rightarrow> uuid \<Rightarrow> jsstring \<Rightarrow> bool" where
  "known_as d v f \<longleftrightarrow> proper f \<and> loadKnownHostKey v d = Some (Some f)"

definition tr_ok :: "trace list \<Rightarrow> ssh_db \<Rightarrow> bool" where
  "tr_ok tr d \<longleftrightarrow> one_key tr \<and> sent_trusted tr \<and> (\<forall>v. \<forall>f \<in> set (recent v tr). known_as d v f)"

lemma tr_okD: "tr_ok tr d \<Longrightarrow> f \<in> set (recent v tr) \<Longrightarrow> known_as d v f"
  by (auto simp: tr_ok_def)

lemma known_as_fun: "known_as d v f \<Longrightarrow> known_as d v g \<Longrightarrow> f = g"
  by (simp add: known_as_def)

lemma snoc_split:
  "tr @ [e] = xs @ y # ys \<longleftrightarrow> (ys = [] \<and> e = y \<and> tr = xs) \<or> (\<exists>zs. ys = zs @ [e] \<and> tr = xs @ y # zs)"
  by (cases ys rule: rev_cases) auto

lemma one_key_snoc:
  assumes "one_key tr" "\<And>v g f. e = Trusted v g \<Longrightarrow> f \<in> set (recent v tr) \<Longrightarrow> f = g"
  shows "one_key (tr @ [e])"
  unfolding one_key_def
proof (intro allI impI)
  fix xs v f ys g zs
  assume t: "tr @ [e] = xs @ Trusted v f # ys @ Trusted v g # zs" and n: "Forgotten v \<notin> set ys"
  then have "tr @ [e] = (xs @ Trusted v f # ys) @ Trusted v g # zs" by simp
  then consider "e = Trusted v g" "tr = xs @ Trusted v f # ys" | ws where "tr = (xs @ Trusted v f # ys) @ Trusted v g # ws"
    unfolding snoc_split by blast
  then show "f = g"
  proof cases
    case 1
    with recent_between [OF n, of f xs] assms(2) show ?thesis by simp
  next
    case 2
    with assms(1) n show ?thesis unfolding one_key_def by (metis append.assoc append_Cons)
  qed
qed

lemma sent_trusted_snoc:
  assumes "sent_trusted tr" "\<And>v f b. e = Sent v f b \<Longrightarrow> Trusted v f \<in> set tr"
  shows "sent_trusted (tr @ [e])"
  using assms unfolding sent_trusted_def snoc_split by blast

lemma tr_ok_trusted: "tr_ok tr d \<Longrightarrow> known_as d v f \<Longrightarrow> tr_ok (tr @ [Trusted v f]) d"
  by (auto simp: tr_ok_def recent_step_def intro!: one_key_snoc sent_trusted_snoc dest: known_as_fun)

lemma tr_ok_sent: "tr_ok tr d \<Longrightarrow> Trusted v f \<in> set tr \<Longrightarrow> tr_ok (tr @ [Sent v f b]) d"
  by (auto simp: tr_ok_def recent_step_def intro!: one_key_snoc sent_trusted_snoc)

lemma tr_ok_forgotten:
  assumes "tr_ok tr d" "\<And>u f. u \<noteq> v \<Longrightarrow> known_as d u f \<Longrightarrow> known_as d' u f"
  shows "tr_ok (tr @ [Forgotten v]) d'"
  using assms unfolding tr_ok_def
  by (auto simp: recent_step_def split: if_splits intro!: one_key_snoc sent_trusted_snoc)

lemma tr_ok_db: "tr_ok tr d \<Longrightarrow> (\<And>v f. known_as d v f \<Longrightarrow> known_as d' v f) \<Longrightarrow> tr_ok tr d'"
  by (auto simp: tr_ok_def)

section \<open>What the operations do to the keys\<close>

lemma load_log [simp]: "loadKnownHostKey v (ssh_log e d) = loadKnownHostKey v d"
  by (simp add: loadKnownHostKey_def find_dev_def ssh_log_def)

lemma known_cong: "sb_devs d' = sb_devs d \<Longrightarrow> known_as d' v f = known_as d v f"
  by (simp add: known_as_def loadKnownHostKey_def find_dev_def)

lemma devs_log [simp]: "sb_devs (ssh_log e d) = sb_devs d"
  by (simp add: ssh_log_def)

lemma verifier_devs: "hostVerifier ok fp g d = (r, g', d') \<Longrightarrow> sb_devs d' = sb_devs d"
  by (auto simp: hostVerifier_def mismatch_def split: if_splits option.splits)

text \<open>What a guard says: its first key is accepted, and waiting unless it was compared.\<close>

definition guard_ok :: "trace list \<Rightarrow> guard \<Rightarrow> bool" where
  "guard_ok tr g \<longleftrightarrow>
     (case gd_accepted g of
        None \<Rightarrow> gd_pending g = None
      | Some f \<Rightarrow> proper f \<and> (case gd_pending g of None \<Rightarrow> Trusted (gd_device g) f \<in> set tr | Some p \<Rightarrow> p = f))"

lemma guard_ok_mono: "guard_ok tr g \<Longrightarrow> set tr \<subseteq> set tr' \<Longrightarrow> guard_ok tr' g"
  by (auto simp: guard_ok_def split: option.splits)

lemma guard_ok_refuse [simp]: "guard_ok tr (refuse r g) = guard_ok tr g"
  by (simp add: guard_ok_def refuse_def split: option.split)

lemma refuse_fields [simp]:
  "gd_device (refuse r g) = gd_device g" "gd_accepted (refuse r g) = gd_accepted g" "gd_pending (refuse r g) = gd_pending g"
  by (simp_all add: refuse_def)

lemma verifier_cases:
  assumes "hostVerifier db_ok fp g d = (ok, g', d')"
  shows "gd_device g' = gd_device g \<and>
    (gd_accepted g' = gd_accepted g \<and> gd_pending g' = gd_pending g \<and> (ok \<longrightarrow> gd_accepted g \<noteq> None)
     \<or> ok \<and> gd_accepted g = None \<and> gd_accepted g' = Some fp \<and> gd_pending g' = gd_pending g \<and> loadKnownHostKey (gd_device g) d = Some (Some fp)
     \<or> ok \<and> gd_accepted g = None \<and> gd_accepted g' = Some fp \<and> gd_pending g' = Some fp \<and> loadKnownHostKey (gd_device g) d = Some None)"
  using assms by (auto simp: hostVerifier_def mismatch_def split: if_splits option.splits)

lemma find_dev_learn:
  "find_dev v (d\<lparr>sb_devs := update_rows (learn_row u) f (sb_devs d)\<rparr>) =
     (case find_dev v d of None \<Rightarrow> None | Some x \<Rightarrow> Some (if learn_row u x then f x else x))"
  if "\<And>x. sd_id (f x) = sd_id x"
proof -
  have "find (\<lambda>x. sd_id x = v) (update_rows (learn_row u) f xs) =
      (case find (\<lambda>x. sd_id x = v) xs of None \<Rightarrow> None | Some x \<Rightarrow> Some (if learn_row u x then f x else x))" for xs
    by (induction xs) (auto simp: that)
  then show ?thesis by (simp add: find_dev_def)
qed

text \<open>
  A confirmation that succeeds leaves the key stored for the machine, whatever the others did
  meanwhile, and touches no other machine and no key that is known.
\<close>

lemma confirm_keeps_known:
  assumes "confirm id db_ok now g d = (ok, g', d')" "known_as d v f"
  shows "known_as d' v f"
proof -
  let ?upd = "\<lambda>p x. x\<lparr>sd_fp := Some p, sd_learned := Some now\<rparr>"
  have k: "known_as (d\<lparr>sb_devs := update_rows (learn_row u) (?upd p) (sb_devs d)\<rparr>) v f" for u p
  proof -
    from assms(2) obtain x where x: "find_dev v d = Some x" "normalizeFingerprint (sd_fp x) = Some f" and f: "proper f"
      by (auto simp: known_as_def loadKnownHostKey_def)
    have "\<not> learn_row u x" using blank_not_proper [OF _ f] x(2) by (auto simp: learn_row_def)
    then show ?thesis using x f by (simp add: known_as_def loadKnownHostKey_def find_dev_learn)
  qed
  from assms(1) show ?thesis
    using k assms(2)
    by (auto simp: confirm_def mismatch_def known_cong [OF devs_log] Let_def split: if_splits option.splits)
qed

lemma confirm_cases:
  assumes "confirm mid db_ok now g d = (ok, g', d')" "gd_pending g = None \<or> (\<exists>p. gd_pending g = Some p \<and> proper p)" "distinct (map sd_id (sb_devs d))"
  shows "gd_device g' = gd_device g \<and> gd_accepted g' = gd_accepted g \<and>
    (if ok then gd_pending g' = None \<and> (\<forall>p. gd_pending g = Some p \<longrightarrow> known_as d' (gd_device g) p)
     else gd_pending g' = gd_pending g)"
proof (cases "gd_pending g")
  case None
  with assms(1) show ?thesis by (auto simp: confirm_def split: if_splits)
next
  case (Some p)
  with assms(2) have p: "proper p" by auto
  show ?thesis
  proof (cases "gd_refused g = None \<and> db_ok \<and> list_ex (learn_row (gd_device g)) (sb_devs d)")
    case True
    let ?d = "d\<lparr>sb_devs := update_rows (learn_row (gd_device g)) (\<lambda>x. x\<lparr>sd_fp := Some p, sd_learned := Some now\<rparr>) (sb_devs d)\<rparr>"
    from True Some assms(1) have r: "ok" "g' = g\<lparr>gd_pending := None\<rparr>" "d' = ssh_log (Key_learned (gd_device g) p) ?d"
      by (auto simp: confirm_def)
    from True obtain x where x: "x \<in> set (sb_devs d)" "learn_row (gd_device g) x" by (auto simp: list_ex_iff)
    then have "find_dev (gd_device g) d = Some x" using find_row_unique [OF assms(3) x(1)] by (simp add: find_dev_def learn_row_def)
    with x(2) have "loadKnownHostKey (gd_device g) ?d = Some (Some p)"
      by (simp add: loadKnownHostKey_def find_dev_learn normalize_proper [OF p])
    then have "loadKnownHostKey (gd_device g) d' = Some (Some p)" by (simp add: r(3))
    with p Some r show ?thesis by (simp add: known_as_def)
  next
    case False
    with Some p assms(1) show ?thesis
      by (auto simp: confirm_def mismatch_def known_as_def Let_def split: if_splits option.splits)
  qed
qed

lemma confirm_ids:
  assumes "confirm id db_ok now g d = (ok, g', d')"
  shows "map sd_id (sb_devs d') = map sd_id (sb_devs d)"
proof -
  have "map sd_id (update_rows P (\<lambda>x. x\<lparr>sd_fp := Some p, sd_learned := Some now\<rparr>) xs) = map sd_id xs" for P p xs
    by (induction xs) auto
  with assms show ?thesis by (auto simp: confirm_def mismatch_def Let_def split: if_splits option.splits)
qed

section \<open>The invariant\<close>

definition link_ok :: "trace list \<Rightarrow> link \<Rightarrow> bool" where
  "link_ok tr l \<longleftrightarrow> guard_ok tr (lk_guard l) \<and> (lk_ready l \<longrightarrow> gd_accepted (lk_guard l) \<noteq> None \<and> gd_pending (lk_guard l) = None)"

definition ssh_ok :: "ssh_world \<Rightarrow> bool" where
  "ssh_ok w \<longleftrightarrow> distinct (map sd_id (sb_devs (sw_db w))) \<and> tr_ok (sw_trace w) (sw_db w) \<and>
     (\<forall>c l. jm_get (sw_links w) c = Some l \<longrightarrow> link_ok (sw_trace w) l)"

lemma link_ok_mono: "link_ok tr l \<Longrightarrow> set tr \<subseteq> set tr' \<Longrightarrow> link_ok tr' l"
  by (auto simp: link_ok_def intro: guard_ok_mono)

lemma ssh_okI:
  assumes "distinct (map sd_id (sb_devs (sw_db w)))" "tr_ok (sw_trace w) (sw_db w)"
    "\<And>c l. jm_get (sw_links w) c = Some l \<Longrightarrow> link_ok (sw_trace w) l"
  shows "ssh_ok w"
  using assms by (simp add: ssh_ok_def)

lemma ssh_okD:
  assumes "ssh_ok w"
  shows "distinct (map sd_id (sb_devs (sw_db w)))" "tr_ok (sw_trace w) (sw_db w)"
    "jm_get (sw_links w) c = Some l \<Longrightarrow> link_ok (sw_trace w) l"
  using assms by (auto simp: ssh_ok_def)

lemma world_fields [simp]:
  "sw_db (tell c k w) = sw_db w" "sw_links (tell c k w) = sw_links w" "sw_trace (tell c k w) = sw_trace w"
  "sw_db (note_trace e w) = sw_db w" "sw_links (note_trace e w) = sw_links w" "sw_trace (note_trace e w) = sw_trace w @ [e]"
  "sw_db (set_link c l w) = sw_db w" "sw_links (set_link c l w) = jm_set c l (sw_links w)" "sw_trace (set_link c l w) = sw_trace w"
  by (simp_all add: tell_def note_trace_def set_link_def)

text \<open>An operation that changes one connection and keeps the keys.\<close>

lemma ssh_ok_link:
  assumes "ssh_ok w" "map sd_id (sb_devs (sw_db w')) = map sd_id (sb_devs (sw_db w))" "tr_ok (sw_trace w') (sw_db w')"
    "set (sw_trace w) \<subseteq> set (sw_trace w')" "sw_links w' = jm_set c l (sw_links w)" "link_ok (sw_trace w') l"
  shows "ssh_ok w'"
proof (rule ssh_okI)
  show "distinct (map sd_id (sb_devs (sw_db w')))" using ssh_okD(1) [OF assms(1)] assms(2) by simp
  show "link_ok (sw_trace w') m" if "jm_get (sw_links w') b = Some m" for b m
    using that assms(5,6) link_ok_mono [OF ssh_okD(3) [OF assms(1)] assms(4)] by (auto split: if_splits)
qed (use assms(3) in simp)

lemma new_link_ok: "link_ok tr (new_link p now v pu who)"
  by (simp add: link_ok_def guard_ok_def new_link_def hostKeyGuard_def)

lemma tr_ok_devs: "tr_ok tr d \<Longrightarrow> sb_devs d' = sb_devs d \<Longrightarrow> tr_ok tr d'"
  by (erule tr_ok_db) (use known_cong [of d' d] in blast)

lemma ssh_ok_tell [simp]: "ssh_ok (tell c k w) = ssh_ok w"
  by (simp add: ssh_ok_def)

lemma ssh_ok_session:
  assumes "ssh_ok w"
  shows "ssh_ok (set_link c (new_link p now v pu who) (w\<lparr>sw_db := ssh_log e ((sw_db w)\<lparr>sb_rows := rs\<rparr>)\<rparr>))"
  by (rule ssh_ok_link [OF assms, where c = c and l = "new_link p now v pu who"])
    (simp_all add: new_link_ok tr_ok_devs [OF ssh_okD(2) [OF assms]])

lemma ssh_ok_open: "ssh_ok w \<Longrightarrow> ssh_ok (snd (fst (sshOpen p now nonce v c sid w gs)))"
  by (simp add: sshOpen_def ssh_ok_session Let_def split: option.split sum.split prod.split)

lemma ssh_ok_command: "ssh_ok w \<Longrightarrow> ssh_ok (sshCommand p now x c code w)"
  by (rule ssh_ok_link [where c = c]) (auto simp: sshCommand_def new_link_ok dest: ssh_okD)

lemma ssh_ok_handshake:
  assumes "ssh_ok w" "proper fp"
  shows "ssh_ok (sshHandshake db_ok c fp w)"
proof (cases "jm_get (sw_links w) c")
  case (Some l)
  show ?thesis
  proof (cases "lk_open l")
    case True
    obtain ok g d where v: "hostVerifier db_ok fp (lk_guard l) (sw_db w) = (ok, g, d)" by (metis prod_cases3)
    note devs = verifier_devs [OF v] and cases = verifier_cases [OF v]
    have l: "link_ok (sw_trace w) l" by (rule ssh_okD(3) [OF assms(1) Some])
    have t: "tr_ok (sw_trace w) d" using tr_ok_devs [OF ssh_okD(2) [OF assms(1)] devs] .
    let ?l = "l\<lparr>lk_guard := g, lk_open := ok, lk_failed := lk_failed l \<or> \<not> ok\<rparr>"
    let ?seen = "ok \<and> gd_accepted (lk_guard l) = None \<and> gd_pending g = None"
    let ?w = "sshHandshake db_ok c fp w"
    have w: "sw_db ?w = d" "sw_links ?w = jm_set c ?l (sw_links w)"
        "sw_trace ?w = (if ?seen then sw_trace w @ [Trusted (gd_device g) fp] else sw_trace w)"
      using Some True v by (simp_all add: sshHandshake_def Let_def)
    have p: "gd_accepted (lk_guard l) = None \<Longrightarrow> gd_pending (lk_guard l) = None \<and> \<not> lk_ready l"
      using l by (auto simp: link_ok_def guard_ok_def split: option.splits)
    have known: "known_as d (gd_device g) fp" if ?seen
      using that cases assms(2) known_cong [OF devs] by (auto simp: known_as_def)
    have "tr_ok (sw_trace ?w) (sw_db ?w)" unfolding w using t known tr_ok_trusted by auto
    moreover have "link_ok (sw_trace ?w) ?l"
      using cases p l assms(2) unfolding w by (auto simp: link_ok_def guard_ok_def split: option.splits)
    moreover have "set (sw_trace w) \<subseteq> set (sw_trace ?w)" by (auto simp: w)
    ultimately show ?thesis by (intro ssh_ok_link [OF assms(1), where c = c]) (simp_all add: w devs)
  qed (simp add: sshHandshake_def Some assms)
qed (simp add: sshHandshake_def assms)

lemma ssh_ok_ready:
  assumes "ssh_ok w"
  shows "ssh_ok (sshReady id db_ok now c w)"
proof (cases "jm_get (sw_links w) c")
  case (Some l)
  have l: "link_ok (sw_trace w) l" by (rule ssh_okD(3) [OF assms Some])
  show ?thesis
  proof (cases "gd_accepted (lk_guard l) \<noteq> None \<and> lk_open l \<and> \<not> lk_ready l")
    case True
    then obtain fp where fp: "gd_accepted (lk_guard l) = Some fp" by blast
    obtain ok g d where v: "confirm id db_ok now (lk_guard l) (sw_db w) = (ok, g, d)" by (metis prod_cases3)
    have pend: "gd_pending (lk_guard l) = None \<or> (\<exists>p. gd_pending (lk_guard l) = Some p \<and> proper p)"
      using l fp by (auto simp: link_ok_def guard_ok_def split: option.splits)
    note cases = confirm_cases [OF v pend ssh_okD(1) [OF assms]]
    have t: "tr_ok (sw_trace w) d" using tr_ok_db [OF ssh_okD(2) [OF assms]] confirm_keeps_known [OF v] by blast
    let ?l = "l\<lparr>lk_guard := g, lk_ready := ok, lk_open := ok\<rparr>"
    let ?w = "sshReady id db_ok now c w"
    let ?t = "if ok \<and> gd_pending (lk_guard l) \<noteq> None then sw_trace w @ [Trusted (gd_device g) fp] else sw_trace w"
    have w: "sw_db ?w = d" "sw_links ?w = jm_set c ?l (sw_links w)"
        "sw_trace ?w = (case lk_purpose l of Terminal sid \<Rightarrow> ?t | Command code \<Rightarrow> if ok then ?t @ [Sent (gd_device g) fp code] else ?t)"
      using Some True v fp by (auto simp: sshReady_def Let_def split: purpose.split)
    have tr: "ok \<Longrightarrow> Trusted (gd_device g) fp \<in> set ?t"
      using l fp cases by (auto simp: link_ok_def guard_ok_def split: option.splits)
    have kn: "known_as d (gd_device g) fp" if "ok" "gd_pending (lk_guard l) \<noteq> None"
      using that cases l fp by (auto simp: link_ok_def guard_ok_def split: option.splits)
    have "tr_ok ?t d" using t kn tr_ok_trusted by auto
    moreover from this have "ok \<Longrightarrow> tr_ok (?t @ [Sent (gd_device g) fp code]) d" for code using tr tr_ok_sent by blast
    ultimately have "tr_ok (sw_trace ?w) (sw_db ?w)" unfolding w by (cases "lk_purpose l"; cases ok) simp_all
    moreover have sub: "set ?t \<subseteq> set (sw_trace ?w)" "set (sw_trace w) \<subseteq> set ?t" unfolding w by (auto split: purpose.split)
    moreover have "link_ok ?t ?l"
      using cases tr l fp link_ok_mono [OF l sub(2)] by (auto simp: link_ok_def guard_ok_def split: option.splits if_splits)
    then have "link_ok (sw_trace ?w) ?l" using sub(1) link_ok_mono by blast
    ultimately show ?thesis
      by (intro ssh_ok_link [OF assms, where c = c]) (auto simp: w confirm_ids [OF v])
  qed (auto simp: sshReady_def Some assms split: option.split)
qed (simp add: sshReady_def assms)

lemma ssh_ok_input: "ssh_ok w \<Longrightarrow> ssh_ok (sshInput now c raw w)"
proof (cases "jm_get (sw_links w) c")
  case (Some l)
  assume ok: "ssh_ok w"
  have l: "link_ok (sw_trace w) l" by (rule ssh_okD(3) [OF ok Some])
  show ?thesis
  proof (cases "(\<exists>sid fp. lk_purpose l = Terminal sid \<and> gd_accepted (lk_guard l) = Some fp) \<and> lk_open l \<and> lk_ready l")
    case True
    then obtain sid fp where p: "lk_purpose l = Terminal sid" "gd_accepted (lk_guard l) = Some fp" "lk_open l" "lk_ready l" by blast
    let ?l = "l\<lparr>lk_buffer := buffer_add DEFAULT_MAX_FRAMES DEFAULT_MAX_BYTES now ''in'' raw (lk_buffer l)\<rparr>"
    have "Trusted (gd_device (lk_guard l)) fp \<in> set (sw_trace w)"
      using l p by (auto simp: link_ok_def guard_ok_def split: option.splits)
    from tr_ok_sent [OF ssh_okD(2) [OF ok] this] link_ok_mono [OF l, of "sw_trace w @ [Sent (gd_device (lk_guard l)) fp raw]"]
    show ?thesis
      by (intro ssh_ok_link [OF ok, where c = c and l = ?l]) (auto simp: sshInput_def Some p link_ok_def)
  qed (use ok in \<open>auto simp: sshInput_def Some split: purpose.split option.split\<close>)
qed (simp add: sshInput_def)

text \<open>The operations that leave guards and keys alone.\<close>

lemma ssh_ok_same_guard:
  assumes "ssh_ok w" "sw_trace w' = sw_trace w" "sb_devs (sw_db w') = sb_devs (sw_db w)"
    "\<And>c l. jm_get (sw_links w') c = Some l \<Longrightarrow> \<exists>m. jm_get (sw_links w) c = Some m \<and> lk_guard l = lk_guard m \<and> lk_ready l = lk_ready m"
  shows "ssh_ok w'"
proof (rule ssh_okI)
  show "tr_ok (sw_trace w') (sw_db w')" using tr_ok_devs [OF ssh_okD(2) [OF assms(1)] assms(3)] assms(2) by simp
  show "link_ok (sw_trace w') l" if "jm_get (sw_links w') c = Some l" for c l
    using assms(4) [OF that] ssh_okD(3) [OF assms(1)] assms(2) by (auto simp: link_ok_def)
qed (use ssh_okD(1) [OF assms(1)] assms(3) in simp)

lemma ssh_ok_data: "ssh_ok w \<Longrightarrow> ssh_ok (sshData now c raw w)"
  by (erule ssh_ok_same_guard) (auto simp: sshData_def split: option.splits purpose.splits if_splits)

lemma ssh_ok_error: "ssh_ok w \<Longrightarrow> ssh_ok (sshError c w)"
  by (erule ssh_ok_same_guard) (auto simp: sshError_def Let_def split: option.splits if_splits)

lemma store_ssh_log_devs [simp]: "sb_devs (store_ssh_log sid b d) = sb_devs d"
  by (simp add: store_ssh_log_def split: option.split)

lemma ssh_ok_end: "ssh_ok w \<Longrightarrow> ssh_ok (sshEnd now c w)"
  by (erule ssh_ok_same_guard) (auto simp: sshEnd_def Let_def split: option.splits purpose.splits if_splits)

lemma find_dev_other: "u \<noteq> v \<Longrightarrow> (\<And>x. sd_id (f x) = sd_id x) \<Longrightarrow>
    find_dev u (d\<lparr>sb_devs := update_rows (\<lambda>y. sd_id y = v) f (sb_devs d)\<rparr>) = find_dev u d"
proof -
  assume u: "u \<noteq> v" and f: "\<And>x. sd_id (f x) = sd_id x"
  have "find (\<lambda>x. sd_id x = u) (update_rows (\<lambda>y. sd_id y = v) f xs) = find (\<lambda>x. sd_id x = u) xs" for xs
    using u by (induction xs) (auto simp: f)
  then show ?thesis by (simp add: find_dev_def)
qed

lemma ssh_ok_forget:
  assumes "ssh_ok w" "sw_links w' = sw_links w" "sw_trace w' = sw_trace w @ [Forgotten v]"
    "distinct (map sd_id (sb_devs (sw_db w')))" "\<And>u. u \<noteq> v \<Longrightarrow> find_dev u (sw_db w') = find_dev u (sw_db w)"
  shows "ssh_ok w'"
proof (rule ssh_okI)
  show "tr_ok (sw_trace w') (sw_db w')"
    unfolding assms(3) by (rule tr_ok_forgotten [OF ssh_okD(2) [OF assms(1)]]) (simp add: known_as_def loadKnownHostKey_def assms(5))
  show "link_ok (sw_trace w') l" if "jm_get (sw_links w') c = Some l" for c l
    using link_ok_mono [OF ssh_okD(3) [OF assms(1)], of c l "sw_trace w'"] that assms(2,3) by auto
qed (rule assms(4))

lemma ssh_ok_reset: "ssh_ok w \<Longrightarrow> ssh_ok (snd (resetHostKey v w))"
proof (cases "find_dev v (sw_db w)")
  case (Some x)
  assume ok: "ssh_ok w"
  have ids: "map sd_id (update_rows P (\<lambda>y. y\<lparr>sd_fp := None, sd_learned := None\<rparr>) xs) = map sd_id xs" for P xs
    by (induction xs) auto
  have "find_dev u (ssh_log e d) = find_dev u d" for u e d by (simp add: find_dev_def)
  with Some ids ssh_okD(1) [OF ok] show ?thesis
    by (intro ssh_ok_forget [OF ok, where v = v]) (simp_all add: resetHostKey_def find_dev_other Let_def)
qed (simp add: resetHostKey_def)

lemma ssh_ok_delete: "ssh_ok w \<Longrightarrow> ssh_ok (snd (deleteDevice v w))"
proof (cases "find_dev v (sw_db w)")
  case (Some x)
  assume ok: "ssh_ok w"
  have f: "find (\<lambda>x. sd_id x = u) (filter (\<lambda>y. sd_id y \<noteq> v) xs) = find (\<lambda>x. sd_id x = u) xs" if "u \<noteq> v" for u xs
    using that by (induction xs) auto
  with Some ssh_okD(1) [OF ok] show ?thesis
    by (intro ssh_ok_forget [OF ok, where v = v]) (simp_all add: deleteDevice_def distinct_map_filter find_dev_def)
qed (simp add: deleteDevice_def)

lemma ssh_ok_add:
  assumes "ssh_ok w" "sd_id x \<notin> sd_id ` set (sb_devs (sw_db w))"
  shows "ssh_ok (w\<lparr>sw_db := (sw_db w)\<lparr>sb_devs := sb_devs (sw_db w) @ [x]\<rparr>\<rparr>)"
proof (rule ssh_okI)
  let ?d = "(sw_db w)\<lparr>sb_devs := sb_devs (sw_db w) @ [x]\<rparr>"
  have f: "find P xs = Some y \<Longrightarrow> find P (xs @ [x]) = Some y" for P xs and y :: ssh_dev by (induction xs) (auto split: if_splits)
  have "known_as ?d v k" if "known_as (sw_db w) v k" for v k
    using that f by (fastforce simp: known_as_def loadKnownHostKey_def find_dev_def)
  then have "tr_ok (sw_trace w) ?d" using tr_ok_db [OF ssh_okD(2) [OF assms(1)]] by blast
  then show "tr_ok (sw_trace (w\<lparr>sw_db := ?d\<rparr>)) (sw_db (w\<lparr>sw_db := ?d\<rparr>))" by simp
qed (use assms ssh_okD [OF assms(1)] in auto)

section \<open>Runs\<close>

text \<open>
  The events of the connections (the keys presented are those of \<open>sha\<close>), of the administrators and
  of the table of machines, in any order; a confirmation is one of them.
\<close>

inductive ssh_step :: "(bytes \<Rightarrow> bytes) \<Rightarrow> ssh_world \<Rightarrow> ssh_world \<Rightarrow> bool" for sha where
  sh_open: "ssh_step sha w (snd (fst (sshOpen p now nonce v c sid w gs)))"
| sh_command: "x \<in> set (scriptTargets ids (sw_db w)) \<or> x \<in> set (fst (forceCheckinTargets ids (sw_db w))) \<Longrightarrow>
    ssh_step sha w (sshCommand p now x c code w)"
| sh_handshake: "ssh_step sha w (sshHandshake db_ok c (hostKeyFingerprint sha key) w)"
| sh_ready: "ssh_step sha w (sshReady id db_ok now c w)"
| sh_input: "ssh_step sha w (sshInput now c raw w)"
| sh_data: "ssh_step sha w (sshData now c raw w)"
| sh_error: "ssh_step sha w (sshError c w)"
| sh_end: "ssh_step sha w (sshEnd now c w)"
| sh_reset: "ssh_step sha w (snd (resetHostKey v w))"
| sh_delete: "ssh_step sha w (snd (deleteDevice v w))"
| sh_add: "sd_id x \<notin> sd_id ` set (sb_devs (sw_db w)) \<Longrightarrow>
    ssh_step sha w (w\<lparr>sw_db := (sw_db w)\<lparr>sb_devs := sb_devs (sw_db w) @ [x]\<rparr>\<rparr>)"

inductive ssh_runs :: "(bytes \<Rightarrow> bytes) \<Rightarrow> ssh_world \<Rightarrow> ssh_world \<Rightarrow> bool" for sha where
  sr_start: "ssh_runs sha w w"
| sr_step: "ssh_runs sha w u \<Longrightarrow> ssh_step sha u x \<Longrightarrow> ssh_runs sha w x"

definition no_machine :: ssh_world where
  "no_machine = \<lparr>sw_db = \<lparr>sb_devs = [], sb_rows = [], sb_logs = [], sb_audit = []\<rparr>, sw_links = [], sw_trace = [], sw_browser = []\<rparr>"

lemma ssh_ok_start: "ssh_ok no_machine"
  by (simp add: ssh_ok_def tr_ok_def one_key_def sent_trusted_def recent_def no_machine_def)

lemma ssh_ok_step:
  assumes "\<And>key. sha key \<noteq> []"
  shows "ssh_step sha w u \<Longrightarrow> ssh_ok w \<Longrightarrow> ssh_ok u"
  by (induction rule: ssh_step.induct)
    (simp_all add: ssh_ok_open ssh_ok_command ssh_ok_handshake fingerprint_proper assms ssh_ok_ready ssh_ok_input ssh_ok_data
      ssh_ok_error ssh_ok_end ssh_ok_reset ssh_ok_delete ssh_ok_add)

lemma ssh_ok_runs:
  assumes "\<And>key. sha key \<noteq> []"
  shows "ssh_runs sha w u \<Longrightarrow> ssh_ok w \<Longrightarrow> ssh_ok u"
  by (induction rule: ssh_runs.induct) (auto intro: ssh_ok_step [OF assms])

section \<open>Examples\<close>

definition lab_pc :: ssh_dev where
  "lab_pc = \<lparr>sd_id = 1, sd_hostname = ''LAB'', sd_ip = Some ''fd00::9'', sd_pull = False, sd_fp = Some '' SHA256: '', sd_learned = None\<rparr>"

definition lab :: ssh_world where
  "lab = no_machine\<lparr>sw_db := (sw_db no_machine)\<lparr>sb_devs := [lab_pc]\<rparr>\<rparr>"

section \<open>Properties\<close>

text \<open>
  C37: Nothing reaches an unknown host: in every run of connections, resets and deletions, what was
  sent to a machine went to a key that had become trusted for it before (compared with the one
  stored, or stored), and two keys trusted for a machine with no reset between are the same key.
\<close>

theorem data_only_to_the_trusted_key:
  assumes "\<And>key. sha key \<noteq> []" "ssh_runs sha no_machine w"
  shows "(\<forall>xs v f b ys. sw_trace w = xs @ Sent v f b # ys \<longrightarrow> Trusted v f \<in> set xs) \<and>
    (\<forall>xs v f ys g zs. sw_trace w = xs @ Trusted v f # ys @ Trusted v g # zs \<longrightarrow> Forgotten v \<notin> set ys \<longrightarrow> f = g)"
  using ssh_okD(2) [OF ssh_ok_runs [OF assms ssh_ok_start]]
  unfolding tr_ok_def sent_trusted_def one_key_def by blast

lemma data_only_to_the_trusted_key_witness:
  "\<exists>w xs f. ssh_runs (\<lambda>k. CHR ''d'' # k) no_machine w \<and> sw_trace w = xs @ [Sent 1 f ''hostname''] \<and> Trusted 1 f \<in> set xs"
proof -
  let ?sha = "\<lambda>k. CHR ''d'' # k"
  let ?u = "sshCommand Tofu 20 lab_pc 0 ''hostname'' lab"
  let ?w = "sshReady id True 30 0 (sshHandshake True 0 (hostKeyFingerprint ?sha ''key1'') ?u)"
  have "ssh_step ?sha no_machine lab"
    using sh_add [of lab_pc no_machine ?sha] by (simp add: lab_def no_machine_def)
  moreover have "lab_pc \<in> set (scriptTargets [1] (sw_db lab))" by code_simp
  then have "ssh_step ?sha lab ?u" by (intro sh_command disjI1)
  ultimately have "ssh_runs ?sha no_machine ?u" using sr_step [OF sr_step [OF sr_start]] by blast
  from sr_step [OF sr_step [OF this sh_handshake] sh_ready] have r: "ssh_runs ?sha no_machine ?w" .
  have t: "sw_trace ?w = [Trusted 1 (hostKeyFingerprint ?sha ''key1'')] @ [Sent 1 (hostKeyFingerprint ?sha ''key1'') ''hostname'']"
    by code_simp
  have "Trusted 1 (hostKeyFingerprint ?sha ''key1'') \<in> set [Trusted 1 (hostKeyFingerprint ?sha ''key1'')]"
    using data_only_to_the_trusted_key [OF _ r] t by blast
  with r t show ?thesis by blast
qed

text \<open>
  C38: A first contact succeeds and binds: for a machine without fingerprint (also one of blanks, the
  prefix or padding only), under the policy of trust on first use, the handshake is accepted, the
  confirmation stores the key, and from then on exactly that key is accepted, under both policies.
\<close>

theorem first_contact_binds_the_key:
  assumes "sha key \<noteq> []" "distinct (map sd_id (sb_devs d))" "find_dev v d = Some x" "normalizeFingerprint (sd_fp x) = None"
  shows "\<exists>g1 g2 d2. hostVerifier True (hostKeyFingerprint sha key) (hostKeyGuard Tofu v) d = (True, g1, d) \<and>
    confirm id True now g1 d = (True, g2, d2) \<and> loadKnownHostKey v d2 = Some (Some (hostKeyFingerprint sha key)) \<and>
    (\<forall>p fp. fst (hostVerifier True fp (hostKeyGuard p v) d2) \<longleftrightarrow> fp = hostKeyFingerprint sha key)"
proof -
  let ?fp = "hostKeyFingerprint sha key"
  let ?g1 = "(hostKeyGuard Tofu v)\<lparr>gd_pending := Some ?fp, gd_accepted := Some ?fp\<rparr>"
  have load: "loadKnownHostKey v d = Some None" using assms(3,4) by (simp add: loadKnownHostKey_def)
  have h: "hostVerifier True ?fp (hostKeyGuard Tofu v) d = (True, ?g1, d)"
    using load by (simp add: hostVerifier_def hostKeyGuard_def)
  have x: "x \<in> set (sb_devs d)" "sd_id x = v" using assms(3) by (auto simp: find_dev_def dest: find_SomeD)
  then have "list_ex (learn_row v) (sb_devs d)"
    using no_fingerprint_is_blank [OF assms(4)] by (auto simp: list_ex_iff learn_row_def)
  then have "\<exists>g2 d2. confirm id True now ?g1 d = (True, g2, d2)" by (simp add: confirm_def hostKeyGuard_def)
  then obtain g2 d2 where c: "confirm id True now ?g1 d = (True, g2, d2)" by blast
  have "known_as d2 v ?fp"
    using confirm_cases [OF c _ assms(2)] fingerprint_proper [of sha key] assms(1) by (simp add: hostKeyGuard_def)
  then have k: "loadKnownHostKey v d2 = Some (Some ?fp)" by (simp add: known_as_def)
  then have "fst (hostVerifier True fp (hostKeyGuard p v) d2) \<longleftrightarrow> fp = ?fp" for p fp
    by (simp add: hostVerifier_def hostKeyGuard_def mismatch_def)
  with h c k show ?thesis by blast
qed

lemma first_contact_binds_the_key_witness:
  "\<exists>g1. hostVerifier True (hostKeyFingerprint id ''key1'') (hostKeyGuard Tofu 1) (sw_db lab) = (True, g1, sw_db lab)"
proof -
  have "find_dev 1 (sw_db lab) = Some lab_pc" "normalizeFingerprint (sd_fp lab_pc) = None" "distinct (map sd_id (sb_devs (sw_db lab)))"
    by code_simp+
  from first_contact_binds_the_key [OF _ this(3,1,2), of id "''key1''" 0] show ?thesis by (metis id_apply list.distinct(1))
qed

end
