(* ===== verification/Ask.thy ===== *)
theory Ask imports Compliance begin

text \<open>
  The questions in plain words (\<open>modules/ask\<close>): the answer of a language model is a query
  specification, checked against a registry (\<open>lib/queryspec.js\<close>, \<open>lib/registry.js\<close>), its names are
  resolved (\<open>lib/resolve.js\<close>), it is compiled to SQL with parameters (\<open>lib/compile.js\<close>) and run
  (\<open>routes/ask.js\<close>). The language model, \<open>JSON.parse\<close> and the execution of the query are parameters;
  the catalogue shown to the model (\<open>describeRegistry\<close>, \<open>lib/prompt.js\<close>) is left out.

  A text of SQL is a list of pieces: fixed text and the number of a parameter (\<open>$n\<close>). In the fixed
  texts below, \<open>sql\<close> turns a backquote into the quote of SQL.
\<close>

section \<open>Pieces and values\<close>

datatype piece = Txt jsstring | Par nat

fun render :: "piece list \<Rightarrow> jsstring" where
  "render [] = []"
| "render (Txt s # ps) = s @ render ps"
| "render (Par n # ps) = CHR ''$'' # nat_str n @ render ps"

definition sql :: "jsstring \<Rightarrow> jsstring" where
  "sql s = map (\<lambda>c. if c = CHR 0x60 then CHR 0x27 else c) s"

text \<open>Lines, each after a line break.\<close>

definition lns :: "jsstring list \<Rightarrow> jsstring" where
  "lns ls = js_join [CHR 0x0A] ls"

datatype fvalue = V_str jsstring | V_num rat | V_bool bool | V_id uuid

datatype rkind = R_group | R_user | R_department | R_tag

datatype ftype = F_enum "jsstring list" | F_text | F_number | F_bool | F_resolve rkind

text \<open>Thresholds of the disks, \<open>parseInt\<close> of two settings: \<open>None\<close> is \<open>NaN\<close>.\<close>

record thresholds =
  th_warn :: "int option"
  th_critical :: "int option"

definition num_text :: "int option \<Rightarrow> jsstring" where
  "num_text n = (case n of None \<Rightarrow> ''NaN'' | Some i \<Rightarrow> int_str i)"

text \<open>
  A filter: its type, and \<open>apply(value, ctx)\<close>, which gets the number of parameters so far and gives
  the fragment and the parameters it adds.
\<close>

record fdef =
  fd_type :: ftype
  fd_apply :: "thresholds \<Rightarrow> fvalue \<Rightarrow> nat \<Rightarrow> piece list \<times> fvalue list"

text \<open>\<open>% + v + %\<close>; the other values are never given to it.\<close>

definition contains :: "fvalue \<Rightarrow> fvalue" where
  "contains v = (case v of V_str s \<Rightarrow> V_str (''%'' @ s @ ''%'') | _ \<Rightarrow> v)"

definition with_param :: "(fvalue \<Rightarrow> fvalue) \<Rightarrow> jsstring \<Rightarrow> jsstring \<Rightarrow> thresholds \<Rightarrow> fvalue \<Rightarrow> nat \<Rightarrow> piece list \<times> fvalue list" where
  "with_param f before after t v n = ([Txt before, Par (Suc n), Txt after], [f v])"

definition fixed :: "(thresholds \<Rightarrow> fvalue \<Rightarrow> jsstring) \<Rightarrow> thresholds \<Rightarrow> fvalue \<Rightarrow> nat \<Rightarrow> piece list \<times> fvalue list" where
  "fixed f t v n = ([Txt (f t v)], [])"

definition if_true :: "jsstring \<Rightarrow> jsstring \<Rightarrow> thresholds \<Rightarrow> fvalue \<Rightarrow> jsstring" where
  "if_true yes no t v = (if v = V_bool True then yes else no)"

definition fd :: "ftype \<Rightarrow> (thresholds \<Rightarrow> fvalue \<Rightarrow> nat \<Rightarrow> piece list \<times> fvalue list) \<Rightarrow> fdef" where
  "fd t f = \<lparr>fd_type = t, fd_apply = f\<rparr>"

record resource =
  rs_table :: jsstring
  rs_joins :: "jsstring list"
  rs_select :: jsstring
  rs_sort :: "(jsstring, jsstring) jsmap"
  rs_default_sort :: "jsstring \<times> bool"
  rs_default_limit :: int
  rs_max_limit :: int
  rs_filters :: "(jsstring, fdef) jsmap"
  rs_cross :: "(jsstring, fdef) jsmap"

section \<open>The registry\<close>

definition RULE_IDS :: "jsstring list" where "RULE_IDS = map ru_id RULES"

definition device_status :: "thresholds \<Rightarrow> fvalue \<Rightarrow> jsstring" where
  "device_status t v =
     (case v of
        V_str s \<Rightarrow>
          if s = ''online'' then sql ''d.last_seen > now() - interval `1 hour`''
          else if s = ''offline'' then sql ''(d.last_seen IS NULL OR d.last_seen < now() - interval `1 hour`)''
          else if s = ''critical'' then ''d.disk_used_pct >= '' @ num_text (th_critical t)
          else if s = ''warn'' then ''d.disk_used_pct >= '' @ num_text (th_warn t) @ '' AND d.disk_used_pct < '' @ num_text (th_critical t)
          else if s = ''unassigned'' then ''d.assigned_user_id IS NULL''
          else []
      | _ \<Rightarrow> [])"

definition device_search :: "thresholds \<Rightarrow> fvalue \<Rightarrow> nat \<Rightarrow> piece list \<times> fvalue list" where
  "device_search t v n =
     ([Txt ''(d.hostname ILIKE '', Par (Suc n), Txt '' OR u.email ILIKE '', Par (Suc n), Txt '' OR u.display_name ILIKE '', Par (Suc n),
       Txt '' OR d.model ILIKE '', Par (Suc n), Txt '')''], [contains v])"

definition NOT_OPEN :: jsstring where "NOT_OPEN = sql ''(`resolved`,`closed`,`merged`)''"

definition device_ticket :: "thresholds \<Rightarrow> fvalue \<Rightarrow> jsstring" where
  "device_ticket t v =
     ''EXISTS (SELECT 1 FROM ticket_devices td JOIN tickets t ON t.id = td.ticket_id WHERE td.device_id = d.id'' @
     (if v = V_str ''open'' then '' AND t.status NOT IN '' @ NOT_OPEN
      else if v = V_str ''critical'' then sql '' AND t.priority = `critical` AND t.status NOT IN '' @ NOT_OPEN
      else if v = V_str ''high'' then sql '' AND t.priority = `high` AND t.status NOT IN '' @ NOT_OPEN
      else []) @ '')''"

definition bitlocker_cond :: jsstring where
  "bitlocker_cond = sql ''d.health_signals->`bitlocker`->>`protection_status` = `on`''"

definition in_group_before :: jsstring where
  "in_group_before =
     lns [''EXISTS (WITH RECURSIVE anc AS ('',
          ''           SELECT group_id FROM group_members WHERE device_id = d.id'',
          ''           UNION'',
          ''           SELECT gm.group_id FROM group_members gm JOIN anc ON gm.member_group_id = anc.group_id'',
          ''         ) SELECT 1 FROM anc WHERE anc.group_id = '']"

definition devices :: resource where
  "devices =
     \<lparr>rs_table = ''devices d'',
      rs_joins = [''LEFT JOIN users_cache u ON d.assigned_user_id = u.entra_id''],
      rs_select = lns [''d.id, d.hostname, d.serial, d.model, d.manufacturer, d.os, d.os_build,'',
        ''    d.disk_used_pct, d.ram_gb, d.ip_netbird, d.agent_version, d.last_seen,'',
        ''    d.compliance_state,'',
        ''    u.entra_id AS user_id, u.display_name AS user_name, u.email AS user_email,'',
        ''    u.department AS user_department''],
      rs_sort = [(''hostname'', ''d.hostname''), (''last_seen'', ''d.last_seen''), (''disk_used_pct'', ''d.disk_used_pct''),
        (''ram_gb'', ''d.ram_gb''), (''created_at'', ''d.created_at'')],
      rs_default_sort = (''hostname'', False), rs_default_limit = 100, rs_max_limit = 500,
      rs_filters =
       [(''status'', fd (F_enum [''online'', ''offline'', ''critical'', ''warn'', ''unassigned'']) (fixed device_status)),
        (''search'', fd F_text device_search),
        (''hostname_contains'', fd F_text (with_param contains ''d.hostname ILIKE '' [])),
        (''os_contains'', fd F_text (with_param contains ''d.os ILIKE '' [])),
        (''model_contains'', fd F_text (with_param contains ''d.model ILIKE '' [])),
        (''manufacturer'', fd F_text (with_param id ''d.manufacturer ILIKE '' [])),
        (''disk_used_pct_gte'', fd F_number (with_param id ''d.disk_used_pct >= '' [])),
        (''disk_used_pct_lt'', fd F_number (with_param id ''d.disk_used_pct < '' [])),
        (''ram_gb_lt'', fd F_number (with_param id ''d.ram_gb < '' [])),
        (''offline_since_days'', fd F_number
           (with_param id ''(d.last_seen IS NULL OR d.last_seen < now() - make_interval(days => '' ''))'')),
        (''seen_within_days'', fd F_number (with_param id ''d.last_seen > now() - make_interval(days => '' '')'')),
        (''assigned'', fd F_bool (fixed (if_true ''d.assigned_user_id IS NOT NULL'' ''d.assigned_user_id IS NULL''))),
        (''has_agent'', fd F_bool (fixed (if_true ''d.agent_version IS NOT NULL'' ''d.agent_version IS NULL''))),
        (''pending_reboot'', fd F_bool (with_param id (sql ''(d.health_signals->>`pending_reboot`)::bool = '') [])),
        (''bitlocker_active'', fd F_bool (fixed (if_true bitlocker_cond (''NOT ('' @ bitlocker_cond @ '')'')))),
        (''department'', fd (F_resolve R_department) (with_param id ''u.department = '' [])),
        (''assigned_user'', fd (F_resolve R_user) (with_param id ''d.assigned_user_id = '' []))],
      rs_cross =
       [(''has_ticket'', fd (F_enum [''any'', ''open'', ''critical'', ''high'']) (fixed device_ticket)),
        (''failing_rule'', fd (F_enum RULE_IDS)
           (with_param id ''EXISTS (SELECT 1 FROM compliance_results cr WHERE cr.device_id = d.id AND cr.rule_id = ''
              (sql '' AND cr.status = `fail`)''))),
        (''in_group'', fd (F_resolve R_group) (with_param id in_group_before '')''))]\<rparr>"

definition tickets :: resource where
  "tickets =
     \<lparr>rs_table = ''tickets t'',
      rs_joins = [''LEFT JOIN users_cache u ON t.user_id = u.entra_id'', ''LEFT JOIN devices d ON t.device_id = d.id''],
      rs_select = lns [''t.id, t.title, t.status, t.priority, t.is_auto,'',
        ''    t.created_at, t.updated_at, t.resolved_at,'',
        ''    u.display_name AS requester_name, u.email AS requester_email,'',
        ''    d.hostname AS device_hostname''],
      rs_sort = [(''created_at'', ''t.created_at''), (''updated_at'', ''t.updated_at''), (''resolved_at'', ''t.resolved_at''),
        (''priority'', sql ''CASE t.priority WHEN `critical` THEN 0 WHEN `high` THEN 1 WHEN `normal` THEN 2 ELSE 3 END'')],
      rs_default_sort = (''created_at'', True), rs_default_limit = 100, rs_max_limit = 500,
      rs_filters =
       [(''status'', fd (F_enum [''open'', ''in_progress'', ''resolved'', ''closed'', ''merged'']) (with_param id ''t.status = '' [])),
        (''is_open'', fd F_bool (fixed (if_true (''t.status NOT IN '' @ NOT_OPEN) (''t.status IN '' @ NOT_OPEN)))),
        (''priority'', fd (F_enum [''low'', ''normal'', ''high'', ''critical'']) (with_param id ''t.priority = '' [])),
        (''title_contains'', fd F_text (with_param contains ''t.title ILIKE '' [])),
        (''is_auto'', fd F_bool (with_param id ''t.is_auto = '' [])),
        (''created_within_days'', fd F_number (with_param id ''t.created_at > now() - make_interval(days => '' '')'')),
        (''older_than_days'', fd F_number
           (with_param id ''t.resolved_at IS NULL AND t.created_at < now() - make_interval(days => '' '')'')),
        (''requester'', fd (F_resolve R_user) (with_param id ''t.user_id = '' [])),
        (''tag'', fd (F_resolve R_tag)
           (with_param id ''EXISTS (SELECT 1 FROM ticket_tags tt WHERE tt.ticket_id = t.id AND tt.tag_id = '' '')''))],
      rs_cross =
       [(''device_hostname'', fd F_text
           (with_param contains ''EXISTS (SELECT 1 FROM ticket_devices td JOIN devices dd ON dd.id = td.device_id WHERE td.ticket_id = t.id AND dd.hostname ILIKE '' '')''))]\<rparr>"

definition compliance :: resource where
  "compliance =
     \<lparr>rs_table = ''compliance_results cr'',
      rs_joins = [''JOIN devices d ON d.id = cr.device_id'', ''LEFT JOIN users_cache u ON u.entra_id = d.assigned_user_id''],
      rs_select = lns [''cr.device_id, d.hostname, cr.rule_id, cr.status, cr.severity,'',
        ''    cr.value, cr.evaluated_at, u.display_name AS user_name''],
      rs_sort = [(''severity'', sql ''CASE cr.severity WHEN `critical` THEN 0 WHEN `high` THEN 1 WHEN `medium` THEN 2 ELSE 3 END''),
        (''evaluated_at'', ''cr.evaluated_at''), (''hostname'', ''d.hostname'')],
      rs_default_sort = (''severity'', False), rs_default_limit = 200, rs_max_limit = 1000,
      rs_filters =
       [(''rule'', fd (F_enum RULE_IDS) (with_param id ''cr.rule_id = '' [])),
        (''status'', fd (F_enum [''pass'', ''fail'', ''not_applicable'']) (with_param id ''cr.status = '' [])),
        (''severity'', fd (F_enum [''low'', ''medium'', ''high'', ''critical'']) (with_param id ''cr.severity = '' [])),
        (''hostname_contains'', fd F_text (with_param contains ''d.hostname ILIKE '' []))],
      rs_cross = []\<rparr>"

definition REGISTRY :: "(jsstring, resource) jsmap" where
  "REGISTRY = [(''devices'', devices), (''tickets'', tickets), (''compliance'', compliance)]"

section \<open>Validation\<close>

definition TEXT_MAX :: nat where "TEXT_MAX = 200"

datatype group_label = Filters | Cross

datatype query_error =
    Spec_not_object | Unknown_resource | Group_not_object group_label | Unknown_filter group_label jsstring
  | Out_of_list group_label jsstring | Text_expected group_label jsstring | Number_expected group_label jsstring
  | Bool_expected group_label jsstring | Unknown_sort | Bad_limit

fun coerceNumber :: "json \<Rightarrow> rat option" where
  "coerceNumber (JNum q) = Some q"
| "coerceNumber (JStr s) = (if js_trim s = [] then None else case js_num s of Fin q \<Rightarrow> Some q | _ \<Rightarrow> None)"
| "coerceNumber _ = None"

fun coerceBool :: "json \<Rightarrow> bool option" where
  "coerceBool (JBool b) = Some b"
| "coerceBool (JStr s) = (if s = ''true'' then Some True else if s = ''false'' then Some False else None)"
| "coerceBool _ = None"

definition text_value :: "json \<Rightarrow> fvalue option" where
  "text_value v = (case v of JStr s \<Rightarrow> if js_trim s = [] then None else Some (V_str (take TEXT_MAX (js_trim s))) | _ \<Rightarrow> None)"

definition check_value :: "group_label \<Rightarrow> jsstring \<Rightarrow> ftype \<Rightarrow> json \<Rightarrow> query_error + fvalue" where
  "check_value g name t v =
     (case t of
        F_enum vs \<Rightarrow> (case v of JStr s \<Rightarrow> if s \<in> set vs then Inr (V_str s) else Inl (Out_of_list g name) | _ \<Rightarrow> Inl (Out_of_list g name))
      | F_text \<Rightarrow> (case text_value v of None \<Rightarrow> Inl (Text_expected g name) | Some x \<Rightarrow> Inr x)
      | F_resolve k \<Rightarrow> (case text_value v of None \<Rightarrow> Inl (Text_expected g name) | Some x \<Rightarrow> Inr x)
      | F_number \<Rightarrow> (case coerceNumber v of None \<Rightarrow> Inl (Number_expected g name) | Some q \<Rightarrow> Inr (V_num q))
      | F_bool \<Rightarrow> (case coerceBool v of None \<Rightarrow> Inl (Bool_expected g name) | Some b \<Rightarrow> Inr (V_bool b)))"

text \<open>The entries in their order; a null value is skipped. Errors and values are both collected.\<close>

fun check_entries :: "group_label \<Rightarrow> (jsstring, fdef) jsmap \<Rightarrow> (jsstring \<times> json) list \<Rightarrow> query_error list \<times> (jsstring \<times> fvalue) list" where
  "check_entries g defs [] = ([], [])"
| "check_entries g defs ((name, v) # ps) =
     (case check_entries g defs ps of
        (es, out) \<Rightarrow>
          (case jm_get defs name of
             None \<Rightarrow> (Unknown_filter g name # es, out)
           | Some d \<Rightarrow>
               if v = JNull then (es, out)
               else (case check_value g name (fd_type d) v of
                       Inl e \<Rightarrow> (e # es, out) | Inr x \<Rightarrow> (es, (name, x) # out))))"

definition validateFilterGroup :: "json option \<Rightarrow> (jsstring, fdef) jsmap \<Rightarrow> group_label \<Rightarrow> query_error list \<times> (jsstring \<times> fvalue) list" where
  "validateFilterGroup input defs g =
     (if is_nullish input then ([], [])
      else (case input of Some (JObj ps) \<Rightarrow> check_entries g defs ps | _ \<Rightarrow> ([Group_not_object g], [])))"

record spec =
  sp_resource :: jsstring
  sp_filters :: "(jsstring \<times> fvalue) list"
  sp_cross :: "(jsstring \<times> fvalue) list"
  sp_sort :: "jsstring \<times> bool"
  sp_limit :: int

definition sort_field :: "json option \<Rightarrow> json option" where
  "sort_field v = (case v of Some (JStr s) \<Rightarrow> v | _ \<Rightarrow> jprop v ''field'')"

definition check_sort :: "resource \<Rightarrow> json option \<Rightarrow> query_error + jsstring \<times> bool" where
  "check_sort r v =
     (if is_nullish v then Inr (rs_default_sort r)
      else (case sort_field v of
              Some (JStr s) \<Rightarrow>
                if s = [] \<or> jm_get (rs_sort r) s = None then Inl Unknown_sort
                else Inr (s, jprop v ''dir'' = Some (JStr ''desc''))
            | _ \<Rightarrow> Inl Unknown_sort))"

definition check_limit :: "resource \<Rightarrow> json option \<Rightarrow> query_error + int" where
  "check_limit r v =
     (if is_nullish v then Inr (rs_default_limit r)
      else (case coerceNumber (the v) of
              None \<Rightarrow> Inl Bad_limit
            | Some q \<Rightarrow> if q \<le> 0 then Inl Bad_limit else Inr (min \<lfloor>q\<rfloor> (rs_max_limit r))))"

definition errors_of :: "query_error + 'a \<Rightarrow> query_error list" where
  "errors_of r = (case r of Inl e \<Rightarrow> [e] | Inr x \<Rightarrow> [])"

definition validateQuerySpec :: "json option \<Rightarrow> query_error list + spec" where
  "validateQuerySpec raw =
     (case raw of
        Some (JObj ps) \<Rightarrow>
          (case jm_get ps ''resource'' of
             Some (JStr name) \<Rightarrow>
               (case jm_get REGISTRY name of
                  None \<Rightarrow> Inl [Unknown_resource]
                | Some r \<Rightarrow>
                    (case (validateFilterGroup (jm_get ps ''filters'') (rs_filters r) Filters,
                           validateFilterGroup (jm_get ps ''cross'') (rs_cross r) Cross) of
                       ((e1, fs), (e2, cs)) \<Rightarrow>
                         let s = check_sort r (jm_get ps ''sort''); l = check_limit r (jm_get ps ''limit'');
                             es = e1 @ e2 @ errors_of s @ errors_of l
                         in (case (s, l) of
                               (Inr st, Inr lm) \<Rightarrow>
                                 if es \<noteq> [] then Inl es
                                 else Inr \<lparr>sp_resource = name, sp_filters = fs, sp_cross = cs, sp_sort = st, sp_limit = lm\<rparr>
                             | _ \<Rightarrow> Inl es)))
           | _ \<Rightarrow> Inl [Unknown_resource])
      | _ \<Rightarrow> Inl [Spec_not_object])"

section \<open>Compilation\<close>

text \<open>The fragments of a group of filters, after \<open>n\<close> parameters; an unknown name is an exception (\<open>None\<close>).\<close>

fun conditions :: "(jsstring, fdef) jsmap \<Rightarrow> thresholds \<Rightarrow> nat \<Rightarrow> (jsstring \<times> fvalue) list \<Rightarrow> (piece list list \<times> fvalue list) option" where
  "conditions defs t n [] = Some ([], [])"
| "conditions defs t n ((name, v) # fs) =
     (case jm_get defs name of
        None \<Rightarrow> None
      | Some d \<Rightarrow>
          (case fd_apply d t v n of
             (ps, xs) \<Rightarrow> map_option (map_prod (Cons ps) (append xs)) (conditions defs t (n + length xs) fs)))"

fun join_pieces :: "jsstring \<Rightarrow> piece list list \<Rightarrow> piece list" where
  "join_pieces sep [] = []"
| "join_pieces sep [c] = c"
| "join_pieces sep (c # cs) = c @ Txt sep # join_pieces sep cs"

definition NL :: jsstring where "NL = CHR 0x0A # ''    ''"

definition compile :: "thresholds \<Rightarrow> spec \<Rightarrow> (piece list \<times> fvalue list) option" where
  "compile t sp =
     (case jm_get REGISTRY (sp_resource sp) of
        None \<Rightarrow> None
      | Some r \<Rightarrow>
          (case conditions (rs_filters r) t 0 (sp_filters sp) of
             None \<Rightarrow> None
           | Some (c1, p1) \<Rightarrow>
              (case conditions (rs_cross r) t (length p1) (sp_cross sp) of
                 None \<Rightarrow> None
               | Some (c2, p2) \<Rightarrow>
                  (case jm_get (rs_sort r) (fst (sp_sort sp)) of
                     None \<Rightarrow> None
                   | Some order \<Rightarrow>
                      let cs = c1 @ c2; ps = p1 @ p2 @ [V_num (of_int (sp_limit sp))];
                          wher = (if cs = [] then [] else Txt ''WHERE '' # join_pieces '' AND '' cs)
                      in Some ([Txt (''SELECT '' @ rs_select r @ '','' @ NL @ ''       COUNT(*) OVER() AS _total'' @ NL @ ''FROM '' @ rs_table r @
                                  NL @ js_join (CHR 0x0A # ''  '') (rs_joins r) @ NL)] @ wher @
                               [Txt (NL @ ''ORDER BY '' @ order @ (if snd (sp_sort sp) then '' DESC'' else '' ASC'') @ NL @ ''LIMIT ''),
                                Par (length ps)], ps)))))"

section \<open>Resolution of names\<close>

text \<open>\<open>LIKE\<close>: \<open>%\<close> any text, \<open>_\<close> any character, a backslash quotes the next one.\<close>

function like :: "jsstring \<Rightarrow> jsstring \<Rightarrow> bool" where
  "like [] s = (s = [])"
| "like (c # p) s =
     (if c = CHR ''%'' then like p s \<or> (if s = [] then False else like (c # p) (tl s))
      else if c = CHR 0x5C \<and> p \<noteq> [] then s \<noteq> [] \<and> hd s = hd p \<and> like (tl p) (tl s)
      else s \<noteq> [] \<and> (c = CHR ''_'' \<or> hd s = c) \<and> like p (tl s))"
  by pat_completeness auto

termination
  by (relation "measure (\<lambda>(p, s). length p + length s)") (auto simp: neq_Nil_conv)

definition ilike :: "jsstring \<Rightarrow> jsstring option \<Rightarrow> bool" where
  "ilike p s = (case s of None \<Rightarrow> False | Some t \<Rightarrow> like (js_lower p) (js_lower t))"

record person_row =
  pr_entra :: jsstring
  pr_name :: "jsstring option"
  pr_email :: "jsstring option"
  pr_department :: "jsstring option"

record names =
  nm_groups :: "(uuid \<times> jsstring) list"
  nm_people :: "person_row list"
  nm_tags :: "(uuid \<times> jsstring) list"

record candidate =
  ca_value :: fvalue
  ca_label :: "jsstring option"
  ca_email :: "jsstring option"

definition named :: "jsstring \<Rightarrow> (uuid \<times> jsstring) list \<Rightarrow> candidate list" where
  "named p rows =
     map (\<lambda>r. \<lparr>ca_value = V_id (fst r), ca_label = Some (snd r), ca_email = None\<rparr>)
       (sort_key (\<lambda>r. length (snd r)) (filter (\<lambda>r. ilike p (Some (snd r))) rows))"

definition or_zero :: "jsstring option \<Rightarrow> nat" where "or_zero s = (case s of None \<Rightarrow> 0 | Some t \<Rightarrow> length t)"

text \<open>The rows of each query; \<open>ord\<close> is the order the database gives to those it does not sort.\<close>

definition matches_of :: "(jsstring list \<Rightarrow> jsstring list) \<Rightarrow> names \<Rightarrow> rkind \<Rightarrow> jsstring \<Rightarrow> candidate list" where
  "matches_of ord d k raw =
     (let p = ''%'' @ raw @ ''%'' in
      case k of
        R_group \<Rightarrow> named p (nm_groups d)
      | R_tag \<Rightarrow> named p (nm_tags d)
      | R_user \<Rightarrow>
          map (\<lambda>r. \<lparr>ca_value = V_str (pr_entra r), ca_label = pr_name r, ca_email = pr_email r\<rparr>)
            (sort_key (\<lambda>r. or_zero (first_some (pr_name r) (pr_email r)))
              (filter (\<lambda>r. ilike p (pr_name r) \<or> ilike p (pr_email r)) (nm_people d)))
      | R_department \<Rightarrow>
          map (\<lambda>s. \<lparr>ca_value = V_str s, ca_label = Some s, ca_email = None\<rparr>)
            (ord (js_uniq (List.map_filter pr_department (filter (\<lambda>r. ilike p (pr_department r)) (nm_people d))))))"

definition candidates :: "(jsstring list \<Rightarrow> jsstring list) \<Rightarrow> names \<Rightarrow> rkind \<Rightarrow> jsstring \<Rightarrow> candidate list" where
  "candidates ord d k raw = take 6 (matches_of ord d k raw)"

definition eqCi :: "jsstring option \<Rightarrow> jsstring \<Rightarrow> bool" where
  "eqCi a b = (case a of None \<Rightarrow> False | Some s \<Rightarrow> js_lower s = js_lower b)"

definition exact_for :: "rkind \<Rightarrow> jsstring \<Rightarrow> candidate \<Rightarrow> bool" where
  "exact_for k raw c \<longleftrightarrow> eqCi (ca_label c) raw \<or> (k = R_user \<and> eqCi (ca_email c) raw)"

datatype resolve_error = Not_found rkind jsstring | Ambiguous rkind jsstring "jsstring list"

definition resolveOne :: "(jsstring list \<Rightarrow> jsstring list) \<Rightarrow> names \<Rightarrow> rkind \<Rightarrow> jsstring \<Rightarrow> resolve_error + fvalue" where
  "resolveOne ord d k raw =
     (let rows = candidates ord d k raw in
      if rows = [] then Inl (Not_found k raw)
      else (case find (exact_for k raw) rows of
              Some c \<Rightarrow> Inr (ca_value c)
            | None \<Rightarrow>
                if length rows = 1 then Inr (ca_value (hd rows))
                else Inl (Ambiguous k raw (filter (\<lambda>s. s \<noteq> []) (List.map_filter ca_label rows)))))"

fun resolve_group :: "(rkind \<Rightarrow> jsstring \<Rightarrow> resolve_error + fvalue) \<Rightarrow> (jsstring, fdef) jsmap \<Rightarrow> (jsstring \<times> fvalue) list \<Rightarrow>
    resolve_error list \<times> (jsstring \<times> fvalue) list" where
  "resolve_group f defs [] = ([], [])"
| "resolve_group f defs ((name, v) # fs) =
     (case resolve_group f defs fs of
        (es, out) \<Rightarrow>
          (case (map_option fd_type (jm_get defs name), v) of
             (Some (F_resolve k), V_str s) \<Rightarrow>
               (case f k s of Inl e \<Rightarrow> (e # es, (name, v) # out) | Inr x \<Rightarrow> (es, (name, x) # out))
           | _ \<Rightarrow> (es, (name, v) # out)))"

definition resolveSpec :: "(jsstring list \<Rightarrow> jsstring list) \<Rightarrow> names \<Rightarrow> spec \<Rightarrow> resolve_error list + spec" where
  "resolveSpec ord d sp =
     (case jm_get REGISTRY (sp_resource sp) of
        None \<Rightarrow> Inr sp
      | Some r \<Rightarrow>
          (case (resolve_group (resolveOne ord d) (rs_filters r) (sp_filters sp),
                 resolve_group (resolveOne ord d) (rs_cross r) (sp_cross sp)) of
             ((e1, fs), (e2, cs)) \<Rightarrow> if e1 @ e2 \<noteq> [] then Inl (e1 @ e2) else Inr (sp\<lparr>sp_filters := fs, sp_cross := cs\<rparr>)))"

section \<open>The answer of the model\<close>

definition FENCE :: jsstring where "FENCE = [CHR 0x60, CHR 0x60, CHR 0x60]"

definition strip_fence :: "jsstring \<Rightarrow> jsstring" where
  "strip_fence s =
     (if starts_with FENCE s
      then let a = drop 3 s; b = (if js_lower (take 4 a) = ''json'' then drop 4 a else a); c = dropWhile js_space b
           in js_trim (if 3 \<le> length c \<and> drop (length c - 3) c = FENCE then take (length c - 3) c else c)
      else s)"

definition last_index :: "char \<Rightarrow> jsstring \<Rightarrow> nat option" where
  "last_index c s = (let r = takeWhile (\<lambda>x. x \<noteq> c) (rev s) in if length r = length s then None else Some (length s - 1 - length r))"

text \<open>\<open>None\<close>: an exception.\<close>

definition extractJsonObject :: "(jsstring \<Rightarrow> json option) \<Rightarrow> jsstring \<Rightarrow> json option" where
  "extractJsonObject parse str =
     (let s = strip_fence (js_trim str) in
      case parse s of
        Some v \<Rightarrow> Some v
      | None \<Rightarrow>
          (case (js_index_of ''{'' s, last_index (CHR ''}'') s) of
             (Some a, Some b) \<Rightarrow> if a < b then parse (js_slice s a (b + 1)) else None
           | _ \<Rightarrow> None))"

text \<open>\<open>data?.choices?.[0]?.message?.content\<close>, and the block \<open>tool_use\<close>.\<close>

definition extractMistral :: "(jsstring \<Rightarrow> json option) \<Rightarrow> json \<Rightarrow> json option" where
  "extractMistral parse data =
     (case jprop (Some data) ''choices'' of
        Some (JArr (c # cs)) \<Rightarrow>
          (case jprop (jprop (Some c) ''message'') ''content'' of Some (JStr s) \<Rightarrow> extractJsonObject parse s | _ \<Rightarrow> None)
      | _ \<Rightarrow> None)"

definition TOOL_NAME :: jsstring where "TOOL_NAME = ''emit_query_spec''"

definition extractAnthropic :: "json \<Rightarrow> json option" where
  "extractAnthropic data =
     (case jprop (Some data) ''content'' of
        Some (JArr bs) \<Rightarrow>
          (case find (\<lambda>b. jprop (Some b) ''type'' = Some (JStr ''tool_use'') \<and> jprop (Some b) ''name'' = Some (JStr TOOL_NAME)) bs of
             None \<Rightarrow> None
           | Some b \<Rightarrow> (case jprop (Some b) ''input'' of
                          Some (JObj ps) \<Rightarrow> Some (JObj ps) | Some (JArr xs) \<Rightarrow> Some (JArr xs) | Some JNull \<Rightarrow> Some JNull | _ \<Rightarrow> None))
      | _ \<Rightarrow> None)"

section \<open>The route\<close>

record ask_config =
  ag_enabled :: bool
  ag_provider :: jsstring
  ag_url :: jsstring
  ag_model :: jsstring
  ag_key :: jsstring
  ag_thresholds :: thresholds

definition loadConfig :: "(jsstring, jsstring) jsmap \<Rightarrow> jsstring option \<Rightarrow> ask_config" where
  "loadConfig s key =
     \<lparr>ag_enabled = (jm_get s ''ask.enabled'' = Some ''true''),
      ag_provider = or_else (or_null (jm_get s ''ask.provider'')) ''mistral'',
      ag_url = or_else (jm_get s ''ask.url'') [], ag_model = or_else (jm_get s ''ask.model'') [], ag_key = or_else key [],
      ag_thresholds = \<lparr>th_warn = js_parse_int (or_else (jm_get s ''disk_warn_pct'') ''80''),
                       th_critical = js_parse_int (or_else (jm_get s ''disk_critical_pct'') ''90'')\<rparr>\<rparr>"

text \<open>\<open>ask_query\<close> in the log: who, the first 200 characters of the question, the resource and the total.\<close>

record ask_audit =
  aa_by :: jsstring
  aa_target :: jsstring
  aa_resource :: jsstring
  aa_total :: int

datatype 'r answer =
    Question_required | Ask_disabled | Ask_unconfigured | Provider_failed | Not_understood "query_error list"
  | Unresolved "resolve_error list" | Query_failed | Answer spec int "'r list" ask_audit

text \<open>\<open>provider\<close> gives the specification or fails, \<open>exec\<close> runs a query or fails; each row has its \<open>_total\<close>.\<close>

definition ask ::
    "(ask_config \<Rightarrow> jsstring \<Rightarrow> json option) \<Rightarrow> (jsstring \<Rightarrow> fvalue list \<Rightarrow> ('r \<times> int) list option) \<Rightarrow> (jsstring list \<Rightarrow> jsstring list) \<Rightarrow>
      names \<Rightarrow> (jsstring, jsstring) jsmap \<Rightarrow> jsstring option \<Rightarrow> jsstring \<Rightarrow> jsstring option \<Rightarrow> 'r answer" where
  "ask provider exec ord d settings key by question =
     (let q = js_trim (or_else question []); cfg = loadConfig settings key in
      if q = [] then Question_required
      else if \<not> ag_enabled cfg then Ask_disabled
      else if ag_model cfg = [] \<or> ag_key cfg = [] then Ask_unconfigured
      else (case provider cfg q of
              None \<Rightarrow> Provider_failed
            | Some raw \<Rightarrow>
               (case validateQuerySpec (Some raw) of
                  Inl es \<Rightarrow> Not_understood es
                | Inr sp \<Rightarrow>
                   (case resolveSpec ord d sp of
                      Inl es \<Rightarrow> Unresolved es
                    | Inr sp1 \<Rightarrow>
                       (case compile (ag_thresholds cfg) sp1 of
                          None \<Rightarrow> Query_failed
                        | Some (text, params) \<Rightarrow>
                            (case exec (render text) params of
                               None \<Rightarrow> Query_failed
                             | Some rows \<Rightarrow>
                                let total = (if rows = [] then 0 else snd (hd rows))
                                in Answer sp1 total (map fst rows)
                                     \<lparr>aa_by = by, aa_target = take 200 q, aa_resource = sp_resource sp1, aa_total = total\<rparr>))))))"

end
