(* ===== verification/AskSafety.thy ===== *)
theory AskSafety imports Ask "HOL-Library.Sublist" begin

text \<open>
  What the questions may do (\<open>modules/ask\<close>): a validated specification is well typed and compiles; the
  text of the query does not depend on the values given, only its parameters do; a name is resolved to
  the one that equals it.
\<close>

section \<open>Typing\<close>

definition value_ok :: "ftype \<Rightarrow> fvalue \<Rightarrow> bool" where
  "value_ok t v =
     (case t of
        F_enum vs \<Rightarrow> (case v of V_str s \<Rightarrow> s \<in> set vs | _ \<Rightarrow> False)
      | F_text \<Rightarrow> (case v of V_str s \<Rightarrow> s \<noteq> [] \<and> length s \<le> TEXT_MAX | _ \<Rightarrow> False)
      | F_resolve k \<Rightarrow> (case v of V_str s \<Rightarrow> s \<noteq> [] \<and> length s \<le> TEXT_MAX | _ \<Rightarrow> False)
      | F_number \<Rightarrow> (case v of V_num q \<Rightarrow> True | _ \<Rightarrow> False)
      | F_bool \<Rightarrow> (case v of V_bool b \<Rightarrow> True | _ \<Rightarrow> False))"

definition entry_ok :: "(jsstring, fdef) jsmap \<Rightarrow> jsstring \<times> fvalue \<Rightarrow> bool" where
  "entry_ok defs e = (case jm_get defs (fst e) of None \<Rightarrow> False | Some d \<Rightarrow> value_ok (fd_type d) (snd e))"

definition spec_ok :: "spec \<Rightarrow> bool" where
  "spec_ok sp =
     (case jm_get REGISTRY (sp_resource sp) of
        None \<Rightarrow> False
      | Some r \<Rightarrow>
          list_all (entry_ok (rs_filters r)) (sp_filters sp) \<and> list_all (entry_ok (rs_cross r)) (sp_cross sp) \<and>
          jm_get (rs_sort r) (fst (sp_sort sp)) \<noteq> None \<and> 0 \<le> sp_limit sp \<and> sp_limit sp \<le> rs_max_limit r)"

fun_cases check_entries_Cons: "check_entries g defs (p # ps) = r"

lemma text_value_ok: "text_value v = Some x \<Longrightarrow> \<exists>s. x = V_str s \<and> s \<noteq> [] \<and> length s \<le> TEXT_MAX"
  by (auto simp: text_value_def TEXT_MAX_def split: json.splits if_splits)

lemma check_value_ok: "check_value g n t v = Inr x \<Longrightarrow> value_ok t x"
  using text_value_ok [of v x]
  by (auto simp: check_value_def value_ok_def split: ftype.splits json.splits option.splits if_splits)

lemma check_entries_ok: "check_entries g defs ps = (es, out) \<Longrightarrow> list_all (entry_ok defs) out"
proof (induction ps arbitrary: es out)
  case (Cons p ps)
  obtain es0 out0 where c: "check_entries g defs ps = (es0, out0)" by (cases "check_entries g defs ps")
  have "out = out0 \<or> (\<exists>d x. out = (fst p, x) # out0 \<and> jm_get defs (fst p) = Some d \<and> check_value g (fst p) (fd_type d) (snd p) = Inr x)"
    using Cons.prems by (rule check_entries_Cons) (auto simp: c split: option.splits if_splits sum.splits)
  with Cons.IH [OF c] show ?case by (auto simp: entry_ok_def dest: check_value_ok)
qed simp

lemma group_checked: "validateFilterGroup input defs g = (es, out) \<Longrightarrow> list_all (entry_ok defs) out"
  by (auto simp: validateFilterGroup_def split: if_splits option.splits json.splits dest: check_entries_ok)

text \<open>The three resources.\<close>

lemma registry_cases:
  assumes "jm_get REGISTRY n = Some r"
  obtains "n = ''devices''" "r = devices" | "n = ''tickets''" "r = tickets" | "n = ''compliance''" "r = compliance"
  using assms by (auto simp: REGISTRY_def jm_get_def split: if_splits)

lemma default_sorts: "jm_get REGISTRY n = Some r \<Longrightarrow> jm_get (rs_sort r) (fst (rs_default_sort r)) \<noteq> None"
  by (erule registry_cases) (simp_all add: devices_def tickets_def compliance_def jm_get_def)

lemma limits: "jm_get REGISTRY n = Some r \<Longrightarrow> 0 \<le> rs_default_limit r \<and> rs_default_limit r \<le> rs_max_limit r"
  by (erule registry_cases) (simp_all add: devices_def tickets_def compliance_def)

lemma check_sort_ok: "check_sort r v = Inr s \<Longrightarrow> jm_get (rs_sort r) (fst (rs_default_sort r)) \<noteq> None \<Longrightarrow> jm_get (rs_sort r) (fst s) \<noteq> None"
  by (auto simp: check_sort_def split: if_splits option.splits json.splits)

lemma check_limit_ok:
  "check_limit r v = Inr n \<Longrightarrow> 0 \<le> rs_default_limit r \<and> rs_default_limit r \<le> rs_max_limit r \<Longrightarrow> 0 \<le> n \<and> n \<le> rs_max_limit r"
  by (auto simp: check_limit_def split: if_splits option.splits)

lemma validated_ok:
  assumes "validateQuerySpec raw = Inr sp"
  shows "spec_ok sp"
proof -
  from assms obtain ps name r where r: "jm_get REGISTRY name = Some r"
      and f: "sp_resource sp = name" "validateFilterGroup (jm_get ps ''filters'') (rs_filters r) Filters = ([], sp_filters sp)"
        "validateFilterGroup (jm_get ps ''cross'') (rs_cross r) Cross = ([], sp_cross sp)"
        "check_sort r (jm_get ps ''sort'') = Inr (sp_sort sp)" "check_limit r (jm_get ps ''limit'') = Inr (sp_limit sp)"
    by (auto simp: validateQuerySpec_def errors_of_def Let_def split: option.splits json.splits prod.splits sum.splits if_splits)
  show ?thesis
    unfolding spec_ok_def f(1) r option.case
    using group_checked [OF f(2)] group_checked [OF f(3)] check_sort_ok [OF f(4) default_sorts [OF r]] check_limit_ok [OF f(5) limits [OF r]]
    by simp
qed

section \<open>Compilation\<close>

definition names_in :: "(jsstring, fdef) jsmap \<Rightarrow> jsstring list \<Rightarrow> bool" where
  "names_in defs ns \<longleftrightarrow> list_all (\<lambda>n. jm_get defs n \<noteq> None) ns"

lemma conditions_total: "names_in defs (map fst fs) \<Longrightarrow> \<exists>cs ps. conditions defs t n fs = Some (cs, ps)"
proof (induction fs arbitrary: n)
  case (Cons e fs)
  from Cons.prems obtain d where d: "jm_get defs (fst e) = Some d" by (auto simp: names_in_def)
  obtain ps xs where a: "fd_apply d t (snd e) n = (ps, xs)" by (cases "fd_apply d t (snd e) n")
  from Cons.prems have "names_in defs (map fst fs)" by (simp add: names_in_def)
  from Cons.IH [OF this, of "n + length xs"] obtain cs qs where "conditions defs t (n + length xs) fs = Some (cs, qs)" by blast
  with d a show ?case by (cases e) simp
qed simp

definition known_names :: "spec \<Rightarrow> bool" where
  "known_names sp =
     (case jm_get REGISTRY (sp_resource sp) of
        None \<Rightarrow> False
      | Some r \<Rightarrow> names_in (rs_filters r) (map fst (sp_filters sp)) \<and> names_in (rs_cross r) (map fst (sp_cross sp)) \<and>
          jm_get (rs_sort r) (fst (sp_sort sp)) \<noteq> None)"

lemma entries_known: "list_all (entry_ok defs) fs \<Longrightarrow> names_in defs (map fst fs)"
  by (auto simp: names_in_def list_all_iff entry_ok_def split: option.splits)

lemma spec_ok_known: "spec_ok sp \<Longrightarrow> known_names sp"
  by (auto simp: spec_ok_def known_names_def entries_known split: option.splits)

lemma known_compiles:
  assumes "known_names sp"
  shows "compile t sp \<noteq> None"
proof -
  from assms obtain r where r: "jm_get REGISTRY (sp_resource sp) = Some r" "names_in (rs_filters r) (map fst (sp_filters sp))"
      "names_in (rs_cross r) (map fst (sp_cross sp))" "jm_get (rs_sort r) (fst (sp_sort sp)) \<noteq> None"
    by (auto simp: known_names_def split: option.splits)
  obtain c1 p1 where c1: "conditions (rs_filters r) t 0 (sp_filters sp) = Some (c1, p1)" using conditions_total [OF r(2)] by blast
  obtain c2 p2 where "conditions (rs_cross r) t (length p1) (sp_cross sp) = Some (c2, p2)" using conditions_total [OF r(3)] by blast
  with r c1 show ?thesis by (auto simp: compile_def Let_def)
qed

lemma resolve_group_names: "resolve_group f defs fs = (es, out) \<Longrightarrow> map fst out = map fst fs"
proof (induction fs arbitrary: es out)
  case (Cons e fs)
  then show ?case by (cases e) (auto split: prod.splits option.splits ftype.splits fvalue.splits sum.splits)
qed simp

lemma resolved_known: "resolveSpec ord d sp = Inr sp' \<Longrightarrow> known_names sp \<Longrightarrow> known_names sp'"
  by (auto simp: resolveSpec_def known_names_def split: option.splits prod.splits if_splits dest!: resolve_group_names)

section \<open>The text of a query\<close>

text \<open>
  What a filter may do: a filter with free values (texts, numbers, names) writes the same fragment for
  all of them, every filter adds the same number of parameters for all values, and it writes exactly
  the parameters it adds.
\<close>

definition free_type :: "ftype \<Rightarrow> bool" where
  "free_type t \<longleftrightarrow> (case t of F_enum vs \<Rightarrow> False | F_bool \<Rightarrow> False | _ \<Rightarrow> True)"

definition pars :: "piece list \<Rightarrow> nat set" where
  "pars ps = {k. Par k \<in> set ps}"

definition tame :: "fdef \<Rightarrow> bool" where
  "tame d \<longleftrightarrow> (\<forall>t v w n. length (snd (fd_apply d t v n)) = length (snd (fd_apply d t w n)) \<and>
     (free_type (fd_type d) \<longrightarrow> fst (fd_apply d t v n) = fst (fd_apply d t w n)) \<and>
     pars (fst (fd_apply d t v n)) = {n <.. n + length (snd (fd_apply d t v n))})"

definition tame_defs :: "(jsstring, fdef) jsmap \<Rightarrow> bool" where
  "tame_defs defs \<longleftrightarrow> (\<forall>n d. jm_get defs n = Some d \<longrightarrow> tame d)"

lemma pars_simps [simp]:
  "pars [] = {}" "pars (Txt s # ps) = pars ps" "pars (Par k # ps) = insert k (pars ps)" "pars (ps @ qs) = pars ps \<union> pars qs"
  by (auto simp: pars_def)

lemma one_more: "{n <.. Suc n} = {Suc n}" by auto

lemma tame_with_param: "tame (fd t (with_param f a b))"
  by (simp add: tame_def fd_def with_param_def one_more)

lemma tame_fixed: "\<not> free_type t \<Longrightarrow> tame (fd t (fixed f))"
  by (simp add: tame_def fd_def fixed_def)

lemma tame_search: "tame (fd t device_search)"
  by (simp add: tame_def fd_def device_search_def one_more)

lemma tame_defs_list: "list_all (\<lambda>e. tame (snd e)) defs \<Longrightarrow> tame_defs defs"
  by (auto simp: tame_defs_def list_all_iff dest!: jm_get_in)

lemma devices_tame: "list_all (\<lambda>e. tame (snd e)) (rs_filters devices @ rs_cross devices)"
  by (simp add: devices_def tame_with_param tame_fixed tame_search free_type_def)

lemma tickets_tame: "list_all (\<lambda>e. tame (snd e)) (rs_filters tickets @ rs_cross tickets)"
  by (simp add: tickets_def tame_with_param tame_fixed free_type_def)

lemma compliance_tame: "list_all (\<lambda>e. tame (snd e)) (rs_filters compliance @ rs_cross compliance)"
  by (simp add: compliance_def tame_with_param)

lemma registry_tame: "jm_get REGISTRY n = Some r \<Longrightarrow> tame_defs (rs_filters r) \<and> tame_defs (rs_cross r)"
  using devices_tame tickets_tame compliance_tame
  by (elim registry_cases) (auto intro: tame_defs_list)

text \<open>Entries with the same name, and the same value where the type lists its values.\<close>

definition same_entry :: "(jsstring, fdef) jsmap \<Rightarrow> jsstring \<times> fvalue \<Rightarrow> jsstring \<times> fvalue \<Rightarrow> bool" where
  "same_entry defs e f \<longleftrightarrow> fst e = fst f \<and>
     (case jm_get defs (fst e) of None \<Rightarrow> False | Some d \<Rightarrow> free_type (fd_type d) \<or> snd e = snd f)"

lemma tameD:
  assumes "tame d" "fd_apply d t v n = (p, x)" "fd_apply d t w n = (q, y)" "free_type (fd_type d) \<or> v = w"
  shows "length x = length y" "p = q" "pars p = {n <.. n + length x}"
proof -
  have "length (snd (fd_apply d t v n)) = length (snd (fd_apply d t w n))" using assms(1) unfolding tame_def by blast
  then show "length x = length y" unfolding assms(2,3) by simp
  have "free_type (fd_type d) \<Longrightarrow> fst (fd_apply d t v n) = fst (fd_apply d t w n)" using assms(1) unfolding tame_def by blast
  then have "free_type (fd_type d) \<Longrightarrow> p = q" unfolding assms(2,3) by simp
  moreover have "v = w \<Longrightarrow> p = q" using assms(2,3) by simp
  ultimately show "p = q" using assms(4) by blast
  have "pars (fst (fd_apply d t v n)) = {n <.. n + length (snd (fd_apply d t v n))}" using assms(1) unfolding tame_def by blast
  then show "pars p = {n <.. n + length x}" unfolding assms(2) by simp
qed

lemma conditions_ConsE:
  assumes "conditions defs t n (e # fs) = Some (cs, xs)" "jm_get defs (fst e) = Some d" "fd_apply d t (snd e) n = (p, x)"
  obtains cs' xs' where "conditions defs t (n + length x) fs = Some (cs', xs')" "cs = p # cs'" "xs = x @ xs'"
  using assms by (cases e) auto

lemma pars_more: "{n <.. n + k} \<union> {n + k <.. n + k + m} = {n <.. n + (k + m :: nat)}" by auto

lemma same_entryE:
  assumes "same_entry defs e f"
  obtains d where "jm_get defs (fst e) = Some d" "fst f = fst e" "free_type (fd_type d) \<or> snd e = snd f"
proof -
  from assms have a: "fst e = fst f" "case jm_get defs (fst e) of None \<Rightarrow> False | Some d \<Rightarrow> free_type (fd_type d) \<or> snd e = snd f"
    unfolding same_entry_def by blast+
  show ?thesis
  proof (cases "jm_get defs (fst e)")
    case None
    with a(2) show ?thesis by simp
  next
    case (Some d)
    with a(2) have "free_type (fd_type d) \<or> snd e = snd f" by simp
    with Some a(1) [symmetric] show ?thesis by (rule that)
  qed
qed

lemma conditions_same:
  assumes "tame_defs defs" "list_all2 (same_entry defs) fs gs"
    and "conditions defs t n fs = Some (cs, xs)" "conditions defs t n gs = Some (ds, ys)"
  shows "cs = ds \<and> length xs = length ys \<and> pars (concat cs) = {n <.. n + length xs}"
  using assms(2-4)
proof (induction fs arbitrary: n gs cs xs ds ys)
  case (Cons e fs)
  then obtain f gs' where g: "gs = f # gs'" "same_entry defs e f" "list_all2 (same_entry defs) fs gs'" by (auto simp: list_all2_Cons1)
  obtain d where d: "jm_get defs (fst e) = Some d" "fst f = fst e" "free_type (fd_type d) \<or> snd e = snd f"
    by (rule same_entryE [OF g(2)])
  obtain p x where px: "fd_apply d t (snd e) n = (p, x)" by (cases "fd_apply d t (snd e) n")
  obtain q y where qy: "fd_apply d t (snd f) n = (q, y)" by (cases "fd_apply d t (snd f) n")
  have "tame d" using assms(1) d(1) unfolding tame_defs_def by blast
  note t = tameD [OF this px qy d(3)]
  obtain cs' xs' where c: "conditions defs t (n + length x) fs = Some (cs', xs')" "cs = p # cs'" "xs = x @ xs'"
    using Cons.prems(2) d(1) px by (rule conditions_ConsE)
  have "jm_get defs (fst f) = Some d" using d by simp
  with Cons.prems(3) obtain ds' ys' where e: "conditions defs t (n + length y) gs' = Some (ds', ys')" "ds = q # ds'" "ys = y @ ys'"
    unfolding g(1) using qy by (rule conditions_ConsE)
  have "conditions defs t (n + length x) gs' = Some (ds', ys')" using e(1) t(1) by simp
  from Cons.IH [OF g(3) c(1) this]
  have ih: "cs' = ds'" "length xs' = length ys'" "pars (concat cs') = {n + length x <.. n + length x + length xs'}" by blast+
  have "pars (concat cs) = {n <.. n + length x} \<union> {n + length x <.. n + length x + length xs'}"
    unfolding c(2) using t(3) ih(3) by simp
  then have "pars (concat cs) = {n <.. n + length xs}" unfolding c(3) by (simp only: pars_more length_append)
  moreover have "cs = ds" "length xs = length ys" unfolding c(2,3) e(2,3) using t(1,2) ih(1,2) by simp_all
  ultimately show ?case by blast
qed (auto simp: list_all2_Nil)

lemma pars_join: "pars (join_pieces s cs) = pars (concat cs)"
  by (induction s cs rule: join_pieces.induct) auto

section \<open>Patterns\<close>

text \<open>A name without the characters that \<open>LIKE\<close> reads.\<close>

definition plain :: "jsstring \<Rightarrow> bool" where
  "plain s \<longleftrightarrow> list_all (\<lambda>c. c \<noteq> CHR ''%'' \<and> c \<noteq> CHR ''_'' \<and> c \<noteq> CHR 0x5C) s"

lemma like_any: "like ''%'' s"
  by (induction s) simp_all

lemma like_plain: "plain p \<Longrightarrow> like (p @ ''%'') s = prefix p s"
proof (induction p arbitrary: s)
  case Nil
  then show ?case using like_any by simp
next
  case (Cons c p)
  then have "plain p" "c \<noteq> CHR ''%''" "c \<noteq> CHR ''_''" "c \<noteq> CHR 0x5C" by (auto simp: plain_def)
  with Cons.IH show ?case by (cases s) auto
qed

lemma like_contains: "plain p \<Longrightarrow> like (CHR ''%'' # p @ ''%'') s = sublist p s"
proof (induction s)
  case Nil
  then show ?case by (simp add: like_plain)
next
  case (Cons c s)
  then show ?case by (simp add: like_plain sublist_Cons_right)
qed

lemma lower_percent: "lower_char c = CHR ''%'' \<Longrightarrow> c = CHR ''%''"
  by (auto simp: lower_char_def char_eq_iff Let_def split: if_splits)

lemma lower_under: "lower_char c = CHR ''_'' \<Longrightarrow> c = CHR ''_''"
  by (auto simp: lower_char_def char_eq_iff Let_def split: if_splits)

lemma lower_backslash: "lower_char c = CHR 0x5C \<Longrightarrow> c = CHR 0x5C"
  by (auto simp: lower_char_def char_eq_iff Let_def split: if_splits)

lemma plain_lower: "plain s \<Longrightarrow> plain (js_lower s)"
  by (auto simp: plain_def js_lower_def list_all_iff dest: lower_percent lower_under lower_backslash)

lemma lower_wild: "lower_char (CHR ''%'') = CHR ''%''"
  by (simp add: char_eq_iff of_char_lower_char)

lemma lower_pattern: "js_lower (''%'' @ raw @ ''%'') = CHR ''%'' # js_lower raw @ ''%''"
  by (simp add: js_lower_def lower_wild)

lemma ilike_contains: "plain raw \<Longrightarrow> ilike (''%'' @ raw @ ''%'') (Some s) = sublist (js_lower raw) (js_lower s)"
  unfolding ilike_def option.case lower_pattern by (rule like_contains [OF plain_lower])

section \<open>The contract\<close>

lemma compile_parts:
  assumes "compile t sp = Some (ps, xs)" "jm_get REGISTRY (sp_resource sp) = Some r"
  obtains c1 p1 c2 p2 order where "conditions (rs_filters r) t 0 (sp_filters sp) = Some (c1, p1)"
    "conditions (rs_cross r) t (length p1) (sp_cross sp) = Some (c2, p2)" "jm_get (rs_sort r) (fst (sp_sort sp)) = Some order"
    "xs = p1 @ p2 @ [V_num (of_int (sp_limit sp))]"
    "ps = [Txt (''SELECT '' @ rs_select r @ '','' @ NL @ ''       COUNT(*) OVER() AS _total'' @ NL @ ''FROM '' @ rs_table r @
             NL @ js_join (CHR 0x0A # ''  '') (rs_joins r) @ NL)] @
          (if c1 @ c2 = [] then [] else Txt ''WHERE '' # join_pieces '' AND '' (c1 @ c2)) @
          [Txt (NL @ ''ORDER BY '' @ order @ (if snd (sp_sort sp) then '' DESC'' else '' ASC'') @ NL @ ''LIMIT ''), Par (length xs)]"
  using assms by (auto simp: compile_def Let_def split: option.splits prod.splits)

lemma pars_where: "pars (if cs = [] then [] else Txt s # join_pieces sep cs) = pars (concat cs)"
  by (simp add: pars_join)

lemma pars_wrap: "pars ([Txt a] @ ps @ [Txt b, Par n]) = insert n (pars ps)"
  by auto

text \<open>
  C39: The text of a query does not depend on the values that were asked for: two specifications with
  the same resource, sort and names of filters, and the same values only where the registry lists the
  values itself (lists and booleans), compile to the same text, whatever the texts, numbers and
  resolved names are; these are parameters, and the text refers to exactly the parameters that are
  passed with it.
\<close>

lemma values_stay_out_of_the_text:
  assumes r: "jm_get REGISTRY (sp_resource sp) = Some r"
    and same: "sp_resource sp' = sp_resource sp" "sp_sort sp' = sp_sort sp"
      "list_all2 (same_entry (rs_filters r)) (sp_filters sp) (sp_filters sp')"
      "list_all2 (same_entry (rs_cross r)) (sp_cross sp) (sp_cross sp')"
    and "compile t sp = Some (ps, xs)" "compile t sp' = Some (ps', ys)"
  shows "ps = ps' \<and> length xs = length ys \<and> pars ps = {0 <.. length xs}"
proof -
  from assms(6) r obtain c1 p1 c2 p2 o1 where a: "conditions (rs_filters r) t 0 (sp_filters sp) = Some (c1, p1)"
    "conditions (rs_cross r) t (length p1) (sp_cross sp) = Some (c2, p2)" "jm_get (rs_sort r) (fst (sp_sort sp)) = Some o1"
    and ps: "xs = p1 @ p2 @ [V_num (of_int (sp_limit sp))]" "ps = [Txt (''SELECT '' @ rs_select r @ '','' @ NL @ ''       COUNT(*) OVER() AS _total'' @ NL @ ''FROM '' @ rs_table r @
             NL @ js_join (CHR 0x0A # ''  '') (rs_joins r) @ NL)] @
          (if c1 @ c2 = [] then [] else Txt ''WHERE '' # join_pieces '' AND '' (c1 @ c2)) @
          [Txt (NL @ ''ORDER BY '' @ o1 @ (if snd (sp_sort sp) then '' DESC'' else '' ASC'') @ NL @ ''LIMIT ''), Par (length xs)]"
    by (rule compile_parts)
  have r': "jm_get REGISTRY (sp_resource sp') = Some r" using r same(1) by simp
  from assms(7) r' obtain d1 q1 d2 q2 o2 where b: "conditions (rs_filters r) t 0 (sp_filters sp') = Some (d1, q1)"
    "conditions (rs_cross r) t (length q1) (sp_cross sp') = Some (d2, q2)" "jm_get (rs_sort r) (fst (sp_sort sp')) = Some o2"
    and qs: "ys = q1 @ q2 @ [V_num (of_int (sp_limit sp'))]" "ps' = [Txt (''SELECT '' @ rs_select r @ '','' @ NL @ ''       COUNT(*) OVER() AS _total'' @ NL @ ''FROM '' @ rs_table r @
             NL @ js_join (CHR 0x0A # ''  '') (rs_joins r) @ NL)] @
          (if d1 @ d2 = [] then [] else Txt ''WHERE '' # join_pieces '' AND '' (d1 @ d2)) @
          [Txt (NL @ ''ORDER BY '' @ o2 @ (if snd (sp_sort sp') then '' DESC'' else '' ASC'') @ NL @ ''LIMIT ''), Par (length ys)]"
    by (rule compile_parts)
  note tame = registry_tame [OF r, THEN conjunct1] registry_tame [OF r, THEN conjunct2]
  from conditions_same [OF tame(1) same(3) a(1) b(1)]
  have f: "c1 = d1" "length p1 = length q1" "pars (concat c1) = {0 <.. length p1}" unfolding add_0 by blast+
  with b(2) have b2: "conditions (rs_cross r) t (length p1) (sp_cross sp') = Some (d2, q2)" by simp
  from conditions_same [OF tame(2) same(4) a(2) b2]
  have g: "c2 = d2" "length p2 = length q2" "pars (concat c2) = {length p1 <.. length p1 + length p2}" by blast+
  have "o1 = o2" using a(3) b(3) same(2) by simp
  moreover have len: "length xs = Suc (length p1 + length p2)" "length ys = length xs" unfolding ps(1) qs(1) using f(2) g(2) by simp_all
  moreover have "pars ps = {0 <.. length xs}"
    unfolding ps(2) pars_wrap pars_where concat_append pars_simps f(3) g(3) len(1) by auto
  ultimately show ?thesis unfolding ps(2) qs(2) using f(1) g(1) same(2) by simp
qed

text \<open>What a resolved name is: the identifier of a row, or a value that a row has.\<close>

definition resolved_value :: "names \<Rightarrow> rkind \<Rightarrow> fvalue \<Rightarrow> bool" where
  "resolved_value d k v =
     (case k of
        R_group \<Rightarrow> v \<in> (\<lambda>r. V_id (fst r)) ` set (nm_groups d)
      | R_tag \<Rightarrow> v \<in> (\<lambda>r. V_id (fst r)) ` set (nm_tags d)
      | R_user \<Rightarrow> v \<in> (\<lambda>r. V_str (pr_entra r)) ` set (nm_people d)
      | R_department \<Rightarrow> v \<in> V_str ` {s. Some s \<in> pr_department ` set (nm_people d)})"

definition entry_resolved :: "names \<Rightarrow> (jsstring, fdef) jsmap \<Rightarrow> jsstring \<times> fvalue \<Rightarrow> bool" where
  "entry_resolved d defs e =
     (case jm_get defs (fst e) of
        None \<Rightarrow> False
      | Some f \<Rightarrow> (case fd_type f of F_resolve k \<Rightarrow> resolved_value d k (snd e) | t \<Rightarrow> value_ok t (snd e)))"

lemma set_map_filter: "set (List.map_filter f xs) = {y. \<exists>x \<in> set xs. f x = Some y}"
  by (induction xs) (auto split: option.splits)

lemma matches_resolved:
  assumes "\<And>xs. set (ord xs) \<subseteq> set xs" "c \<in> set (matches_of ord d k raw)"
  shows "resolved_value d k (ca_value c)"
proof (cases k)
  case R_department
  with assms(2) obtain s where s: "ca_value c = V_str s"
      "s \<in> set (ord (js_uniq (List.map_filter pr_department (filter (\<lambda>r. ilike (''%'' @ raw @ ''%'') (pr_department r)) (nm_people d)))))"
    by (auto simp: matches_of_def Let_def)
  from subsetD [OF assms(1) s(2)] obtain r where "r \<in> set (nm_people d)" "pr_department r = Some s"
    by (auto simp: set_map_filter)
  then have "Some s \<in> pr_department ` set (nm_people d)" by force
  with s(1) R_department show ?thesis by (simp add: resolved_value_def)
qed (use assms(2) in \<open>force simp: matches_of_def Let_def named_def resolved_value_def\<close>)+

lemma resolveOne_from: "resolveOne ord d k raw = Inr v \<Longrightarrow> \<exists>c \<in> set (candidates ord d k raw). v = ca_value c"
  by (auto simp: resolveOne_def Let_def find_Some_iff split: option.splits if_splits)

lemma resolveOne_resolved:
  assumes "\<And>xs. set (ord xs) \<subseteq> set xs" "resolveOne ord d k raw = Inr v" shows "resolved_value d k v"
proof -
  from resolveOne_from [OF assms(2)] obtain c where "c \<in> set (candidates ord d k raw)" "v = ca_value c" by blast
  then show ?thesis using matches_resolved [OF assms(1)] by (auto simp: candidates_def dest: in_set_takeD)
qed

lemma group_resolved:
  assumes "\<And>k s x. f k s = Inr x \<Longrightarrow> resolved_value d k x"
  shows "resolve_group f defs fs = ([], out) \<Longrightarrow> list_all (entry_ok defs) fs \<Longrightarrow> list_all (entry_resolved d defs) out"
proof (induction fs arbitrary: out)
  case (Cons e fs)
  obtain n v where e: "e = (n, v)" by (cases e)
  obtain es o0 where g: "resolve_group f defs fs = (es, o0)" by (cases "resolve_group f defs fs")
  obtain df where df: "jm_get defs n = Some df" "value_ok (fd_type df) v"
    using Cons.prems(2) by (auto simp: e entry_ok_def split: option.splits)
  have "es = []" using Cons.prems(1) by (auto simp: e g split: option.splits ftype.splits fvalue.splits sum.splits)
  with Cons.IH g Cons.prems(2) have rest: "list_all (entry_resolved d defs) o0" by simp
  show ?case
  proof (cases "\<exists>k. fd_type df = F_resolve k")
    case True
    then obtain k where k: "fd_type df = F_resolve k" by blast
    with df(2) obtain s where "v = V_str s" by (auto simp: value_ok_def split: fvalue.splits)
    with Cons.prems(1) g k df(1) obtain x where "f k s = Inr x" "out = (n, x) # o0" by (auto simp: e split: sum.splits)
    moreover from this(1) have "entry_resolved d defs (n, x)" using assms k df(1) by (simp add: entry_resolved_def)
    ultimately show ?thesis using rest by simp
  next
    case False
    with Cons.prems(1) g df(1) have "out = (n, v) # o0" by (cases "fd_type df") (auto simp: e)
    moreover have "entry_resolved d defs (n, v)" using False df by (cases "fd_type df") (simp_all add: entry_resolved_def)
    ultimately show ?thesis using rest by simp
  qed
qed simp

text \<open>What becomes of an entry: a name is resolved, any other value stays what it is.\<close>

definition kept_or_resolved :: "(rkind \<Rightarrow> jsstring \<Rightarrow> resolve_error + fvalue) \<Rightarrow> (jsstring, fdef) jsmap \<Rightarrow> jsstring \<times> fvalue \<Rightarrow> jsstring \<times> fvalue \<Rightarrow> bool" where
  "kept_or_resolved f defs e e' \<longleftrightarrow> fst e' = fst e \<and>
     (case jm_get defs (fst e) of
        None \<Rightarrow> False
      | Some d \<Rightarrow> (case fd_type d of
                    F_resolve k \<Rightarrow> (case snd e of V_str s \<Rightarrow> f k s = Inr (snd e') | _ \<Rightarrow> False)
                  | _ \<Rightarrow> snd e' = snd e))"

lemma group_keeps:
  "resolve_group f defs fs = ([], out) \<Longrightarrow> list_all (entry_ok defs) fs \<Longrightarrow> list_all2 (kept_or_resolved f defs) fs out"
proof (induction fs arbitrary: out)
  case (Cons e fs)
  obtain n v where e: "e = (n, v)" by (cases e)
  obtain es o0 where g: "resolve_group f defs fs = (es, o0)" by (cases "resolve_group f defs fs")
  obtain df where df: "jm_get defs n = Some df" "value_ok (fd_type df) v"
    using Cons.prems(2) by (auto simp: e entry_ok_def split: option.splits)
  have "es = []" using Cons.prems(1) by (auto simp: e g split: option.splits ftype.splits fvalue.splits sum.splits)
  with Cons.IH g Cons.prems(2) have rest: "list_all2 (kept_or_resolved f defs) fs o0" by simp
  have "\<exists>x. out = (n, x) # o0 \<and> kept_or_resolved f defs e (n, x)"
  proof (cases "\<exists>k. fd_type df = F_resolve k")
    case True
    then obtain k where k: "fd_type df = F_resolve k" by blast
    with df(2) obtain s where "v = V_str s" by (auto simp: value_ok_def split: fvalue.splits)
    with Cons.prems(1) g k df(1) show ?thesis by (auto simp: e kept_or_resolved_def split: sum.splits)
  next
    case False
    with Cons.prems(1) g df(1) show ?thesis by (cases "fd_type df") (auto simp: e kept_or_resolved_def)
  qed
  with rest show ?case by auto
qed simp

lemma resolveSpec_parts:
  assumes "resolveSpec ord d sp = Inr sp'" "jm_get REGISTRY (sp_resource sp) = Some r"
  obtains fs cs where "resolve_group (resolveOne ord d) (rs_filters r) (sp_filters sp) = ([], fs)"
    "resolve_group (resolveOne ord d) (rs_cross r) (sp_cross sp) = ([], cs)" "sp' = sp\<lparr>sp_filters := fs, sp_cross := cs\<rparr>"
  using assms by (auto simp: resolveSpec_def split: prod.splits if_splits)

text \<open>
  C40: A specification that the validation accepts is well typed for its resource (every filter known,
  every value of its type, the sort allowed, the limit within the bound), and it compiles, before and
  after its names are resolved. The resolution keeps the resource, the sort, the limit and the filters
  in their order; it replaces the value of each filter by name with what its name resolves to, a value
  of a row of the database, and no other value.
\<close>

lemma validated_questions_are_well_typed:
  assumes v: "validateQuerySpec raw = Inr sp" and ord: "\<And>xs. set (ord xs) \<subseteq> set xs" and r: "jm_get REGISTRY (sp_resource sp) = Some r"
  shows "spec_ok sp \<and> compile t sp \<noteq> None \<and>
    (\<forall>sp'. resolveSpec ord d sp = Inr sp' \<longrightarrow>
       compile t sp' \<noteq> None \<and>
       list_all2 (kept_or_resolved (resolveOne ord d) (rs_filters r)) (sp_filters sp) (sp_filters sp') \<and>
       list_all2 (kept_or_resolved (resolveOne ord d) (rs_cross r)) (sp_cross sp) (sp_cross sp') \<and>
       list_all (entry_resolved d (rs_filters r)) (sp_filters sp') \<and> list_all (entry_resolved d (rs_cross r)) (sp_cross sp') \<and>
       sp_resource sp' = sp_resource sp \<and> sp_limit sp' = sp_limit sp \<and> sp_sort sp' = sp_sort sp)"
proof -
  have ok: "spec_ok sp" using v by (rule validated_ok)
  then have e: "list_all (entry_ok (rs_filters r)) (sp_filters sp)" "list_all (entry_ok (rs_cross r)) (sp_cross sp)"
    by (simp_all add: spec_ok_def r)
  have "compile t sp' \<noteq> None \<and>
      list_all2 (kept_or_resolved (resolveOne ord d) (rs_filters r)) (sp_filters sp) (sp_filters sp') \<and>
      list_all2 (kept_or_resolved (resolveOne ord d) (rs_cross r)) (sp_cross sp) (sp_cross sp') \<and>
      list_all (entry_resolved d (rs_filters r)) (sp_filters sp') \<and> list_all (entry_resolved d (rs_cross r)) (sp_cross sp') \<and>
      sp_resource sp' = sp_resource sp \<and> sp_limit sp' = sp_limit sp \<and> sp_sort sp' = sp_sort sp"
    if s: "resolveSpec ord d sp = Inr sp'" for sp'
  proof -
    from s r obtain fs cs where g: "resolve_group (resolveOne ord d) (rs_filters r) (sp_filters sp) = ([], fs)"
      "resolve_group (resolveOne ord d) (rs_cross r) (sp_cross sp) = ([], cs)" "sp' = sp\<lparr>sp_filters := fs, sp_cross := cs\<rparr>"
      by (rule resolveSpec_parts)
    note one = resolveOne_resolved [OF ord]
    have "list_all (entry_resolved d (rs_filters r)) fs" by (rule group_resolved [OF one g(1) e(1)])
    moreover have "list_all (entry_resolved d (rs_cross r)) cs" by (rule group_resolved [OF one g(2) e(2)])
    moreover have "compile t sp' \<noteq> None" using resolved_known [OF s spec_ok_known [OF ok]] by (rule known_compiles)
    ultimately show ?thesis using group_keeps [OF g(1) e(1)] group_keeps [OF g(2) e(2)] by (simp add: g(3))
  qed
  with ok known_compiles [OF spec_ok_known [OF ok]] show ?thesis by blast
qed

lemma sublist_same: "sublist p s \<Longrightarrow> length s \<le> length p \<Longrightarrow> s = p"
  by (auto simp: sublist_def)

lemma shortest_is_exact:
  assumes "plain raw" "(i, n) \<in> set rows" "js_lower n = js_lower raw"
  obtains j m rest where "named (''%'' @ raw @ ''%'') rows = \<lparr>ca_value = V_id j, ca_label = Some m, ca_email = None\<rparr> # rest"
    "(j, m) \<in> set rows" "js_lower m = js_lower raw"
proof -
  let ?p = "''%'' @ raw @ ''%''"
  let ?xs = "sort_key (\<lambda>r. length (snd r)) (filter (\<lambda>r. ilike ?p (Some (snd r))) rows)"
  have hit: "ilike ?p (Some n)" unfolding ilike_contains [OF assms(1)] assms(3) by simp
  with assms(2) have mem: "(i, n) \<in> set ?xs" by simp
  have "?xs \<noteq> []" by (rule notI) (use mem in \<open>simp only: list.set empty_iff\<close>)
  then obtain y ys where y: "?xs = y # ys" unfolding neq_Nil_conv by blast
  have ylist: "y \<in> set ?xs" unfolding y by simp
  have "sorted (map (\<lambda>r. length (snd r)) ?xs)" by simp
  with mem have "length (snd y) \<le> length n" unfolding y by auto
  also have "length n = length raw" using arg_cong [OF assms(3), of length] by simp
  finally have len: "length (js_lower (snd y)) \<le> length (js_lower raw)" by simp
  have "ilike ?p (Some (snd y))" using ylist by simp
  then have "sublist (js_lower raw) (js_lower (snd y))" unfolding ilike_contains [OF assms(1)] .
  from sublist_same [OF this len] have e: "js_lower (snd y) = js_lower raw" .
  have m: "(fst y, snd y) \<in> set rows" using ylist by simp
  have "named ?p rows = \<lparr>ca_value = V_id (fst y), ca_label = Some (snd y), ca_email = None\<rparr> # map (\<lambda>r. \<lparr>ca_value = V_id (fst r), ca_label = Some (snd r), ca_email = None\<rparr>) ys"
    unfolding named_def y by simp
  then show ?thesis using m e by (rule that)
qed

text \<open>
  A name that is the name of a group or of a tag, in any case, and has no character that \<open>LIKE\<close>
  reads, resolves to a row with that name, however many other names contain it and although only six
  candidates are read.
\<close>

lemma exact_names_resolve:
  assumes "plain raw" "k = R_group \<or> k = R_tag" "(i, n) \<in> set (if k = R_group then nm_groups d else nm_tags d)" "js_lower n = js_lower raw"
  shows "\<exists>j m. (j, m) \<in> set (if k = R_group then nm_groups d else nm_tags d) \<and> js_lower m = js_lower raw \<and> resolveOne ord d k raw = Inr (V_id j)"
proof -
  let ?rows = "if k = R_group then nm_groups d else nm_tags d"
  from assms(1,3,4) obtain j m rest where h: "named (''%'' @ raw @ ''%'') ?rows = \<lparr>ca_value = V_id j, ca_label = Some m, ca_email = None\<rparr> # rest"
    "(j, m) \<in> set ?rows" "js_lower m = js_lower raw"
    by (rule shortest_is_exact)
  have "matches_of ord d k raw = named (''%'' @ raw @ ''%'') ?rows" using assms(2) by (auto simp: matches_of_def Let_def)
  then have c: "candidates ord d k raw = \<lparr>ca_value = V_id j, ca_label = Some m, ca_email = None\<rparr> # take 5 rest"
    unfolding candidates_def h(1) by simp
  have "exact_for k raw \<lparr>ca_value = V_id j, ca_label = Some m, ca_email = None\<rparr>" using h(3) by (simp add: exact_for_def eqCi_def)
  then have "resolveOne ord d k raw = Inr (V_id j)" unfolding resolveOne_def Let_def c by simp
  with h(2,3) show ?thesis by blast
qed

section \<open>Examples\<close>

definition disks :: thresholds where "disks = \<lparr>th_warn = Some 80, th_critical = Some 90\<rparr>"

definition sample_names :: names where
  "sample_names =
     \<lparr>nm_groups = [(1, ''Compta''), (2, ''Compta Paris''), (3, ''axb'')],
      nm_people = [], nm_tags = [(7, ''net'')]\<rparr>"

definition sample_spec :: json where
  "sample_spec = JObj [(''resource'', JStr ''devices''), (''filters'', JObj [(''ram_gb_lt'', JNum 8), (''assigned'', JBool True)]),
     (''cross'', JObj [(''in_group'', JStr '' Compta '')])]"

lemma sample_valid:
  "validateQuerySpec (Some sample_spec) =
     Inr \<lparr>sp_resource = ''devices'', sp_filters = [(''ram_gb_lt'', V_num 8), (''assigned'', V_bool True)],
          sp_cross = [(''in_group'', V_str ''Compta'')], sp_sort = (''hostname'', False), sp_limit = 100\<rparr>"
  by (simp add: validateQuerySpec_def sample_spec_def jm_get_def REGISTRY_def devices_def validateFilterGroup_def fd_def
      check_value_def text_value_def TEXT_MAX_def js_trim_def js_space_def check_sort_def check_limit_def errors_of_def Let_def)

lemma compta_resolves: "js_lower raw = js_lower ''Compta'' \<Longrightarrow> plain raw \<Longrightarrow> resolveOne id sample_names R_group raw = Inr (V_id 1)"
proof -
  assume l: "js_lower raw = js_lower ''Compta''" and p: "plain raw"
  have "\<exists>j m. (j, m) \<in> set (nm_groups sample_names) \<and> js_lower m = js_lower raw \<and> resolveOne id sample_names R_group raw = Inr (V_id j)"
    using exact_names_resolve [of raw R_group 1 "''Compta''" sample_names id] l p by (simp add: sample_names_def)
  moreover have "length (js_lower m) = 6 \<Longrightarrow> (j, m) \<in> set (nm_groups sample_names) \<Longrightarrow> j = 1" for j m
    by (auto simp: sample_names_def)
  moreover have "length (js_lower raw) = 6" unfolding l by simp
  ultimately show ?thesis by metis
qed

lemma validated_questions_are_well_typed_witness:
  "\<exists>sp sp'. validateQuerySpec (Some sample_spec) = Inr sp \<and> resolveSpec id sample_names sp = Inr sp' \<and>
     sp_filters sp' = [(''ram_gb_lt'', V_num 8), (''assigned'', V_bool True)] \<and> sp_cross sp' = [(''in_group'', V_id 1)] \<and>
     compile disks sp' \<noteq> None \<and> sp_limit sp' = 100"
proof -
  let ?sp = "\<lparr>sp_resource = ''devices'', sp_filters = [(''ram_gb_lt'', V_num 8), (''assigned'', V_bool True)],
      sp_cross = [(''in_group'', V_str ''Compta'')], sp_sort = (''hostname'', False), sp_limit = 100\<rparr>"
  have d: "jm_get REGISTRY ''devices'' = Some devices" by (simp add: jm_get_def REGISTRY_def)
  have c: "resolveOne id sample_names R_group ''Compta'' = Inr (V_id 1)" by (rule compta_resolves) (simp_all add: plain_def)
  have t: "map_option fd_type (jm_get (rs_filters devices) ''ram_gb_lt'') = Some F_number"
      "map_option fd_type (jm_get (rs_filters devices) ''assigned'') = Some F_bool"
      "map_option fd_type (jm_get (rs_cross devices) ''in_group'') = Some (F_resolve R_group)"
    by (simp_all add: devices_def jm_get_def fd_def)
  have r: "resolveSpec id sample_names ?sp = Inr (?sp\<lparr>sp_cross := [(''in_group'', V_id 1)]\<rparr>)"
    by (simp add: resolveSpec_def d t c)
  note w = validated_questions_are_well_typed [OF sample_valid, of id devices disks sample_names]
  have "compile disks (?sp\<lparr>sp_cross := [(''in_group'', V_id 1)]\<rparr>) \<noteq> None" using w r d by simp
  with sample_valid r show ?thesis by simp
qed

definition hostile :: "jsstring \<Rightarrow> spec" where
  "hostile s = \<lparr>sp_resource = ''devices'', sp_filters = [(''hostname_contains'', V_str s)], sp_cross = [],
     sp_sort = (''hostname'', False), sp_limit = 100\<rparr>"

lemma values_stay_out_of_the_text_witness:
  "\<exists>ps xs ys. compile disks (hostile ''pc'') = Some (ps, xs) \<and> compile disks (hostile (sql ''` OR 1=1 --'')) = Some (ps, ys) \<and> pars ps = {0 <.. 2}"
proof -
  have d: "jm_get REGISTRY ''devices'' = Some devices" by (simp add: jm_get_def REGISTRY_def)
  have f: "jm_get (rs_filters devices) ''hostname_contains'' = Some (fd F_text (with_param contains ''d.hostname ILIKE '' []))"
    by (simp add: devices_def jm_get_def)
  have o: "jm_get (rs_sort devices) ''hostname'' = Some ''d.hostname''" by (simp add: devices_def jm_get_def)
  have c: "\<exists>ps xs. compile disks (hostile s) = Some (ps, xs) \<and> length xs = 2" for s
    by (simp add: compile_def hostile_def d f o fd_def with_param_def Let_def)
  obtain ps xs where a: "compile disks (hostile ''pc'') = Some (ps, xs)" "length xs = 2" using c by blast
  obtain qs ys where b: "compile disks (hostile (sql ''` OR 1=1 --'')) = Some (qs, ys)" using c by blast
  have e: "ps = qs \<and> length xs = length ys \<and> pars ps = {0 <.. length xs}"
    by (rule values_stay_out_of_the_text [where r = devices, OF _ _ _ _ _ a(1) b])
      (simp_all add: hostile_def d same_entry_def f fd_def free_type_def)
  have "pars ps = {0 <.. 2}" using e unfolding a(2) by (elim conjE)
  moreover have "compile disks (hostile (sql ''` OR 1=1 --'')) = Some (ps, ys)" unfolding b using e by blast
  ultimately show ?thesis using a(1) by (intro exI conjI)
qed

text \<open>A name with a character of \<open>LIKE\<close> is a pattern: \<open>a_b\<close> resolves to the group \<open>axb\<close>.\<close>

lemma pattern_resolves_to_another: "resolveOne id sample_names R_group ''a_b'' = Inr (V_id 3)"
proof -
  have l: "js_lower ''%a_b%'' = ''%a_b%''" "js_lower ''Compta'' = ''compta''" "js_lower ''Compta Paris'' = ''compta paris''"
      "js_lower ''axb'' = ''axb''" "js_lower ''a_b'' = ''a_b''"
    by (simp_all add: js_lower_def char_eq_iff of_char_lower_char)
  have "matches_of id sample_names R_group ''a_b'' = [\<lparr>ca_value = V_id 3, ca_label = Some ''axb'', ca_email = None\<rparr>]"
    by (simp add: matches_of_def named_def sample_names_def ilike_def l)
  then have "candidates id sample_names R_group ''a_b'' = [\<lparr>ca_value = V_id 3, ca_label = Some ''axb'', ca_email = None\<rparr>]"
    by (simp add: candidates_def)
  then show ?thesis unfolding resolveOne_def Let_def by (simp add: exact_for_def eqCi_def l)
qed

text \<open>
  The query for departments has no order before its \<open>LIMIT 6\<close>: when six others contain the name, the
  one that equals it may be cut off, and the answer is that the name is ambiguous.
\<close>

definition crowded :: names where
  "crowded = \<lparr>nm_groups = [],
     nm_people = map (\<lambda>s. \<lparr>pr_entra = s, pr_name = None, pr_email = None, pr_department = Some s\<rparr>)
       [''it1'', ''it2'', ''it3'', ''it4'', ''it5'', ''it6'', ''it''], nm_tags = []\<rparr>"

lemma exact_department_is_cut: "\<exists>labels. resolveOne id crowded R_department ''it'' = Inl (Ambiguous R_department ''it'' labels)"
proof -
  have l: "js_lower ''%it%'' = ''%it%''" "js_lower ''it'' = ''it''" "js_lower ''it1'' = ''it1''" "js_lower ''it2'' = ''it2''"
      "js_lower ''it3'' = ''it3''" "js_lower ''it4'' = ''it4''" "js_lower ''it5'' = ''it5''" "js_lower ''it6'' = ''it6''"
    by (simp_all add: js_lower_def char_eq_iff of_char_lower_char)
  let ?c = "\<lambda>s. \<lparr>ca_value = V_str s, ca_label = Some s, ca_email = None\<rparr>"
  have "matches_of id crowded R_department ''it'' = map ?c [''it1'', ''it2'', ''it3'', ''it4'', ''it5'', ''it6'', ''it'']"
    by (simp add: matches_of_def crowded_def ilike_def l)
  then have "candidates id crowded R_department ''it'' = map ?c [''it1'', ''it2'', ''it3'', ''it4'', ''it5'', ''it6'']"
    by (simp add: candidates_def)
  then show ?thesis unfolding resolveOne_def Let_def by (simp add: exact_for_def eqCi_def l)
qed

text \<open>A limit below one is accepted, and read as no row at all.\<close>

lemma half_a_row: "check_limit devices (Some (JNum (1 / 2))) = Inr 0"
proof -
  have "\<lfloor>1 / 2 :: rat\<rfloor> = 0" by (simp add: floor_eq_iff)
  then show ?thesis by (simp add: check_limit_def devices_def)
qed

end
