(* ===== verification/Spec2Isabelle.thy ===== *)
theory Spec2Isabelle imports ModuleLoader Fleet AgentSafety DeviceAuth PollSafety MergeSafety TicketRights MailThreads MailOnce OutboxSafety GroupSafety DeploySafety TokenSafety LinkSafety ComplianceSafety SshSafety AskSafety begin

text \<open>
  A verification library for the API of Opale, a server that manages a fleet of machines and its
  tickets (\<open>src/api\<close>, JavaScript on Fastify and PostgreSQL). Modules under \<open>src/api/modules\<close> are
  loaded by \<open>src/api/lib/module-loader.js\<close>; each brings routes, workers and a library, and they
  meet in one database. Agents on the machines (Windows agents with a bearer token, Linux agents
  that sign their requests), administrators and members reach it by HTTP; mails arrive and leave
  through Microsoft Graph.

  \<^bold>\<open>How the code is modelled.\<close> A table is a list of records, a row its record, a column a
  field; \<open>INSERT\<close>, \<open>UPDATE\<close>, \<open>DELETE\<close> and their \<open>WHERE\<close> are list operations
  (\<open>update_rows\<close>), \<open>ON CONFLICT\<close> and unique indexes are tests of the keys, a transaction that
  fails gives back the base it started from. A handler is a function from the request and the base
  to a reply and the new base: every early return and error of the source is a value of a sum type.
  A JavaScript \<open>Map\<close> is a list of pairs in insertion order (\<open>jm_get\<close>, \<open>jm_set\<close>), a parsed JSON
  body a value of \<open>json\<close>, a string a list of characters; identifiers drawn by the database are the
  next number. Time is an explicit argument, random values and cryptography are parameters. Where
  several statements of a handler may interleave with other requests they are separate steps.

  \<^bold>\<open>The theories.\<close>
  \<^item> \<open>Prelude\<close>: strings, maps, tables, JSON and base64; locale \<open>keyed_store\<close> (laws of a map),
    interpreted on \<open>jm_get\<close>, \<open>jm_set\<close>, \<open>jm_del\<close>. \<open>JsNumber\<close>: \<open>Number(s)\<close> and \<open>parseInt\<close>.
  \<^item> \<open>ModuleLoader\<close> (\<open>lib/module-loader.js\<close>): enabled modules, requirements, topological sort,
    registration; the sort succeeds exactly on acyclic requirements.
  \<^item> \<open>RamStores\<close>: what the API keeps in memory (\<open>remote/lib/one-shot-grant.js\<close>,
    \<open>linux/lib/nonce-store.js\<close>, \<open>device-rate.js\<close>, \<open>git-token-store.js\<close>); locale
    \<open>one_shot_store\<close> states what a grant promises.
  \<^item> \<open>Validation\<close> (\<open>inventory/lib/checkin-validation.js\<close>): addresses, bounded texts, NUL.
  \<^item> \<open>LinuxDb\<close>, \<open>Enrollment\<close>, \<open>EnrollmentSafety\<close>, \<open>Fleet\<close> (\<open>linux/lib/enrollment.js\<close>,
    \<open>hostname.js\<close>, \<open>convert.js\<close>, \<open>core/lib/audit.js\<close>, \<open>inventory/lib/device-claim.js\<close>): keys of
    the Linux machines from their first contact to their revocation; the invariant of the fleet, the
    life of a key along any run, what each decision changes. Locale \<open>bulk_op\<close>: a bulk decision is
    its single decisions one after the other.
  \<^item> \<open>Agents\<close>, \<open>AgentSafety\<close> (\<open>linux/lib/checkin.js\<close>, \<open>reports.js\<close>, \<open>escrow.js\<close>,
    \<open>recovery-keys.js\<close>) and \<open>DeviceAuth\<close> (\<open>linux/lib/device-auth.js\<close>): what an approved agent
    does, which signed requests are accepted and that none is replayed.
  \<^item> \<open>TicketDb\<close>, \<open>Tickets\<close>, \<open>TicketProposals\<close> (\<open>tickets/lib\<close>, \<open>tickets/routes\<close>), \<open>TicketSafety\<close>,
    \<open>TicketMachine\<close> (the invariant of the relations along every run), \<open>MergeSafety\<close>,
    \<open>TicketRights\<close> (what a member may change and see).
  \<^item> \<open>MailText\<close>, \<open>MailIngest\<close>, \<open>Inbox\<close>, \<open>PollCursor\<close>, \<open>Outbox\<close> (\<open>email-bridge/lib\<close>) with
    \<open>MailThreads\<close> (round trips of subjects and identifiers), \<open>MailOnce\<close> (ingested once; locale
    \<open>evolution\<close>), \<open>PollSafety\<close> (no mail lost, none abandoned early), \<open>OutboxSafety\<close> (a message
    leaves at most once; refinement of a machine of three phases).
  \<^item> \<open>NativeGroups\<close>, \<open>GroupSafety\<close> (\<open>groups/lib\<close>, \<open>groups/routes\<close>): nested groups, the test
    against cycles, effective members.
  \<^item> \<open>Maintenance\<close>, \<open>Deployments\<close>, \<open>DeployRuns\<close>, \<open>DeploySafety\<close> (\<open>inventory/routes/agent.js\<close>,
    \<open>packages.js\<close>, \<open>deployments.js\<close>, \<open>inventory/lib/deployment-snapshots.js\<close>,
    \<open>plugins/cleanup.js\<close>): maintenance windows, packages, their approval, the deployments and
    what a check-in takes away; only approved contents leave, at most once per queueing.
  \<^item> \<open>AgentTokens\<close>, \<open>Inventory\<close>, \<open>TokenSafety\<close> (\<open>inventory/routes/agent.js\<close>,
    \<open>core/routes/settings.js\<close>): bootstrap, exchange, rotation and revocation of the tokens of the
    Windows agents, and what a check-in writes; the tokens of a machine form one chain.
  \<^item> \<open>AgentLink\<close>, \<open>LinkSafety\<close> (\<open>inventory/lib/agent-ws.js\<close>, \<open>inventory/plugins/agent-ws.js\<close>,
    \<open>remote/lib/console-sessions.js\<close>, \<open>remote/routes/console.js\<close>): connections of the agents and the
    SYSTEM consoles on them, as a step relation; a revocation closes both.
  \<^item> \<open>Compliance\<close>, \<open>ComplianceSafety\<close> (\<open>monitoring/lib/compliance.js\<close>, \<open>monitoring/routes\<close>): the
    rules, their evaluation, proposals, pages and alerts.
  \<^item> \<open>SshAccess\<close>, \<open>SshSafety\<close> (\<open>remote/lib/ssh-host-key.js\<close>, \<open>remote/routes/ssh.js\<close>,
    \<open>inventory/routes/scripts.js\<close>): host keys and what is sent over a connection.
  \<^item> \<open>Ask\<close>, \<open>AskSafety\<close> (\<open>modules/ask\<close>): validation, resolution and compilation of a question; the
    text of the query never holds a value.

  \<^bold>\<open>Fuel.\<close> The recursive queries take fuel: \<open>wouldCreateCycle\<close> the number of links plus two
  (each round meets a new group), \<open>ancestors\<close> the number of links, \<open>effective\<close> the depth limit of the
  code plus one, the import of groups its limit of depth. The lemmas \<open>cycle_check_terminates_and_decides\<close>,
  \<open>device_groups_iff\<close> and \<open>effective_exact\<close> show they are enough.

  \<^bold>\<open>Not modelled.\<close> The web front end, the demonstration and landing pages and the Go agent;
  readings that only shape rows for a page; accounts, onboarding, hardware, stock and reviews, which
  edit single tables; the calls of remote services (Graph, language models,
  git, SSH), which are parameters where the code relies on them; timers and sockets. The manifest
  names each such part.
\<close>

end
